(* ===== verification/Hedge_Prelude.thy ===== *)
theory Hedge_Prelude
  imports Complex_Main "HOL-Library.AList" "HOL-Library.Char_ord" "HOL-Library.List_Lexorder"
    "HOL-Library.Product_Lexorder"
begin

text \<open>
  What the components of the hedge execution subsystem share: Python exceptions as values with
  their class hierarchy, computations that may raise and mutate a state, dictionaries in insertion
  order, text as the 256 Latin-1 code points with the \<open>str\<close> methods the source uses, decimals,
  and the proof rules for "this computation only moves the state along a preorder".

  Conventions used by every theory. A function's arguments range over everything of their annotated
  Python types (so a \<open>Decimal\<close> may be NaN and a \<open>datetime\<close> may be naive); a guard
  that only rejects a value of another type has no case to reject and is left out. The messages of
  exceptions are kept where the code reads them again and are otherwise the source's text.
\<close>

section \<open>Exceptions\<close>

datatype exn_class =
    TypeError | ValueError | KeyError | RuntimeError | PermissionError | OverflowError
  | ArithmeticError
  | TimeoutError | InvalidOrderTransition | ExecutionHaltedError | ExecutionBlockedError
  | IdempotencyConflictError | DefinitiveExchangeOperationError | DefinitiveSubmissionError
  | DefinitiveCancellationError | LockOrderViolation | LeaseLost | LeaseUnavailable
  | HedgeError | HedgeConfigurationError | HedgeDataError
  | Derived string exn_class

text \<open>A class and all its superclasses below \<open>Exception\<close>; \<open>Derived n c\<close> is a
  class named \<open>n\<close> that a port defines below \<open>c\<close>.\<close>

fun supers :: "exn_class \<Rightarrow> exn_class list" where
  "supers InvalidOrderTransition = [InvalidOrderTransition, ValueError]"
| "supers ExecutionHaltedError = [ExecutionHaltedError, RuntimeError]"
| "supers ExecutionBlockedError = [ExecutionBlockedError, RuntimeError]"
| "supers IdempotencyConflictError =
     [IdempotencyConflictError, ExecutionBlockedError, RuntimeError]"
| "supers DefinitiveExchangeOperationError = [DefinitiveExchangeOperationError, RuntimeError]"
| "supers DefinitiveSubmissionError =
     [DefinitiveSubmissionError, DefinitiveExchangeOperationError, RuntimeError]"
| "supers DefinitiveCancellationError =
     [DefinitiveCancellationError, DefinitiveExchangeOperationError, RuntimeError]"
| "supers LockOrderViolation = [LockOrderViolation, RuntimeError]"
| "supers HedgeError = [HedgeError, RuntimeError, ValueError]"
| "supers HedgeConfigurationError = [HedgeConfigurationError, HedgeError, RuntimeError, ValueError]"
| "supers HedgeDataError =
     [HedgeDataError, HedgeConfigurationError, HedgeError, RuntimeError, ValueError]"
| "supers LeaseLost = [LeaseLost, RuntimeError]"
| "supers LeaseUnavailable = [LeaseUnavailable, RuntimeError]"
| "supers (Derived n c) = Derived n c # supers c"
| "supers c = [c]"

fun class_name :: "exn_class \<Rightarrow> string" where
  "class_name TypeError = ''TypeError''"
| "class_name ValueError = ''ValueError''"
| "class_name KeyError = ''KeyError''"
| "class_name RuntimeError = ''RuntimeError''"
| "class_name PermissionError = ''PermissionError''"
| "class_name OverflowError = ''OverflowError''"
| "class_name ArithmeticError = ''ArithmeticError''"
| "class_name TimeoutError = ''TimeoutError''"
| "class_name InvalidOrderTransition = ''InvalidOrderTransition''"
| "class_name ExecutionHaltedError = ''ExecutionHaltedError''"
| "class_name ExecutionBlockedError = ''ExecutionBlockedError''"
| "class_name IdempotencyConflictError = ''IdempotencyConflictError''"
| "class_name DefinitiveExchangeOperationError = ''DefinitiveExchangeOperationError''"
| "class_name DefinitiveSubmissionError = ''DefinitiveSubmissionError''"
| "class_name DefinitiveCancellationError = ''DefinitiveCancellationError''"
| "class_name LockOrderViolation = ''LockOrderViolation''"
| "class_name HedgeError = ''HedgeError''"
| "class_name HedgeConfigurationError = ''HedgeConfigurationError''"
| "class_name HedgeDataError = ''HedgeDataError''"
| "class_name LeaseLost = ''LeaseLost''"
| "class_name LeaseUnavailable = ''LeaseUnavailable''"
| "class_name (Derived n c) = n"

datatype exn = Exn (exn_cls: exn_class) (exn_arg: string)

definition is_a :: "exn \<Rightarrow> exn_class \<Rightarrow> bool" where
  "is_a e c = (c \<in> set (supers (exn_cls e)))"

definition exn_name :: "exn \<Rightarrow> string" where
  "exn_name e = class_name (exn_cls e)"

text \<open>\<open>str(exc)\<close>: the message, which a \<open>KeyError\<close> quotes.\<close>

definition exn_str :: "exn \<Rightarrow> string" where
  "exn_str e = (if KeyError \<in> set (supers (exn_cls e))
     then [CHR 39] @ exn_arg e @ [CHR 39] else exn_arg e)"

text \<open>\<open>f"{type(exc).__name__}:{exc}"\<close>\<close>

definition exn_text :: "exn \<Rightarrow> string" where
  "exn_text e = exn_name e @ '':'' @ exn_str e"

section \<open>Values that may be an error\<close>

type_synonym 'a res = "exn + 'a"

definition res_bind :: "'a res \<Rightarrow> ('a \<Rightarrow> 'b res) \<Rightarrow> 'b res" where
  "res_bind r f = (case r of Inl e \<Rightarrow> Inl e | Inr x \<Rightarrow> f x)"

definition guard :: "bool \<Rightarrow> exn_class \<Rightarrow> string \<Rightarrow> unit res" where
  \<comment> \<open>\<open>if bad: raise c(m)\<close>\<close>
  "guard bad c m = (if bad then Inl (Exn c m) else Inr ())"

lemma res_bind_Inl [simp]: "res_bind (Inl e) f = Inl e"
  by (simp add: res_bind_def)

lemma res_bind_Inr [simp]: "res_bind (Inr x) f = f x"
  by (simp add: res_bind_def)

lemma res_bind_eq_Inr: "res_bind r f = Inr y \<longleftrightarrow> (\<exists>x. r = Inr x \<and> f x = Inr y)"
  by (cases r) auto

lemma guard_eq_Inr: "guard b c m = Inr u \<longleftrightarrow> \<not> b"
  by (simp add: guard_def)

lemma guard_True [simp]: "guard True c m = Inl (Exn c m)"
  by (simp add: guard_def)

lemma guard_False [simp]: "guard False c m = Inr ()"
  by (simp add: guard_def)

lemma if_Inl_eq_Inr: "(if b then Inl e else r) = Inr y \<longleftrightarrow> \<not> b \<and> r = Inr y"
  by simp

lemmas res_splits = res_bind_eq_Inr guard_eq_Inr if_Inl_eq_Inr

section \<open>Computations that mutate a state and may raise\<close>

text \<open>A raise keeps the mutations made before it, as in Python.\<close>

type_synonym ('s, 'a) py = "'s \<Rightarrow> 'a res \<times> 's"

definition py_ret :: "'a \<Rightarrow> ('s, 'a) py" where
  "py_ret x = (\<lambda>s. (Inr x, s))"

definition py_raise :: "exn \<Rightarrow> ('s, 'a) py" where
  "py_raise e = (\<lambda>s. (Inl e, s))"

definition py_of :: "'a res \<Rightarrow> ('s, 'a) py" where
  "py_of r = (\<lambda>s. (r, s))"

definition py_bind :: "('s, 'a) py \<Rightarrow> ('a \<Rightarrow> ('s, 'b) py) \<Rightarrow> ('s, 'b) py" where
  "py_bind m f = (\<lambda>s. case m s of (Inl e, t) \<Rightarrow> (Inl e, t) | (Inr x, t) \<Rightarrow> f x t)"

definition py_then :: "('s, 'a) py \<Rightarrow> ('s, 'b) py \<Rightarrow> ('s, 'b) py" where
  "py_then m n = py_bind m (\<lambda>_. n)"

text \<open>\<open>py_try m\<close> makes the outcome of a \<open>try\<close> body a value; the handler and the
  \<open>else\<close> part are the two cases of the continuation.\<close>

definition py_try :: "('s, 'a) py \<Rightarrow> ('s, 'a res) py" where
  "py_try m = (\<lambda>s. case m s of (r, t) \<Rightarrow> (Inr r, t))"

definition py_catch :: "('s, 'a) py \<Rightarrow> (exn \<Rightarrow> ('s, 'a) py) \<Rightarrow> ('s, 'a) py" where
  "py_catch m h = (\<lambda>s. case m s of (Inl e, t) \<Rightarrow> h e t | (Inr x, t) \<Rightarrow> (Inr x, t))"

definition py_get :: "('s \<Rightarrow> 'a) \<Rightarrow> ('s, 'a) py" where
  "py_get f = (\<lambda>s. (Inr (f s), s))"

definition py_mod :: "('s \<Rightarrow> 's) \<Rightarrow> ('s, unit) py" where
  "py_mod f = (\<lambda>s. (Inr (), f s))"

lemmas py_defs = py_ret_def py_raise_def py_of_def py_bind_def py_then_def py_try_def
  py_catch_def py_get_def py_mod_def

lemma py_bind_eq: "py_bind m f s = (case m s of (Inl e, t) \<Rightarrow> (Inl e, t) | (Inr x, t) \<Rightarrow> f x t)"
  by (simp add: py_bind_def)

lemma py_ret_eq [simp]: "py_ret x s = (Inr x, s)"
  by (simp add: py_ret_def)

lemma py_raise_eq [simp]: "py_raise e s = (Inl e, s)"
  by (simp add: py_raise_def)

lemma py_of_eq [simp]: "py_of r s = (r, s)"
  by (simp add: py_of_def)

lemma py_get_eq [simp]: "py_get f s = (Inr (f s), s)"
  by (simp add: py_get_def)

lemma py_mod_eq [simp]: "py_mod f s = (Inr (), f s)"
  by (simp add: py_mod_def)

lemma py_bind_InrI: "m s = (Inr x, t) \<Longrightarrow> py_bind m f s = f x t"
  by (simp add: py_bind_def)

lemma py_bind_InlI: "m s = (Inl e, t) \<Longrightarrow> py_bind m f s = (Inl e, t)"
  by (simp add: py_bind_def)

lemma py_bind_get [simp]: "py_bind (py_get g) f s = f (g s) s"
  by (simp add: py_bind_def)

lemma py_bind_ret [simp]: "py_bind (py_ret x) f s = f x s"
  by (simp add: py_bind_def)

lemma py_bind_mod [simp]: "py_bind (py_mod g) f s = f () (g s)"
  by (simp add: py_bind_def)

lemma py_bind_raise [simp]: "py_bind (py_raise e) f s = (Inl e, s)"
  by (simp add: py_bind_def)

lemma py_bind_of_Inr [simp]: "py_bind (py_of (Inr x)) f s = f x s"
  by (simp add: py_bind_def)

lemma py_bind_of_Inl [simp]: "py_bind (py_of (Inl e)) f s = (Inl e, s)"
  by (simp add: py_bind_def)

lemma py_bind_cases:
  assumes "py_bind m f s = (r, t)"
  obtains (Err) e where "m s = (Inl e, t)" "r = Inl e"
    | (Ok) x u where "m s = (Inr x, u)" "f x u = (r, t)"
  using assms by (auto simp: py_bind_def split: prod.splits sum.splits)

section \<open>Moving a state along a preorder\<close>

text \<open>
  Most safety properties of a component say that each of its operations, however it ends, moves the
  state along a reflexive and transitive relation: an invariant (\<open>I s \<longrightarrow> I t\<close>), "the
  order book only progresses", "no call was issued". The locale proves once how the combinators
  propagate such a relation; each component interprets it on its own relations.
\<close>

definition moves :: "('s \<Rightarrow> 's \<Rightarrow> bool) \<Rightarrow> ('s, 'a) py \<Rightarrow> bool" where
  "moves R m \<longleftrightarrow> (\<forall>s. R s (snd (m s)))"

lemma movesI: "(\<And>s r t. m s = (r, t) \<Longrightarrow> R s t) \<Longrightarrow> moves R m"
  by (metis moves_def prod.collapse)

lemma movesD: "moves R m \<Longrightarrow> m s = (r, t) \<Longrightarrow> R s t"
  by (metis moves_def snd_conv)

text \<open>The same with an invariant and with what a returned value satisfies.\<close>

definition steps ::
    "('s \<Rightarrow> bool) \<Rightarrow> ('s \<Rightarrow> 's \<Rightarrow> bool) \<Rightarrow> ('s, 'a) py \<Rightarrow> ('a \<Rightarrow> bool) \<Rightarrow> bool" where
  "steps I R m Q \<longleftrightarrow>
     (\<forall>s r t. I s \<longrightarrow> m s = (r, t) \<longrightarrow> I t \<and> R s t \<and> (\<forall>x. r = Inr x \<longrightarrow> Q x))"

lemma stepsI:
  "(\<And>s r t. I s \<Longrightarrow> m s = (r, t) \<Longrightarrow> I t \<and> R s t \<and> (\<forall>x. r = Inr x \<longrightarrow> Q x)) \<Longrightarrow> steps I R m Q"
  by (simp add: steps_def)

lemma stepsD:
  "steps I R m Q \<Longrightarrow> I s \<Longrightarrow> m s = (r, t) \<Longrightarrow> I t \<and> R s t \<and> (\<forall>x. r = Inr x \<longrightarrow> Q x)"
  by (simp add: steps_def)

lemma steps_weaken: "steps I R m Q \<Longrightarrow> (\<And>x. Q x \<Longrightarrow> Q' x) \<Longrightarrow> steps I R m Q'"
  by (auto simp: steps_def)

locale state_preorder =
  fixes R :: "'s \<Rightarrow> 's \<Rightarrow> bool"
  assumes refl_R: "R s s"
    and trans_R: "R s t \<Longrightarrow> R t u \<Longrightarrow> R s u"
begin

lemma mv_ret: "moves R (py_ret x)"
  by (simp add: moves_def refl_R)

lemma mv_raise: "moves R (py_raise e)"
  by (simp add: moves_def refl_R)

lemma mv_of: "moves R (py_of r)"
  by (simp add: moves_def refl_R)

lemma mv_get: "moves R (py_get f)"
  by (simp add: moves_def refl_R)

lemma mv_mod: "(\<And>s. R s (f s)) \<Longrightarrow> moves R (py_mod f)"
  by (simp add: moves_def)

lemma mv_bind:
  assumes "moves R m" and "\<And>x. moves R (f x)"
  shows "moves R (py_bind m f)"
proof (rule movesI)
  fix s r t
  assume "py_bind m f s = (r, t)"
  then show "R s t"
    by (cases rule: py_bind_cases) (use assms in \<open>blast dest: movesD intro: trans_R\<close>)+
qed

lemma mv_then: "moves R m \<Longrightarrow> moves R n \<Longrightarrow> moves R (py_then m n)"
  unfolding py_then_def by (rule mv_bind)

lemma mv_try: "moves R m \<Longrightarrow> moves R (py_try m)"
  by (auto simp: moves_def py_try_def split: prod.splits) (metis snd_conv)

lemma mv_catch:
  assumes "moves R m" and "\<And>e. moves R (h e)"
  shows "moves R (py_catch m h)"
proof (rule movesI)
  fix s r t
  assume *: "py_catch m h s = (r, t)"
  obtain r1 u where m: "m s = (r1, u)" by (cases "m s")
  then have su: "R s u" using assms(1) by (blast dest: movesD)
  show "R s t"
  proof (cases r1)
    case (Inl e)
    with * m have "h e u = (r, t)" by (simp add: py_catch_def)
    then show ?thesis using assms(2) su by (blast dest: movesD intro: trans_R)
  next
    case (Inr x)
    with * m su show ?thesis by (simp add: py_catch_def)
  qed
qed

lemma st_ret: "Q x \<Longrightarrow> steps I R (py_ret x) Q"
  by (simp add: steps_def refl_R)

lemma st_raise: "steps I R (py_raise e) Q"
  by (simp add: steps_def refl_R)

lemma st_of: "(\<And>x. r = Inr x \<Longrightarrow> Q x) \<Longrightarrow> steps I R (py_of r) Q"
  by (simp add: steps_def refl_R)

lemma st_get: "(\<And>s. I s \<Longrightarrow> Q (f s)) \<Longrightarrow> steps I R (py_get f) Q"
  by (simp add: steps_def refl_R)

lemma st_bind:
  assumes "steps I R m Q" and "\<And>x. Q x \<Longrightarrow> steps I R (f x) Q'"
  shows "steps I R (py_bind m f) Q'"
proof (rule stepsI)
  fix s r t
  assume "I s" and b: "py_bind m f s = (r, t)"
  from b show "I t \<and> R s t \<and> (\<forall>x. r = Inr x \<longrightarrow> Q' x)"
  proof (cases rule: py_bind_cases)
    case (Err e)
    with assms(1) \<open>I s\<close> show ?thesis by (blast dest: stepsD)
  next
    case (Ok x u)
    with assms(1) \<open>I s\<close> have "I u" "R s u" "Q x" by (blast dest: stepsD)+
    with assms(2) Ok(2) show ?thesis by (blast dest: stepsD intro: trans_R)
  qed
qed

lemma st_try:
  assumes "steps I R m Q"
  shows "steps I R (py_try m) (\<lambda>r. \<forall>x. r = Inr x \<longrightarrow> Q x)"
proof (rule stepsI)
  fix s r t
  assume "I s" "py_try m s = (r, t)"
  then obtain r' where "m s = (r', t)" "r = Inr r'" by (auto simp: py_try_def split: prod.splits)
  with assms \<open>I s\<close> show "I t \<and> R s t \<and> (\<forall>x. r = Inr x \<longrightarrow> (\<forall>y. x = Inr y \<longrightarrow> Q y))"
    by (blast dest: stepsD)
qed

lemma st_catch:
  assumes "steps I R m Q" and "\<And>e. steps I R (h e) Q"
  shows "steps I R (py_catch m h) Q"
proof (rule stepsI)
  fix s r t
  assume I: "I s" and *: "py_catch m h s = (r, t)"
  obtain r1 u where m: "m s = (r1, u)" by (cases "m s")
  note st = stepsD [OF assms(1) I m]
  show "I t \<and> R s t \<and> (\<forall>x. r = Inr x \<longrightarrow> Q x)"
  proof (cases r1)
    case (Inl e)
    with * m have "h e u = (r, t)" by (simp add: py_catch_def)
    with assms(2) st show ?thesis by (blast dest: stepsD intro: trans_R)
  next
    case (Inr x)
    with * m st show ?thesis by (simp add: py_catch_def)
  qed
qed

lemma st_if:
  "(b \<Longrightarrow> steps I R m Q) \<Longrightarrow> (\<not> b \<Longrightarrow> steps I R n Q) \<Longrightarrow> steps I R (if b then m else n) Q"
  by simp

lemma st_option:
  "steps I R m Q \<Longrightarrow> (\<And>x. v = Some x \<Longrightarrow> steps I R (f x) Q) \<Longrightarrow>
    steps I R (case v of None \<Rightarrow> m | Some x \<Rightarrow> f x) Q"
  by (cases v) auto

lemma st_sum:
  "(\<And>e. v = Inl e \<Longrightarrow> steps I R (g e) Q) \<Longrightarrow> (\<And>x. v = Inr x \<Longrightarrow> steps I R (f x) Q) \<Longrightarrow>
    steps I R (case v of Inl e \<Rightarrow> g e | Inr x \<Rightarrow> f x) Q"
  by (cases v) auto

lemmas mv_basic = mv_ret mv_raise mv_of mv_get
lemmas mv_compose = mv_bind mv_then mv_try mv_catch

end

text \<open>An invariant is such a relation, and so is a quantity that never changes.\<close>

definition keeps :: "('s \<Rightarrow> bool) \<Rightarrow> 's \<Rightarrow> 's \<Rightarrow> bool" where
  "keeps I s t \<longleftrightarrow> (I s \<longrightarrow> I t)"

definition frozen_at :: "('s \<Rightarrow> 'a) \<Rightarrow> 's \<Rightarrow> 's \<Rightarrow> bool" where
  "frozen_at f s t \<longleftrightarrow> f t = f s"

lemma keepsD: "keeps I s t \<Longrightarrow> I s \<Longrightarrow> I t"
  by (simp add: keeps_def)

interpretation kp: state_preorder "keeps I" for I
  by unfold_locales (auto simp: keeps_def)

interpretation fz: state_preorder "frozen_at f" for f
  by unfold_locales (auto simp: frozen_at_def)

section \<open>Dictionaries\<close>

text \<open>A \<open>dict\<close> is an association list in insertion order: assigning to a present key
  keeps its place, a new key goes last (\<^const>\<open>AList.update\<close>).\<close>

type_synonym ('k, 'v) dict = "('k \<times> 'v) list"

abbreviation dict_get :: "('k, 'v) dict \<Rightarrow> 'k \<Rightarrow> 'v option" where
  "dict_get \<equiv> map_of"

abbreviation dict_put :: "'k \<Rightarrow> 'v \<Rightarrow> ('k, 'v) dict \<Rightarrow> ('k, 'v) dict" where
  "dict_put \<equiv> AList.update"

abbreviation dict_del :: "'k \<Rightarrow> ('k, 'v) dict \<Rightarrow> ('k, 'v) dict" where
  "dict_del \<equiv> AList.delete"

abbreviation dict_values :: "('k, 'v) dict \<Rightarrow> 'v list" where
  "dict_values d \<equiv> map snd d"

lemma dict_get_put: "dict_get (dict_put k v d) = (dict_get d)(k \<mapsto> v)"
  by (simp add: update_conv')

lemma dict_get_del: "dict_get (dict_del k d) k' = (if k' = k then None else dict_get d k')"
  by (auto simp: delete_conv')

lemma dict_values_get:
  "distinct (map fst d) \<Longrightarrow> v \<in> set (dict_values d) \<longleftrightarrow> (\<exists>k. dict_get d k = Some v)"
  by (force simp: map_of_eq_Some_iff)

lemma distinct_put: "distinct (map fst d) \<Longrightarrow> distinct (map fst (dict_put k v d))"
  by (rule distinct_update)


lemma dict_values_put:
  assumes "distinct (map fst d)"
  shows "v' \<in> set (dict_values (dict_put k v d))
    \<longleftrightarrow> v' = v \<or> (\<exists>k'. k' \<noteq> k \<and> dict_get d k' = Some v')"
proof -
  have "v' \<in> set (dict_values (dict_put k v d))
      \<longleftrightarrow> (\<exists>k'. ((dict_get d)(k \<mapsto> v)) k' = Some v')"
    using dict_values_get [OF distinct_put [OF assms]] by (simp only: dict_get_put)
  also have "\<dots> \<longleftrightarrow> v' = v \<or> (\<exists>k'. k' \<noteq> k \<and> dict_get d k' = Some v')"
    by (auto split: if_splits)
  finally show ?thesis .
qed

end
