(* ===== verification/Py_Values.thy ===== *)
theory Py_Values
  imports Hedge_Prelude
begin

text \<open>
  The values of the Python programs: text with the \<open>str\<close> methods the source calls,
  \<open>Decimal\<close> with its 28 digit half-even arithmetic, \<open>datetime\<close> as microseconds, and
  the nested metadata values with Python's equality.
\<close>

section \<open>Text\<close>

text \<open>A \<open>str\<close> is a list of Latin-1 code points. \<open>upper\<close> leaves the two letters whose
  capitals lie beyond Latin-1 (181 and 255) alone and turns the sharp s (223) into \<open>SS\<close>.\<close>

definition py_space :: "char \<Rightarrow> bool" where
  "py_space c = (let n = of_char c :: nat in
     (9 \<le> n \<and> n \<le> 13) \<or> (28 \<le> n \<and> n \<le> 32) \<or> n = 133 \<or> n = 160)"

definition strip :: "string \<Rightarrow> string" where
  "strip s = rev (dropWhile py_space (rev (dropWhile py_space s)))"

definition is_control :: "char \<Rightarrow> bool" where
  "is_control c = (let n = of_char c :: nat in n < 32 \<or> n = 127)"

definition has_control :: "string \<Rightarrow> bool" where
  "has_control s = list_ex is_control s"

definition is_upper_ascii :: "char \<Rightarrow> bool" where
  "is_upper_ascii c = (let n = of_char c :: nat in 65 \<le> n \<and> n \<le> 90)"

definition is_lower_ascii :: "char \<Rightarrow> bool" where
  "is_lower_ascii c = (let n = of_char c :: nat in 97 \<le> n \<and> n \<le> 122)"

definition is_digit_ascii :: "char \<Rightarrow> bool" where
  "is_digit_ascii c = (let n = of_char c :: nat in 48 \<le> n \<and> n \<le> 57)"

definition is_alnum :: "char \<Rightarrow> bool" where
  "is_alnum c = (is_upper_ascii c \<or> is_lower_ascii c \<or> is_digit_ascii c)"

text \<open>\<open>s.isascii() and s.isalnum()\<close>\<close>

definition ascii_alnum :: "string \<Rightarrow> bool" where
  "ascii_alnum s = (s \<noteq> [] \<and> list_all is_alnum s)"

definition upper_char :: "char \<Rightarrow> string" where
  "upper_char c = (let n = of_char c :: nat in
     if 97 \<le> n \<and> n \<le> 122 then [char_of (n - 32)]
     else if n = 223 then ''SS''
     else if 224 \<le> n \<and> n \<le> 254 \<and> n \<noteq> 247 then [char_of (n - 32)]
     else [c])"

definition upper :: "string \<Rightarrow> string" where
  "upper s = concat (map upper_char s)"

definition lower_char :: "char \<Rightarrow> char" where
  "lower_char c = (let n = of_char c :: nat in
     if (65 \<le> n \<and> n \<le> 90) \<or> (192 \<le> n \<and> n \<le> 222 \<and> n \<noteq> 215) then char_of (n + 32)
     else c)"

definition lower :: "string \<Rightarrow> string" where
  "lower s = map lower_char s"

fun split_on :: "char \<Rightarrow> string \<Rightarrow> string list" where
  "split_on c [] = [[]]"
| "split_on c (x # xs) = (if x = c then [] # split_on c xs
     else case split_on c xs of [] \<Rightarrow> [[x]] | p # ps \<Rightarrow> (x # p) # ps)"

definition startswith :: "string \<Rightarrow> string \<Rightarrow> bool" where
  "startswith s p = (take (length p) s = p)"

definition endswith :: "string \<Rightarrow> string \<Rightarrow> bool" where
  "endswith s p = (length p \<le> length s \<and> drop (length s - length p) s = p)"

fun joined :: "string \<Rightarrow> string list \<Rightarrow> string" where
  \<comment> \<open>\<open>sep.join(parts)\<close>\<close>
  "joined sep [] = []"
| "joined sep [x] = x"
| "joined sep (x # y # ys) = x @ sep @ joined sep (y # ys)"

lemma split_on_Cons: "\<exists>p ps. split_on c s = p # ps"
  by (induction s) (auto split: list.splits)

lemma split_on_hd: "set (hd (split_on c s)) \<subseteq> set s"
  by (induction s) (auto split: list.splits)

lemma set_strip: "set (strip s) \<subseteq> set s"
proof -
  have "set (dropWhile py_space xs) \<subseteq> set xs" for xs
    by (auto dest: set_dropWhileD)
  from this [of "rev (dropWhile py_space s)"] this [of s] show ?thesis
    by (simp add: strip_def)
qed

lemma strip_ends:
  assumes "strip s \<noteq> []"
  shows "\<not> py_space (hd (strip s))" and "\<not> py_space (last (strip s))"
proof -
  define a where "a = dropWhile py_space s"
  have s: "strip s = rev (dropWhile py_space (rev a))" by (simp add: strip_def a_def)
  have ne: "dropWhile py_space (rev a) \<noteq> []" using assms s by auto
  show "\<not> py_space (last (strip s))" using hd_dropWhile [OF ne] ne by (simp add: s last_rev)
  have an: "a \<noteq> []" using ne by auto
  have sp: "a = strip s @ rev (takeWhile py_space (rev a))"
    using takeWhile_dropWhile_id [of py_space "rev a"] unfolding s
    by (metis rev_append rev_rev_ident)
  have "hd a = hd (strip s)" using sp assms by (metis hd_append2)
  then show "\<not> py_space (hd (strip s))" using hd_dropWhile an unfolding a_def by metis
qed

lemma dropWhile_hd: "xs \<noteq> [] \<Longrightarrow> \<not> P (hd xs) \<Longrightarrow> dropWhile P xs = xs"
  by (cases xs) auto

lemma strip_id:
  "(s = [] \<or> (\<not> py_space (hd s) \<and> \<not> py_space (last s))) \<Longrightarrow> strip s = s"
  by (cases "s = []") (simp_all add: strip_def dropWhile_hd hd_rev)

lemma strip_strip [simp]: "strip (strip s) = strip s"
  by (rule strip_id) (use strip_ends in blast)

subsection \<open>UUIDs\<close>

text \<open>A \<open>UUID\<close> is its 128 bit value; \<open>uuid.hex\<close> writes 32 hexadecimal digits, the most
  significant first.\<close>

definition hex_digit :: "nat \<Rightarrow> char" where
  "hex_digit n = ''0123456789abcdef'' ! n"

definition uuid_hex :: "nat \<Rightarrow> string" where
  "uuid_hex u = map (\<lambda>k. hex_digit (nat (int u div 16 ^ k mod 16))) (rev [0..<32])"

definition uuid_str :: "nat \<Rightarrow> string" where
  \<comment> \<open>\<open>str(uuid)\<close>: the hexadecimal digits in groups\<close>
  "uuid_str u = (let h = uuid_hex u in
     joined ''-'' [take 8 h, take 4 (drop 8 h), take 4 (drop 12 h), take 4 (drop 16 h), drop 20 h])"

lemma hex_digit_set: "n < 16 \<Longrightarrow> hex_digit n \<in> set ''0123456789abcdef''"
  unfolding hex_digit_def by (rule nth_mem) simp

lemma hex_digit_not_space: "n < 16 \<Longrightarrow> \<not> py_space (hex_digit n)"
proof -
  assume "n < 16"
  moreover have "list_all (\<lambda>c. \<not> py_space c) ''0123456789abcdef''" by code_simp
  ultimately show ?thesis using hex_digit_set unfolding list_all_iff by blast
qed

lemma uuid_hex_length [simp]: "length (uuid_hex u) = 32"
  by (simp add: uuid_hex_def)

lemma uuid_hex_chars: "c \<in> set (uuid_hex u) \<Longrightarrow> \<not> py_space c"
  by (auto simp: uuid_hex_def nat_less_iff intro!: hex_digit_not_space)

subsection \<open>Checked text\<close>

text \<open>The shape shared by the text validators of the execution modules: strip, refuse the empty
  text, refuse over-long text and control characters.\<close>

definition required_text :: "exn_class \<Rightarrow> string \<Rightarrow> nat \<Rightarrow> string \<Rightarrow> string res" where
  "required_text c field limit v = (let r = strip v in
     if r = [] then Inl (Exn c (field @ '' is required''))
     else if length r > limit \<or> has_control r then Inl (Exn c (field @ '' is invalid''))
     else Inr r)"

definition optional_text ::
    "exn_class \<Rightarrow> string \<Rightarrow> nat \<Rightarrow> string option \<Rightarrow> string option res" where
  "optional_text c field limit v = (case v of None \<Rightarrow> Inr None | Some w \<Rightarrow>
     let r = strip w in
     if r = [] then Inr None
     else if length r > limit \<or> has_control r then Inl (Exn c (field @ '' is invalid''))
     else Inr (Some r))"

definition clean :: "nat \<Rightarrow> string \<Rightarrow> bool" where
  \<comment> \<open>what a checked text satisfies\<close>
  "clean limit s \<longleftrightarrow> s \<noteq> [] \<and> strip s = s \<and> length s \<le> limit \<and> \<not> has_control s"

lemma required_text_Inr: "required_text c f n v = Inr r \<longleftrightarrow> r = strip v \<and> clean n r"
  by (auto simp: required_text_def clean_def Let_def)

lemma optional_text_Inr:
  "optional_text c f n v = Inr r \<longleftrightarrow>
    (case v of None \<Rightarrow> r = None
     | Some w \<Rightarrow> if strip w = [] then r = None else r = Some (strip w) \<and> clean n (strip w))"
  by (auto simp: optional_text_def clean_def Let_def split: option.splits)

lemma optional_text_clean: "optional_text c f n v = Inr (Some r) \<Longrightarrow> clean n r"
  by (auto simp: optional_text_Inr split: option.splits if_splits)

lemma optional_text_id: "(\<And>r. v = Some r \<Longrightarrow> clean n r) \<Longrightarrow> optional_text c f n v = Inr v"
  by (cases v) (auto simp: optional_text_Inr clean_def)

lemma required_text_id: "clean n v \<Longrightarrow> required_text c f n v = Inr v"
  by (simp add: required_text_Inr clean_def)

section \<open>Decimals\<close>

text \<open>
  \<open>Decimal\<close>: a finite value is the rational it denotes (Python's \<open>==\<close> and \<open><\<close> compare
  values, so trailing zeros and the sign of zero are not kept), beside the infinities and NaN.
  Arithmetic rounds the exact result to 28 significant digits, ties to even, which is Python's
  default context; the exponents stay far inside its limits of plus or minus 999999.
\<close>

datatype dec = DFin rat | DInf bool | DNaN

fun is_finite :: "dec \<Rightarrow> bool" where
  "is_finite (DFin q) = True"
| "is_finite _ = False"

definition finite_decimal :: "exn_class \<Rightarrow> string \<Rightarrow> dec \<Rightarrow> rat res" where
  "finite_decimal c field v = (case v of DFin q \<Rightarrow> Inr q
     | _ \<Rightarrow> Inl (Exn c (field @ '' must be finite'')))"

lemma finite_decimal_Inr: "finite_decimal c f v = Inr q \<longleftrightarrow> v = DFin q"
  by (auto simp: finite_decimal_def split: dec.splits)

lemma finite_decimal_DFin [simp]: "finite_decimal c f (DFin q) = Inr q"
  by (simp add: finite_decimal_def)

function ndigits :: "int \<Rightarrow> int" where
  "ndigits n = (if n < 10 then 1 else 1 + ndigits (n div 10))"
  by pat_completeness auto
termination
  by (relation "measure nat") auto

declare ndigits.simps [simp del]

definition round_half_even :: "rat \<Rightarrow> int" where
  "round_half_even r = (let f = \<lfloor>r\<rfloor>; d = r - of_int f in
     if d < 1 / 2 then f else if d > 1 / 2 then f + 1 else if even f then f else f + 1)"

definition pow10 :: "int \<Rightarrow> rat" where
  "pow10 e = (if 0 \<le> e then 10 ^ nat e else 1 / 10 ^ nat (- e))"

text \<open>The exponent of the last of 28 digits: estimated from the digit counts of numerator and
  denominator, which is one too small when the quotient then has 29 digits.\<close>

definition exp28 :: "rat \<Rightarrow> int" where
  "exp28 q = (let (n, d) = quotient_of \<bar>q\<bar>;
     e = ndigits n - ndigits d - 28
     in if 10 ^ 28 \<le> \<bar>q\<bar> / pow10 e then e + 1 else e)"

definition dec_round :: "rat \<Rightarrow> rat" where
  "dec_round q = (if q = 0 then 0
     else sgn q * of_int (round_half_even (\<bar>q\<bar> / pow10 (exp28 q))) * pow10 (exp28 q))"

definition dec_add :: "rat \<Rightarrow> rat \<Rightarrow> rat" where "dec_add a b = dec_round (a + b)"
definition dec_sub :: "rat \<Rightarrow> rat \<Rightarrow> rat" where "dec_sub a b = dec_round (a - b)"
definition dec_mul :: "rat \<Rightarrow> rat \<Rightarrow> rat" where "dec_mul a b = dec_round (a * b)"
definition dec_div :: "rat \<Rightarrow> rat \<Rightarrow> rat" where "dec_div a b = dec_round (a / b)"

definition dec_sum :: "rat list \<Rightarrow> rat" where
  \<comment> \<open>\<open>sum(values, Decimal("0"))\<close>, left to right\<close>
  "dec_sum xs = foldl dec_add 0 xs"

lemma pow10_pos: "0 < pow10 e"
  by (simp add: pow10_def)

lemma pow10_nz [simp]: "pow10 e \<noteq> 0"
  using pow10_pos [of e] by simp

lemma dec_round_0 [simp]: "dec_round 0 = 0"
  by (simp add: dec_round_def)

lemma exp28_minus [simp]: "exp28 (- q) = exp28 q"
  by (simp add: exp28_def)

lemma dec_round_minus: "dec_round (- q) = - dec_round q"
  by (simp add: dec_round_def sgn_minus)

lemma round_half_even_of_int [simp]: "round_half_even (of_int n) = n"
  by (simp add: round_half_even_def)

lemma round_half_even_nonneg: "0 \<le> r \<Longrightarrow> 0 \<le> round_half_even r"
  by (auto simp: round_half_even_def Let_def le_floor_iff)

text \<open>Rounding never changes the side of zero a value is on.\<close>

lemma dec_round_nonneg: "0 \<le> q \<Longrightarrow> 0 \<le> dec_round q"
proof (cases "q = 0")
  case False
  assume "0 \<le> q"
  with False have "0 < q" by simp
  moreover have "0 \<le> round_half_even (\<bar>q\<bar> / pow10 (exp28 q))"
    using pow10_pos [of "exp28 q"] by (intro round_half_even_nonneg) simp
  ultimately show ?thesis using pow10_pos [of "exp28 q"] by (simp add: dec_round_def)
qed simp

lemma dec_round_nonpos: "q \<le> 0 \<Longrightarrow> dec_round q \<le> 0"
  using dec_round_nonneg [of "- q"] by (simp add: dec_round_minus)

text \<open>A value with at most 28 significant digits is not rounded.\<close>

lemma pow10_powi: "pow10 e = 10 powi e"
  by (simp add: pow10_def power_int_def power_one_over inverse_eq_divide)

lemma pow10_add: "pow10 (a + b) = pow10 a * pow10 b"
  by (simp add: pow10_powi power_int_add)

lemma pow10_1: "pow10 1 = 10"
  by (simp add: pow10_def)

lemma pow10_neg: "pow10 (- e) = 1 / pow10 e"
  by (simp add: pow10_powi power_int_minus divide_inverse)

lemma pow10_ge_1: "0 \<le> e \<Longrightarrow> 1 \<le> pow10 e"
  by (simp add: pow10_def)

lemma pow10_int: "0 \<le> e \<Longrightarrow> \<exists>k :: int. pow10 e = of_int k"
  by (rule exI [of _ "10 ^ nat e"]) (simp add: pow10_def)

lemma ndigits_bounds:
  "1 \<le> n \<Longrightarrow> 1 \<le> ndigits n \<and> pow10 (ndigits n - 1) \<le> of_int n \<and> of_int n < pow10 (ndigits n)"
proof (induction n rule: ndigits.induct)
  case (1 n)
  show ?case
  proof (cases "n < 10")
    case True
    with 1(2) show ?thesis by (simp add: ndigits.simps [of n] pow10_def)
  next
    case False
    define m where "m = n div 10"
    have IH: "1 \<le> ndigits m" "pow10 (ndigits m - 1) \<le> of_int m" "of_int m < pow10 (ndigits m)"
      using 1(1) [OF False] False by (auto simp: m_def)
    have nd: "ndigits n = 1 + ndigits m" using False by (simp add: ndigits.simps [of n] m_def)
    have m10: "10 * m \<le> n" "n < 10 * (m + 1)" by (auto simp: m_def)
    obtain k :: int where k: "pow10 (ndigits m) = of_int k" using pow10_int IH(1) by fastforce
    then have "m + 1 \<le> k" using IH(3) by simp
    then have "n < 10 * k" using m10 by simp
    then have up: "of_int n < pow10 (ndigits n)"
      using k by (simp add: nd pow10_add pow10_1)
    have "pow10 (ndigits m) = 10 * pow10 (ndigits m - 1)"
      using pow10_add [of 1 "ndigits m - 1"] by (simp add: pow10_1)
    also have "\<dots> \<le> 10 * of_int m" using IH(2) by simp
    also have "\<dots> \<le> of_int n" using m10(1) by (metis of_int_le_iff of_int_mult of_int_numeral)
    finally show ?thesis using up IH(1) by (simp add: nd)
  qed
qed

lemma exp28_lower:
  assumes "q \<noteq> 0"
  shows "10 ^ 27 \<le> \<bar>q\<bar> / pow10 (exp28 q)"
proof -
  obtain n d where nd: "quotient_of \<bar>q\<bar> = (n, d)" by (cases "quotient_of \<bar>q\<bar>")
  have d: "0 < d" using quotient_of_denom_pos [OF nd] .
  have q: "\<bar>q\<bar> = of_int n / of_int d" using quotient_of_div [OF nd] .
  have n: "1 \<le> n" using q d assms
    by (metis abs_of_nonpos int_one_le_iff_zero_less not_le of_int_0_le_iff of_int_pos
        divide_le_0_iff of_int_le_0_iff zero_less_abs_iff less_le_not_le)
  define e where "e = ndigits n - ndigits d - 28"
  have bn: "pow10 (ndigits n - 1) \<le> of_int n" using ndigits_bounds [OF n] by simp
  have bd: "of_int d < pow10 (ndigits d)" using ndigits_bounds [of d] d by simp
  have "pow10 (ndigits n - 1) / pow10 (ndigits d) \<le> of_int n / of_int d"
    using bn bd d n pow10_pos by (intro frac_le) (auto intro: less_imp_le)
  moreover have "pow10 (ndigits n - 1) / pow10 (ndigits d) = 10 ^ 27 * pow10 e"
  proof -
    have "ndigits n - 1 = 27 + (e + ndigits d)" by (simp add: e_def)
    then have "pow10 (ndigits n - 1) = pow10 27 * (pow10 e * pow10 (ndigits d))"
      by (simp only: pow10_add)
    then show ?thesis by (simp add: pow10_def [of 27])
  qed
  ultimately have low: "10 ^ 27 * pow10 e \<le> \<bar>q\<bar>" by (simp add: q)
  have ex: "exp28 q = (if 10 ^ 28 \<le> \<bar>q\<bar> / pow10 e then e + 1 else e)"
    by (simp add: exp28_def nd e_def)
  show ?thesis
  proof (cases "10 ^ 28 \<le> \<bar>q\<bar> / pow10 e")
    case True
    then show ?thesis by (simp add: ex pow10_add pow10_1)
  next
    case False
    then show ?thesis using low pow10_pos [of e] by (simp add: ex field_simps)
  qed
qed

lemma dec_round_exact:
  assumes "q = of_int n * pow10 e" and "\<bar>n\<bar> < 10 ^ 28"
  shows "dec_round q = q"
proof (cases "q = 0")
  case False
  define x where "x = exp28 q"
  have lo: "10 ^ 27 \<le> \<bar>q\<bar> / pow10 x" using exp28_lower [OF False] by (simp add: x_def)
  have aq: "\<bar>q\<bar> / pow10 x = of_int \<bar>n\<bar> * pow10 (e - x)"
    using pow10_add [of e "- x"] pow10_pos [of e] by (simp add: assms(1) pow10_neg abs_mult)
  have "x \<le> e"
  proof (rule ccontr)
    assume "\<not> x \<le> e"
    then have "pow10 (e - x) = pow10 (e - x + 1) / 10"
      using pow10_add [of "e - x" 1] by (simp add: pow10_1)
    moreover have "pow10 (e - x + 1) \<le> 1"
    proof -
      have "e - x + 1 = - (x - e - 1)" by simp
      then have "pow10 (e - x + 1) = 1 / pow10 (x - e - 1)" by (simp only: pow10_neg)
      moreover have "1 \<le> pow10 (x - e - 1)" using \<open>\<not> x \<le> e\<close> by (intro pow10_ge_1) simp
      ultimately show ?thesis by (simp add: divide_le_eq_1)
    qed
    ultimately have "pow10 (e - x) \<le> 1 / 10" by simp
    then have "of_int \<bar>n\<bar> * pow10 (e - x) \<le> of_int \<bar>n\<bar> / (10 :: rat)"
      using mult_left_mono [of "pow10 (e - x)" "1 / 10" "of_int \<bar>n\<bar>"] by simp
    moreover have "of_int \<bar>n\<bar> < (10 ^ 28 :: rat)"
      using assms(2) by (metis of_int_less_iff of_int_numeral of_int_power)
    ultimately show False using lo aq by simp
  qed
  then obtain k :: int where "pow10 (e - x) = of_int k" using pow10_int [of "e - x"] by auto
  then have "\<bar>q\<bar> / pow10 x = of_int (\<bar>n\<bar> * k)" by (simp add: aq)
  then have "of_int (round_half_even (\<bar>q\<bar> / pow10 x)) = \<bar>q\<bar> / pow10 x"
    by (metis round_half_even_of_int)
  then show ?thesis using False by (simp add: dec_round_def x_def [symmetric] sgn_mult_abs)
qed simp

lemma dec_round_int: "\<bar>n\<bar> < 10 ^ 28 \<Longrightarrow> dec_round (of_int n) = of_int n"
  by (rule dec_round_exact [of _ n 0]) (simp_all add: pow10_def)

lemma dec_round_numeral [simp]: "(numeral k :: int) < 10 ^ 28 \<Longrightarrow> dec_round (numeral k) = numeral k"
  using dec_round_int [of "numeral k"] by simp

lemma dec_round_one [simp]: "dec_round 1 = 1"
  using dec_round_int [of 1] by simp

text \<open>For evaluation: a value with at most 14 decimals and 28 digits is returned as it is.\<close>

lemma dec_round_code [code]:
  "dec_round q = (case quotient_of q of (n, d) \<Rightarrow>
     if 100000000000000 mod d = 0 \<and> \<bar>n * (100000000000000 div d)\<bar> < 10000000000000000000000000000 then q
     else if q = 0 then 0
     else let x = exp28 q in sgn q * of_int (round_half_even (\<bar>q\<bar> / pow10 x)) * pow10 x)"
proof -
  obtain n d where nd: "quotient_of q = (n, d)" by fastforce
  have "dec_round q = q"
    if "100000000000000 mod d = 0" "\<bar>n * (100000000000000 div d)\<bar> < 10000000000000000000000000000"
  proof (rule dec_round_exact)
    have d: "0 < d" using quotient_of_denom_pos [OF nd] .
    have "d * (100000000000000 div d) = 100000000000000" using that(1) by (simp add: mod_eq_0_iff_dvd)
    then have "of_int d * of_int (100000000000000 div d) = (100000000000000 :: rat)"
      by (metis of_int_mult of_int_numeral)
    then have "q * 100000000000000 = q * of_int d * of_int (100000000000000 div d)" by (simp only: mult.assoc)
    also have "q * of_int d = of_int n" using quotient_of_div [OF nd] d by simp
    finally show "q = of_int (n * (100000000000000 div d)) * pow10 (- 14)" by (simp add: pow10_def)
    show "\<bar>n * (100000000000000 div d)\<bar> < 10 ^ 28" using that(2) by simp
  qed
  then show ?thesis using nd by (auto simp: dec_round_def Let_def)
qed

section \<open>Times\<close>

text \<open>A \<open>datetime\<close> counts microseconds from \<open>datetime.min\<close>, in UTC when aware. A
  \<open>timedelta\<close> is a number of microseconds; both types are bounded and their arithmetic raises
  \<open>OverflowError\<close> outside.\<close>

datatype datetime = Naive int | Aware int

definition datetime_max :: int where
  "datetime_max = 3652059 * 86400 * 1000000 - 1"

definition timedelta_max :: int where
  "timedelta_max = 1000000000 * 86400 * 1000000 - 1"

definition aware :: "exn_class \<Rightarrow> string \<Rightarrow> datetime \<Rightarrow> int res" where
  "aware c field v = (case v of Aware t \<Rightarrow> Inr t
     | Naive t \<Rightarrow> Inl (Exn c (field @ '' must be timezone-aware'')))"

definition timedelta_check :: "int \<Rightarrow> int res" where
  "timedelta_check d = (if \<bar>d\<bar> \<le> timedelta_max then Inr d
     else Inl (Exn OverflowError ''timedelta out of range''))"

definition datetime_add :: "int \<Rightarrow> int \<Rightarrow> int res" where
  "datetime_add t d = (if 0 \<le> t + d \<and> t + d \<le> datetime_max then Inr (t + d)
     else Inl (Exn OverflowError ''date value out of range''))"

lemma aware_Inr: "aware c f v = Inr t \<longleftrightarrow> v = Aware t"
  by (auto simp: aware_def split: datetime.splits)

lemma aware_Aware [simp]: "aware c f (Aware t) = Inr t"
  by (simp add: aware_def)

end
