(* ===== verification/Metadata.thy ===== *)
theory Metadata
  imports Py_Values
begin

text \<open>
  Intent and audit metadata (\<open>freqtrade/hedge/execution/service.py\<close>, \<open>_freeze_value\<close>
  and \<open>_freeze_mapping\<close>): nested values are copied into an immutable form, with bounds on
  depth and size and with normalised keys. The values covered are \<open>None\<close>, booleans, integers,
  floats, finite decimals, strings, UUIDs, datetimes, sequences and mappings; sets, plain dates and
  enum members are not modelled. Python's \<open>==\<close> on frozen values is \<open>pv_eq\<close>: it
  crosses the numeric types and ignores the order of mappings. The lemmas show that frozen values
  are well formed, that \<open>==\<close> is reflexive on them and that freezing twice changes nothing.
\<close>

datatype pyval =
    VNone | VBool bool | VInt int | VFloat dec | VDec rat | VStr string | VUuid nat
  | VDate datetime | VSeq "pyval list" | VMap "(string \<times> pyval) list"
  | VShow pyval     \<comment> \<open>the text \<open>str(x)\<close> or \<open>x.isoformat()\<close> of a value\<close>
  | VOther string   \<comment> \<open>a value of any other class\<close>

type_synonym mapping = "(string \<times> pyval) list"

fun freeze_value :: "nat \<Rightarrow> pyval \<Rightarrow> pyval res"
  and freeze_items :: "nat \<Rightarrow> mapping \<Rightarrow> mapping \<Rightarrow> mapping res"
  and freeze_seq :: "nat \<Rightarrow> pyval list \<Rightarrow> pyval list res"
where
  "freeze_value depth value =
     (if depth > 12 then Inl (Exn ValueError ''metadata nesting is too deep'')
      else case value of
        VStr s \<Rightarrow> if length s > 65536 \<or> has_control s
          then Inl (Exn ValueError ''metadata string is invalid'') else Inr (VStr s)
      | VFloat f \<Rightarrow> if is_finite f then Inr (VFloat f)
          else Inl (Exn ValueError ''metadata float must be finite'')
      | VMap items \<Rightarrow> if length items > 1000
          then Inl (Exn ValueError ''metadata mapping is too large'')
          else res_bind (freeze_items (Suc depth) [] items) (\<lambda>m. Inr (VMap m))
      | VSeq xs \<Rightarrow> if length xs > 1000
          then Inl (Exn ValueError ''metadata sequence is too large'')
          else res_bind (freeze_seq (Suc depth) xs) (\<lambda>ys. Inr (VSeq ys))
      | VOther c \<Rightarrow> Inl (Exn TypeError (''unsupported metadata value: '' @ c))
      | v \<Rightarrow> Inr v)"
| "freeze_items depth converted [] = Inr converted"
| "freeze_items depth converted ((raw_key, raw_value) # items) =
     res_bind (required_text ValueError ''metadata key'' 256 raw_key) (\<lambda>key.
     if key \<in> set (map fst converted)
     then Inl (Exn ValueError ''metadata keys collide after normalization'')
     else res_bind (freeze_value depth raw_value) (\<lambda>v.
       freeze_items depth (converted @ [(key, v)]) items))"
| "freeze_seq depth [] = Inr []"
| "freeze_seq depth (x # xs) =
     res_bind (freeze_value depth x) (\<lambda>y.
     res_bind (freeze_seq depth xs) (\<lambda>ys. Inr (y # ys)))"

declare freeze_value.simps [simp del]

definition freeze_mapping :: "mapping \<Rightarrow> mapping res" where
  "freeze_mapping value = (case freeze_value 0 (VMap value) of
     Inl e \<Rightarrow> Inl e
   | Inr (VMap m) \<Rightarrow> Inr m
   | Inr _ \<Rightarrow> Inl (Exn TypeError ''must be a mapping''))"

section \<open>Equality\<close>

definition num_eq :: "rat \<Rightarrow> pyval \<Rightarrow> bool" where
  "num_eq q w = (case w of
     VBool b \<Rightarrow> q = (if b then 1 else 0) | VInt i \<Rightarrow> q = of_int i
   | VFloat (DFin r) \<Rightarrow> q = r | VDec r \<Rightarrow> q = r | _ \<Rightarrow> False)"

fun pv_eq :: "pyval \<Rightarrow> pyval \<Rightarrow> bool"
  and seq_eq :: "pyval list \<Rightarrow> pyval list \<Rightarrow> bool"
  and map_le_eq :: "mapping \<Rightarrow> mapping \<Rightarrow> bool"
where
  "pv_eq VNone w = (w = VNone)"
| "pv_eq (VBool b) w = num_eq (if b then 1 else 0) w"
| "pv_eq (VInt i) w = num_eq (of_int i) w"
| "pv_eq (VFloat f) w = (case f of DFin q \<Rightarrow> num_eq q w
     | DInf s \<Rightarrow> w = VFloat (DInf s) | DNaN \<Rightarrow> False)"
| "pv_eq (VDec q) w = num_eq q w"
| "pv_eq (VStr s) w = (w = VStr s)"
| "pv_eq (VUuid u) w = (w = VUuid u)"
| "pv_eq (VDate d) w = (w = VDate d)"
| "pv_eq (VSeq xs) w = (case w of VSeq ys \<Rightarrow> seq_eq xs ys | _ \<Rightarrow> False)"
| "pv_eq (VMap xs) w = (case w of VMap ys \<Rightarrow> length xs = length ys \<and> map_le_eq xs ys
     | _ \<Rightarrow> False)"
| "pv_eq (VShow v) w = (w = VShow v)"
| "pv_eq (VOther c) w = (w = VOther c)"
| "seq_eq [] ys = (ys = [])"
| "seq_eq (x # xs) ys = (case ys of [] \<Rightarrow> False | y # ys' \<Rightarrow> pv_eq x y \<and> seq_eq xs ys')"
| "map_le_eq [] ys = True"
| "map_le_eq ((k, v) # xs) ys =
     ((case map_of ys k of None \<Rightarrow> False | Some w \<Rightarrow> pv_eq v w) \<and> map_le_eq xs ys)"

definition mapping_eq :: "mapping \<Rightarrow> mapping \<Rightarrow> bool" where
  "mapping_eq a b = pv_eq (VMap a) (VMap b)"

section \<open>Frozen values are well formed\<close>

text \<open>The bounds \<open>_freeze_value\<close> imposes, as a predicate on its results.\<close>

fun pv_ok :: "nat \<Rightarrow> pyval \<Rightarrow> bool" where
  "pv_ok d (VStr s) = (d \<le> 12 \<and> length s \<le> 65536 \<and> \<not> has_control s)"
| "pv_ok d (VFloat f) = (d \<le> 12 \<and> is_finite f)"
| "pv_ok d (VSeq xs) = (d \<le> 12 \<and> length xs \<le> 1000 \<and> list_all (pv_ok (Suc d)) xs)"
| "pv_ok d (VMap m) = (d \<le> 12 \<and> length m \<le> 1000 \<and> distinct (map fst m)
     \<and> list_all (\<lambda>p. clean 256 (fst p) \<and> pv_ok (Suc d) (snd p)) m)"
| "pv_ok d (VOther c) = False"
| "pv_ok d _ = (d \<le> 12)"

definition mapping_ok :: "mapping \<Rightarrow> bool" where
  "mapping_ok m = pv_ok 0 (VMap m)"

lemma freeze_ok:
  "freeze_value d v = Inr w \<Longrightarrow> pv_ok d w"
  "freeze_items d acc items = Inr m \<Longrightarrow> distinct (map fst acc) \<Longrightarrow>
     list_all (\<lambda>p. clean 256 (fst p) \<and> pv_ok d (snd p)) acc \<Longrightarrow>
     length m = length acc + length items \<and> distinct (map fst m)
       \<and> list_all (\<lambda>p. clean 256 (fst p) \<and> pv_ok d (snd p)) m"
  "freeze_seq d xs = Inr ys \<Longrightarrow> length ys = length xs \<and> list_all (pv_ok d) ys"
proof (induction d v and d acc items and d xs arbitrary: w and m and ys
    rule: freeze_value_freeze_items_freeze_seq.induct)
  case (1 d v)
  show ?case
  proof (cases v)
    case (VSeq xs)
    with 1 show ?thesis
      by (auto simp: freeze_value.simps res_bind_eq_Inr split: if_splits)
  next
    case (VMap m)
    with 1 show ?thesis
      by (auto simp: freeze_value.simps res_bind_eq_Inr split: if_splits)
  qed (use "1.prems" in \<open>auto simp: freeze_value.simps split: if_splits\<close>)
next
  case (3 d acc k v items)
  obtain key w where k: "required_text ValueError ''metadata key'' 256 k = Inr key"
    "key \<notin> set (map fst acc)" "freeze_value d v = Inr w"
    "freeze_items d (acc @ [(key, w)]) items = Inr m"
    using "3.prems"(1) by (auto simp: res_bind_eq_Inr split: if_splits)
  have "pv_ok d w" using "3.IH"(1) [OF k(2,3)] .
  moreover have "clean 256 key" using k(1) by (auto simp: required_text_Inr)
  ultimately show ?case using "3.IH"(2) [OF k(2,4)] "3.prems"(2,3) k(2) by auto
qed (auto simp: res_bind_eq_Inr)

lemma freeze_mapping_ok: "freeze_mapping m = Inr n \<Longrightarrow> mapping_ok n"
  by (auto simp: freeze_mapping_def mapping_ok_def split: sum.splits pyval.splits
      dest!: freeze_ok(1))

lemma num_eq_refl [simp]:
  "num_eq (of_int i) (VInt i)" "num_eq q (VDec q)" "num_eq q (VFloat (DFin q))"
  "num_eq (if b then 1 else 0) (VBool b)"
  by (simp_all add: num_eq_def)

lemma map_le_eqI:
  "(\<And>k v. (k, v) \<in> set xs \<Longrightarrow> \<exists>w. map_of ys k = Some w \<and> pv_eq v w) \<Longrightarrow> map_le_eq xs ys"
proof (induction xs)
  case (Cons p xs)
  obtain k v where p: "p = (k, v)" by (cases p)
  obtain w where "map_of ys k = Some w" "pv_eq v w" using Cons.prems [of k v] p by auto
  moreover have "map_le_eq xs ys" by (rule Cons.IH) (use Cons.prems in auto)
  ultimately show ?case by (simp add: p)
qed simp

lemma seq_eqI: "(\<And>x. x \<in> set xs \<Longrightarrow> pv_eq x x) \<Longrightarrow> seq_eq xs xs"
  by (induction xs) auto

lemma pv_eq_refl: "pv_ok d v \<Longrightarrow> pv_eq v v"
proof (induction d v rule: pv_ok.induct)
  case (2 d f)
  then show ?case by (cases f) auto
next
  case (3 d xs)
  then show ?case by (auto intro!: seq_eqI simp: list_all_iff)
next
  case (4 d m)
  have "map_le_eq m m"
  proof (rule map_le_eqI)
    fix k v
    assume kv: "(k, v) \<in> set m"
    then have "pv_eq v v" using 4 by (force simp: list_all_iff)
    moreover have "map_of m k = Some v" using kv 4(2) by simp
    ultimately show "\<exists>w. map_of m k = Some w \<and> pv_eq v w" by blast
  qed
  then show ?case by simp
qed auto

lemma mapping_eq_refl: "mapping_ok m \<Longrightarrow> mapping_eq m m"
  unfolding mapping_ok_def mapping_eq_def by (rule pv_eq_refl)

section \<open>Freezing is idempotent\<close>

lemma freeze_id:
  "pv_ok d v \<Longrightarrow> freeze_value d v = Inr v"
  "distinct (map fst (acc @ items)) \<Longrightarrow>
     list_all (\<lambda>p. clean 256 (fst p) \<and> pv_ok d (snd p)) items \<Longrightarrow>
     freeze_items d acc items = Inr (acc @ items)"
  "list_all (pv_ok d) xs \<Longrightarrow> freeze_seq d xs = Inr xs"
proof (induction d v and d acc items and d xs rule: freeze_value_freeze_items_freeze_seq.induct)
  case (1 d v)
  then show ?case by (cases v) (auto simp: freeze_value.simps)
next
  case (3 d acc k v items)
  have "required_text ValueError ''metadata key'' 256 k = Inr k"
    using "3.prems"(2) by (simp add: required_text_id)
  moreover have "k \<notin> set (map fst acc)" using "3.prems"(1) by auto
  moreover have "freeze_value d v = Inr v" using "3.IH"(1) calculation "3.prems"(2) by simp
  ultimately show ?case using "3.IH"(2) "3.prems" by simp
qed auto

lemma freeze_mapping_id: "mapping_ok m \<Longrightarrow> freeze_mapping m = Inr m"
  unfolding mapping_ok_def freeze_mapping_def by (simp add: freeze_id(1))

lemma freeze_mapping_idem: "freeze_mapping m = Inr n \<Longrightarrow> freeze_mapping n = Inr n"
  by (blast intro: freeze_mapping_id freeze_mapping_ok)

lemma mapping_ok_Nil [simp]: "mapping_ok []"
  by (simp add: mapping_ok_def)

lemma mapping_eq_Nil [simp]: "mapping_eq [] []"
  by (simp add: mapping_eq_def)

end
