(* ===== verification/Order_State.thy ===== *)
theory Order_State
  imports Py_Values
begin

text \<open>
  The order lifecycle state machine, \<open>freqtrade/hedge/execution/state_machine.py\<close>: the states and
  the table of allowed transitions, the validated lifecycle record (\<open>mk_lifecycle\<close> is its
  constructor with \<open>__post_init__\<close>), and the three operations \<open>transition\<close>,
  \<open>reconcile_terminal_fact\<close> and \<open>_build_fact\<close> (here \<open>build_fact\<close>). The lemmas give
  the exact condition under which a transition succeeds, the invariant of the record, and what every
  sequence of lifecycle steps keeps: fills never shrink, versions count the steps, and a terminal
  order only ever absorbs late fills after a cancel.
\<close>

section \<open>States\<close>

datatype order_state =
    PREPARED | SUBMITTING | ACKNOWLEDGED | PARTIAL | FILLED | CANCELED | REJECTED | UNKNOWN

definition TERMINAL_STATES :: "order_state list" where
  "TERMINAL_STATES = [FILLED, CANCELED, REJECTED]"

fun ALLOWED_TRANSITIONS :: "order_state \<Rightarrow> order_state list" where
  "ALLOWED_TRANSITIONS PREPARED = [SUBMITTING, CANCELED, REJECTED, UNKNOWN]"
| "ALLOWED_TRANSITIONS SUBMITTING = [ACKNOWLEDGED, PARTIAL, FILLED, REJECTED, UNKNOWN]"
| "ALLOWED_TRANSITIONS ACKNOWLEDGED =
     [ACKNOWLEDGED, PARTIAL, FILLED, CANCELED, REJECTED, UNKNOWN]"
| "ALLOWED_TRANSITIONS PARTIAL = [PARTIAL, FILLED, CANCELED, UNKNOWN]"
| "ALLOWED_TRANSITIONS UNKNOWN =
     [UNKNOWN, ACKNOWLEDGED, PARTIAL, FILLED, CANCELED, REJECTED]"
| "ALLOWED_TRANSITIONS FILLED = []"
| "ALLOWED_TRANSITIONS CANCELED = []"
| "ALLOWED_TRANSITIONS REJECTED = []"

fun state_value :: "order_state \<Rightarrow> string" where
  "state_value PREPARED = ''PREPARED''"
| "state_value SUBMITTING = ''SUBMITTING''"
| "state_value ACKNOWLEDGED = ''ACKNOWLEDGED''"
| "state_value PARTIAL = ''PARTIAL''"
| "state_value FILLED = ''FILLED''"
| "state_value CANCELED = ''CANCELED''"
| "state_value REJECTED = ''REJECTED''"
| "state_value UNKNOWN = ''UNKNOWN''"

definition all_states :: "order_state list" where
  "all_states =
     [PREPARED, SUBMITTING, ACKNOWLEDGED, PARTIAL, FILLED, CANCELED, REJECTED, UNKNOWN]"

text \<open>\<open>target if isinstance(target, OrderState) else OrderState(target)\<close>\<close>

definition coerce_state ::
    "exn_class \<Rightarrow> string \<Rightarrow> order_state + string \<Rightarrow> order_state res" where
  "coerce_state c message v = (case v of
     Inl s \<Rightarrow> Inr s
   | Inr t \<Rightarrow> (case find (\<lambda>s. state_value s = t) all_states of
       Some s \<Rightarrow> Inr s | None \<Rightarrow> Inl (Exn c message)))"

lemma coerce_state_Inl [simp]: "coerce_state c m (Inl s) = Inr s"
  by (simp add: coerce_state_def)

lemma all_states_complete [simp]: "s \<in> set all_states"
  by (cases s) (simp_all add: all_states_def)

section \<open>The lifecycle record\<close>

record order_lifecycle =
  lc_status :: order_state
  lc_filled_quantity :: rat
  lc_average_price :: "rat option"
  lc_exchange_order_id :: "string option"
  lc_version :: int
  lc_updated_at :: int
  lc_reason :: "string option"

definition INITIAL_TIME :: int where
  "INITIAL_TIME = 0"

abbreviation "iot \<equiv> Exn InvalidOrderTransition"

definition lc_terminal :: "order_lifecycle \<Rightarrow> bool" where
  "lc_terminal lc = (lc_status lc \<in> set TERMINAL_STATES)"

definition check_average :: "rat \<Rightarrow> dec option \<Rightarrow> rat option res" where
  "check_average filled average_price = (case average_price of
     None \<Rightarrow> Inr None
   | Some a \<Rightarrow> res_bind (finite_decimal InvalidOrderTransition ''average_price'' a) (\<lambda>average.
       if average \<le> 0 \<or> filled \<le> 0
       then Inl (iot ''average_price must be positive and requires a positive fill'')
       else Inr (Some average)))"

definition check_state_fill :: "order_state \<Rightarrow> rat \<Rightarrow> unit res" where
  "check_state_fill status filled =
     (if status = ACKNOWLEDGED \<and> filled \<noteq> 0 then Inl (iot ''ACKNOWLEDGED requires filled == 0'')
      else if status = PARTIAL \<and> filled \<le> 0
      then Inl (iot ''PARTIAL requires positive filled_quantity'')
      else if status = FILLED \<and> filled \<le> 0
      then Inl (iot ''FILLED requires positive filled_quantity'')
      else if status = REJECTED \<and> filled \<noteq> 0 then Inl (iot ''REJECTED requires filled == 0'')
      else Inr ())"

definition mk_lifecycle :: "order_state + string \<Rightarrow> dec \<Rightarrow> dec option \<Rightarrow> string option \<Rightarrow>
    int \<Rightarrow> datetime \<Rightarrow> string option \<Rightarrow> order_lifecycle res" where
  "mk_lifecycle status_v filled_quantity average_price exchange_order_id version updated_at reason =
     res_bind (coerce_state InvalidOrderTransition ''status is invalid'' status_v) (\<lambda>status.
     res_bind (finite_decimal InvalidOrderTransition ''filled_quantity'' filled_quantity) (\<lambda>filled.
     if filled < 0 then Inl (iot ''filled_quantity must not be negative'') else
     res_bind (check_average filled average_price) (\<lambda>average.
     if version < 0 then Inl (iot ''version must be a non-negative integer'') else
     res_bind (aware InvalidOrderTransition ''updated_at'' updated_at) (\<lambda>updated.
     res_bind (optional_text InvalidOrderTransition ''exchange_order_id'' 256 exchange_order_id)
       (\<lambda>ex_id.
     res_bind (optional_text InvalidOrderTransition ''reason'' 1024 reason) (\<lambda>reason_text.
     res_bind (check_state_fill status filled) (\<lambda>_.
     Inr \<lparr>lc_status = status, lc_filled_quantity = filled, lc_average_price = average,
          lc_exchange_order_id = ex_id, lc_version = version, lc_updated_at = updated,
          lc_reason = reason_text\<rparr>)))))))"

text \<open>\<open>OrderLifecycle(updated_at=now)\<close>: every other field at its default.\<close>

definition new_lifecycle :: "int \<Rightarrow> order_lifecycle" where
  "new_lifecycle now = \<lparr>lc_status = PREPARED, lc_filled_quantity = 0, lc_average_price = None,
     lc_exchange_order_id = None, lc_version = 0, lc_updated_at = now, lc_reason = None\<rparr>"

lemma new_lifecycle_mk:
  "mk_lifecycle (Inl PREPARED) (DFin 0) None None 0 (Aware now) None = Inr (new_lifecycle now)"
  by (simp add: mk_lifecycle_def check_average_def check_state_fill_def optional_text_def
      new_lifecycle_def)

section \<open>Transitions\<close>

text \<open>The keyword arguments of a transition.\<close>

record order_fact =
  of_ordered_quantity :: dec
  of_filled_quantity :: "dec option"
  of_average_price :: "dec option"
  of_exchange_order_id :: "string option"
  of_reason :: "string option"
  of_occurred_at :: "datetime option"

definition next_filled_of :: "order_lifecycle \<Rightarrow> dec option \<Rightarrow> rat res" where
  "next_filled_of lc filled = (case filled of None \<Rightarrow> Inr (lc_filled_quantity lc)
     | Some d \<Rightarrow> finite_decimal InvalidOrderTransition ''filled_quantity'' d)"

definition check_target_fill :: "order_state \<Rightarrow> rat \<Rightarrow> rat \<Rightarrow> unit res" where
  "check_target_fill target filled ordered =
     (if target = ACKNOWLEDGED \<and> filled \<noteq> 0 then Inl (iot ''ACKNOWLEDGED requires filled == 0'')
      else if target = PARTIAL \<and> \<not> (0 < filled \<and> filled < ordered)
      then Inl (iot ''PARTIAL requires 0 < filled < ordered'')
      else if target = FILLED \<and> filled \<noteq> ordered
      then Inl (iot ''FILLED requires filled == ordered'')
      else if target = REJECTED \<and> filled \<noteq> 0 then Inl (iot ''REJECTED requires filled == 0'')
      else Inr ())"

definition next_average_of :: "order_lifecycle \<Rightarrow> dec option \<Rightarrow> rat \<Rightarrow> rat option res" where
  "next_average_of lc average filled =
     res_bind (case average of None \<Rightarrow> Inr (lc_average_price lc)
       | Some a \<Rightarrow> res_bind (finite_decimal InvalidOrderTransition ''average_price'' a) (\<lambda>q.
           if q \<le> 0 then Inl (iot ''average_price must be positive'') else Inr (Some q)))
     (\<lambda>next.
     if next \<noteq> None \<and> filled = 0
     then Inl (iot ''average_price requires a positive filled quantity'') else Inr next)"

definition timestamp_of :: "int \<Rightarrow> datetime option \<Rightarrow> int res" where
  "timestamp_of now occurred_at = aware InvalidOrderTransition ''occurred_at''
     (case occurred_at of None \<Rightarrow> Aware now | Some t \<Rightarrow> t)"

text \<open>\<open>now\<close> is the reading of the clock that \<open>occurred_at or datetime.now(UTC)\<close>
  takes when no time is given.\<close>

definition build_fact ::
    "int \<Rightarrow> order_lifecycle \<Rightarrow> order_state \<Rightarrow> order_fact \<Rightarrow> bool \<Rightarrow> order_lifecycle res" where
  "build_fact now lc target fct allow_terminal =
     (if lc_terminal lc \<and> \<not> allow_terminal
      then Inl (iot ''terminal lifecycle cannot transition'') else
     res_bind (finite_decimal InvalidOrderTransition ''ordered_quantity'' (of_ordered_quantity fct))
       (\<lambda>ordered.
     if ordered \<le> 0 then Inl (iot ''ordered_quantity must be positive'') else
     res_bind (next_filled_of lc (of_filled_quantity fct)) (\<lambda>next_filled.
     if next_filled < lc_filled_quantity lc then Inl (iot ''filled quantity must be monotonic'')
     else if next_filled < 0 \<or> next_filled > ordered
     then Inl (iot ''filled quantity is outside [0, ordered_quantity]'') else
     res_bind (check_target_fill target next_filled ordered) (\<lambda>_.
     res_bind (next_average_of lc (of_average_price fct) next_filled) (\<lambda>next_average.
     res_bind (timestamp_of now (of_occurred_at fct)) (\<lambda>timestamp.
     if lc_updated_at lc \<noteq> INITIAL_TIME \<and> timestamp < lc_updated_at lc
     then Inl (iot ''order updates must not move backwards in time'') else
     res_bind (optional_text InvalidOrderTransition ''exchange_order_id'' 256
       (of_exchange_order_id fct)) (\<lambda>ex_id.
     res_bind (optional_text InvalidOrderTransition ''reason'' 1024 (of_reason fct))
       (\<lambda>reason_text.
     mk_lifecycle (Inl target) (DFin next_filled) (map_option DFin next_average)
       (case ex_id of None \<Rightarrow> lc_exchange_order_id lc | Some x \<Rightarrow> Some x)
       (lc_version lc + 1) (Aware timestamp) reason_text))))))))"

definition transition ::
    "int \<Rightarrow> order_lifecycle \<Rightarrow> order_state + string \<Rightarrow> order_fact \<Rightarrow> order_lifecycle res" where
  "transition now lc target fct =
     res_bind (coerce_state InvalidOrderTransition ''target state is invalid'' target)
       (\<lambda>target_state.
     if target_state \<notin> set (ALLOWED_TRANSITIONS (lc_status lc))
     then Inl (iot (state_value (lc_status lc) @ '' -> '' @ state_value target_state
       @ '' is not allowed''))
     else build_fact now lc target_state fct False)"

definition reconcile_terminal_fact ::
    "int \<Rightarrow> order_lifecycle \<Rightarrow> order_state + string \<Rightarrow> dec \<Rightarrow> order_fact \<Rightarrow>
      order_lifecycle res" where
  \<comment> \<open>\<open>filled\<close> is the required keyword \<open>filled_quantity\<close>\<close>
  "reconcile_terminal_fact now lc target filled fct =
     res_bind (coerce_state InvalidOrderTransition ''target state is invalid'' target)
       (\<lambda>target_state.
     if lc_status lc \<noteq> CANCELED
     then Inl (iot ''only CANCELED can absorb a late terminal fill'') else
     res_bind (finite_decimal InvalidOrderTransition ''ordered_quantity'' (of_ordered_quantity fct))
       (\<lambda>ordered.
     res_bind (finite_decimal InvalidOrderTransition ''filled_quantity'' filled) (\<lambda>next_filled.
     if next_filled < lc_filled_quantity lc then Inl (iot ''filled quantity must be monotonic'')
     else if (target_state = CANCELED \<and> next_filled < ordered)
       \<or> (target_state = FILLED \<and> next_filled = ordered)
     then build_fact now lc target_state
       (fct\<lparr>of_ordered_quantity := DFin ordered, of_filled_quantity := Some (DFin next_filled)\<rparr>) True
     else Inl (iot ''invalid late fact for CANCELED order''))))"

section \<open>When a transition succeeds\<close>

lemma mk_lifecycle_Inr:
  "mk_lifecycle st f a x v u r = Inr lc \<longleftrightarrow>
    (\<exists>status filled average upd. coerce_state InvalidOrderTransition ''status is invalid'' st = Inr status
      \<and> f = DFin filled \<and> 0 \<le> filled \<and> check_average filled a = Inr average \<and> 0 \<le> v
      \<and> u = Aware upd
      \<and> optional_text InvalidOrderTransition ''exchange_order_id'' 256 x = Inr (lc_exchange_order_id lc)
      \<and> optional_text InvalidOrderTransition ''reason'' 1024 r = Inr (lc_reason lc)
      \<and> check_state_fill status filled = Inr ()
      \<and> lc = \<lparr>lc_status = status, lc_filled_quantity = filled, lc_average_price = average,
          lc_exchange_order_id = lc_exchange_order_id lc, lc_version = v, lc_updated_at = upd,
          lc_reason = lc_reason lc\<rparr>)"
  unfolding mk_lifecycle_def
  by (cases lc) (auto simp: res_splits finite_decimal_Inr aware_Inr not_less)

definition lc_wf :: "order_lifecycle \<Rightarrow> bool" where
  "lc_wf lc \<longleftrightarrow> 0 \<le> lc_filled_quantity lc \<and> 0 \<le> lc_version lc
     \<and> (\<forall>a. lc_average_price lc = Some a \<longrightarrow> 0 < a \<and> 0 < lc_filled_quantity lc)
     \<and> check_state_fill (lc_status lc) (lc_filled_quantity lc) = Inr ()
     \<and> (\<forall>x. lc_exchange_order_id lc = Some x \<longrightarrow> clean 256 x)
     \<and> (\<forall>x. lc_reason lc = Some x \<longrightarrow> clean 1024 x)"

lemma check_average_Inr:
  "check_average f a = Inr r \<longleftrightarrow>
    (case a of None \<Rightarrow> r = None | Some d \<Rightarrow> \<exists>q. d = DFin q \<and> 0 < q \<and> 0 < f \<and> r = Some q)"
  by (auto simp: check_average_def res_splits finite_decimal_Inr not_le split: option.splits)

lemma mk_lifecycle_wf:
  assumes "mk_lifecycle st f a x v u r = Inr lc"
  shows "lc_wf lc"
proof -
  from assms obtain average where
    "check_average (lc_filled_quantity lc) a = Inr average" "lc_average_price lc = average"
    "0 \<le> lc_filled_quantity lc" "0 \<le> lc_version lc"
    "check_state_fill (lc_status lc) (lc_filled_quantity lc) = Inr ()"
    "optional_text InvalidOrderTransition ''exchange_order_id'' 256 x = Inr (lc_exchange_order_id lc)"
    "optional_text InvalidOrderTransition ''reason'' 1024 r = Inr (lc_reason lc)"
    unfolding mk_lifecycle_Inr by (metis order_lifecycle.select_convs(1,2,3,5))
  then show ?thesis
    unfolding lc_wf_def
    by (auto simp: check_average_Inr split: option.splits dest: optional_text_clean)
qed

lemma new_lifecycle_wf: "lc_wf (new_lifecycle now)"
  by (simp add: lc_wf_def new_lifecycle_def check_state_fill_def)

text \<open>
  The arguments the service passes: finite quantities, an aware time, texts that the limits accept.
  For them the record a successful transition returns, and the condition under which it does, can be
  written out.
\<close>

definition plain_fact ::
    "rat \<Rightarrow> rat option \<Rightarrow> rat option \<Rightarrow> string option \<Rightarrow> string option \<Rightarrow> int option \<Rightarrow> order_fact"
where
  "plain_fact ordered filled average ex_id reason occurred =
     \<lparr>of_ordered_quantity = DFin ordered, of_filled_quantity = map_option DFin filled,
      of_average_price = map_option DFin average, of_exchange_order_id = ex_id,
      of_reason = reason, of_occurred_at = map_option Aware occurred\<rparr>"

definition some_or :: "'a option \<Rightarrow> 'a \<Rightarrow> 'a" where
  "some_or x d = (case x of None \<Rightarrow> d | Some y \<Rightarrow> y)"

definition fact_admissible ::
    "order_lifecycle \<Rightarrow> order_state \<Rightarrow> rat \<Rightarrow> rat \<Rightarrow> rat option \<Rightarrow> int \<Rightarrow> bool" where
  "fact_admissible lc target ordered filled average occurred \<longleftrightarrow>
     0 < ordered \<and> lc_filled_quantity lc \<le> filled \<and> 0 \<le> filled \<and> filled \<le> ordered
     \<and> (target = ACKNOWLEDGED \<longrightarrow> filled = 0)
     \<and> (target = PARTIAL \<longrightarrow> 0 < filled \<and> filled < ordered)
     \<and> (target = FILLED \<longrightarrow> filled = ordered)
     \<and> (target = REJECTED \<longrightarrow> filled = 0)
     \<and> (\<forall>a. average = Some a \<longrightarrow> 0 < a)
     \<and> (average \<noteq> None \<or> lc_average_price lc \<noteq> None \<longrightarrow> filled \<noteq> 0)
     \<and> (lc_updated_at lc = INITIAL_TIME \<or> lc_updated_at lc \<le> occurred)"

definition applied_fact :: "order_lifecycle \<Rightarrow> order_state \<Rightarrow> rat \<Rightarrow> rat option \<Rightarrow>
    string option \<Rightarrow> string option \<Rightarrow> int \<Rightarrow> order_lifecycle" where
  "applied_fact lc target filled average ex_id reason occurred =
     lc\<lparr>lc_status := target, lc_filled_quantity := filled,
        lc_average_price := (if average = None then lc_average_price lc else average),
        lc_exchange_order_id := (if ex_id = None then lc_exchange_order_id lc else ex_id),
        lc_version := lc_version lc + 1, lc_updated_at := occurred, lc_reason := reason\<rparr>"

lemma check_target_fill_Inr:
  "check_target_fill target filled ordered = Inr u \<longleftrightarrow>
     (target = ACKNOWLEDGED \<longrightarrow> filled = 0) \<and> (target = PARTIAL \<longrightarrow> 0 < filled \<and> filled < ordered)
     \<and> (target = FILLED \<longrightarrow> filled = ordered) \<and> (target = REJECTED \<longrightarrow> filled = 0)"
  by (cases target) (auto simp: check_target_fill_def)

lemma check_state_fill_of_target:
  "check_target_fill target filled ordered = Inr u \<Longrightarrow> 0 < ordered \<Longrightarrow>
    check_state_fill target filled = Inr ()"
  by (cases target) (auto simp: check_target_fill_def check_state_fill_def split: if_splits)

lemma next_average_of_Inr:
  "next_average_of lc average filled = Inr r \<longleftrightarrow>
     (case average of None \<Rightarrow> r = lc_average_price lc
      | Some d \<Rightarrow> \<exists>q. d = DFin q \<and> 0 < q \<and> r = Some q)
     \<and> (r \<noteq> None \<longrightarrow> filled \<noteq> 0)"
  by (auto simp: next_average_of_def res_splits finite_decimal_Inr not_le split: option.splits)

lemma build_fact_plain:
  assumes wf: "lc_wf lc"
    and ex: "\<And>x. ex_id = Some x \<Longrightarrow> clean 256 x"
    and rs: "\<And>x. reason = Some x \<Longrightarrow> clean 1024 x"
  shows "build_fact now lc target (plain_fact ordered filled average ex_id reason occurred) late
      = Inr lc' \<longleftrightarrow>
    (late \<or> \<not> lc_terminal lc)
    \<and> fact_admissible lc target ordered (some_or filled (lc_filled_quantity lc)) average
        (some_or occurred now)
    \<and> lc' = applied_fact lc target (some_or filled (lc_filled_quantity lc)) average ex_id reason
        (some_or occurred now)"
proof -
  define f where "f = some_or filled (lc_filled_quantity lc)"
  define t where "t = some_or occurred now"
  define nx where "nx = (case ex_id of None \<Rightarrow> lc_exchange_order_id lc | Some x \<Rightarrow> Some x)"
  define av where "av = (if average = None then lc_average_price lc else average)"
  have nf: "next_filled_of lc (map_option DFin filled) = Inr f"
    by (cases filled) (simp_all add: next_filled_of_def f_def some_or_def)
  have tm: "timestamp_of now (map_option Aware occurred) = Inr t"
    by (cases occurred) (simp_all add: timestamp_of_def t_def some_or_def)
  have ext: "optional_text InvalidOrderTransition ''exchange_order_id'' 256 ex_id = Inr ex_id"
    using ex by (rule optional_text_id)
  have rst: "optional_text InvalidOrderTransition ''reason'' 1024 reason = Inr reason"
    using rs by (rule optional_text_id)
  have "clean 256 x" if "nx = Some x" for x
    using that ex wf by (auto simp: nx_def lc_wf_def split: option.splits)
  then have nxt: "optional_text InvalidOrderTransition ''exchange_order_id'' 256 nx = Inr nx"
    by (rule optional_text_id)
  have na: "next_average_of lc (map_option DFin average) f = Inr r \<longleftrightarrow>
      r = av \<and> (\<forall>a. average = Some a \<longrightarrow> 0 < a) \<and> (av \<noteq> None \<longrightarrow> f \<noteq> 0)" for r
    by (cases average) (auto simp: next_average_of_Inr av_def)
  have ca: "check_average f (map_option DFin av) = Inr av"
    if "av \<noteq> None \<longrightarrow> f \<noteq> 0" "0 \<le> f" "\<forall>a. average = Some a \<longrightarrow> 0 < a"
    using that wf by (cases av) (auto simp: check_average_Inr lc_wf_def av_def split: if_splits)
  have mk: "mk_lifecycle (Inl target) (DFin f) (map_option DFin av) nx (lc_version lc + 1)
      (Aware t) reason = Inr (applied_fact lc target f average ex_id reason t)"
    if "check_target_fill target f ordered = Inr ()" "0 < ordered" "0 \<le> f"
      "av \<noteq> None \<longrightarrow> f \<noteq> 0" "\<forall>a. average = Some a \<longrightarrow> 0 < a"
  proof -
    have "0 \<le> lc_version lc" using wf by (simp add: lc_wf_def)
    then have "mk_lifecycle (Inl target) (DFin f) (map_option DFin av) nx (lc_version lc + 1)
        (Aware t) reason = Inr \<lparr>lc_status = target, lc_filled_quantity = f, lc_average_price = av,
          lc_exchange_order_id = nx, lc_version = lc_version lc + 1, lc_updated_at = t,
          lc_reason = reason\<rparr>"
      using that check_state_fill_of_target [OF that(1,2)] ca
      by (simp add: mk_lifecycle_def nxt rst)
    then show ?thesis
      by (cases lc) (auto simp: applied_fact_def av_def nx_def split: option.splits)
  qed
  have mk0: "mk_lifecycle (Inl target) (DFin f) None nx (lc_version lc + 1) (Aware t) reason
      = Inr (applied_fact lc target f average ex_id reason t)"
    if "check_target_fill target f ordered = Inr ()" "0 < ordered" "0 \<le> f" "av = None"
      "\<forall>a. average = Some a \<longrightarrow> 0 < a"
    using mk that by simp
  have bf: "build_fact now lc target (plain_fact ordered filled average ex_id reason occurred) late
      = Inr lc' \<longleftrightarrow>
    (late \<or> \<not> lc_terminal lc) \<and> 0 < ordered \<and> lc_filled_quantity lc \<le> f \<and> 0 \<le> f \<and> f \<le> ordered
    \<and> check_target_fill target f ordered = Inr ()
    \<and> (\<forall>a. average = Some a \<longrightarrow> 0 < a) \<and> (av \<noteq> None \<longrightarrow> f \<noteq> 0)
    \<and> (lc_updated_at lc = INITIAL_TIME \<or> lc_updated_at lc \<le> t)
    \<and> lc' = applied_fact lc target f average ex_id reason t"
    unfolding build_fact_def plain_fact_def
    by (auto simp: res_splits nf tm ext rst na nx_def [symmetric] mk mk0 not_less)
  show ?thesis
    unfolding bf f_def [symmetric] t_def [symmetric] fact_admissible_def check_target_fill_Inr
    by (auto simp: av_def split: if_splits)
qed

lemma transition_plain:
  assumes "lc_wf lc" and "\<And>x. ex_id = Some x \<Longrightarrow> clean 256 x" and "\<And>x. reason = Some x \<Longrightarrow> clean 1024 x"
  shows "transition now lc (Inl target) (plain_fact ordered filled average ex_id reason occurred)
      = Inr lc' \<longleftrightarrow>
    target \<in> set (ALLOWED_TRANSITIONS (lc_status lc))
    \<and> fact_admissible lc target ordered (some_or filled (lc_filled_quantity lc)) average
        (some_or occurred now)
    \<and> lc' = applied_fact lc target (some_or filled (lc_filled_quantity lc)) average ex_id reason
        (some_or occurred now)"
proof -
  have "\<not> lc_terminal lc" if "target \<in> set (ALLOWED_TRANSITIONS (lc_status lc))"
    using that by (cases "lc_status lc") (auto simp: lc_terminal_def TERMINAL_STATES_def)
  then show ?thesis
    using build_fact_plain [OF assms] by (auto simp: transition_def)
qed

lemma reconcile_plain:
  assumes "lc_wf lc" and "\<And>x. ex_id = Some x \<Longrightarrow> clean 256 x" and "\<And>x. reason = Some x \<Longrightarrow> clean 1024 x"
  shows "reconcile_terminal_fact now lc (Inl target) (DFin filled)
      (plain_fact ordered (Some filled) average ex_id reason occurred) = Inr lc' \<longleftrightarrow>
    lc_status lc = CANCELED
    \<and> ((target = CANCELED \<and> filled < ordered) \<or> (target = FILLED \<and> filled = ordered))
    \<and> fact_admissible lc target ordered filled average (some_or occurred now)
    \<and> lc' = applied_fact lc target filled average ex_id reason (some_or occurred now)"
proof -
  have upd: "plain_fact ordered (Some filled) average ex_id reason occurred
      \<lparr>of_ordered_quantity := DFin ordered, of_filled_quantity := Some (DFin filled)\<rparr>
    = plain_fact ordered (Some filled) average ex_id reason occurred"
    by (simp add: plain_fact_def)
  have ord: "of_ordered_quantity (plain_fact ordered (Some filled) average ex_id reason occurred)
      = DFin ordered"
    by (simp add: plain_fact_def)
  show ?thesis
    using build_fact_plain [OF assms, where filled = "Some filled" and late = True]
    by (auto simp: reconcile_terminal_fact_def upd ord some_or_def fact_admissible_def)
qed

section \<open>What a step keeps\<close>

text \<open>What holds of any successful step, whatever its arguments.\<close>

lemma build_fact_Inr:
  assumes "build_fact now lc target fct late = Inr lc'"
  shows "lc_wf lc'" and "lc_status lc' = target" and "lc_version lc' = lc_version lc + 1"
    and "lc_filled_quantity lc \<le> lc_filled_quantity lc'"
    and "late \<or> \<not> lc_terminal lc"
    and "lc_updated_at lc = INITIAL_TIME \<or> lc_updated_at lc \<le> lc_updated_at lc'"
    and "\<exists>n. of_ordered_quantity fct = DFin n \<and> 0 < n \<and> lc_filled_quantity lc' \<le> n
           \<and> check_target_fill target (lc_filled_quantity lc') n = Inr ()"
proof -
  obtain n nf na ts x rs where d: "late \<or> \<not> lc_terminal lc" "of_ordered_quantity fct = DFin n" "0 < n"
    "lc_filled_quantity lc \<le> nf" "nf \<le> n" "check_target_fill target nf n = Inr ()"
    "lc_updated_at lc = INITIAL_TIME \<or> lc_updated_at lc \<le> ts"
    "mk_lifecycle (Inl target) (DFin nf) na x (lc_version lc + 1) (Aware ts) rs = Inr lc'"
    using assms unfolding build_fact_def
    by (simp add: res_splits finite_decimal_Inr not_less not_le) blast
  have f: "lc_status lc' = target" "lc_filled_quantity lc' = nf" "lc_version lc' = lc_version lc + 1"
    "lc_updated_at lc' = ts"
    using d(8) unfolding mk_lifecycle_Inr
    by (auto, metis order_lifecycle.select_convs(1), metis order_lifecycle.select_convs(2),
        metis order_lifecycle.select_convs(5), metis order_lifecycle.select_convs(6))
  show "lc_wf lc'" using d(8) by (rule mk_lifecycle_wf)
  show "lc_status lc' = target" "lc_version lc' = lc_version lc + 1"
    "lc_filled_quantity lc \<le> lc_filled_quantity lc'" "late \<or> \<not> lc_terminal lc"
    "lc_updated_at lc = INITIAL_TIME \<or> lc_updated_at lc \<le> lc_updated_at lc'"
    "\<exists>n. of_ordered_quantity fct = DFin n \<and> 0 < n \<and> lc_filled_quantity lc' \<le> n
       \<and> check_target_fill target (lc_filled_quantity lc') n = Inr ()"
    using d f by auto
qed

text \<open>A lifecycle only progresses: it is left as it was, or it moves to a later version along the
  edges of the machine, never to a smaller fill and never back in time.\<close>

definition lc_progress :: "order_lifecycle \<Rightarrow> order_lifecycle \<Rightarrow> bool" where
  "lc_progress a b \<longleftrightarrow> a = b \<or>
     (lc_version a < lc_version b
      \<and> lc_filled_quantity a \<le> lc_filled_quantity b
      \<and> lc_status a \<noteq> FILLED \<and> lc_status a \<noteq> REJECTED
      \<and> (lc_status a = CANCELED \<longrightarrow> lc_status b = CANCELED \<or> lc_status b = FILLED)
      \<and> lc_status b \<noteq> PREPARED \<and> (lc_status b = SUBMITTING \<longrightarrow> lc_status a = PREPARED)
      \<and> (INITIAL_TIME < lc_updated_at a \<longrightarrow> lc_updated_at a \<le> lc_updated_at b))"

lemma lc_progress_refl [simp]: "lc_progress a a"
  by (simp add: lc_progress_def)

lemma lc_progress_trans: "lc_progress a b \<Longrightarrow> lc_progress b c \<Longrightarrow> lc_progress a c"
  by (auto simp: lc_progress_def)

lemma transition_progress:
  assumes "transition now lc tgt fct = Inr lc'"
  shows "lc_progress lc lc'" and "lc_wf lc'" and "lc_version lc' = lc_version lc + 1"
    and "\<not> lc_terminal lc" and "lc_status lc' \<in> set (ALLOWED_TRANSITIONS (lc_status lc))"
proof -
  obtain t where t: "t \<in> set (ALLOWED_TRANSITIONS (lc_status lc))"
    "build_fact now lc t fct False = Inr lc'"
    using assms by (auto simp: transition_def res_splits)
  note b = build_fact_Inr [OF t(2)]
  show "lc_wf lc'" "lc_version lc' = lc_version lc + 1" "\<not> lc_terminal lc" using b by auto
  show "lc_status lc' \<in> set (ALLOWED_TRANSITIONS (lc_status lc))" using t b(2) by simp
  show "lc_progress lc lc'"
    using t(1) b by (cases "lc_status lc") (auto simp: lc_progress_def)
qed

lemma reconcile_progress:
  assumes "reconcile_terminal_fact now lc tgt f fct = Inr lc'"
  shows "lc_progress lc lc'" and "lc_wf lc'" and "lc_status lc = CANCELED"
    and "lc_status lc' = CANCELED \<or> lc_status lc' = FILLED"
proof -
  obtain t fct' where t: "lc_status lc = CANCELED" "t = CANCELED \<or> t = FILLED"
    "build_fact now lc t fct' True = Inr lc'"
    using assms by (auto simp: reconcile_terminal_fact_def res_splits split: if_splits)
  note b = build_fact_Inr [OF t(3)]
  show "lc_wf lc'" "lc_status lc = CANCELED" using b t by auto
  show "lc_status lc' = CANCELED \<or> lc_status lc' = FILLED" using b(2) t(2) by simp
  show "lc_progress lc lc'" using t b by (auto simp: lc_progress_def)
qed

section \<open>Runs of the machine\<close>

text \<open>A step of the lifecycle of an order of quantity \<open>n\<close>: any successful call of either
  public operation with that ordered quantity.\<close>

inductive lc_step :: "rat \<Rightarrow> order_lifecycle \<Rightarrow> order_lifecycle \<Rightarrow> bool" for n where
  by_transition: "of_ordered_quantity fct = DFin n \<Longrightarrow> transition now lc tgt fct = Inr lc' \<Longrightarrow>
    lc_step n lc lc'"
| by_late_fact: "of_ordered_quantity fct = DFin n \<Longrightarrow>
    reconcile_terminal_fact now lc tgt f fct = Inr lc' \<Longrightarrow> lc_step n lc lc'"

inductive lc_run :: "rat \<Rightarrow> order_lifecycle \<Rightarrow> order_lifecycle \<Rightarrow> bool" for n where
  start: "lc_run n lc lc"
| more: "lc_run n a b \<Longrightarrow> lc_step n b c \<Longrightarrow> lc_run n a c"

inductive_cases lc_step_cases: "lc_step n a b"

definition lc_inv :: "rat \<Rightarrow> order_lifecycle \<Rightarrow> bool" where
  "lc_inv n lc \<longleftrightarrow> lc_wf lc \<and> lc_filled_quantity lc \<le> n
     \<and> (lc_status lc = FILLED \<longrightarrow> lc_filled_quantity lc = n)
     \<and> (lc_status lc = PARTIAL \<longrightarrow> lc_filled_quantity lc < n)"

lemma lc_step_progress: "lc_step n a b \<Longrightarrow> lc_progress a b"
  by (auto elim: lc_step_cases dest: transition_progress(1) reconcile_progress(1))

lemma lc_step_inv:
  assumes "lc_step n a b"
  shows "lc_inv n b"
  using assms
proof cases
  case (by_transition fct now tgt)
  then obtain t where "build_fact now a t fct False = Inr b"
    by (auto simp: transition_def res_splits)
  from build_fact_Inr [OF this] by_transition(1) show ?thesis
    by (auto simp: lc_inv_def check_target_fill_Inr)
next
  case (by_late_fact fct now tgt f)
  then obtain t m where
    "build_fact now a t (fct\<lparr>of_ordered_quantity := DFin n, of_filled_quantity := m\<rparr>) True = Inr b"
    by (auto simp: reconcile_terminal_fact_def res_splits finite_decimal_Inr split: if_splits)
  from build_fact_Inr [OF this] show ?thesis
    by (auto simp: lc_inv_def check_target_fill_Inr)
qed

lemma lc_run_progress: "lc_run n a b \<Longrightarrow> lc_progress a b"
  by (induction rule: lc_run.induct) (auto intro: lc_progress_trans lc_step_progress)

lemma lc_run_inv: "lc_run n a b \<Longrightarrow> lc_inv n a \<Longrightarrow> lc_inv n b"
  by (induction rule: lc_run.induct) (auto intro: lc_step_inv)

end
