(* ===== verification/Idempotency.thy ===== *)
theory Idempotency
  imports Py_Values
begin

text \<open>
  Idempotent submission, \<open>freqtrade/hedge/execution/idempotency.py\<close>: keys are reserved,
  completed with a value or released. The interface the execution service relies on is the locale
  \<open>idempotency_port\<close>, stated over the slot a store associates with each key; the in-memory store
  (\<open>reserve\<close>, \<open>complete\<close>, \<open>release\<close> under its lock) is the interpretation.
\<close>

section \<open>The in-memory store\<close>

datatype reservation_state = NEW | IN_FLIGHT | COMPLETED

record 'v idempotency_reservation =
  rv_state :: reservation_state
  rv_value :: "'v option"

record 'v idempotency_store =
  in_flight :: "string set"
  completed :: "(string, 'v) dict"

definition empty_store :: "'v idempotency_store" where
  "empty_store = \<lparr>in_flight = {}, completed = []\<rparr>"

definition normalize_key :: "string \<Rightarrow> string res" where
  "normalize_key key = (let result = strip key in
     if result = [] then Inl (Exn ValueError ''idempotency key must not be empty'')
     else if length result > 256 \<or> has_control result
     then Inl (Exn ValueError ''idempotency key is invalid'')
     else Inr result)"

definition reserve :: "string \<Rightarrow> ('v idempotency_store, 'v idempotency_reservation) py" where
  "reserve key = py_bind (py_of (normalize_key key)) (\<lambda>normalized s.
     case dict_get (completed s) normalized of
       Some v \<Rightarrow> (Inr \<lparr>rv_state = COMPLETED, rv_value = Some v\<rparr>, s)
     | None \<Rightarrow>
         if normalized \<in> in_flight s then (Inr \<lparr>rv_state = IN_FLIGHT, rv_value = None\<rparr>, s)
         else (Inr \<lparr>rv_state = NEW, rv_value = None\<rparr>,
               s\<lparr>in_flight := insert normalized (in_flight s)\<rparr>))"

definition complete :: "string \<Rightarrow> 'v \<Rightarrow> ('v idempotency_store, unit) py" where
  "complete key v = py_bind (py_of (normalize_key key)) (\<lambda>normalized s.
     if normalized \<notin> in_flight s \<and> dict_get (completed s) normalized = None
     then (Inl (Exn KeyError (''idempotency key was not reserved: '' @ normalized)), s)
     else (Inr (), s\<lparr>completed := dict_put normalized v (completed s),
                      in_flight := in_flight s - {normalized}\<rparr>))"

definition release :: "string \<Rightarrow> ('v idempotency_store, unit) py" where
  "release key = py_bind (py_of (normalize_key key)) (\<lambda>normalized s.
     (Inr (), s\<lparr>in_flight := in_flight s - {normalized}\<rparr>))"

section \<open>What a store promises\<close>

text \<open>What a key stands for: nobody works on it, somebody does, or its result is known.\<close>

datatype 'v slot = Free | Busy | Done 'v

locale idempotency_port =
  fixes norm :: "string \<Rightarrow> string res"
    and slot :: "'s \<Rightarrow> string \<Rightarrow> 'v slot"
    and p_reserve :: "string \<Rightarrow> ('s, 'v idempotency_reservation) py"
    and p_complete :: "string \<Rightarrow> 'v \<Rightarrow> ('s, unit) py"
    and p_release :: "string \<Rightarrow> ('s, unit) py"
  assumes reserve_law: "norm k = Inr n \<Longrightarrow> p_reserve k s = (r, t) \<Longrightarrow>
      (case slot s n of
         Done v \<Rightarrow> r = Inr \<lparr>rv_state = COMPLETED, rv_value = Some v\<rparr> \<and> slot t = slot s
       | Busy \<Rightarrow> r = Inr \<lparr>rv_state = IN_FLIGHT, rv_value = None\<rparr> \<and> slot t = slot s
       | Free \<Rightarrow> r = Inr \<lparr>rv_state = NEW, rv_value = None\<rparr> \<and> slot t = (slot s)(n := Busy))"
    and complete_law: "norm k = Inr n \<Longrightarrow> p_complete k v s = (ru, t) \<Longrightarrow>
      (if slot s n = Free then (\<exists>m. ru = Inl (Exn KeyError m)) \<and> slot t = slot s
       else ru = Inr () \<and> slot t = (slot s)(n := Done v))"
    and release_law: "norm k = Inr n \<Longrightarrow> p_release k s = (ru, t) \<Longrightarrow>
      ru = Inr () \<and> slot t = (if slot s n = Busy then (slot s)(n := Free) else slot s)"
    and invalid_key: "norm k = Inl e \<Longrightarrow> p_reserve k s = (Inl e, s) \<and> p_complete k v s = (Inl e, s)
      \<and> p_release k s = (Inl e, s)"
begin

lemma reserve_new:
  assumes "norm k = Inr n" and "p_reserve k s = (Inr rv, t)" and "rv_state rv = NEW"
  shows "slot s n = Free" and "slot t n = Busy"
  using reserve_law [OF assms(1,2)] assms(3) by (auto split: slot.splits)

lemma reserve_twice:
  assumes "norm k = Inr n" and "p_reserve k s = (Inr rv, t)" and "rv_state rv = NEW"
    and "p_reserve k t = (r2, u)"
  shows "r2 = Inr \<lparr>rv_state = IN_FLIGHT, rv_value = None\<rparr> \<and> slot u = slot t"
  using reserve_law [OF assms(1,4)] reserve_new(2) [OF assms(1-3)] by simp

lemma complete_then_reserve:
  assumes "norm k = Inr n" and "p_complete k v s = (Inr (), t)" and "p_reserve k t = (r, u)"
  shows "r = Inr \<lparr>rv_state = COMPLETED, rv_value = Some v\<rparr> \<and> slot u = slot t"
proof -
  have "slot t n = Done v" using complete_law [OF assms(1,2)] by (auto split: if_splits)
  then show ?thesis using reserve_law [OF assms(1,3)] by simp
qed

text \<open>A known result never becomes unknown again.\<close>

lemma done_stays:
  assumes "slot s n \<noteq> Free" and "slot s n \<noteq> Busy"
  shows "p_reserve k s = (r1, t) \<Longrightarrow> slot t n = slot s n"
    and "p_release k s = (r2, t) \<Longrightarrow> slot t n = slot s n"
    and "p_complete k v s = (r3, t) \<Longrightarrow> slot t n = slot s n \<or> slot t n = Done v"
proof -
  show "slot t n = slot s n" if "p_reserve k s = (r1, t)"
    using that assms invalid_key [of k _ s] reserve_law [OF _ that]
    by (cases "norm k"; cases "slot s (projr (norm k))") auto
  show "slot t n = slot s n" if "p_release k s = (r2, t)"
    using that assms invalid_key [of k _ s] release_law [OF _ that]
    by (cases "norm k") (auto split: if_splits)
  show "slot t n = slot s n \<or> slot t n = Done v" if "p_complete k v s = (r3, t)"
    using that assms invalid_key [of k _ s] complete_law [OF _ that]
    by (cases "norm k") (auto split: if_splits)
qed

end

section \<open>The in-memory store keeps the promise\<close>

definition store_slot :: "'v idempotency_store \<Rightarrow> string \<Rightarrow> 'v slot" where
  "store_slot s n = (case dict_get (completed s) n of Some v \<Rightarrow> Done v
     | None \<Rightarrow> if n \<in> in_flight s then Busy else Free)"

lemma normalize_key_Inr: "normalize_key k = Inr n \<longleftrightarrow> n = strip k \<and> clean 256 n"
  by (auto simp: normalize_key_def Let_def clean_def)

lemma normalize_key_clean: "clean 256 k \<Longrightarrow> normalize_key k = Inr k"
  by (simp add: normalize_key_Inr clean_def)

interpretation mem: idempotency_port normalize_key store_slot reserve complete release
proof (unfold_locales, goal_cases)
  case (1 k n s r t)
  then show ?case
    by (auto simp: reserve_def store_slot_def fun_eq_iff split: option.splits if_splits)
next
  case (2 k n v s r t)
  then show ?case
    by (auto simp: complete_def store_slot_def dict_get_put fun_eq_iff
        split: option.splits if_splits)
next
  case (3 k n s r t)
  then show ?case
    by (auto simp: release_def store_slot_def fun_eq_iff split: option.splits if_splits)
next
  case (4 k e s v)
  then show ?case by (simp add: reserve_def complete_def release_def)
qed

lemma complete_clean:
  assumes "clean 256 k"
  shows "complete k v s = (if store_slot s k = Free
    then (Inl (Exn KeyError (''idempotency key was not reserved: '' @ k)), s)
    else (Inr (), s\<lparr>completed := dict_put k v (completed s), in_flight := in_flight s - {k}\<rparr>))"
  using assms by (auto simp: complete_def normalize_key_clean store_slot_def split: option.splits)

end
