(* ===== verification/Kill_Switch.thy ===== *)
theory Kill_Switch
  imports Metadata
begin

text \<open>
  The execution kill switch, \<open>freqtrade/hedge/execution/kill_switch.py\<close>: \<open>activate\<close>,
  \<open>deactivate\<close> (with its second confirmation), \<open>assert_allowed\<close> with the exception for
  risk-reducing intents, and the notifications of \<open>_emit\<close>, whose failures the code swallows, as the
  list of port calls made. The interface the execution service relies on is the locale
  \<open>risk_gate\<close>.
\<close>

datatype kill_switch_mode = RUNNING | HALTED

record kill_switch_snapshot =
  sw_mode :: kill_switch_mode
  sw_reason :: "string option"
  sw_actor :: "string option"
  sw_changed_at :: int

record kill_switch =
  ks_allow_reduce :: bool
  ks_has_metrics :: bool
  ks_has_audit :: bool
  ks_snapshot :: kill_switch_snapshot

datatype ks_call = HaltMetric bool string | AuditEmit string mapping

definition ks_required_text :: "string \<Rightarrow> nat \<Rightarrow> string \<Rightarrow> string res" where
  "ks_required_text field limit v = required_text ValueError field limit v"

fun mode_value :: "kill_switch_mode \<Rightarrow> string" where
  "mode_value RUNNING = ''RUNNING''"
| "mode_value HALTED = ''HALTED''"

definition opt_str :: "string option \<Rightarrow> pyval" where
  "opt_str x = (case x of None \<Rightarrow> VNone | Some s \<Rightarrow> VStr s)"

definition new_kill_switch :: "bool \<Rightarrow> bool \<Rightarrow> bool \<Rightarrow> int \<Rightarrow> kill_switch" where
  "new_kill_switch allow metrics audit now =
     \<lparr>ks_allow_reduce = allow, ks_has_metrics = metrics, ks_has_audit = audit,
      ks_snapshot = \<lparr>sw_mode = RUNNING, sw_reason = None, sw_actor = None, sw_changed_at = now\<rparr>\<rparr>"

definition ks_emit :: "kill_switch \<Rightarrow> kill_switch_snapshot \<Rightarrow> ks_call list" where
  "ks_emit ks snapshot =
     (if ks_has_metrics ks
      then [HaltMetric (sw_mode snapshot = HALTED)
              (case sw_reason snapshot of None \<Rightarrow> [] | Some r \<Rightarrow> r)] else [])
     @ (if ks_has_audit ks
        then [AuditEmit ''KILL_SWITCH_CHANGED''
                [(''mode'', VStr (mode_value (sw_mode snapshot))),
                 (''reason'', opt_str (sw_reason snapshot)),
                 (''actor'', opt_str (sw_actor snapshot)),
                 (''changed_at'', VShow (VDate (Aware (sw_changed_at snapshot))))]] else [])"

definition activate ::
    "int \<Rightarrow> string \<Rightarrow> string \<Rightarrow> (kill_switch, kill_switch_snapshot \<times> ks_call list) py" where
  "activate now reason actor =
     py_bind (py_of (ks_required_text ''reason'' 1024 reason)) (\<lambda>reason_text.
     py_bind (py_of (ks_required_text ''actor'' 128 actor)) (\<lambda>actor_text ks.
       let snapshot = \<lparr>sw_mode = HALTED, sw_reason = Some reason_text,
                       sw_actor = Some actor_text, sw_changed_at = now\<rparr>
       in (Inr (snapshot, ks_emit ks snapshot), ks\<lparr>ks_snapshot := snapshot\<rparr>)))"

definition deactivate ::
    "int \<Rightarrow> string \<Rightarrow> bool \<Rightarrow> (kill_switch, kill_switch_snapshot \<times> ks_call list) py" where
  "deactivate now actor confirmed =
     (if \<not> confirmed
      then py_raise (Exn PermissionError ''kill switch release requires secondary confirmation'')
      else py_bind (py_of (ks_required_text ''actor'' 128 actor)) (\<lambda>actor_text ks.
        let snapshot = \<lparr>sw_mode = RUNNING, sw_reason = None, sw_actor = Some actor_text,
                        sw_changed_at = now\<rparr>
        in (Inr (snapshot, ks_emit ks snapshot), ks\<lparr>ks_snapshot := snapshot\<rparr>)))"

definition assert_allowed :: "kill_switch \<Rightarrow> bool \<Rightarrow> unit res" where
  "assert_allowed ks reduces_risk =
     (let snapshot = ks_snapshot ks in
      if sw_mode snapshot = RUNNING then Inr ()
      else if reduces_risk \<and> ks_allow_reduce ks then Inr ()
      else Inl (Exn ExecutionHaltedError
        (case sw_reason snapshot of None \<Rightarrow> ''execution is halted''
         | Some r \<Rightarrow> if r = [] then ''execution is halted'' else r)))"

section \<open>The gate the service relies on\<close>

locale risk_gate =
  fixes check :: "'s \<Rightarrow> bool \<Rightarrow> unit res"
    and halted :: "'s \<Rightarrow> bool"
  assumes running_allows: "\<not> halted s \<Longrightarrow> check s r = Inr ()"
    and halted_blocks: "halted s \<Longrightarrow> \<exists>m. check s False = Inl (Exn ExecutionHaltedError m)"
begin

lemma increase_iff: "check s False = Inr u \<longleftrightarrow> \<not> halted s"
  using running_allows [of s False] halted_blocks [of s] by (cases "halted s") auto

end

definition ks_halted :: "kill_switch \<Rightarrow> bool" where
  "ks_halted ks = (sw_mode (ks_snapshot ks) = HALTED)"

interpretation ksg: risk_gate assert_allowed ks_halted
proof unfold_locales
  show "assert_allowed s r = Inr ()" if "\<not> ks_halted s" for s r
    using that by (cases "sw_mode (ks_snapshot s)") (simp_all add: assert_allowed_def ks_halted_def)
  show "\<exists>m. assert_allowed s False = Inl (Exn ExecutionHaltedError m)" if "ks_halted s" for s
    using that by (simp add: assert_allowed_def ks_halted_def)
qed

section \<open>Mode changes\<close>

lemma activate_halts: "activate now reason actor ks = (Inr x, ks') \<Longrightarrow> ks_halted ks'"
  by (auto simp: activate_def ks_halted_def Let_def py_bind_def split: sum.splits)

lemma deactivate_unconfirmed:
  "deactivate now actor False ks =
    (Inl (Exn PermissionError ''kill switch release requires secondary confirmation''), ks)"
  by (simp add: deactivate_def)

text \<open>The operations on the switch, and the state it is in after a sequence of them.\<close>

datatype ks_op = Activate int string string | Deactivate int string bool

fun ks_step :: "ks_op \<Rightarrow> kill_switch \<Rightarrow> kill_switch" where
  "ks_step (Activate now reason actor) ks = snd (activate now reason actor ks)"
| "ks_step (Deactivate now actor confirmed) ks = snd (deactivate now actor confirmed ks)"

fun confirmed_release :: "ks_op \<Rightarrow> bool" where
  "confirmed_release (Deactivate now actor confirmed) = confirmed"
| "confirmed_release (Activate now reason actor) = False"

lemma halted_step: "ks_halted ks \<Longrightarrow> \<not> confirmed_release op \<Longrightarrow> ks_halted (ks_step op ks)"
proof (cases op)
  case (Activate now reason actor)
  assume "ks_halted ks"
  obtain r ks' where a: "activate now reason actor ks = (r, ks')" by fastforce
  then show ?thesis
  proof (cases r)
    case (Inl e)
    with a \<open>ks_halted ks\<close> Activate show ?thesis
      by (auto simp: activate_def py_bind_def Let_def split: sum.splits)
  next
    case (Inr x)
    with a Activate show ?thesis by (auto dest: activate_halts)
  qed
next
  case (Deactivate now actor confirmed)
  assume "ks_halted ks" "\<not> confirmed_release op"
  with Deactivate show ?thesis by (simp add: deactivate_def)
qed

lemma halted_until_confirmed:
  "ks_halted ks \<Longrightarrow> (\<And>op. op \<in> set ops \<Longrightarrow> \<not> confirmed_release op) \<Longrightarrow>
    ks_halted (fold ks_step ops ks)"
  by (induction ops arbitrary: ks) (auto intro: halted_step)

end
