(* ===== verification/Client_Order_Id.thy ===== *)
theory Client_Order_Id
  imports Py_Values
begin

text \<open>
  Deterministic client order ids, \<open>freqtrade/hedge/execution/client_order_id.py\<close>: the
  normalisation of symbols, the base-36 attempt, the base-32 digest suffix, and the validator. The
  SHA-256 of \<open>hashlib\<close> is the parameter \<open>sha256\<close> (bytes to bytes); nothing is assumed of it.
  The lemmas bound each part of the id, which shows that the generator's own validation can never
  fire: an id is always within the 36 characters an exchange accepts.
\<close>

section \<open>Encodings\<close>

definition utf8_char :: "char \<Rightarrow> nat list" where
  "utf8_char c = (let n = of_char c in if n < 128 then [n] else [192 + n div 64, 128 + n mod 64])"

definition utf8 :: "string \<Rightarrow> nat list" where
  "utf8 s = concat (map utf8_char s)"

definition byte_bits :: "nat \<Rightarrow> bool list" where
  "byte_bits n = map (\<lambda>i. odd (n div 2 ^ i)) (rev [0..<8])"

definition bits_value :: "bool list \<Rightarrow> nat" where
  "bits_value bs = foldl (\<lambda>acc b. 2 * acc + (if b then 1 else 0)) 0 bs"

function groups5 :: "bool list \<Rightarrow> bool list list" where
  "groups5 bs = (if bs = [] then []
     else take 5 (bs @ replicate 4 False) # groups5 (drop 5 bs))"
  by pat_completeness auto
termination
  by (relation "measure length") auto

declare groups5.simps [simp del]

definition b32_alphabet :: string where
  "b32_alphabet = ''ABCDEFGHIJKLMNOPQRSTUVWXYZ234567''"

definition b32encode :: "nat list \<Rightarrow> string" where
  "b32encode bytes =
     (let digits = map (\<lambda>g. b32_alphabet ! (bits_value g mod 32)) (groups5 (concat (map byte_bits bytes)))
      in digits @ replicate ((8 - length digits mod 8) mod 8) CHR ''='')"

definition rstrip_eq :: "string \<Rightarrow> string" where
  "rstrip_eq s = rev (dropWhile (\<lambda>c. c = CHR ''='') (rev s))"

definition base36_alphabet :: string where
  "base36_alphabet = ''0123456789ABCDEFGHIJKLMNOPQRSTUVWXYZ''"

function base36_digits :: "nat \<Rightarrow> string" where
  \<comment> \<open>the loop of \<open>_base36\<close>, whose digits come least significant first\<close>
  "base36_digits value =
     (if value = 0 then [] else base36_alphabet ! (value mod 36) # base36_digits (value div 36))"
  by pat_completeness auto
termination
  by (relation "measure id") auto

declare base36_digits.simps [simp del]

definition base36 :: "nat \<Rightarrow> string" where
  "base36 value = (if value = 0 then ''0'' else rev (base36_digits value))"

function decimal_digits :: "nat \<Rightarrow> string" where
  "decimal_digits n = (if n < 10 then [''0123456789'' ! n]
     else decimal_digits (n div 10) @ [''0123456789'' ! (n mod 10)])"
  by pat_completeness auto
termination
  by (relation "measure id") auto

declare decimal_digits.simps [simp del]

section \<open>Symbols\<close>

definition symbol_char :: "char \<Rightarrow> bool" where
  \<comment> \<open>\<open>[A-Za-z0-9/_:-]\<close>\<close>
  "symbol_char c = (is_alnum c \<or> c \<in> set ''/_:-'')"

definition clean_text :: "string \<Rightarrow> nat \<Rightarrow> string \<Rightarrow> string res" where
  "clean_text field limit v = (let result = strip v in
     if result = [] then Inl (Exn ValueError (field @ '' must not be empty''))
     else if length result > limit \<or> has_control result
     then Inl (Exn ValueError (field @ '' is invalid''))
     else Inr result)"

definition check_base :: "string \<Rightarrow> unit res" where
  "check_base normalized = guard (\<not> ascii_alnum normalized) ValueError
     ''symbol must contain ASCII alphanumeric characters''"

definition id_normalize_symbol :: "string \<Rightarrow> string res" where
  "id_normalize_symbol v = res_bind (clean_text ''symbol'' 64 v) (\<lambda>cleaned.
     let raw = upper cleaned in
     if \<not> (raw \<noteq> [] \<and> list_all symbol_char raw)
     then Inl (Exn ValueError ''symbol contains unsupported characters'') else
     let parts = split_on CHR '':'' raw in
     if length parts > 2
     then Inl (Exn ValueError ''symbol contains multiple settlement suffixes'') else
     let base = hd parts; normalized = filter (\<lambda>c. c \<notin> set ''/_-'') base in
     res_bind (check_base normalized) (\<lambda>_.
     case tl parts of
       settle # _ \<Rightarrow>
         if settle \<noteq> [] \<and> (\<not> ascii_alnum settle \<or> \<not> endswith normalized settle)
         then Inl (Exn ValueError ''settlement suffix must match the normalized quote asset'')
         else Inr normalized
     | [] \<Rightarrow> Inr normalized))"

section \<open>The generator and the validator\<close>

definition id_char :: "char \<Rightarrow> bool" where
  "id_char c = (is_alnum c \<or> c = CHR ''_'' \<or> c = CHR ''-'')"

definition valid_id :: "string \<Rightarrow> bool" where
  \<comment> \<open>\<open>^[A-Za-z0-9_-]{1,36}$\<close>\<close>
  "valid_id v = (v \<noteq> [] \<and> length v \<le> 36 \<and> list_all id_char v)"

definition validate_client_order_id :: "string \<Rightarrow> unit res" where
  "validate_client_order_id v = guard (\<not> valid_id v) ValueError
     ''client order id must match [A-Za-z0-9_-] and be <= 36 chars''"

definition MAX_ATTEMPT :: int where
  "MAX_ATTEMPT = 36 ^ 4 - 1"

record id_request =
  ir_account_id :: string
  ir_symbol :: string
  ir_position_side :: string
  ir_idempotency_key :: string
  ir_attempt :: int
  ir_prefix :: string

text \<open>Everything up to the final validation.\<close>

definition client_id_text :: "(nat list \<Rightarrow> nat list) \<Rightarrow> id_request \<Rightarrow> string res" where
  "client_id_text sha256 rq =
     (if ir_attempt rq < 0 \<or> ir_attempt rq > MAX_ATTEMPT
      then Inl (Exn ValueError ''attempt must be in [0, 1679615]'') else
     res_bind (clean_text ''account_id'' 128 (ir_account_id rq)) (\<lambda>normalized_account.
     res_bind (id_normalize_symbol (ir_symbol rq)) (\<lambda>normalized_symbol.
     res_bind (clean_text ''idempotency_key'' 256 (ir_idempotency_key rq)) (\<lambda>normalized_key.
     res_bind (clean_text ''prefix'' 64 (ir_prefix rq)) (\<lambda>cleaned_prefix.
     let raw_prefix = upper cleaned_prefix in
     if \<not> ascii_alnum raw_prefix
     then Inl (Exn ValueError ''prefix must contain only ASCII alphanumeric characters'') else
     let normalized_prefix = take 4 raw_prefix in
     res_bind (clean_text ''position_side'' 8 (ir_position_side rq)) (\<lambda>cleaned_side.
     let side = upper cleaned_side in
     if side \<noteq> ''LONG'' \<and> side \<noteq> ''SHORT''
     then Inl (Exn ValueError ''position_side must be LONG or SHORT'') else
     let attempt = nat (ir_attempt rq);
         material = utf8 (joined [char_of (31 :: nat)]
           [normalized_account, normalized_symbol, side, normalized_key, decimal_digits attempt]);
         digest = take 16 (rstrip_eq (b32encode (sha256 material)));
         side_code = (if side = ''LONG'' then ''L'' else ''S'')
     in Inr (normalized_prefix @ ''-'' @ take 8 normalized_symbol @ ''-'' @ side_code
          @ base36 attempt @ ''-'' @ digest)))))))"

definition build_client_order_id :: "(nat list \<Rightarrow> nat list) \<Rightarrow> id_request \<Rightarrow> string res" where
  "build_client_order_id sha256 rq =
     res_bind (client_id_text sha256 rq) (\<lambda>client_id.
     res_bind (validate_client_order_id client_id) (\<lambda>_. Inr client_id))"

section \<open>The parts of an id\<close>

lemma alnum_id: "is_alnum c \<Longrightarrow> id_char c"
  by (simp add: id_char_def)

lemma nth_alphabet:
  "i < length xs \<Longrightarrow> list_all P xs \<Longrightarrow> P (xs ! i)"
  by (simp add: list_all_length)

lemma base36_alphabet_ok: "list_all is_alnum base36_alphabet" "length base36_alphabet = 36"
  by (simp_all add: base36_alphabet_def is_alnum_def is_upper_ascii_def is_lower_ascii_def
      is_digit_ascii_def)

lemma b32_alphabet_ok: "list_all is_alnum b32_alphabet" "length b32_alphabet = 32"
  by (simp_all add: b32_alphabet_def is_alnum_def is_upper_ascii_def is_lower_ascii_def
      is_digit_ascii_def)

lemma base36_digits_alnum: "list_all is_alnum (base36_digits n)"
proof (induction n rule: base36_digits.induct)
  case (1 n)
  have "is_alnum (base36_alphabet ! (n mod 36))"
    by (rule nth_alphabet) (simp_all add: base36_alphabet_ok)
  with 1 show ?case by (simp add: base36_digits.simps [of n])
qed

lemma base36_digits_length: "n < 36 ^ k \<Longrightarrow> length (base36_digits n) \<le> k"
proof (induction k arbitrary: n)
  case 0
  then have "n = 0" by simp
  then show ?case by (simp add: base36_digits.simps [of 0])
next
  case (Suc k)
  have "n div 36 < 36 ^ k" using Suc.prems by (simp add: less_mult_imp_div_less mult.commute)
  with Suc.IH show ?case by (simp add: base36_digits.simps [of n])
qed

lemma base36_bounds:
  assumes "n < 36 ^ 4"
  shows "length (base36 n) \<le> 4" and "list_all is_alnum (base36 n)"
proof -
  show "length (base36 n) \<le> 4"
    using base36_digits_length [OF assms] by (simp add: base36_def)
  have "list_all is_alnum ''0''"
    by (simp add: is_alnum_def is_upper_ascii_def is_lower_ascii_def is_digit_ascii_def)
  then show "list_all is_alnum (base36 n)"
    using base36_digits_alnum [of n] by (auto simp: base36_def list_all_iff)
qed

lemma b32encode_chars: "c \<in> set (b32encode bs) \<Longrightarrow> is_alnum c \<or> c = CHR ''=''"
proof -
  have "is_alnum (b32_alphabet ! (m mod 32))" for m
    by (rule nth_alphabet) (simp_all add: b32_alphabet_ok)
  then show "c \<in> set (b32encode bs) \<Longrightarrow> is_alnum c \<or> c = CHR ''=''"
    by (auto simp: b32encode_def Let_def)
qed

text \<open>The padding is at the end only, so stripping it leaves no \<open>=\<close> behind.\<close>

lemma rstrip_b32: "list_all is_alnum (rstrip_eq (b32encode bs))"
proof -
  define ds where
    "ds = map (\<lambda>g. b32_alphabet ! (bits_value g mod 32)) (groups5 (concat (map byte_bits bs)))"
  have al: "is_alnum (b32_alphabet ! (m mod 32))" for m
    by (rule nth_alphabet) (simp_all add: b32_alphabet_ok)
  have ds: "c \<in> set ds \<Longrightarrow> is_alnum c" for c
    using al by (auto simp: ds_def)
  have "dropWhile (\<lambda>c. c = CHR ''='') (replicate k CHR ''='' @ rev ds)
      = dropWhile (\<lambda>c. c = CHR ''='') (rev ds)" for k
    by (induction k) auto
  then have "rstrip_eq (b32encode bs) = rev (dropWhile (\<lambda>c. c = CHR ''='') (rev ds))"
    by (simp add: rstrip_eq_def b32encode_def ds_def Let_def)
  then show ?thesis
    using ds by (auto simp: list_all_iff dest: set_dropWhileD)
qed

lemma ascii_alnum_all: "ascii_alnum s \<Longrightarrow> list_all is_alnum s"
  by (simp add: ascii_alnum_def)

lemma list_all_take: "list_all P xs \<Longrightarrow> list_all P (take n xs)"
  by (auto simp: list_all_iff dest: in_set_takeD)

lemma check_base_Inr: "check_base s = Inr u \<longleftrightarrow> ascii_alnum s"
  by (simp add: check_base_def guard_eq_Inr)

lemma id_normalize_symbol_alnum:
  assumes "id_normalize_symbol v = Inr s"
  shows "ascii_alnum s"
proof -
  obtain base rest where r: "check_base base = Inr ()"
    "(case rest of settle # _ \<Rightarrow>
       if settle \<noteq> [] \<and> (\<not> ascii_alnum settle \<or> \<not> endswith base settle)
       then Inl (Exn ValueError ''settlement suffix must match the normalized quote asset'')
       else Inr base | [] \<Rightarrow> Inr base) = (Inr s :: string res)"
    using assms unfolding id_normalize_symbol_def
    by (simp add: res_bind_eq_Inr Let_def if_Inl_eq_Inr) blast
  then show ?thesis
    by (cases rest) (auto simp: check_base_Inr split: if_splits)
qed

text \<open>Any text of the generator's shape is a valid id.\<close>

lemma id_shape_valid:
  assumes "ascii_alnum px" and "ascii_alnum sy" and side: "side = ''L'' \<or> side = ''S''"
    and att: "att < 36 ^ 4" and "list_all is_alnum dg"
  shows "valid_id (take 4 px @ ''-'' @ take 8 sy @ ''-'' @ side @ base36 att @ ''-'' @ take 16 dg)"
proof -
  have "list_all is_alnum side"
    using side by (auto simp: is_alnum_def is_upper_ascii_def)
  then have "list_all id_char (take 4 px @ ''-'' @ take 8 sy @ ''-'' @ side @ base36 att @ ''-''
      @ take 16 dg)"
    using assms(1,2,5) base36_bounds(2) [OF att]
    by (auto simp: list_all_iff id_char_def ascii_alnum_def dest: in_set_takeD)
  moreover have "length (take 4 px @ ''-'' @ take 8 sy @ ''-'' @ side @ base36 att @ ''-''
      @ take 16 dg) \<le> 36"
    using base36_bounds(1) [OF att] side by auto
  ultimately show ?thesis by (simp add: valid_id_def)
qed

lemma client_id_text_valid:
  assumes "client_id_text sha256 rq = Inr cid"
  shows "valid_id cid"
proof -
  have att: "nat (ir_attempt rq) < 36 ^ 4"
    using assms by (auto simp: client_id_text_def MAX_ATTEMPT_def nat_less_iff split: if_splits)
  obtain px sym side dg where
    "cid = take 4 px @ ''-'' @ take 8 sym @ ''-'' @ side @ base36 (nat (ir_attempt rq)) @ ''-''
      @ take 16 (rstrip_eq (b32encode dg))"
    "ascii_alnum px" "id_normalize_symbol (ir_symbol rq) = Inr sym" "side = ''L'' \<or> side = ''S''"
  proof -
    from assms show thesis
      unfolding client_id_text_def Let_def res_bind_eq_Inr if_Inl_eq_Inr not_not sum.inject
      apply -
      apply (elim conjE exE)
      apply (rule that, erule sym)
        apply (auto split: if_splits)
      done
  qed
  then show ?thesis
    using id_shape_valid id_normalize_symbol_alnum rstrip_b32 att by simp
qed

lemma build_eq_text: "build_client_order_id sha256 rq = client_id_text sha256 rq"
proof (cases "client_id_text sha256 rq")
  case (Inr cid)
  then show ?thesis
    using client_id_text_valid [OF Inr]
    by (simp add: build_client_order_id_def validate_client_order_id_def)
qed (simp add: build_client_order_id_def)

lemma build_valid: "build_client_order_id sha256 rq = Inr cid \<Longrightarrow> valid_id cid"
  by (simp add: build_eq_text client_id_text_valid)

end
