(* ===== verification/Execution_Data.thy ===== *)
theory Execution_Data
  imports Metadata Order_State Client_Order_Id
begin

text \<open>
  The frozen dataclasses of \<open>freqtrade/hedge/execution/service.py\<close>. A record is the object as
  it is after \<open>__post_init__\<close>, and \<open>mk_...\<close> is the constructor: it takes the keyword
  arguments as given (\<open>Decimal\<close> possibly not finite, times possibly naive, enum members or
  their text) and returns the normalised object or the exception. For every class a predicate
  \<open>..._ok\<close> states what holds of all its objects, and the lemma \<open>mk_..._ok\<close> that the
  constructor establishes it.
\<close>

section \<open>Enumerations\<close>

datatype position_side = LONG | SHORT

datatype intent_action = OPEN | INCREASE | REDUCE | CLOSE

datatype order_type = MARKET | LIMIT

fun side_value :: "position_side \<Rightarrow> string" where
  "side_value LONG = ''LONG''"
| "side_value SHORT = ''SHORT''"

fun action_value :: "intent_action \<Rightarrow> string" where
  "action_value OPEN = ''OPEN''"
| "action_value INCREASE = ''INCREASE''"
| "action_value REDUCE = ''REDUCE''"
| "action_value CLOSE = ''CLOSE''"

fun order_type_value :: "order_type \<Rightarrow> string" where
  "order_type_value MARKET = ''MARKET''"
| "order_type_value LIMIT = ''LIMIT''"

definition reduces_risk :: "intent_action \<Rightarrow> bool" where
  "reduces_risk a = (a \<in> {REDUCE, CLOSE})"

text \<open>\<open>v if isinstance(v, E) else E(v)\<close>\<close>

definition coerce_enum ::
    "exn_class \<Rightarrow> string \<Rightarrow> ('e \<times> string) list \<Rightarrow> 'e + string \<Rightarrow> 'e res" where
  "coerce_enum c message members v = (case v of
     Inl e \<Rightarrow> Inr e
   | Inr t \<Rightarrow> (case find (\<lambda>m. snd m = t) members of
       Some m \<Rightarrow> Inr (fst m) | None \<Rightarrow> Inl (Exn c message)))"

lemma coerce_enum_Inl [simp]: "coerce_enum c m ms (Inl e) = Inr e"
  by (simp add: coerce_enum_def)

definition coerce_side :: "string \<Rightarrow> position_side + string \<Rightarrow> position_side res" where
  "coerce_side message = coerce_enum ValueError message [(LONG, ''LONG''), (SHORT, ''SHORT'')]"

definition coerce_action :: "string \<Rightarrow> intent_action + string \<Rightarrow> intent_action res" where
  "coerce_action message = coerce_enum ValueError message
     [(OPEN, ''OPEN''), (INCREASE, ''INCREASE''), (REDUCE, ''REDUCE''), (CLOSE, ''CLOSE'')]"

definition coerce_order_type :: "string \<Rightarrow> order_type + string \<Rightarrow> order_type res" where
  "coerce_order_type message = coerce_enum ValueError message
     [(MARKET, ''MARKET''), (LIMIT, ''LIMIT'')]"

lemma coerce_Inl [simp]:
  "coerce_side m (Inl x) = Inr x" "coerce_action m (Inl y) = Inr y"
  "coerce_order_type m (Inl z) = Inr z"
  by (simp_all add: coerce_side_def coerce_action_def coerce_order_type_def)

section \<open>Checked fields\<close>

definition decimal_of :: "string \<Rightarrow> dec \<Rightarrow> rat res" where
  \<comment> \<open>\<open>_decimal\<close>\<close>
  "decimal_of field v = finite_decimal ValueError field v"

definition aware_of :: "string \<Rightarrow> datetime \<Rightarrow> int res" where
  \<comment> \<open>\<open>_aware\<close>\<close>
  "aware_of field v = aware ValueError field v"

lemma decimal_of_Inr: "decimal_of f v = Inr q \<longleftrightarrow> v = DFin q"
  by (simp add: decimal_of_def finite_decimal_Inr)

lemma decimal_of_DFin [simp]: "decimal_of f (DFin q) = Inr q"
  by (simp add: decimal_of_def)

lemma aware_of_Inr: "aware_of f v = Inr t \<longleftrightarrow> v = Aware t"
  by (simp add: aware_of_def aware_Inr)

lemma aware_of_Aware [simp]: "aware_of f (Aware t) = Inr t"
  by (simp add: aware_of_def)

text \<open>The symbol of an intent: unlike in \<open>client_order_id.py\<close>, an empty settlement suffix
  (\<open>BTC/USDT:\<close>) is refused.\<close>

definition normalize_symbol :: "string \<Rightarrow> string res" where
  "normalize_symbol v = res_bind (required_text ValueError ''symbol'' 64 v) (\<lambda>text.
     let raw = upper text in
     if \<not> (raw \<noteq> [] \<and> list_all symbol_char raw)
     then Inl (Exn ValueError ''symbol contains unsupported characters'') else
     let parts = split_on CHR '':'' raw in
     if length parts > 2
     then Inl (Exn ValueError ''symbol contains multiple settlement suffixes'') else
     let normalized = filter (\<lambda>c. c \<notin> set ''/_-'') (hd parts) in
     res_bind (check_base normalized) (\<lambda>_.
     case tl parts of
       settle # _ \<Rightarrow>
         if \<not> ascii_alnum settle \<or> \<not> endswith normalized settle
         then Inl (Exn ValueError ''settlement suffix must match the normalized quote asset'')
         else Inr normalized
     | [] \<Rightarrow> Inr normalized))"

fun reason_loop :: "string \<Rightarrow> string list \<Rightarrow> string list \<Rightarrow> string list res" where
  "reason_loop field result [] = Inr result"
| "reason_loop field result (item # source) =
     res_bind (required_text ValueError field 64 item) (\<lambda>text.
     reason_loop field (if text \<in> set result then result else result @ [text]) source)"

definition reason_codes :: "string \<Rightarrow> string list \<Rightarrow> string list res" where
  "reason_codes field source =
     (if length source > 32 then Inl (Exn ValueError (field @ '' has too many values''))
      else reason_loop field [] source)"

definition codes_ok :: "string list \<Rightarrow> bool" where
  "codes_ok cs \<longleftrightarrow> length cs \<le> 32 \<and> distinct cs \<and> list_all (clean 64) cs"

lemma reason_loop_ok:
  "reason_loop f acc src = Inr cs \<Longrightarrow> distinct acc \<Longrightarrow> list_all (clean 64) acc \<Longrightarrow>
    length cs \<le> length acc + length src \<and> distinct cs \<and> list_all (clean 64) cs"
proof (induction f acc src rule: reason_loop.induct)
  case (2 f acc item src)
  obtain t where t: "required_text ValueError f 64 item = Inr t"
    "reason_loop f (if t \<in> set acc then acc else acc @ [t]) src = Inr cs"
    using "2.prems"(1) by (auto simp: res_bind_eq_Inr)
  have "clean 64 t" using t(1) by (auto simp: required_text_Inr)
  with 2 t show ?case by (force split: if_splits)
qed simp

lemma reason_codes_ok: "reason_codes f src = Inr cs \<Longrightarrow> codes_ok cs"
  using reason_loop_ok [of f "[]" src cs] by (auto simp: reason_codes_def codes_ok_def split: if_splits)

lemma reason_loop_id:
  "list_all (clean 64) src \<Longrightarrow> distinct (acc @ src) \<Longrightarrow> reason_loop f acc src = Inr (acc @ src)"
proof (induction f acc src rule: reason_loop.induct)
  case (2 f acc item src)
  then show ?case using "2.IH" [of item] by (simp add: required_text_id)
qed simp

lemma reason_codes_id: "codes_ok cs \<Longrightarrow> reason_codes f cs = Inr cs"
  by (simp add: codes_ok_def reason_codes_def reason_loop_id)

section \<open>OrderIntent\<close>

record intent_args =
  ia_account_id :: string
  ia_symbol :: string
  ia_position_side :: "position_side + string"
  ia_action :: "intent_action + string"
  ia_quantity :: dec
  ia_idempotency_key :: string
  ia_order_type :: "order_type + string"
  ia_limit_price :: "dec option"
  ia_reduce_only :: bool
  ia_intent_id :: nat
  ia_action_group_id :: "nat option"
  ia_metadata :: mapping

record order_intent =
  oi_account_id :: string
  oi_symbol :: string
  oi_position_side :: position_side
  oi_action :: intent_action
  oi_quantity :: rat
  oi_idempotency_key :: string
  oi_order_type :: order_type
  oi_limit_price :: "rat option"
  oi_reduce_only :: bool
  oi_intent_id :: nat
  oi_action_group_id :: "nat option"
  oi_metadata :: mapping

definition intent_limit_price :: "dec option \<Rightarrow> rat option res" where
  "intent_limit_price v = (case v of None \<Rightarrow> Inr None
     | Some d \<Rightarrow> res_bind (decimal_of ''limit_price'' d) (\<lambda>p.
         if p \<le> 0 then Inl (Exn ValueError ''limit_price must be positive'') else Inr (Some p)))"

definition mk_order_intent :: "intent_args \<Rightarrow> order_intent res" where
  "mk_order_intent a =
     res_bind (required_text ValueError ''account_id'' 128 (ia_account_id a)) (\<lambda>account_id.
     res_bind (required_text ValueError ''idempotency_key'' 256 (ia_idempotency_key a)) (\<lambda>key.
     res_bind (normalize_symbol (ia_symbol a)) (\<lambda>symbol.
     let bad = ''position_side, action or order_type is invalid'' in
     res_bind (coerce_side bad (ia_position_side a)) (\<lambda>side.
     res_bind (coerce_action bad (ia_action a)) (\<lambda>action.
     res_bind (coerce_order_type bad (ia_order_type a)) (\<lambda>order_type.
     res_bind (decimal_of ''quantity'' (ia_quantity a)) (\<lambda>quantity.
     if quantity \<le> 0 then Inl (Exn ValueError ''quantity must be positive'') else
     res_bind (intent_limit_price (ia_limit_price a)) (\<lambda>limit_price.
     if order_type = LIMIT \<and> limit_price = None
     then Inl (Exn ValueError ''LIMIT intent requires positive limit_price'')
     else if order_type = MARKET \<and> limit_price \<noteq> None
     then Inl (Exn ValueError ''MARKET intent must not include limit_price'')
     else if \<not> reduces_risk action \<and> ia_reduce_only a
     then Inl (Exn ValueError ''risk-increasing intent cannot be reduce_only'') else
     res_bind (freeze_mapping (ia_metadata a)) (\<lambda>metadata.
     Inr \<lparr>oi_account_id = account_id, oi_symbol = symbol, oi_position_side = side,
          oi_action = action, oi_quantity = quantity, oi_idempotency_key = key,
          oi_order_type = order_type, oi_limit_price = limit_price,
          oi_reduce_only = (if reduces_risk action then True else ia_reduce_only a),
          oi_intent_id = ia_intent_id a, oi_action_group_id = ia_action_group_id a,
          oi_metadata = metadata\<rparr>)))))))))"

definition intent_ok :: "order_intent \<Rightarrow> bool" where
  "intent_ok i \<longleftrightarrow> clean 128 (oi_account_id i) \<and> clean 256 (oi_idempotency_key i)
     \<and> ascii_alnum (oi_symbol i) \<and> 0 < oi_quantity i
     \<and> (\<forall>p. oi_limit_price i = Some p \<longrightarrow> 0 < p)
     \<and> (oi_order_type i = LIMIT \<longleftrightarrow> oi_limit_price i \<noteq> None)
     \<and> oi_reduce_only i = reduces_risk (oi_action i) \<and> mapping_ok (oi_metadata i)"

lemma normalize_symbol_alnum:
  assumes "normalize_symbol v = Inr s"
  shows "ascii_alnum s"
proof -
  obtain base rest where r: "check_base base = Inr ()"
    "(case rest of settle # _ \<Rightarrow>
       if \<not> ascii_alnum settle \<or> \<not> endswith base settle
       then Inl (Exn ValueError ''settlement suffix must match the normalized quote asset'')
       else Inr base | [] \<Rightarrow> Inr base) = (Inr s :: string res)"
    using assms unfolding normalize_symbol_def
    by (simp add: res_bind_eq_Inr Let_def if_Inl_eq_Inr) blast
  then show ?thesis
    by (cases rest) (auto simp: check_base_Inr split: if_splits)
qed

lemma intent_limit_price_Inr:
  "intent_limit_price v = Inr r \<longleftrightarrow>
    (case v of None \<Rightarrow> r = None | Some d \<Rightarrow> \<exists>p. d = DFin p \<and> 0 < p \<and> r = Some p)"
  by (auto simp: intent_limit_price_def res_splits decimal_of_Inr not_le split: option.splits)

lemma mk_order_intent_ok:
  assumes "mk_order_intent a = Inr i"
  shows "intent_ok i"
proof -
  obtain account key symbol side action ot q p m where d:
    "required_text ValueError ''account_id'' 128 (ia_account_id a) = Inr account"
    "required_text ValueError ''idempotency_key'' 256 (ia_idempotency_key a) = Inr key"
    "normalize_symbol (ia_symbol a) = Inr symbol" "\<not> q \<le> 0"
    "intent_limit_price (ia_limit_price a) = Inr p"
    "\<not> (ot = LIMIT \<and> p = None)" "\<not> (ot = MARKET \<and> p \<noteq> None)"
    "\<not> (\<not> reduces_risk action \<and> ia_reduce_only a)" "freeze_mapping (ia_metadata a) = Inr m"
    "i = \<lparr>oi_account_id = account, oi_symbol = symbol, oi_position_side = side,
          oi_action = action, oi_quantity = q, oi_idempotency_key = key,
          oi_order_type = ot, oi_limit_price = p,
          oi_reduce_only = (if reduces_risk action then True else ia_reduce_only a),
          oi_intent_id = ia_intent_id a, oi_action_group_id = ia_action_group_id a,
          oi_metadata = m\<rparr>"
    using assms unfolding mk_order_intent_def Let_def res_bind_eq_Inr if_Inl_eq_Inr sum.inject
    by (elim conjE exE) (rule that, assumption+, erule sym)
  then show ?thesis
    using normalize_symbol_alnum [OF d(3)] freeze_mapping_ok [OF d(9)]
    by (cases ot) (auto simp: intent_ok_def required_text_Inr intent_limit_price_Inr
        split: option.splits)
qed

lemma mk_intent_fields:
  assumes "mk_order_intent a = Inr i" and "ia_position_side a = Inl side" and "ia_action a = Inl act"
  shows "oi_position_side i = side" and "oi_action i = act" and "ia_quantity a = DFin (oi_quantity i)"
    and "oi_idempotency_key i = strip (ia_idempotency_key a)"
    and "oi_action_group_id i = ia_action_group_id a" and "oi_intent_id i = ia_intent_id a"
  using assms unfolding mk_order_intent_def Let_def res_bind_eq_Inr if_Inl_eq_Inr sum.inject
  by (auto simp: decimal_of_Inr required_text_Inr)

definition intent_reduces :: "order_intent \<Rightarrow> bool" where
  "intent_reduces i = reduces_risk (oi_action i)"

type_synonym leg = "string \<times> string \<times> position_side"

definition intent_leg_key :: "order_intent \<Rightarrow> leg" where
  "intent_leg_key i = (oi_account_id i, oi_symbol i, oi_position_side i)"

definition leg_label :: "leg \<Rightarrow> string" where
  "leg_label l = (case l of (a, s, p) \<Rightarrow> joined '':'' [a, s, side_value p])"

text \<open>Python's \<open>==\<close> on intents, and \<open>ExecutionService._same_intent\<close>, which leaves the
  idempotency key and the intent id out.\<close>

definition intent_eq :: "order_intent \<Rightarrow> order_intent \<Rightarrow> bool" where
  "intent_eq a b \<longleftrightarrow> a\<lparr>oi_metadata := []\<rparr> = b\<lparr>oi_metadata := []\<rparr>
     \<and> mapping_eq (oi_metadata a) (oi_metadata b)"

definition same_intent :: "order_intent \<Rightarrow> order_intent \<Rightarrow> bool" where
  "same_intent l r \<longleftrightarrow>
     (oi_account_id l, oi_symbol l, oi_position_side l, oi_action l, oi_quantity l,
      oi_order_type l, oi_limit_price l, oi_reduce_only l, oi_action_group_id l)
     = (oi_account_id r, oi_symbol r, oi_position_side r, oi_action r, oi_quantity r,
      oi_order_type r, oi_limit_price r, oi_reduce_only r, oi_action_group_id r)
     \<and> mapping_eq (oi_metadata l) (oi_metadata r)"

lemma same_intent_refl: "intent_ok i \<Longrightarrow> same_intent i i"
  by (simp add: same_intent_def intent_ok_def mapping_eq_refl)

lemma intent_eq_refl: "intent_ok i \<Longrightarrow> intent_eq i i"
  by (simp add: intent_eq_def intent_ok_def mapping_eq_refl)


section \<open>RiskApproval and ApprovedOrderIntent\<close>

record risk_approval =
  ra_approved :: bool
  ra_approved_quantity :: rat
  ra_reason_codes :: "string list"

definition mk_risk_approval :: "bool \<Rightarrow> dec \<Rightarrow> string list \<Rightarrow> risk_approval res" where
  "mk_risk_approval approved approved_quantity codes =
     res_bind (decimal_of ''approved_quantity'' approved_quantity) (\<lambda>quantity.
     if quantity < 0 then Inl (Exn ValueError ''approved_quantity must not be negative'')
     else if approved \<and> quantity \<le> 0
     then Inl (Exn ValueError ''approved approval requires positive approved_quantity'')
     else if \<not> approved \<and> quantity \<noteq> 0
     then Inl (Exn ValueError ''rejected approval requires approved_quantity == 0'') else
     res_bind (reason_codes ''reason_codes'' codes) (\<lambda>rc.
     Inr \<lparr>ra_approved = approved, ra_approved_quantity = quantity, ra_reason_codes = rc\<rparr>))"

definition approval_ok :: "risk_approval \<Rightarrow> bool" where
  "approval_ok a \<longleftrightarrow> (if ra_approved a then 0 < ra_approved_quantity a
     else ra_approved_quantity a = 0) \<and> codes_ok (ra_reason_codes a)"

lemma mk_risk_approval_ok: "mk_risk_approval b q cs = Inr a \<Longrightarrow> approval_ok a"
  by (auto simp: mk_risk_approval_def approval_ok_def res_splits not_less not_le
      dest: reason_codes_ok)

definition allow_all_approve :: "order_intent \<Rightarrow> risk_approval res" where
  \<comment> \<open>\<open>AllowAllRiskApproval.approve\<close>\<close>
  "allow_all_approve i = mk_risk_approval True (DFin (oi_quantity i)) [''ALLOW_ALL_FAKE'']"

record approved_intent =
  ap_intent :: order_intent
  ap_approved_quantity :: rat
  ap_client_order_id :: string
  ap_approved_at :: int
  ap_risk_reason_codes :: "string list"

definition mk_approved_intent ::
    "order_intent \<Rightarrow> dec \<Rightarrow> string \<Rightarrow> datetime \<Rightarrow> string list \<Rightarrow> approved_intent res" where
  "mk_approved_intent intent approved_quantity client_order_id approved_at codes =
     res_bind (decimal_of ''approved_quantity'' approved_quantity) (\<lambda>quantity.
     if quantity \<le> 0 \<or> quantity > oi_quantity intent
     then Inl (Exn ValueError ''approved_quantity must be in (0, intent.quantity]'') else
     res_bind (validate_client_order_id client_order_id) (\<lambda>_.
     res_bind (aware_of ''approved_at'' approved_at) (\<lambda>stamp.
     res_bind (reason_codes ''risk_reason_codes'' codes) (\<lambda>rc.
     Inr \<lparr>ap_intent = intent, ap_approved_quantity = quantity,
          ap_client_order_id = client_order_id, ap_approved_at = stamp,
          ap_risk_reason_codes = rc\<rparr>))))"

section \<open>ExternalOrderSnapshot\<close>

record snapshot_args =
  sa_client_order_id :: string
  sa_status :: "order_state + string"
  sa_filled_quantity :: dec
  sa_average_price :: "dec option"
  sa_exchange_order_id :: "string option"
  sa_exchange_trade_id :: "string option"
  sa_last_fill_fee :: dec
  sa_fee_currency :: "string option"
  sa_reason :: "string option"
  sa_observed_at :: datetime

record order_snapshot =
  sn_client_order_id :: string
  sn_status :: order_state
  sn_filled_quantity :: rat
  sn_average_price :: "rat option"
  sn_exchange_order_id :: "string option"
  sn_exchange_trade_id :: "string option"
  sn_last_fill_fee :: rat
  sn_fee_currency :: "string option"
  sn_reason :: "string option"
  sn_observed_at :: int

definition EXTERNAL_STATES :: "order_state list" where
  "EXTERNAL_STATES = [ACKNOWLEDGED, PARTIAL, FILLED, CANCELED, REJECTED, UNKNOWN]"

definition snapshot_average :: "rat \<Rightarrow> dec option \<Rightarrow> rat option res" where
  "snapshot_average filled v = (case v of None \<Rightarrow> Inr None
     | Some d \<Rightarrow> res_bind (decimal_of ''average_price'' d) (\<lambda>average.
         if average \<le> 0 \<or> filled \<le> 0
         then Inl (Exn ValueError ''average_price requires a positive fill'')
         else Inr (Some average)))"

definition snapshot_fill_check :: "order_state \<Rightarrow> rat \<Rightarrow> unit res" where
  "snapshot_fill_check status filled =
     (if status = ACKNOWLEDGED \<and> filled \<noteq> 0
      then Inl (Exn ValueError ''ACKNOWLEDGED requires filled == 0'')
      else if status = PARTIAL \<and> filled \<le> 0
      then Inl (Exn ValueError ''PARTIAL requires positive filled_quantity'')
      else if status = FILLED \<and> filled \<le> 0
      then Inl (Exn ValueError ''FILLED requires positive filled_quantity'')
      else if status = REJECTED \<and> filled \<noteq> 0
      then Inl (Exn ValueError ''REJECTED requires filled == 0'')
      else Inr ())"

definition mk_snapshot :: "snapshot_args \<Rightarrow> order_snapshot res" where
  "mk_snapshot a =
     res_bind (required_text ValueError ''client_order_id'' 256 (sa_client_order_id a)) (\<lambda>cid.
     res_bind (coerce_state ValueError ''snapshot status is invalid'' (sa_status a)) (\<lambda>status.
     if status \<notin> set EXTERNAL_STATES
     then Inl (Exn ValueError ''snapshot status is not externally observable'') else
     res_bind (decimal_of ''filled_quantity'' (sa_filled_quantity a)) (\<lambda>filled.
     if filled < 0 then Inl (Exn ValueError ''filled_quantity must not be negative'') else
     res_bind (snapshot_average filled (sa_average_price a)) (\<lambda>average.
     res_bind (snapshot_fill_check status filled) (\<lambda>_.
     res_bind (aware_of ''observed_at'' (sa_observed_at a)) (\<lambda>observed_at.
     res_bind (optional_text ValueError ''exchange_order_id'' 256 (sa_exchange_order_id a)) (\<lambda>eid.
     res_bind (optional_text ValueError ''exchange_trade_id'' 256 (sa_exchange_trade_id a)) (\<lambda>tid.
     res_bind (decimal_of ''last_fill_fee'' (sa_last_fill_fee a)) (\<lambda>fee.
     if fee < 0 then Inl (Exn ValueError ''last_fill_fee must not be negative'') else
     res_bind (optional_text ValueError ''fee_currency'' 32 (sa_fee_currency a)) (\<lambda>currency.
     if fee > 0 \<and> (filled \<le> 0 \<or> tid = None)
     then Inl (Exn ValueError
       ''positive last_fill_fee requires a filled snapshot and exchange_trade_id'') else
     res_bind (optional_text ValueError ''reason'' 1024 (sa_reason a)) (\<lambda>reason.
     Inr \<lparr>sn_client_order_id = cid, sn_status = status, sn_filled_quantity = filled,
          sn_average_price = average, sn_exchange_order_id = eid, sn_exchange_trade_id = tid,
          sn_last_fill_fee = fee, sn_fee_currency = map_option upper currency,
          sn_reason = reason, sn_observed_at = observed_at\<rparr>)))))))))))"

definition snapshot_ok :: "order_snapshot \<Rightarrow> bool" where
  "snapshot_ok sn \<longleftrightarrow> clean 256 (sn_client_order_id sn)
     \<and> sn_status sn \<in> set EXTERNAL_STATES \<and> 0 \<le> sn_filled_quantity sn
     \<and> (\<forall>a. sn_average_price sn = Some a \<longrightarrow> 0 < a \<and> 0 < sn_filled_quantity sn)
     \<and> snapshot_fill_check (sn_status sn) (sn_filled_quantity sn) = Inr ()
     \<and> (\<forall>x. sn_exchange_order_id sn = Some x \<longrightarrow> clean 256 x)
     \<and> (\<forall>x. sn_exchange_trade_id sn = Some x \<longrightarrow> clean 256 x)
     \<and> 0 \<le> sn_last_fill_fee sn
     \<and> (0 < sn_last_fill_fee sn \<longrightarrow> 0 < sn_filled_quantity sn \<and> sn_exchange_trade_id sn \<noteq> None)
     \<and> (\<forall>x. sn_reason sn = Some x \<longrightarrow> clean 1024 x)"

lemma snapshot_average_Inr:
  "snapshot_average f v = Inr r \<longleftrightarrow>
    (case v of None \<Rightarrow> r = None | Some d \<Rightarrow> \<exists>q. d = DFin q \<and> 0 < q \<and> 0 < f \<and> r = Some q)"
  by (auto simp: snapshot_average_def res_splits decimal_of_Inr not_le split: option.splits)

lemma mk_snapshot_ok:
  assumes "mk_snapshot a = Inr sn"
  shows "snapshot_ok sn"
proof -
  obtain cid status filled average upd eid tid fee cur rs where d:
    "required_text ValueError ''client_order_id'' 256 (sa_client_order_id a) = Inr cid"
    "\<not> status \<notin> set EXTERNAL_STATES" "\<not> filled < 0"
    "snapshot_average filled (sa_average_price a) = Inr average"
    "snapshot_fill_check status filled = Inr ()"
    "optional_text ValueError ''exchange_order_id'' 256 (sa_exchange_order_id a) = Inr eid"
    "optional_text ValueError ''exchange_trade_id'' 256 (sa_exchange_trade_id a) = Inr tid"
    "\<not> fee < 0" "\<not> (fee > 0 \<and> (filled \<le> 0 \<or> tid = None))"
    "optional_text ValueError ''reason'' 1024 (sa_reason a) = Inr rs"
    "sn = \<lparr>sn_client_order_id = cid, sn_status = status, sn_filled_quantity = filled,
          sn_average_price = average, sn_exchange_order_id = eid, sn_exchange_trade_id = tid,
          sn_last_fill_fee = fee, sn_fee_currency = map_option upper cur,
          sn_reason = rs, sn_observed_at = upd\<rparr>"
    using assms unfolding mk_snapshot_def res_bind_eq_Inr if_Inl_eq_Inr sum.inject
    by auto
  have "\<forall>x. average = Some x \<longrightarrow> 0 < x \<and> 0 < filled"
    using d(4) by (auto simp: snapshot_average_Inr split: option.splits)
  moreover have "\<forall>x. eid = Some x \<longrightarrow> clean 256 x" "\<forall>x. tid = Some x \<longrightarrow> clean 256 x"
    "\<forall>x. rs = Some x \<longrightarrow> clean 1024 x"
    using d(6,7,10) by (auto dest: optional_text_clean)
  moreover have "clean 256 cid" using d(1) by (auto simp: required_text_Inr)
  ultimately show ?thesis using d(2,3,5,8,9) by (auto simp: snapshot_ok_def d(11))
qed

section \<open>ExecutionOrder\<close>

record execution_order =
  eo_intent :: order_intent
  eo_client_order_id :: string
  eo_approved_quantity :: rat
  eo_lifecycle :: order_lifecycle
  eo_created_at :: int

definition order_checks :: "rat \<Rightarrow> order_lifecycle \<Rightarrow> unit res" where
  "order_checks approved lc =
     (if lc_filled_quantity lc > approved
      then Inl (Exn ValueError ''lifecycle fill exceeds approved_quantity'')
      else if approved = 0 \<and> lc_status lc \<noteq> REJECTED
      then Inl (Exn ValueError ''zero approved quantity is valid only for REJECTED orders'')
      else if lc_status lc = FILLED \<and> (approved \<le> 0 \<or> lc_filled_quantity lc \<noteq> approved)
      then Inl (Exn ValueError ''FILLED lifecycle must equal approved_quantity'')
      else if lc_status lc = PARTIAL \<and> \<not> (0 < lc_filled_quantity lc \<and> lc_filled_quantity lc < approved)
      then Inl (Exn ValueError ''PARTIAL lifecycle must be below approved_quantity'')
      else Inr ())"

definition mk_execution_order ::
    "order_intent \<Rightarrow> string \<Rightarrow> dec \<Rightarrow> order_lifecycle \<Rightarrow> datetime \<Rightarrow> execution_order res" where
  "mk_execution_order intent client_order_id approved_quantity lifecycle created_at =
     res_bind (validate_client_order_id client_order_id) (\<lambda>_.
     res_bind (decimal_of ''approved_quantity'' approved_quantity) (\<lambda>approved.
     if approved < 0 \<or> approved > oi_quantity intent
     then Inl (Exn ValueError ''approved_quantity must be in [0, intent.quantity]'') else
     res_bind (order_checks approved lifecycle) (\<lambda>_.
     res_bind (aware_of ''created_at'' created_at) (\<lambda>stamp.
     Inr \<lparr>eo_intent = intent, eo_client_order_id = client_order_id,
          eo_approved_quantity = approved, eo_lifecycle = lifecycle, eo_created_at = stamp\<rparr>))))"

definition with_lifecycle :: "execution_order \<Rightarrow> order_lifecycle \<Rightarrow> execution_order res" where
  \<comment> \<open>\<open>replace(order, lifecycle=lc)\<close>, which runs \<open>__post_init__\<close> again\<close>
  "with_lifecycle order lc = mk_execution_order (eo_intent order) (eo_client_order_id order)
     (DFin (eo_approved_quantity order)) lc (Aware (eo_created_at order))"

definition leg_key :: "execution_order \<Rightarrow> leg" where
  "leg_key order = intent_leg_key (eo_intent order)"

definition eo_status :: "execution_order \<Rightarrow> order_state" where
  "eo_status order = lc_status (eo_lifecycle order)"

definition order_eq :: "execution_order \<Rightarrow> execution_order \<Rightarrow> bool" where
  \<comment> \<open>Python's \<open>==\<close>\<close>
  "order_eq a b \<longleftrightarrow> intent_eq (eo_intent a) (eo_intent b)
     \<and> eo_client_order_id a = eo_client_order_id b
     \<and> eo_approved_quantity a = eo_approved_quantity b
     \<and> eo_lifecycle a = eo_lifecycle b \<and> eo_created_at a = eo_created_at b"

definition order_wf :: "execution_order \<Rightarrow> bool" where
  "order_wf e \<longleftrightarrow> intent_ok (eo_intent e) \<and> valid_id (eo_client_order_id e)
     \<and> 0 \<le> eo_approved_quantity e \<and> eo_approved_quantity e \<le> oi_quantity (eo_intent e)
     \<and> lc_wf (eo_lifecycle e) \<and> order_checks (eo_approved_quantity e) (eo_lifecycle e) = Inr ()"

lemma order_checks_Inr:
  "order_checks n lc = Inr u \<longleftrightarrow> lc_filled_quantity lc \<le> n \<and> (n = 0 \<longrightarrow> lc_status lc = REJECTED)
     \<and> (lc_status lc = FILLED \<longrightarrow> 0 < n \<and> lc_filled_quantity lc = n)
     \<and> (lc_status lc = PARTIAL \<longrightarrow> 0 < lc_filled_quantity lc \<and> lc_filled_quantity lc < n)"
  by (auto simp: order_checks_def)

lemma mk_execution_order_Inr:
  "mk_execution_order i c q lc t = Inr e \<longleftrightarrow>
    valid_id c \<and> (\<exists>n stamp. q = DFin n \<and> t = Aware stamp \<and> 0 \<le> n \<and> n \<le> oi_quantity i
      \<and> order_checks n lc = Inr () \<and> e = \<lparr>eo_intent = i, eo_client_order_id = c,
          eo_approved_quantity = n, eo_lifecycle = lc, eo_created_at = stamp\<rparr>)"
  by (auto simp: mk_execution_order_def validate_client_order_id_def res_splits decimal_of_Inr
      aware_of_Inr not_less)

lemma mk_execution_order_wf:
  "mk_execution_order i c q lc t = Inr e \<Longrightarrow> intent_ok i \<Longrightarrow> lc_wf lc \<Longrightarrow> order_wf e"
  by (auto simp: mk_execution_order_Inr order_wf_def)

lemma with_lifecycle_Inr:
  assumes "order_wf e"
  shows "with_lifecycle e lc = Inr e' \<longleftrightarrow>
    order_checks (eo_approved_quantity e) lc = Inr () \<and> e' = e\<lparr>eo_lifecycle := lc\<rparr>"
  using assms by (cases e) (auto simp: with_lifecycle_def mk_execution_order_Inr order_wf_def)

lemma order_eq_refl: "order_wf e \<Longrightarrow> order_eq e e"
  by (simp add: order_eq_def order_wf_def intent_eq_refl)

section \<open>ExecutionResult and ExecutionBatchReport\<close>

record execution_result =
  er_order :: execution_order
  er_idempotent_replay :: bool
  er_message :: "string option"

definition mk_execution_result ::
    "execution_order \<Rightarrow> bool \<Rightarrow> string option \<Rightarrow> execution_result res" where
  "mk_execution_result order replay message =
     res_bind (optional_text ValueError ''message'' 2048 message) (\<lambda>m.
     Inr \<lparr>er_order = order, er_idempotent_replay = replay, er_message = m\<rparr>)"

record batch_report =
  br_operation :: string
  br_attempted :: int
  br_results :: "execution_result list"
  br_errors :: "string list"

fun batch_errors :: "string list \<Rightarrow> string list res" where
  "batch_errors [] = Inr []"
| "batch_errors (item # items) =
     res_bind (required_text ValueError ''batch error'' 2048 item) (\<lambda>e.
     res_bind (batch_errors items) (\<lambda>es. Inr (e # es)))"

definition mk_batch_report ::
    "string \<Rightarrow> int \<Rightarrow> execution_result list \<Rightarrow> string list \<Rightarrow> batch_report res" where
  "mk_batch_report operation attempted results errors =
     res_bind (required_text ValueError ''operation'' 64 operation) (\<lambda>op.
     if attempted < 0 then Inl (Exn ValueError ''attempted must not be negative'') else
     res_bind (batch_errors errors) (\<lambda>normalized_errors.
     if int (length results) + int (length normalized_errors) > attempted
     then Inl (Exn ValueError ''batch outcomes exceed attempted operations'')
     else Inr \<lparr>br_operation = op, br_attempted = attempted, br_results = results,
               br_errors = normalized_errors\<rparr>))"

definition br_succeeded :: "batch_report \<Rightarrow> nat" where
  "br_succeeded r = length (br_results r)"

definition br_failed :: "batch_report \<Rightarrow> nat" where
  "br_failed r = length (br_errors r)"

definition br_unresolved :: "batch_report \<Rightarrow> nat" where
  "br_unresolved r = length (filter (\<lambda>x. eo_status (er_order x) = UNKNOWN) (br_results r))"

definition br_complete :: "batch_report \<Rightarrow> bool" where
  "br_complete r = (int (br_succeeded r) + int (br_failed r) = br_attempted r)"

lemma batch_errors_length: "batch_errors xs = Inr ys \<Longrightarrow> length ys = length xs"
  by (induction xs arbitrary: ys) (auto simp: res_bind_eq_Inr)

lemma batch_errors_Inl:
  "batch_errors xs = Inl e \<Longrightarrow> \<exists>x \<in> set xs. \<not> clean 2048 (strip x)"
proof (induction xs)
  case (Cons x xs)
  show ?case
  proof (cases "required_text ValueError ''batch error'' 2048 x")
    case (Inl e')
    then have "\<not> clean 2048 (strip x)" by (metis required_text_Inr sum.distinct(1))
    then show ?thesis by simp
  next
    case (Inr y)
    with Cons show ?thesis by (cases "batch_errors xs") auto
  qed
qed simp

end
