(* ===== verification/Execution_Store.thy ===== *)
theory Execution_Store
  imports Execution_Data
begin

text \<open>
  Where the execution service keeps its orders: the port \<open>ExecutionStorePort\<close> of
  \<open>freqtrade/hedge/execution/service.py\<close> as the locale \<open>order_store\<close>, the in-memory
  implementation \<open>InMemoryExecutionStore\<close> (optimistic versioning in \<open>put\<close>, the UNKNOWN
  query, the sorted listing) as its interpretation, and the bounded audit log. The order
  \<open>store_le\<close> says that a store only gains orders and moves the ones it has forward.
\<close>

section \<open>InMemoryExecutionStore\<close>

type_synonym exec_store = "(string, execution_order) dict"

definition store_put :: "execution_order \<Rightarrow> (exec_store, unit) py" where
  "store_put order orders =
     (case dict_get orders (eo_client_order_id order) of
       Some current \<Rightarrow>
         if lc_version (eo_lifecycle order) < lc_version (eo_lifecycle current)
         then (Inl (Exn ValueError ''refusing to overwrite a newer execution order''), orders)
         else if lc_version (eo_lifecycle order) = lc_version (eo_lifecycle current)
           \<and> \<not> order_eq order current
         then (Inl (Exn ValueError ''same lifecycle version contains conflicting data''), orders)
         else (Inr (), dict_put (eo_client_order_id order) order orders)
     | None \<Rightarrow> (Inr (), dict_put (eo_client_order_id order) order orders))"

definition store_get :: "exec_store \<Rightarrow> string \<Rightarrow> execution_order option" where
  "store_get orders client_order_id = dict_get orders client_order_id"

definition has_unresolved_unknown :: "exec_store \<Rightarrow> leg \<Rightarrow> bool" where
  "has_unresolved_unknown orders lk =
     list_ex (\<lambda>order. leg_key order = lk \<and> eo_status order = UNKNOWN) (dict_values orders)"

definition store_list :: "exec_store \<Rightarrow> execution_order list" where
  "store_list orders =
     sort_key (\<lambda>order. (eo_created_at order, eo_client_order_id order)) (dict_values orders)"

section \<open>What a store promises\<close>

definition order_le :: "execution_order \<Rightarrow> execution_order \<Rightarrow> bool" where
  "order_le a b \<longleftrightarrow> eo_intent b = eo_intent a \<and> eo_client_order_id b = eo_client_order_id a
     \<and> eo_approved_quantity b = eo_approved_quantity a \<and> eo_created_at b = eo_created_at a
     \<and> lc_progress (eo_lifecycle a) (eo_lifecycle b)"

definition store_inv :: "exec_store \<Rightarrow> bool" where
  "store_inv orders \<longleftrightarrow> distinct (map fst orders)
     \<and> (\<forall>k e. dict_get orders k = Some e \<longrightarrow> eo_client_order_id e = k \<and> order_wf e)"

lemma order_le_refl [simp]: "order_le a a"
  by (simp add: order_le_def)

lemma order_le_trans: "order_le a b \<Longrightarrow> order_le b c \<Longrightarrow> order_le a c"
  by (auto simp: order_le_def intro: lc_progress_trans)

lemma store_inv_get:
  "store_inv d \<Longrightarrow> dict_get d k = Some e \<Longrightarrow> eo_client_order_id e = k \<and> order_wf e"
  by (simp add: store_inv_def)

locale order_store =
  fixes inv :: "'s \<Rightarrow> bool"
    and get :: "'s \<Rightarrow> string \<Rightarrow> execution_order option"
    and put :: "execution_order \<Rightarrow> ('s, unit) py"
    and unresolved :: "'s \<Rightarrow> leg \<Rightarrow> bool"
    and orders :: "'s \<Rightarrow> execution_order list"
  assumes put_ok: "put e s = (Inr (), t) \<Longrightarrow>
      get t = (get s)(eo_client_order_id e \<mapsto> e)
      \<and> (\<forall>old. get s (eo_client_order_id e) = Some old \<longrightarrow>
           lc_version (eo_lifecycle old) \<le> lc_version (eo_lifecycle e))"
    and put_raises: "put e s = (Inl x, t) \<Longrightarrow> t = s \<and> exn_cls x = ValueError
      \<and> (\<exists>old. get s (eo_client_order_id e) = Some old
           \<and> lc_version (eo_lifecycle e) \<le> lc_version (eo_lifecycle old))"
    and put_newer: "get s (eo_client_order_id e) = Some old \<Longrightarrow>
      lc_version (eo_lifecycle old) < lc_version (eo_lifecycle e) \<Longrightarrow> fst (put e s) = Inr ()"
    and put_fresh: "get s (eo_client_order_id e) = None \<Longrightarrow> fst (put e s) = Inr ()"
    and put_inv: "inv s \<Longrightarrow> order_wf e \<Longrightarrow> inv (snd (put e s))"
    and unresolved_iff: "inv s \<Longrightarrow>
      unresolved s lk \<longleftrightarrow> (\<exists>k e. get s k = Some e \<and> leg_key e = lk \<and> eo_status e = UNKNOWN)"
    and orders_iff: "inv s \<Longrightarrow> e \<in> set (orders s) \<longleftrightarrow> (\<exists>k. get s k = Some e)"
    and get_inv: "inv s \<Longrightarrow> get s k = Some e \<Longrightarrow> eo_client_order_id e = k \<and> order_wf e"
begin

lemma get_after_put: "put e s = (Inr (), t) \<Longrightarrow> get t (eo_client_order_id e) = Some e"
  using put_ok by simp

lemma get_other:
  assumes "put e s = (r, t)" and "k \<noteq> eo_client_order_id e"
  shows "get t k = get s k"
proof (cases r)
  case (Inl x)
  with assms put_raises show ?thesis by blast
next
  case (Inr u)
  with assms put_ok show ?thesis by simp
qed

text \<open>A put keeps every id the store knows.\<close>

lemma put_keeps_dom: "put e s = (r, t) \<Longrightarrow> get s k \<noteq> None \<Longrightarrow> get t k \<noteq> None"
  by (cases r; cases "k = eo_client_order_id e")
    (auto dest: get_after_put get_other put_raises)

text \<open>An order in UNKNOWN keeps its leg blocked until that very order is put again.\<close>

lemma blocked_until_put:
  assumes "inv s" and "order_wf e" and "get s k = Some u" and "eo_status u = UNKNOWN"
    and "put e s = (r, t)" and "k \<noteq> eo_client_order_id e"
  shows "unresolved t (leg_key u)"
proof -
  have "inv t" using put_inv [OF assms(1,2)] assms(5) by simp
  moreover have "get t k = Some u" using get_other [OF assms(5,6)] assms(3) by simp
  ultimately show ?thesis using unresolved_iff assms(4) by blast
qed

end

lemma store_put_cases:
  "store_put e d = (r, d') \<Longrightarrow>
    (r = Inr () \<and> d' = dict_put (eo_client_order_id e) e d
       \<and> (\<forall>old. dict_get d (eo_client_order_id e) = Some old \<longrightarrow>
            lc_version (eo_lifecycle old) \<le> lc_version (eo_lifecycle e)))
    \<or> (d' = d \<and> (\<exists>m. r = Inl (Exn ValueError m)) \<and> (\<exists>old. dict_get d (eo_client_order_id e) = Some old
       \<and> lc_version (eo_lifecycle e) \<le> lc_version (eo_lifecycle old)))"
  by (auto simp: store_put_def not_less split: option.splits if_splits)

lemma store_inv_put:
  assumes "store_inv d" and "order_wf e"
  shows "store_inv (dict_put (eo_client_order_id e) e d)"
  unfolding store_inv_def
proof (intro conjI allI impI)
  show "distinct (map fst (dict_put (eo_client_order_id e) e d))"
    using assms(1) by (simp add: store_inv_def distinct_put)
  fix k x
  assume "dict_get (dict_put (eo_client_order_id e) e d) k = Some x"
  then have "(k = eo_client_order_id e \<and> x = e) \<or> dict_get d k = Some x"
    by (simp add: dict_get_put split: if_splits)
  then show "eo_client_order_id x = k" "order_wf x"
    using store_inv_get [OF assms(1)] assms(2) by auto
qed

interpretation mst: order_store store_inv store_get store_put has_unresolved_unknown store_list
proof (unfold_locales, goal_cases)
  case (1 e s t)
  have "store_get d = dict_get d" for d by (simp add: fun_eq_iff store_get_def)
  with 1 store_put_cases [OF 1] show ?case by (auto simp: dict_get_put)
next
  case (2 e s x t)
  then show ?case by (auto simp: store_get_def dest!: store_put_cases)
next
  case (3 s e old)
  then show ?case by (simp add: store_get_def store_put_def)
next
  case (4 s e)
  then show ?case by (simp add: store_get_def store_put_def)
next
  case (5 s e)
  obtain r t where p: "store_put e s = (r, t)" by fastforce
  show ?case using store_put_cases [OF p] store_inv_put [OF 5] 5 by (auto simp: p)
next
  case (6 s lk)
  then have "distinct (map fst s)" by (simp add: store_inv_def)
  from dict_values_get [OF this] show ?case
    unfolding has_unresolved_unknown_def store_get_def list_ex_iff by blast
next
  case (7 s e)
  then have "distinct (map fst s)" by (simp add: store_inv_def)
  from dict_values_get [OF this] show ?case by (simp add: store_list_def store_get_def)
next
  case (8 s k e)
  then show ?case by (simp add: store_get_def store_inv_def)
qed

section \<open>Stores only move forward\<close>

definition store_le :: "exec_store \<Rightarrow> exec_store \<Rightarrow> bool" where
  "store_le a b \<longleftrightarrow> (\<forall>k e. dict_get a k = Some e \<longrightarrow> (\<exists>e'. dict_get b k = Some e' \<and> order_le e e'))"

lemma store_le_refl [simp]: "store_le a a"
  by (simp add: store_le_def)

lemma store_le_trans: "store_le a b \<Longrightarrow> store_le b c \<Longrightarrow> store_le a c"
  unfolding store_le_def by (meson order_le_trans)

lemma store_le_dom: "store_le a b \<Longrightarrow> dict_get a k \<noteq> None \<Longrightarrow> dict_get b k \<noteq> None"
  by (auto simp: store_le_def)

lemma store_put_le:
  assumes "store_put e d = (r, d')"
    and "\<And>old. dict_get d (eo_client_order_id e) = Some old \<Longrightarrow> order_le old e"
  shows "store_le d d'"
  using store_put_cases [OF assms(1)] assms(2)
  by (auto simp: store_le_def dict_get_put)

lemma store_list_sorted:
  "sorted (map (\<lambda>e. (eo_created_at e, eo_client_order_id e)) (store_list d))"
  by (simp add: store_list_def)

lemma store_list_set: "set (store_list d) = set (dict_values d)"
  by (simp add: store_list_def)

section \<open>The audit log\<close>

record audit_record =
  au_event :: string
  au_payload :: mapping
  au_occurred_at :: int

record audit_log =
  al_max_records :: int
  al_records :: "audit_record list"

definition new_audit_log :: "int \<Rightarrow> audit_log res" where
  "new_audit_log max_records =
     (if max_records < 1 then Inl (Exn ValueError ''max_records must be a positive integer'')
      else Inr \<lparr>al_max_records = max_records, al_records = []\<rparr>)"

text \<open>\<open>deque(maxlen=n).append\<close> drops the oldest record once the deque is full.\<close>

definition audit_emit :: "int \<Rightarrow> string \<Rightarrow> mapping \<Rightarrow> (audit_log, unit) py" where
  "audit_emit now event payload =
     py_bind (py_of (required_text ValueError ''event'' 128 event)) (\<lambda>event_text.
     py_bind (py_of (freeze_mapping payload)) (\<lambda>frozen log.
       let records = al_records log @
             [\<lparr>au_event = event_text, au_payload = frozen, au_occurred_at = now\<rparr>];
           excess = length records - nat (al_max_records log)
       in (Inr (), log\<lparr>al_records := drop excess records\<rparr>)))"

lemma audit_emit_records:
  assumes "audit_emit now event payload alog = (Inr (), alog')"
    and "int (length (al_records alog)) \<le> al_max_records alog" and "1 \<le> al_max_records alog"
  shows "int (length (al_records alog')) \<le> al_max_records alog'"
    and "\<exists>p. al_records alog' \<noteq> [] \<and> last (al_records alog') =
      \<lparr>au_event = strip event, au_payload = p, au_occurred_at = now\<rparr> \<and> mapping_ok p"
proof -
  obtain p where p: "freeze_mapping payload = Inr p" and
    l: "alog' = alog\<lparr>al_records := drop (Suc (length (al_records alog)) - nat (al_max_records alog))
         (al_records alog @ [\<lparr>au_event = strip event, au_payload = p, au_occurred_at = now\<rparr>])\<rparr>"
    using assms(1)
    by (auto simp: audit_emit_def py_bind_def Let_def required_text_Inr split: sum.splits)
  show "int (length (al_records alog')) \<le> al_max_records alog'"
    using assms(2,3) by (auto simp: l)
  show "\<exists>p. al_records alog' \<noteq> [] \<and> last (al_records alog') =
      \<lparr>au_event = strip event, au_payload = p, au_occurred_at = now\<rparr> \<and> mapping_ok p"
    using assms(2,3) freeze_mapping_ok [OF p] by (intro exI [of _ p]) (auto simp: l)
qed

end
