(* ===== verification/Execution_Service.thy ===== *)
theory Execution_Service
  imports Execution_Store Idempotency Kill_Switch
begin

text \<open>
  The execution service, \<open>freqtrade/hedge/execution/service.py\<close>, \<open>ExecutionService\<close>: every
  operation as a computation over the service's state, with the calls in the order the code makes
  them. The ports (risk, exchange, resolver, audit, metrics), the clock and the hashes are the record
  \<open>ports\<close>: functions over an environment \<open>'w\<close> about which nothing is assumed, so they may
  raise anything at any time. An operation that holds the leg lock is one atomic step. The field
  \<open>sv_calls\<close> is a ghost: it records the calls made to the exchange, in order, so that the
  lemmas can speak about them; no operation reads it.
\<close>

section \<open>Ports and state\<close>

text \<open>What an exchange adapter or the resolver may return: a snapshot, \<open>None\<close>, or an object of
  another class, which the code looks for.\<close>

datatype reply = RSnapshot order_snapshot | RNone | RInvalid

datatype metric = MIntent string | MOrder string string | MFill rat | MLock string bool

datatype exchange_call = CSubmit approved_intent | CQuery string | CCancel string

record 'w ports =
  p_now :: "'w \<Rightarrow> int \<times> 'w"
  p_approve :: "order_intent \<Rightarrow> ('w, risk_approval) py"
  p_submit :: "approved_intent \<Rightarrow> ('w, reply) py"
  p_query :: "string \<Rightarrow> ('w, reply) py"
  p_cancel :: "string \<Rightarrow> ('w, reply) py"
  p_resolve :: "execution_order \<Rightarrow> ('w, reply) py"
  p_emit :: "string \<Rightarrow> mapping \<Rightarrow> ('w, unit) py"
  p_metric :: "metric \<Rightarrow> ('w, unit) py"
  p_sha256 :: "nat list \<Rightarrow> nat list"
  p_blake2s :: "nat list \<Rightarrow> nat list"

record 'w svc =
  sv_store :: exec_store
  sv_idem :: "execution_result idempotency_store"
  sv_kill :: kill_switch
  sv_calls :: "exchange_call list"
  sv_world :: 'w

definition new_service :: "kill_switch \<Rightarrow> 'w \<Rightarrow> 'w svc" where
  "new_service ks w = \<lparr>sv_store = [], sv_idem = empty_store, sv_kill = ks, sv_calls = [],
     sv_world = w\<rparr>"

definition at_port :: "('w, 'a) py \<Rightarrow> ('w svc, 'a) py" where
  "at_port m s = (case m (sv_world s) of (r, w) \<Rightarrow> (r, s\<lparr>sv_world := w\<rparr>))"

definition at_store :: "(exec_store, 'a) py \<Rightarrow> ('w svc, 'a) py" where
  "at_store m s = (case m (sv_store s) of (r, d) \<Rightarrow> (r, s\<lparr>sv_store := d\<rparr>))"

definition at_idem :: "(execution_result idempotency_store, 'a) py \<Rightarrow> ('w svc, 'a) py" where
  "at_idem m s = (case m (sv_idem s) of (r, d) \<Rightarrow> (r, s\<lparr>sv_idem := d\<rparr>))"

definition utc_now :: "'w ports \<Rightarrow> ('w svc, int) py" where
  "utc_now P s = (case p_now P (sv_world s) of (t, w) \<Rightarrow> (Inr t, s\<lparr>sv_world := w\<rparr>))"

definition logged :: "exchange_call \<Rightarrow> ('w, 'a) py \<Rightarrow> ('w svc, 'a) py" where
  "logged c m = py_then (py_mod (\<lambda>s. s\<lparr>sv_calls := sv_calls s @ [c]\<rparr>)) (at_port m)"

definition ex_submit :: "'w ports \<Rightarrow> approved_intent \<Rightarrow> ('w svc, reply) py" where
  "ex_submit P a = logged (CSubmit a) (p_submit P a)"

definition ex_query :: "'w ports \<Rightarrow> string \<Rightarrow> ('w svc, reply) py" where
  "ex_query P cid = logged (CQuery cid) (p_query P cid)"

definition ex_cancel :: "'w ports \<Rightarrow> string \<Rightarrow> ('w svc, reply) py" where
  "ex_cancel P cid = logged (CCancel cid) (p_cancel P cid)"

section \<open>Audit, metrics and locks\<close>

definition safe_audit :: "'w ports \<Rightarrow> string \<Rightarrow> mapping \<Rightarrow> ('w svc, unit) py" where
  "safe_audit P event payload =
     py_bind (py_try (at_port (p_emit P event payload))) (\<lambda>_. py_ret ())"

definition safe_metric :: "'w ports \<Rightarrow> metric \<Rightarrow> ('w svc, unit) py" where
  "safe_metric P m = py_bind (py_try (at_port (p_metric P m))) (\<lambda>_. py_ret ())"

definition audit_payload :: "execution_order \<Rightarrow> mapping" where
  "audit_payload order = (let i = eo_intent order; lc = eo_lifecycle order in
     [(''intent_id'', VShow (VUuid (oi_intent_id i))),
      (''client_order_id'', VStr (eo_client_order_id order)),
      (''action_group_id'', case oi_action_group_id i of None \<Rightarrow> VNone | Some g \<Rightarrow> VShow (VUuid g)),
      (''account_id'', VStr (oi_account_id i)),
      (''symbol'', VStr (oi_symbol i)),
      (''position_side'', VStr (side_value (oi_position_side i))),
      (''action'', VStr (action_value (oi_action i))),
      (''status'', VStr (state_value (lc_status lc))),
      (''quantity'', VShow (VDec (eo_approved_quantity order))),
      (''filled_quantity'', VShow (VDec (lc_filled_quantity lc))),
      (''reason'', opt_str (lc_reason lc))])"

definition LOCK_STRIPES :: nat where
  "LOCK_STRIPES = 257"

definition leg_lock :: "'w ports \<Rightarrow> leg \<Rightarrow> nat" where
  \<comment> \<open>the index of the lock of a leg\<close>
  "leg_lock P l = (case l of (a, s, p) \<Rightarrow>
     let material = utf8 (joined [char_of (31 :: nat)] [a, s, side_value p]);
         index = foldl (\<lambda>n b. 256 * n + b) 0 (p_blake2s P material)
     in index mod LOCK_STRIPES)"

section \<open>Changing an order\<close>

definition find_order :: "string \<Rightarrow> ('w svc, execution_order option) py" where
  "find_order cid = py_get (\<lambda>s. store_get (sv_store s) cid)"

definition latest_order :: "execution_order \<Rightarrow> ('w svc, execution_order) py" where
  \<comment> \<open>\<open>self._store.get_by_client_order_id(order.client_order_id) or order\<close>\<close>
  "latest_order order =
     py_get (\<lambda>s. some_or (store_get (sv_store s) (eo_client_order_id order)) order)"

definition get_order :: "string \<Rightarrow> ('w svc, execution_order) py" where
  "get_order cid = py_bind (find_order cid) (\<lambda>order.
     case order of None \<Rightarrow> py_raise (Exn KeyError cid) | Some e \<Rightarrow> py_ret e)"

definition transition_order ::
    "'w ports \<Rightarrow> execution_order \<Rightarrow> order_state \<Rightarrow> string option \<Rightarrow> ('w svc, execution_order) py"
where
  "transition_order P order target reason =
     py_bind (latest_order order) (\<lambda>latest.
     py_bind (utc_now P) (\<lambda>now.
     py_bind (py_of (transition now (eo_lifecycle latest) (Inl target)
       (plain_fact (eo_approved_quantity latest) None None None reason None))) (\<lambda>lifecycle.
     py_bind (py_of (with_lifecycle latest lifecycle)) (\<lambda>updated.
     py_bind (at_store (store_put updated)) (\<lambda>_.
     py_bind (safe_metric P (MOrder (state_value (eo_status latest)) (state_value target))) (\<lambda>_.
     py_ret updated))))))"

definition effective_status :: "execution_order \<Rightarrow> order_snapshot \<Rightarrow> order_state" where
  "effective_status latest sn = (let current = eo_lifecycle latest;
       status = sn_status sn; filled = sn_filled_quantity sn in
     if filled = eo_approved_quantity latest \<and> filled > 0
     then (if status \<in> {PARTIAL, CANCELED} then FILLED else status)
     else if lc_status current = CANCELED \<and> status = PARTIAL \<and> filled > lc_filled_quantity current
     then CANCELED else status)"

definition same_fact :: "order_lifecycle \<Rightarrow> order_state \<Rightarrow> order_snapshot \<Rightarrow> bool" where
  "same_fact current status sn \<longleftrightarrow> status = lc_status current
     \<and> sn_filled_quantity sn = lc_filled_quantity current
     \<and> (sn_average_price sn = None \<or> sn_average_price sn = lc_average_price current)
     \<and> (sn_exchange_order_id sn = None \<or> sn_exchange_order_id sn = lc_exchange_order_id current)"

text \<open>The \<open>try\<close> block that turns a fact into the next lifecycle.\<close>

definition next_lifecycle ::
    "execution_order \<Rightarrow> order_state \<Rightarrow> order_snapshot \<Rightarrow> int \<Rightarrow> order_lifecycle res" where
  "next_lifecycle latest status sn occurred_at =
     (let current = eo_lifecycle latest; filled = sn_filled_quantity sn;
          fct = plain_fact (eo_approved_quantity latest) (Some filled) (sn_average_price sn)
            (sn_exchange_order_id sn) (sn_reason sn) (Some occurred_at)
      in if lc_terminal current
         then reconcile_terminal_fact occurred_at current (Inl status) (DFin filled) fct
         else transition occurred_at current (Inl status) fct)"

definition apply_snapshot_locked ::
    "'w ports \<Rightarrow> execution_order \<Rightarrow> order_snapshot \<Rightarrow> ('w svc, execution_order) py" where
  "apply_snapshot_locked P order sn =
     (if sn_client_order_id sn \<noteq> eo_client_order_id order
      then py_raise (Exn ValueError ''snapshot client_order_id mismatch'') else
     py_bind (latest_order order) (\<lambda>latest.
     let current = eo_lifecycle latest; filled = sn_filled_quantity sn in
     if filled > eo_approved_quantity latest
     then py_raise (Exn ValueError ''snapshot fill exceeds approved quantity'') else
     let status = effective_status latest sn in
     if same_fact current status sn then py_ret latest else
     let stale = sn_observed_at sn < lc_updated_at current in
     if stale \<and> lc_status current \<noteq> UNKNOWN \<and> status \<noteq> FILLED
       \<and> filled \<le> lc_filled_quantity current
     then py_bind (safe_audit P ''ORDER_SNAPSHOT_IGNORED_STALE'' (audit_payload latest @
            [(''snapshot_status'', VStr (state_value status)),
             (''snapshot_observed_at'', VShow (VDate (Aware (sn_observed_at sn))))]))
          (\<lambda>_. py_ret latest) else
     let occurred_at = (if stale then lc_updated_at current else sn_observed_at sn) in
     case next_lifecycle latest status sn occurred_at of
       Inl e \<Rightarrow> if is_a e InvalidOrderTransition \<and> stale \<and> filled \<le> lc_filled_quantity current
                then py_ret latest else py_raise e
     | Inr lifecycle \<Rightarrow>
         py_bind (py_of (with_lifecycle latest lifecycle)) (\<lambda>updated.
         py_bind (at_store (store_put updated)) (\<lambda>_.
         py_bind (safe_metric P (MOrder (state_value (lc_status current))
           (state_value (lc_status lifecycle)))) (\<lambda>_.
         py_bind (if lc_filled_quantity lifecycle > lc_filled_quantity current
           then safe_metric P (MFill (dec_sub (lc_filled_quantity lifecycle)
             (lc_filled_quantity current))) else py_ret ()) (\<lambda>_.
         py_bind (py_get (\<lambda>s. has_unresolved_unknown (sv_store s) (leg_key updated))) (\<lambda>locked.
         py_bind (safe_metric P (MLock (leg_label (leg_key updated)) locked)) (\<lambda>_.
         py_bind (safe_audit P ''ORDER_STATE_CHANGED'' (audit_payload updated)) (\<lambda>_.
         py_ret updated)))))))))"

definition recover_safely ::
    "'w ports \<Rightarrow> execution_order \<Rightarrow> ('w svc, order_snapshot option) py" where
  "recover_safely P order =
     py_bind (py_try (py_bind (at_port (p_resolve P order)) (\<lambda>reply.
       case reply of
         RInvalid \<Rightarrow> py_raise (Exn TypeError ''resolver must return ExternalOrderSnapshot or None'')
       | RNone \<Rightarrow> py_ret None
       | RSnapshot sn \<Rightarrow> if sn_status sn = UNKNOWN
           then py_bind (safe_audit P ''ORDER_RECOVERY_REMAINED_UNKNOWN'' (audit_payload order))
             (\<lambda>_. py_ret None)
           else py_ret (Some sn)))) (\<lambda>out.
     case out of
       Inr snapshot \<Rightarrow> py_ret snapshot
     | Inl e \<Rightarrow> py_bind (safe_audit P ''ORDER_RECOVERY_FAILED''
         (audit_payload order @ [(''error'', VStr (exn_name e))])) (\<lambda>_. py_ret None))"

definition audit_invalid_recovery ::
    "'w ports \<Rightarrow> execution_order \<Rightarrow> exn \<Rightarrow> ('w svc, unit) py" where
  "audit_invalid_recovery P order e = safe_audit P ''ORDER_RECOVERY_SNAPSHOT_INVALID''
     (audit_payload order @ [(''error'', VStr (exn_name e))])"

definition result_of :: "execution_order \<Rightarrow> bool \<Rightarrow> string option \<Rightarrow> ('w svc, execution_result) py"
where
  "result_of order replay message = py_of (mk_execution_result order replay message)"

text \<open>The recurring \<open>try: order = self._apply_snapshot_locked(...) except Exception\<close> whose handler
  only audits: the order after it.\<close>

definition merge_recovered ::
    "'w ports \<Rightarrow> execution_order \<Rightarrow> order_snapshot option \<Rightarrow> ('w svc, execution_order) py" where
  "merge_recovered P order recovered =
     (case recovered of None \<Rightarrow> py_ret order
      | Some sn \<Rightarrow> py_catch (apply_snapshot_locked P order sn)
          (\<lambda>e. py_bind (audit_invalid_recovery P order e) (\<lambda>_. py_ret order)))"

section \<open>Submission\<close>

definition intent_client_id :: "'w ports \<Rightarrow> order_intent \<Rightarrow> string res" where
  "intent_client_id P i = build_client_order_id (p_sha256 P)
     \<lparr>ir_account_id = oi_account_id i, ir_symbol = oi_symbol i,
      ir_position_side = side_value (oi_position_side i),
      ir_idempotency_key = oi_idempotency_key i, ir_attempt = 0, ir_prefix = ''FTH''\<rparr>"

definition recover_existing_execution ::
    "'w ports \<Rightarrow> execution_order \<Rightarrow> order_intent \<Rightarrow> ('w svc, execution_result) py" where
  "recover_existing_execution P existing intent =
     (if \<not> same_intent (eo_intent existing) intent
      then py_raise (Exn IdempotencyConflictError
        ''deterministic client order id belongs to a different intent'') else
     py_bind (if eo_status existing \<in> {PREPARED, SUBMITTING}
       then transition_order P existing UNKNOWN (Some ''recovered_existing_execution_record'')
       else py_ret existing) (\<lambda>order.
     py_bind (if eo_status order = UNKNOWN
       then py_bind (recover_safely P order) (merge_recovered P order)
       else py_ret order) (\<lambda>order.
     py_bind (safe_metric P (MIntent ''existing_record_replay'')) (\<lambda>_.
     py_bind (safe_audit P ''ORDER_EXISTING_RECORD_REPLAYED'' (audit_payload order)) (\<lambda>_.
     result_of order True (Some ''existing execution record recovered without resubmission''))))))"

definition submission_unknown ::
    "'w ports \<Rightarrow> execution_order \<Rightarrow> exn \<Rightarrow> ('w svc, execution_result) py" where
  "submission_unknown P order error =
     (let reason = (if is_a error TimeoutError then ''submit_timeout''
        else ''submit_error:'' @ exn_name error) in
     py_bind (transition_order P order UNKNOWN (Some reason)) (\<lambda>order.
     py_bind (safe_metric P (MLock (leg_label (leg_key order)) True)) (\<lambda>_.
     py_bind (safe_audit P ''ORDER_SUBMIT_UNKNOWN'' (audit_payload order)) (\<lambda>_.
     py_bind (recover_safely P order) (\<lambda>recovered.
     py_bind (merge_recovered P order recovered) (\<lambda>order.
     result_of order False (Some (if is_a error TimeoutError
       then ''submit timed out; queried before any retry''
       else ''submit outcome uncertain; queried before any retry''))))))))"

definition invalid_submission_ack ::
    "'w ports \<Rightarrow> execution_order \<Rightarrow> exn \<Rightarrow> ('w svc, execution_result) py" where
  "invalid_submission_ack P order error =
     py_bind (get_order (eo_client_order_id order)) (\<lambda>latest.
     if lc_terminal (eo_lifecycle latest)
     then result_of latest False (Some ''invalid acknowledgement ignored after terminal fact'') else
     py_bind (if eo_status latest \<noteq> UNKNOWN
       then transition_order P latest UNKNOWN (Some (''invalid_ack:'' @ exn_name error))
       else py_ret latest) (\<lambda>order.
     py_bind (recover_safely P order) (\<lambda>recovered.
     py_bind (merge_recovered P order recovered) (\<lambda>order.
     result_of order False (Some ''invalid acknowledgement; recovery queried'')))))"

definition rejected_before_submit ::
    "'w ports \<Rightarrow> order_intent \<Rightarrow> risk_approval \<Rightarrow> ('w svc, execution_result) py" where
  "rejected_before_submit P intent approval =
     py_bind (utc_now P) (\<lambda>now.
     py_bind (py_of (intent_client_id P intent)) (\<lambda>client_id.
     let codes = joined '','' (ra_reason_codes approval) in
     py_bind (py_of (transition now (new_lifecycle now) (Inl REJECTED)
       (plain_fact (oi_quantity intent) None None None
         (Some (if codes = [] then ''risk_rejected'' else codes)) (Some now)))) (\<lambda>lifecycle.
     py_bind (py_of (mk_execution_order intent client_id (DFin 0) lifecycle (Aware now))) (\<lambda>order.
     py_bind (at_store (store_put order)) (\<lambda>_.
     py_bind (safe_metric P (MIntent ''risk_rejected'')) (\<lambda>_.
     py_bind (safe_audit P ''ORDER_INTENT_REJECTED'' (audit_payload order)) (\<lambda>_.
     result_of order False (Some ''risk rejected''))))))))"

definition completed_with ::
    "string \<Rightarrow> ('w svc, execution_result) py \<Rightarrow> ('w svc, execution_result) py" where
  \<comment> \<open>\<open>result = ...; self._idempotency.complete(key, result); return result\<close>\<close>
  "completed_with key m = py_bind m (\<lambda>result.
     py_bind (at_idem (complete key result)) (\<lambda>_. py_ret result))"

text \<open>The part of \<open>_submit_locked\<close> before \<open>side_effect_started = True\<close>: a final result, or
  the SUBMITTING order and what to send.\<close>

definition submit_prepare ::
    "'w ports \<Rightarrow> order_intent \<Rightarrow> string \<Rightarrow> execution_order option \<Rightarrow>
      ('w svc, execution_result + (execution_order \<times> approved_intent)) py" where
  "submit_prepare P intent client_id existing_for_intent =
     (case existing_for_intent of
       Some existing \<Rightarrow> py_bind (completed_with (oi_idempotency_key intent)
         (recover_existing_execution P existing intent)) (\<lambda>result. py_ret (Inl result))
     | None \<Rightarrow>
       py_bind (py_get sv_kill) (\<lambda>ks.
       py_bind (py_of (assert_allowed ks (intent_reduces intent))) (\<lambda>_.
       py_bind (py_get (\<lambda>s. \<not> intent_reduces intent
         \<and> has_unresolved_unknown (sv_store s) (intent_leg_key intent))) (\<lambda>blocked.
       if blocked
       then py_bind (safe_metric P (MLock (leg_label (intent_leg_key intent)) True)) (\<lambda>_.
         py_raise (Exn ExecutionBlockedError
           ''unresolved UNKNOWN order blocks new risk on this leg'')) else
       py_bind (at_port (p_approve P intent)) (\<lambda>approval.
       if ra_approved_quantity approval > oi_quantity intent
       then py_raise (Exn ValueError ''risk approval cannot exceed requested quantity'')
       else if \<not> ra_approved approval
       then py_bind (completed_with (oi_idempotency_key intent)
         (rejected_before_submit P intent approval)) (\<lambda>result. py_ret (Inl result)) else
       py_bind (utc_now P) (\<lambda>now.
       py_bind (py_of (mk_execution_order intent client_id (DFin (ra_approved_quantity approval))
         (new_lifecycle now) (Aware now))) (\<lambda>order.
       py_bind (at_store (store_put order)) (\<lambda>_.
       py_bind (safe_audit P ''ORDER_INTENT_PREPARED'' (audit_payload order)) (\<lambda>_.
       py_bind (transition_order P order SUBMITTING None) (\<lambda>order.
       py_bind (py_of (mk_approved_intent intent (DFin (eo_approved_quantity order)) client_id
         (Aware now) (ra_reason_codes approval))) (\<lambda>approved.
       py_ret (Inr (order, approved)))))))))))))"

definition apply_acknowledgement ::
    "'w ports \<Rightarrow> execution_order \<Rightarrow> reply \<Rightarrow> ('w svc, execution_result) py" where
  "apply_acknowledgement P order reply =
     (case reply of
       RSnapshot snapshot \<Rightarrow>
         py_bind (py_try (apply_snapshot_locked P order snapshot)) (\<lambda>out. case out of
           Inl e \<Rightarrow> invalid_submission_ack P order e
         | Inr order \<Rightarrow>
             if eo_status order = UNKNOWN
             then py_bind (recover_safely P order) (\<lambda>recovered.
               py_bind (merge_recovered P order recovered) (\<lambda>order.
               result_of order False (Some ''submit returned UNKNOWN; recovery queried'')))
             else result_of order False None)
     | _ \<Rightarrow> invalid_submission_ack P order (Exn TypeError ''invalid snapshot''))"

definition submit_send ::
    "'w ports \<Rightarrow> order_intent \<Rightarrow> execution_order \<Rightarrow> approved_intent \<Rightarrow>
      ('w svc, execution_result) py" where
  "submit_send P intent order approved =
     py_bind (py_try (ex_submit P approved)) (\<lambda>out.
     completed_with (oi_idempotency_key intent) (case out of
       Inl e \<Rightarrow>
         if is_a e DefinitiveSubmissionError
         then py_bind (transition_order P order REJECTED
             (Some (''submit_rejected:'' @ exn_name e))) (\<lambda>order.
           py_bind (safe_audit P ''ORDER_SUBMIT_REJECTED'' (audit_payload order)) (\<lambda>_.
           result_of order False (Some ''submission was definitively rejected'')))
         else submission_unknown P order e
     | Inr reply \<Rightarrow> apply_acknowledgement P order reply))"

definition submit :: "'w ports \<Rightarrow> order_intent \<Rightarrow> ('w svc, execution_result) py" where
  \<comment> \<open>\<open>submit\<close> under the leg lock: \<open>_submit_locked\<close>\<close>
  "submit P intent =
     py_bind (py_of (intent_client_id P intent)) (\<lambda>client_id.
     py_bind (find_order client_id) (\<lambda>existing_for_intent.
     py_bind (at_idem (reserve (oi_idempotency_key intent))) (\<lambda>reservation.
     case rv_state reservation of
       COMPLETED \<Rightarrow> (case rv_value reservation of
           None \<Rightarrow> py_raise (Exn RuntimeError ''completed idempotency reservation has no value'')
         | Some v \<Rightarrow>
             if \<not> same_intent (eo_intent (er_order v)) intent
             then py_raise (Exn IdempotencyConflictError
               ''idempotency key was already used for a different intent'')
             else py_bind (find_order (eo_client_order_id (er_order v))) (\<lambda>latest.
               result_of (some_or latest (er_order v)) True (er_message v)))
     | IN_FLIGHT \<Rightarrow> py_raise (Exn ExecutionBlockedError ''idempotency key is already in flight'')
     | NEW \<Rightarrow>
         py_bind (safe_metric P (MIntent ''received'')) (\<lambda>_.
         py_bind (py_catch (submit_prepare P intent client_id existing_for_intent)
           (\<lambda>e. py_bind (at_idem (release (oi_idempotency_key intent))) (\<lambda>_. py_raise e)))
         (\<lambda>prepared. case prepared of
           Inl result \<Rightarrow> py_ret result
         | Inr (order, approved) \<Rightarrow> submit_send P intent order approved)))))"

end
