(* ===== verification/Execution_Control.thy ===== *)
theory Execution_Control
  imports Execution_Service
begin

text \<open>
  The control-plane operations of \<open>ExecutionService\<close> (\<open>service.py\<close>): resolving UNKNOWN
  orders, cancelling, merging exchange events, refreshing, the filtered listing, and the batch forms
  that collect results and error texts into an \<open>ExecutionBatchReport\<close>.
\<close>

section \<open>One order\<close>

definition resolve_unknown :: "'w ports \<Rightarrow> string \<Rightarrow> ('w svc, execution_result) py" where
  "resolve_unknown P cid =
     py_bind (get_order cid) (\<lambda>order.
     if eo_status order \<noteq> UNKNOWN
     then result_of order False (Some ''order is not UNKNOWN'') else
     py_bind (recover_safely P order) (\<lambda>recovered. case recovered of
       None \<Rightarrow> result_of order False (Some ''UNKNOWN remains unresolved'')
     | Some snapshot \<Rightarrow>
         py_bind (py_try (apply_snapshot_locked P order snapshot)) (\<lambda>out. case out of
           Inl e \<Rightarrow> py_bind (audit_invalid_recovery P order e) (\<lambda>_.
             result_of order False (Some ''UNKNOWN recovery fact was invalid''))
         | Inr order \<Rightarrow> completed_with (oi_idempotency_key (eo_intent order))
             (result_of order False (Some ''UNKNOWN resolved'')))))"

definition invalid_cancel_ack ::
    "'w ports \<Rightarrow> execution_order \<Rightarrow> exn \<Rightarrow> ('w svc, execution_result) py" where
  "invalid_cancel_ack P order error =
     py_bind (get_order (eo_client_order_id order)) (\<lambda>latest.
     if lc_terminal (eo_lifecycle latest)
     then result_of latest False
       (Some ''invalid cancel acknowledgement ignored after terminal fact'') else
     py_bind (if eo_status latest \<noteq> UNKNOWN
       then transition_order P latest UNKNOWN (Some (''invalid_cancel_ack:'' @ exn_name error))
       else py_ret latest) (\<lambda>latest.
     py_bind (recover_safely P latest) (\<lambda>recovered. case recovered of
       None \<Rightarrow> result_of latest False
         (Some ''invalid cancel acknowledgement; recovery unresolved'')
     | Some snapshot \<Rightarrow>
         py_bind (py_try (apply_snapshot_locked P latest snapshot)) (\<lambda>out. case out of
           Inl e \<Rightarrow> py_bind (audit_invalid_recovery P latest e) (\<lambda>_.
             result_of latest False (Some ''invalid cancel acknowledgement and recovery fact''))
         | Inr latest \<Rightarrow> result_of latest False
             (Some ''invalid cancel acknowledgement; recovery queried'')))))"

text \<open>What \<open>cancel\<close> does with the adapter's reply, or with the fact recovered after a failure.\<close>

definition cancel_reply ::
    "'w ports \<Rightarrow> execution_order \<Rightarrow> reply \<Rightarrow> ('w svc, execution_result) py" where
  "cancel_reply P order reply =
     (let key = oi_idempotency_key (eo_intent order) in
      completed_with key (case reply of
        RSnapshot snapshot \<Rightarrow>
          py_bind (py_try (apply_snapshot_locked P order snapshot)) (\<lambda>out. case out of
            Inl e \<Rightarrow> invalid_cancel_ack P order e
          | Inr order \<Rightarrow>
              if eo_status order = UNKNOWN
              then py_bind (recover_safely P order) (\<lambda>recovered. case recovered of
                None \<Rightarrow> result_of order False (Some ''cancel returned UNKNOWN; recovery unresolved'')
              | Some fct \<Rightarrow>
                  py_bind (py_try (apply_snapshot_locked P order fct)) (\<lambda>out. case out of
                    Inl e \<Rightarrow> py_bind (audit_invalid_recovery P order e) (\<lambda>_.
                      result_of order False (Some ''cancel recovery fact was invalid''))
                  | Inr order \<Rightarrow> result_of order False None))
              else result_of order False None)
      | _ \<Rightarrow> invalid_cancel_ack P order
          (Exn TypeError ''cancel adapter returned an invalid snapshot'')))"

definition cancel :: "'w ports \<Rightarrow> string \<Rightarrow> ('w svc, execution_result) py" where
  "cancel P cid =
     py_bind (get_order cid) (\<lambda>order.
     if lc_terminal (eo_lifecycle order)
     then result_of order False (Some ''already terminal'') else
     py_bind (py_try (ex_cancel P cid)) (\<lambda>out. case out of
       Inr reply \<Rightarrow> cancel_reply P order reply
     | Inl e \<Rightarrow>
         if is_a e DefinitiveCancellationError then py_raise e else
         let reason = (if is_a e TimeoutError then ''cancel_timeout''
           else ''cancel_error:'' @ exn_name e) in
         py_bind (transition_order P order UNKNOWN (Some reason)) (\<lambda>order.
         py_bind (recover_safely P order) (\<lambda>recovered. case recovered of
           None \<Rightarrow> completed_with (oi_idempotency_key (eo_intent order))
             (result_of order False (Some ''cancel UNKNOWN remains unresolved''))
         | Some snapshot \<Rightarrow> cancel_reply P order (RSnapshot snapshot)))))"

definition apply_exchange_event ::
    "'w ports \<Rightarrow> order_snapshot \<Rightarrow> ('w svc, execution_result) py" where
  "apply_exchange_event P snapshot =
     py_bind (get_order (sn_client_order_id snapshot)) (\<lambda>latest.
     py_bind (apply_snapshot_locked P latest snapshot) (\<lambda>updated.
     completed_with (oi_idempotency_key (eo_intent updated))
       (result_of updated False (Some ''exchange event applied''))))"

definition query_snapshot :: "'w ports \<Rightarrow> string \<Rightarrow> ('w svc, order_snapshot option) py" where
  "query_snapshot P cid = py_bind (ex_query P cid) (\<lambda>reply. case reply of
     RSnapshot sn \<Rightarrow> py_ret (Some sn)
   | RNone \<Rightarrow> py_ret None
   | RInvalid \<Rightarrow> py_raise (Exn TypeError ''query_order returned an invalid snapshot''))"

definition inconclusive :: "order_snapshot option \<Rightarrow> bool" where
  "inconclusive s = (case s of None \<Rightarrow> True | Some sn \<Rightarrow> sn_status sn = UNKNOWN)"

definition refresh_order :: "'w ports \<Rightarrow> string \<Rightarrow> ('w svc, execution_result) py" where
  "refresh_order P cid =
     py_bind (get_order cid) (\<lambda>order.
     if lc_terminal (eo_lifecycle order)
     then result_of order False (Some ''already terminal'') else
     py_bind (py_try (query_snapshot P cid)) (\<lambda>direct.
     let direct_error = (case direct of Inl _ \<Rightarrow> True | Inr _ \<Rightarrow> False);
         queried = (case direct of Inl _ \<Rightarrow> None | Inr s \<Rightarrow> s) in
     py_bind (if inconclusive queried
       then py_bind (recover_safely P order) (\<lambda>recovered.
         py_ret (if recovered \<noteq> None then recovered else queried))
       else py_ret queried) (\<lambda>snapshot.
     if inconclusive snapshot
     then result_of order False (Some (if direct_error
       then ''direct refresh failed; fallback recovery remained unresolved''
       else ''refresh found no conclusive exchange fact'')) else
     py_bind (py_try (apply_snapshot_locked P order (the snapshot))) (\<lambda>out. case out of
       Inr order \<Rightarrow> completed_with (oi_idempotency_key (eo_intent order))
         (result_of order False (Some ''order refreshed''))
     | Inl e \<Rightarrow>
         py_bind (audit_invalid_recovery P order e) (\<lambda>_.
         py_bind (recover_safely P order) (\<lambda>recovered. case recovered of
           None \<Rightarrow> result_of order False (Some ''refresh fact was invalid and fallback unresolved'')
         | Some fct \<Rightarrow>
             py_bind (py_try (apply_snapshot_locked P order fct)) (\<lambda>out. case out of
               Inl e \<Rightarrow> py_bind (audit_invalid_recovery P order e) (\<lambda>_.
                 result_of order False (Some ''refresh and fallback facts were invalid''))
             | Inr order \<Rightarrow> completed_with (oi_idempotency_key (eo_intent order))
                 (result_of order False (Some ''order refreshed'')))))))))"

definition apply_snapshot ::
    "'w ports \<Rightarrow> execution_order \<Rightarrow> order_snapshot \<Rightarrow> ('w svc, execution_order) py" where
  "apply_snapshot P order sn = apply_snapshot_locked P order sn"

section \<open>Listing\<close>

record order_filter =
  fl_account_id :: "string option"
  fl_symbol :: "string option"
  fl_position_side :: "(position_side + string) option"
  fl_statuses :: "(order_state + string) list option"
  fl_action_group_id :: "nat option"
  fl_include_terminal :: bool
  fl_limit :: "int option"

definition all_orders :: order_filter where
  "all_orders = \<lparr>fl_account_id = None, fl_symbol = None, fl_position_side = None,
     fl_statuses = None, fl_action_group_id = None, fl_include_terminal = True, fl_limit = None\<rparr>"

text \<open>The filter after its arguments are normalised.\<close>

record order_query =
  qu_account :: "string option"
  qu_symbol :: "string option"
  qu_side :: "position_side option"
  qu_statuses :: "order_state set option"
  qu_group :: "nat option"
  qu_include_terminal :: bool
  qu_limit :: "int option"

definition opt_res :: "('a \<Rightarrow> 'b res) \<Rightarrow> 'a option \<Rightarrow> 'b option res" where
  "opt_res f v = (case v of None \<Rightarrow> Inr None | Some x \<Rightarrow> res_bind (f x) (\<lambda>y. Inr (Some y)))"

fun coerce_states :: "(order_state + string) list \<Rightarrow> order_state list res" where
  "coerce_states [] = Inr []"
| "coerce_states (x # xs) =
     res_bind (coerce_state ValueError ''statuses contains an invalid state'' x) (\<lambda>s.
     res_bind (coerce_states xs) (\<lambda>ss. Inr (s # ss)))"

definition normalize_filter :: "order_filter \<Rightarrow> order_query res" where
  "normalize_filter f =
     (if (case fl_limit f of None \<Rightarrow> False | Some n \<Rightarrow> n \<le> 0)
      then Inl (Exn ValueError ''limit must be positive'') else
     res_bind (opt_res (required_text ValueError ''account_id'' 128) (fl_account_id f)) (\<lambda>account.
     res_bind (opt_res normalize_symbol (fl_symbol f)) (\<lambda>symbol.
     res_bind (opt_res (coerce_side ''position_side is invalid'') (fl_position_side f)) (\<lambda>side.
     res_bind (opt_res coerce_states (fl_statuses f)) (\<lambda>statuses.
     Inr \<lparr>qu_account = account, qu_symbol = symbol, qu_side = side,
          qu_statuses = map_option set statuses, qu_group = fl_action_group_id f,
          qu_include_terminal = fl_include_terminal f, qu_limit = fl_limit f\<rparr>)))))"

definition selects :: "order_query \<Rightarrow> execution_order \<Rightarrow> bool" where
  "selects q order =
     (if qu_account q \<noteq> None \<and> Some (oi_account_id (eo_intent order)) \<noteq> qu_account q then False
      else if qu_symbol q \<noteq> None \<and> Some (oi_symbol (eo_intent order)) \<noteq> qu_symbol q then False
      else if qu_side q \<noteq> None \<and> Some (oi_position_side (eo_intent order)) \<noteq> qu_side q then False
      else if (case qu_statuses q of None \<Rightarrow> False | Some ss \<Rightarrow> eo_status order \<notin> ss) then False
      else if qu_group q \<noteq> None \<and> oi_action_group_id (eo_intent order) \<noteq> qu_group q then False
      else if \<not> qu_include_terminal q \<and> lc_terminal (eo_lifecycle order) then False
      else True)"

fun select_loop :: "order_query \<Rightarrow> execution_order list \<Rightarrow> execution_order list \<Rightarrow>
    execution_order list" where
  "select_loop q selected [] = selected"
| "select_loop q selected (order # rest) =
     (if \<not> selects q order then select_loop q selected rest else
      let selected' = selected @ [order] in
      if (case qu_limit q of None \<Rightarrow> False | Some n \<Rightarrow> int (length selected') \<ge> n)
      then selected' else select_loop q selected' rest)"

definition list_orders :: "order_filter \<Rightarrow> ('w svc, execution_order list) py" where
  "list_orders f = py_bind (py_of (normalize_filter f)) (\<lambda>q.
     py_get (\<lambda>s. select_loop q [] (rev (store_list (sv_store s)))))"

definition action_group_orders :: "nat \<Rightarrow> ('w svc, execution_order list) py" where
  "action_group_orders g = list_orders (all_orders\<lparr>fl_action_group_id := Some g\<rparr>)"

section \<open>Batches\<close>

text \<open>The loop of the batch operations: one call per selected order, an exception becomes an error
  text.\<close>

fun run_batch :: "(string \<Rightarrow> ('w svc, execution_result) py) \<Rightarrow> execution_result list \<Rightarrow>
    string list \<Rightarrow> execution_order list \<Rightarrow> ('w svc, execution_result list \<times> string list) py" where
  "run_batch call results errors [] = py_ret (results, errors)"
| "run_batch call results errors (order # orders) =
     py_bind (py_try (call (eo_client_order_id order))) (\<lambda>out. case out of
       Inr result \<Rightarrow> run_batch call (results @ [result]) errors orders
     | Inl e \<Rightarrow> run_batch call results
         (errors @ [eo_client_order_id order @ '':'' @ exn_text e]) orders)"

definition batch_of :: "string \<Rightarrow> (string \<Rightarrow> ('w svc, execution_result) py) \<Rightarrow>
    execution_order list \<Rightarrow> ('w svc, batch_report) py" where
  "batch_of operation call selected =
     py_bind (run_batch call [] [] selected) (\<lambda>(results, errors).
     py_of (mk_batch_report operation (int (length selected)) results errors))"

definition refresh_orders ::
    "'w ports \<Rightarrow> string option \<Rightarrow> string option \<Rightarrow> bool \<Rightarrow> int option \<Rightarrow> ('w svc, batch_report) py"
where
  "refresh_orders P account_id symbol include_unknown limit =
     py_bind (list_orders (all_orders\<lparr>fl_account_id := account_id, fl_symbol := symbol,
       fl_include_terminal := False, fl_limit := limit\<rparr>)) (\<lambda>selected.
     batch_of ''refresh'' (refresh_order P)
       (if \<not> include_unknown then filter (\<lambda>order. eo_status order \<noteq> UNKNOWN) selected
        else selected))"

definition resolve_unknowns ::
    "'w ports \<Rightarrow> string option \<Rightarrow> string option \<Rightarrow> int option \<Rightarrow> ('w svc, batch_report) py" where
  "resolve_unknowns P account_id symbol limit =
     py_bind (list_orders (all_orders\<lparr>fl_account_id := account_id, fl_symbol := symbol,
       fl_statuses := Some [Inl UNKNOWN], fl_limit := limit\<rparr>)) (\<lambda>selected.
     batch_of ''resolve_unknown'' (resolve_unknown P) selected)"

definition cancel_orders :: "'w ports \<Rightarrow> string option \<Rightarrow> string option \<Rightarrow>
    (position_side + string) option \<Rightarrow> int option \<Rightarrow> ('w svc, batch_report) py" where
  "cancel_orders P account_id symbol side limit =
     py_bind (list_orders (all_orders\<lparr>fl_account_id := account_id, fl_symbol := symbol,
       fl_position_side := side, fl_include_terminal := False, fl_limit := limit\<rparr>)) (\<lambda>selected.
     batch_of ''cancel'' (cancel P) selected)"

end
