(* ===== verification/Service_Steps.thy ===== *)
theory Service_Steps
  imports Execution_Control
begin

text \<open>
  What the two operations that change an order do to the service's state, as equations:
  \<open>_transition\<close> and \<open>_apply_snapshot_locked\<close> either leave the store alone or put the
  latest version of the order with its next lifecycle. On a well-formed order neither the validation
  of \<open>replace\<close> nor the version check of the store can fail.
\<close>

section \<open>Calls that only touch the environment\<close>

lemma at_port_eq: "at_port m s = (fst (m (sv_world s)), s\<lparr>sv_world := snd (m (sv_world s))\<rparr>)"
  by (simp add: at_port_def case_prod_beta)

lemma safe_audit_eq [simp]:
  "safe_audit P ev pl s = (Inr (), s\<lparr>sv_world := snd (p_emit P ev pl (sv_world s))\<rparr>)"
  by (simp add: safe_audit_def py_bind_def py_try_def at_port_eq)

lemma safe_metric_eq [simp]:
  "safe_metric P m s = (Inr (), s\<lparr>sv_world := snd (p_metric P m (sv_world s))\<rparr>)"
  by (simp add: safe_metric_def py_bind_def py_try_def at_port_eq)

lemma utc_now_eq [simp]:
  "utc_now P s = (Inr (fst (p_now P (sv_world s))), s\<lparr>sv_world := snd (p_now P (sv_world s))\<rparr>)"
  by (simp add: utc_now_def case_prod_beta)

lemma find_order_eq [simp]: "find_order cid s = (Inr (dict_get (sv_store s) cid), s)"
  by (simp add: find_order_def store_get_def)

lemma latest_order_eq [simp]:
  "latest_order e s = (Inr (some_or (dict_get (sv_store s) (eo_client_order_id e)) e), s)"
  by (simp add: latest_order_def store_get_def)

lemma get_order_eq:
  "get_order cid s = (case dict_get (sv_store s) cid of None \<Rightarrow> (Inl (Exn KeyError cid), s)
     | Some e \<Rightarrow> (Inr e, s))"
  by (simp add: get_order_def py_bind_def split: option.splits)

lemma at_store_eq: "at_store m s = (fst (m (sv_store s)), s\<lparr>sv_store := snd (m (sv_store s))\<rparr>)"
  by (simp add: at_store_def case_prod_beta)

lemma at_idem_eq: "at_idem m s = (fst (m (sv_idem s)), s\<lparr>sv_idem := snd (m (sv_idem s))\<rparr>)"
  by (simp add: at_idem_def case_prod_beta)

lemma py_bind_pair [simp]: "py_bind (\<lambda>s. (Inr (g s), h s)) f s = f (g s) (h s)"
  by (simp add: py_bind_def)

text \<open>Whatever the environment does, the rest of the state is as it was.\<close>

definition same_but_world :: "'w svc \<Rightarrow> 'w svc \<Rightarrow> bool" where
  "same_but_world s t \<longleftrightarrow> sv_store t = sv_store s \<and> sv_idem t = sv_idem s
     \<and> sv_kill t = sv_kill s \<and> sv_calls t = sv_calls s"

lemma same_but_world_refl [simp]: "same_but_world s s"
  by (simp add: same_but_world_def)

lemma same_but_world_upd [simp]: "same_but_world s (t\<lparr>sv_world := w\<rparr>) = same_but_world s t"
  by (simp add: same_but_world_def)

section \<open>The order after a lifecycle step\<close>

definition latest_in :: "'w svc \<Rightarrow> execution_order \<Rightarrow> execution_order" where
  "latest_in s e = some_or (dict_get (sv_store s) (eo_client_order_id e)) e"

lemma latest_in_wf:
  assumes "store_inv (sv_store s)" and "order_wf e"
  shows "order_wf (latest_in s e)" and "eo_client_order_id (latest_in s e) = eo_client_order_id e"
  using assms store_inv_get [OF assms(1)]
  by (auto simp: latest_in_def some_or_def split: option.splits)

lemma checks_of_inv:
  "lc_inv n lc \<Longrightarrow> 0 < n \<Longrightarrow> order_checks n lc = Inr ()"
  by (auto simp: order_checks_Inr lc_inv_def lc_wf_def check_state_fill_def split: if_splits)

text \<open>\<open>replace\<close> never fails after a successful step, and the next version is always newer.\<close>

lemma step_order:
  assumes "order_wf e" and "lc_step (eo_approved_quantity e) (eo_lifecycle e) lc"
    and "0 < eo_approved_quantity e"
  shows "with_lifecycle e lc = Inr (e\<lparr>eo_lifecycle := lc\<rparr>)"
    and "order_wf (e\<lparr>eo_lifecycle := lc\<rparr>)" and "order_le e (e\<lparr>eo_lifecycle := lc\<rparr>)"
proof -
  have inv: "lc_inv (eo_approved_quantity e) lc" using assms(2) by (rule lc_step_inv)
  have ch: "order_checks (eo_approved_quantity e) lc = Inr ()" using inv assms(3) by (rule checks_of_inv)
  then show "with_lifecycle e lc = Inr (e\<lparr>eo_lifecycle := lc\<rparr>)"
    using with_lifecycle_Inr [OF assms(1)] by simp
  show "order_wf (e\<lparr>eo_lifecycle := lc\<rparr>)"
    using assms(1) inv ch by (simp add: order_wf_def lc_inv_def)
  show "order_le e (e\<lparr>eo_lifecycle := lc\<rparr>)"
    using lc_step_progress [OF assms(2)] by (simp add: order_le_def)
qed

lemma step_put:
  assumes "store_inv (sv_store s)" and "lc_version (eo_lifecycle (latest_in s e)) < lc_version lc"
    and "eo_client_order_id (latest_in s e) = eo_client_order_id e"
  shows "store_put ((latest_in s e)\<lparr>eo_lifecycle := lc\<rparr>) (sv_store s)
    = (Inr (), dict_put (eo_client_order_id e) ((latest_in s e)\<lparr>eo_lifecycle := lc\<rparr>) (sv_store s))"
  using assms by (auto simp: store_put_def latest_in_def some_or_def split: option.splits)

lemma transition_is_step:
  assumes "transition now lc tgt (plain_fact n f a x r o') = Inr lc'"
  shows "lc_step n lc lc'" and "0 < n" and "lc_version lc < lc_version lc'"
proof -
  show "lc_step n lc lc'" by (rule lc_step.by_transition [OF _ assms]) (simp add: plain_fact_def)
  show "lc_version lc < lc_version lc'" using transition_progress(3) [OF assms] by simp
  show "0 < n"
    using assms by (auto simp: transition_def res_splits plain_fact_def dest!: build_fact_Inr(7))
qed

lemma late_is_step:
  assumes "reconcile_terminal_fact now lc tgt g (plain_fact n f a x r o') = Inr lc'"
  shows "lc_step n lc lc'" and "0 < n" and "lc_version lc < lc_version lc'"
proof -
  show "lc_step n lc lc'" by (rule lc_step.by_late_fact [OF _ assms]) (simp add: plain_fact_def)
  obtain t m where
    "build_fact now lc t ((plain_fact n f a x r o')\<lparr>of_ordered_quantity := DFin n,
       of_filled_quantity := m\<rparr>) True = Inr lc'"
    using assms
    by (auto simp: reconcile_terminal_fact_def res_splits finite_decimal_Inr plain_fact_def
        split: if_splits)
  from build_fact_Inr(3,7) [OF this] show "0 < n" "lc_version lc < lc_version lc'" by auto
qed

lemma transition_order_eq:
  assumes "store_inv (sv_store s)" and "order_wf e"
  shows "transition_order P e tgt reason s =
    (let latest = latest_in s e; now = fst (p_now P (sv_world s));
         w = snd (p_now P (sv_world s)) in
     case transition now (eo_lifecycle latest) (Inl tgt)
         (plain_fact (eo_approved_quantity latest) None None None reason None) of
       Inl x \<Rightarrow> (Inl x, s\<lparr>sv_world := w\<rparr>)
     | Inr lc \<Rightarrow> (Inr (latest\<lparr>eo_lifecycle := lc\<rparr>),
         s\<lparr>sv_store := dict_put (eo_client_order_id e) (latest\<lparr>eo_lifecycle := lc\<rparr>) (sv_store s),
           sv_world := snd (p_metric P (MOrder (state_value (eo_status latest)) (state_value tgt)) w)\<rparr>))"
proof -
  note lw = latest_in_wf [OF assms]
  show ?thesis
  proof (cases "transition (fst (p_now P (sv_world s))) (eo_lifecycle (latest_in s e)) (Inl tgt)
      (plain_fact (eo_approved_quantity (latest_in s e)) None None None reason None)")
    case (Inl x)
    then show ?thesis
      by (simp add: transition_order_def py_bind_def latest_in_def Let_def)
  next
    case (Inr lc)
    note st = transition_is_step [OF Inr]
    note so = step_order [OF lw(1) st(1,2)]
    note sp = step_put [OF assms(1) st(3) lw(2)]
    show ?thesis
      using Inr so(1) sp
      by (simp add: transition_order_def py_bind_def latest_in_def [symmetric] Let_def at_store_eq)
  qed
qed


section \<open>Merging a fact\<close>

text \<open>What a snapshot makes of an order, without the effects: it is refused, it changes nothing, or
  it is the next lifecycle. \<open>apply_snapshot_locked\<close> refines this function.\<close>

definition merge_fact :: "execution_order \<Rightarrow> order_snapshot \<Rightarrow> order_lifecycle option res" where
  "merge_fact latest sn =
     (let current = eo_lifecycle latest; filled = sn_filled_quantity sn;
          status = effective_status latest sn;
          stale = sn_observed_at sn < lc_updated_at current in
      if sn_client_order_id sn \<noteq> eo_client_order_id latest
      then Inl (Exn ValueError ''snapshot client_order_id mismatch'')
      else if filled > eo_approved_quantity latest
      then Inl (Exn ValueError ''snapshot fill exceeds approved quantity'')
      else if same_fact current status sn then Inr None
      else if stale \<and> lc_status current \<noteq> UNKNOWN \<and> status \<noteq> FILLED
        \<and> filled \<le> lc_filled_quantity current then Inr None
      else case next_lifecycle latest status sn
          (if stale then lc_updated_at current else sn_observed_at sn) of
        Inl e \<Rightarrow> if is_a e InvalidOrderTransition \<and> stale \<and> filled \<le> lc_filled_quantity current
          then Inr None else Inl e
      | Inr lc \<Rightarrow> Inr (Some lc))"

lemma next_lifecycle_step:
  assumes "next_lifecycle e status sn t = Inr lc"
  shows "lc_step (eo_approved_quantity e) (eo_lifecycle e) lc" and "0 < eo_approved_quantity e"
    and "lc_version (eo_lifecycle e) < lc_version lc"
proof -
  have "lc_step (eo_approved_quantity e) (eo_lifecycle e) lc \<and> 0 < eo_approved_quantity e
      \<and> lc_version (eo_lifecycle e) < lc_version lc"
  proof (cases "lc_terminal (eo_lifecycle e)")
    case True
    with assms show ?thesis
      by (auto simp: next_lifecycle_def Let_def dest: late_is_step)
  next
    case False
    with assms show ?thesis
      by (auto simp: next_lifecycle_def Let_def dest: transition_is_step)
  qed
  then show "lc_step (eo_approved_quantity e) (eo_lifecycle e) lc" "0 < eo_approved_quantity e"
    "lc_version (eo_lifecycle e) < lc_version lc" by auto
qed

lemma merge_fact_Some:
  assumes "merge_fact e sn = Inr (Some lc)"
  shows "\<exists>t. next_lifecycle e (effective_status e sn) sn t = Inr lc"
    and "lc_step (eo_approved_quantity e) (eo_lifecycle e) lc" and "0 < eo_approved_quantity e"
    and "lc_version (eo_lifecycle e) < lc_version lc"
proof -
  obtain t where t: "next_lifecycle e (effective_status e sn) sn t = Inr lc"
    using assms unfolding merge_fact_def Let_def by (auto split: if_splits sum.splits)
  then show "\<exists>t. next_lifecycle e (effective_status e sn) sn t = Inr lc" by blast
  show "lc_step (eo_approved_quantity e) (eo_lifecycle e) lc" "0 < eo_approved_quantity e"
    "lc_version (eo_lifecycle e) < lc_version lc"
    using next_lifecycle_step [OF t] by auto
qed

lemma apply_snapshot_refines:
  assumes "store_inv (sv_store s)" and "order_wf e"
    and "apply_snapshot_locked P e sn s = (r, t)"
  shows "case merge_fact (latest_in s e) sn of
      Inl x \<Rightarrow> r = Inl x \<and> same_but_world s t
    | Inr None \<Rightarrow> r = Inr (latest_in s e) \<and> same_but_world s t
    | Inr (Some lc) \<Rightarrow> r = Inr ((latest_in s e)\<lparr>eo_lifecycle := lc\<rparr>)
        \<and> same_but_world (s\<lparr>sv_store := dict_put (eo_client_order_id e)
            ((latest_in s e)\<lparr>eo_lifecycle := lc\<rparr>) (sv_store s)\<rparr>) t"
proof -
  define l where "l = latest_in s e"
  note lw = latest_in_wf [OF assms(1,2), folded l_def]
  note eqs = apply_snapshot_locked_def latest_order_eq py_bind_eq latest_in_def [symmetric]
    l_def [symmetric] Let_def
  have ap: "apply_snapshot_locked P e sn s = (r, t)" by (rule assms(3))
  show ?thesis
  proof (cases "merge_fact l sn")
    case (Inl x)
    then show ?thesis
      using ap unfolding l_def [symmetric] merge_fact_def
      by (auto simp: eqs lw(2) split: if_splits sum.splits)
  next
    case (Inr res)
    show ?thesis
    proof (cases res)
      case None
      then show ?thesis
        using ap Inr unfolding l_def [symmetric] merge_fact_def
        by (auto simp: eqs lw(2) split: if_splits sum.splits)
    next
      case (Some lc)
      note st = merge_fact_Some(2-4) [OF Inr [unfolded Some]]
      note so = step_order [OF lw(1) st(1,2)]
      note sp = step_put [OF assms(1), of e lc, folded l_def, OF st(3) lw(2)]
      show ?thesis
        using ap Inr unfolding Some l_def [symmetric] merge_fact_def
        by (auto simp: eqs lw(2) so(1) sp at_store_eq split: if_splits sum.splits)
    qed
  qed
qed

end
