(* ===== verification/Service_Safety.thy ===== *)
theory Service_Safety
  imports Service_Steps
begin

text \<open>
  The safety of the execution service. \<open>quiet\<close> relates two states between which no order was
  submitted and the stored orders only moved forward; \<open>svc_ok\<close> is the invariant of the service:
  the store is well formed, no client order id was submitted twice, and everything submitted is in
  the store. Every operation but the sending part of a submission is a \<open>quiet\<close> step.
\<close>

section \<open>Relations\<close>

fun submits :: "exchange_call list \<Rightarrow> approved_intent list" where
  "submits [] = []"
| "submits (CSubmit a # cs) = a # submits cs"
| "submits (CQuery c # cs) = submits cs"
| "submits (CCancel c # cs) = submits cs"

lemma submits_append [simp]: "submits (xs @ ys) = submits xs @ submits ys"
  by (induction xs rule: submits.induct) auto

definition svc_ok :: "'w svc \<Rightarrow> bool" where
  "svc_ok s \<longleftrightarrow> store_inv (sv_store s)
     \<and> distinct (map ap_client_order_id (submits (sv_calls s)))
     \<and> (\<forall>a \<in> set (submits (sv_calls s)). dict_get (sv_store s) (ap_client_order_id a) \<noteq> None)"

definition quiet :: "'w svc \<Rightarrow> 'w svc \<Rightarrow> bool" where
  "quiet s t \<longleftrightarrow> submits (sv_calls t) = submits (sv_calls s) \<and> sv_kill t = sv_kill s
     \<and> store_le (sv_store s) (sv_store t)"

interpretation qt: state_preorder quiet
  by unfold_locales (auto simp: quiet_def intro: store_le_trans)

text \<open>Following one order: it is in the store, at least as far as \<open>e0\<close>.\<close>

definition tracked :: "execution_order \<Rightarrow> 'w svc \<Rightarrow> bool" where
  "tracked e0 s \<longleftrightarrow> svc_ok s
     \<and> (\<exists>e. dict_get (sv_store s) (eo_client_order_id e0) = Some e \<and> order_le e0 e)"

definition later :: "execution_order \<Rightarrow> execution_order \<Rightarrow> bool" where
  "later e0 e \<longleftrightarrow> order_le e0 e \<and> order_wf e"

definition message_ok :: "execution_result \<Rightarrow> bool" where
  "message_ok r \<longleftrightarrow> (\<forall>m. er_message r = Some m \<longrightarrow> clean 2048 m)"

definition later_result :: "execution_order \<Rightarrow> execution_result \<Rightarrow> bool" where
  "later_result e0 r \<longleftrightarrow> later e0 (er_order r) \<and> message_ok r"

lemma tracked_ok: "tracked e0 s \<Longrightarrow> svc_ok s"
  by (simp add: tracked_def)

lemma svc_ok_store: "svc_ok s \<Longrightarrow> store_inv (sv_store s)"
  by (simp add: svc_ok_def)

lemma svc_ok_quiet:
  "svc_ok s \<Longrightarrow> store_inv (sv_store t) \<Longrightarrow> quiet s t \<Longrightarrow> svc_ok t"
  by (auto simp: svc_ok_def quiet_def dest: store_le_dom)

lemma tracked_quiet:
  assumes "tracked e0 s" and "store_inv (sv_store t)" and "quiet s t"
  shows "tracked e0 t"
proof -
  obtain e where "dict_get (sv_store s) (eo_client_order_id e0) = Some e" "order_le e0 e"
    using assms(1) by (auto simp: tracked_def)
  moreover from this obtain e' where
    "dict_get (sv_store t) (eo_client_order_id e0) = Some e'" "order_le e e'"
    using assms(3) by (auto simp: quiet_def store_le_def)
  ultimately show ?thesis
    using svc_ok_quiet [OF tracked_ok [OF assms(1)] assms(2,3)] order_le_trans
    by (auto simp: tracked_def)
qed

lemma tracked_start:
  "svc_ok s \<Longrightarrow> dict_get (sv_store s) cid = Some e \<Longrightarrow> tracked e s \<and> later e e"
  using store_inv_get [OF svc_ok_store] by (fastforce simp: tracked_def later_def)

lemma later_id: "later e0 e \<Longrightarrow> eo_client_order_id e = eo_client_order_id e0"
  by (simp add: later_def order_le_def)

lemma later_intent: "later e0 e \<Longrightarrow> eo_intent e = eo_intent e0"
  by (simp add: later_def order_le_def)

lemma same_but_world_quiet:
  "same_but_world s t \<Longrightarrow> quiet s t \<and> sv_store t = sv_store s"
  by (simp add: same_but_world_def quiet_def)

section \<open>The steps that do not submit\<close>

lemma steps_world:
  assumes "\<And>s r t. m s = (r, t) \<Longrightarrow> same_but_world s t"
  shows "steps (tracked e0) quiet m (\<lambda>_. True)" and "steps svc_ok quiet m (\<lambda>_. True)"
proof -
  have "quiet s t \<and> sv_store t = sv_store s" if "m s = (r, t)" for s r t
    using assms [OF that] by (rule same_but_world_quiet)
  then show "steps (tracked e0) quiet m (\<lambda>_. True)" "steps svc_ok quiet m (\<lambda>_. True)"
    by (intro stepsI; metis tracked_quiet svc_ok_quiet tracked_ok svc_ok_store)+
qed

lemma quiet_upd:
  "quiet s (s\<lparr>sv_world := w\<rparr>)" "quiet s (s\<lparr>sv_idem := i\<rparr>)"
  "submits cs = submits (sv_calls s) \<Longrightarrow> quiet s (s\<lparr>sv_calls := cs, sv_world := w\<rparr>)"
  by (simp_all add: quiet_def)

lemma svc_ok_upd:
  "svc_ok s \<Longrightarrow> svc_ok (s\<lparr>sv_world := w\<rparr>)" "svc_ok s \<Longrightarrow> svc_ok (s\<lparr>sv_idem := i\<rparr>)"
  "svc_ok s \<Longrightarrow> submits cs = submits (sv_calls s) \<Longrightarrow>
    svc_ok (s\<lparr>sv_calls := cs, sv_world := w\<rparr>)"
  by (simp_all add: svc_ok_def)

lemma tracked_upd:
  "tracked e s \<Longrightarrow> tracked e (s\<lparr>sv_world := w\<rparr>)" "tracked e s \<Longrightarrow> tracked e (s\<lparr>sv_idem := i\<rparr>)"
  "tracked e s \<Longrightarrow> submits cs = submits (sv_calls s) \<Longrightarrow>
    tracked e (s\<lparr>sv_calls := cs, sv_world := w\<rparr>)"
  by (simp_all add: tracked_def svc_ok_def)

lemma q_audit: "steps (tracked e0) quiet (safe_audit P ev pl) (\<lambda>_. True)"
  by (auto intro!: stepsI tracked_upd quiet_upd)

lemma q_metric: "steps (tracked e0) quiet (safe_metric P m) (\<lambda>_. True)"
  by (auto intro!: stepsI tracked_upd quiet_upd)

lemma q_port: "steps (tracked e0) quiet (at_port m) (\<lambda>_. True)"
  by (auto intro!: stepsI tracked_upd quiet_upd simp: at_port_eq)

lemma q_idem: "steps (tracked e0) quiet (at_idem m) (\<lambda>_. True)"
  by (auto intro!: stepsI tracked_upd quiet_upd simp: at_idem_eq)

lemma q_logged: "submits [c] = [] \<Longrightarrow> steps (tracked e0) quiet (logged c m) (\<lambda>_. True)"
  by (auto intro!: stepsI simp: logged_def py_then_def at_port_eq tracked_def svc_ok_def quiet_def)

lemma q_query: "steps (tracked e0) quiet (ex_query P c) (\<lambda>_. True)"
  unfolding ex_query_def by (rule q_logged) simp

lemma q_cancel: "steps (tracked e0) quiet (ex_cancel P c) (\<lambda>_. True)"
  unfolding ex_cancel_def by (rule q_logged) simp

lemma q_invalid_recovery: "steps (tracked e0) quiet (audit_invalid_recovery P e x) (\<lambda>_. True)"
  unfolding audit_invalid_recovery_def by (rule q_audit)

lemma q_result: "later e0 e \<Longrightarrow> steps (tracked e0) quiet (result_of e b m) (later_result e0)"
  unfolding result_of_def
  by (rule qt.st_of) (auto simp: mk_execution_result_def res_splits later_result_def message_ok_def
      dest: optional_text_clean)

lemma q_get: "eo_client_order_id e0 = cid \<Longrightarrow> steps (tracked e0) quiet (get_order cid) (later e0)"
proof (rule stepsI)
  fix s :: "'w svc" and r t
  assume c: "eo_client_order_id e0 = cid" and I: "tracked e0 s" and g: "get_order cid s = (r, t)"
  obtain e where e: "dict_get (sv_store s) cid = Some e" "order_le e0 e"
    using I c by (auto simp: tracked_def)
  have "order_wf e" using tracked_start [OF tracked_ok [OF I] e(1)] by (simp add: later_def)
  then show "tracked e0 t \<and> quiet s t \<and> (\<forall>x. r = Inr x \<longrightarrow> later e0 x)"
    using g e I by (auto simp: get_order_eq later_def qt.refl_R)
qed

lemma put_quiet:
  assumes "svc_ok s" and "order_wf e" and "order_le (latest_in s x) e"
    and "eo_client_order_id (latest_in s x) = eo_client_order_id x"
  shows "quiet s (s\<lparr>sv_store := dict_put (eo_client_order_id x) e (sv_store s), sv_world := w\<rparr>)"
    and "store_inv (dict_put (eo_client_order_id x) e (sv_store s))"
proof -
  have id: "eo_client_order_id e = eo_client_order_id x" using assms(3,4) by (simp add: order_le_def)
  have "store_le (sv_store s) (dict_put (eo_client_order_id x) e (sv_store s))"
    using assms(3) by (auto simp: store_le_def dict_get_put latest_in_def some_or_def)
  then show "quiet s (s\<lparr>sv_store := dict_put (eo_client_order_id x) e (sv_store s), sv_world := w\<rparr>)"
    by (simp add: quiet_def)
  show "store_inv (dict_put (eo_client_order_id x) e (sv_store s))"
    using store_inv_put [OF svc_ok_store [OF assms(1)] assms(2)] id by simp
qed

text \<open>The outcome of the two operations that put an order, for any well-formed order.\<close>

lemma transition_order_quiet:
  assumes "svc_ok s" and "order_wf e" and "transition_order P e tgt rs s = (r, t)"
  shows "quiet s t" and "store_inv (sv_store t)"
    and "r = Inr x \<Longrightarrow> order_wf x \<and> order_le (latest_in s e) x \<and> eo_status x = tgt
      \<and> dict_get (sv_store t) (eo_client_order_id e) = Some x"
proof -
  note si = svc_ok_store [OF assms(1)]
  note lw = latest_in_wf [OF si assms(2)]
  let ?tr = "transition (fst (p_now P (sv_world s))) (eo_lifecycle (latest_in s e)) (Inl tgt)
      (plain_fact (eo_approved_quantity (latest_in s e)) None None None rs None)"
  have "quiet s t \<and> store_inv (sv_store t) \<and> (r = Inr x \<longrightarrow> order_wf x \<and> order_le (latest_in s e) x
      \<and> eo_status x = tgt \<and> dict_get (sv_store t) (eo_client_order_id e) = Some x)"
  proof (cases ?tr)
    case (Inl y)
    then show ?thesis
      using assms(3) si by (auto simp: transition_order_eq [OF si assms(2)] Let_def quiet_upd)
  next
    case (Inr lc)
    note st = transition_is_step [OF Inr]
    note so = step_order [OF lw(1) st(1,2)]
    note pq = put_quiet [OF assms(1) so(2,3) lw(2)]
    have "lc_status lc = tgt"
      using Inr by (auto simp: transition_def res_splits dest: build_fact_Inr(2))
    then show ?thesis
      using assms(3) Inr pq so
      by (auto simp: transition_order_eq [OF si assms(2)] Let_def eo_status_def dict_get_put)
  qed
  then show "quiet s t" "store_inv (sv_store t)"
    "r = Inr x \<Longrightarrow> order_wf x \<and> order_le (latest_in s e) x \<and> eo_status x = tgt
      \<and> dict_get (sv_store t) (eo_client_order_id e) = Some x" by auto
qed

lemma apply_snapshot_quiet:
  assumes "svc_ok s" and "order_wf e" and "apply_snapshot_locked P e sn s = (r, t)"
  shows "quiet s t" and "store_inv (sv_store t)"
    and "r = Inr x \<Longrightarrow> order_wf x \<and> order_le (latest_in s e) x"
proof -
  note si = svc_ok_store [OF assms(1)]
  note lw = latest_in_wf [OF si assms(2)]
  note rf = apply_snapshot_refines [OF si assms(2,3)]
  have "quiet s t \<and> store_inv (sv_store t) \<and> (r = Inr x \<longrightarrow> order_wf x \<and> order_le (latest_in s e) x)"
  proof (cases "merge_fact (latest_in s e) sn")
    case (Inl y)
    then show ?thesis using rf si by (auto dest: same_but_world_quiet)
  next
    case (Inr res)
    show ?thesis
    proof (cases res)
      case None
      then show ?thesis using Inr rf si lw by (auto dest: same_but_world_quiet)
    next
      case (Some lc)
      note st = merge_fact_Some(2-3) [OF Inr [unfolded Some]]
      note so = step_order [OF lw(1) st]
      note pq = put_quiet [OF assms(1) so(2,3) lw(2)]
      have t: "r = Inr ((latest_in s e)\<lparr>eo_lifecycle := lc\<rparr>)" "same_but_world (s\<lparr>sv_store :=
          dict_put (eo_client_order_id e) ((latest_in s e)\<lparr>eo_lifecycle := lc\<rparr>) (sv_store s)\<rparr>) t"
        using rf Inr Some by auto
      have "quiet s t"
        using t(2) pq(1) unfolding quiet_def same_but_world_def by simp
      then show ?thesis using t pq(2) so by (auto simp: same_but_world_def)
    qed
  qed
  then show "quiet s t" "store_inv (sv_store t)"
    "r = Inr x \<Longrightarrow> order_wf x \<and> order_le (latest_in s e) x" by auto
qed

lemma tracked_latest:
  assumes "tracked e0 s" and "later e0 e"
  shows "order_le e0 (latest_in s e)"
  using assms later_id [OF assms(2)] by (auto simp: tracked_def latest_in_def some_or_def)

lemma q_transition:
  assumes "later e0 e"
  shows "steps (tracked e0) quiet (transition_order P e tgt rs) (later e0)"
proof (rule stepsI)
  fix s r t
  assume I: "tracked e0 s" and m: "transition_order P e tgt rs s = (r, t)"
  have wf: "order_wf e" using assms by (simp add: later_def)
  note q = transition_order_quiet [OF tracked_ok [OF I] wf m]
  show "tracked e0 t \<and> quiet s t \<and> (\<forall>x. r = Inr x \<longrightarrow> later e0 x)"
    using q tracked_quiet [OF I q(2,1)] tracked_latest [OF I assms]
    by (auto simp: later_def intro: order_le_trans)
qed

lemma q_apply:
  assumes "later e0 e"
  shows "steps (tracked e0) quiet (apply_snapshot_locked P e sn) (later e0)"
proof (rule stepsI)
  fix s r t
  assume I: "tracked e0 s" and m: "apply_snapshot_locked P e sn s = (r, t)"
  have wf: "order_wf e" using assms by (simp add: later_def)
  note q = apply_snapshot_quiet [OF tracked_ok [OF I] wf m]
  show "tracked e0 t \<and> quiet s t \<and> (\<forall>x. r = Inr x \<longrightarrow> later e0 x)"
    using q tracked_quiet [OF I q(2,1)] tracked_latest [OF I assms]
    by (auto simp: later_def intro: order_le_trans)
qed


section \<open>The operations\<close>

lemma recover_world: "recover_safely P e s = (r, t) \<Longrightarrow> same_but_world s t \<and> (\<exists>x. r = Inr x)"
  unfolding recover_safely_def py_bind_def py_try_def at_port_eq
  by (auto split: sum.splits reply.splits if_splits prod.splits)

lemma q_recover: "steps (tracked e0) quiet (recover_safely P e) (\<lambda>_. True)"
  by (rule steps_world(1)) (simp add: recover_world)

text \<open>What a step returns is determined by its type: an order or a result no older than the tracked
  one, or something about which nothing is said.\<close>

definition anything :: "'a \<Rightarrow> bool" where
  "anything x \<longleftrightarrow> True"

definition later_if_ok :: "execution_order \<Rightarrow> execution_order res \<Rightarrow> bool" where
  "later_if_ok e0 r \<longleftrightarrow> (\<forall>x. r = Inr x \<longrightarrow> later e0 x)"

lemma later_if_okD [simp]: "later_if_ok e0 (Inr x) = later e0 x" "later_if_ok e0 (Inl y)"
  by (simp_all add: later_if_ok_def)

lemma q_try: "steps I quiet m (later e0) \<Longrightarrow> steps I quiet (py_try m) (later_if_ok e0)"
  unfolding later_if_ok_def [abs_def] by (rule qt.st_try)

lemma q_try_any: "steps I quiet m anything \<Longrightarrow> steps I quiet (py_try m) anything"
  by (rule steps_weaken [OF qt.st_try]) (simp_all add: anything_def)

lemma anything_eq: "anything = (\<lambda>_. True)"
  by (simp add: fun_eq_iff anything_def)

lemmas q_any = q_audit [folded anything_eq] q_metric [folded anything_eq]
  q_port [folded anything_eq] q_idem [folded anything_eq] q_query [folded anything_eq]
  q_cancel [folded anything_eq] q_invalid_recovery [folded anything_eq]
  q_recover [folded anything_eq]

lemma q_ret_any: "steps I quiet (py_ret x) anything"
  by (rule qt.st_ret) (simp add: anything_def)

lemmas q_bind_order = qt.st_bind [where I = "tracked e0" and Q = "later e0" for e0]
lemmas q_bind_result = qt.st_bind [where I = "tracked e0" and Q = "later_result e0" for e0]
lemmas q_bind_try = qt.st_bind [where I = "tracked e0" and Q = "later_if_ok e0" for e0]
lemmas q_bind_unit = qt.st_bind [where Q = "anything :: unit \<Rightarrow> bool"]
lemmas q_bind_snap = qt.st_bind [where Q = "anything :: order_snapshot option \<Rightarrow> bool"]
lemmas q_bind_reply = qt.st_bind [where Q = "anything :: reply \<Rightarrow> bool"]
lemmas q_bind_try_reply = qt.st_bind [where Q = "anything :: reply res \<Rightarrow> bool"]
lemmas q_bind_try_snap = qt.st_bind [where Q = "anything :: order_snapshot option res \<Rightarrow> bool"]

lemmas q_rules = q_any q_result q_get q_transition q_apply q_ret_any q_try q_try_any
  q_bind_order q_bind_result q_bind_try q_bind_unit q_bind_snap q_bind_reply q_bind_try_reply
  q_bind_try_snap qt.st_if qt.st_option qt.st_sum qt.st_catch qt.st_ret qt.st_raise

lemma q_merge:
  assumes "later e0 e"
  shows "steps (tracked e0) quiet (merge_recovered P e v) (later e0)"
  unfolding merge_recovered_def by (intro q_rules assms)

lemma q_completed:
  assumes "steps (tracked e0) quiet m (later_result e0)"
  shows "steps (tracked e0) quiet (completed_with k m) (later_result e0)"
  unfolding completed_with_def by (intro q_rules assms)

lemma q_existing:
  assumes "later e0 e"
  shows "steps (tracked e0) quiet (recover_existing_execution P e i) (later_result e0)"
  unfolding recover_existing_execution_def by (intro q_rules q_merge) (use assms in auto)

lemma q_unknown:
  assumes "later e0 e"
  shows "steps (tracked e0) quiet (submission_unknown P e x) (later_result e0)"
  unfolding submission_unknown_def Let_def by (intro q_rules q_merge) (use assms in auto)

lemma q_invalid_ack:
  assumes "later e0 e"
  shows "steps (tracked e0) quiet (invalid_submission_ack P e x) (later_result e0)"
  unfolding invalid_submission_ack_def
  by (intro q_rules q_merge) (use assms later_id [OF assms] in auto)

lemma q_ack:
  assumes "later e0 e"
  shows "steps (tracked e0) quiet (apply_acknowledgement P e rp) (later_result e0)"
proof (cases rp)
  case (RSnapshot sn)
  show ?thesis
    unfolding apply_acknowledgement_def RSnapshot reply.case
    by (intro q_rules q_merge q_invalid_ack) (use assms in auto)
qed (simp_all add: apply_acknowledgement_def q_invalid_ack assms)

lemma q_invalid_cancel:
  assumes "later e0 e"
  shows "steps (tracked e0) quiet (invalid_cancel_ack P e x) (later_result e0)"
  unfolding invalid_cancel_ack_def
  by (intro q_rules) (use assms later_id [OF assms] in auto)

lemma q_cancel_reply:
  assumes "later e0 e"
  shows "steps (tracked e0) quiet (cancel_reply P e rp) (later_result e0)"
proof (cases rp)
  case (RSnapshot sn)
  show ?thesis
    unfolding cancel_reply_def RSnapshot reply.case Let_def
    by (intro q_completed q_rules q_invalid_cancel) (use assms in auto)
qed (simp_all add: cancel_reply_def q_invalid_cancel q_completed assms Let_def)

text \<open>The operations that start by looking an order up.\<close>

lemma from_get:
  assumes "svc_ok s" and "py_bind (get_order cid) f s = (r, t)"
    and "\<And>e. eo_client_order_id e = cid \<Longrightarrow> later e e \<Longrightarrow> steps (tracked e) quiet (f e) (later_result e)"
  shows "svc_ok t \<and> quiet s t \<and> (\<forall>x. r = Inr x \<longrightarrow> eo_client_order_id (er_order x) = cid
    \<and> order_wf (er_order x))"
proof (cases "dict_get (sv_store s) cid")
  case None
  with assms(1,2) show ?thesis by (auto simp: py_bind_def get_order_eq qt.refl_R)
next
  case (Some e)
  have f: "f e s = (r, t)" using assms(2) Some by (simp add: py_bind_def get_order_eq)
  have cid: "eo_client_order_id e = cid" using store_inv_get [OF svc_ok_store [OF assms(1)] Some] by simp
  note tr = tracked_start [OF assms(1) Some]
  have "tracked e t \<and> quiet s t \<and> (\<forall>x. r = Inr x \<longrightarrow> later_result e x)"
    using stepsD [OF assms(3) [OF cid] _ f] tr by blast
  then show ?thesis using cid by (auto dest: tracked_ok simp: later_result_def later_def order_le_def)
qed

definition quiet_op :: "string \<Rightarrow> ('w svc, execution_result) py \<Rightarrow> bool" where
  "quiet_op cid m \<longleftrightarrow> (\<forall>s r t. svc_ok s \<longrightarrow> m s = (r, t) \<longrightarrow> svc_ok t \<and> quiet s t
     \<and> (\<forall>x. r = Inr x \<longrightarrow> eo_client_order_id (er_order x) = cid \<and> order_wf (er_order x)))"

lemma resolve_quiet: "quiet_op cid (resolve_unknown P cid)"
  unfolding quiet_op_def resolve_unknown_def
  by (intro allI impI, erule (1) from_get, intro q_rules q_completed) auto

lemma cancel_quiet: "quiet_op cid (cancel P cid)"
  unfolding quiet_op_def cancel_def Let_def
  by (intro allI impI, erule (1) from_get, intro q_rules q_completed q_cancel_reply) auto

lemma event_quiet: "quiet_op (sn_client_order_id sn) (apply_exchange_event P sn)"
  unfolding quiet_op_def apply_exchange_event_def
  by (intro allI impI, erule (1) from_get, intro q_rules q_completed) auto

lemma query_world: "steps (tracked e) quiet (query_snapshot P cid) anything"
  unfolding query_snapshot_def
  by (rule q_bind_reply) (auto split: reply.split intro: q_any q_ret_any qt.st_raise)

lemma refresh_quiet: "quiet_op cid (refresh_order P cid)"
  unfolding quiet_op_def refresh_order_def Let_def
  by (intro allI impI, erule (1) from_get, intro q_rules q_completed query_world) auto

end
