(* ===== verification/Service_Submit.thy ===== *)
theory Service_Submit
  imports Service_Safety
begin

text \<open>
  Submission, the only operation that may create an exposure. The lemma \<open>submit_outcome\<close> says
  what a call of \<open>submit\<close> can do: it either sends nothing, or it sends one order, after every
  gate has let it pass and with the order stored as SUBMITTING before the call. Reachable states are
  those of \<open>svc_run\<close>: any sequence of operations, of changes of the environment, of kill switch
  changes and of losses of the idempotency store.
\<close>

section \<open>A new order\<close>

lemma put_fresh:
  assumes "svc_ok s" and "dict_get (sv_store s) (eo_client_order_id e) = None" and "order_wf e"
  shows "at_store (store_put e) s
      = (Inr (), s\<lparr>sv_store := dict_put (eo_client_order_id e) e (sv_store s)\<rparr>)"
    and "tracked e (s\<lparr>sv_store := dict_put (eo_client_order_id e) e (sv_store s)\<rparr>)"
    and "quiet s (s\<lparr>sv_store := dict_put (eo_client_order_id e) e (sv_store s)\<rparr>)"
    and "later e e"
proof -
  show "at_store (store_put e) s
      = (Inr (), s\<lparr>sv_store := dict_put (eo_client_order_id e) e (sv_store s)\<rparr>)"
    using assms(2) by (simp add: at_store_eq store_put_def)
  show q: "quiet s (s\<lparr>sv_store := dict_put (eo_client_order_id e) e (sv_store s)\<rparr>)"
    using assms(2) by (auto simp: quiet_def store_le_def dict_get_put)
  have "svc_ok (s\<lparr>sv_store := dict_put (eo_client_order_id e) e (sv_store s)\<rparr>)"
    using svc_ok_quiet [OF assms(1) _ q] store_inv_put [OF svc_ok_store [OF assms(1)] assms(3)]
    by simp
  then show "tracked e (s\<lparr>sv_store := dict_put (eo_client_order_id e) e (sv_store s)\<rparr>)"
    by (simp add: tracked_def dict_get_put)
  show "later e e" using assms(3) by (simp add: later_def)
qed

lemma client_id_valid: "intent_client_id P i = Inr cid \<Longrightarrow> valid_id cid"
  unfolding intent_client_id_def by (rule build_valid)

lemma rejected_quiet:
  assumes "svc_ok s" and "dict_get (sv_store s) cid = None" and "intent_client_id P i = Inr cid"
    and "intent_ok i" and "rejected_before_submit P i ap s = (r, t)"
  shows "svc_ok t \<and> quiet s t
    \<and> (\<forall>x. r = Inr x \<longrightarrow> eo_intent (er_order x) = i \<and> message_ok x)"
proof -
  define now where "now = fst (p_now P (sv_world s))"
  define s1 where "s1 = s\<lparr>sv_world := snd (p_now P (sv_world s))\<rparr>"
  have ok1: "svc_ok s1" "quiet s s1" "dict_get (sv_store s1) cid = None"
    using assms(1,2) by (auto simp: s1_def svc_ok_upd quiet_upd)
  define codes where "codes = joined '','' (ra_reason_codes ap)"
  define tr where "tr = transition now (new_lifecycle now) (Inl REJECTED)
    (plain_fact (oi_quantity i) None None None
       (Some (if codes = [] then ''risk_rejected'' else codes)) (Some now))"
  have run: "rejected_before_submit P i ap s = py_bind (py_of tr) (\<lambda>lifecycle.
     py_bind (py_of (mk_execution_order i cid (DFin 0) lifecycle (Aware now))) (\<lambda>order.
     py_bind (at_store (store_put order)) (\<lambda>_.
     py_bind (safe_metric P (MIntent ''risk_rejected'')) (\<lambda>_.
     py_bind (safe_audit P ''ORDER_INTENT_REJECTED'' (audit_payload order)) (\<lambda>_.
     result_of order False (Some ''risk rejected'')))))) s1"
    unfolding rejected_before_submit_def
    by (simp add: py_bind_def assms(3) now_def s1_def tr_def codes_def Let_def)
  show ?thesis
  proof (cases tr)
    case (Inl x)
    then show ?thesis using assms(5) run ok1 by auto
  next
    case (Inr lc)
    have wf: "lc_wf lc" using transition_progress(2) [OF Inr [unfolded tr_def]] .
    show ?thesis
    proof (cases "mk_execution_order i cid (DFin 0) lc (Aware now)")
      case (Inl x)
      then show ?thesis using assms(5) run Inr ok1 by auto
    next
      case mk: (Inr e)
      have e: "order_wf e" "eo_client_order_id e = cid" "eo_intent e = i"
        using mk_execution_order_wf [OF mk assms(4) wf] mk by (auto simp: mk_execution_order_Inr)
      define s2 where "s2 = s1\<lparr>sv_store := dict_put (eo_client_order_id e) e (sv_store s1)\<rparr>"
      note pf = put_fresh [OF ok1(1) _ e(1), folded s2_def]
      have "rejected_before_submit P i ap s =
          py_bind (safe_metric P (MIntent ''risk_rejected'')) (\<lambda>_.
          py_bind (safe_audit P ''ORDER_INTENT_REJECTED'' (audit_payload e)) (\<lambda>_.
          result_of e False (Some ''risk rejected''))) s2"
        unfolding run Inr mk py_bind_of_Inr using pf(1) ok1(3) e(2) by (simp add: py_bind_def)
      with assms(5) have run2: "py_bind (safe_metric P (MIntent ''risk_rejected'')) (\<lambda>_.
          py_bind (safe_audit P ''ORDER_INTENT_REJECTED'' (audit_payload e)) (\<lambda>_.
          result_of e False (Some ''risk rejected''))) s2 = (r, t)" by simp
      have st: "steps (tracked e) quiet (py_bind (safe_metric P (MIntent ''risk_rejected'')) (\<lambda>_.
          py_bind (safe_audit P ''ORDER_INTENT_REJECTED'' (audit_payload e)) (\<lambda>_.
          result_of e False (Some ''risk rejected'')))) (later_result e)"
        by (intro q_rules) (use pf ok1(3) e(2) in simp)
      have "tracked e t \<and> quiet s2 t \<and> (\<forall>x. r = Inr x \<longrightarrow> later_result e x)"
        using stepsD [OF st _ run2] pf ok1(3) e(2) by simp
      then show ?thesis
        using pf(3) ok1 e(2,3)
        by (auto intro: qt.trans_R dest: tracked_ok simp: later_result_def later_intent)
    qed
  qed
qed

section \<open>Before the side effect\<close>

text \<open>What holds when an order is about to be sent: \<open>s\<close> is the state the submission started
  from and \<open>u\<close> the state in which the exchange is called.\<close>

definition cleared :: "'w ports \<Rightarrow> order_intent \<Rightarrow> 'w svc \<Rightarrow> execution_order \<Rightarrow> approved_intent \<Rightarrow>
    'w svc \<Rightarrow> bool" where
  "cleared P i s e a u \<longleftrightarrow>
     intent_client_id P i = Inr (ap_client_order_id a)
     \<and> dict_get (sv_store s) (ap_client_order_id a) = None
     \<and> assert_allowed (sv_kill s) (intent_reduces i) = Inr ()
     \<and> (intent_reduces i \<or> \<not> has_unresolved_unknown (sv_store s) (intent_leg_key i))
     \<and> ap_intent a = i \<and> 0 < ap_approved_quantity a \<and> ap_approved_quantity a \<le> oi_quantity i
     \<and> dict_get (sv_store u) (ap_client_order_id a) = Some e \<and> order_wf e
     \<and> eo_client_order_id e = ap_client_order_id a \<and> eo_intent e = i
     \<and> eo_approved_quantity e = ap_approved_quantity a \<and> eo_status e = SUBMITTING"

lemma new_order_wf:
  assumes "mk_execution_order i cid (DFin n) (new_lifecycle now) (Aware now) = Inr e" and "intent_ok i"
  shows "order_wf e" and "eo_client_order_id e = cid" and "eo_intent e = i"
    and "eo_approved_quantity e = n" and "eo_lifecycle e = new_lifecycle now"
  using mk_execution_order_wf [OF assms new_lifecycle_wf] assms(1)
  by (auto simp: mk_execution_order_Inr)

lemma after_put:
  assumes "svc_ok s" and "dict_get (sv_store s) cid = None" and "intent_ok i"
    and "mk_execution_order i cid (DFin n) (new_lifecycle now) (Aware now) = Inr e"
    and "py_bind (at_store (store_put e)) (\<lambda>_.
       py_bind (safe_audit P ''ORDER_INTENT_PREPARED'' (audit_payload e)) (\<lambda>_.
       py_bind (transition_order P e SUBMITTING None) (\<lambda>e.
       py_bind (py_of (mk_approved_intent i (DFin (eo_approved_quantity e)) cid
         (Aware now) codes)) (\<lambda>approved.
       py_ret (Inr (e, approved)))))) s = (r, t)"
  shows "svc_ok t \<and> quiet s t \<and> (\<forall>x. r \<noteq> Inr (Inl x))
    \<and> (\<forall>e' a. r = Inr (Inr (e', a)) \<longrightarrow> dict_get (sv_store t) cid = Some e' \<and> order_wf e'
        \<and> eo_client_order_id e' = cid \<and> eo_intent e' = i \<and> eo_approved_quantity e' = n
        \<and> eo_status e' = SUBMITTING \<and> ap_intent a = i \<and> ap_client_order_id a = cid
        \<and> ap_approved_quantity a = n \<and> 0 < n)"
proof -
  note e = new_order_wf [OF assms(4,3)]
  have fresh: "dict_get (sv_store s) (eo_client_order_id e) = None" using assms(2) e(2) by simp
  note pf = put_fresh [OF assms(1) fresh e(1)]
  define s1 where "s1 = s\<lparr>sv_store := dict_put (eo_client_order_id e) e (sv_store s)\<rparr>"
  define s2 where "s2 = s1\<lparr>sv_world :=
    snd (p_emit P ''ORDER_INTENT_PREPARED'' (audit_payload e) (sv_world s1))\<rparr>"
  obtain rt u where tr: "transition_order P e SUBMITTING None s2 = (rt, u)" by fastforce
  have ok2: "svc_ok s2" "quiet s s2"
    using pf(2,3) unfolding s1_def [symmetric] s2_def
    by (auto dest: tracked_ok intro: svc_ok_upd qt.trans_R quiet_upd)
  have lat: "latest_in s2 e = e" by (simp add: latest_in_def s2_def s1_def dict_get_put some_or_def)
  note q = transition_order_quiet [OF ok2(1) e(1) tr]
  have oku: "svc_ok u" "quiet s u"
    using svc_ok_quiet [OF ok2(1) q(2,1)] ok2(2) q(1) qt.trans_R by blast+
  have run: "(case rt of Inl x \<Rightarrow> (Inl x, u)
      | Inr e' \<Rightarrow> py_bind (py_of (mk_approved_intent i (DFin (eo_approved_quantity e')) cid
         (Aware now) codes)) (\<lambda>approved. py_ret (Inr (e', approved))) u) = (r, t)"
    using assms(5) pf(1) tr unfolding s1_def [symmetric]
    by (simp add: py_bind_eq s2_def [symmetric] split: sum.splits)
  show ?thesis
  proof (cases rt)
    case (Inl x)
    then show ?thesis using run oku by auto
  next
    case (Inr e')
    note x = q(3) [OF Inr, unfolded lat]
    show ?thesis
    proof (cases "mk_approved_intent i (DFin (eo_approved_quantity e')) cid (Aware now) codes")
      case (Inl x)
      then show ?thesis using run Inr oku by auto
    next
      case mk: (Inr a)
      then have "ap_intent a = i" "ap_client_order_id a = cid" "0 < n"
        "ap_approved_quantity a = n"
        using x e by (auto simp: mk_approved_intent_def res_splits order_le_def not_le)
      then show ?thesis using run Inr mk oku x e by (auto simp: order_le_def)
    qed
  qed
qed


lemma svc_ok_cong:
  "svc_ok s \<Longrightarrow> sv_store t = sv_store s \<Longrightarrow> sv_calls t = sv_calls s \<Longrightarrow> svc_ok t"
  by (simp add: svc_ok_def)

lemma ok_of_steps:
  assumes "steps (tracked e) quiet m Q" and "tracked e s" and "m s = (r, t)"
  shows "svc_ok t \<and> quiet s t"
  using stepsD [OF assms] by (auto dest: tracked_ok)

text \<open>A result that is final: the key's slot holds it, and it answers this intent.\<close>

definition settled :: "order_intent \<Rightarrow> execution_result \<Rightarrow> 'w svc \<Rightarrow> bool" where
  "settled i res t \<longleftrightarrow> store_slot (sv_idem t) (oi_idempotency_key i) = Done res
     \<and> same_intent (eo_intent (er_order res)) i \<and> message_ok res"

lemma completed_done:
  assumes "completed_with k m s = (Inr res, t)" and "clean 256 k"
  shows "store_slot (sv_idem t) k = Done res" and "\<exists>u. m s = (Inr res, u)"
proof -
  obtain u where u: "m s = (Inr res, u)" "complete k res (sv_idem u) = (Inr (), sv_idem t)"
    using assms(1) unfolding completed_with_def py_bind_eq at_idem_eq
    by (auto simp: prod_eq_iff split: prod.splits sum.splits)
  then show "\<exists>u. m s = (Inr res, u)" by blast
  show "store_slot (sv_idem t) k = Done res"
    using mem.complete_law [OF normalize_key_clean [OF assms(2)] u(2)] by (auto split: if_splits)
qed

lemma intent_ok_key: "intent_ok i \<Longrightarrow> clean 256 (oi_idempotency_key i)"
  by (simp add: intent_ok_def)

lemma existing_settled:
  assumes "completed_with (oi_idempotency_key i) (recover_existing_execution P e i) s = (Inr res, t)"
    and "intent_ok i" and "tracked e s" and "later e e"
  shows "settled i res t"
proof -
  note cd = completed_done [OF assms(1) intent_ok_key [OF assms(2)]]
  then obtain u where u: "recover_existing_execution P e i s = (Inr res, u)" by blast
  have "same_intent (eo_intent e) i"
    using u by (auto simp: recover_existing_execution_def split: if_splits)
  then show ?thesis
    using stepsD [OF q_existing [OF assms(4)] assms(3) u] cd(1)
    by (auto simp: settled_def later_result_def later_intent)
qed

lemma rejected_settled:
  assumes "completed_with (oi_idempotency_key i) (rejected_before_submit P i ap) s = (Inr res, t)"
    and "svc_ok s" and "dict_get (sv_store s) cid = None" and "intent_client_id P i = Inr cid"
    and "intent_ok i"
  shows "settled i res t"
proof -
  note cd = completed_done [OF assms(1) intent_ok_key [OF assms(5)]]
  then obtain u where u: "rejected_before_submit P i ap s = (Inr res, u)" by blast
  then show ?thesis
    using rejected_quiet [OF assms(2-5) u] cd(1) same_intent_refl [OF assms(5)]
    by (auto simp: settled_def)
qed

lemma prepare_outcome:
  assumes "svc_ok s" and "intent_ok i" and "intent_client_id P i = Inr cid"
    and "submit_prepare P i cid (dict_get (sv_store s) cid) s = (r, t)"
  shows "svc_ok t \<and> quiet s t \<and> (\<forall>e a. r = Inr (Inr (e, a)) \<longrightarrow> cleared P i s e a t)
    \<and> (\<forall>res. r = Inr (Inl res) \<longrightarrow> settled i res t)"
proof (cases "dict_get (sv_store s) cid")
  case (Some e)
  have st: "steps (tracked e) quiet (completed_with (oi_idempotency_key i)
      (recover_existing_execution P e i)) (later_result e)"
    by (intro q_completed q_existing) (use tracked_start [OF assms(1) Some] in simp)
  obtain r' where "completed_with (oi_idempotency_key i) (recover_existing_execution P e i) s = (r', t)"
      "r = (case r' of Inl x \<Rightarrow> Inl x | Inr x \<Rightarrow> Inr (Inl x))"
    using assms(4) Some by (auto simp: submit_prepare_def py_bind_eq split: prod.splits sum.splits)
  then show ?thesis
    using ok_of_steps [OF st] tracked_start [OF assms(1) Some] existing_settled [OF _ assms(2)]
    by (auto split: sum.splits)
next
  case None
  define ap where "ap = fst (p_approve P i (sv_world s))"
  define s1 where "s1 = s\<lparr>sv_world := snd (p_approve P i (sv_world s))\<rparr>"
  have ok1: "svc_ok s1" "quiet s s1" "dict_get (sv_store s1) cid = None"
    using assms(1) None by (auto simp: s1_def svc_ok_upd quiet_upd)
  let ?gate = "assert_allowed (sv_kill s) (intent_reduces i)"
  let ?blocked = "\<not> intent_reduces i \<and> has_unresolved_unknown (sv_store s) (intent_leg_key i)"
  note unfold = submit_prepare_def py_bind_get py_bind_eq [of "at_port _"] at_port_eq
  consider (gate) x where "?gate = Inl x" | (blocked) u where "?gate = Inr u" "?blocked"
    | (risk) u x where "?gate = Inr u" "\<not> ?blocked" "ap = Inl x"
    | (too_much) u a where "?gate = Inr u" "\<not> ?blocked" "ap = Inr a"
        "ra_approved_quantity a > oi_quantity i"
    | (rejected) u a where "?gate = Inr u" "\<not> ?blocked" "ap = Inr a"
        "\<not> ra_approved_quantity a > oi_quantity i" "\<not> ra_approved a"
    | (approved) u a where "?gate = Inr u" "\<not> ?blocked" "ap = Inr a"
        "\<not> ra_approved_quantity a > oi_quantity i" "ra_approved a"
    by (cases ?gate; cases ap) blast+
  then show ?thesis
  proof cases
    case gate
    then show ?thesis
      using assms(1,4) None by (auto simp: submit_prepare_def qt.refl_R)
  next
    case blocked
    then show ?thesis
      using assms(1,4) None by (auto simp: submit_prepare_def py_bind_def svc_ok_upd quiet_upd)
  next
    case risk
    then show ?thesis
      using assms(4) None ok1
      by (auto simp: submit_prepare_def py_bind_eq [of "at_port _"] at_port_eq ap_def s1_def)
  next
    case too_much
    then show ?thesis
      using assms(4) None ok1
      by (auto simp: submit_prepare_def py_bind_eq [of "at_port _"] at_port_eq ap_def s1_def)
  next
    case (rejected u a)
    have run: "py_bind (completed_with (oi_idempotency_key i) (rejected_before_submit P i a))
        (\<lambda>result. py_ret (Inl result)) s1 = (r, t)"
      using assms(4) None rejected
      by (simp add: submit_prepare_def py_bind_eq [of "at_port _"] at_port_eq
          ap_def [symmetric] s1_def [symmetric])
    from run obtain r1 t1 where rb: "rejected_before_submit P i a s1 = (r1, t1)"
      and t: "t = t1 \<or> (\<exists>d. t = t1\<lparr>sv_idem := d\<rparr>)" and r: "\<forall>x. r \<noteq> Inr (Inr x)"
      by (auto simp: py_bind_eq completed_with_def at_idem_eq split: prod.splits sum.splits)
    have "svc_ok t1 \<and> quiet s1 t1" using rejected_quiet [OF ok1(1,3) assms(3,2) rb] by blast
    then have "svc_ok t \<and> quiet s1 t"
      using t by (auto simp: svc_ok_upd quiet_def)
    moreover have "settled i res t" if "r = Inr (Inl res)" for res
    proof -
      have "completed_with (oi_idempotency_key i) (rejected_before_submit P i a) s1 = (Inr res, t)"
        using run that by (auto simp: py_bind_eq split: prod.splits sum.splits)
      from rejected_settled [OF this ok1(1,3) assms(3,2)] show ?thesis .
    qed
    ultimately show ?thesis using r ok1(2) qt.trans_R by blast
  next
    case (approved u a)
    define now where "now = fst (p_now P (sv_world s1))"
    define s2 where "s2 = s1\<lparr>sv_world := snd (p_now P (sv_world s1))\<rparr>"
    have ok2: "svc_ok s2" "quiet s s2" "dict_get (sv_store s2) cid = None"
      using ok1 by (auto simp: s2_def svc_ok_upd intro: qt.trans_R quiet_upd)
    define mk where "mk = mk_execution_order i cid (DFin (ra_approved_quantity a))
      (new_lifecycle now) (Aware now)"
    have run: "py_bind (py_of mk) (\<lambda>order.
       py_bind (at_store (store_put order)) (\<lambda>_.
       py_bind (safe_audit P ''ORDER_INTENT_PREPARED'' (audit_payload order)) (\<lambda>_.
       py_bind (transition_order P order SUBMITTING None) (\<lambda>order.
       py_bind (py_of (mk_approved_intent i (DFin (eo_approved_quantity order)) cid
         (Aware now) (ra_reason_codes a))) (\<lambda>approved.
       py_ret (Inr (order, approved))))))) s2 = (r, t)"
      using assms(4) None approved
      by (simp add: submit_prepare_def py_bind_eq [of "at_port _"] at_port_eq
          ap_def [symmetric] s1_def [symmetric] s2_def [symmetric] now_def [symmetric] mk_def
          py_bind_eq [of "utc_now _"])
    show ?thesis
    proof (cases mk)
      case (Inl x)
      then show ?thesis using run ok2 by auto
    next
      case (Inr e)
      from after_put [OF ok2(1,3) assms(2) Inr [unfolded mk_def]] run [unfolded Inr py_bind_of_Inr]
      have out: "svc_ok t \<and> quiet s2 t
        \<and> (\<forall>e' b. r = Inr (Inr (e', b)) \<longrightarrow> dict_get (sv_store t) cid = Some e' \<and> order_wf e'
          \<and> eo_client_order_id e' = cid \<and> eo_intent e' = i
          \<and> eo_approved_quantity e' = ra_approved_quantity a
          \<and> eo_status e' = SUBMITTING \<and> ap_intent b = i \<and> ap_client_order_id b = cid
          \<and> ap_approved_quantity b = ra_approved_quantity a \<and> 0 < ra_approved_quantity a)"
        by blast
      have "quiet s t" using out ok2(2) qt.trans_R by blast
      moreover have "cleared P i s e' b t" if "r = Inr (Inr (e', b))" for e' b
        using out that approved(1,2,4) None assms(3) unfolding cleared_def by auto
      moreover have "r \<noteq> Inr (Inl x)" for x
        using after_put [OF ok2(1,3) assms(2) Inr [unfolded mk_def]]
          run [unfolded Inr py_bind_of_Inr] by blast
      ultimately show ?thesis using out by blast
    qed
  qed
qed


section \<open>Sending\<close>

lemma after_send:
  assumes "later e0 e"
  shows "steps (tracked e0) quiet (completed_with k (case out of
      Inl x \<Rightarrow>
        if is_a x DefinitiveSubmissionError
        then py_bind (transition_order P e REJECTED (Some (''submit_rejected:'' @ exn_name x)))
          (\<lambda>e. py_bind (safe_audit P ''ORDER_SUBMIT_REJECTED'' (audit_payload e)) (\<lambda>_.
          result_of e False (Some ''submission was definitively rejected'')))
        else submission_unknown P e x
    | Inr reply \<Rightarrow> apply_acknowledgement P e reply)) (later_result e0)"
  by (intro q_completed q_rules q_unknown q_ack assms)

lemma send_outcome:
  assumes "svc_ok u" and "dict_get (sv_store u) (ap_client_order_id a) = Some e"
    and "ap_client_order_id a \<notin> set (map ap_client_order_id (submits (sv_calls u)))"
    and "submit_send P i e a u = (r, t)"
  shows "svc_ok t \<and> store_le (sv_store u) (sv_store t) \<and> sv_kill t = sv_kill u
    \<and> submits (sv_calls t) = submits (sv_calls u) @ [a]
    \<and> (\<forall>x. r = Inr x \<longrightarrow> later_result e x)"
proof -
  define u1 where "u1 = u\<lparr>sv_calls := sv_calls u @ [CSubmit a],
    sv_world := snd (p_submit P a (sv_world u))\<rparr>"
  have e: "tracked e u" "later e e" using tracked_start [OF assms(1,2)] by auto
  have ok: "svc_ok u1" using assms(1-3) by (auto simp: svc_ok_def u1_def)
  then have tr: "tracked e u1" using e(1) by (simp add: tracked_def u1_def)
  have "completed_with (oi_idempotency_key i) (case fst (p_submit P a (sv_world u)) of
      Inl x \<Rightarrow>
        if is_a x DefinitiveSubmissionError
        then py_bind (transition_order P e REJECTED (Some (''submit_rejected:'' @ exn_name x)))
          (\<lambda>e. py_bind (safe_audit P ''ORDER_SUBMIT_REJECTED'' (audit_payload e)) (\<lambda>_.
          result_of e False (Some ''submission was definitively rejected'')))
        else submission_unknown P e x
    | Inr reply \<Rightarrow> apply_acknowledgement P e reply) u1 = (r, t)"
    using assms(4)
    by (simp add: submit_send_def ex_submit_def logged_def py_then_def at_port_eq
        py_bind_eq [of "py_try _"] py_try_def u1_def)
  from stepsD [OF after_send [OF e(2)] tr this] have
    "tracked e t \<and> quiet u1 t \<and> (\<forall>x. r = Inr x \<longrightarrow> later_result e x)" .
  then show ?thesis by (auto simp: quiet_def u1_def dest: tracked_ok)
qed

lemma submit_outcome:
  assumes "svc_ok s" and "intent_ok i" and "submit P i s = (r, t)"
  shows "svc_ok t \<and> store_le (sv_store s) (sv_store t) \<and> sv_kill t = sv_kill s
    \<and> (submits (sv_calls t) = submits (sv_calls s)
       \<or> (\<exists>e a u. cleared P i s e a u \<and> store_slot (sv_idem s) (oi_idempotency_key i) = Free
            \<and> quiet s u \<and> submit_send P i e a u = (r, t)
            \<and> submits (sv_calls t) = submits (sv_calls s) @ [a]))
    \<and> (\<forall>res. r = Inr res \<longrightarrow> store_slot (sv_idem s) (oi_idempotency_key i) = Free \<longrightarrow> settled i res t)"
proof -
  let ?key = "oi_idempotency_key i"
  have key: "normalize_key ?key = Inr ?key"
    using assms(2) by (auto simp: intent_ok_def intro: normalize_key_clean)
  obtain rv d where rv: "reserve ?key (sv_idem s) = (rv, d)" by fastforce
  define s1 where "s1 = s\<lparr>sv_idem := d\<rparr>"
  have ok1: "svc_ok s1" "quiet s s1" using assms(1) by (simp_all add: s1_def svc_ok_upd quiet_upd)
  show ?thesis
  proof (cases "intent_client_id P i")
    case (Inl x)
    with assms(1,3) show ?thesis by (auto simp: submit_def)
  next
    case cid: (Inr cid)
    note run = assms(3) [unfolded submit_def cid py_bind_of_Inr py_bind_eq [of "find_order _"]
        find_order_eq prod.case sum.case py_bind_eq [of "at_idem _"] at_idem_eq rv fst_conv snd_conv
        s1_def [symmetric]]
    consider (raise) x where "rv = Inl x" | (done_) v where "rv = Inr v" "rv_state v \<noteq> NEW"
      | (new) v where "rv = Inr v" "rv_state v = NEW" by (cases rv) auto
    then show ?thesis
    proof cases
      case raise
      then show ?thesis using run ok1 by (auto simp: quiet_def)
    next
      case done_
      then have "t = s1"
        using run by (auto simp: py_bind_eq result_of_def split: reservation_state.splits
            option.splits if_splits sum.splits prod.splits)
      moreover have "store_slot (sv_idem s) ?key \<noteq> Free"
        using mem.reserve_law [OF key rv] done_ by (auto split: slot.splits)
      ultimately show ?thesis using ok1 by (simp add: quiet_def)
    next
      case new
      have free: "store_slot (sv_idem s) ?key = Free"
        using mem.reserve_new(1) [OF key rv [unfolded new(1)] new(2)] .
      define s2 where "s2 = s1\<lparr>sv_world := snd (p_metric P (MIntent ''received'') (sv_world s1))\<rparr>"
      have ok2: "svc_ok s2" "quiet s s2"
        using ok1 by (auto simp: s2_def svc_ok_upd intro: qt.trans_R quiet_upd)
      have st2: "sv_store s2 = sv_store s" "sv_kill s2 = sv_kill s" by (simp_all add: s2_def s1_def)
      obtain rp u where pr: "submit_prepare P i cid (dict_get (sv_store s2) cid) s2 = (rp, u)"
        by fastforce
      note po = prepare_outcome [OF ok2(1) assms(2) cid pr]
      have su: "quiet s u" using po ok2(2) qt.trans_R by blast
      have run2: "(case rp of
          Inl x \<Rightarrow> (Inl x, u\<lparr>sv_idem := snd (release ?key (sv_idem u))\<rparr>)
        | Inr (Inl res) \<Rightarrow> (Inr res, u)
        | Inr (Inr (e, a)) \<Rightarrow> submit_send P i e a u) = (r, t)"
      proof -
        have "fst (release ?key (sv_idem u)) = Inr ()"
          using key by (simp add: release_def)
        then show ?thesis
          using run new pr
          by (auto simp: py_bind_eq py_catch_def at_idem_eq s2_def [symmetric] st2
              split: sum.splits prod.splits)
      qed
      show ?thesis
      proof (cases "\<exists>e a. rp = Inr (Inr (e, a))")
        case False
        then have "sv_store t = sv_store u \<and> sv_kill t = sv_kill u \<and> sv_calls t = sv_calls u"
          using run2 by (auto split: sum.splits)
        moreover have "settled i res t" if "r = Inr res" for res
          using run2 that po False by (auto split: sum.splits)
        ultimately show ?thesis
          using po su svc_ok_cong [of u t] unfolding quiet_def by auto
      next
        case True
        then obtain e a where ea: "rp = Inr (Inr (e, a))" by blast
        then have c2: "cleared P i s2 e a u" using po by blast
        then have c: "cleared P i s e a u" by (simp add: cleared_def st2)
        have "ap_client_order_id a \<notin> set (map ap_client_order_id (submits (sv_calls u)))"
        proof
          assume "ap_client_order_id a \<in> set (map ap_client_order_id (submits (sv_calls u)))"
          then have "dict_get (sv_store s) (ap_client_order_id a) \<noteq> None"
            using su assms(1) by (auto simp: quiet_def svc_ok_def)
          then show False using c by (simp add: cleared_def)
        qed
        moreover have "submit_send P i e a u = (r, t)" using run2 ea by simp
        moreover have "svc_ok u" using po by blast
        moreover have "dict_get (sv_store u) (ap_client_order_id a) = Some e"
          using c by (simp add: cleared_def)
        ultimately have so: "svc_ok t \<and> store_le (sv_store u) (sv_store t) \<and> sv_kill t = sv_kill u
            \<and> submits (sv_calls t) = submits (sv_calls u) @ [a]
            \<and> (\<forall>x. r = Inr x \<longrightarrow> later_result e x)"
          and sent: "submit_send P i e a u = (r, t)" using send_outcome by blast+
        have "settled i res t" if "r = Inr res" for res
        proof -
          have "store_slot (sv_idem t) ?key = Done res"
            using sent that unfolding submit_send_def
            by (auto simp: py_bind_eq [of "py_try _"] split: prod.splits sum.splits
                intro: completed_done(1) intent_ok_key [OF assms(2)])
          moreover have "eo_intent (er_order res) = i" "message_ok res"
            using so that c by (auto simp: later_result_def later_intent cleared_def)
          ultimately show ?thesis using same_intent_refl [OF assms(2)] by (simp add: settled_def)
        qed
        then show ?thesis
          using su c free so sent unfolding quiet_def by (metis store_le_trans)
      qed
    qed
  qed
qed

end
