(* ===== verification/Service_Runs.thy ===== *)
theory Service_Runs
  imports Service_Submit
begin

text \<open>
  Every history of the execution service: \<open>svc_do\<close> performs one operation, whatever it returns,
  and \<open>svc_run\<close> chains them with arbitrary changes of the environment, operations on the kill
  switch and replacements of the idempotency store (a restart that lost it). The invariant
  \<open>svc_ok\<close> holds along every run and the stored orders only move forward.
\<close>

section \<open>Batches are quiet\<close>

lemma run_batch_quiet:
  assumes "\<And>cid. quiet_op cid (call cid)"
  shows "svc_ok s \<Longrightarrow> run_batch call rs es orders s = (r, t) \<Longrightarrow> svc_ok t \<and> quiet s t"
proof (induction orders arbitrary: rs es s)
  case Nil
  then show ?case by (simp add: qt.refl_R)
next
  case (Cons e orders)
  obtain r1 u where c: "call (eo_client_order_id e) s = (r1, u)" by fastforce
  have u: "svc_ok u" "quiet s u"
    using assms [of "eo_client_order_id e"] Cons.prems(1) c unfolding quiet_op_def by blast+
  have "\<exists>rs' es'. run_batch call rs' es' orders u = (r, t)"
    using Cons.prems(2) c by (auto simp: py_bind_def py_try_def split: sum.splits)
  with Cons.IH [OF u(1)] u(2) show ?case by (blast intro: qt.trans_R)
qed

lemma list_orders_state: "list_orders f s = (r, t) \<Longrightarrow> t = s"
  by (auto simp: list_orders_def py_bind_def split: sum.splits)

lemma batch_quiet:
  assumes "\<And>cid. quiet_op cid (call cid)" and "svc_ok s"
    and "py_bind (list_orders f) (\<lambda>sel. batch_of name call (g sel)) s = (r, t)"
  shows "svc_ok t \<and> quiet s t"
proof -
  obtain l s' where l: "list_orders f s = (l, s')" by fastforce
  have s': "s' = s" using list_orders_state [OF l] .
  show ?thesis
  proof (cases l)
    case (Inl x)
    then show ?thesis using assms(2,3) l s' by (simp add: py_bind_def qt.refl_R)
  next
    case (Inr sel)
    obtain q u where q: "run_batch call [] [] (g sel) s = (q, u)" by fastforce
    then have "t = u"
      using assms(3) l s' Inr
      by (auto simp: py_bind_def batch_of_def split: sum.splits prod.splits)
    then show ?thesis using run_batch_quiet [OF assms(1,2) q] by simp
  qed
qed

lemma refresh_orders_quiet:
  "svc_ok s \<Longrightarrow> refresh_orders P a sy b n s = (r, t) \<Longrightarrow> svc_ok t \<and> quiet s t"
  unfolding refresh_orders_def by (rule batch_quiet [OF refresh_quiet])

lemma resolve_unknowns_quiet:
  "svc_ok s \<Longrightarrow> resolve_unknowns P a sy n s = (r, t) \<Longrightarrow> svc_ok t \<and> quiet s t"
  unfolding resolve_unknowns_def by (rule batch_quiet [OF resolve_quiet])

lemma cancel_orders_quiet:
  "svc_ok s \<Longrightarrow> cancel_orders P a sy p n s = (r, t) \<Longrightarrow> svc_ok t \<and> quiet s t"
  unfolding cancel_orders_def by (rule batch_quiet [OF cancel_quiet])

section \<open>Operations and runs\<close>

datatype 'w svc_op =
    Submit order_intent
  | Resolve string | Cancel string | Refresh string
  | Exchange_Event order_snapshot
  | Apply_Snapshot execution_order order_snapshot
  | Refresh_All "string option" "string option" bool "int option"
  | Resolve_All "string option" "string option" "int option"
  | Cancel_All "string option" "string option" "(position_side + string) option" "int option"
  | Switch ks_op
  | Environment "'w \<Rightarrow> 'w"
  | New_Idempotency "execution_result idempotency_store"

fun svc_do :: "'w ports \<Rightarrow> 'w svc_op \<Rightarrow> 'w svc \<Rightarrow> 'w svc" where
  "svc_do P (Submit i) s = snd (submit P i s)"
| "svc_do P (Resolve c) s = snd (resolve_unknown P c s)"
| "svc_do P (Cancel c) s = snd (cancel P c s)"
| "svc_do P (Refresh c) s = snd (refresh_order P c s)"
| "svc_do P (Exchange_Event sn) s = snd (apply_exchange_event P sn s)"
| "svc_do P (Apply_Snapshot e sn) s = snd (apply_snapshot P e sn s)"
| "svc_do P (Refresh_All a y b n) s = snd (refresh_orders P a y b n s)"
| "svc_do P (Resolve_All a y n) s = snd (resolve_unknowns P a y n s)"
| "svc_do P (Cancel_All a y p n) s = snd (cancel_orders P a y p n s)"
| "svc_do P (Switch op) s = s\<lparr>sv_kill := ks_step op (sv_kill s)\<rparr>"
| "svc_do P (Environment f) s = s\<lparr>sv_world := f (sv_world s)\<rparr>"
| "svc_do P (New_Idempotency d) s = s\<lparr>sv_idem := d\<rparr>"

text \<open>Arguments are objects, so their constructors have accepted them.\<close>

fun op_ok :: "'w svc_op \<Rightarrow> bool" where
  "op_ok (Submit i) = intent_ok i"
| "op_ok (Apply_Snapshot e sn) = order_wf e"
| "op_ok _ = True"

fun is_submission :: "'w svc_op \<Rightarrow> bool" where
  "is_submission (Submit i) = True"
| "is_submission _ = False"

inductive svc_run :: "'w ports \<Rightarrow> 'w svc \<Rightarrow> 'w svc \<Rightarrow> bool" for P where
  none: "svc_run P s s"
| more: "svc_run P s t \<Longrightarrow> op_ok op \<Longrightarrow> svc_run P s (svc_do P op t)"

lemma quiet_opD: "quiet_op cid m \<Longrightarrow> svc_ok s \<Longrightarrow> svc_ok (snd (m s)) \<and> quiet s (snd (m s))"
  unfolding quiet_op_def by (metis prod.collapse)

lemma apply_ok:
  assumes "svc_ok s" and "order_wf e"
  shows "svc_ok (snd (apply_snapshot P e sn s)) \<and> quiet s (snd (apply_snapshot P e sn s))"
proof -
  obtain r t where a: "apply_snapshot P e sn s = (r, t)" by fastforce
  note q = apply_snapshot_quiet [OF assms a [unfolded apply_snapshot_def]]
  show ?thesis using q svc_ok_quiet [OF assms(1) q(2,1)] by (simp add: a)
qed

text \<open>Everything but a submission sends nothing.\<close>

lemma do_quiet:
  assumes "svc_ok s" and "op_ok op" and "\<not> is_submission op"
  shows "svc_ok (svc_do P op s) \<and> submits (sv_calls (svc_do P op s)) = submits (sv_calls s)
    \<and> store_le (sv_store s) (sv_store (svc_do P op s))"
proof -
  have q: "svc_ok t \<and> quiet s t \<Longrightarrow>
      svc_ok t \<and> submits (sv_calls t) = submits (sv_calls s) \<and> store_le (sv_store s) (sv_store t)" for t
    by (simp add: quiet_def)
  show ?thesis
  proof (cases op)
    case (Resolve c)
    then show ?thesis using q quiet_opD [OF resolve_quiet assms(1)] by simp
  next
    case (Cancel c)
    then show ?thesis using q quiet_opD [OF cancel_quiet assms(1)] by simp
  next
    case (Refresh c)
    then show ?thesis using q quiet_opD [OF refresh_quiet assms(1)] by simp
  next
    case (Exchange_Event sn)
    then show ?thesis using q quiet_opD [OF event_quiet assms(1)] by simp
  next
    case (Apply_Snapshot e sn)
    then show ?thesis using q [OF apply_ok [OF assms(1)]] assms(2) by simp
  next
    case (Refresh_All a y b n)
    then show ?thesis using q refresh_orders_quiet [OF assms(1)] by (simp add: prod_eq_iff)
  next
    case (Resolve_All a y n)
    then show ?thesis using q resolve_unknowns_quiet [OF assms(1)] by (simp add: prod_eq_iff)
  next
    case (Cancel_All a y p n)
    then show ?thesis using q cancel_orders_quiet [OF assms(1)] by (simp add: prod_eq_iff)
  qed (use assms in \<open>simp_all add: svc_ok_def\<close>)
qed

lemma do_ok:
  assumes "svc_ok s" and "op_ok op"
  shows "svc_ok (svc_do P op s) \<and> store_le (sv_store s) (sv_store (svc_do P op s))"
proof (cases "is_submission op")
  case True
  then obtain i where i: "op = Submit i" by (cases op) auto
  obtain r t where "submit P i s = (r, t)" by fastforce
  with submit_outcome [OF assms(1) _ this] assms(2) i show ?thesis by simp
qed (use do_quiet [OF assms] in auto)

lemma run_ok:
  "svc_run P s t \<Longrightarrow> svc_ok s \<Longrightarrow> svc_ok t \<and> store_le (sv_store s) (sv_store t)"
  by (induction rule: svc_run.induct) (auto dest: do_ok intro: store_le_trans)

lemma new_service_ok [simp]: "svc_ok (new_service ks w)"
  by (simp add: svc_ok_def new_service_def store_inv_def)


section \<open>Under a halted kill switch\<close>

lemma kill_unchanged:
  assumes "svc_ok s" and "op_ok op" and "\<And>sw. op \<noteq> Switch sw"
  shows "sv_kill (svc_do P op s) = sv_kill s"
proof (cases op)
  case (Submit i)
  obtain r t where "submit P i s = (r, t)" by fastforce
  with submit_outcome [OF assms(1) _ this] assms(2) Submit show ?thesis by simp
next
  case (Resolve c)
  then show ?thesis using quiet_opD [OF resolve_quiet assms(1)] by (simp add: quiet_def)
next
  case (Cancel c)
  then show ?thesis using quiet_opD [OF cancel_quiet assms(1)] by (simp add: quiet_def)
next
  case (Refresh c)
  then show ?thesis using quiet_opD [OF refresh_quiet assms(1)] by (simp add: quiet_def)
next
  case (Exchange_Event sn)
  then show ?thesis using quiet_opD [OF event_quiet assms(1)] by (simp add: quiet_def)
next
  case (Apply_Snapshot e sn)
  then show ?thesis using apply_ok [OF assms(1)] assms(2) by (simp add: quiet_def)
next
  case (Refresh_All a y b n)
  obtain r t where "refresh_orders P a y b n s = (r, t)" by fastforce
  with refresh_orders_quiet [OF assms(1) this] Refresh_All show ?thesis by (simp add: quiet_def)
next
  case (Resolve_All a y n)
  obtain r t where "resolve_unknowns P a y n s = (r, t)" by fastforce
  with resolve_unknowns_quiet [OF assms(1) this] Resolve_All show ?thesis by (simp add: quiet_def)
next
  case (Cancel_All a y p n)
  obtain r t where "cancel_orders P a y p n s = (r, t)" by fastforce
  with cancel_orders_quiet [OF assms(1) this] Cancel_All show ?thesis by (simp add: quiet_def)
qed (use assms in simp_all)

lemma halted_after:
  assumes "svc_ok s" and "ks_halted (sv_kill s)" and "op_ok op"
    and "\<And>sw. op = Switch sw \<Longrightarrow> \<not> confirmed_release sw"
  shows "ks_halted (sv_kill (svc_do P op s))"
proof (cases "\<exists>sw. op = Switch sw")
  case True
  then show ?thesis using assms(2,4) by (auto intro: halted_step)
next
  case False
  then show ?thesis using kill_unchanged [OF assms(1,3)] assms(2) by auto
qed

lemma one_step_reduces:
  assumes "svc_ok s" and "ks_halted (sv_kill s)" and "op_ok op"
  shows "\<exists>sent. submits (sv_calls (svc_do P op s)) = submits (sv_calls s) @ sent
    \<and> list_all (\<lambda>a. intent_reduces (ap_intent a)) sent"
proof (cases "is_submission op")
  case False
  then show ?thesis using do_quiet [OF assms(1,3)] by auto
next
  case True
  then obtain i where i: "op = Submit i" by (cases op) auto
  obtain r t where rt: "submit P i s = (r, t)" by fastforce
  have "intent_ok i" using assms(3) i by simp
  from submit_outcome [OF assms(1) this rt] consider
      "submits (sv_calls t) = submits (sv_calls s)"
    | e a u where "cleared P i s e a u" "submits (sv_calls t) = submits (sv_calls s) @ [a]" by blast
  then show ?thesis
  proof cases
    case 1
    then show ?thesis using i rt by simp
  next
    case (2 e a u)
    have "intent_reduces (ap_intent a)"
    proof (rule ccontr)
      assume "\<not> intent_reduces (ap_intent a)"
      then have "assert_allowed (sv_kill s) False = Inr ()" using 2(1) by (auto simp: cleared_def)
      then show False using assms(2) ksg.increase_iff by blast
    qed
    then show ?thesis using i rt 2(2) by auto
  qed
qed

end
