(* ===== verification/Service_Demo.thy ===== *)
theory Service_Demo
  imports Service_Runs
begin

text \<open>
  A concrete environment to run the service in: the clock is the state of the environment and ticks
  at every reading, risk approves everything, and the adapters answer as the demo's parameters say.
  Used to evaluate the properties at concrete inputs.
\<close>

definition demo_ports ::
    "reply res \<Rightarrow> reply res \<Rightarrow> reply res \<Rightarrow> reply res \<Rightarrow> int ports" where
  "demo_ports submitted queried cancelled resolved = \<lparr>
     p_now = (\<lambda>w. (w, w + 1)),
     p_approve = (\<lambda>i. py_of (allow_all_approve i)),
     p_submit = (\<lambda>a. py_of submitted), p_query = (\<lambda>c. py_of queried),
     p_cancel = (\<lambda>c. py_of cancelled), p_resolve = (\<lambda>e. py_of resolved),
     p_emit = (\<lambda>e p. py_ret ()), p_metric = (\<lambda>m. py_ret ()),
     p_sha256 = (\<lambda>b. replicate 32 0), p_blake2s = (\<lambda>b. [0, 0, 1, 2])\<rparr>"

definition demo_intent :: order_intent where
  "demo_intent = \<lparr>oi_account_id = ''acc'', oi_symbol = ''BTCUSDT'', oi_position_side = LONG,
     oi_action = OPEN, oi_quantity = 2, oi_idempotency_key = ''k1'', oi_order_type = LIMIT,
     oi_limit_price = Some 100, oi_reduce_only = False, oi_intent_id = 7,
     oi_action_group_id = None, oi_metadata = []\<rparr>"

definition demo_id :: string where
  "demo_id = ''FTH-BTCUSDT-L0-AAAAAAAAAAAAAAAA''"

definition demo_snapshot :: "order_state \<Rightarrow> rat \<Rightarrow> int \<Rightarrow> order_snapshot" where
  "demo_snapshot status filled t = \<lparr>sn_client_order_id = demo_id, sn_status = status,
     sn_filled_quantity = filled, sn_average_price = None, sn_exchange_order_id = None,
     sn_exchange_trade_id = None, sn_last_fill_fee = 0, sn_fee_currency = None,
     sn_reason = None, sn_observed_at = t\<rparr>"

definition demo_start :: "int svc" where
  "demo_start = new_service (new_kill_switch True False False 0) 1000"

lemma demo_intent_ok [simp]: "intent_ok demo_intent"
  by (simp add: intent_ok_def demo_intent_def reduces_risk_def) code_simp

lemma demo_start_ok [simp]: "svc_ok demo_start"
  by (simp add: demo_start_def)


text \<open>An exchange that acknowledges, one whose acknowledgement is lost (a timeout and nothing to
  recover), and one that answers a cancel with a fill.\<close>

definition ack_ports :: "int ports" where
  "ack_ports = demo_ports (Inr (RSnapshot (demo_snapshot ACKNOWLEDGED 0 5000))) (Inr RNone)
     (Inr (RSnapshot (demo_snapshot CANCELED 1 6000))) (Inr RNone)"

definition lost_ports :: "int ports" where
  "lost_ports = demo_ports (Inl (Exn TimeoutError ''timeout'')) (Inr RNone)
     (Inl (Exn TimeoutError ''timeout'')) (Inr RNone)"

definition after_submit :: "int ports \<Rightarrow> int svc" where
  "after_submit P = svc_do P (Submit demo_intent) demo_start"

lemma after_submit_run: "svc_run P demo_start (after_submit P)"
  unfolding after_submit_def by (intro svc_run.intros) simp

lemma demo_start_new: "demo_start = new_service (new_kill_switch True False False 0) 1000"
  by (simp add: demo_start_def)

text \<open>An exchange that acknowledges every order and confirms every cancel, and a hash that tells
  the keys of the demos apart, when they end in 2 or 3.\<close>

definition echo_submit :: "approved_intent \<Rightarrow> (int, reply) py" where
  "echo_submit a = py_ret (RSnapshot ((demo_snapshot ACKNOWLEDGED 0 5000)
     \<lparr>sn_client_order_id := ap_client_order_id a\<rparr>))"

definition echo_cancel :: "string \<Rightarrow> (int, reply) py" where
  "echo_cancel c = py_ret (RSnapshot ((demo_snapshot CANCELED 0 6000)\<lparr>sn_client_order_id := c\<rparr>))"

fun demo_hash :: "nat list \<Rightarrow> nat list" where
  \<comment> \<open>looks at the byte before the separator and the attempt\<close>
  "demo_hash [key, separator, attempt] = (if key = 50 then 1 else if key = 51 then 2 else 0) # replicate 31 0"
| "demo_hash (b # bytes) = demo_hash bytes"
| "demo_hash [] = replicate 32 0"

definition echo_ports :: "int ports" where
  "echo_ports = ack_ports\<lparr>p_submit := echo_submit, p_cancel := echo_cancel, p_sha256 := demo_hash\<rparr>"

end
