(* ===== verification/Service_Properties.thy ===== *)
theory Service_Properties
  imports Service_Demo
begin

text \<open>
  The properties of the execution service: what a history can submit, under which conditions, and
  what the answers mean. Each is evaluated at a concrete history of the demo environment.
\<close>

lemma demo_key: "oi_idempotency_key demo_intent = ''k1''"
  by (simp add: demo_intent_def)

section \<open>Submissions\<close>

text \<open>C1: In every history of a service (submissions, cancels, queries, events, batches, kill switch
  changes, restarts that replace the idempotency store, and any behaviour of exchange, risk, resolver,
  clock and audit), no client order id is ever sent to the exchange twice.\<close>

theorem submitted_at_most_once:
  assumes "svc_run P (new_service ks w) s"
  shows "distinct (map ap_client_order_id (submits (sv_calls s)))"
  using run_ok [OF assms new_service_ok] by (simp add: svc_ok_def)

theorem submitted_at_most_once_witness:
  "distinct (map ap_client_order_id (submits (sv_calls
     (svc_do lost_ports (Submit demo_intent)
       (svc_do lost_ports (New_Idempotency empty_store) (after_submit lost_ports))))))
   \<and> submits (sv_calls (after_submit lost_ports)) \<noteq> []"
proof
  have "svc_run lost_ports demo_start (svc_do lost_ports (Submit demo_intent)
      (svc_do lost_ports (New_Idempotency empty_store) (after_submit lost_ports)))"
    by (intro svc_run.more after_submit_run) simp_all
  then show "distinct (map ap_client_order_id (submits (sv_calls
     (svc_do lost_ports (Submit demo_intent)
       (svc_do lost_ports (New_Idempotency empty_store) (after_submit lost_ports))))))"
    unfolding demo_start_new by (rule submitted_at_most_once)
  show "submits (sv_calls (after_submit lost_ports)) \<noteq> []" by code_simp
qed



text \<open>While the kill switch is halted, or while the leg has an unresolved UNKNOWN order, an
  intent that does not reduce risk sends nothing to the exchange, whatever the ports answer.\<close>

theorem halted_or_unknown_blocks:
  assumes "svc_run P (new_service ks w) s" and "intent_ok i" and "\<not> intent_reduces i"
    and "ks_halted (sv_kill s) \<or> has_unresolved_unknown (sv_store s) (intent_leg_key i)"
  shows "submits (sv_calls (snd (submit P i s))) = submits (sv_calls s)"
proof (rule ccontr)
  assume "submits (sv_calls (snd (submit P i s))) \<noteq> submits (sv_calls s)"
  moreover obtain r t where rt: "submit P i s = (r, t)" by fastforce
  ultimately obtain e a u where "cleared P i s e a u"
    using submit_outcome [OF conjunct1 [OF run_ok [OF assms(1) new_service_ok]] assms(2) rt] by auto
  then have "assert_allowed (sv_kill s) False = Inr ()"
    "\<not> has_unresolved_unknown (sv_store s) (intent_leg_key i)"
    using assms(3) by (auto simp: cleared_def)
  then show False using assms(4) ksg.increase_iff by blast
qed

theorem halted_or_unknown_blocks_witness:
  "has_unresolved_unknown (sv_store (after_submit lost_ports)) (intent_leg_key demo_intent)
   \<and> submits (sv_calls (snd (submit lost_ports (demo_intent\<lparr>oi_idempotency_key := ''k2''\<rparr>)
        (after_submit lost_ports)))) = submits (sv_calls (after_submit lost_ports))"
proof
  show *: "has_unresolved_unknown (sv_store (after_submit lost_ports)) (intent_leg_key demo_intent)"
    by code_simp
  have ok: "intent_ok (demo_intent\<lparr>oi_idempotency_key := ''k2''\<rparr>)"
    by (simp add: intent_ok_def demo_intent_def reduces_risk_def) code_simp
  show "submits (sv_calls (snd (submit lost_ports (demo_intent\<lparr>oi_idempotency_key := ''k2''\<rparr>)
        (after_submit lost_ports)))) = submits (sv_calls (after_submit lost_ports))"
    by (rule halted_or_unknown_blocks [OF after_submit_run [unfolded demo_start_new] ok])
      (use * in \<open>simp_all add: intent_reduces_def intent_leg_key_def demo_intent_def reduces_risk_def\<close>)
qed

text \<open>From a halted kill switch, as long as nobody releases it with a confirmation, every order
  any sequence of operations sends reduces risk, and the switch stays halted.\<close>

theorem halted_service_only_reduces:
  assumes "svc_run P (new_service ks w) s" and "ks_halted (sv_kill s)"
    and "\<And>op. op \<in> set ops \<Longrightarrow> op_ok op"
    and "\<And>sw. Switch sw \<in> set ops \<Longrightarrow> \<not> confirmed_release sw"
  shows "ks_halted (sv_kill (fold (svc_do P) ops s)) \<and>
    (\<exists>sent. submits (sv_calls (fold (svc_do P) ops s)) = submits (sv_calls s) @ sent
      \<and> list_all (\<lambda>a. intent_reduces (ap_intent a)) sent)"
  using assms
proof (induction ops arbitrary: s)
  case Nil
  then show ?case by simp
next
  case (Cons op ops)
  have ok: "svc_ok s" using run_ok [OF Cons.prems(1) new_service_ok] by simp
  have opok: "op_ok op" using Cons.prems(3) by simp
  obtain a where step: "submits (sv_calls (svc_do P op s)) = submits (sv_calls s) @ a"
    "list_all (\<lambda>a. intent_reduces (ap_intent a)) a"
    using one_step_reduces [OF ok Cons.prems(2) opok] by blast
  have "ks_halted (sv_kill (svc_do P op s))"
    using halted_after [OF ok Cons.prems(2) opok] Cons.prems(4) by simp
  with Cons.IH [OF svc_run.more [OF Cons.prems(1) opok]] Cons.prems(3,4)
  obtain sent where "ks_halted (sv_kill (fold (svc_do P) ops (svc_do P op s)))"
    "submits (sv_calls (fold (svc_do P) ops (svc_do P op s)))
      = submits (sv_calls (svc_do P op s)) @ sent"
    "list_all (\<lambda>a. intent_reduces (ap_intent a)) sent"
    by (metis list.set_intros(2))
  with step show ?case by auto
qed


theorem halted_service_only_reduces_witness:
  "ks_halted (sv_kill (fold (svc_do ack_ports) [Submit demo_intent, Cancel demo_id]
      (svc_do ack_ports (Switch (Activate 0 ''drill'' ''op'')) demo_start)))
   \<and> ks_halted (sv_kill (svc_do ack_ports (Switch (Activate 0 ''drill'' ''op'')) demo_start))"
proof
  let ?s = "svc_do ack_ports (Switch (Activate 0 ''drill'' ''op'')) demo_start"
  show h: "ks_halted (sv_kill ?s)" by code_simp
  have run: "svc_run ack_ports demo_start ?s"
    by (intro svc_run.intros) simp
  have ok: "op_ok op" if "op \<in> set [Submit demo_intent, Cancel demo_id]" for op :: "int svc_op"
    using that by auto
  have ns: "\<not> confirmed_release sw" if "Switch sw \<in> set [Submit demo_intent, Cancel demo_id :: int svc_op]"
    for sw using that by simp
  show "ks_halted (sv_kill (fold (svc_do ack_ports) [Submit demo_intent, Cancel demo_id] ?s))"
    using halted_service_only_reduces [OF run [unfolded demo_start_new] h [unfolded demo_start_new] ok ns]
    unfolding demo_start_new by (rule conjunct1)
qed

text \<open>No operation other than a submission (resolving, cancelling, refreshing, merging events
  and snapshots, the batch forms, switching, restarting) ever sends an order, and each only moves
  stored orders forward.\<close>

theorem only_submit_sends:
  assumes "svc_run P (new_service ks w) s" and "op_ok op" and "\<not> is_submission op"
  shows "submits (sv_calls (svc_do P op s)) = submits (sv_calls s)
    \<and> store_le (sv_store s) (sv_store (svc_do P op s))"
  using do_quiet [OF conjunct1 [OF run_ok [OF assms(1) new_service_ok]] assms(2,3)] by simp

theorem only_submit_sends_witness:
  "submits (sv_calls (svc_do ack_ports (Cancel demo_id) (after_submit ack_ports)))
     = submits (sv_calls (after_submit ack_ports))
   \<and> sv_calls (svc_do ack_ports (Cancel demo_id) (after_submit ack_ports))
     = sv_calls (after_submit ack_ports) @ [CCancel demo_id]"
proof
  show "submits (sv_calls (svc_do ack_ports (Cancel demo_id) (after_submit ack_ports)))
     = submits (sv_calls (after_submit ack_ports))"
    using only_submit_sends [OF after_submit_run [unfolded demo_start_new], of "Cancel demo_id"] by simp
  show "sv_calls (svc_do ack_ports (Cancel demo_id) (after_submit ack_ports))
     = sv_calls (after_submit ack_ports) @ [CCancel demo_id]" by code_simp
qed

text \<open>C8: Along every history each stored order keeps its intent, id, approved quantity and creation
  time, its lifecycle only progresses along the state machine with a growing version, its fill never
  shrinks, and it never exceeds the approved quantity, which never exceeds the intent's quantity.\<close>

theorem stored_orders_progress:
  assumes "svc_run P (new_service ks w) s" and "svc_run P s t"
    and "dict_get (sv_store s) cid = Some e"
  shows "\<exists>e'. dict_get (sv_store t) cid = Some e' \<and> order_le e e' \<and> order_wf e'
    \<and> eo_client_order_id e' = cid
    \<and> lc_filled_quantity (eo_lifecycle e) \<le> lc_filled_quantity (eo_lifecycle e')
    \<and> lc_filled_quantity (eo_lifecycle e') \<le> eo_approved_quantity e'
    \<and> eo_approved_quantity e' \<le> oi_quantity (eo_intent e')"
proof -
  have s: "svc_ok s" using run_ok [OF assms(1) new_service_ok] by simp
  have t: "svc_ok t" "store_le (sv_store s) (sv_store t)" using run_ok [OF assms(2) s] by auto
  then obtain e' where e': "dict_get (sv_store t) cid = Some e'" "order_le e e'"
    using assms(3) by (auto simp: store_le_def)
  have "order_wf e'" "eo_client_order_id e' = cid"
    using store_inv_get [OF svc_ok_store [OF t(1)] e'(1)] by auto
  moreover have "lc_filled_quantity (eo_lifecycle e) \<le> lc_filled_quantity (eo_lifecycle e')"
    using e'(2) by (auto simp: order_le_def lc_progress_def)
  ultimately show ?thesis
    using e' by (auto simp: order_wf_def order_checks_Inr)
qed

theorem stored_orders_progress_witness:
  "\<exists>e e'. dict_get (sv_store (after_submit ack_ports)) demo_id = Some e
    \<and> dict_get (sv_store (svc_do ack_ports (Cancel demo_id) (after_submit ack_ports))) demo_id = Some e'
    \<and> order_le e e' \<and> eo_status e = ACKNOWLEDGED \<and> eo_status e' = CANCELED
    \<and> lc_filled_quantity (eo_lifecycle e') = 1"
proof -
  let ?s = "after_submit ack_ports" and ?t = "svc_do ack_ports (Cancel demo_id) (after_submit ack_ports)"
  have "map_option eo_status (dict_get (sv_store ?s) demo_id) = Some ACKNOWLEDGED" by code_simp
  then obtain e where e: "dict_get (sv_store ?s) demo_id = Some e" "eo_status e = ACKNOWLEDGED" by auto
  have "map_option (\<lambda>e. (eo_status e, lc_filled_quantity (eo_lifecycle e)))
      (dict_get (sv_store ?t) demo_id) = Some (CANCELED, 1)" by code_simp
  then obtain e' where e': "dict_get (sv_store ?t) demo_id = Some e'" "eo_status e' = CANCELED"
    "lc_filled_quantity (eo_lifecycle e') = 1" by auto
  have "svc_run ack_ports ?s ?t" by (intro svc_run.intros) simp
  from stored_orders_progress [OF after_submit_run [unfolded demo_start_new] this e(1)] e e'
  show ?thesis by auto
qed

section \<open>Replays\<close>

text \<open>A submission that returned is idempotent: submitting the same intent again returns the
  stored state of the same order, marked as a replay, and changes nothing at all (no call to any port,
  no write).\<close>

theorem submit_replay:
  assumes "svc_run P (new_service ks w) s" and "intent_ok i" and "submit P i s = (Inr res, t)"
    and "store_slot (sv_idem s) (oi_idempotency_key i) = Free"
  shows "submit P i t = (Inr \<lparr>er_order =
      some_or (dict_get (sv_store t) (eo_client_order_id (er_order res))) (er_order res),
      er_idempotent_replay = True, er_message = er_message res\<rparr>, t)"
proof -
  have se: "settled i res t"
    using submit_outcome [OF conjunct1 [OF run_ok [OF assms(1) new_service_ok]] assms(2,3)] assms(4)
    by blast
  have key: "normalize_key (oi_idempotency_key i) = Inr (oi_idempotency_key i)"
    using intent_ok_key [OF assms(2)] by (rule normalize_key_clean)
  have rv: "reserve (oi_idempotency_key i) (sv_idem t)
      = (Inr \<lparr>rv_state = COMPLETED, rv_value = Some res\<rparr>, sv_idem t)"
    using se key by (auto simp: settled_def store_slot_def reserve_def split: option.splits if_splits)
  obtain cid where cid: "intent_client_id P i = Inr cid"
    using assms(3) by (cases "intent_client_id P i") (auto simp: submit_def)
  have msg: "optional_text ValueError ''message'' 2048 (er_message res) = Inr (er_message res)"
    using se by (intro optional_text_id) (simp add: settled_def message_ok_def)
  show ?thesis
    using se by (simp add: submit_def cid py_bind_eq [of "at_idem _"] py_bind_eq [of "find_order _"]
        at_idem_eq rv settled_def result_of_def mk_execution_result_def msg)
qed

theorem submit_replay_witness:
  "\<exists>res. submit lost_ports demo_intent demo_start = (Inr res, after_submit lost_ports)
    \<and> submit lost_ports demo_intent (after_submit lost_ports) = (Inr \<lparr>er_order =
      some_or (dict_get (sv_store (after_submit lost_ports)) (eo_client_order_id (er_order res)))
        (er_order res), er_idempotent_replay = True, er_message = er_message res\<rparr>,
      after_submit lost_ports)"
proof -
  obtain r where r: "submit lost_ports demo_intent demo_start = (r, after_submit lost_ports)"
    by (metis after_submit_def prod.collapse svc_do.simps(1))
  have "(case fst (submit lost_ports demo_intent demo_start) of Inl x \<Rightarrow> False | Inr y \<Rightarrow> True)"
    by code_simp
  then obtain res where res: "r = Inr res" using r by (auto split: sum.splits)
  have "store_slot (sv_idem demo_start) (oi_idempotency_key demo_intent) = Free" by code_simp
  from submit_replay [OF svc_run.none demo_intent_ok _ this [unfolded demo_start_new]]
    r [unfolded res demo_start_new]
  show ?thesis unfolding demo_start_new [symmetric] by blast
qed

end
