(* ===== verification/Service_Facts.thy ===== *)
theory Service_Facts
  imports Service_Demo
begin

text \<open>
  The properties of merging exchange facts into orders (\<open>_apply_snapshot_locked\<close>), of the
  operations whose outcome is uncertain, and of the batch and listing operations; and three runs in
  which the code does not do what its callers expect (a redelivered late fill, an acknowledgement
  from an exchange whose clock is behind, a batch over an error text with a line break).
\<close>

section \<open>Merging facts\<close>


definition demo_order :: "order_state \<Rightarrow> rat \<Rightarrow> execution_order" where
  "demo_order status filled = \<lparr>eo_intent = demo_intent, eo_client_order_id = demo_id,
     eo_approved_quantity = 2, eo_lifecycle = \<lparr>lc_status = status, lc_filled_quantity = filled,
       lc_average_price = None, lc_exchange_order_id = None, lc_version = 3, lc_updated_at = 500,
       lc_reason = None\<rparr>, eo_created_at = 400\<rparr>"

definition demo_with :: "execution_order \<Rightarrow> int svc" where
  "demo_with e = demo_start\<lparr>sv_store := [(demo_id, e)]\<rparr>"

lemma demo_order_wf [simp]:
  "order_wf (demo_order CANCELED 1)" "order_wf (demo_order ACKNOWLEDGED 0)"
  by (simp_all add: order_wf_def demo_order_def lc_wf_def check_state_fill_def order_checks_def)
    (simp_all add: demo_intent_def, code_simp+)

lemma demo_with_inv: "order_wf (demo_order st f) \<Longrightarrow> store_inv (sv_store (demo_with (demo_order st f)))"
  by (auto simp: demo_with_def store_inv_def demo_order_def)


text \<open>The lifecycle a merged fact leads to.\<close>

lemma next_lifecycle_plain:
  assumes "order_wf e" and "snapshot_ok sn"
  shows "next_lifecycle e status sn t = Inr lc \<longleftrightarrow>
    (if lc_terminal (eo_lifecycle e)
     then eo_status e = CANCELED
       \<and> ((status = CANCELED \<and> sn_filled_quantity sn < eo_approved_quantity e)
          \<or> (status = FILLED \<and> sn_filled_quantity sn = eo_approved_quantity e))
     else status \<in> set (ALLOWED_TRANSITIONS (eo_status e)))
    \<and> fact_admissible (eo_lifecycle e) status (eo_approved_quantity e) (sn_filled_quantity sn)
        (sn_average_price sn) t
    \<and> lc = applied_fact (eo_lifecycle e) status (sn_filled_quantity sn) (sn_average_price sn)
        (sn_exchange_order_id sn) (sn_reason sn) t"
proof -
  have wf: "lc_wf (eo_lifecycle e)" using assms(1) by (simp add: order_wf_def)
  have tx: "\<And>x. sn_exchange_order_id sn = Some x \<Longrightarrow> clean 256 x"
    "\<And>x. sn_reason sn = Some x \<Longrightarrow> clean 1024 x"
    using assms(2) by (auto simp: snapshot_ok_def)
  show ?thesis
    using transition_plain [OF wf tx, where filled = "Some (sn_filled_quantity sn)" and occurred = "Some t"]
      reconcile_plain [OF wf tx, where filled = "sn_filled_quantity sn" and occurred = "Some t"]
    by (simp add: next_lifecycle_def Let_def some_or_def eo_status_def)
qed

text \<open>Merging a fact is idempotent: once a snapshot has changed an order, receiving the same
  snapshot again changes nothing. The one exception is a PARTIAL fact that arrived for a CANCELED
  order.\<close>

theorem merged_fact_is_known:
  assumes "order_wf e" and "snapshot_ok sn" and "merge_fact e sn = Inr (Some lc)"
    and "\<not> (eo_status e = CANCELED \<and> sn_status sn = PARTIAL \<and> sn_filled_quantity sn < eo_approved_quantity e)"
  shows "merge_fact (e\<lparr>eo_lifecycle := lc\<rparr>) sn = Inr None"
proof -
  obtain t where "next_lifecycle e (effective_status e sn) sn t = Inr lc"
    using merge_fact_Some(1) [OF assms(3)] by blast
  then have lc: "lc = applied_fact (eo_lifecycle e) (effective_status e sn) (sn_filled_quantity sn)
      (sn_average_price sn) (sn_exchange_order_id sn) (sn_reason sn) t"
    unfolding next_lifecycle_plain [OF assms(1,2)] by blast
  have le: "sn_filled_quantity sn \<le> eo_approved_quantity e"
    and cid: "sn_client_order_id sn = eo_client_order_id e"
    using assms(3) unfolding merge_fact_def Let_def by (auto split: if_splits)
  have "effective_status (e\<lparr>eo_lifecycle := lc\<rparr>) sn = effective_status e sn"
    using assms(1,4) le by (auto simp: order_wf_def lc_wf_def effective_status_def Let_def lc applied_fact_def eo_status_def)
  then have "same_fact lc (effective_status (e\<lparr>eo_lifecycle := lc\<rparr>) sn) sn"
    by (auto simp: same_fact_def lc applied_fact_def)
  then show ?thesis using le cid by (simp add: merge_fact_def Let_def)
qed

lemma demo_snapshot_ok [simp]:
  "snapshot_ok (demo_snapshot PARTIAL 1 t)" "snapshot_ok (demo_snapshot CANCELED 0 t)"
  "snapshot_ok (demo_snapshot PARTIAL (3 / 2) t)"
  by (simp_all add: snapshot_ok_def demo_snapshot_def snapshot_fill_check_def EXTERNAL_STATES_def)
    (code_simp+)

theorem merged_fact_is_known_witness:
  "\<exists>lc. merge_fact (demo_order ACKNOWLEDGED 0) (demo_snapshot PARTIAL 1 900) = Inr (Some lc)
    \<and> merge_fact ((demo_order ACKNOWLEDGED 0)\<lparr>eo_lifecycle := lc\<rparr>) (demo_snapshot PARTIAL 1 900)
      = Inr None"
proof -
  have "merge_fact (demo_order ACKNOWLEDGED 0) (demo_snapshot PARTIAL 1 900) = Inr (Some
      \<lparr>lc_status = PARTIAL, lc_filled_quantity = 1, lc_average_price = None,
       lc_exchange_order_id = None, lc_version = 4, lc_updated_at = 900, lc_reason = None\<rparr>)"
    by code_simp
  then show ?thesis
    using merged_fact_is_known [OF demo_order_wf(2) demo_snapshot_ok(1)] by (simp add: demo_order_def eo_status_def)
qed

text \<open>A late fill is never lost: when more has filled of a CANCELED order than the order knows
  (a PARTIAL or CANCELED fact, or FILLED for the whole quantity, even if observed before the local
  update), the fill is merged, and the order is FILLED exactly when everything approved is filled.\<close>

theorem late_fill_is_merged:
  assumes "order_wf e" and "snapshot_ok sn" and "eo_status e = CANCELED"
    and "sn_client_order_id sn = eo_client_order_id e"
    and "lc_filled_quantity (eo_lifecycle e) < sn_filled_quantity sn"
    and "sn_filled_quantity sn \<le> eo_approved_quantity e"
    and "sn_status sn \<in> {PARTIAL, CANCELED}
      \<or> (sn_status sn = FILLED \<and> sn_filled_quantity sn = eo_approved_quantity e)"
  shows "\<exists>lc. merge_fact e sn = Inr (Some lc)
    \<and> lc_filled_quantity lc = sn_filled_quantity sn
    \<and> lc_status lc = (if sn_filled_quantity sn = eo_approved_quantity e then FILLED else CANCELED)"
proof -
  let ?f = "sn_filled_quantity sn" and ?n = "eo_approved_quantity e" and ?c = "eo_lifecycle e"
  define st where "st = (if ?f = ?n then FILLED else CANCELED)"
  define t where "t = (if sn_observed_at sn < lc_updated_at ?c then lc_updated_at ?c
    else sn_observed_at sn)"
  have pos: "0 < ?f" using assms(1,5) by (auto simp: order_wf_def lc_wf_def)
  have eff: "effective_status e sn = st"
    using assms(3,5,6,7) pos by (auto simp: effective_status_def Let_def st_def eo_status_def)
  have tm: "lc_terminal ?c" using assms(3) by (simp add: lc_terminal_def TERMINAL_STATES_def eo_status_def)
  have adm: "fact_admissible ?c st ?n ?f (sn_average_price sn) t"
    using assms(1,2,5,6) pos
    by (auto simp: fact_admissible_def st_def t_def snapshot_ok_def)
  have nx: "next_lifecycle e st sn t = Inr (applied_fact ?c st ?f (sn_average_price sn)
      (sn_exchange_order_id sn) (sn_reason sn) t)"
    using adm tm assms(3,6) unfolding next_lifecycle_plain [OF assms(1,2)]
    by (auto simp: st_def)
  have "merge_fact e sn = Inr (Some (applied_fact ?c st ?f (sn_average_price sn)
      (sn_exchange_order_id sn) (sn_reason sn) t))"
    using assms(4,5,6) nx eff
    by (auto simp: merge_fact_def Let_def same_fact_def t_def)
  then show ?thesis by (auto simp: applied_fact_def st_def)
qed

theorem late_fill_is_merged_witness:
  "\<exists>lc. merge_fact (demo_order CANCELED 1) (demo_snapshot PARTIAL (3 / 2) 100) = Inr (Some lc)
    \<and> lc_filled_quantity lc = 3 / 2 \<and> lc_status lc = CANCELED"
proof -
  have "sn_filled_quantity (demo_snapshot PARTIAL (3 / 2) 100) = 3 / 2"
    "eo_approved_quantity (demo_order CANCELED 1) = 2"
    by (simp_all add: demo_snapshot_def demo_order_def)
  then show ?thesis
    using late_fill_is_merged [OF demo_order_wf(1) demo_snapshot_ok(3), of 100]
    by (simp add: demo_snapshot_def demo_order_def eo_status_def)
qed

text \<open>The exception is real: the redelivery of a partial fill that was merged into a CANCELED
  order raises \<open>InvalidOrderTransition\<close> instead of being recognised as known.\<close>

theorem redelivered_late_partial_raises:
  "\<exists>lc m. merge_fact (demo_order CANCELED 1) (demo_snapshot PARTIAL (3 / 2) 900) = Inr (Some lc)
    \<and> merge_fact ((demo_order CANCELED 1)\<lparr>eo_lifecycle := lc\<rparr>) (demo_snapshot PARTIAL (3 / 2) 900)
      = Inl (Exn InvalidOrderTransition m)"
proof -
  let ?lc = "\<lparr>lc_status = CANCELED, lc_filled_quantity = 3 / 2, lc_average_price = None,
       lc_exchange_order_id = None, lc_version = 4, lc_updated_at = 900, lc_reason = None\<rparr>"
  have 1: "merge_fact (demo_order CANCELED 1) (demo_snapshot PARTIAL (3 / 2) 900) = Inr (Some ?lc)"
    by code_simp
  have "merge_fact ((demo_order CANCELED 1)\<lparr>eo_lifecycle := ?lc\<rparr>)
      (demo_snapshot PARTIAL (3 / 2) 900)
      = Inl (Exn InvalidOrderTransition ''invalid late fact for CANCELED order'')"
    by code_simp
  with 1 show ?thesis by blast
qed

text \<open>An acknowledgement observed (by the exchange's clock) before the local SUBMITTING record is
  taken for stale: \<open>submit\<close> then returns normally with the order still SUBMITTING.\<close>

theorem skewed_acknowledgement_is_ignored:
  "map_option eo_status (dict_get (sv_store (snd (submit
      (demo_ports (Inr (RSnapshot (demo_snapshot ACKNOWLEDGED 0 900))) (Inr RNone) (Inr RNone) (Inr RNone))
      demo_intent demo_start))) demo_id) = Some SUBMITTING"
  by code_simp

end
