(* ===== verification/Service_Outcomes.thy ===== *)
theory Service_Outcomes
  imports Service_Demo
begin

text \<open>
  Uncertain outcomes, batches and listings of the execution service: a submission or a cancel whose
  outcome the exchange did not confirm leaves the order UNKNOWN and its leg blocked; a batch report
  accounts for every selected order, unless an error text is one its validation refuses; and the
  listing loop is the filtered, newest-first, truncated store.
\<close>

section \<open>Uncertain outcomes\<close>

text \<open>The resolver has nothing conclusive to say.\<close>

definition resolver_silent :: "'w ports \<Rightarrow> bool" where
  "resolver_silent P \<longleftrightarrow> (\<forall>e w. case fst (p_resolve P e w) of
     Inr (RSnapshot sn) \<Rightarrow> sn_status sn = UNKNOWN | _ \<Rightarrow> True)"

lemma recover_silent:
  assumes "resolver_silent P"
  shows "\<exists>w. recover_safely P e s = (Inr None, s\<lparr>sv_world := w\<rparr>)"
proof -
  have "case fst (p_resolve P e (sv_world s)) of
      Inr (RSnapshot sn) \<Rightarrow> sn_status sn = UNKNOWN | _ \<Rightarrow> True"
    using assms by (simp add: resolver_silent_def)
  then show ?thesis
    by (auto simp: recover_safely_def py_bind_def py_try_def at_port_eq
        split: sum.splits reply.splits)
qed

lemma unknown_allowed: "\<not> lc_terminal lc \<Longrightarrow> UNKNOWN \<in> set (ALLOWED_TRANSITIONS (lc_status lc))"
  by (cases "lc_status lc") (simp_all add: lc_terminal_def TERMINAL_STATES_def)

lemma open_order_pos: "order_wf e \<Longrightarrow> \<not> lc_terminal (eo_lifecycle e) \<Longrightarrow> 0 < eo_approved_quantity e"
  by (auto simp: order_wf_def order_checks_Inr lc_terminal_def TERMINAL_STATES_def order.strict_iff_order)

text \<open>A non-terminal order can always be marked UNKNOWN when the clock has not gone back.\<close>

lemma mark_unknown:
  assumes "store_inv (sv_store s)" and "dict_get (sv_store s) cid = Some e" and "\<not> lc_terminal (eo_lifecycle e)"
    and "lc_updated_at (eo_lifecycle e) \<le> fst (p_now P (sv_world s))" and "clean 1024 rs"
  shows "\<exists>x w. transition_order P e UNKNOWN (Some rs) s
      = (Inr x, s\<lparr>sv_store := dict_put cid x (sv_store s), sv_world := w\<rparr>)
    \<and> eo_status x = UNKNOWN \<and> order_le e x \<and> order_wf x \<and> lc_reason (eo_lifecycle x) = Some rs"
proof -
  note si = assms(1)
  have e: "eo_client_order_id e = cid" "order_wf e" using store_inv_get [OF si assms(2)] by auto
  have l: "latest_in s e = e" using assms(2) e by (simp add: latest_in_def some_or_def)
  have wf: "lc_wf (eo_lifecycle e)" using e(2) by (simp add: order_wf_def)
  define lc where "lc = applied_fact (eo_lifecycle e) UNKNOWN (lc_filled_quantity (eo_lifecycle e))
    None None (Some rs) (fst (p_now P (sv_world s)))"
  have "fact_admissible (eo_lifecycle e) UNKNOWN (eo_approved_quantity e)
      (lc_filled_quantity (eo_lifecycle e)) None (fst (p_now P (sv_world s)))"
    using open_order_pos [OF e(2) assms(3)] wf assms(4) e(2)
    by (auto simp: fact_admissible_def lc_wf_def order_wf_def order_checks_Inr)
  then have tr: "transition (fst (p_now P (sv_world s))) (eo_lifecycle e) (Inl UNKNOWN)
      (plain_fact (eo_approved_quantity e) None None None (Some rs) None) = Inr lc"
    using transition_plain [OF wf, where ex_id = None and reason = "Some rs" and filled = None
        and average = None and occurred = None] unknown_allowed [OF assms(3)] assms(5)
    by (simp add: some_or_def lc_def)
  note st = transition_is_step(1,2) [OF tr]
  note so = step_order [OF e(2) st]
  show ?thesis
    using so e(1) by (auto simp: transition_order_eq [OF si e(2)] l tr Let_def eo_status_def
        lc_def applied_fact_def)
qed

definition stays_blocked :: "string \<Rightarrow> leg \<Rightarrow> 'w svc \<Rightarrow> bool" where
  "stays_blocked cid lk t \<longleftrightarrow> has_unresolved_unknown (sv_store t) lk
     \<and> (\<exists>x. dict_get (sv_store t) cid = Some x \<and> eo_status x = UNKNOWN)"

lemma blockedI:
  assumes "store_inv (sv_store s)" and "dict_get (sv_store s) cid = Some x" and "eo_status x = UNKNOWN"
    and "sv_store t = sv_store s"
  shows "stays_blocked cid (leg_key x) t"
  using assms mst.unresolved_iff [OF assms(1)]
  by (auto simp: stays_blocked_def store_get_def)

lemma completed_store:
  "completed_with k m s = (r, t) \<Longrightarrow> m s = (r', u) \<Longrightarrow> sv_store t = sv_store u"
  by (auto simp: completed_with_def py_bind_eq at_idem_eq split: sum.splits prod.splits)

text \<open>A cancel whose outcome is uncertain (any error of the adapter but the definitive one, and
  nothing to recover) never leaves the order looking alive: it is stored as UNKNOWN and its leg is
  blocked for new risk, even when the operation itself ends with an exception.\<close>

theorem uncertain_cancel_blocks_leg:
  assumes "svc_run P (new_service ks w) s" and "dict_get (sv_store s) cid = Some e"
    and "\<not> lc_terminal (eo_lifecycle e)" and "p_cancel P cid (sv_world s) = (Inl x, w')"
    and "\<not> is_a x DefinitiveCancellationError"
    and "is_a x TimeoutError \<or> clean 1024 (''cancel_error:'' @ exn_name x)"
    and "resolver_silent P" and "lc_updated_at (eo_lifecycle e) \<le> fst (p_now P w')"
    and "cancel P cid s = (r, t)"
  shows "stays_blocked cid (leg_key e) t"
proof -
  have ok: "svc_ok s" using run_ok [OF assms(1) new_service_ok] by simp
  define rs where "rs = (if is_a x TimeoutError then ''cancel_timeout''
    else ''cancel_error:'' @ exn_name x)"
  have "clean 1024 ''cancel_timeout''" by code_simp
  then have rs: "clean 1024 rs" using assms(6) by (auto simp: rs_def)
  define s1 where "s1 = s\<lparr>sv_calls := sv_calls s @ [CCancel cid], sv_world := w'\<rparr>"
  have s1: "svc_ok s1" "dict_get (sv_store s1) cid = Some e"
    using ok assms(2) by (auto simp: s1_def svc_ok_def)
  obtain y w2 where y: "transition_order P e UNKNOWN (Some rs) s1
      = (Inr y, s1\<lparr>sv_store := dict_put cid y (sv_store s1), sv_world := w2\<rparr>)"
    "eo_status y = UNKNOWN" "order_le e y" "order_wf y"
    using mark_unknown [OF svc_ok_store [OF s1(1)] s1(2) assms(3) _ rs, of P] assms(8) by (auto simp: s1_def)
  define s2 where "s2 = s1\<lparr>sv_store := dict_put cid y (sv_store s1), sv_world := w2\<rparr>"
  obtain w3 where rec: "recover_safely P y s2 = (Inr None, s2\<lparr>sv_world := w3\<rparr>)"
    using recover_silent [OF assms(7)] by blast
  have cw: "completed_with (oi_idempotency_key (eo_intent y))
      (result_of y False (Some ''cancel UNKNOWN remains unresolved'')) (s2\<lparr>sv_world := w3\<rparr>) = (r, t)"
    using assms(2-5,9) y(1) rec
    by (simp add: cancel_def py_bind_def get_order_eq py_try_def ex_cancel_def logged_def
        py_then_def at_port_eq s1_def [symmetric] s2_def [symmetric] rs_def [symmetric] Let_def)
  have st: "sv_store t = sv_store s2"
    using completed_store [OF cw] by (simp add: result_of_def)
  have ok2: "svc_ok s2"
    using transition_order_quiet(1,2) [OF s1(1) _ y(1)] store_inv_get [OF svc_ok_store [OF s1(1)] s1(2)]
      svc_ok_quiet [OF s1(1)] by (simp add: s2_def)
  have "leg_key y = leg_key e" using y(3) by (simp add: order_le_def leg_key_def)
  then show ?thesis
    using blockedI [OF svc_ok_store [OF ok2] _ y(2) st, of cid] by (simp add: s2_def dict_get_put)
qed

definition lossy_ports :: "int ports" where
  \<comment> \<open>acknowledges, then loses every cancel\<close>
  "lossy_ports = demo_ports (Inr (RSnapshot (demo_snapshot ACKNOWLEDGED 0 1005))) (Inr RNone)
     (Inl (Exn TimeoutError ''timeout'')) (Inr RNone)"

lemma silent_demo [simp]: "resolver_silent lossy_ports" "resolver_silent lost_ports"
  by (simp_all add: resolver_silent_def lossy_ports_def lost_ports_def demo_ports_def)

lemma lossy_eqs:
  "p_cancel lossy_ports c w = (Inl (Exn TimeoutError ''timeout''), w)"
  "p_now lossy_ports w = (w, w + 1)"
  by (simp_all add: lossy_ports_def demo_ports_def)

theorem uncertain_cancel_blocks_leg_witness:
  "\<exists>e. dict_get (sv_store (after_submit lossy_ports)) demo_id = Some e
    \<and> eo_status e = ACKNOWLEDGED
    \<and> stays_blocked demo_id (leg_key e) (snd (cancel lossy_ports demo_id
        ((after_submit lossy_ports)\<lparr>sv_world := 2000\<rparr>)))"
proof -
  let ?s = "(after_submit lossy_ports)\<lparr>sv_world := 2000\<rparr>"
  have "svc_run lossy_ports demo_start (svc_do lossy_ports (Environment (\<lambda>_. 2000)) (after_submit lossy_ports))"
    by (intro svc_run.more after_submit_run) simp
  then have run: "svc_run lossy_ports demo_start ?s" by simp
  have "map_option (\<lambda>e. (eo_status e, lc_updated_at (eo_lifecycle e)))
      (dict_get (sv_store (after_submit lossy_ports)) demo_id) = Some (ACKNOWLEDGED, 1005)" by code_simp
  then obtain e where e: "dict_get (sv_store (after_submit lossy_ports)) demo_id = Some e"
    "eo_status e = ACKNOWLEDGED" "lc_updated_at (eo_lifecycle e) = 1005" by auto
  have nt: "\<not> lc_terminal (eo_lifecycle e)"
    using e(2) by (simp add: lc_terminal_def TERMINAL_STATES_def eo_status_def)
  obtain r t where rt: "cancel lossy_ports demo_id ?s = (r, t)" by fastforce
  have "stays_blocked demo_id (leg_key e) t"
    by (rule uncertain_cancel_blocks_leg [OF run [unfolded demo_start_new] _ nt lossy_eqs(1) _ _
          silent_demo(1) _ rt]) (use e in \<open>simp_all add: is_a_def lossy_eqs\<close>)
  then have "stays_blocked demo_id (leg_key e) (snd (cancel lossy_ports demo_id ?s))"
    using rt by simp
  with e show ?thesis by blast
qed





section \<open>Batches\<close>

lemma run_batch_counts:
  "run_batch call rs es orders s = (r, t) \<Longrightarrow>
    \<exists>rs' es'. r = Inr (rs', es') \<and> length rs' + length es' = length rs + length es + length orders
      \<and> (\<forall>x \<in> set es'. x \<in> set es \<or> (\<exists>e \<in> set orders. \<exists>u v c. call (eo_client_order_id e) u = (Inl c, v)
          \<and> x = eo_client_order_id e @ '':'' @ exn_text c))"
proof (induction orders arbitrary: rs es s)
  case Nil
  then show ?case by auto
next
  case (Cons e orders)
  obtain r1 u where c: "call (eo_client_order_id e) s = (r1, u)" by fastforce
  show ?case
  proof (cases r1)
    case (Inl x)
    then have "run_batch call rs (es @ [eo_client_order_id e @ '':'' @ exn_text x]) orders u = (r, t)"
      using Cons.prems c by (simp add: py_bind_def py_try_def)
    from Cons.IH [OF this] show ?thesis using c Inl by fastforce
  next
    case (Inr y)
    then have "run_batch call (rs @ [y]) es orders u = (r, t)"
      using Cons.prems c by (simp add: py_bind_def py_try_def)
    from Cons.IH [OF this] show ?thesis by fastforce
  qed
qed

text \<open>A batch accounts for every selected order: its report is complete (successes and failures
  add up to the orders attempted), and it can only fail as a whole when the error text of some
  operation is one \<open>ExecutionBatchReport\<close> refuses.\<close>

theorem batch_accounts_for_all:
  assumes "batch_of operation call selected s = (r, t)" and "clean 64 operation"
  shows "case r of Inr rep \<Rightarrow> br_complete rep \<and> br_attempted rep = int (length selected)
    | Inl x \<Rightarrow> \<exists>e \<in> set selected. \<exists>u v c. call (eo_client_order_id e) u = (Inl c, v)
        \<and> \<not> clean 2048 (strip (eo_client_order_id e @ '':'' @ exn_text c))"
proof -
  obtain q u where "run_batch call [] [] selected s = (q, u)" by fastforce
  from this run_batch_counts [OF this] obtain rs es where
    b: "run_batch call [] [] selected s = (Inr (rs, es), u)"
    and len: "length rs + length es = length selected"
    and es: "\<forall>x \<in> set es. \<exists>e \<in> set selected. \<exists>u v c. call (eo_client_order_id e) u = (Inl c, v)
          \<and> x = eo_client_order_id e @ '':'' @ exn_text c" by auto
  have r: "r = mk_batch_report operation (int (length selected)) rs es"
    using assms(1) b by (simp add: batch_of_def py_bind_def)
  show ?thesis
  proof (cases "batch_errors es")
    case (Inl x)
    obtain y where "y \<in> set es" "\<not> clean 2048 (strip y)" using batch_errors_Inl [OF Inl] by blast
    moreover have "r = Inl x" using r Inl assms(2) by (simp add: mk_batch_report_def required_text_id)
    ultimately show ?thesis using es by fastforce
  next
    case (Inr es')
    with batch_errors_length [OF Inr] len r assms(2) show ?thesis
      by (auto simp: mk_batch_report_def required_text_id br_complete_def br_succeeded_def
          br_failed_def)
  qed
qed

definition refusing_ports :: "int ports" where
  \<comment> \<open>a cancel refused with a message of two lines\<close>
  "refusing_ports = demo_ports (Inr (RSnapshot (demo_snapshot ACKNOWLEDGED 0 1005))) (Inr RNone)
     (Inl (Exn DefinitiveCancellationError (''refused'' @ [char_of (10 :: nat)] @ ''later''))) (Inr RNone)"

theorem batch_accounts_for_all_witness:
  "case fst (batch_of ''cancel'' (cancel ack_ports)
       (store_list (sv_store (after_submit ack_ports))) (after_submit ack_ports)) of
     Inr rep \<Rightarrow> br_complete rep \<and> br_attempted rep = 1 | Inl x \<Rightarrow> False"
proof -
  let ?s = "after_submit ack_ports"
  obtain r t where rt: "batch_of ''cancel'' (cancel ack_ports) (store_list (sv_store ?s)) ?s = (r, t)"
    by fastforce
  have op: "clean 64 ''cancel''" by code_simp
  have "map eo_client_order_id (store_list (sv_store ?s)) = [demo_id]" by code_simp
  then have len: "length (store_list (sv_store ?s)) = 1" by auto
  have "(case fst (batch_of ''cancel'' (cancel ack_ports) (store_list (sv_store ?s)) ?s) of
      Inr rep \<Rightarrow> True | Inl x \<Rightarrow> False)" by code_simp
  then show ?thesis using batch_accounts_for_all [OF rt op] rt len by (auto split: sum.splits)
qed

text \<open>That failure happens: one definitive cancel refusal with a line break in its message makes
  the whole \<open>cancel_orders\<close> raise \<open>ValueError\<close> instead of returning its report.\<close>

theorem multi_line_error_hides_batch:
  "fst (cancel_orders refusing_ports None None None None (after_submit refusing_ports))
     = Inl (Exn ValueError ''batch error is invalid'')"
  by code_simp

section \<open>Listing\<close>

lemma list_orders_eq:
  "normalize_filter f = Inr q \<Longrightarrow>
    list_orders f s = (Inr (select_loop q [] (rev (store_list (sv_store s)))), s)"
  "normalize_filter f = Inl x \<Longrightarrow> list_orders f s = (Inl x, s)"
  unfolding list_orders_def by (simp_all only: py_bind_of_Inr py_bind_of_Inl py_get_eq)

lemma list_orders_cases:
  assumes "list_orders f s = (Inr found, t)"
  shows "\<exists>q. normalize_filter f = Inr q
    \<and> found = select_loop q [] (rev (store_list (sv_store s))) \<and> t = s"
proof (cases "normalize_filter f")
  case (Inl x)
  from list_orders_eq(2) [OF this, of s] assms show ?thesis
    by (metis Pair_inject sum.distinct(1))
next
  case (Inr q)
  from list_orders_eq(1) [OF this, of s] assms have
    "(Inr found :: execution_order list res, t)
      = (Inr (select_loop q [] (rev (store_list (sv_store s)))), s)"
    by (rule trans [OF sym, rotated])
  then show ?thesis using Inr by (metis Pair_inject sum.inject(2))
qed

lemma select_loop_filter:
  "select_loop q acc os = acc @ (let hits = filter (selects q) os in
     case qu_limit q of None \<Rightarrow> hits
     | Some n \<Rightarrow> take (if hits = [] then 0 else max 1 (nat n - length acc)) hits)"
proof (induction q acc os rule: select_loop.induct)
  case (1 q acc)
  then show ?case by (simp split: option.splits)
next
  case (2 q acc e os)
  show ?case
  proof (cases "selects q e")
    case False
    then show ?thesis using 2 by (simp add: Let_def)
  next
    case True
    show ?thesis
    proof (cases "qu_limit q")
      case None
      then show ?thesis using True 2 by (simp add: Let_def)
    next
      case (Some n)
      show ?thesis
      proof (cases "int (length acc) + 1 \<ge> n")
        case stop: True
        then have "nat n - length acc \<le> 1" by simp
        then show ?thesis using True Some stop by (simp add: Let_def max_def)
      next
        case False
        then have "nat n - length acc = Suc (nat n - Suc (length acc))"
          "1 \<le> nat n - Suc (length acc)" by auto
        then show ?thesis using True Some False 2 by (auto simp: Let_def max_def)
      qed
    qed
  qed
qed

text \<open>The listing loop equals its specification: the stored orders that match every given
  criterion, newest first (by creation time, then client order id), truncated to the limit; the
  operation changes nothing.\<close>

theorem list_orders_spec:
  assumes "list_orders f s = (Inr found, t)"
  shows "t = s \<and> (\<exists>q. normalize_filter f = Inr q
    \<and> found = (case qu_limit q of None \<Rightarrow> id | Some n \<Rightarrow> take (nat n))
        (filter (selects q) (rev (store_list (sv_store s))))
    \<and> sorted (rev (map (\<lambda>e. (eo_created_at e, eo_client_order_id e)) found))
    \<and> set found \<subseteq> set (dict_values (sv_store s)))"
proof -
  obtain q where q: "normalize_filter f = Inr q"
    "found = select_loop q [] (rev (store_list (sv_store s)))" "t = s"
    using list_orders_cases [OF assms] by blast
  define hits where "hits = filter (selects q) (rev (store_list (sv_store s)))"
  have lim: "0 < n" if "qu_limit q = Some n" for n
    using q(1) that by (auto simp: normalize_filter_def res_splits split: option.splits)
  have f: "found = (case qu_limit q of None \<Rightarrow> id | Some n \<Rightarrow> take (nat n)) hits"
    using lim unfolding q(2) select_loop_filter hits_def [symmetric] Let_def
    by (auto split: option.splits simp: max_def)
  define k :: "execution_order \<Rightarrow> int \<times> string" where
    "k = (\<lambda>e. (eo_created_at e, eo_client_order_id e))"
  have "map k (filter (selects q) (store_list (sv_store s))) = rev (map k hits)"
    by (simp add: hits_def rev_map rev_filter)
  then have so: "sorted (rev (map k hits))"
    using sorted_filter [OF store_list_sorted [of "sv_store s", folded k_def]] by metis
  have "sorted (rev (map k found))"
  proof (cases "qu_limit q")
    case (Some n)
    then have "rev (map k found) = drop (length hits - nat n) (rev (map k hits))"
      by (simp add: f take_map [symmetric] rev_take)
    then show ?thesis using sorted_wrt_drop [OF so] by simp
  qed (use f so in simp)
  moreover have "set found \<subseteq> set hits" using f by (auto split: option.splits dest: in_set_takeD)
  ultimately show ?thesis
    using q(1,3) f unfolding hits_def k_def store_list_set [symmetric]
    by (intro conjI exI [of _ q]) auto
qed

theorem list_orders_spec_witness:
  "\<exists>found. list_orders (all_orders\<lparr>fl_include_terminal := False, fl_limit := Some 1\<rparr>)
      (after_submit ack_ports) = (Inr found, after_submit ack_ports)
    \<and> map eo_client_order_id found = [demo_id]
    \<and> sorted (rev (map (\<lambda>e. (eo_created_at e, eo_client_order_id e)) found))"
proof -
  let ?f = "all_orders\<lparr>fl_include_terminal := False, fl_limit := Some 1\<rparr>"
  obtain r t where rt: "list_orders ?f (after_submit ack_ports) = (r, t)" by fastforce
  have "map_sum (\<lambda>_. ()) (map eo_client_order_id) (fst (list_orders ?f (after_submit ack_ports)))
      = Inr [demo_id]" by code_simp
  then obtain found where r: "r = Inr found" "map eo_client_order_id found = [demo_id]"
    using rt by (cases r) auto
  show ?thesis using list_orders_spec [OF rt [unfolded r(1)]] r rt by auto
qed

end
