(* ===== verification/Unknown_Resolver.thy ===== *)
theory Unknown_Resolver
  imports Execution_Service
begin

text \<open>
  Recovery of UNKNOWN orders, \<open>freqtrade/hedge/execution/unknown_resolver.py\<close>: the user-stream
  cache, the collection of candidate facts from four sources with their error notes, the merge of the
  candidates, the aggregation of recent fills (with the decimal arithmetic of the code) and the merge
  of both. The venue's replies are ports, as in the service; the lemmas bound what a resolution can
  say about an order.
\<close>

section \<open>The user-stream cache\<close>

type_synonym stream_cache = "(string, order_snapshot) dict"

definition cache_put :: "order_snapshot \<Rightarrow> stream_cache \<Rightarrow> stream_cache" where
  "cache_put sn items = (case dict_get items (sn_client_order_id sn) of
     None \<Rightarrow> dict_put (sn_client_order_id sn) sn items
   | Some current \<Rightarrow> if sn_observed_at sn \<ge> sn_observed_at current
       then dict_put (sn_client_order_id sn) sn items else items)"

definition cache_get :: "stream_cache \<Rightarrow> string \<Rightarrow> order_snapshot option" where
  "cache_get items cid = dict_get items cid"

section \<open>Candidates\<close>

datatype resolution_source =
  DIRECT_QUERY | OPEN_ORDERS | RECENT_FILLS | USER_STREAM | MERGED | UNRESOLVED

fun source_value :: "resolution_source \<Rightarrow> string" where
  "source_value DIRECT_QUERY = ''DIRECT_QUERY''"
| "source_value OPEN_ORDERS = ''OPEN_ORDERS''"
| "source_value RECENT_FILLS = ''RECENT_FILLS''"
| "source_value USER_STREAM = ''USER_STREAM''"
| "source_value MERGED = ''MERGED''"
| "source_value UNRESOLVED = ''UNRESOLVED''"

record resolution_result =
  rr_snapshot :: "order_snapshot option"
  rr_source :: resolution_source
  rr_errors :: "string list"

type_synonym candidate = "resolution_source \<times> order_snapshot"

definition candidate_error :: "execution_order \<Rightarrow> order_snapshot \<Rightarrow> string option" where
  "candidate_error order v =
     (if sn_client_order_id v \<noteq> eo_client_order_id order then Some '':CLIENT_ORDER_ID_MISMATCH''
      else if sn_filled_quantity v > eo_approved_quantity order then Some '':FILL_EXCEEDS_APPROVED''
      else if sn_status v = FILLED \<and> sn_filled_quantity v \<noteq> eo_approved_quantity order
      then Some '':INVALID_FILLED_QUANTITY''
      else None)"

definition valid_candidate ::
    "execution_order \<Rightarrow> reply \<Rightarrow> string list \<Rightarrow> string \<Rightarrow> order_snapshot option \<times> string list"
where
  "valid_candidate order v errors source = (case v of
     RNone \<Rightarrow> (None, errors)
   | RInvalid \<Rightarrow> (None, errors @ [source @ '':INVALID_TYPE''])
   | RSnapshot sn \<Rightarrow> (case candidate_error order sn of
       Some e \<Rightarrow> (None, errors @ [source @ e]) | None \<Rightarrow> (Some sn, errors)))"

text \<open>One reply of a source that reports orders: it becomes a candidate unless invalid or UNKNOWN.\<close>

definition add_candidate :: "execution_order \<Rightarrow> resolution_source \<Rightarrow> reply \<Rightarrow>
    string list \<times> candidate list \<Rightarrow> string list \<times> candidate list" where
  "add_candidate order source v acc = (case acc of (errors, candidates) \<Rightarrow>
     case valid_candidate order v errors (source_value source) of
       (None, errors') \<Rightarrow> (errors', candidates)
     | (Some c, errors') \<Rightarrow>
         (errors', if sn_status c \<noteq> UNKNOWN then candidates @ [(source, c)] else candidates))"

section \<open>Merging candidates\<close>

fun py_max :: "('a \<Rightarrow> 'k :: linorder) \<Rightarrow> 'a list \<Rightarrow> 'a option" where
  \<comment> \<open>\<open>max(xs, key=k)\<close>: the first of the largest\<close>
  "py_max k [] = None"
| "py_max k (x # xs) = Some (foldl (\<lambda>best y. if k best < k y then y else best) x xs)"

definition snapshot_fact :: "string \<Rightarrow> order_state \<Rightarrow> rat \<Rightarrow> rat option \<Rightarrow> string option \<Rightarrow>
    string option \<Rightarrow> string option \<Rightarrow> int \<Rightarrow> order_snapshot res" where
  \<comment> \<open>\<open>ExternalOrderSnapshot(...)\<close> with the fee fields at their defaults\<close>
  "snapshot_fact cid status filled average eid tid reason observed = mk_snapshot
     \<lparr>sa_client_order_id = cid, sa_status = Inl status, sa_filled_quantity = DFin filled,
      sa_average_price = map_option DFin average, sa_exchange_order_id = eid,
      sa_exchange_trade_id = tid, sa_last_fill_fee = DFin 0, sa_fee_currency = Some ''USDT'',
      sa_reason = reason, sa_observed_at = Aware observed\<rparr>"

definition preferred :: "candidate \<Rightarrow> bool \<times> int" where
  "preferred p = (fst p = DIRECT_QUERY, sn_observed_at (snd p))"

definition best_key :: "candidate \<Rightarrow> rat \<times> bool \<times> bool \<times> int" where
  "best_key p = (sn_filled_quantity (snd p), sn_average_price (snd p) \<noteq> None,
     fst p = DIRECT_QUERY, sn_observed_at (snd p))"

definition max_filled :: "candidate list \<Rightarrow> rat" where
  "max_filled cs = (case map (sn_filled_quantity \<circ> snd) cs of [] \<Rightarrow> 0 | f # fs \<Rightarrow> foldl max f fs)"

definition merged_status :: "execution_order \<Rightarrow> candidate list \<Rightarrow> order_state" where
  "merged_status order cs = (let mf = max_filled cs in
     if mf = eo_approved_quantity order \<and> mf > 0 then FILLED
     else if list_ex (\<lambda>p. sn_status (snd p) = CANCELED) cs then CANCELED
     else if mf > 0 then PARTIAL
     else if list_ex (\<lambda>p. sn_status (snd p) = REJECTED) cs then REJECTED
     else ACKNOWLEDGED)"

definition merged_average :: "candidate list \<Rightarrow> rat option" where
  "merged_average cs = (let mf = max_filled cs in
     if mf > 0 then (case py_max preferred (filter (\<lambda>p. sn_filled_quantity (snd p) = mf
         \<and> sn_average_price (snd p) \<noteq> None) cs) of
       None \<Rightarrow> None | Some p \<Rightarrow> sn_average_price (snd p)) else None)"

definition merged_exchange_id :: "order_snapshot \<Rightarrow> candidate list \<Rightarrow> string option" where
  "merged_exchange_id best cs = (case sn_exchange_order_id best of
     Some x \<Rightarrow> Some x
   | None \<Rightarrow> (case py_max preferred (filter (\<lambda>p. sn_exchange_order_id (snd p) \<noteq> None) cs) of
       None \<Rightarrow> None | Some p \<Rightarrow> sn_exchange_order_id (snd p)))"

definition merged_reasons :: "candidate list \<Rightarrow> string list" where
  "merged_reasons cs = foldl (\<lambda>acc p. case sn_reason (snd p) of
     None \<Rightarrow> acc | Some r \<Rightarrow> if r \<noteq> [] \<and> r \<notin> set acc then acc @ [r] else acc) [] cs"

definition or_text :: "string \<Rightarrow> string \<Rightarrow> string" where
  "or_text s d = (if s = [] then d else s)"

definition merge_order_candidates :: "execution_order \<Rightarrow> candidate list \<Rightarrow>
    (order_snapshot option \<times> resolution_source option) res" where
  "merge_order_candidates order candidates = (case candidates of
     [] \<Rightarrow> Inr (None, None)
   | [(source, sn)] \<Rightarrow>
       if sn_filled_quantity sn = eo_approved_quantity order \<and> sn_status sn \<in> {PARTIAL, CANCELED}
       then res_bind (snapshot_fact (sn_client_order_id sn) FILLED (sn_filled_quantity sn)
           (sn_average_price sn) (sn_exchange_order_id sn) (sn_exchange_trade_id sn) (sn_reason sn)
           (sn_observed_at sn)) (\<lambda>s. Inr (Some s, Some source))
       else Inr (Some sn, Some source)
   | p # ps \<Rightarrow> (case py_max best_key candidates of
       None \<Rightarrow> Inl (Exn ValueError ''max() arg is an empty sequence'')
     | Some best \<Rightarrow>
         res_bind (snapshot_fact (eo_client_order_id order) (merged_status order candidates)
           (max_filled candidates) (merged_average candidates)
           (merged_exchange_id (snd best) candidates) (sn_exchange_trade_id (snd best))
           (Some (or_text (joined '';'' (merged_reasons candidates)) ''merged_order_facts''))
           (foldl max (sn_observed_at (snd p)) (map (sn_observed_at \<circ> snd) ps)))
         (\<lambda>s. Inr (Some s, Some MERGED))))"

section \<open>Aggregating fills\<close>

fun matching_fills :: "execution_order \<Rightarrow> reply list \<Rightarrow> string list \<Rightarrow>
    order_snapshot list \<times> string list" where
  "matching_fills order [] errors = ([], errors)"
| "matching_fills order (v # vs) errors =
     (case valid_candidate order v errors ''RECENT_FILLS'' of (c, errors1) \<Rightarrow>
      case matching_fills order vs errors1 of (ms, errors2) \<Rightarrow>
      (case c of None \<Rightarrow> ms
       | Some sn \<Rightarrow> if sn_filled_quantity sn > 0 then sn # ms else ms, errors2))"

definition fingerprint :: "order_snapshot \<Rightarrow> string \<times> rat \<times> rat option \<times> string option \<times> int" where
  "fingerprint sn = (sn_client_order_id sn, sn_filled_quantity sn, sn_average_price sn,
     sn_exchange_order_id sn, sn_observed_at sn)"

fun unique_fills :: "string list \<Rightarrow> (string \<times> rat \<times> rat option \<times> string option \<times> int) list \<Rightarrow>
    order_snapshot list \<Rightarrow> order_snapshot list" where
  "unique_fills seen prints [] = []"
| "unique_fills seen prints (item # items) = (case sn_exchange_trade_id item of
     Some t \<Rightarrow> if t \<in> set seen then unique_fills seen prints items
       else item # unique_fills (t # seen) prints items
   | None \<Rightarrow> if fingerprint item \<in> set prints then unique_fills seen prints items
       else item # unique_fills seen (fingerprint item # prints) items)"

definition fills_average :: "order_snapshot list \<Rightarrow> rat \<Rightarrow> rat option" where
  "fills_average unique raw_total =
     (if list_all (\<lambda>i. sn_average_price i \<noteq> None) unique
      then Some (dec_div (dec_sum (map (\<lambda>i. dec_mul (sn_filled_quantity i)
        (the (sn_average_price i))) unique)) raw_total)
      else None)"

definition aggregate_fills :: "execution_order \<Rightarrow> reply list \<Rightarrow> string list \<Rightarrow>
    (order_snapshot option \<times> string list) res" where
  "aggregate_fills order values errors =
     (case matching_fills order values errors of (matching, errors') \<Rightarrow>
      let unique = unique_fills [] [] (sort_key sn_observed_at matching) in
      if unique = [] then Inr (None, errors') else
      let raw_total = dec_sum (map sn_filled_quantity unique);
          total = min raw_total (eo_approved_quantity order) in
      if total \<le> 0 then Inr (None, errors') else
      res_bind (snapshot_fact (eo_client_order_id order)
        (if total = eo_approved_quantity order then FILLED else PARTIAL) total
        (fills_average unique raw_total) (sn_exchange_order_id (last unique))
        (sn_exchange_trade_id (last unique))
        (Some (if raw_total > eo_approved_quantity order
          then ''recovered_from_recent_fills:capped_overfill'' else ''recovered_from_recent_fills''))
        (Max (set (map sn_observed_at unique)))) (\<lambda>s. Inr (Some s, errors')))"

section \<open>The resolution\<close>

definition or_opt :: "'a option \<Rightarrow> 'a option \<Rightarrow> 'a option" where
  "or_opt a b = (case a of None \<Rightarrow> b | Some x \<Rightarrow> Some x)"

definition merge_facts :: "execution_order \<Rightarrow> order_snapshot option \<Rightarrow> resolution_source option \<Rightarrow>
    order_snapshot option \<Rightarrow> (order_snapshot option \<times> resolution_source) res" where
  "merge_facts order base base_source fills = (case (base, fills) of
     (None, None) \<Rightarrow> Inr (None, UNRESOLVED)
   | (None, Some f) \<Rightarrow> Inr (Some f, RECENT_FILLS)
   | (Some b, None) \<Rightarrow> Inr (Some b, some_or base_source UNRESOLVED)
   | (Some b, Some f) \<Rightarrow>
       let filled = max (sn_filled_quantity b) (sn_filled_quantity f);
           status = (if filled = eo_approved_quantity order then FILLED
             else if filled > 0 then (if sn_status b = CANCELED then CANCELED else PARTIAL)
             else sn_status b);
           average = (if sn_filled_quantity b \<ge> sn_filled_quantity f \<and> sn_average_price b \<noteq> None
             then sn_average_price b else or_opt (sn_average_price f) (sn_average_price b));
           reasons = concat (map (\<lambda>r. case r of None \<Rightarrow> [] | Some x \<Rightarrow> if x = [] then [] else [x])
             [sn_reason b, sn_reason f])
       in res_bind (snapshot_fact (eo_client_order_id order) status filled average
           (or_opt (sn_exchange_order_id b) (sn_exchange_order_id f)) (sn_exchange_trade_id f)
           (Some (or_text (joined '';'' reasons) ''merged_recovery_fact''))
           (max (sn_observed_at b) (sn_observed_at f))) (\<lambda>s. Inr (Some s, MERGED)))"

definition conclude :: "execution_order \<Rightarrow> string list \<Rightarrow> candidate list \<Rightarrow> reply list \<Rightarrow>
    resolution_result res" where
  "conclude order errors candidates recent_fills =
     res_bind (aggregate_fills order recent_fills errors) (\<lambda>(fill_fact, errors).
     res_bind (merge_order_candidates order candidates) (\<lambda>(base, base_source).
     res_bind (merge_facts order base base_source fill_fact) (\<lambda>(resolved, source).
     Inr \<lparr>rr_snapshot = resolved, rr_source = source, rr_errors = errors\<rparr>)))"

record 'w venue =
  vn_query :: "string \<Rightarrow> ('w, reply) py"
  vn_open :: "string \<Rightarrow> string \<Rightarrow> ('w, reply list) py"
  vn_fills :: "string \<Rightarrow> string \<Rightarrow> ('w, reply list) py"
  vn_stream :: "(string \<Rightarrow> ('w, reply) py) option"

record 'w resolver =
  rs_last :: resolution_result
  rs_world :: 'w

definition new_resolver :: "'w \<Rightarrow> 'w resolver" where
  "new_resolver w = \<lparr>rs_last = \<lparr>rr_snapshot = None, rr_source = UNRESOLVED, rr_errors = []\<rparr>,
     rs_world = w\<rparr>"

definition asked :: "('w, 'a) py \<Rightarrow> ('w resolver, 'a res) py" where
  \<comment> \<open>a port call inside its \<open>try\<close>\<close>
  "asked m s = (case m (rs_world s) of (r, w) \<Rightarrow> (Inr r, s\<lparr>rs_world := w\<rparr>))"

definition after_reply :: "execution_order \<Rightarrow> resolution_source \<Rightarrow> reply res \<Rightarrow>
    string list \<times> candidate list \<Rightarrow> string list \<times> candidate list" where
  "after_reply order source out acc = (case out of
     Inl e \<Rightarrow> (fst acc @ [source_value source @ '':'' @ exn_name e], snd acc)
   | Inr v \<Rightarrow> add_candidate order source v acc)"

definition resolve :: "'w venue \<Rightarrow> execution_order \<Rightarrow> ('w resolver, order_snapshot option) py" where
  "resolve V order =
     py_bind (asked (vn_query V (eo_client_order_id order))) (\<lambda>direct.
     let acc1 = after_reply order DIRECT_QUERY direct ([], []) in
     py_bind (asked (vn_open V (oi_account_id (eo_intent order)) (oi_symbol (eo_intent order))))
       (\<lambda>open_orders.
     let acc2 = (case open_orders of
         Inl e \<Rightarrow> (fst acc1 @ [''OPEN_ORDERS:'' @ exn_name e], snd acc1)
       | Inr items \<Rightarrow> fold (add_candidate order OPEN_ORDERS) items acc1) in
     py_bind (asked (vn_fills V (oi_account_id (eo_intent order)) (oi_symbol (eo_intent order))))
       (\<lambda>fills.
     let acc3 = (case fills of
         Inl e \<Rightarrow> (fst acc2 @ [''RECENT_FILLS:'' @ exn_name e], snd acc2) | Inr _ \<Rightarrow> acc2);
         recent = (case fills of Inl _ \<Rightarrow> [] | Inr items \<Rightarrow> items) in
     py_bind (case vn_stream V of None \<Rightarrow> py_ret acc3
       | Some get \<Rightarrow> py_bind (asked (get (eo_client_order_id order))) (\<lambda>out.
           py_ret (after_reply order USER_STREAM out acc3))) (\<lambda>(errors, candidates).
     py_bind (py_of (conclude order errors candidates recent)) (\<lambda>result.
     py_bind (py_mod (\<lambda>s. s\<lparr>rs_last := result\<rparr>)) (\<lambda>_.
     py_ret (rr_snapshot result)))))))"

end
