(* ===== verification/Resolver_Properties.thy ===== *)
theory Resolver_Properties
  imports Unknown_Resolver Service_Facts
begin

text \<open>
  What a resolution can say about an order: it is never UNKNOWN, names the order, never claims more
  than was approved, calls an order FILLED exactly when everything is filled, and forgets no fill an
  accepted candidate reported; and such a fact always settles an UNKNOWN order of the service.
\<close>

section \<open>Sound facts\<close>

definition candidate_ok :: "execution_order \<Rightarrow> order_snapshot \<Rightarrow> bool" where
  "candidate_ok e sn \<longleftrightarrow> snapshot_ok sn \<and> sn_client_order_id sn = eo_client_order_id e
     \<and> sn_filled_quantity sn \<le> eo_approved_quantity e
     \<and> (sn_status sn = FILLED \<longrightarrow> sn_filled_quantity sn = eo_approved_quantity e)"

definition sound_fact :: "execution_order \<Rightarrow> order_snapshot \<Rightarrow> bool" where
  "sound_fact e sn \<longleftrightarrow> snapshot_ok sn \<and> sn_client_order_id sn = eo_client_order_id e
     \<and> sn_status sn \<noteq> UNKNOWN \<and> sn_filled_quantity sn \<le> eo_approved_quantity e
     \<and> (sn_status sn = FILLED \<longleftrightarrow> sn_filled_quantity sn = eo_approved_quantity e)"

definition reply_ok :: "reply \<Rightarrow> bool" where
  \<comment> \<open>an \<open>ExternalOrderSnapshot\<close> is one its constructor accepted\<close>
  "reply_ok v \<longleftrightarrow> (case v of RSnapshot sn \<Rightarrow> snapshot_ok sn | _ \<Rightarrow> True)"

lemma valid_candidate_ok:
  "valid_candidate e v errs src = (Some sn, errs') \<Longrightarrow> reply_ok v \<Longrightarrow> candidate_ok e sn"
  by (auto simp: valid_candidate_def candidate_error_def candidate_ok_def reply_ok_def
      split: reply.splits option.splits if_splits)

definition all_good :: "execution_order \<Rightarrow> candidate list \<Rightarrow> bool" where
  "all_good e cs \<longleftrightarrow> list_all (\<lambda>p. candidate_ok e (snd p) \<and> sn_status (snd p) \<noteq> UNKNOWN) cs"

lemma add_candidate_good:
  assumes "reply_ok v" and "all_good e (snd acc)"
  shows "all_good e (snd (add_candidate e src v acc))"
  using assms valid_candidate_ok [OF _ assms(1)]
  by (auto simp: add_candidate_def all_good_def split: prod.splits option.splits)

lemma fold_candidates_good:
  "(\<And>v. v \<in> set vs \<Longrightarrow> reply_ok v) \<Longrightarrow> all_good e (snd acc) \<Longrightarrow>
    all_good e (snd (fold (add_candidate e src) vs acc))"
proof (induction vs arbitrary: acc)
  case (Cons v vs)
  have "all_good e (snd (add_candidate e src v acc))"
    using Cons.prems by (intro add_candidate_good) simp_all
  with Cons.IH Cons.prems(1) show ?case by simp
qed simp

lemma snapshot_fact_Inr:
  assumes "snapshot_fact cid st f av eid tid rs obs = Inr sn"
  shows "snapshot_ok sn" and "sn_status sn = st" and "sn_filled_quantity sn = f"
    and "sn_client_order_id sn = strip cid"
proof -
  show "snapshot_ok sn" using assms unfolding snapshot_fact_def by (rule mk_snapshot_ok)
  show "sn_status sn = st" "sn_filled_quantity sn = f" "sn_client_order_id sn = strip cid"
    using assms unfolding snapshot_fact_def mk_snapshot_def
    by (auto simp: res_splits required_text_Inr)
qed

section \<open>The merges are sound\<close>

lemma candidate_pos: "candidate_ok e sn \<Longrightarrow> 0 \<le> sn_filled_quantity sn"
  by (simp add: candidate_ok_def snapshot_ok_def)

lemma foldl_max: "foldl max a xs = Max (set (a # xs))" for a :: "'a :: linorder"
proof -
  have "foldl max a xs = fold max xs a"
    unfolding foldl_conv_fold by (intro fold_cong) (auto simp: max.commute fun_eq_iff)
  then show ?thesis by (simp only: Max.set_eq_fold)
qed

lemma max_filled_props:
  assumes "cs \<noteq> []"
  shows "\<And>p. p \<in> set cs \<Longrightarrow> sn_filled_quantity (snd p) \<le> max_filled cs"
    and "\<exists>p \<in> set cs. max_filled cs = sn_filled_quantity (snd p)"
proof -
  have m: "max_filled cs = Max (set (map (sn_filled_quantity \<circ> snd) cs))"
    using assms by (cases cs) (simp_all add: max_filled_def foldl_max)
  show "sn_filled_quantity (snd p) \<le> max_filled cs" if "p \<in> set cs" for p
    using that unfolding m by (intro Max_ge) auto
  have "max_filled cs \<in> set (map (sn_filled_quantity \<circ> snd) cs)"
    unfolding m using assms by (intro Max_in) auto
  then show "\<exists>p \<in> set cs. max_filled cs = sn_filled_quantity (snd p)" by auto
qed

lemma clean_strip: "clean n s \<Longrightarrow> strip s = s"
  by (simp add: clean_def)

lemma id_clean: "order_wf e \<Longrightarrow> strip (eo_client_order_id e) = eo_client_order_id e"
proof (rule strip_id)
  assume "order_wf e"
  then have *: "\<And>c. c \<in> set (eo_client_order_id e) \<Longrightarrow> id_char c" "eo_client_order_id e \<noteq> []"
    by (auto simp: order_wf_def valid_id_def list_all_iff)
  have "\<not> py_space c" if "id_char c" for c
    using that by (auto simp: id_char_def is_alnum_def is_upper_ascii_def is_lower_ascii_def
        is_digit_ascii_def py_space_def Let_def)
  then show "eo_client_order_id e = [] \<or> (\<not> py_space (hd (eo_client_order_id e))
      \<and> \<not> py_space (last (eo_client_order_id e)))"
    using * by auto
qed

text \<open>The merge of the order candidates: sound, and at least as filled as each of them.\<close>

lemma candidates_sound:
  assumes "order_wf e" and "0 < eo_approved_quantity e" and "all_good e cs"
    and "merge_order_candidates e cs = Inr (b, src)"
  shows "case b of None \<Rightarrow> cs = [] | Some sn \<Rightarrow> sound_fact e sn
    \<and> (\<forall>p \<in> set cs. sn_filled_quantity (snd p) \<le> sn_filled_quantity sn)"
proof (cases cs)
  case Nil
  then show ?thesis using assms(4) by (simp add: merge_order_candidates_def)
next
  case (Cons p ps)
  show ?thesis
  proof (cases ps)
    case Nil
    obtain s0 sn where p: "p = (s0, sn)" by (cases p)
    have g: "candidate_ok e sn" "sn_status sn \<noteq> UNKNOWN"
      using assms(3) Cons Nil p by (auto simp: all_good_def)
    show ?thesis
    proof (cases "sn_filled_quantity sn = eo_approved_quantity e \<and> sn_status sn \<in> {PARTIAL, CANCELED}")
      case True
      then obtain sn' where f: "snapshot_fact (sn_client_order_id sn) FILLED (sn_filled_quantity sn)
           (sn_average_price sn) (sn_exchange_order_id sn) (sn_exchange_trade_id sn) (sn_reason sn)
           (sn_observed_at sn) = Inr sn'" "b = Some sn'"
        using assms(4) Cons Nil p by (auto simp: merge_order_candidates_def res_bind_eq_Inr)
      have "strip (sn_client_order_id sn) = sn_client_order_id sn"
        using g(1) by (auto simp: candidate_ok_def snapshot_ok_def intro: clean_strip)
      then show ?thesis
        using snapshot_fact_Inr [OF f(1)] True f(2) g(1) Cons Nil p
        by (auto simp: sound_fact_def candidate_ok_def)
    next
      case False
      have "b = Some sn"
        using assms(4) False Cons Nil p by (auto simp: merge_order_candidates_def split: if_splits)
      moreover have "sn_status sn = FILLED \<longleftrightarrow> sn_filled_quantity sn = eo_approved_quantity e"
        using g False assms(2) by (cases "sn_status sn")
          (auto simp: candidate_ok_def snapshot_ok_def snapshot_fill_check_def EXTERNAL_STATES_def
            split: if_splits)
      ultimately show ?thesis using g Cons Nil p by (simp add: sound_fact_def candidate_ok_def)
    qed
  next
    case (Cons q qs)
    have cs: "cs = p # q # qs" using \<open>cs = p # ps\<close> Cons by simp
    then have ne: "cs \<noteq> []" by simp
    note mf = max_filled_props [OF ne]
    obtain s0 sn0 where p: "p = (s0, sn0)" by (cases p)
    obtain av ex td rs obs sn where f: "snapshot_fact (eo_client_order_id e) (merged_status e cs)
        (max_filled cs) av ex td rs obs = Inr sn" "b = Some sn"
      using assms(4) unfolding merge_order_candidates_def cs p
      by (auto simp: res_bind_eq_Inr split: option.splits)
    obtain p0 where p0: "p0 \<in> set cs" "max_filled cs = sn_filled_quantity (snd p0)" using mf(2) by blast
    have le: "max_filled cs \<le> eo_approved_quantity e"
      using p0 assms(3) by (auto simp: all_good_def list_all_iff candidate_ok_def)
    have "merged_status e cs \<noteq> UNKNOWN" by (simp add: merged_status_def Let_def)
    moreover have "merged_status e cs = FILLED \<longleftrightarrow> max_filled cs = eo_approved_quantity e"
      using assms(2) by (auto simp: merged_status_def Let_def)
    ultimately show ?thesis
      using snapshot_fact_Inr [OF f(1)] f(2) id_clean [OF assms(1)] le mf(1)
      by (simp add: sound_fact_def)
  qed
qed

lemma fills_sound:
  assumes "order_wf e" and "0 < eo_approved_quantity e"
    and "aggregate_fills e vs errs = Inr (Some sn, errs')"
  shows "sound_fact e sn" and "0 < sn_filled_quantity sn"
proof -
  obtain total av ex td rs obs where f: "snapshot_fact (eo_client_order_id e)
      (if total = eo_approved_quantity e then FILLED else PARTIAL) total av ex td rs obs = Inr sn"
    "0 < total" "total \<le> eo_approved_quantity e"
    using assms(3) unfolding aggregate_fills_def
    by (auto simp: Let_def res_bind_eq_Inr not_le split: prod.splits if_splits)
  show "sound_fact e sn" "0 < sn_filled_quantity sn"
    using snapshot_fact_Inr [OF f(1)] f(2,3) id_clean [OF assms(1)] by (auto simp: sound_fact_def)
qed

lemma merge_sound:
  assumes "order_wf e" and "0 < eo_approved_quantity e"
    and "\<And>x. b = Some x \<Longrightarrow> sound_fact e x"
    and "\<And>x. fl = Some x \<Longrightarrow> sound_fact e x \<and> 0 < sn_filled_quantity x"
    and "merge_facts e b bs fl = Inr (Some sn, src)"
  shows "sound_fact e sn"
    and "\<And>x. b = Some x \<Longrightarrow> sn_filled_quantity x \<le> sn_filled_quantity sn"
    and "\<And>x. fl = Some x \<Longrightarrow> sn_filled_quantity x \<le> sn_filled_quantity sn"
proof -
  have "sound_fact e sn \<and> (\<forall>x. b = Some x \<longrightarrow> sn_filled_quantity x \<le> sn_filled_quantity sn)
    \<and> (\<forall>x. fl = Some x \<longrightarrow> sn_filled_quantity x \<le> sn_filled_quantity sn)"
  proof (cases "b = None \<or> fl = None")
    case True
    then show ?thesis using assms(3-5)
      by (auto simp: merge_facts_def split: option.splits)
  next
    case False
    then obtain x y where xy: "b = Some x" "fl = Some y" by auto
    define m where "m = max (sn_filled_quantity x) (sn_filled_quantity y)"
    obtain av ex td rs obs where f: "snapshot_fact (eo_client_order_id e)
        (if m = eo_approved_quantity e then FILLED
         else if m > 0 then (if sn_status x = CANCELED then CANCELED else PARTIAL)
         else sn_status x) m av ex td rs obs = Inr sn"
      using assms(5) unfolding xy merge_facts_def m_def
      by (auto simp: Let_def res_bind_eq_Inr)
    have "0 < m" "m \<le> eo_approved_quantity e"
      using assms(3,4) xy by (auto simp: m_def sound_fact_def)
    then show ?thesis
      using snapshot_fact_Inr [OF f] id_clean [OF assms(1)] xy
      by (auto simp: sound_fact_def m_def)
  qed
  then show "sound_fact e sn"
    "\<And>x. b = Some x \<Longrightarrow> sn_filled_quantity x \<le> sn_filled_quantity sn"
    "\<And>x. fl = Some x \<Longrightarrow> sn_filled_quantity x \<le> sn_filled_quantity sn" by auto
qed

lemma conclude_sound:
  assumes "order_wf e" and "0 < eo_approved_quantity e" and "all_good e cs"
    and "conclude e errs cs fills = Inr rr" and "rr_snapshot rr = Some sn"
  shows "sound_fact e sn" and "\<forall>p \<in> set cs. sn_filled_quantity (snd p) \<le> sn_filled_quantity sn"
proof -
  obtain ff errs1 b bs src where c: "aggregate_fills e fills errs = Inr (ff, errs1)"
    "merge_order_candidates e cs = Inr (b, bs)" "merge_facts e b bs ff = Inr (Some sn, src)"
    using assms(4,5) unfolding conclude_def by (auto simp: res_bind_eq_Inr)
  note cand = candidates_sound [OF assms(1-3) c(2)]
  have b: "sound_fact e x" if "b = Some x" for x using cand that by simp
  have ff: "sound_fact e x \<and> 0 < sn_filled_quantity x" if "ff = Some x" for x
    using fills_sound [OF assms(1,2)] c(1) that by blast
  note ms = merge_sound [OF assms(1,2) b ff c(3)]
  show "sound_fact e sn" by (rule ms(1))
  show "\<forall>p \<in> set cs. sn_filled_quantity (snd p) \<le> sn_filled_quantity sn"
  proof (cases b)
    case None
    then show ?thesis using cand by simp
  next
    case (Some x)
    then show ?thesis using cand ms(2) by (auto intro: order_trans)
  qed
qed


section \<open>Properties\<close>

text \<open>The accepted candidates of a resolution, and its fold over the replies.\<close>

lemma after_reply_good:
  "(\<And>v. out = Inr v \<Longrightarrow> reply_ok v) \<Longrightarrow> all_good e (snd acc) \<Longrightarrow>
    all_good e (snd (after_reply e src out acc))"
  by (cases out) (auto simp: after_reply_def intro: add_candidate_good)

definition venue_ok :: "'w venue \<Rightarrow> bool" where
  "venue_ok V \<longleftrightarrow> (\<forall>c w v w'. vn_query V c w = (Inr v, w') \<longrightarrow> reply_ok v)
     \<and> (\<forall>a y w vs w'. vn_open V a y w = (Inr vs, w') \<longrightarrow> list_all reply_ok vs)
     \<and> (\<forall>get c w v w'. vn_stream V = Some get \<longrightarrow> get c w = (Inr v, w') \<longrightarrow> reply_ok v)"

lemma resolve_concludes:
  assumes "venue_ok V" and "resolve V e s = (Inr (Some sn), t)"
  shows "\<exists>errs cs fills rr. all_good e cs \<and> conclude e errs cs fills = Inr rr
    \<and> rr_snapshot rr = Some sn \<and> rs_last t = rr"
proof -
  obtain direct w1 where d: "vn_query V (eo_client_order_id e) (rs_world s) = (direct, w1)" by fastforce
  define acc1 where "acc1 = after_reply e DIRECT_QUERY direct ([], [])"
  obtain op w2 where o: "vn_open V (oi_account_id (eo_intent e)) (oi_symbol (eo_intent e)) w1 = (op, w2)"
    by fastforce
  define acc2 where "acc2 = (case op of
         Inl x \<Rightarrow> (fst acc1 @ [''OPEN_ORDERS:'' @ exn_name x], snd acc1)
       | Inr items \<Rightarrow> fold (add_candidate e OPEN_ORDERS) items acc1)"
  obtain fl w3 where f: "vn_fills V (oi_account_id (eo_intent e)) (oi_symbol (eo_intent e)) w2 = (fl, w3)"
    by fastforce
  define acc3 where "acc3 = (case fl of
         Inl x \<Rightarrow> (fst acc2 @ [''RECENT_FILLS:'' @ exn_name x], snd acc2) | Inr _ \<Rightarrow> acc2)"
  define recent where "recent = (case fl of Inl _ \<Rightarrow> [] | Inr items \<Rightarrow> items)"
  have g1: "all_good e (snd acc1)"
    unfolding acc1_def using assms(1) d
    by (intro after_reply_good) (auto simp: venue_ok_def all_good_def)
  have g2: "all_good e (snd acc2)"
  proof (cases op)
    case (Inl x)
    then show ?thesis using g1 by (simp add: acc2_def)
  next
    case (Inr items)
    then have "list_all reply_ok items" using assms(1) o unfolding venue_ok_def by blast
    then show ?thesis
      using g1 fold_candidates_good [of items e acc1 OPEN_ORDERS] Inr
      by (simp add: acc2_def list_all_iff)
  qed
  have g3: "all_good e (snd acc3)" using g2 by (auto simp: acc3_def split: sum.splits)
  define s3 where "s3 = s\<lparr>rs_world := w3\<rparr>"
  have run: "py_bind (case vn_stream V of None \<Rightarrow> py_ret acc3
       | Some get \<Rightarrow> py_bind (asked (get (eo_client_order_id e))) (\<lambda>out.
           py_ret (after_reply e USER_STREAM out acc3))) (\<lambda>(errors, candidates).
     py_bind (py_of (conclude e errors candidates recent)) (\<lambda>result.
     py_bind (py_mod (\<lambda>s. s\<lparr>rs_last := result\<rparr>)) (\<lambda>_.
     py_ret (rr_snapshot result)))) s3 = (Inr (Some sn), t)"
    using assms(2) unfolding resolve_def Let_def recent_def s3_def acc3_def acc2_def acc1_def
    by (simp add: py_bind_eq [of "asked _"] asked_def d o f)
  obtain errs cs s4 where c: "all_good e cs" "py_bind (py_of (conclude e errs cs recent)) (\<lambda>result.
     py_bind (py_mod (\<lambda>s. s\<lparr>rs_last := result\<rparr>)) (\<lambda>_.
     py_ret (rr_snapshot result))) s4 = (Inr (Some sn), t)"
  proof (cases "vn_stream V")
    case None
    then show ?thesis using run g3 that [of "snd acc3" "fst acc3" s3]
      by (simp add: case_prod_beta)
  next
    case (Some get)
    obtain out w4 where "get (eo_client_order_id e) (rs_world s3) = (out, w4)" by fastforce
    moreover from this have "reply_ok v" if "out = Inr v" for v
      using assms(1) Some that unfolding venue_ok_def by blast
    then have "all_good e (snd (after_reply e USER_STREAM out acc3))"
      using g3 by (intro after_reply_good)
    ultimately show ?thesis
      using run Some that [of "snd (after_reply e USER_STREAM out acc3)"
          "fst (after_reply e USER_STREAM out acc3)" "s3\<lparr>rs_world := w4\<rparr>"]
      by (simp add: case_prod_beta py_bind_eq [of "py_bind _ _"] py_bind_eq [of "asked _"] asked_def)
  qed
  then obtain rr where "conclude e errs cs recent = Inr rr" "rr_snapshot rr = Some sn" "rs_last t = rr"
    by (cases "conclude e errs cs recent") auto
  with c(1) show ?thesis by blast
qed

text \<open>C9: Whatever the venue answers, a fact the resolver returns is about the order, is never UNKNOWN,
  never claims more than the approved quantity, and says FILLED exactly when everything is filled.\<close>

theorem resolution_is_sound:
  assumes "venue_ok V" and "order_wf e" and "0 < eo_approved_quantity e"
    and "resolve V e s = (Inr (Some sn), t)"
  shows "snapshot_ok sn \<and> sn_client_order_id sn = eo_client_order_id e
    \<and> sn_status sn \<noteq> UNKNOWN \<and> sn_filled_quantity sn \<le> eo_approved_quantity e
    \<and> (sn_status sn = FILLED \<longleftrightarrow> sn_filled_quantity sn = eo_approved_quantity e)"
  using resolve_concludes [OF assms(1,4)] conclude_sound(1) [OF assms(2,3)]
  by (auto simp: sound_fact_def)

definition demo_venue :: "reply res \<Rightarrow> reply list res \<Rightarrow> reply list res \<Rightarrow> int venue" where
  "demo_venue queried opened filled = \<lparr>vn_query = (\<lambda>c. py_of queried),
     vn_open = (\<lambda>a y. py_of opened), vn_fills = (\<lambda>a y. py_of filled), vn_stream = None\<rparr>"

definition fill_venue :: "int venue" where
  \<comment> \<open>the direct query times out, but a fill of everything is reported\<close>
  "fill_venue = demo_venue (Inl (Exn TimeoutError ''timeout'')) (Inr [])
     (Inr [RSnapshot (demo_snapshot PARTIAL 2 900)])"

lemma fill_venue_ok: "venue_ok fill_venue"
  by (auto simp: venue_ok_def fill_venue_def demo_venue_def)

lemma unknown_order_wf [simp]: "order_wf (demo_order UNKNOWN 0)" "order_wf (demo_order UNKNOWN 1)"
  by (simp_all add: order_wf_def demo_order_def lc_wf_def check_state_fill_def order_checks_def)
    (simp_all add: demo_intent_def, code_simp+)

lemma fill_venue_run:
  "\<exists>sn t. resolve fill_venue (demo_order UNKNOWN 1) (new_resolver 0) = (Inr (Some sn), t)
    \<and> sn_status sn = FILLED \<and> sn_filled_quantity sn = 2"
proof -
  have "map_sum (\<lambda>_. ()) (map_option (\<lambda>sn. (sn_status sn, sn_filled_quantity sn)))
      (fst (resolve fill_venue (demo_order UNKNOWN 1) (new_resolver 0))) = Inr (Some (FILLED, 2))"
    by code_simp
  then show ?thesis
    by (cases "resolve fill_venue (demo_order UNKNOWN 1) (new_resolver 0)";
        cases "fst (resolve fill_venue (demo_order UNKNOWN 1) (new_resolver 0))") auto
qed

theorem resolution_is_sound_witness:
  "\<exists>sn t. resolve fill_venue (demo_order UNKNOWN 1) (new_resolver 0) = (Inr (Some sn), t)
    \<and> sn_status sn = FILLED \<and> sn_filled_quantity sn = eo_approved_quantity (demo_order UNKNOWN 1)"
proof -
  obtain sn t where r: "resolve fill_venue (demo_order UNKNOWN 1) (new_resolver 0) = (Inr (Some sn), t)"
    "sn_status sn = FILLED" using fill_venue_run by blast
  have "0 < eo_approved_quantity (demo_order UNKNOWN 1)" by (simp add: demo_order_def)
  from resolution_is_sound [OF fill_venue_ok unknown_order_wf(2) this r(1)] r show ?thesis by blast
qed

text \<open>A sound fact no smaller than what is known settles an UNKNOWN order.\<close>

lemma sound_fact_settles:
  assumes "order_wf e" and "eo_status e = UNKNOWN" and "sound_fact e sn"
    and "lc_filled_quantity (eo_lifecycle e) \<le> sn_filled_quantity sn"
  shows "\<exists>lc. merge_fact e sn = Inr (Some lc) \<and> lc_status lc = sn_status sn
    \<and> lc_filled_quantity lc = sn_filled_quantity sn"
proof -
  let ?c = "eo_lifecycle e" and ?f = "sn_filled_quantity sn"
  define t where "t = (if sn_observed_at sn < lc_updated_at ?c then lc_updated_at ?c
    else sn_observed_at sn)"
  have sn: "snapshot_ok sn" "?f \<le> eo_approved_quantity e"
    "sn_client_order_id sn = eo_client_order_id e" "sn_status sn \<noteq> UNKNOWN"
    using assms(3) by (auto simp: sound_fact_def)
  have nt: "\<not> lc_terminal ?c" using assms(2) by (simp add: lc_terminal_def TERMINAL_STATES_def eo_status_def)
  have pos: "0 < eo_approved_quantity e"
    using assms(1,2) by (auto simp: order_wf_def order_checks_Inr eo_status_def order.strict_iff_order)
  have eff: "effective_status e sn = sn_status sn"
    using assms(2,3) pos by (auto simp: effective_status_def Let_def sound_fact_def eo_status_def)
  have "sn_status sn \<in> set (ALLOWED_TRANSITIONS UNKNOWN)"
    using sn(1) by (auto simp: snapshot_ok_def EXTERNAL_STATES_def)
  moreover have "fact_admissible ?c (sn_status sn) (eo_approved_quantity e) ?f (sn_average_price sn) t"
    using assms(1,3,4) pos sn
    by (cases "sn_status sn") (auto simp: fact_admissible_def sound_fact_def snapshot_ok_def
        snapshot_fill_check_def order_wf_def lc_wf_def t_def order.strict_iff_order split: if_splits)
  ultimately have "next_lifecycle e (sn_status sn) sn t = Inr (applied_fact ?c (sn_status sn) ?f
      (sn_average_price sn) (sn_exchange_order_id sn) (sn_reason sn) t)"
    using nt assms(2) unfolding next_lifecycle_plain [OF assms(1) sn(1)] by simp
  then have "merge_fact e sn = Inr (Some (applied_fact ?c (sn_status sn) ?f
      (sn_average_price sn) (sn_exchange_order_id sn) (sn_reason sn) t))"
    using sn(2-4) assms(2)
    by (auto simp: merge_fact_def Let_def eff same_fact_def t_def eo_status_def)
  then show ?thesis by (auto simp: applied_fact_def)
qed

text \<open>A resolution always settles an UNKNOWN order of the service: merged into the order it was
  asked about, any fact the resolver returns that is not behind the known fill moves the order out of
  UNKNOWN to exactly the state and fill it reports, whatever the time it was observed at.\<close>

theorem resolution_settles_unknown:
  assumes "venue_ok V" and "order_wf e" and "eo_status e = UNKNOWN"
    and "resolve V e s = (Inr (Some sn), t)"
    and "lc_filled_quantity (eo_lifecycle e) \<le> sn_filled_quantity sn"
  shows "\<exists>lc. merge_fact e sn = Inr (Some lc) \<and> lc_status lc = sn_status sn
    \<and> lc_status lc \<noteq> UNKNOWN \<and> lc_filled_quantity lc = sn_filled_quantity sn"
proof -
  have pos: "0 < eo_approved_quantity e"
    using assms(2,3) by (auto simp: order_wf_def order_checks_Inr eo_status_def order.strict_iff_order)
  have "sound_fact e sn"
    using resolve_concludes [OF assms(1,4)] conclude_sound(1) [OF assms(2) pos] by blast
  then show ?thesis using sound_fact_settles [OF assms(2,3) _ assms(5)] by (auto simp: sound_fact_def)
qed


theorem resolution_settles_unknown_witness:
  "\<exists>sn t lc. resolve fill_venue (demo_order UNKNOWN 1) (new_resolver 0) = (Inr (Some sn), t)
    \<and> merge_fact (demo_order UNKNOWN 1) sn = Inr (Some lc) \<and> lc_status lc = FILLED"
proof -
  obtain sn t where r: "resolve fill_venue (demo_order UNKNOWN 1) (new_resolver 0) = (Inr (Some sn), t)"
    "sn_status sn = FILLED" "sn_filled_quantity sn = 2" using fill_venue_run by blast
  have "eo_status (demo_order UNKNOWN 1) = UNKNOWN"
    "lc_filled_quantity (eo_lifecycle (demo_order UNKNOWN 1)) \<le> sn_filled_quantity sn"
    using r(3) by (simp_all add: demo_order_def eo_status_def)
  from resolution_settles_unknown [OF fill_venue_ok unknown_order_wf(2) this(1) r(1) this(2)] r
  show ?thesis by auto
qed

definition wordy_venue :: "int venue" where
  "wordy_venue = demo_venue
     (Inr (RSnapshot ((demo_snapshot CANCELED 0 900)\<lparr>sn_reason := Some (replicate 600 CHR ''a'')\<rparr>)))
     (Inr [RSnapshot ((demo_snapshot ACKNOWLEDGED 0 800)\<lparr>sn_reason := Some (replicate 600 CHR ''b'')\<rparr>)])
     (Inr [])"

text \<open>But the resolver can fail on valid answers: it joins the reasons of its candidates, and when
  the joined text passes 1024 characters the merged snapshot is refused and \<open>resolve\<close> raises, so
  the order stays UNKNOWN although both sources know its state.\<close>

theorem long_reasons_defeat_resolution:
  "fst (resolve wordy_venue (demo_order UNKNOWN 0) (new_resolver 0))
     = Inl (Exn ValueError ''reason is invalid'')"
  by code_simp

end
