(* ===== verification/Unknown_Supervisor.thy ===== *)
theory Unknown_Supervisor
  imports Service_Runs
begin

text \<open>
  Retry scheduling for UNKNOWN orders, \<open>freqtrade/hedge/execution/unknown_supervisor.py\<close>. The code
  releases its lock while the venue is queried, so an attempt is two atomic steps, \<open>attempt_begin\<close>
  and \<open>attempt_finish\<close>, between which other operations may run; \<open>attempt\<close> is their sequence
  around the call of the execution port. Durations are microseconds; \<open>timedelta\<close> and
  \<open>datetime\<close> arithmetic overflows as in Python. The port is the locale \<open>recovery_port\<close>; the
  execution service's \<open>resolve_unknown\<close> is its interpretation, so a supervisor never submits.
\<close>

section \<open>Records\<close>

datatype recovery_state = PENDING | QUERYING | RETRY_WAIT | RESOLVED | RECOVERY_HALTED | MANUAL_REVIEW

record recovery_record =
  ur_client_order_id :: string
  ur_state :: recovery_state
  ur_first_unknown_at :: int
  ur_last_attempt_at :: "int option"
  ur_next_retry_at :: "int option"
  ur_attempts :: int
  ur_last_message :: "string option"
  ur_resolved_state :: "order_state option"

record supervisor_config =
  sc_initial_backoff :: int
  sc_maximum_backoff :: int
  sc_maximum_attempts :: int
  sc_recovery_deadline :: int

definition mk_supervisor :: "supervisor_config \<Rightarrow> supervisor_config res" where
  "mk_supervisor c =
     (if sc_initial_backoff c \<le> 0 then Inl (Exn ValueError ''initial_backoff must be positive'')
      else if sc_maximum_backoff c < sc_initial_backoff c
      then Inl (Exn ValueError ''maximum_backoff cannot be below initial_backoff'')
      else if sc_maximum_attempts c \<le> 0
      then Inl (Exn ValueError ''maximum_attempts must be positive'')
      else if sc_recovery_deadline c \<le> 0
      then Inl (Exn ValueError ''recovery_deadline must be positive'') else Inr c)"

definition default_supervisor :: supervisor_config where
  "default_supervisor = \<lparr>sc_initial_backoff = 2 * 1000000, sc_maximum_backoff = 120 * 1000000,
     sc_maximum_attempts = 12, sc_recovery_deadline = 900 * 1000000\<rparr>"

type_synonym recovery_records = "(string, recovery_record) dict"

section \<open>Operations\<close>

definition closed_states :: "recovery_state list" where
  "closed_states = [RESOLVED, RECOVERY_HALTED, MANUAL_REVIEW]"

definition expired :: "supervisor_config \<Rightarrow> recovery_record \<Rightarrow> int \<Rightarrow> bool" where
  "expired c r now = (ur_attempts r \<ge> sc_maximum_attempts c
     \<or> now - ur_first_unknown_at r \<ge> sc_recovery_deadline c)"

definition register :: "int \<Rightarrow> string \<Rightarrow> (recovery_records, recovery_record) py" where
  "register now cid records = (let key = strip cid in
     if key = [] then (Inl (Exn ValueError ''client_order_id is required''), records) else
     case dict_get records key of
       Some current \<Rightarrow> if ur_state current \<notin> set closed_states then (Inr current, records)
         else let r = \<lparr>ur_client_order_id = key, ur_state = PENDING, ur_first_unknown_at = now,
             ur_last_attempt_at = None, ur_next_retry_at = Some now, ur_attempts = 0,
             ur_last_message = Some [], ur_resolved_state = None\<rparr>
           in (Inr r, dict_put key r records)
     | None \<Rightarrow> let r = \<lparr>ur_client_order_id = key, ur_state = PENDING, ur_first_unknown_at = now,
             ur_last_attempt_at = None, ur_next_retry_at = Some now, ur_attempts = 0,
             ur_last_message = Some [], ur_resolved_state = None\<rparr>
           in (Inr r, dict_put key r records))"

definition restore :: "supervisor_config \<Rightarrow> int \<Rightarrow> string \<Rightarrow> datetime \<Rightarrow> int \<Rightarrow> string \<Rightarrow>
    (recovery_records, recovery_record) py" where
  "restore c now cid first_unknown_at attempts last_message records = (let key = strip cid in
     if key = [] then (Inl (Exn ValueError ''client_order_id is required''), records) else
     case aware ValueError ''first_unknown_at'' first_unknown_at of
       Inl e \<Rightarrow> (Inl e, records)
     | Inr first \<Rightarrow>
         if attempts < 0 then (Inl (Exn ValueError ''attempts must be nonnegative''), records) else
         case dict_get records key of
           Some current \<Rightarrow> (Inr current, records)
         | None \<Rightarrow>
             let r = \<lparr>ur_client_order_id = key, ur_state = PENDING, ur_first_unknown_at = first,
                   ur_last_attempt_at = None, ur_next_retry_at = Some now, ur_attempts = attempts,
                   ur_last_message = Some last_message, ur_resolved_state = None\<rparr>;
                 r' = (if expired c r now then r\<lparr>ur_state := RECOVERY_HALTED, ur_next_retry_at := None,
                   ur_last_message := Some ''RESTORED_UNKNOWN_ALREADY_EXPIRED''\<rparr> else r)
             in (Inr r', dict_put key r' records))"

definition list_records :: "recovery_records \<Rightarrow> recovery_record list" where
  "list_records records = sort_key ur_client_order_id (dict_values records)"

definition due :: "int \<Rightarrow> recovery_records \<Rightarrow> recovery_record list" where
  "due now records = filter (\<lambda>r. ur_state r \<in> {PENDING, RETRY_WAIT}
     \<and> (case ur_next_retry_at r of None \<Rightarrow> True | Some t \<Rightarrow> t \<le> now)) (dict_values records)"

text \<open>The first lock section of \<open>attempt\<close>: a record to return at once, or \<open>None\<close> when the venue
  is to be queried.\<close>

definition attempt_begin ::
    "supervisor_config \<Rightarrow> int \<Rightarrow> string \<Rightarrow> (recovery_records, recovery_record option) py" where
  "attempt_begin c now cid records = (case dict_get records cid of
     None \<Rightarrow> (Inl (Exn KeyError cid), records)
   | Some current \<Rightarrow>
       if ur_state current \<in> set closed_states then (Inr (Some current), records)
       else if (case ur_next_retry_at current of None \<Rightarrow> False | Some t \<Rightarrow> t > now)
       then (Inr (Some current), records)
       else if expired c current now
       then let halted = current\<lparr>ur_state := RECOVERY_HALTED, ur_last_attempt_at := Some now,
              ur_next_retry_at := None,
              ur_last_message := Some ''UNKNOWN_RECOVERY_DEADLINE_EXCEEDED''\<rparr>
            in (Inr (Some halted), dict_put cid halted records)
       else let querying = current\<lparr>ur_state := QUERYING, ur_attempts := ur_attempts current + 1,
              ur_last_attempt_at := Some now, ur_next_retry_at := None\<rparr>
            in (Inr None, dict_put cid querying records))"

definition or_message :: "string option \<Rightarrow> string \<Rightarrow> string option" where
  "or_message m d = (case m of None \<Rightarrow> Some d | Some s \<Rightarrow> if s = [] then Some d else Some s)"

definition backoff_delay :: "supervisor_config \<Rightarrow> int \<Rightarrow> int res" where
  \<comment> \<open>\<open>min(initial * 2 ** max(attempts - 1, 0), maximum)\<close>\<close>
  "backoff_delay c attempts =
     res_bind (timedelta_check (sc_initial_backoff c * 2 ^ nat (max (attempts - 1) 0)))
       (\<lambda>d. Inr (min d (sc_maximum_backoff c)))"

text \<open>The second lock section, given the status and message of the venue's answer.\<close>

definition attempt_finish :: "supervisor_config \<Rightarrow> int \<Rightarrow> string \<Rightarrow> order_state \<Rightarrow> string option \<Rightarrow>
    (recovery_records, recovery_record) py" where
  "attempt_finish c completed_at cid status message records = (case dict_get records cid of
     None \<Rightarrow> (Inl (Exn KeyError cid), records)
   | Some latest \<Rightarrow>
       if status \<noteq> UNKNOWN
       then let resolved = latest\<lparr>ur_state := RESOLVED, ur_next_retry_at := None,
              ur_last_message := message, ur_resolved_state := Some status\<rparr>
            in (Inr resolved, dict_put cid resolved records)
       else if expired c latest completed_at
       then let halted = latest\<lparr>ur_state := RECOVERY_HALTED, ur_next_retry_at := None,
              ur_last_message := or_message message ''UNKNOWN_RECOVERY_EXHAUSTED''\<rparr>
            in (Inr halted, dict_put cid halted records)
       else case res_bind (backoff_delay c (ur_attempts latest))
           (\<lambda>delay. datetime_add completed_at delay) of
         Inl e \<Rightarrow> (Inl e, records)
       | Inr next \<Rightarrow> let waiting = latest\<lparr>ur_state := RETRY_WAIT, ur_next_retry_at := Some next,
              ur_last_message := or_message message ''UNKNOWN_REMAINS_UNRESOLVED''\<rparr>
            in (Inr waiting, dict_put cid waiting records))"

definition mark_manual_review ::
    "string \<Rightarrow> string \<Rightarrow> (recovery_records, recovery_record) py" where
  "mark_manual_review cid reason records =
     (if strip reason = [] then (Inl (Exn ValueError ''manual review reason is required''), records)
      else case dict_get records cid of
        None \<Rightarrow> (Inl (Exn KeyError cid), records)
      | Some current \<Rightarrow> let updated = current\<lparr>ur_state := MANUAL_REVIEW, ur_next_retry_at := None,
            ur_last_message := Some (strip reason)\<rparr>
          in (Inr updated, dict_put cid updated records))"

section \<open>An attempt and a round of attempts\<close>

record 's supervisor =
  su_records :: recovery_records
  su_execution :: 's

definition at_records :: "(recovery_records, 'a) py \<Rightarrow> ('s supervisor, 'a) py" where
  "at_records m s = (case m (su_records s) of (r, d) \<Rightarrow> (r, s\<lparr>su_records := d\<rparr>))"

text \<open>The clock reads the environment; the execution port may be anything.\<close>

definition attempt :: "supervisor_config \<Rightarrow> ('s \<Rightarrow> int) \<Rightarrow> (string \<Rightarrow> ('s, execution_result) py) \<Rightarrow>
    string \<Rightarrow> ('s supervisor, recovery_record) py" where
  "attempt c clock ex cid =
     py_bind (py_get (\<lambda>s. clock (su_execution s))) (\<lambda>now.
     py_bind (at_records (attempt_begin c now cid)) (\<lambda>answered. case answered of
       Some r \<Rightarrow> py_ret r
     | None \<Rightarrow> (\<lambda>s. case ex cid (su_execution s) of (out, e) \<Rightarrow>
         let (status, message) = (case out of
               Inl x \<Rightarrow> (UNKNOWN, Some (exn_text x))
             | Inr result \<Rightarrow> (eo_status (er_order result), er_message result))
         in at_records (attempt_finish c (clock e) cid status message) (s\<lparr>su_execution := e\<rparr>))))"

fun attempt_all :: "supervisor_config \<Rightarrow> ('s \<Rightarrow> int) \<Rightarrow> (string \<Rightarrow> ('s, execution_result) py) \<Rightarrow>
    string list \<Rightarrow> ('s supervisor, recovery_record list) py" where
  "attempt_all c clock ex [] = py_ret []"
| "attempt_all c clock ex (cid # cids) =
     py_bind (attempt c clock ex cid) (\<lambda>r.
     py_bind (attempt_all c clock ex cids) (\<lambda>rs. py_ret (r # rs)))"

definition run_due :: "supervisor_config \<Rightarrow> ('s \<Rightarrow> int) \<Rightarrow> (string \<Rightarrow> ('s, execution_result) py) \<Rightarrow>
    ('s supervisor, recovery_record list) py" where
  "run_due c clock ex =
     py_bind (py_get (\<lambda>s. map ur_client_order_id (due (clock (su_execution s)) (su_records s))))
       (attempt_all c clock ex)"

section \<open>The execution port\<close>

locale recovery_port =
  fixes ok :: "'s \<Rightarrow> bool"
    and sent :: "'s \<Rightarrow> 'x"
    and ex :: "string \<Rightarrow> ('s, execution_result) py"
  assumes port_keeps: "ok s \<Longrightarrow> ex cid s = (r, t) \<Longrightarrow> ok t \<and> sent t = sent s"
begin

lemma attempt_keeps:
  assumes "ok (su_execution s)" and "attempt c clock ex cid s = (r, t)"
  shows "ok (su_execution t) \<and> sent (su_execution t) = sent (su_execution s)"
proof -
  obtain b d where b: "attempt_begin c (clock (su_execution s)) cid (su_records s) = (b, d)"
    by fastforce
  obtain out e where e: "ex cid (su_execution s) = (out, e)" by fastforce
  have "ok e \<and> sent e = sent (su_execution s)" using port_keeps [OF assms(1) e] .
  then show ?thesis
    using assms b e
    by (auto simp: attempt_def py_bind_def at_records_def Let_def case_prod_beta
        split: sum.splits option.splits)
qed

lemma attempt_all_keeps:
  "ok (su_execution s) \<Longrightarrow> attempt_all c clock ex cids s = (r, t) \<Longrightarrow>
    ok (su_execution t) \<and> sent (su_execution t) = sent (su_execution s)"
proof (induction cids arbitrary: s r)
  case (Cons cid cids)
  obtain r1 u where a: "attempt c clock ex cid s = (r1, u)" by fastforce
  note k = attempt_keeps [OF Cons.prems(1) a]
  show ?case
  proof (cases r1)
    case (Inl x)
    then show ?thesis using Cons.prems(2) a k by (simp add: py_bind_def)
  next
    case (Inr y)
    obtain r2 v where v: "attempt_all c clock ex cids u = (r2, v)" by fastforce
    then have "t = v" using Cons.prems(2) a Inr by (auto simp: py_bind_def split: sum.splits)
    moreover have "ok (su_execution u)" using k by simp
    ultimately show ?thesis using Cons.IH [of u r2] v k by simp
  qed
qed simp

lemma run_due_keeps:
  "ok (su_execution s) \<Longrightarrow> run_due c clock ex s = (r, t) \<Longrightarrow>
    ok (su_execution t) \<and> sent (su_execution t) = sent (su_execution s)"
  unfolding run_due_def by (simp add: attempt_all_keeps)

end

interpretation svp: recovery_port svc_ok "\<lambda>s. submits (sv_calls s)" "resolve_unknown P" for P
proof unfold_locales
  fix s :: "'a svc" and cid r t
  assume "svc_ok s" and "resolve_unknown P cid s = (r, t)"
  then show "svc_ok t \<and> submits (sv_calls t) = submits (sv_calls s)"
    using quiet_opD [OF resolve_quiet, of s P cid] by (simp add: quiet_def)
qed

end
