(* ===== verification/Supervisor_Properties.thy ===== *)
theory Supervisor_Properties
  imports Unknown_Supervisor Service_Demo
begin

text \<open>
  How often the venue is queried about an UNKNOWN order, that recovery without an answer ends in a
  halted record, that a supervisor never submits, and two situations the code does not handle: a
  manual review marked while a query runs, and a backoff whose exponential overflows.
\<close>

section \<open>Any interleaving of the operations\<close>

datatype sup_op =
    Sup_Register int string
  | Sup_Restore int string datetime int string
  | Sup_Begin int string
  | Sup_Finish int string order_state "string option"
  | Sup_Manual string string

fun sup_do :: "supervisor_config \<Rightarrow> sup_op \<Rightarrow> recovery_records \<Rightarrow> recovery_records" where
  "sup_do c (Sup_Register now k) d = snd (register now k d)"
| "sup_do c (Sup_Restore now k f n m) d = snd (restore c now k f n m d)"
| "sup_do c (Sup_Begin now k) d = snd (attempt_begin c now k d)"
| "sup_do c (Sup_Finish t k st m) d = snd (attempt_finish c t k st m d)"
| "sup_do c (Sup_Manual k r) d = snd (mark_manual_review k r d)"

fun starts_query :: "supervisor_config \<Rightarrow> string \<Rightarrow> sup_op \<Rightarrow> recovery_records \<Rightarrow> bool" where
  "starts_query c cid (Sup_Begin now k) d = (k = cid \<and> fst (attempt_begin c now k d) = Inr None)"
| "starts_query c cid _ d = False"

fun queries :: "supervisor_config \<Rightarrow> string \<Rightarrow> sup_op list \<Rightarrow> recovery_records \<Rightarrow> nat" where
  "queries c cid [] d = 0"
| "queries c cid (op # ops) d =
     (if starts_query c cid op d then 1 else 0) + queries c cid ops (sup_do c op d)"

fun registers :: "string \<Rightarrow> sup_op \<Rightarrow> bool" where
  "registers cid (Sup_Register now k) = (strip k = cid)"
| "registers cid _ = False"

lemma dict_get_put_other: "k \<noteq> k' \<Longrightarrow> dict_get (dict_put k v d) k' = dict_get d k'"
  by (simp add: dict_get_put)

lemma begin_effect:
  assumes "dict_get d cid = Some r"
  shows "\<exists>r'. dict_get (snd (attempt_begin c now k d)) cid = Some r'
    \<and> (if k = cid \<and> fst (attempt_begin c now k d) = Inr None
       then ur_attempts r' = ur_attempts r + 1 \<and> ur_attempts r < sc_maximum_attempts c
       else ur_attempts r' = ur_attempts r)"
  using assms by (auto simp: attempt_begin_def expired_def dict_get_put Let_def split: option.splits)

lemma other_effect:
  assumes "dict_get d cid = Some r" and "\<not> registers cid op" and "\<And>now k. op \<noteq> Sup_Begin now k"
  shows "\<exists>r'. dict_get (sup_do c op d) cid = Some r' \<and> ur_attempts r' = ur_attempts r"
proof (cases op)
  case (Sup_Register now k)
  then show ?thesis using assms
    by (auto simp: register_def Let_def dict_get_put split: option.splits)
next
  case (Sup_Restore now k f n m)
  then show ?thesis using assms
    by (auto simp: restore_def Let_def dict_get_put split: option.splits sum.splits)
next
  case (Sup_Finish t k st m)
  then show ?thesis using assms
    by (auto simp: attempt_finish_def Let_def dict_get_put split: option.splits sum.splits)
next
  case (Sup_Manual k x)
  then show ?thesis using assms
    by (auto simp: mark_manual_review_def Let_def dict_get_put split: option.splits)
qed (use assms in auto)


definition demo_records :: recovery_records where
  "demo_records = snd (register 1000 ''o1'' [])"


section \<open>Recovery ends\<close>

text \<open>One attempt whose query brings nothing.\<close>

definition cycle :: "supervisor_config \<Rightarrow> string \<Rightarrow> int \<times> int \<Rightarrow> recovery_records \<Rightarrow> recovery_records"
where
  "cycle c cid t d = (case attempt_begin c (fst t) cid d of (r, d1) \<Rightarrow>
     if r = Inr None then snd (attempt_finish c (snd t) cid UNKNOWN None d1) else d1)"

fun cycles :: "supervisor_config \<Rightarrow> string \<Rightarrow> (int \<times> int) list \<Rightarrow> recovery_records \<Rightarrow> recovery_records"
where
  "cycles c cid [] d = d"
| "cycles c cid (t # ts) d = cycles c cid ts (cycle c cid t d)"

text \<open>Every cycle starts when its order is due.\<close>

definition is_due :: "int \<Rightarrow> recovery_record \<Rightarrow> bool" where
  "is_due now r = (case ur_next_retry_at r of None \<Rightarrow> True | Some t \<Rightarrow> t \<le> now)"

fun all_due :: "supervisor_config \<Rightarrow> string \<Rightarrow> (int \<times> int) list \<Rightarrow> recovery_records \<Rightarrow> bool" where
  "all_due c cid [] d = True"
| "all_due c cid (t # ts) d =
     ((case dict_get d cid of None \<Rightarrow> False | Some r \<Rightarrow> is_due (fst t) r)
      \<and> all_due c cid ts (cycle c cid t d))"

definition no_overflow :: "supervisor_config \<Rightarrow> (int \<times> int) list \<Rightarrow> bool" where
  "no_overflow c ts \<longleftrightarrow> sc_initial_backoff c * 2 ^ nat (sc_maximum_attempts c) \<le> timedelta_max
     \<and> list_all (\<lambda>t. 0 \<le> snd t \<and> snd t + sc_maximum_backoff c \<le> datetime_max) ts"

lemma backoff_ok:
  assumes "mk_supervisor c = Inr c'" and "sc_initial_backoff c * 2 ^ nat (sc_maximum_attempts c) \<le> timedelta_max"
    and "1 \<le> n" and "n < sc_maximum_attempts c"
  shows "\<exists>delay. backoff_delay c n = Inr delay \<and> 0 < delay \<and> sc_initial_backoff c \<le> delay
    \<and> delay \<le> sc_maximum_backoff c \<and> delay = min (sc_initial_backoff c * 2 ^ nat (n - 1)) (sc_maximum_backoff c)"
proof -
  have c: "0 < sc_initial_backoff c" "sc_initial_backoff c \<le> sc_maximum_backoff c"
    using assms(1) by (auto simp: mk_supervisor_def split: if_splits)
  have "(2 :: int) ^ nat (n - 1) \<le> 2 ^ nat (sc_maximum_attempts c)"
    using assms(3,4) by (intro power_increasing) auto
  then have "sc_initial_backoff c * 2 ^ nat (n - 1) \<le> timedelta_max"
    using assms(2) c(1) by (meson mult_left_mono less_imp_le order_trans)
  moreover have "sc_initial_backoff c \<le> sc_initial_backoff c * 2 ^ nat (n - 1)"
    using c(1) by simp
  ultimately show ?thesis
    using c assms(3) by (auto simp: backoff_delay_def timedelta_check_def max_def)
qed

lemma closed_stays:
  "dict_get d cid = Some r \<Longrightarrow> ur_state r \<in> set closed_states \<Longrightarrow> dict_get (cycles c cid ts d) cid = Some r"
proof (induction ts arbitrary: d)
  case (Cons t ts)
  have "cycle c cid t d = d" using Cons.prems by (simp add: cycle_def attempt_begin_def)
  then show ?case using Cons by simp
qed simp

lemma cycle_effect:
  assumes "mk_supervisor c = Inr c'" and "no_overflow c [t]"
    and "dict_get d cid = Some r" and "ur_state r \<notin> set closed_states" and "0 \<le> ur_attempts r"
    and "is_due (fst t) r"
  shows "\<exists>r'. dict_get (cycle c cid t d) cid = Some r' \<and>
    (ur_state r' = RECOVERY_HALTED \<or>
     (ur_state r' = RETRY_WAIT \<and> ur_attempts r' = ur_attempts r + 1
      \<and> ur_attempts r' < sc_maximum_attempts c))"
proof (cases "expired c r (fst t)")
  case True
  then show ?thesis
    using assms(3,4,6) by (auto simp: cycle_def attempt_begin_def is_due_def Let_def dict_get_put
        split: option.splits)
next
  case False
  define q where "q = r\<lparr>ur_state := QUERYING, ur_attempts := ur_attempts r + 1,
    ur_last_attempt_at := Some (fst t), ur_next_retry_at := None\<rparr>"
  have b: "attempt_begin c (fst t) cid d = (Inr None, dict_put cid q d)"
    using assms(3,4,6) False by (auto simp: attempt_begin_def is_due_def Let_def q_def split: option.splits)
  have cy: "cycle c cid t d = snd (attempt_finish c (snd t) cid UNKNOWN None (dict_put cid q d))"
    by (simp add: cycle_def b)
  have g: "dict_get (dict_put cid q d) cid = Some q" by (simp add: dict_get_put)
  show ?thesis
  proof (cases "expired c q (snd t)")
    case True
    then show ?thesis by (auto simp: cy attempt_finish_def dict_get_put Let_def)
  next
    case notexp: False
    then have n: "ur_attempts r + 1 < sc_maximum_attempts c" by (simp add: expired_def q_def)
    obtain delay where dl: "backoff_delay c (ur_attempts q) = Inr delay" "0 < delay"
      "delay \<le> sc_maximum_backoff c"
      using backoff_ok [OF assms(1), of "ur_attempts q"] assms(2,5) n by (auto simp: no_overflow_def q_def)
    have "datetime_add (snd t) delay = Inr (snd t + delay)"
      using assms(2) dl(2,3) by (auto simp: datetime_add_def no_overflow_def)
    then show ?thesis using notexp dl(1) n
      by (auto simp: cy attempt_finish_def dict_get_put Let_def q_def)
  qed
qed



section \<open>The supervised service\<close>

text \<open>Supervised recovery never submits: a round of due attempts over the execution service keeps
  the service's invariant and sends no order, whatever the venue answers and however often it fails.\<close>

theorem supervised_recovery_never_submits:
  assumes "svc_run P (new_service ks w) (su_execution s)"
    and "run_due c clock (resolve_unknown P) s = (r, t)"
  shows "submits (sv_calls (su_execution t)) = submits (sv_calls (su_execution s))
    \<and> svc_ok (su_execution t)"
  using svp.run_due_keeps [OF _ assms(2)] run_ok [OF assms(1) new_service_ok] by blast

theorem supervised_recovery_never_submits_witness:
  "\<exists>r t. run_due default_supervisor sv_world (resolve_unknown ack_ports)
      \<lparr>su_records = demo_records, su_execution = new_service (new_kill_switch True False False 0) (5000 :: int)\<rparr> = (r, t)
    \<and> submits (sv_calls (su_execution t)) = []"
proof -
  let ?s = "\<lparr>su_records = demo_records, su_execution = new_service (new_kill_switch True False False 0) (5000 :: int)\<rparr>"
  obtain r t where rt: "run_due default_supervisor sv_world (resolve_unknown ack_ports) ?s = (r, t)" by fastforce
  have "svc_run ack_ports (new_service (new_kill_switch True False False 0) 5000) (su_execution ?s)" by (simp add: svc_run.none)
  from supervised_recovery_never_submits [OF this rt] rt show ?thesis
    by (simp add: new_service_def)
qed

section \<open>What the code does not handle\<close>

text \<open>A manual review marked while the venue is queried is lost: the attempt's completion puts the
  record back into automatic retry.\<close>

theorem manual_review_is_overwritten:
  "\<exists>r. dict_get (fold (sup_do default_supervisor)
       [Sup_Begin 1000 ''o1'', Sup_Manual ''o1'' ''operator'', Sup_Finish 2000 ''o1'' UNKNOWN None]
       demo_records) ''o1'' = Some r \<and> ur_state r = RETRY_WAIT"
proof -
  have "map_option ur_state (dict_get (fold (sup_do default_supervisor)
       [Sup_Begin 1000 ''o1'', Sup_Manual ''o1'' ''operator'', Sup_Finish 2000 ''o1'' UNKNOWN None]
       demo_records) ''o1'') = Some RETRY_WAIT" by code_simp
  then show ?thesis by auto
qed

definition many_attempts :: supervisor_config where
  "many_attempts = default_supervisor\<lparr>sc_maximum_attempts := 100, sc_recovery_deadline := 86400 * 1000000\<rparr>"

definition stuck_records :: recovery_records where
  "stuck_records = [(''o1'', \<lparr>ur_client_order_id = ''o1'', ur_state = RETRY_WAIT,
     ur_first_unknown_at = 1000, ur_last_attempt_at = Some 5000, ur_next_retry_at = Some 6000,
     ur_attempts = 47, ur_last_message = None, ur_resolved_state = None\<rparr>)]"

text \<open>With a configuration of many attempts the exponential backoff leaves the range of
  \<open>timedelta\<close> although the maximum backoff is two minutes: the attempt raises and its record stays
  in QUERYING, which no later round of due attempts picks up.\<close>

theorem backoff_overflow_strands_record:
  "fst (attempt_finish many_attempts 7000 ''o1'' UNKNOWN None
      (snd (attempt_begin many_attempts 6000 ''o1'' stuck_records)))
     = Inl (Exn OverflowError ''timedelta out of range'')
   \<and> due 999999999 (snd (attempt_finish many_attempts 7000 ''o1'' UNKNOWN None
      (snd (attempt_begin many_attempts 6000 ''o1'' stuck_records)))) = []"
  by code_simp

end
