(* ===== verification/Action_Group.thy ===== *)
theory Action_Group
  imports Service_Runs
begin

text \<open>
  Grouped actions, \<open>freqtrade/hedge/execution/action_group_store.py\<close> and
  \<open>action_group.py\<close>: the in-memory repository of groups, the plan of a close-both action (both
  legs of a position, flat legs skipped) and the executor that submits the legs of a group one after
  the other and records the state of each. The submit port is an argument of the executor and a
  locale; the execution service is its interpretation. Fresh UUIDs and times are arguments.
\<close>

section \<open>The repository\<close>

datatype member_state = PLANNED | SUBMITTED | SKIPPED_ALREADY_FLAT | FAILED

record group_member =
  gm_position_side :: position_side
  gm_state :: member_state
  gm_intent_id :: "string option"
  gm_client_order_id :: "string option"
  gm_error :: "string option"

record group_record =
  gr_action_group_id :: nat
  gr_action_type :: string
  gr_account_id :: string
  gr_symbol :: string
  gr_members :: "group_member list"
  gr_created_at :: int
  gr_updated_at :: int

type_synonym groups = "(nat, group_record) dict"

definition group_member_of :: "group_record \<Rightarrow> position_side \<Rightarrow> group_member res" where
  "group_member_of g side = (case find (\<lambda>m. gm_position_side m = side) (gr_members g) of
     Some m \<Rightarrow> Inr m | None \<Rightarrow> Inl (Exn KeyError (side_value side)))"

definition group_put :: "group_record \<Rightarrow> (groups, unit) py" where
  "group_put g groups = (case dict_get groups (gr_action_group_id g) of
     Some existing \<Rightarrow> if existing \<noteq> g
       then (Inl (Exn ValueError ''action group already exists with conflicting data''), groups)
       else (Inr (), dict_put (gr_action_group_id g) g groups)
   | None \<Rightarrow> (Inr (), dict_put (gr_action_group_id g) g groups))"

definition group_get :: "groups \<Rightarrow> nat \<Rightarrow> group_record option" where
  "group_get groups gid = dict_get groups gid"

definition update_member :: "int \<Rightarrow> nat \<Rightarrow> group_member \<Rightarrow> (groups, group_record) py" where
  "update_member now gid member groups = (case dict_get groups gid of
     None \<Rightarrow> (Inl (Exn KeyError ''action_group_id''), groups)
   | Some current \<Rightarrow>
       let members = map (\<lambda>item. if gm_position_side item = gm_position_side member
             then member else item) (gr_members current)
       in if members = gr_members current
             \<and> list_all (\<lambda>item. gm_position_side item \<noteq> gm_position_side member) (gr_members current)
          then (Inl (Exn KeyError (side_value (gm_position_side member))), groups)
          else let updated = current\<lparr>gr_members := members, gr_updated_at := now\<rparr>
            in (Inr updated, dict_put gid updated groups))"

lemma update_member_missing:
  "dict_get groups gid = None \<Longrightarrow> \<exists>e. update_member now gid m groups = (Inl e, groups)"
  by (simp add: update_member_def)

lemma update_member_present:
  assumes "dict_get groups gid = Some g"
    and "\<exists>x \<in> set (gr_members g). gm_position_side x = gm_position_side m"
  shows "update_member now gid m groups =
    (let g' = g\<lparr>gr_members := map (\<lambda>x. if gm_position_side x = gm_position_side m then m else x)
         (gr_members g), gr_updated_at := now\<rparr>
     in (Inr g', dict_put gid g' groups))"
  using assms by (auto simp: update_member_def Let_def list_all_iff)

section \<open>Reports\<close>

record group_report =
  gp_action_group_id :: nat
  gp_results :: "execution_result list"
  gp_errors :: "string list"
  gp_skipped :: "string list"

definition result_status :: "execution_result \<Rightarrow> order_state" where
  "result_status r = eo_status (er_order r)"

definition accepted_states :: "order_state list" where
  "accepted_states = [ACKNOWLEDGED, PARTIAL, FILLED]"

definition fully_successful :: "group_report \<Rightarrow> bool" where
  "fully_successful p \<longleftrightarrow> (gp_results p \<noteq> [] \<or> gp_skipped p \<noteq> []) \<and> gp_errors p = []
     \<and> list_all (\<lambda>r. result_status r \<in> set accepted_states) (gp_results p)"

definition partially_successful :: "group_report \<Rightarrow> bool" where
  "partially_successful p \<longleftrightarrow>
     length (gp_skipped p) + length (filter (\<lambda>r. result_status r \<in> set accepted_states)
       (gp_results p)) > 0 \<and> \<not> fully_successful p"

definition gp_attempted :: "group_report \<Rightarrow> nat" where
  "gp_attempted p = length (gp_results p) + length (gp_errors p) + length (gp_skipped p)"

definition gp_terminal :: "group_report \<Rightarrow> bool" where
  "gp_terminal p \<longleftrightarrow> (gp_results p \<noteq> [] \<or> gp_skipped p \<noteq> []) \<and> gp_errors p = []
     \<and> list_all (\<lambda>r. lc_terminal (eo_lifecycle (er_order r))) (gp_results p)"

definition gp_filled_quantity :: "group_report \<Rightarrow> rat" where
  "gp_filled_quantity p =
     dec_sum (map (\<lambda>r. lc_filled_quantity (eo_lifecycle (er_order r))) (gp_results p))"

definition unknown_count :: "group_report \<Rightarrow> nat" where
  "unknown_count p = length (filter (\<lambda>r. result_status r = UNKNOWN) (gp_results p))"

definition rejected_count :: "group_report \<Rightarrow> nat" where
  "rejected_count p = length (filter (\<lambda>r. result_status r = REJECTED) (gp_results p))"

definition gp_outcome :: "group_report \<Rightarrow> string" where
  "gp_outcome p =
     (if gp_errors p \<noteq> [] then if partially_successful p then ''PARTIAL_FAILURE'' else ''FAILED''
      else if unknown_count p > 0 then ''UNKNOWN''
      else if rejected_count p > 0
      then if partially_successful p then ''PARTIAL_FAILURE'' else ''REJECTED''
      else if gp_terminal p then ''COMPLETED''
      else if fully_successful p then ''ACCEPTED''
      else ''IN_PROGRESS'')"

section \<open>The plan of a close-both action\<close>

definition base_key :: "string \<Rightarrow> string res" where
  "base_key v = required_text ValueError ''idempotency_key'' 250 v"

record close_both =
  cb_account_id :: string
  cb_symbol :: string
  cb_long_quantity :: dec
  cb_short_quantity :: dec
  cb_idempotency_key :: string
  cb_order_type :: order_type
  cb_long_limit_price :: "dec option"
  cb_short_limit_price :: "dec option"
  cb_action_group_id :: "nat option"

text \<open>One turn of the loop over the two sides: the member, and the intent unless the leg is flat.
  \<open>uid\<close> is the intent's fresh UUID.\<close>

definition plan_leg :: "close_both \<Rightarrow> string \<Rightarrow> nat \<Rightarrow> position_side \<Rightarrow> dec \<Rightarrow> dec option \<Rightarrow> nat \<Rightarrow>
    (group_member \<times> order_intent option) res" where
  "plan_leg a key gid side quantity price uid = (case quantity of
     DFin q \<Rightarrow>
       if q < 0
       then Inl (Exn ValueError ''close-both quantities must be finite and non-negative'')
       else if q = 0
       then Inr (\<lparr>gm_position_side = side, gm_state = SKIPPED_ALREADY_FLAT, gm_intent_id = None,
              gm_client_order_id = None, gm_error = None\<rparr>, None)
       else res_bind (mk_order_intent \<lparr>ia_account_id = cb_account_id a, ia_symbol = cb_symbol a,
              ia_position_side = Inl side, ia_action = Inl CLOSE, ia_quantity = quantity,
              ia_idempotency_key = key @ '':'' @ side_value side,
              ia_order_type = Inl (cb_order_type a), ia_limit_price = price,
              ia_reduce_only = True, ia_intent_id = uid, ia_action_group_id = Some gid,
              ia_metadata = [(''action_group_type'', VStr ''CLOSE_BOTH'')]\<rparr>)
            (\<lambda>intent. Inr (\<lparr>gm_position_side = side, gm_state = PLANNED,
              gm_intent_id = Some (uuid_str (oi_intent_id intent)), gm_client_order_id = None,
              gm_error = None\<rparr>, Some intent))
   | _ \<Rightarrow> Inl (Exn ValueError ''close-both quantities must be finite and non-negative''))"

definition build_close_both_plan :: "nat \<Rightarrow> nat \<Rightarrow> nat \<Rightarrow> int \<Rightarrow> close_both \<Rightarrow>
    (group_record \<times> order_intent list) res" where
  \<comment> \<open>the first three arguments are the results of \<open>uuid4\<close>: for the group, for the LONG and for
     the SHORT intent\<close>
  "build_close_both_plan fresh long_uid short_uid now a =
     res_bind (base_key (cb_idempotency_key a)) (\<lambda>key.
     let gid = (case cb_action_group_id a of None \<Rightarrow> fresh | Some g \<Rightarrow> g) in
     res_bind (plan_leg a key gid LONG (cb_long_quantity a) (cb_long_limit_price a) long_uid)
       (\<lambda>(m1, i1).
     res_bind (plan_leg a key gid SHORT (cb_short_quantity a) (cb_short_limit_price a) short_uid)
       (\<lambda>(m2, i2).
     Inr (\<lparr>gr_action_group_id = gid, gr_action_type = ''CLOSE_BOTH'',
            gr_account_id = cb_account_id a, gr_symbol = cb_symbol a, gr_members = [m1, m2],
            gr_created_at = now, gr_updated_at = now\<rparr>,
          List.map_filter id [i1, i2]))))"

definition build_close_both_intents :: "nat \<Rightarrow> nat \<Rightarrow> nat \<Rightarrow> int \<Rightarrow> close_both \<Rightarrow>
    (order_intent \<times> order_intent) res" where
  "build_close_both_intents fresh long_uid short_uid now a =
     res_bind (build_close_both_plan fresh long_uid short_uid now a) (\<lambda>(g, intents).
     case intents of
       [i1, i2] \<Rightarrow> Inr (i1, i2)
     | _ \<Rightarrow> Inl (Exn ValueError ''strict close-both builder requires two positive leg quantities''))"

section \<open>The executor\<close>

text \<open>The executor's environment: its optional repository and the state of the submit port. The
  clock, which stamps the members, reads the latter.\<close>

record 's group_env =
  ge_repository :: "groups option"
  ge_service :: 's

definition at_service :: "('s, 'a) py \<Rightarrow> ('s group_env, 'a) py" where
  "at_service m e = (case m (ge_service e) of (r, s) \<Rightarrow> (r, e\<lparr>ge_service := s\<rparr>))"

definition ge_update_member :: "('s \<Rightarrow> int) \<Rightarrow> nat \<Rightarrow> group_member \<Rightarrow> ('s group_env, unit) py" where
  "ge_update_member clock gid member e = (case ge_repository e of
     None \<Rightarrow> (Inr (), e)
   | Some groups \<Rightarrow> (case update_member (clock (ge_service e)) gid member groups of
       (Inl x, g) \<Rightarrow> (Inl x, e\<lparr>ge_repository := Some g\<rparr>)
     | (Inr _, g) \<Rightarrow> (Inr (), e\<lparr>ge_repository := Some g\<rparr>)))"

definition submitted_member :: "order_intent \<Rightarrow> execution_result \<Rightarrow> group_member" where
  "submitted_member i result = \<lparr>gm_position_side = oi_position_side i, gm_state = SUBMITTED,
     gm_intent_id = Some (uuid_str (oi_intent_id i)),
     gm_client_order_id = Some (eo_client_order_id (er_order result)), gm_error = None\<rparr>"

definition failed_member :: "order_intent \<Rightarrow> string \<Rightarrow> group_member" where
  "failed_member i message = \<lparr>gm_position_side = oi_position_side i, gm_state = FAILED,
     gm_intent_id = Some (uuid_str (oi_intent_id i)), gm_client_order_id = None,
     gm_error = Some message\<rparr>"

definition leg_error :: "position_side \<Rightarrow> exn \<Rightarrow> string" where
  "leg_error side x = side_value side @ '':'' @ exn_text x"

text \<open>The loop of \<open>execute\<close>. The result is appended inside the \<open>try\<close>, before the member is
  updated; the handler's own update is outside it.\<close>

fun execute_legs :: "('s \<Rightarrow> int) \<Rightarrow> (order_intent \<Rightarrow> ('s, execution_result) py) \<Rightarrow> nat \<Rightarrow>
    execution_result list \<Rightarrow> string list \<Rightarrow> order_intent list \<Rightarrow>
    ('s group_env, execution_result list \<times> string list) py" where
  "execute_legs clock sub gid results errors [] = py_ret (results, errors)"
| "execute_legs clock sub gid results errors (i # source) =
     py_bind (py_try (at_service (sub i))) (\<lambda>out.
     let results' = (case out of Inl _ \<Rightarrow> results | Inr result \<Rightarrow> results @ [result]) in
     py_bind (case out of
         Inl x \<Rightarrow> py_ret (Inl x)
       | Inr result \<Rightarrow> py_try (ge_update_member clock gid (submitted_member i result)))
     (\<lambda>outcome. case outcome of
         Inr _ \<Rightarrow> execute_legs clock sub gid results' errors source
       | Inl x \<Rightarrow> (let message = leg_error (oi_position_side i) x in
           py_bind (ge_update_member clock gid (failed_member i message)) (\<lambda>_.
           execute_legs clock sub gid results' (errors @ [message]) source))))"

definition execute_group :: "('s \<Rightarrow> int) \<Rightarrow> (order_intent \<Rightarrow> ('s, execution_result) py) \<Rightarrow>
    order_intent list \<Rightarrow> ('s group_env, group_report) py" where
  \<comment> \<open>\<open>ActionGroupExecutor.execute\<close>\<close>
  "execute_group clock sub source =
     (if source = [] then py_raise (Exn ValueError ''action group must not be empty'') else
      case remdups (map oi_action_group_id source) of
        [Some gid] \<Rightarrow>
          py_bind (execute_legs clock sub gid [] [] source) (\<lambda>(results, errors).
          py_ret \<lparr>gp_action_group_id = gid, gp_results = results, gp_errors = errors,
            gp_skipped = []\<rparr>)
      | _ \<Rightarrow> py_raise (Exn ValueError ''all intents must share a non-null action_group_id''))"

definition skipped_legs :: "group_record \<Rightarrow> string list" where
  "skipped_legs g = map (\<lambda>m. side_value (gm_position_side m) @ '':SKIPPED_ALREADY_FLAT'')
     (filter (\<lambda>m. gm_state m = SKIPPED_ALREADY_FLAT) (gr_members g))"

definition ge_put :: "group_record \<Rightarrow> ('s group_env, unit) py" where
  "ge_put g e = (case ge_repository e of
     None \<Rightarrow> (Inr (), e)
   | Some groups \<Rightarrow> (case group_put g groups of (r, d) \<Rightarrow> (r, e\<lparr>ge_repository := Some d\<rparr>)))"

definition execute_plan :: "('s \<Rightarrow> int) \<Rightarrow> (order_intent \<Rightarrow> ('s, execution_result) py) \<Rightarrow>
    group_record \<Rightarrow> order_intent list \<Rightarrow> ('s group_env, group_report) py" where
  "execute_plan clock sub g source =
     (if list_ex (\<lambda>i. oi_action_group_id i \<noteq> Some (gr_action_group_id g)) source
      then py_raise (Exn ValueError ''action group record and intents must share identity'') else
      py_bind (ge_put g) (\<lambda>_.
      if source = []
      then py_ret \<lparr>gp_action_group_id = gr_action_group_id g, gp_results = [], gp_errors = [],
        gp_skipped = skipped_legs g\<rparr>
      else py_bind (execute_group clock sub source) (\<lambda>report.
        py_ret (report\<lparr>gp_skipped := skipped_legs g\<rparr>))))"

definition execute_close_both :: "('s \<Rightarrow> int) \<Rightarrow> (order_intent \<Rightarrow> ('s, execution_result) py) \<Rightarrow>
    nat \<Rightarrow> nat \<Rightarrow> nat \<Rightarrow> dec option \<Rightarrow> close_both \<Rightarrow> ('s group_env, group_report) py" where
  "execute_close_both clock sub fresh long_uid short_uid limit_price a =
     py_bind (py_get (\<lambda>e. clock (ge_service e))) (\<lambda>now.
     py_bind (py_of (build_close_both_plan fresh long_uid short_uid now
       (a\<lparr>cb_long_limit_price := (case cb_long_limit_price a of None \<Rightarrow> limit_price | p \<Rightarrow> p),
          cb_short_limit_price := (case cb_short_limit_price a of None \<Rightarrow> limit_price | p \<Rightarrow> p)\<rparr>)))
     (\<lambda>(g, intents). execute_plan clock sub g intents))"

text \<open>\<open>refresh\<close> uses \<open>refresh_order\<close> of the service when it has one, else \<open>get_order\<close>.\<close>

definition refresh_leg :: "(string \<Rightarrow> ('s, execution_result) py) option \<Rightarrow>
    (string \<Rightarrow> ('s, execution_order) py) option \<Rightarrow> execution_result \<Rightarrow> ('s, execution_result) py" where
  "refresh_leg ref get result =
     (let cid = eo_client_order_id (er_order result) in
      case ref of
        Some refresh \<Rightarrow> refresh cid
      | None \<Rightarrow> (case get of
          Some g \<Rightarrow> py_bind (g cid) (\<lambda>latest.
            py_of (mk_execution_result latest (er_idempotent_replay result) (er_message result)))
        | None \<Rightarrow> py_raise (Exn TypeError ''service must expose refresh_order or get_order'')))"

fun refresh_legs :: "(execution_result \<Rightarrow> ('s, execution_result) py) \<Rightarrow> execution_result list \<Rightarrow>
    string list \<Rightarrow> execution_result list \<Rightarrow> ('s, execution_result list \<times> string list) py" where
  "refresh_legs leg results errors [] = py_ret (results, errors)"
| "refresh_legs leg results errors (r # rs) = py_bind (py_try (leg r)) (\<lambda>out. case out of
     Inr latest \<Rightarrow> refresh_legs leg (results @ [latest]) errors rs
   | Inl x \<Rightarrow> refresh_legs leg results
       (errors @ [leg_error (oi_position_side (eo_intent (er_order r))) x]) rs)"

definition refresh_group :: "(string \<Rightarrow> ('s, execution_result) py) option \<Rightarrow>
    (string \<Rightarrow> ('s, execution_order) py) option \<Rightarrow> group_report \<Rightarrow> ('s, group_report) py" where
  \<comment> \<open>\<open>ActionGroupExecutor.refresh\<close>\<close>
  "refresh_group ref get report =
     (if ref = None \<and> get = None
      then py_raise (Exn TypeError ''service must expose refresh_order or get_order'') else
      py_bind (refresh_legs (refresh_leg ref get) [] (gp_errors report) (gp_results report))
        (\<lambda>(results, errors). py_ret (report\<lparr>gp_results := results, gp_errors := errors\<rparr>)))"

end
