(* ===== verification/Group_Properties.thy ===== *)
theory Group_Properties
  imports Action_Group Service_Demo "HOL-Library.Sublist"
begin

text \<open>
  What grouped actions guarantee: the plan of a close-both action, that executing it over the
  execution service only closes the requested quantities, that the durable record agrees with the
  report, that a durable group runs once, and a way in which the second leg is abandoned.
\<close>

section \<open>The submit port\<close>

text \<open>The executor's contract with its port: a call for an intent sends at most that intent.\<close>

locale submit_port =
  fixes good :: "order_intent \<Rightarrow> bool"
    and ok :: "'s \<Rightarrow> bool"
    and sent :: "'s \<Rightarrow> order_intent list"
    and sub :: "order_intent \<Rightarrow> ('s, execution_result) py"
  assumes port: "ok s \<Longrightarrow> good i \<Longrightarrow> sub i s = (r, t) \<Longrightarrow>
    ok t \<and> (sent t = sent s \<or> sent t = sent s @ [i])"
begin

lemma update_service: "ge_update_member clock gid m e = (r, t) \<Longrightarrow> ge_service t = ge_service e"
  by (auto simp: ge_update_member_def split: option.splits prod.splits sum.splits)

lemma legs_send:
  "ok (ge_service e) \<Longrightarrow> list_all good source \<Longrightarrow>
    execute_legs clock sub gid results errors source e = (r, t) \<Longrightarrow>
    ok (ge_service t) \<and> (\<exists>xs. sent (ge_service t) = sent (ge_service e) @ xs \<and> subseq xs source)"
proof (induction source arbitrary: results errors e)
  case Nil
  then show ?case by simp
next
  case (Cons i source)
  obtain out s1 where s1: "sub i (ge_service e) = (out, s1)" by fastforce
  have p: "ok s1" "sent s1 = sent (ge_service e) \<or> sent s1 = sent (ge_service e) @ [i]"
    using port [OF _ _ s1] Cons.prems by auto
  obtain u rs es where u: "ge_service u = s1"
    and c: "execute_legs clock sub gid rs es source u = (r, t) \<or> t = u"
  proof (cases out)
    case (Inl x)
    obtain r1 u1 where "ge_update_member clock gid (failed_member i (leg_error (oi_position_side i) x))
        (e\<lparr>ge_service := s1\<rparr>) = (r1, u1)" by fastforce
    moreover from update_service [OF this] have "ge_service u1 = s1" by simp
    ultimately show ?thesis
      using Cons.prems(3) s1 Inl
      by (intro that [of u1 results "errors @ [leg_error (oi_position_side i) x]"])
        (auto simp: py_bind_def py_try_def at_service_def Let_def split: sum.splits)
  next
    case (Inr result)
    obtain r1 u1 where u1: "ge_update_member clock gid (submitted_member i result)
        (e\<lparr>ge_service := s1\<rparr>) = (r1, u1)" by fastforce
    from update_service [OF this] have s: "ge_service u1 = s1" by simp
    show ?thesis
    proof (cases r1)
      case (Inr y)
      then show ?thesis using Cons.prems(3) s1 \<open>out = Inr result\<close> u1 s
        by (intro that [of u1 "results @ [result]" errors])
          (auto simp: py_bind_def py_try_def at_service_def Let_def)
    next
      case (Inl x)
      obtain r2 u2 where u2: "ge_update_member clock gid
          (failed_member i (leg_error (oi_position_side i) x)) u1 = (r2, u2)" by fastforce
      then have "ge_service u2 = s1" using update_service s by metis
      then show ?thesis using Cons.prems(3) s1 \<open>out = Inr result\<close> u1 Inl u2
        by (intro that [of u2 "results @ [result]" "errors @ [leg_error (oi_position_side i) x]"])
          (auto simp: py_bind_def py_try_def at_service_def Let_def split: sum.splits)
    qed
  qed
  from c show ?case
  proof
    assume "execute_legs clock sub gid rs es source u = (r, t)"
    from Cons.IH [OF _ _ this] Cons.prems(2) p(1) u
    obtain xs where "ok (ge_service t)" "sent (ge_service t) = sent s1 @ xs" "subseq xs source"
      by auto
    then show ?thesis using p(2) by (auto intro: exI [of _ "i # xs"] exI [of _ xs])
  next
    assume "t = u"
    then show ?thesis using p u by (auto intro: exI [of _ "[i]"] exI [of _ "[]"])
  qed
qed

lemma group_sends:
  assumes "ok (ge_service e)" and "list_all good source"
    and "execute_group clock sub source e = (r, t)"
  shows "ok (ge_service t) \<and> (\<exists>xs. sent (ge_service t) = sent (ge_service e) @ xs \<and> subseq xs source)"
proof -
  consider "t = e" | gid where
    "py_bind (execute_legs clock sub gid [] [] source)
      (\<lambda>(results, errors). py_ret \<lparr>gp_action_group_id = gid, gp_results = results,
        gp_errors = errors, gp_skipped = []\<rparr>) e = (r, t)"
    using assms(3) unfolding execute_group_def
    by (simp split: if_splits list.splits option.splits)
  then show ?thesis
  proof cases
    case 1
    then show ?thesis using assms(1) by simp
  next
    case 2
    obtain r1 t1 where l: "execute_legs clock sub gid [] [] source e = (r1, t1)" by fastforce
    then have "t = t1" using 2 by (auto simp: py_bind_def split: sum.splits prod.splits)
    then show ?thesis using legs_send [OF assms(1,2) l] by simp
  qed
qed

lemma plan_sends:
  assumes "ok (ge_service e)" and "list_all good source"
    and "execute_plan clock sub g source e = (r, t)"
  shows "ok (ge_service t) \<and> (\<exists>xs. sent (ge_service t) = sent (ge_service e) @ xs \<and> subseq xs source)"
proof -
  obtain r1 u where u: "ge_put g e = (r1, u)" by fastforce
  then have s: "ge_service u = ge_service e"
    by (auto simp: ge_put_def split: option.splits prod.splits)
  obtain r2 v where v: "execute_group clock sub source u = (r2, v)" by fastforce
  have "t = e \<or> t = u \<or> t = v"
    using assms(3) u v unfolding execute_plan_def
    by (auto simp: py_bind_def split: if_splits sum.splits)
  then show ?thesis
  proof (elim disjE)
    assume "t = v"
    then show ?thesis using group_sends [OF _ assms(2) v] assms(1) s by simp
  qed (use assms(1) s in auto)
qed

end

interpretation gsp: submit_port intent_ok svc_ok "\<lambda>s. map ap_intent (submits (sv_calls s))" "submit P"
  for P
proof unfold_locales
  fix s :: "'a svc" and i r t
  assume "svc_ok s" and "intent_ok i" and "submit P i s = (r, t)"
  from submit_outcome [OF this]
  show "svc_ok t \<and> (map ap_intent (submits (sv_calls t)) = map ap_intent (submits (sv_calls s))
    \<or> map ap_intent (submits (sv_calls t)) = map ap_intent (submits (sv_calls s)) @ [i])"
    by (auto simp: cleared_def)
qed

section \<open>The plan\<close>

definition leg_quantity :: "close_both \<Rightarrow> position_side \<Rightarrow> dec" where
  "leg_quantity a side = (case side of LONG \<Rightarrow> cb_long_quantity a | SHORT \<Rightarrow> cb_short_quantity a)"

definition closes_leg :: "close_both \<Rightarrow> nat \<Rightarrow> order_intent \<Rightarrow> bool" where
  "closes_leg a gid i \<longleftrightarrow> intent_ok i \<and> oi_action i = CLOSE \<and> oi_reduce_only i
     \<and> oi_action_group_id i = Some gid \<and> DFin (oi_quantity i) = leg_quantity a (oi_position_side i)
     \<and> oi_idempotency_key i = strip (cb_idempotency_key a) @ '':'' @ side_value (oi_position_side i)"

text \<open>What the plan says about one leg.\<close>

definition leg_planned :: "close_both \<Rightarrow> nat \<Rightarrow> position_side \<Rightarrow> group_member \<Rightarrow> order_intent option \<Rightarrow> bool"
where
  "leg_planned a gid side m oi \<longleftrightarrow> gm_position_side m = side \<and>
     (case oi of
        None \<Rightarrow> leg_quantity a side = DFin 0 \<and> gm_state m = SKIPPED_ALREADY_FLAT
      | Some i \<Rightarrow> closes_leg a gid i \<and> oi_position_side i = side \<and> gm_state m = PLANNED
          \<and> gm_intent_id m = Some (uuid_str (oi_intent_id i)))"

lemma strip_keyed: "clean n key \<Longrightarrow> strip (key @ '':'' @ side_value sd) = key @ '':'' @ side_value sd"
proof (rule strip_id, rule disjI2, rule conjI)
  assume c: "clean n key"
  then have "key \<noteq> []" and "strip key = key" by (auto simp: clean_def)
  then show "\<not> py_space (hd (key @ '':'' @ side_value sd))"
    using strip_ends(1) [of key] by simp
  show "\<not> py_space (last (key @ '':'' @ side_value sd))"
    by (cases sd) (simp_all add: py_space_def)
qed

lemma plan_leg_planned:
  assumes "plan_leg a key gid side q price uid = Inr (m, oi)" and "q = leg_quantity a side"
    and "base_key (cb_idempotency_key a) = Inr key"
  shows "leg_planned a gid side m oi"
proof -
  have key: "key = strip (cb_idempotency_key a)" "clean 250 key"
    using assms(3) by (auto simp: base_key_def required_text_Inr)
  obtain x where x: "q = DFin x" "\<not> x < 0"
    using assms(1) by (auto simp: plan_leg_def split: dec.splits if_splits)
  show ?thesis
  proof (cases "x = 0")
    case True
    then have "leg_quantity a side = DFin 0" using assms(2) x by simp
    then show ?thesis using assms(1) True x by (auto simp: plan_leg_def leg_planned_def)
  next
    case False
    then obtain i where i: "oi = Some i" and m: "gm_position_side m = side" "gm_state m = PLANNED"
        "gm_intent_id m = Some (uuid_str (oi_intent_id i))"
      and mk: "mk_order_intent \<lparr>ia_account_id = cb_account_id a, ia_symbol = cb_symbol a,
              ia_position_side = Inl side, ia_action = Inl CLOSE, ia_quantity = q,
              ia_idempotency_key = key @ '':'' @ side_value side,
              ia_order_type = Inl (cb_order_type a), ia_limit_price = price,
              ia_reduce_only = True, ia_intent_id = uid, ia_action_group_id = Some gid,
              ia_metadata = [(''action_group_type'', VStr ''CLOSE_BOTH'')]\<rparr> = Inr i"
      using assms(1) x by (auto simp: plan_leg_def res_splits)
    have "intent_ok i" using mk by (rule mk_order_intent_ok)
    moreover note f = mk_intent_fields [OF mk, simplified]
    moreover have "oi_reduce_only i"
      using calculation(1) f(2) by (simp add: intent_ok_def reduces_risk_def)
    ultimately show ?thesis
      using m i assms(2) strip_keyed [OF key(2)] key(1)
      by (simp add: leg_planned_def closes_leg_def)
  qed
qed

lemma plan_legs:
  assumes "build_close_both_plan fresh lu su now a = Inr (g, intents)"
  obtains m1 o1 m2 o2 where "gr_members g = [m1, m2]" "intents = List.map_filter id [o1, o2]"
    "leg_planned a (gr_action_group_id g) LONG m1 o1" "leg_planned a (gr_action_group_id g) SHORT m2 o2"
    "gr_created_at g = now" "gr_updated_at g = now"
proof -
  define gid where "gid = (case cb_action_group_id a of None \<Rightarrow> fresh | Some g \<Rightarrow> g)"
  obtain key m1 o1 m2 o2 where r: "base_key (cb_idempotency_key a) = Inr key"
    "plan_leg a key gid LONG (cb_long_quantity a) (cb_long_limit_price a) lu = Inr (m1, o1)"
    "plan_leg a key gid SHORT (cb_short_quantity a) (cb_short_limit_price a) su = Inr (m2, o2)"
    and g: "g = \<lparr>gr_action_group_id = gid, gr_action_type = ''CLOSE_BOTH'',
            gr_account_id = cb_account_id a, gr_symbol = cb_symbol a, gr_members = [m1, m2],
            gr_created_at = now, gr_updated_at = now\<rparr>" "intents = List.map_filter id [o1, o2]"
    using assms by (auto simp: build_close_both_plan_def res_splits Let_def gid_def)
  have "leg_planned a gid LONG m1 o1" "leg_planned a gid SHORT m2 o2"
    using plan_leg_planned [OF r(2) _ r(1)] plan_leg_planned [OF r(3) _ r(1)]
    by (simp_all add: leg_quantity_def)
  then show ?thesis using that g by auto
qed

text \<open>The plan's intents: those of the legs that are not flat, LONG first.\<close>

lemma plan_intents:
  assumes "build_close_both_plan fresh lu su now a = Inr (g, intents)"
  shows "list_all (closes_leg a (gr_action_group_id g)) intents"
    and "map oi_position_side intents = filter (\<lambda>sd. leg_quantity a sd \<noteq> DFin 0) [LONG, SHORT]"
    and "map gm_position_side (gr_members g) = [LONG, SHORT]"
proof -
  obtain m1 o1 m2 o2 where p: "gr_members g = [m1, m2]" "intents = List.map_filter id [o1, o2]"
    "leg_planned a (gr_action_group_id g) LONG m1 o1" "leg_planned a (gr_action_group_id g) SHORT m2 o2"
    by (rule plan_legs [OF assms])
  have nz: "leg_quantity a sd \<noteq> DFin 0"
    if "closes_leg a gid i" "oi_position_side i = sd" for gid i sd
    using that by (auto simp: closes_leg_def intent_ok_def)
  show "list_all (closes_leg a (gr_action_group_id g)) intents"
    and "map oi_position_side intents = filter (\<lambda>sd. leg_quantity a sd \<noteq> DFin 0) [LONG, SHORT]"
    and "map gm_position_side (gr_members g) = [LONG, SHORT]"
    using p nz by (auto simp: leg_planned_def map_filter_simps split: option.splits)
qed

section \<open>The durable record\<close>

definition recorded :: "group_record \<Rightarrow> execution_result list \<Rightarrow> string list \<Rightarrow> order_intent \<Rightarrow> bool" where
  \<comment> \<open>the members of the intent's side say what happened to it\<close>
  "recorded g rs es i \<longleftrightarrow> list_all (\<lambda>m. gm_position_side m = oi_position_side i \<longrightarrow>
     (\<exists>r \<in> set rs. m = submitted_member i r) \<or> (\<exists>x \<in> set es. m = failed_member i x)) (gr_members g)"

lemma recorded_mono:
  "recorded g rs es i \<Longrightarrow> set rs \<subseteq> set rs' \<Longrightarrow> set es \<subseteq> set es' \<Longrightarrow> recorded g rs' es' i"
  unfolding recorded_def list_all_iff by blast

lemma filter_replaced:
  "gm_position_side m = sd \<Longrightarrow> filter (\<lambda>x. gm_position_side x \<noteq> sd \<and> Q x)
      (map (\<lambda>x. if gm_position_side x = sd then m else x) ms) =
    filter (\<lambda>x. gm_position_side x \<noteq> sd \<and> Q x) ms"
  by (induction ms) auto

text \<open>One leg over a repository that holds the group: its member is replaced and nothing raises.\<close>

lemma leg_step:
  assumes "ge_repository e = Some groups" and "dict_get groups gid = Some g"
    and "oi_position_side i \<in> set (map gm_position_side (gr_members g))"
  obtains out s1 m g1 groups1 where "sub i (ge_service e) = (out, s1)"
    and "g1 = g\<lparr>gr_members := map (\<lambda>x. if gm_position_side x = oi_position_side i then m else x)
      (gr_members g), gr_updated_at := clock s1\<rparr>"
    and "groups1 = dict_put gid g1 groups"
    and "m = (case out of Inl x \<Rightarrow> failed_member i (leg_error (oi_position_side i) x)
      | Inr r \<Rightarrow> submitted_member i r)"
    and "execute_legs clock sub gid rs es (i # source) e =
      execute_legs clock sub gid (case out of Inl x \<Rightarrow> rs | Inr r \<Rightarrow> rs @ [r])
        (case out of Inl x \<Rightarrow> es @ [leg_error (oi_position_side i) x] | Inr r \<Rightarrow> es) source
        \<lparr>ge_repository = Some groups1, ge_service = s1\<rparr>"
proof -
  obtain out s1 where s1: "sub i (ge_service e) = (out, s1)" by fastforce
  have e: "e\<lparr>ge_service := s1\<rparr> = \<lparr>ge_repository = Some groups, ge_service = s1\<rparr>"
    using assms(1) by (cases e) simp
  have upd: "ge_update_member clock gid m \<lparr>ge_repository = Some groups, ge_service = s1\<rparr> =
      (Inr (), \<lparr>ge_repository = Some (dict_put gid (g\<lparr>gr_members :=
         map (\<lambda>x. if gm_position_side x = oi_position_side i then m else x) (gr_members g),
         gr_updated_at := clock s1\<rparr>) groups), ge_service = s1\<rparr>)"
    if m: "gm_position_side m = oi_position_side i" for m
  proof -
    have "\<exists>x \<in> set (gr_members g). gm_position_side x = gm_position_side m"
      using assms(3) m by (metis (no_types, lifting) imageE list.set_map)
    from update_member_present [OF assms(2) this, of "clock s1"] m show ?thesis
      by (simp add: ge_update_member_def Let_def)
  qed
  have sides: "gm_position_side (failed_member i x) = oi_position_side i"
    "gm_position_side (submitted_member i r) = oi_position_side i" for x r
    by (simp_all add: failed_member_def submitted_member_def)
  show ?thesis
    by (rule that [OF s1 refl refl refl])
      (cases out; simp add: py_bind_def py_try_def at_service_def s1 e upd sides Let_def cong: if_cong)
qed

lemma legs_recorded:
  assumes "ge_repository e = Some groups" and "dict_get groups gid = Some g"
    and "set (map oi_position_side source) \<subseteq> set (map gm_position_side (gr_members g))"
    and "distinct (map oi_position_side source)"
  shows "\<exists>rs es t groups' g'. execute_legs clock sub gid rs0 es0 source e = (Inr (rs0 @ rs, es0 @ es), t)
    \<and> length rs + length es = length source \<and> ge_repository t = Some groups'
    \<and> dict_get groups' gid = Some g'
    \<and> map gm_position_side (gr_members g') = map gm_position_side (gr_members g)
    \<and> list_all (recorded g' rs es) source
    \<and> filter (\<lambda>m. gm_position_side m \<notin> set (map oi_position_side source)) (gr_members g') =
      filter (\<lambda>m. gm_position_side m \<notin> set (map oi_position_side source)) (gr_members g)"
  using assms
proof (induction source arbitrary: e groups g rs0 es0)
  case Nil
  then show ?case by simp
next
  case (Cons i source)
  let ?side = "oi_position_side i"
  have "?side \<in> set (map gm_position_side (gr_members g))" using Cons.prems(3) by auto
  then obtain out s1 m g1 groups1 where "sub i (ge_service e) = (out, s1)"
    and g1: "g1 = g\<lparr>gr_members := map (\<lambda>x. if gm_position_side x = ?side then m else x)
      (gr_members g), gr_updated_at := clock s1\<rparr>"
    and groups1: "groups1 = dict_put gid g1 groups"
    and m: "m = (case out of Inl x \<Rightarrow> failed_member i (leg_error ?side x) | Inr r \<Rightarrow> submitted_member i r)"
    and step: "execute_legs clock sub gid rs0 es0 (i # source) e =
      execute_legs clock sub gid (case out of Inl x \<Rightarrow> rs0 | Inr r \<Rightarrow> rs0 @ [r])
        (case out of Inl x \<Rightarrow> es0 @ [leg_error ?side x] | Inr r \<Rightarrow> es0) source
        \<lparr>ge_repository = Some groups1, ge_service = s1\<rparr>"
    by (rule leg_step [OF Cons.prems(1,2)])
  define r1 e1 where "r1 = (case out of Inl x \<Rightarrow> [] | Inr r \<Rightarrow> [r])"
    and "e1 = (case out of Inl x \<Rightarrow> [leg_error ?side x] | Inr r \<Rightarrow> [])"
  have ms: "gm_position_side m = ?side"
    by (simp add: m failed_member_def submitted_member_def split: sum.splits)
  have sides1: "map gm_position_side (gr_members g1) = map gm_position_side (gr_members g)"
    using ms by (simp add: g1 comp_def cong: if_cong)
  have "dict_get groups1 gid = Some g1" by (simp add: groups1 dict_get_put)
  moreover have "set (map oi_position_side source) \<subseteq> set (map gm_position_side (gr_members g1))"
    using Cons.prems(3) by (simp only: sides1) auto
  ultimately obtain rs es t groups' g' where t:
    "execute_legs clock sub gid (rs0 @ r1) (es0 @ e1) source
      \<lparr>ge_repository = Some groups1, ge_service = s1\<rparr> = (Inr ((rs0 @ r1) @ rs, (es0 @ e1) @ es), t)"
    "length rs + length es = length source" "ge_repository t = Some groups'"
    "dict_get groups' gid = Some g'"
    "map gm_position_side (gr_members g') = map gm_position_side (gr_members g1)"
    "list_all (recorded g' rs es) source"
    and keep: "filter (\<lambda>m. gm_position_side m \<notin> set (map oi_position_side source)) (gr_members g') =
      filter (\<lambda>m. gm_position_side m \<notin> set (map oi_position_side source)) (gr_members g1)"
    using Cons.IH [of "\<lparr>ge_repository = Some groups1, ge_service = s1\<rparr>" groups1 g1 "rs0 @ r1" "es0 @ e1"]
      Cons.prems(4) by auto
  have run: "execute_legs clock sub gid rs0 es0 (i # source) e =
      (Inr (rs0 @ (r1 @ rs), es0 @ (e1 @ es)), t)"
    using t(1) unfolding step by (cases out) (simp_all add: r1_def e1_def)
  have len: "length (r1 @ rs) + length (e1 @ es) = length (i # source)"
    using t(2) by (cases out) (simp_all add: r1_def e1_def)
  have fresh: "?side \<notin> set (map oi_position_side source)" using Cons.prems(4) by simp
  have here: "recorded g' (r1 @ rs) (e1 @ es) i"
    unfolding recorded_def list_all_iff
  proof (intro ballI impI)
    fix m' assume "m' \<in> set (gr_members g')" and "gm_position_side m' = ?side"
    then have "m' \<in> set (filter (\<lambda>m. gm_position_side m \<notin> set (map oi_position_side source))
        (gr_members g'))" using fresh by simp
    then have "m' \<in> set (gr_members g1)" unfolding keep by simp
    then have "m' = m" using \<open>gm_position_side m' = ?side\<close> by (auto simp: g1 split: if_splits)
    then show "(\<exists>r \<in> set (r1 @ rs). m' = submitted_member i r)
        \<or> (\<exists>x \<in> set (e1 @ es). m' = failed_member i x)"
      by (cases out) (auto simp: m r1_def e1_def)
  qed
  have more: "list_all (recorded g' (r1 @ rs) (e1 @ es)) source"
    using t(6) by (auto simp: list_all_iff intro: recorded_mono)
  have rest: "filter (\<lambda>m. gm_position_side m \<notin> set (map oi_position_side (i # source))) (gr_members g') =
      filter (\<lambda>m. gm_position_side m \<notin> set (map oi_position_side (i # source))) (gr_members g)"
  proof -
    have "filter (\<lambda>m. gm_position_side m \<noteq> ?side) (filter (\<lambda>m. gm_position_side m \<notin>
        set (map oi_position_side source)) (gr_members g')) =
      filter (\<lambda>m. gm_position_side m \<noteq> ?side) (filter (\<lambda>m. gm_position_side m \<notin>
        set (map oi_position_side source)) (gr_members g1))" unfolding keep ..
    moreover have "filter (\<lambda>m. gm_position_side m \<noteq> ?side \<and> Q m) (gr_members g1) =
        filter (\<lambda>m. gm_position_side m \<noteq> ?side \<and> Q m) (gr_members g)" for Q
      using filter_replaced [OF ms] by (simp add: g1)
    ultimately show ?thesis by (simp add: conj_commute)
  qed
  show ?case using run len t(3,4,5) sides1 here more rest by (intro exI conjI) (assumption | simp)+
qed

lemma legs_missing:
  assumes "ge_repository e = Some groups" and "dict_get groups gid = None"
    and "sub i (ge_service e) = (out, s1)"
  shows "execute_legs clock sub gid rs es (i # source) e =
    (Inl (Exn KeyError ''action_group_id''), e\<lparr>ge_service := s1\<rparr>)"
  using assms by (cases e; cases out) (simp_all add: py_bind_def py_try_def at_service_def
      ge_update_member_def update_member_def Let_def)

lemma same_group:
  assumes "source \<noteq> []" and "list_all (\<lambda>i. oi_action_group_id i = Some gid) source"
  shows "remdups (map oi_action_group_id source) = [Some gid]"
  using assms
proof (induction source)
  case (Cons i source)
  then show ?case by (cases source) (simp_all add: list_all_iff)
qed simp

lemma group_missing:
  assumes "ge_repository e = Some groups" and "dict_get groups gid = None"
    and "sub i (ge_service e) = (out, s1)"
    and "list_all (\<lambda>i. oi_action_group_id i = Some gid) (i # source)"
  shows "execute_group clock sub (i # source) e =
    (Inl (Exn KeyError ''action_group_id''), e\<lparr>ge_service := s1\<rparr>)"
  using same_group [OF _ assms(4)] legs_missing [where sub = sub, OF assms(1-3)]
  by (simp add: execute_group_def py_bind_InlI del: execute_legs.simps remdups.simps list.map)

lemma planned_not_recorded:
  assumes "build_close_both_plan fresh lu su now a = Inr (g, source)" and "i \<in> set source"
  shows "\<not> recorded g rs es i"
proof
  assume r: "recorded g rs es i"
  obtain m1 o1 m2 o2 where p: "gr_members g = [m1, m2]" "source = List.map_filter id [o1, o2]"
    "leg_planned a (gr_action_group_id g) LONG m1 o1" "leg_planned a (gr_action_group_id g) SHORT m2 o2"
    by (rule plan_legs [OF assms(1)])
  have "\<exists>m \<in> {m1, m2}. gm_position_side m = oi_position_side i \<and> gm_state m = PLANNED"
    using p assms(2) by (auto simp: leg_planned_def map_filter_simps split: option.splits)
  then obtain m where "m \<in> set (gr_members g)" "gm_position_side m = oi_position_side i"
    "gm_state m = PLANNED" using p(1) by auto
  then show False using r
    by (auto simp: recorded_def list_all_iff submitted_member_def failed_member_def)
qed

section \<open>Properties\<close>

text \<open>A close-both request for evaluations: 2 LONG and 3 SHORT.\<close>

definition demo_close :: close_both where
  "demo_close = \<lparr>cb_account_id = ''acc'', cb_symbol = ''BTC/USDT'', cb_long_quantity = DFin 2,
     cb_short_quantity = DFin 3, cb_idempotency_key = ''exit'', cb_order_type = MARKET,
     cb_long_limit_price = None, cb_short_limit_price = None, cb_action_group_id = None\<rparr>"

definition demo_exit :: "position_side \<Rightarrow> rat \<Rightarrow> nat \<Rightarrow> order_intent" where
  "demo_exit side quantity uid = \<lparr>oi_account_id = ''acc'', oi_symbol = ''BTCUSDT'',
     oi_position_side = side, oi_action = CLOSE, oi_quantity = quantity,
     oi_idempotency_key = ''exit:'' @ side_value side, oi_order_type = MARKET,
     oi_limit_price = None, oi_reduce_only = True, oi_intent_id = uid,
     oi_action_group_id = Some 1, oi_metadata = [(''action_group_type'', VStr ''CLOSE_BOTH'')]\<rparr>"

lemma demo_metadata:
  "freeze_mapping [(''action_group_type'', VStr ''CLOSE_BOTH'')] =
    Inr [(''action_group_type'', VStr ''CLOSE_BOTH'')]"
proof -
  have "required_text ValueError ''metadata key'' 256 ''action_group_type'' = Inr ''action_group_type''"
    "has_control ''CLOSE_BOTH'' = False" by code_simp+
  then show ?thesis by (simp add: freeze_mapping_def freeze_value.simps)
qed

lemma demo_plan:
  "\<exists>g. build_close_both_plan 1 2 3 100 demo_close = Inr (g, [demo_exit LONG 2 2, demo_exit SHORT 3 3])"
proof -
  have "base_key ''exit'' = Inr ''exit''" "normalize_symbol ''BTC/USDT'' = Inr ''BTCUSDT''"
    "required_text ValueError ''account_id'' 128 ''acc'' = Inr ''acc''"
    "required_text ValueError ''idempotency_key'' 256 ''exit:LONG'' = Inr ''exit:LONG''"
    "required_text ValueError ''idempotency_key'' 256 ''exit:SHORT'' = Inr ''exit:SHORT''"
    by code_simp+
  then show ?thesis
    by (simp add: build_close_both_plan_def demo_close_def plan_leg_def mk_order_intent_def
        intent_limit_price_def reduces_risk_def demo_metadata demo_exit_def map_filter_simps)
qed

text \<open>The plan of a close-both action has one member per side, LONG first, and one reduce-only
  CLOSE intent for exactly each leg that is not flat: of the requested quantity, with the base key
  extended by the side, and sharing the group's id.\<close>

theorem close_both_plan_spec:
  assumes "build_close_both_plan fresh long_uid short_uid now a = Inr (g, intents)"
  shows "map gm_position_side (gr_members g) = [LONG, SHORT]
    \<and> map oi_position_side intents = filter (\<lambda>sd. leg_quantity a sd \<noteq> DFin 0) [LONG, SHORT]
    \<and> list_all (closes_leg a (gr_action_group_id g)) intents"
  using plan_intents [OF assms] by simp

theorem close_both_plan_spec_witness:
  "\<exists>g intents. build_close_both_plan 1 2 3 100 demo_close = Inr (g, intents)
    \<and> map oi_position_side intents = [LONG, SHORT]"
proof -
  obtain g where "build_close_both_plan 1 2 3 100 demo_close =
      Inr (g, [demo_exit LONG 2 2, demo_exit SHORT 3 3])" using demo_plan by blast
  from close_both_plan_spec [OF this] this show ?thesis
    by (auto simp: demo_close_def leg_quantity_def)
qed

text \<open>Executing a close-both action over the execution service sends, whatever the ports answer,
  at most one order per side, each a reduce-only CLOSE of the side's requested quantity, and keeps
  the service's invariant.\<close>

theorem close_both_only_closes:
  assumes "svc_ok (ge_service e)"
    and "execute_close_both clock (submit P) fresh long_uid short_uid limit_price a e = (r, t)"
  shows "svc_ok (ge_service t) \<and> (\<exists>xs gid.
      map ap_intent (submits (sv_calls (ge_service t))) =
        map ap_intent (submits (sv_calls (ge_service e))) @ xs
    \<and> subseq (map oi_position_side xs) [LONG, SHORT] \<and> list_all (closes_leg a gid) xs)"
proof -
  define a' where "a' = a\<lparr>cb_long_limit_price := (case cb_long_limit_price a of None \<Rightarrow> limit_price | p \<Rightarrow> p),
          cb_short_limit_price := (case cb_short_limit_price a of None \<Rightarrow> limit_price | p \<Rightarrow> p)\<rparr>"
  have same: "closes_leg a' = closes_leg a" "leg_quantity a' = leg_quantity a"
    by (intro ext; simp add: closes_leg_def leg_quantity_def a'_def split: position_side.split)+
  have run: "execute_close_both clock (submit P) fresh long_uid short_uid limit_price a e =
      py_bind (py_of (build_close_both_plan fresh long_uid short_uid (clock (ge_service e)) a'))
        (\<lambda>(g, intents). execute_plan clock (submit P) g intents) e"
    by (simp add: execute_close_both_def a'_def)
  show ?thesis
  proof (cases "build_close_both_plan fresh long_uid short_uid (clock (ge_service e)) a'")
    case (Inl x)
    then have "t = e" using assms(2) by (simp add: run)
    then show ?thesis using assms(1) by (intro conjI exI [of _ "[]"]) auto
  next
    case (Inr gi)
    obtain g intents where gi: "gi = (g, intents)" by (cases gi)
    note pl = plan_intents [OF Inr [unfolded gi], unfolded same]
    have x: "execute_plan clock (submit P) g intents e = (r, t)"
      using assms(2) Inr gi by (simp add: run)
    have "list_all intent_ok intents" using pl(1) by (auto simp: list_all_iff closes_leg_def)
    from gsp.plan_sends [OF assms(1) this x] obtain xs where ok: "svc_ok (ge_service t)"
      and xs: "map ap_intent (submits (sv_calls (ge_service t))) =
        map ap_intent (submits (sv_calls (ge_service e))) @ xs" "subseq xs intents" by blast
    have "subseq (map oi_position_side xs) (filter (\<lambda>sd. leg_quantity a sd \<noteq> DFin 0) [LONG, SHORT])"
      using subseq_map [OF xs(2), of oi_position_side] pl(2) by simp
    then have "subseq (map oi_position_side xs) [LONG, SHORT]"
      using subseq_filter_left subseq_order.trans by blast
    moreover have "list_all (closes_leg a (gr_action_group_id g)) xs"
      using pl(1) set_nths_subset list_emb_set [OF xs(2)] by (force simp: list_all_iff)
    ultimately show ?thesis using ok xs(1) by blast
  qed
qed

theorem close_both_only_closes_witness:
  "\<exists>r t xs. execute_close_both (\<lambda>s. 100) (submit echo_ports) 1 2 3 None demo_close
      \<lparr>ge_repository = Some [], ge_service = demo_start\<rparr> = (r, t) \<and> svc_ok (ge_service t)
    \<and> map ap_intent (submits (sv_calls (ge_service t))) = xs
    \<and> subseq (map oi_position_side xs) [LONG, SHORT]"
proof -
  let ?e = "\<lparr>ge_repository = Some [], ge_service = demo_start\<rparr>"
  obtain r t where rt: "execute_close_both (\<lambda>s. 100) (submit echo_ports) 1 2 3 None demo_close ?e = (r, t)"
    by fastforce
  have "svc_ok (ge_service ?e)" by simp
  from close_both_only_closes [OF this rt] rt show ?thesis
    by (auto simp: demo_start_new new_service_def)
qed

text \<open>The durable record agrees with the report: when the repository holds the group with a
  member for every intent's side, executing intents of distinct sides never raises whatever the port
  does, reports every leg exactly once, as a result or an error, and leaves each leg's member as
  SUBMITTED with the client order id of a reported result or as FAILED with a reported error, and
  the other members unchanged.\<close>

theorem group_record_matches_report:
  assumes "ge_repository e = Some groups" and "dict_get groups gid = Some g" and "source \<noteq> []"
    and "list_all (\<lambda>i. oi_action_group_id i = Some gid) source"
    and "distinct (map oi_position_side source)"
    and "set (map oi_position_side source) \<subseteq> set (map gm_position_side (gr_members g))"
  shows "\<exists>p t groups' g'. execute_group clock sub source e = (Inr p, t)
    \<and> length (gp_results p) + length (gp_errors p) = length source
    \<and> ge_repository t = Some groups' \<and> dict_get groups' gid = Some g'
    \<and> list_all (recorded g' (gp_results p) (gp_errors p)) source
    \<and> filter (\<lambda>m. gm_position_side m \<notin> set (map oi_position_side source)) (gr_members g') =
      filter (\<lambda>m. gm_position_side m \<notin> set (map oi_position_side source)) (gr_members g)"
proof -
  obtain rs es t groups' g' where "execute_legs clock sub gid [] [] source e = (Inr (rs, es), t)"
    "length rs + length es = length source" "ge_repository t = Some groups'"
    "dict_get groups' gid = Some g'" "list_all (recorded g' rs es) source"
    "filter (\<lambda>m. gm_position_side m \<notin> set (map oi_position_side source)) (gr_members g') =
      filter (\<lambda>m. gm_position_side m \<notin> set (map oi_position_side source)) (gr_members g)"
    using legs_recorded [OF assms(1,2,6,5), of clock sub "[]" "[]"] by auto
  then show ?thesis
    using same_group [OF assms(3,4)] assms(3) by (auto simp: execute_group_def py_bind_def)
qed

definition demo_group :: group_record where
  "demo_group = \<lparr>gr_action_group_id = 1, gr_action_type = ''CLOSE_BOTH'', gr_account_id = ''acc'',
     gr_symbol = ''BTC/USDT'', gr_members = map (\<lambda>sd. \<lparr>gm_position_side = sd, gm_state = PLANNED,
       gm_intent_id = None, gm_client_order_id = None, gm_error = None\<rparr>) [LONG, SHORT],
     gr_created_at = 0, gr_updated_at = 0\<rparr>"

theorem group_record_matches_report_witness:
  "\<exists>p t. execute_group (\<lambda>s. 100) (submit echo_ports) [demo_exit LONG 2 2, demo_exit SHORT 3 3]
      \<lparr>ge_repository = Some [(1, demo_group)], ge_service = demo_start\<rparr> = (Inr p, t)
    \<and> length (gp_results p) + length (gp_errors p) = 2"
proof -
  let ?e = "\<lparr>ge_repository = Some [(1, demo_group)], ge_service = demo_start\<rparr>"
  let ?source = "[demo_exit LONG 2 2, demo_exit SHORT 3 3]"
  have "ge_repository ?e = Some [(1, demo_group)]" "dict_get [(1 :: nat, demo_group)] 1 = Some demo_group"
    "?source \<noteq> []" "list_all (\<lambda>i. oi_action_group_id i = Some 1) ?source"
    "distinct (map oi_position_side ?source)"
    "set (map oi_position_side ?source) \<subseteq> set (map gm_position_side (gr_members demo_group))"
    by (simp_all add: demo_exit_def demo_group_def)
  from group_record_matches_report [OF this, of "\<lambda>s. 100" "submit echo_ports"]
  obtain p t where "execute_group (\<lambda>s. 100) (submit echo_ports) ?source ?e = (Inr p, t)"
    and "length (gp_results p) + length (gp_errors p) = length ?source" by blast
  then show ?thesis by (intro exI conjI) (assumption, simp only: list.size) 
qed

text \<open>A durable close-both runs once: after its plan was executed, executing the same plan again
  is refused as conflicting and touches neither the repository nor the service.\<close>

theorem group_runs_once:
  assumes "build_close_both_plan fresh long_uid short_uid now a = Inr (g, source)" and "source \<noteq> []"
    and "ge_repository e = Some groups" and "execute_plan clock sub g source e = (Inr report, t)"
  shows "execute_plan clock' sub' g source t =
    (Inl (Exn ValueError ''action group already exists with conflicting data''), t)"
proof -
  note pl = plan_intents [OF assms(1)]
  let ?gid = "gr_action_group_id g"
  have gids: "list_all (\<lambda>i. oi_action_group_id i = Some ?gid) source"
    using pl(1) by (auto simp: list_all_iff closes_leg_def)
  then have nx: "\<not> list_ex (\<lambda>i. oi_action_group_id i \<noteq> Some ?gid) source"
    by (auto simp: list_all_iff list_ex_iff)
  obtain u where u: "ge_put g e = (Inr (), u)" "ge_repository u = Some (dict_put ?gid g groups)"
    using assms(3,4) nx
    by (auto simp: execute_plan_def ge_put_def group_put_def py_bind_def split: option.splits if_splits)
  have run: "execute_plan clock sub g source e = py_bind (execute_group clock sub source)
      (\<lambda>report. py_ret (report\<lparr>gp_skipped := skipped_legs g\<rparr>)) u"
    using nx assms(2) u(1) by (simp add: execute_plan_def py_bind_def)
  have sides: "distinct (map oi_position_side source)"
    "set (map oi_position_side source) \<subseteq> set (map gm_position_side (gr_members g))"
    unfolding pl(2,3) by auto
  obtain rs es v groups' g' where legs: "execute_legs clock sub ?gid [] [] source u = (Inr (rs, es), v)"
    "ge_repository v = Some groups'" "dict_get groups' ?gid = Some g'"
    "map gm_position_side (gr_members g') = map gm_position_side (gr_members g)"
    "list_all (recorded g' rs es) source"
    using legs_recorded [OF u(2) _ sides(2,1), of ?gid clock sub "[]" "[]"]
    by (auto simp: dict_get_put)
  have "t = v" using assms(4) legs(1) same_group [OF assms(2) gids] assms(2)
    by (simp add: run execute_group_def py_bind_def)
  moreover have "g' \<noteq> g"
  proof
    assume "g' = g"
    obtain i where i: "i \<in> set source" using assms(2) by (cases source) auto
    then have rec: "recorded g rs es i" using legs(5) \<open>g' = g\<close> by (simp add: list_all_iff)
    show False using planned_not_recorded [OF assms(1) i] rec by blast
  qed
  ultimately show ?thesis
    using legs(2,3) nx by (cases t) (simp add: execute_plan_def ge_put_def group_put_def py_bind_def)
qed

theorem group_runs_once_witness:
  "\<exists>g source report t. build_close_both_plan 1 2 3 100 demo_close = Inr (g, source)
    \<and> execute_plan (\<lambda>s. 100) (submit echo_ports) g source
        \<lparr>ge_repository = Some [], ge_service = demo_start\<rparr> = (Inr report, t)
    \<and> execute_plan (\<lambda>s. 200) (submit echo_ports) g source t =
        (Inl (Exn ValueError ''action group already exists with conflicting data''), t)"
proof -
  let ?e = "\<lparr>ge_repository = Some [], ge_service = demo_start\<rparr>"
  let ?source = "[demo_exit LONG 2 2, demo_exit SHORT 3 3]"
  obtain g where g: "build_close_both_plan 1 2 3 100 demo_close = Inr (g, ?source)"
    using demo_plan by blast
  note pl = plan_intents [OF g]
  have gid: "gr_action_group_id g = 1"
    using pl(1) by (simp add: closes_leg_def demo_exit_def)
  obtain u where u: "ge_put g ?e = (Inr (), u)" "ge_repository u = Some (dict_put 1 g [])"
    by (auto simp: ge_put_def group_put_def gid)
  have "list_all (\<lambda>i. oi_action_group_id i = Some 1) ?source" "distinct (map oi_position_side ?source)"
    "set (map oi_position_side ?source) \<subseteq> set (map gm_position_side (gr_members g))"
    by (simp_all only: pl(3)) (simp_all add: demo_exit_def)
  moreover have "dict_get (dict_put 1 g []) 1 = Some g" "?source \<noteq> []" by (simp_all add: dict_get_put)
  ultimately obtain rs es v where
    "execute_legs (\<lambda>s. 100) (submit echo_ports) 1 [] [] ?source u = (Inr (rs, es), v)"
    using legs_recorded [OF u(2), of 1 g ?source "\<lambda>s. 100" "submit echo_ports" "[]" "[]"] by auto
  then have "\<exists>report t. execute_plan (\<lambda>s. 100) (submit echo_ports) g ?source ?e = (Inr report, t)"
    using u(1) by (simp add: execute_plan_def execute_group_def py_bind_def gid) (simp add: demo_exit_def)
  then obtain report t where "execute_plan (\<lambda>s. 100) (submit echo_ports) g ?source ?e = (Inr report, t)"
    by blast
  from group_runs_once [OF g _ _ this, of "[]"] g this show ?thesis by auto
qed

text \<open>Executing the intents of \<open>build_close_both_intents\<close> directly, over a repository that was
  never given their group, closes the LONG leg and then raises \<open>KeyError\<close> out of \<open>execute\<close>: the
  handler's own update of the member fails, and the SHORT leg is never submitted.\<close>

theorem missing_group_abandons_leg:
  "\<exists>i1 i2 t. build_close_both_intents 1 2 3 100 demo_close = Inr (i1, i2)
    \<and> execute_group (\<lambda>s. 100) (submit echo_ports) [i1, i2]
        \<lparr>ge_repository = Some [], ge_service = demo_start\<rparr> = (Inl (Exn KeyError ''action_group_id''), t)
    \<and> map (oi_position_side \<circ> ap_intent) (submits (sv_calls (ge_service t))) = [LONG]"
proof -
  obtain r s where s: "submit echo_ports (demo_exit LONG 2 2) demo_start = (r, s)" by fastforce
  have "map (oi_position_side \<circ> ap_intent) (submits (sv_calls (snd (submit echo_ports
      (demo_exit LONG 2 2) demo_start)))) = [LONG]"
    and "case fst (submit echo_ports (demo_exit LONG 2 2) demo_start) of Inl x \<Rightarrow> False | Inr x \<Rightarrow> True"
    by code_simp+
  then obtain x where sx: "map (oi_position_side \<circ> ap_intent) (submits (sv_calls s)) = [LONG]" "r = Inr x"
    by (auto simp: s split: sum.splits)
  have "build_close_both_intents 1 2 3 100 demo_close = Inr (demo_exit LONG 2 2, demo_exit SHORT 3 3)"
    using demo_plan by (auto simp: build_close_both_intents_def)
  moreover have "execute_group (\<lambda>s. 100) (submit echo_ports) [demo_exit LONG 2 2, demo_exit SHORT 3 3]
      \<lparr>ge_repository = Some [], ge_service = demo_start\<rparr> =
    (Inl (Exn KeyError ''action_group_id''), \<lparr>ge_repository = Some [], ge_service = s\<rparr>)"
    using group_missing [of "\<lparr>ge_repository = Some [], ge_service = demo_start\<rparr>" "[]" 1 "submit echo_ports"
      "demo_exit LONG 2 2" r s "[demo_exit SHORT 3 3]" "\<lambda>s. 100"] s
    by (simp add: demo_exit_def)
  ultimately show ?thesis using sx(1) by auto
qed

end
