(* ===== verification/Service_Types.thy ===== *)
theory Service_Types
  imports Service_Properties
begin

text \<open>
  The types of the stored values: every order that a history of the execution service stores satisfies
  the checks of the constructors it was built by, so that reading it back through them
  (\<open>OrderLifecycle.__post_init__\<close>, \<open>ExecutionOrder.__post_init__\<close>) yields the same record.
\<close>

lemma clean_optional: "(\<And>t. v = Some t \<Longrightarrow> clean n t) \<Longrightarrow> optional_text c f n v = Inr v"
  by (cases v) (simp_all add: optional_text_def clean_def Let_def)

lemma mk_lifecycle_id:
  assumes "lc_wf lc"
  shows "mk_lifecycle (Inl (lc_status lc)) (DFin (lc_filled_quantity lc))
    (map_option DFin (lc_average_price lc)) (lc_exchange_order_id lc) (lc_version lc)
    (Aware (lc_updated_at lc)) (lc_reason lc) = Inr lc"
proof -
  note wf = assms [unfolded lc_wf_def]
  have "optional_text InvalidOrderTransition ''exchange_order_id'' 256 (lc_exchange_order_id lc)
      = Inr (lc_exchange_order_id lc)"
    "optional_text InvalidOrderTransition ''reason'' 1024 (lc_reason lc) = Inr (lc_reason lc)"
    using wf by (auto intro!: clean_optional)
  moreover have "check_average (lc_filled_quantity lc) (map_option DFin (lc_average_price lc))
      = Inr (lc_average_price lc)"
    using wf by (auto simp: check_average_Inr split: option.splits)
  ultimately show ?thesis using wf by (simp add: mk_lifecycle_Inr)
qed

text \<open>C6: In every history of an execution service, whatever the ports answer, each stored order is filed
  under its own client order id and passes the checks of its constructors unchanged: rebuilding its
  lifecycle and then the order from the stored fields gives the same order, which is approved for no
  more than its intent asks and filled for no more than was approved.\<close>

theorem stored_orders_well_typed:
  assumes "svc_run P (new_service ks w) s" and "dict_get (sv_store s) cid = Some e"
  shows "\<exists>lc. mk_lifecycle (Inl (eo_status e)) (DFin (lc_filled_quantity (eo_lifecycle e)))
      (map_option DFin (lc_average_price (eo_lifecycle e))) (lc_exchange_order_id (eo_lifecycle e))
      (lc_version (eo_lifecycle e)) (Aware (lc_updated_at (eo_lifecycle e))) (lc_reason (eo_lifecycle e))
        = Inr lc
    \<and> mk_execution_order (eo_intent e) cid (DFin (eo_approved_quantity e)) lc (Aware (eo_created_at e)) = Inr e
    \<and> 0 \<le> lc_filled_quantity lc \<and> lc_filled_quantity lc \<le> eo_approved_quantity e
    \<and> eo_approved_quantity e \<le> oi_quantity (eo_intent e)"
proof -
  have wf: "eo_client_order_id e = cid" "order_wf e"
    using run_ok [OF assms(1) new_service_ok] assms(2) by (auto simp: svc_ok_def store_inv_def)
  have lc: "lc_wf (eo_lifecycle e)" using wf(2) by (simp add: order_wf_def)
  have "mk_execution_order (eo_intent e) cid (DFin (eo_approved_quantity e)) (eo_lifecycle e)
      (Aware (eo_created_at e)) = Inr e"
    using wf by (cases e) (auto simp: order_wf_def mk_execution_order_Inr)
  then show ?thesis using mk_lifecycle_id [OF lc] lc wf(2)
    by (auto simp: eo_status_def order_wf_def order_checks_Inr lc_wf_def)
qed

theorem stored_orders_well_typed_witness:
  "\<exists>e lc. dict_get (sv_store (after_submit ack_ports)) demo_id = Some e
    \<and> mk_execution_order (eo_intent e) demo_id (DFin (eo_approved_quantity e)) lc (Aware (eo_created_at e)) = Inr e
    \<and> lc_filled_quantity lc \<le> eo_approved_quantity e"
proof -
  have "dict_get (sv_store (after_submit ack_ports)) demo_id \<noteq> None" by code_simp
  then obtain e where e: "dict_get (sv_store (after_submit ack_ports)) demo_id = Some e" by auto
  have "svc_run ack_ports (new_service (new_kill_switch True False False 0) 1000) (after_submit ack_ports)"
    using after_submit_run unfolding demo_start_new .
  from stored_orders_well_typed [OF this e] show ?thesis using e by blast
qed

end
