(* ===== verification/Cancel_Replace.thy ===== *)
theory Cancel_Replace
  imports Service_Facts Action_Group
begin

text \<open>
  Cancel-replace, \<open>freqtrade/hedge/execution/cancel_replace.py\<close>: cancelling an order of the
  execution service and, only when the cancellation is confirmed, submitting a replacement. The leg
  lock is held over the whole operation, so it is one atomic step. The properties: a replacement is
  sent only for an order stored as CANCELED and fits into what was left of it, an operation that was
  not completed sent nothing, and replacing the same canceled order again is not refused.
\<close>

section \<open>The coordinator\<close>

record cancel_replace_result =
  cr_canceled :: execution_result
  cr_replacement :: "execution_result option"
  cr_completed :: bool
  cr_reason :: string

definition mk_cancel_replace ::
    "execution_result \<Rightarrow> execution_result option \<Rightarrow> bool \<Rightarrow> string \<Rightarrow> cancel_replace_result res" where
  "mk_cancel_replace canceled replacement finished reason =
     (if strip reason = [] then Inl (Exn ValueError ''reason is required'')
      else Inr \<lparr>cr_canceled = canceled, cr_replacement = replacement, cr_completed = finished,
        cr_reason = reason\<rparr>)"

definition validate_replacement :: "order_intent \<Rightarrow> order_intent \<Rightarrow> unit res" where
  "validate_replacement original replacement =
     (if oi_idempotency_key replacement = oi_idempotency_key original
      then Inl (Exn ValueError ''replacement intent must use a new idempotency key'')
      else if oi_account_id replacement \<noteq> oi_account_id original
        \<or> oi_symbol replacement \<noteq> oi_symbol original
        \<or> oi_position_side replacement \<noteq> oi_position_side original
      then Inl (Exn ValueError ''replacement intent must target the same account, symbol and side'')
      else if oi_action replacement \<noteq> oi_action original
      then Inl (Exn ValueError ''replacement intent must preserve the original action'')
      else if oi_reduce_only replacement \<noteq> oi_reduce_only original
      then Inl (Exn ValueError ''replacement intent must preserve reduce_only semantics'')
      else if oi_action_group_id replacement \<noteq> oi_action_group_id original
      then Inl (Exn ValueError ''replacement intent must preserve action_group_id'')
      else Inr ())"

definition remaining :: "execution_order \<Rightarrow> rat" where
  "remaining order = dec_sub (eo_approved_quantity order) (lc_filled_quantity (eo_lifecycle order))"

definition not_replaced :: "execution_result \<Rightarrow> string \<Rightarrow> ('w svc, cancel_replace_result) py" where
  "not_replaced canceled reason = py_of (mk_cancel_replace canceled None False reason)"

text \<open>The part of \<open>execute\<close> after the cancellation.\<close>

definition after_cancel ::
    "'w ports \<Rightarrow> order_intent \<Rightarrow> execution_result \<Rightarrow> ('w svc, cancel_replace_result) py" where
  "after_cancel P replacement_intent canceled =
     (if eo_status (er_order canceled) \<noteq> CANCELED
      then not_replaced canceled ''original order cancellation not confirmed''
      else if remaining (er_order canceled) \<le> 0
      then not_replaced canceled ''original order filled during cancellation''
      else if oi_quantity replacement_intent > remaining (er_order canceled)
      then not_replaced canceled ''replacement exceeds post-cancel remaining quantity''
      else py_bind (submit P replacement_intent) (\<lambda>replacement.
        py_of (mk_cancel_replace canceled (Some replacement) True
          ''replacement submitted after confirmed cancellation'')))"

definition execute_replace ::
    "'w ports \<Rightarrow> string \<Rightarrow> order_intent \<Rightarrow> ('w svc, cancel_replace_result) py" where
  \<comment> \<open>\<open>CancelReplaceCoordinator.execute\<close>\<close>
  "execute_replace P original_client_order_id replacement_intent =
     py_bind (get_order original_client_order_id) (\<lambda>original.
     py_bind (py_of (validate_replacement (eo_intent original) replacement_intent)) (\<lambda>_.
     if remaining original \<le> 0
     then py_bind (cancel P original_client_order_id) (\<lambda>canceled.
       not_replaced canceled ''original order has no remaining quantity'')
     else if oi_quantity replacement_intent > remaining original
     then py_raise (Exn ValueError ''replacement quantity exceeds original remaining quantity'')
     else py_bind (cancel P original_client_order_id) (after_cancel P replacement_intent)))"

definition selected_price :: "order_type \<Rightarrow> dec option \<Rightarrow> order_intent \<Rightarrow> dec option" where
  "selected_price selected_type limit_price original =
     (if selected_type = MARKET then None
      else case limit_price of
        None \<Rightarrow> map_option DFin (oi_limit_price original)
      | Some p \<Rightarrow> Some p)"

definition replacement_args :: "string \<Rightarrow> order_intent \<Rightarrow> nat \<Rightarrow> rat \<Rightarrow> string \<Rightarrow> order_type \<Rightarrow>
    dec option \<Rightarrow> mapping option \<Rightarrow> intent_args" where
  \<comment> \<open>\<open>replace(original.intent, ...)\<close> with the extended metadata\<close>
  "replacement_args cid original uid quantity key selected_type price metadata =
     \<lparr>ia_account_id = oi_account_id original, ia_symbol = oi_symbol original,
      ia_position_side = Inl (oi_position_side original), ia_action = Inl (oi_action original),
      ia_quantity = DFin quantity, ia_idempotency_key = key,
      ia_order_type = Inl selected_type, ia_limit_price = price,
      ia_reduce_only = oi_reduce_only original, ia_intent_id = uid,
      ia_action_group_id = oi_action_group_id original,
      ia_metadata = dict_put ''parent_intent_id'' (VStr (uuid_str (oi_intent_id original)))
        (dict_put ''replaces_client_order_id'' (VStr cid)
          (fold (\<lambda>(k, v). dict_put k v) (case metadata of None \<Rightarrow> [] | Some m \<Rightarrow> m)
            (oi_metadata original)))\<rparr>"

definition execute_remaining :: "'w ports \<Rightarrow> nat \<Rightarrow> string \<Rightarrow> string \<Rightarrow> (order_type + string) option \<Rightarrow>
    dec option \<Rightarrow> mapping option \<Rightarrow> ('w svc, cancel_replace_result) py" where
  \<comment> \<open>the second argument is the result of \<open>uuid4\<close>\<close>
  "execute_remaining P uid original_client_order_id key order_type limit_price metadata =
     py_bind (get_order original_client_order_id) (\<lambda>original.
     let remaining_quantity = remaining original; intent = eo_intent original in
     if remaining_quantity \<le> 0
     then py_bind (cancel P original_client_order_id) (\<lambda>canceled.
       not_replaced canceled ''original order has no remaining quantity'')
     else
     py_bind (py_of (case order_type of
         None \<Rightarrow> Inr (oi_order_type intent)
       | Some t \<Rightarrow> coerce_order_type ''order_type is invalid'' t)) (\<lambda>selected_type.
     py_bind (py_of (mk_order_intent (replacement_args original_client_order_id intent uid
       remaining_quantity key selected_type (selected_price selected_type limit_price intent)
       metadata))) (\<lambda>replacement.
     execute_replace P original_client_order_id replacement)))"

section \<open>What is sent\<close>

lemma validate_replacement_ok:
  "validate_replacement i j = Inr u \<Longrightarrow> intent_leg_key j = intent_leg_key i
    \<and> oi_action j = oi_action i \<and> oi_idempotency_key j \<noteq> oi_idempotency_key i"
  by (auto simp: validate_replacement_def intent_leg_key_def split: if_splits)

lemma mk_cancel_replace_Inr:
  "mk_cancel_replace c rep b reason = Inr x \<Longrightarrow> cr_completed x = b \<and> cr_replacement x = rep \<and> cr_canceled x = c"
  by (auto simp: mk_cancel_replace_def split: if_splits)

text \<open>What the part after the cancellation does, from a state \<open>u\<close> of the service.\<close>

definition replaced_by :: "order_intent \<Rightarrow> execution_result \<Rightarrow> 'w svc \<Rightarrow> 'w svc \<Rightarrow> approved_intent \<Rightarrow> bool"
where
  "replaced_by j c u t a \<longleftrightarrow> submits (sv_calls t) = submits (sv_calls u) @ [a] \<and> ap_intent a = j
     \<and> eo_status (er_order c) = CANCELED \<and> 0 < ap_approved_quantity a
     \<and> ap_approved_quantity a \<le> oi_quantity j \<and> oi_quantity j \<le> remaining (er_order c)"

lemma after_cancel_sends:
  assumes "svc_ok u" and "intent_ok j" and "after_cancel P j c u = (r, t)"
  shows "svc_ok t \<and> store_le (sv_store u) (sv_store t)
    \<and> (submits (sv_calls t) = submits (sv_calls u) \<or> (\<exists>a. replaced_by j c u t a))
    \<and> (\<forall>x. r = Inr x \<longrightarrow> cr_canceled x = c \<and> (\<not> cr_completed x \<longrightarrow> t = u)
        \<and> (cr_completed x \<longrightarrow> cr_replacement x \<noteq> None))"
proof (cases "eo_status (er_order c) = CANCELED \<and> 0 < remaining (er_order c)
    \<and> oi_quantity j \<le> remaining (er_order c)")
  case False
  then have "t = u" and "\<forall>x. r = Inr x \<longrightarrow> cr_canceled x = c \<and> \<not> cr_completed x"
    using assms(3) by (auto simp: after_cancel_def not_replaced_def dest: mk_cancel_replace_Inr
        split: if_splits)
  then show ?thesis using assms(1) by (simp add: store_le_refl)
next
  case True
  obtain r1 t1 where s: "submit P j u = (r1, t1)" by fastforce
  have t: "t = t1" "\<forall>x. r = Inr x \<longrightarrow> cr_canceled x = c \<and> cr_completed x \<and> cr_replacement x \<noteq> None"
    using assms(3) True s by (auto simp: after_cancel_def py_bind_def dest: mk_cancel_replace_Inr
        split: sum.splits)
  have "0 < ap_approved_quantity a \<and> ap_approved_quantity a \<le> oi_quantity j \<and> ap_intent a = j"
    if "cleared P j u e a v" for e a v using that by (simp add: cleared_def)
  with submit_outcome [OF assms(1,2) s] True show ?thesis
    unfolding t(1) replaced_by_def using t(2) by blast
qed

lemma execute_replace_cases:
  assumes "svc_ok s" and "execute_replace P cid j s = (r, t)"
  obtains (Refused) x where "t = s" "r = Inl x"
  | (Cancelled) e c u where "dict_get (sv_store s) cid = Some e" "cancel P cid s = (c, u)" "t = u"
      "\<forall>x. r = Inr x \<longrightarrow> \<not> cr_completed x"
  | (Replaced) e c u where "dict_get (sv_store s) cid = Some e" "cancel P cid s = (Inr c, u)"
      "validate_replacement (eo_intent e) j = Inr ()" "oi_quantity j \<le> remaining e"
      "after_cancel P j c u = (r, t)"
proof (cases "dict_get (sv_store s) cid")
  case None
  then show ?thesis using assms by (intro Refused) (auto simp: execute_replace_def py_bind_def get_order_eq)
next
  case (Some e)
  then have g: "get_order cid s = (Inr e, s)" by (simp add: get_order_eq)
  obtain c u where c: "cancel P cid s = (c, u)" by fastforce
  show ?thesis
  proof (cases "validate_replacement (eo_intent e) j")
    case (Inl x)
    then show ?thesis using assms(2) g by (intro Refused) (auto simp: execute_replace_def py_bind_def)
  next
    case (Inr v)
    consider "remaining e \<le> 0" | "0 < remaining e" "oi_quantity j > remaining e"
      | "0 < remaining e" "oi_quantity j \<le> remaining e" by linarith
    then show ?thesis
    proof cases
      case 1
      then show ?thesis using assms(2) g Inr c
        by (intro Cancelled [OF Some c]) (auto simp: execute_replace_def py_bind_def not_replaced_def
            dest: mk_cancel_replace_Inr split: sum.splits)
    next
      case 2
      then show ?thesis using assms(2) g Inr
        by (intro Refused) (auto simp: execute_replace_def py_bind_def)
    next
      case 3
      then have run: "py_bind (cancel P cid) (after_cancel P j) s = (r, t)"
        using assms(2) g Inr by (simp add: execute_replace_def py_bind_def)
      show ?thesis
      proof (cases c)
        case (Inl x)
        then show ?thesis using run c by (intro Cancelled [OF Some c]) (auto simp: py_bind_def)
      next
        case c': (Inr c')
        then show ?thesis using run c Inr 3 by (intro Replaced [OF Some _ _ 3(2)]) (auto simp: py_bind_def)
      qed
    qed
  qed
qed

lemma execute_replace_sends:
  assumes "svc_ok s" and "intent_ok j" and "execute_replace P cid j s = (r, t)"
  shows "svc_ok t \<and> store_le (sv_store s) (sv_store t)
    \<and> (submits (sv_calls t) = submits (sv_calls s)
       \<or> (\<exists>e c u a. dict_get (sv_store s) cid = Some e \<and> cancel P cid s = (Inr c, u)
            \<and> eo_client_order_id (er_order c) = cid \<and> quiet s u
            \<and> validate_replacement (eo_intent e) j = Inr () \<and> replaced_by j c u t a))
    \<and> (\<forall>x. r = Inr x \<longrightarrow> \<not> cr_completed x \<longrightarrow> submits (sv_calls t) = submits (sv_calls s))"
  using assms(1,3)
proof (cases rule: execute_replace_cases)
  case (Refused x)
  then show ?thesis using assms(1) by (simp add: store_le_refl)
next
  case (Cancelled e c u)
  have "svc_ok u \<and> quiet s u" using cancel_quiet Cancelled(2) assms(1) unfolding quiet_op_def by blast
  then show ?thesis using Cancelled(3) by (simp add: quiet_def)
next
  case (Replaced e c u)
  have q: "svc_ok u" "quiet s u" "eo_client_order_id (er_order c) = cid"
    using cancel_quiet Replaced(2) assms(1) unfolding quiet_op_def by blast+
  have same: "submits (sv_calls u) = submits (sv_calls s)" "store_le (sv_store s) (sv_store u)"
    using q(2) by (simp_all add: quiet_def)
  note a = after_cancel_sends [OF q(1) assms(2) Replaced(5)]
  have "store_le (sv_store s) (sv_store t)" using a same(2) store_le_trans by blast
  then show ?thesis using a q(2,3) Replaced(1-3) unfolding same(1) [symmetric] by blast
qed

section \<open>Properties\<close>


definition demo_next :: "string \<Rightarrow> order_intent" where
  "demo_next key = demo_intent\<lparr>oi_idempotency_key := key\<rparr>"

lemma demo_next_ok: "intent_ok (demo_next ''k2'')" "intent_ok (demo_next ''k3'')"
  by (simp_all add: intent_ok_def demo_next_def demo_intent_def reduces_risk_def) code_simp+


text \<open>\<open>execute_remaining\<close> replaces exactly what was left: whatever it sends is one order for the
  original's leg and action whose quantity is the remaining quantity the original had when the
  operation began, under a new key.\<close>

theorem remaining_is_replaced:
  assumes "svc_ok s" and "execute_remaining P uid cid key ot price metadata s = (r, t)"
  shows "svc_ok t
    \<and> (submits (sv_calls t) = submits (sv_calls s)
       \<or> (\<exists>e a. dict_get (sv_store s) cid = Some e
            \<and> submits (sv_calls t) = submits (sv_calls s) @ [a]
            \<and> oi_quantity (ap_intent a) = remaining e \<and> intent_leg_key (ap_intent a) = leg_key e
            \<and> oi_action (ap_intent a) = oi_action (eo_intent e)
            \<and> oi_idempotency_key (ap_intent a) \<noteq> oi_idempotency_key (eo_intent e)))"
proof (cases "dict_get (sv_store s) cid")
  case None
  then show ?thesis using assms by (auto simp: execute_remaining_def py_bind_def get_order_eq)
next
  case (Some e)
  then have g: "get_order cid s = (Inr e, s)" by (simp add: get_order_eq)
  obtain c u where c: "cancel P cid s = (c, u)" by fastforce
  then have q: "svc_ok u \<and> quiet s u" using cancel_quiet assms(1) unfolding quiet_op_def by blast
  consider "t = s" | "t = u"
    | j st where "mk_order_intent (replacement_args cid (eo_intent e) uid (remaining e) key st
        (selected_price st price (eo_intent e)) metadata) = Inr j" "execute_replace P cid j s = (r, t)"
    using assms(2) g c
    by (auto simp: execute_remaining_def py_bind_def Let_def not_replaced_def
        split: if_splits sum.splits)
  then show ?thesis
  proof cases
    case 3
    have "DFin (oi_quantity j) = DFin (remaining e)"
      using mk_intent_fields(3) [OF 3(1)] by (simp add: replacement_args_def)
    then have qty: "oi_quantity j = remaining e" by simp
    note x = execute_replace_sends [OF assms(1) mk_order_intent_ok [OF 3(1)] 3(2)]
    show ?thesis
    proof (cases "submits (sv_calls t) = submits (sv_calls s)")
      case False
      with x obtain c u a where a: "quiet s u" "validate_replacement (eo_intent e) j = Inr ()"
        "replaced_by j c u t a" using Some by auto
      then show ?thesis using x qty Some validate_replacement_ok [OF a(2)]
        by (auto simp: replaced_by_def quiet_def leg_key_def)
    qed (use x in simp)
  qed (use q assms(1) in \<open>auto simp: quiet_def\<close>)
qed

theorem remaining_is_replaced_witness:
  "\<exists>r t. execute_remaining echo_ports 8 demo_id ''k2'' None None None (after_submit echo_ports) = (r, t)
    \<and> svc_ok t"
proof -
  obtain r t where rt: "execute_remaining echo_ports 8 demo_id ''k2'' None None None
      (after_submit echo_ports) = (r, t)" by fastforce
  have "svc_ok (after_submit echo_ports)" using run_ok [OF after_submit_run] by simp
  from remaining_is_replaced [OF this rt] rt show ?thesis by blast
qed

text \<open>Nothing ties a replacement to the canceled order it came from: replacing the same canceled
  order of quantity 2 twice, under two keys, sends two replacements of quantity 2 each, so twice the
  original's quantity is live at the exchange.\<close>

theorem canceled_order_replaced_twice:
  "map (\<lambda>a. (oi_idempotency_key (ap_intent a), ap_approved_quantity a)) (submits (sv_calls
      (snd (execute_replace echo_ports demo_id (demo_next ''k3'')
        (snd (execute_replace echo_ports demo_id (demo_next ''k2'')
          (demo_with (demo_order CANCELED 0))))))))
    = [(''k2'', 2), (''k3'', 2)]"
  by code_simp

end
