(* ===== verification/Order_Ownership.thy ===== *)
theory Order_Ownership
  imports Service_Facts
begin

text \<open>
  Order ownership, \<open>freqtrade/hedge/execution/ownership.py\<close>: whether an order of the exchange
  belongs to this program. The execution store decides; the prefix of a client order id is only a
  hint for orders the store does not know. \<open>str\<close> of a metadata value that is not a string is a
  parameter.
\<close>

section \<open>The registry\<close>

datatype order_ownership = MANAGED | EXTERNAL | ORPHAN_PREFIX

record ownership_decision =
  od_client_order_id :: string
  od_ownership :: order_ownership
  od_order :: "execution_order option"
  od_planner_intent_id :: "string option"

record ownership_registry =
  rg_store :: exec_store
  rg_prefixes :: "string list"

definition first_occurrences :: "'a list \<Rightarrow> 'a list" where
  \<comment> \<open>\<open>tuple(dict.fromkeys(xs))\<close>\<close>
  "first_occurrences xs = map fst (fold (\<lambda>x d. dict_put x () d) xs [])"

definition mk_registry :: "exec_store \<Rightarrow> string list \<Rightarrow> ownership_registry res" where
  "mk_registry store managed_prefixes =
     (let prefixes = first_occurrences (map (\<lambda>p. upper (strip p)) managed_prefixes) in
      if prefixes = [] \<or> list_ex (\<lambda>p. p = []) prefixes
      then Inl (Exn ValueError ''managed_prefixes must contain non-empty values'')
      else Inr \<lparr>rg_store = store, rg_prefixes = prefixes\<rparr>)"

definition planner_text :: "(pyval \<Rightarrow> string) \<Rightarrow> execution_order \<Rightarrow> string" where
  \<comment> \<open>\<open>str(order.intent.metadata.get("planner_intent_id", "")).strip()\<close>\<close>
  "planner_text py_str order =
     strip (case dict_get (oi_metadata (eo_intent order)) ''planner_intent_id'' of
       None \<Rightarrow> [] | Some (VStr s) \<Rightarrow> s | Some v \<Rightarrow> py_str v)"

definition starts_with :: "string \<Rightarrow> string \<Rightarrow> bool" where
  "starts_with s prefix \<longleftrightarrow> take (length prefix) s = prefix"

definition classify :: "(pyval \<Rightarrow> string) \<Rightarrow> ownership_registry \<Rightarrow> string \<Rightarrow> ownership_decision res" where
  "classify py_str g client_order_id =
     (let client_id = strip client_order_id in
      if client_id = [] then Inl (Exn ValueError ''client_order_id is required'') else
      case store_get (rg_store g) client_id of
        Some order \<Rightarrow>
          let planner_id = planner_text py_str order in
          Inr \<lparr>od_client_order_id = client_id, od_ownership = MANAGED, od_order = Some order,
            od_planner_intent_id = (if planner_id = [] then None else Some planner_id)\<rparr>
      | None \<Rightarrow>
          if list_ex (starts_with (upper client_id)) (rg_prefixes g)
          then Inr \<lparr>od_client_order_id = client_id, od_ownership = ORPHAN_PREFIX, od_order = None,
            od_planner_intent_id = None\<rparr>
          else Inr \<lparr>od_client_order_id = client_id, od_ownership = EXTERNAL, od_order = None,
            od_planner_intent_id = None\<rparr>)"

definition recency :: "execution_order \<Rightarrow> int \<times> string" where
  "recency order = (eo_created_at order, eo_client_order_id order)"

definition newest :: "execution_order list \<Rightarrow> execution_order" where
  \<comment> \<open>\<open>sort(key=..., reverse=True)\<close> and the first element\<close>
  "newest orders = hd (rev (sort_key recency (rev orders)))"

definition resolve_managed_reference ::
    "(pyval \<Rightarrow> string) \<Rightarrow> ownership_registry \<Rightarrow> string \<Rightarrow> execution_order option res" where
  "resolve_managed_reference py_str g reference =
     (let value = strip reference in
      if value = [] then Inl (Exn ValueError ''order reference is required'') else
      case store_get (rg_store g) value of
        Some direct \<Rightarrow> Inr (Some direct)
      | None \<Rightarrow>
          let matches = filter (\<lambda>order. planner_text py_str order = value) (store_list (rg_store g));
              nonterminal = filter (\<lambda>order. \<not> lc_terminal (eo_lifecycle order)) matches in
          if matches = [] then Inr None
          else Inr (Some (newest (if nonterminal = [] then matches else nonterminal))))"

definition managed_open_orders ::
    "string option \<Rightarrow> string option \<Rightarrow> ownership_registry \<Rightarrow> execution_order list" where
  "managed_open_orders account_id symbol g = sort_key recency
     (filter (\<lambda>order. \<not> lc_terminal (eo_lifecycle order)
        \<and> (case account_id of None \<Rightarrow> True | Some a \<Rightarrow> oi_account_id (eo_intent order) = a)
        \<and> (case symbol of None \<Rightarrow> True | Some s \<Rightarrow> oi_symbol (eo_intent order) = s))
       (store_list (rg_store g)))"

fun classify_many :: "(pyval \<Rightarrow> string) \<Rightarrow> ownership_registry \<Rightarrow> string list \<Rightarrow>
    ownership_decision list res" where
  "classify_many py_str g [] = Inr []"
| "classify_many py_str g (c # cs) = res_bind (classify py_str g c) (\<lambda>d.
     res_bind (classify_many py_str g cs) (\<lambda>ds. Inr (d # ds)))"

section \<open>What a reference resolves to\<close>

lemma newest_in: "orders \<noteq> [] \<Longrightarrow> newest orders \<in> set orders"
proof -
  assume "orders \<noteq> []"
  then have "rev (sort_key recency (rev orders)) \<noteq> []" by (metis rev_is_Nil_conv set_empty set_rev set_sort)
  from hd_in_set [OF this] show ?thesis by (simp add: newest_def)
qed

lemma newest_max:
  assumes "e \<in> set orders"
  shows "recency e \<le> recency (newest orders)"
proof -
  define xs where "xs = sort_key recency (rev orders)"
  have s: "sorted (map recency xs)" and e: "e \<in> set xs" using assms by (simp_all add: xs_def)
  then have ne: "xs \<noteq> []" by auto
  obtain k where k: "k < length xs" "e = xs ! k" using e by (metis in_set_conv_nth)
  have "map recency xs ! k \<le> map recency xs ! (length xs - 1)"
    by (rule sorted_nth_mono [OF s]) (use k in auto)
  then show ?thesis using k ne by (simp add: newest_def xs_def [symmetric] hd_rev last_conv_nth)
qed

lemma classify_Inr:
  assumes "classify py_str g c = Inr d"
  shows "od_client_order_id d = strip c" and "od_order d = dict_get (rg_store g) (strip c)"
    and "od_ownership d = MANAGED \<longleftrightarrow> dict_get (rg_store g) (strip c) \<noteq> None"
  using assms by (auto simp: classify_def Let_def store_get_def split: if_splits option.splits)

lemma classify_many_Inr: "classify_many py_str g cs = Inr ds \<Longrightarrow>
    list_all2 (\<lambda>c d. classify py_str g c = Inr d) cs ds"
  by (induction cs arbitrary: ds) (auto simp: res_splits)

section \<open>Properties\<close>

text \<open>the store alone decides what is managed: in any history of the execution service, an id is
  classified MANAGED exactly when the service stored an order under it, and then with that order; an
  order of anybody else is never managed, whatever its prefix.\<close>

theorem only_stored_orders_are_managed:
  assumes "svc_run P (new_service ks w) s" and "mk_registry (sv_store s) prefixes = Inr g"
    and "classify py_str g cid = Inr d"
  shows "(od_ownership d = MANAGED \<longleftrightarrow> (\<exists>e. dict_get (sv_store s) (strip cid) = Some e))
    \<and> (\<forall>e. od_order d = Some e \<longrightarrow> eo_client_order_id e = strip cid \<and> od_ownership d = MANAGED)"
proof -
  have "rg_store g = sv_store s" using assms(2) by (auto simp: mk_registry_def Let_def split: if_splits)
  moreover have "store_inv (sv_store s)" using run_ok [OF assms(1) new_service_ok] by (simp add: svc_ok_def)
  ultimately show ?thesis using classify_Inr [OF assms(3)] by (auto simp: store_inv_def)
qed

text \<open>a reference that is not a client order id resolves to a stored order that the planner gave that
  intent id: to the newest one that is still open, if there is any, and else to the newest one; it
  resolves to nothing exactly when no stored order has it.\<close>

theorem reference_resolves_to_newest:
  assumes "resolve_managed_reference py_str g r = Inr res" and "dict_get (rg_store g) (strip r) = None"
  defines "matching \<equiv> {e \<in> set (store_list (rg_store g)). planner_text py_str e = strip r}"
  defines "opened \<equiv> {e \<in> matching. \<not> lc_terminal (eo_lifecycle e)}"
  shows "(res = None \<longleftrightarrow> matching = {})
    \<and> (\<forall>e. res = Some e \<longrightarrow> e \<in> (if opened = {} then matching else opened)
        \<and> (\<forall>e' \<in> (if opened = {} then matching else opened). recency e' \<le> recency e))"
proof -
  define ms where "ms = filter (\<lambda>order. planner_text py_str order = strip r) (store_list (rg_store g))"
  define os where "os = filter (\<lambda>order. \<not> lc_terminal (eo_lifecycle order)) ms"
  define cs where "cs = (if os = [] then ms else os)"
  have two: "matching = set ms" "opened = set os"
    by (auto simp: matching_def opened_def ms_def os_def)
  then have sets: "matching = set ms" "(if opened = {} then matching else opened) = set cs"
    by (simp_all add: cs_def)
  have "res = (if ms = [] then None else Some (newest cs))"
    using assms(1,2) by (auto simp: resolve_managed_reference_def Let_def store_get_def ms_def os_def cs_def
        split: if_splits)
  moreover have "ms \<noteq> [] \<Longrightarrow> cs \<noteq> []" by (simp add: cs_def)
  ultimately show ?thesis using newest_in newest_max by (auto simp: sets)
qed

text \<open>An order that this program acknowledged, and one of somebody else with the same prefix.\<close>

definition demo_registry :: ownership_registry where
  "demo_registry = \<lparr>rg_store = sv_store (after_submit ack_ports), rg_prefixes = [''FTH-'']\<rparr>"

lemma demo_registry_mk: "mk_registry (sv_store (after_submit ack_ports)) ['' fth-''] = Inr demo_registry"
proof -
  have "first_occurrences (map (\<lambda>p. upper (strip p)) ['' fth-'']) = [''FTH-'']" by code_simp
  then show ?thesis by (simp add: mk_registry_def demo_registry_def)
qed

lemma foreign_order: "classify (\<lambda>v. []) demo_registry ''FTH-OTHER'' = Inr \<lparr>od_client_order_id = ''FTH-OTHER'',
    od_ownership = ORPHAN_PREFIX, od_order = None, od_planner_intent_id = None\<rparr>"
  by code_simp

theorem only_stored_orders_are_managed_witness:
  "dict_get (sv_store (after_submit ack_ports)) (strip ''FTH-OTHER'') = None"
proof -
  have "svc_run ack_ports (new_service (new_kill_switch True False False 0) 1000) (after_submit ack_ports)"
    using after_submit_run unfolding demo_start_new .
  from only_stored_orders_are_managed [OF this demo_registry_mk foreign_order] show ?thesis by auto
qed

text \<open>Two orders of one planner intent: the newer one was rejected, the older one is still open.\<close>

definition planned_order :: "string \<Rightarrow> order_state \<Rightarrow> int \<Rightarrow> execution_order" where
  "planned_order cid status t = \<lparr>eo_intent = demo_intent\<lparr>oi_metadata := [(''planner_intent_id'', VStr ''p7'')]\<rparr>,
     eo_client_order_id = cid, eo_approved_quantity = 2,
     eo_lifecycle = (new_lifecycle t)\<lparr>lc_status := status\<rparr>, eo_created_at = t\<rparr>"

definition planned_registry :: ownership_registry where
  "planned_registry = \<lparr>rg_store = [(''FTH-1'', planned_order ''FTH-1'' ACKNOWLEDGED 1000),
     (''FTH-2'', planned_order ''FTH-2'' REJECTED 2000)], rg_prefixes = [''FTH-'']\<rparr>"

lemma planned_resolves: "resolve_managed_reference (\<lambda>v. []) planned_registry '' p7''
    = Inr (Some (planned_order ''FTH-1'' ACKNOWLEDGED 1000))"
  by code_simp

theorem reference_resolves_to_newest_witness:
  "planner_text (\<lambda>v. []) (planned_order ''FTH-1'' ACKNOWLEDGED 1000) = strip '' p7''"
proof -
  have "dict_get (rg_store planned_registry) (strip '' p7'') = None" by code_simp
  from reference_resolves_to_newest [OF planned_resolves this] show ?thesis
    by (auto split: if_splits)
qed

end
