(* ===== verification/Database_Lease.thy ===== *)
theory Database_Lease
  imports Py_Values
begin

text \<open>
  Leases for the single-writer invariant, \<open>freqtrade/hedge/concurrency/database_lease.py\<close>: the
  lease record with its validation, the in-memory store and the SQLite store. The SQLite table is a
  dictionary of rows by their primary key; a transaction (\<open>BEGIN IMMEDIATE\<close> to \<open>COMMIT\<close>)
  is one atomic step, an \<open>UPDATE ... WHERE\<close> changes the row of the key when the condition holds,
  and what raises after the commit keeps the committed row. The third store of the file, over
  SQLAlchemy, is not modelled.
\<close>

section \<open>Lease records\<close>

record lease_record =
  le_name :: string
  le_owner :: string
  le_token :: int
  le_acquired_at :: int
  le_renewed_at :: int
  le_expires_at :: int

definition normalize_lease_name :: "string \<Rightarrow> string res" where
  "normalize_lease_name v =
     (if strip v = [] then Inl (Exn ValueError ''lease_name must not be empty.'')
      else if length (strip v) > 255
      then Inl (Exn ValueError ''lease_name must not exceed 255 characters.'')
      else Inr (strip v))"

definition lease_owner :: "string \<Rightarrow> string res" where
  "lease_owner v =
     (if strip v = [] then Inl (Exn ValueError ''owner_id must not be empty.'')
      else if length (strip v) > 255
      then Inl (Exn ValueError ''owner_id must not exceed 255 characters.'')
      else Inr (strip v))"

definition mk_lease :: "lease_record \<Rightarrow> lease_record res" where
  \<comment> \<open>\<open>LeaseRecord.__post_init__\<close>\<close>
  "mk_lease r =
     res_bind (normalize_lease_name (le_name r)) (\<lambda>lease_name.
     res_bind (lease_owner (le_owner r)) (\<lambda>owner_id.
     if le_token r \<le> 0 then Inl (Exn ValueError ''fencing_token must be a positive integer.'')
     else if le_acquired_at r < 0
     then Inl (Exn ValueError ''acquired_at_ms must be a nonnegative integer.'')
     else if le_renewed_at r < 0
     then Inl (Exn ValueError ''renewed_at_ms must be a nonnegative integer.'')
     else if le_expires_at r < 0
     then Inl (Exn ValueError ''expires_at_ms must be a nonnegative integer.'')
     else if le_renewed_at r < le_acquired_at r
     then Inl (Exn ValueError ''renewed_at_ms must not precede acquired_at_ms.'')
     else if le_expires_at r \<noteq> 0 \<and> le_expires_at r \<le> le_renewed_at r
     then Inl (Exn ValueError ''A live lease expiry must be later than renewed_at_ms.'')
     else Inr (r\<lparr>le_name := lease_name, le_owner := owner_id\<rparr>)))"

definition lease_valid :: "int \<Rightarrow> lease_record \<Rightarrow> bool res" where
  \<comment> \<open>\<open>is_valid\<close>\<close>
  "lease_valid now r = (if now < 0 then Inl (Exn ValueError ''now_ms must be a nonnegative integer.'')
     else Inr (now < le_expires_at r))"

definition validate_lease_arguments ::
    "string \<Rightarrow> string \<Rightarrow> int \<Rightarrow> int \<Rightarrow> (string \<times> string) res" where
  "validate_lease_arguments lease_name owner_id now ttl =
     res_bind (normalize_lease_name lease_name) (\<lambda>name.
     res_bind (lease_owner owner_id) (\<lambda>owner.
     if now < 0 then Inl (Exn ValueError ''now_ms must be a nonnegative integer.'')
     else if ttl \<le> 0 then Inl (Exn ValueError ''ttl_ms must be a positive integer.'')
     else Inr (name, owner)))"

definition lease_text :: "string \<Rightarrow> bool" where
  "lease_text s \<longleftrightarrow> s \<noteq> [] \<and> strip s = s \<and> length s \<le> 255"

definition lease_ok :: "lease_record \<Rightarrow> bool" where
  \<comment> \<open>what holds of every record object\<close>
  "lease_ok r \<longleftrightarrow> lease_text (le_name r) \<and> lease_text (le_owner r) \<and> 0 < le_token r
     \<and> 0 \<le> le_acquired_at r \<and> le_acquired_at r \<le> le_renewed_at r \<and> 0 \<le> le_expires_at r
     \<and> (le_expires_at r \<noteq> 0 \<longrightarrow> le_renewed_at r < le_expires_at r)"

lemma normalize_lease_name_Inr:
  "normalize_lease_name v = Inr n \<longleftrightarrow> n = strip v \<and> lease_text n"
  by (auto simp: normalize_lease_name_def lease_text_def)

lemma lease_owner_Inr: "lease_owner v = Inr n \<longleftrightarrow> n = strip v \<and> lease_text n"
  by (auto simp: lease_owner_def lease_text_def)

lemma mk_lease_ok: "mk_lease r = Inr s \<Longrightarrow> lease_ok s"
  by (auto simp: mk_lease_def res_splits normalize_lease_name_Inr lease_owner_Inr lease_ok_def
      not_le not_less)

lemma mk_lease_id: "lease_ok r \<Longrightarrow> mk_lease r = Inr r"
  by (auto simp: mk_lease_def lease_ok_def normalize_lease_name_def lease_owner_def lease_text_def)

lemma mk_lease_Inr: "mk_lease r = Inr s \<longleftrightarrow> lease_ok s
    \<and> s = r\<lparr>le_name := strip (le_name r), le_owner := strip (le_owner r)\<rparr>"
  by (auto simp: mk_lease_def res_splits normalize_lease_name_Inr lease_owner_Inr lease_ok_def
      not_le not_less)

lemma validate_lease_arguments_Inr:
  "validate_lease_arguments n ow t l = Inr (n', ow') \<longleftrightarrow>
    n' = strip n \<and> ow' = strip ow \<and> lease_text n' \<and> lease_text ow' \<and> 0 \<le> t \<and> 0 < l"
  by (auto simp: validate_lease_arguments_def res_splits normalize_lease_name_Inr lease_owner_Inr
      not_le not_less)

section \<open>The in-memory store\<close>

type_synonym leases = "(string, lease_record) dict"

text \<open>The token and the acquisition time of a successful \<open>acquire\<close>, in both stores.\<close>

definition next_grant :: "lease_record option \<Rightarrow> string \<Rightarrow> int \<Rightarrow> int \<times> int" where
  "next_grant current owner now = (case current of
     None \<Rightarrow> (1, now)
   | Some c \<Rightarrow> if le_owner c = owner \<and> now < le_expires_at c then (le_token c, le_acquired_at c)
       else (le_token c + 1, now))"

definition held_by_other :: "lease_record option \<Rightarrow> string \<Rightarrow> int \<Rightarrow> bool" where
  "held_by_other current owner now = (case current of None \<Rightarrow> False
     | Some c \<Rightarrow> le_owner c \<noteq> owner \<and> now < le_expires_at c)"

definition grant_record :: "string \<Rightarrow> string \<Rightarrow> int \<times> int \<Rightarrow> int \<Rightarrow> int \<Rightarrow> lease_record" where
  "grant_record name owner g now ttl = \<lparr>le_name = name, le_owner = owner, le_token = fst g,
     le_acquired_at = snd g, le_renewed_at = now, le_expires_at = now + ttl\<rparr>"

definition mem_acquire ::
    "string \<Rightarrow> string \<Rightarrow> int \<Rightarrow> int \<Rightarrow> (leases, lease_record option) py" where
  "mem_acquire lease_name owner_id now ttl records =
     (case validate_lease_arguments lease_name owner_id now ttl of
        Inl e \<Rightarrow> (Inl e, records)
      | Inr (name, owner) \<Rightarrow>
          let current = dict_get records name in
          if held_by_other current owner now then (Inr None, records) else
          case mk_lease (grant_record name owner (next_grant current owner now) now ttl) of
            Inl e \<Rightarrow> (Inl e, records)
          | Inr r \<Rightarrow> (Inr (Some r), dict_put name r records))"

definition owns :: "lease_record option \<Rightarrow> lease_record \<Rightarrow> bool" where
  "owns current lease = (case current of None \<Rightarrow> False
     | Some c \<Rightarrow> le_owner c = le_owner lease \<and> le_token c = le_token lease)"

definition mem_renew :: "lease_record \<Rightarrow> int \<Rightarrow> int \<Rightarrow> (leases, lease_record option) py" where
  "mem_renew lease now ttl records =
     (case validate_lease_arguments (le_name lease) (le_owner lease) now ttl of
        Inl e \<Rightarrow> (Inl e, records)
      | Inr _ \<Rightarrow> (case dict_get records (le_name lease) of
          None \<Rightarrow> (Inr None, records)
        | Some c \<Rightarrow>
            if \<not> owns (Some c) lease \<or> \<not> now < le_expires_at c then (Inr None, records) else
            case mk_lease (c\<lparr>le_renewed_at := now, le_expires_at := now + ttl\<rparr>) of
              Inl e \<Rightarrow> (Inl e, records)
            | Inr r \<Rightarrow> (Inr (Some r), dict_put (le_name c) r records)))"

definition mem_release :: "lease_record \<Rightarrow> (leases, bool) py" where
  "mem_release lease records = (case dict_get records (le_name lease) of
     None \<Rightarrow> (Inr False, records)
   | Some c \<Rightarrow>
       if \<not> owns (Some c) lease then (Inr False, records) else
       case mk_lease (c\<lparr>le_expires_at := 0\<rparr>) of
         Inl e \<Rightarrow> (Inl e, records)
       | Inr r \<Rightarrow> (Inr True, dict_put (le_name lease) r records))"

definition mem_read :: "string \<Rightarrow> (leases, lease_record option) py" where
  "mem_read lease_name records = (case normalize_lease_name lease_name of
     Inl e \<Rightarrow> (Inl e, records)
   | Inr name \<Rightarrow> (Inr (dict_get records name), records))"

section \<open>The SQLite store\<close>

definition row_to_record :: "lease_record option \<Rightarrow> lease_record option res" where
  "row_to_record row = (case row of None \<Rightarrow> Inr None
     | Some r \<Rightarrow> res_bind (mk_lease r) (\<lambda>x. Inr (Some x)))"

definition sql_acquire ::
    "string \<Rightarrow> string \<Rightarrow> int \<Rightarrow> int \<Rightarrow> (leases, lease_record option) py" where
  "sql_acquire lease_name owner_id now ttl table =
     (case validate_lease_arguments lease_name owner_id now ttl of
        Inl e \<Rightarrow> (Inl e, table)
      | Inr (name, owner) \<Rightarrow> (case row_to_record (dict_get table name) of
          Inl e \<Rightarrow> (Inl e, table)
        | Inr current \<Rightarrow>
            if held_by_other current owner now then (Inr None, table) else
            let row = grant_record name owner (next_grant current owner now) now ttl;
                committed = dict_put name row table in
            case mk_lease row of
              Inl e \<Rightarrow> (Inl e, committed)
            | Inr r \<Rightarrow> (Inr (Some r), committed)))"

definition sql_renew :: "lease_record \<Rightarrow> int \<Rightarrow> int \<Rightarrow> (leases, lease_record option) py" where
  "sql_renew lease now ttl table =
     (case validate_lease_arguments (le_name lease) (le_owner lease) now ttl of
        Inl e \<Rightarrow> (Inl e, table)
      | Inr _ \<Rightarrow> (case dict_get table (le_name lease) of
          None \<Rightarrow> (Inr None, table)
        | Some c \<Rightarrow>
            if \<not> owns (Some c) lease \<or> \<not> le_expires_at c > now then (Inr None, table) else
            let committed = dict_put (le_name lease)
                  (c\<lparr>le_renewed_at := now, le_expires_at := now + ttl\<rparr>) table in
            case mk_lease (lease\<lparr>le_renewed_at := now, le_expires_at := now + ttl\<rparr>) of
              Inl e \<Rightarrow> (Inl e, committed)
            | Inr r \<Rightarrow> (Inr (Some r), committed)))"

definition sql_release :: "lease_record \<Rightarrow> (leases, bool) py" where
  "sql_release lease table = (case dict_get table (le_name lease) of
     None \<Rightarrow> (Inr False, table)
   | Some c \<Rightarrow> if \<not> owns (Some c) lease then (Inr False, table)
       else (Inr True, dict_put (le_name lease) (c\<lparr>le_expires_at := 0\<rparr>) table))"

definition sql_read :: "string \<Rightarrow> (leases, lease_record option) py" where
  "sql_read lease_name table = (case normalize_lease_name lease_name of
     Inl e \<Rightarrow> (Inl e, table)
   | Inr name \<Rightarrow> (row_to_record (dict_get table name), table))"

section \<open>The invariant of a store\<close>

definition leases_ok :: "leases \<Rightarrow> bool" where
  "leases_ok d \<longleftrightarrow> (\<forall>n r. dict_get d n = Some r \<longrightarrow> le_name r = n \<and> lease_ok r)"

lemma leases_ok_put: "leases_ok d \<Longrightarrow> lease_ok r \<Longrightarrow> le_name r = n \<Longrightarrow> leases_ok (dict_put n r d)"
  by (simp add: leases_ok_def dict_get_put)

lemma leases_ok_get: "leases_ok d \<Longrightarrow> dict_get d n = Some r \<Longrightarrow> le_name r = n \<and> lease_ok r"
  by (simp add: leases_ok_def)

lemma row_to_record_ok:
  "leases_ok d \<Longrightarrow> row_to_record (dict_get d n) = Inr (dict_get d n)"
  by (auto simp: row_to_record_def mk_lease_id dest: leases_ok_get split: option.split)

lemma strip_lease_text: "lease_text s \<Longrightarrow> strip s = s"
  by (simp add: lease_text_def)

section \<open>What a store promises\<close>

text \<open>A grant continues the owner's live lease under its token, or starts a new one under the next
  token, and never takes over a lease that another owner still holds.\<close>

definition grants :: "lease_record option \<Rightarrow> lease_record \<Rightarrow> int \<Rightarrow> bool" where
  "grants old l now \<longleftrightarrow> \<not> held_by_other old (le_owner l) now
     \<and> (le_token l, le_acquired_at l) = next_grant old (le_owner l) now \<and> now < le_expires_at l"

locale lease_store =
  fixes ok :: "'d \<Rightarrow> int \<Rightarrow> bool"
    and look :: "'d \<Rightarrow> string \<Rightarrow> lease_record option"
    and acq :: "string \<Rightarrow> string \<Rightarrow> int \<Rightarrow> int \<Rightarrow> ('d, lease_record option) py"
    and ren :: "lease_record \<Rightarrow> int \<Rightarrow> int \<Rightarrow> ('d, lease_record option) py"
    and rel :: "lease_record \<Rightarrow> ('d, bool) py"
  assumes ok_later: "ok d t \<Longrightarrow> t \<le> t' \<Longrightarrow> ok d t'"
    and acquire_law: "ok d now \<Longrightarrow> acq n ow now ttl d = (r, d') \<Longrightarrow> ok d' now \<and>
      (case r of Inr (Some l) \<Rightarrow> le_name l = strip n \<and> le_owner l = strip ow
           \<and> grants (look d (le_name l)) l now \<and> look d' = (look d)(le_name l \<mapsto> l)
       | _ \<Rightarrow> look d' = look d)"
    and renew_law: "ok d now \<Longrightarrow> ren lease now ttl d = (r, d') \<Longrightarrow> ok d' now \<and>
      (case r of Inr (Some l) \<Rightarrow> (\<exists>c. look d (le_name lease) = Some c \<and> owns (Some c) lease
           \<and> now < le_expires_at c \<and> le_name l = le_name lease \<and> le_owner l = le_owner lease
           \<and> le_token l = le_token lease
           \<and> look d' = (look d)(le_name lease \<mapsto> c\<lparr>le_renewed_at := now, le_expires_at := now + ttl\<rparr>))
       | _ \<Rightarrow> look d' = look d \<or> (\<exists>c. look d (le_name lease) = Some c
           \<and> look d' = (look d)(le_name lease \<mapsto> c\<lparr>le_renewed_at := now, le_expires_at := now + ttl\<rparr>)))"
    and release_law: "ok d now \<Longrightarrow> rel lease d = (b, d') \<Longrightarrow> ok d' now \<and>
      (look d' = look d \<or> (\<exists>c. look d (le_name lease) = Some c \<and> owns (Some c) lease
         \<and> look d' = (look d)(le_name lease \<mapsto> c\<lparr>le_expires_at := 0\<rparr>)))"

text \<open>Every history of a store, with the leases it handed out: any owner may call at any time,
  as long as the times at which the calls are made do not go back.\<close>

inductive lease_run :: "(string \<Rightarrow> string \<Rightarrow> int \<Rightarrow> int \<Rightarrow> ('d, lease_record option) py) \<Rightarrow>
    (lease_record \<Rightarrow> int \<Rightarrow> int \<Rightarrow> ('d, lease_record option) py) \<Rightarrow>
    (lease_record \<Rightarrow> ('d, bool) py) \<Rightarrow> 'd \<Rightarrow> 'd \<Rightarrow> int \<Rightarrow> lease_record list \<Rightarrow> bool"
  for acq ren rel d0 where
  start: "lease_run acq ren rel d0 d0 0 []"
| acquired: "lease_run acq ren rel d0 d t gs \<Longrightarrow> t \<le> now \<Longrightarrow> acq n ow now ttl d = (r, d') \<Longrightarrow>
    lease_run acq ren rel d0 d' now (case r of Inr (Some l) \<Rightarrow> l # gs | _ \<Rightarrow> gs)"
| renewed: "lease_run acq ren rel d0 d t gs \<Longrightarrow> t \<le> now \<Longrightarrow> l \<in> set gs \<Longrightarrow>
    ren l now ttl d = (r, d') \<Longrightarrow>
    lease_run acq ren rel d0 d' now (case r of Inr (Some l') \<Rightarrow> l' # gs | _ \<Rightarrow> gs)"
| released: "lease_run acq ren rel d0 d t gs \<Longrightarrow> l \<in> set gs \<Longrightarrow> rel l d = (r, d') \<Longrightarrow>
    lease_run acq ren rel d0 d' t gs"

context lease_store begin

definition covered :: "'d \<Rightarrow> lease_record \<Rightarrow> bool" where
  \<comment> \<open>the stored lease is not older than the one handed out\<close>
  "covered d l \<longleftrightarrow> (\<exists>c. look d (le_name l) = Some c \<and> le_token l \<le> le_token c
     \<and> (le_token l = le_token c \<longrightarrow> le_owner l = le_owner c))"

definition one_owner :: "lease_record list \<Rightarrow> bool" where
  "one_owner gs \<longleftrightarrow> (\<forall>l \<in> set gs. \<forall>l' \<in> set gs. le_name l = le_name l' \<longrightarrow>
     le_token l = le_token l' \<longrightarrow> le_owner l = le_owner l')"

definition fenced :: "'d \<Rightarrow> lease_record list \<Rightarrow> bool" where
  "fenced d gs \<longleftrightarrow> (\<forall>l \<in> set gs. covered d l) \<and> one_owner gs"

lemma covered_updated:
  assumes "covered d l" and "look d n = Some c" and "look d' = (look d)(n \<mapsto> c')"
    and "le_token c < le_token c' \<or> le_token c' = le_token c \<and> le_owner c' = le_owner c"
  shows "covered d' l"
  using assms unfolding covered_def by (cases "le_name l = n") auto

lemma fenced_updated:
  "fenced d gs \<Longrightarrow> look d n = Some c \<Longrightarrow> look d' = (look d)(n \<mapsto> c') \<Longrightarrow>
    le_token c' = le_token c \<Longrightarrow> le_owner c' = le_owner c \<Longrightarrow> fenced d' gs"
  unfolding fenced_def using covered_updated by blast

lemma one_owner_add:
  assumes "one_owner gs"
    and "\<And>x. x \<in> set gs \<Longrightarrow> le_name x = le_name l \<Longrightarrow> le_token x = le_token l \<Longrightarrow> le_owner x = le_owner l"
  shows "one_owner (l # gs)"
proof -
  have "le_owner x = le_owner y" if "x \<in> set (l # gs)" "y \<in> set (l # gs)" "le_name x = le_name y"
      "le_token x = le_token y" for x y
  proof (cases "x \<in> set gs \<and> y \<in> set gs")
    case True
    then show ?thesis using assms(1) that(3,4) unfolding one_owner_def by blast
  next
    case False
    moreover have "x = l \<or> x \<in> set gs" "y = l \<or> y \<in> set gs" using that(1,2) by simp_all
    ultimately consider "x = l" "y \<in> set gs" | "x \<in> set gs" "y = l" | "x = y" by blast
    then show ?thesis
    proof cases
      case 1
      then show ?thesis using assms(2) [of y] that(3,4) by simp
    next
      case 2
      then show ?thesis using assms(2) [of x] that(3,4) by simp
    qed simp
  qed
  then show ?thesis unfolding one_owner_def by blast
qed

lemma fenced_add:
  assumes "fenced d gs" and "look d (le_name l) = Some c" and "le_token c = le_token l"
    and "le_owner c = le_owner l"
  shows "fenced d (l # gs)"
proof -
  have "covered d l" using assms(2-4) by (simp add: covered_def)
  moreover have "one_owner (l # gs)"
  proof (rule one_owner_add)
    show "one_owner gs" using assms(1) by (simp add: fenced_def)
    fix x assume "x \<in> set gs" "le_name x = le_name l" "le_token x = le_token l"
    moreover have "covered d x" using assms(1) \<open>x \<in> set gs\<close> by (simp add: fenced_def)
    ultimately show "le_owner x = le_owner l" using assms(2-4) by (simp add: covered_def)
  qed
  ultimately show ?thesis using assms(1) by (simp add: fenced_def)
qed

lemma fenced_granted:
  assumes f: "fenced d gs" and g: "grants (look d (le_name l)) l now"
    and d': "look d' = (look d)(le_name l \<mapsto> l)"
  shows "fenced d' (l # gs)"
proof (cases "look d (le_name l)")
  case None
  have fresh: "le_name x \<noteq> le_name l" if "x \<in> set gs" for x
    using f that None by (auto simp: fenced_def covered_def)
  then have "covered d' x" if "x \<in> set gs" for x
    using f that by (simp add: fenced_def covered_def d')
  moreover have "one_owner (l # gs)"
    using f fresh by (intro one_owner_add) (auto simp: fenced_def)
  ultimately show ?thesis by (simp add: fenced_def covered_def d')
next
  case (Some c)
  have up: "le_token c < le_token l \<or> le_token l = le_token c \<and> le_owner l = le_owner c"
    using g Some by (auto simp: grants_def next_grant_def split: if_splits)
  have old: "\<forall>x \<in> set gs. covered d' x"
    using f covered_updated [OF _ Some d' up] by (simp add: fenced_def)
  have "one_owner (l # gs)"
  proof (rule one_owner_add)
    show "one_owner gs" using f by (simp add: fenced_def)
    fix x assume "x \<in> set gs" "le_name x = le_name l" "le_token x = le_token l"
    moreover have "covered d' x" using old \<open>x \<in> set gs\<close> by blast
    ultimately show "le_owner x = le_owner l" by (simp add: covered_def d')
  qed
  then show ?thesis using old by (simp add: fenced_def covered_def d')
qed

lemma run_fenced:
  assumes "lease_run acq ren rel d0 d t gs" and "ok d0 0"
  shows "ok d t \<and> fenced d gs"
  using assms
proof (induction rule: lease_run.induct)
  case start
  then show ?case by (simp add: fenced_def one_owner_def)
next
  case (acquired d t gs now n ow ttl r d')
  then have k: "ok d now" "fenced d gs" using ok_later by auto
  note a = acquire_law [OF k(1) acquired(3)]
  show ?case
  proof (cases "\<exists>l. r = Inr (Some l)")
    case True
    then obtain l where "r = Inr (Some l)" by blast
    then have g: "grants (look d (le_name l)) l now" "look d' = (look d)(le_name l \<mapsto> l)" "ok d' now"
      using a by auto
    then show ?thesis using fenced_granted [OF k(2) g(1,2)] \<open>r = Inr (Some l)\<close> by simp
  next
    case False
    then have "look d' = look d" using a by (auto split: sum.splits option.splits)
    then show ?thesis using False a k(2) by (auto simp: fenced_def covered_def split: sum.splits option.splits)
  qed
next
  case (renewed d t gs now l ttl r d')
  then have k: "ok d now" "fenced d gs" using ok_later by auto
  note a = renew_law [OF k(1) renewed(4)]
  show ?case
  proof (cases "\<exists>l'. r = Inr (Some l')")
    case True
    then obtain l' where r: "r = Inr (Some l')" by blast
    with a obtain c where c: "look d (le_name l) = Some c" "owns (Some c) l" "le_name l' = le_name l"
      "le_owner l' = le_owner l" "le_token l' = le_token l"
      "look d' = (look d)(le_name l \<mapsto> c\<lparr>le_renewed_at := now, le_expires_at := now + ttl\<rparr>)" by auto
    have "fenced d' gs" by (rule fenced_updated [OF k(2) c(1,6)]) simp_all
    then have "fenced d' (l' # gs)" by (rule fenced_add [where c = "c\<lparr>le_renewed_at := now, le_expires_at := now + ttl\<rparr>"])
      (use c in \<open>auto simp: owns_def\<close>)
    then show ?thesis using a r by simp
  next
    case False
    then consider "look d' = look d" | c where "look d (le_name l) = Some c"
        "look d' = (look d)(le_name l \<mapsto> c\<lparr>le_renewed_at := now, le_expires_at := now + ttl\<rparr>)"
      using a by (auto split: sum.splits option.splits)
    then have "fenced d' gs"
    proof cases
      case 1
      then show ?thesis using k(2) by (simp add: fenced_def covered_def)
    next
      case (2 c)
      then show ?thesis using fenced_updated [OF k(2) 2(1) 2(2)] by simp
    qed
    then show ?thesis using False a by (auto split: sum.splits option.splits)
  qed
next
  case (released d t gs l r d')
  note a = release_law [OF _ released(3)]
  have k: "ok d t" "fenced d gs" using released by auto
  from a [OF k(1)] consider "look d' = look d"
    | c where "look d (le_name l) = Some c" "look d' = (look d)(le_name l \<mapsto> c\<lparr>le_expires_at := 0\<rparr>)" by blast
  then have "fenced d' gs"
  proof cases
    case 1
    then show ?thesis using k(2) by (simp add: fenced_def covered_def)
  next
    case (2 c)
    then show ?thesis using fenced_updated [OF k(2) 2(1) 2(2)] by simp
  qed
  then show ?case using a [OF k(1)] by simp
qed

lemma run_one_owner:
  assumes "lease_run acq ren rel d0 d t gs" and "ok d0 0" and "l \<in> set gs" and "l' \<in> set gs"
    and "le_name l = le_name l'" and "le_token l = le_token l'"
  shows "le_owner l = le_owner l'"
  using run_fenced [OF assms(1,2)] assms(3-6) unfolding fenced_def one_owner_def by blast

end

section \<open>The two stores keep the promise\<close>

definition acquired_before :: "leases \<Rightarrow> int \<Rightarrow> bool" where
  "acquired_before d t \<longleftrightarrow> (\<forall>n r. dict_get d n = Some r \<longrightarrow> le_acquired_at r \<le> t)"

definition sql_ok :: "leases \<Rightarrow> int \<Rightarrow> bool" where
  "sql_ok d t \<longleftrightarrow> leases_ok d \<and> acquired_before d t"

lemma acquired_before_put:
  "acquired_before d t \<Longrightarrow> le_acquired_at r \<le> t \<Longrightarrow> acquired_before (dict_put n r d) t"
  by (simp add: acquired_before_def dict_get_put)

lemma grant_record_simps [simp]:
  "le_name (grant_record n ow g now ttl) = n" "le_owner (grant_record n ow g now ttl) = ow"
  "le_token (grant_record n ow g now ttl) = fst g" "le_acquired_at (grant_record n ow g now ttl) = snd g"
  "le_renewed_at (grant_record n ow g now ttl) = now"
  "le_expires_at (grant_record n ow g now ttl) = now + ttl"
  by (simp_all add: grant_record_def)

lemma mk_grant:
  "lease_text n \<Longrightarrow> lease_text ow \<Longrightarrow> mk_lease (grant_record n ow g now ttl) = Inr l \<Longrightarrow>
    l = grant_record n ow g now ttl \<and> lease_ok l"
  by (auto simp: mk_lease_Inr strip_lease_text)

lemma mem_acquire_law:
  assumes "leases_ok d" and "mem_acquire n ow now ttl d = (r, d')"
  shows "leases_ok d' \<and> (case r of Inr (Some l) \<Rightarrow> le_name l = strip n \<and> le_owner l = strip ow
       \<and> grants (dict_get d (le_name l)) l now \<and> dict_get d' = (dict_get d)(le_name l \<mapsto> l)
     | _ \<Rightarrow> dict_get d' = dict_get d)"
proof (cases "\<exists>l. r = Inr (Some l)")
  case False
  then have "d' = d" using assms(2)
    by (auto simp: mem_acquire_def Let_def split: sum.splits prod.splits if_splits)
  then show ?thesis using False assms(1) by (auto split: sum.splits option.splits)
next
  case True
  then obtain l where r: "r = Inr (Some l)" by blast
  obtain name owner where v: "validate_lease_arguments n ow now ttl = Inr (name, owner)"
    and h: "\<not> held_by_other (dict_get d name) owner now"
    and mk: "mk_lease (grant_record name owner (next_grant (dict_get d name) owner now) now ttl) = Inr l"
    and d': "d' = dict_put name l d"
    using assms(2) r by (auto simp: mem_acquire_def Let_def split: sum.splits prod.splits if_splits)
  have vv: "name = strip n" "owner = strip ow" "lease_text name" "lease_text owner" "0 < ttl"
    using v by (auto simp: validate_lease_arguments_Inr)
  have l: "l = grant_record name owner (next_grant (dict_get d name) owner now) now ttl" "lease_ok l"
    using mk_grant [OF vv(3,4) mk] by blast+
  have "leases_ok d'" unfolding d' using leases_ok_put [OF assms(1) l(2)] l(1) by simp
  then show ?thesis using vv h d' r by (simp add: l(1) grants_def dict_get_put)
qed

lemma lease_ok_renewed:
  "lease_ok c \<Longrightarrow> le_acquired_at c \<le> now \<Longrightarrow> 0 < ttl \<Longrightarrow>
    lease_ok (c\<lparr>le_renewed_at := now, le_expires_at := now + ttl\<rparr>)"
  by (auto simp: lease_ok_def)

lemma lease_ok_released: "lease_ok c \<Longrightarrow> lease_ok (c\<lparr>le_expires_at := 0\<rparr>)"
  by (auto simp: lease_ok_def)

lemma mem_renew_law:
  assumes "leases_ok d" and "mem_renew lease now ttl d = (r, d')"
  shows "leases_ok d' \<and> (case r of Inr (Some l) \<Rightarrow> (\<exists>c. dict_get d (le_name lease) = Some c
       \<and> owns (Some c) lease \<and> now < le_expires_at c \<and> le_name l = le_name lease
       \<and> le_owner l = le_owner lease \<and> le_token l = le_token lease
       \<and> dict_get d' = (dict_get d)(le_name lease \<mapsto> c\<lparr>le_renewed_at := now, le_expires_at := now + ttl\<rparr>))
     | _ \<Rightarrow> dict_get d' = dict_get d \<or> (\<exists>c. dict_get d (le_name lease) = Some c
         \<and> dict_get d' = (dict_get d)(le_name lease \<mapsto> c\<lparr>le_renewed_at := now, le_expires_at := now + ttl\<rparr>)))"
proof (cases "\<exists>l. r = Inr (Some l)")
  case False
  then have "d' = d" using assms(2)
    by (auto simp: mem_renew_def Let_def split: sum.splits prod.splits if_splits option.splits)
  then show ?thesis using False assms(1) by (auto split: sum.splits option.splits)
next
  case True
  then obtain l where r: "r = Inr (Some l)" by blast
  obtain c where c: "dict_get d (le_name lease) = Some c" "owns (Some c) lease" "now < le_expires_at c"
    and mk: "mk_lease (c\<lparr>le_renewed_at := now, le_expires_at := now + ttl\<rparr>) = Inr l"
    and d': "d' = dict_put (le_name c) l d"
    using assms(2) r by (auto simp: mem_renew_def Let_def split: sum.splits prod.splits if_splits option.splits)
  have ok: "le_name c = le_name lease" "lease_ok c" using leases_ok_get [OF assms(1) c(1)] by simp_all
  have l: "l = c\<lparr>le_renewed_at := now, le_expires_at := now + ttl\<rparr>" "lease_ok l"
    using mk ok(2) by (auto simp: mk_lease_Inr lease_ok_def strip_lease_text)
  have "leases_ok d'" unfolding d' using leases_ok_put [OF assms(1) l(2)] l(1) by simp
  then show ?thesis using c r ok(1) by (auto simp: d' l(1) dict_get_put owns_def)
qed

lemma mem_release_law:
  assumes "leases_ok d" and "mem_release lease d = (b, d')"
  shows "leases_ok d' \<and> (dict_get d' = dict_get d \<or> (\<exists>c. dict_get d (le_name lease) = Some c
     \<and> owns (Some c) lease \<and> dict_get d' = (dict_get d)(le_name lease \<mapsto> c\<lparr>le_expires_at := 0\<rparr>)))"
proof (cases "dict_get d (le_name lease)")
  case None
  then show ?thesis using assms by (simp add: mem_release_def)
next
  case (Some c)
  then have ok: "le_name c = le_name lease" "lease_ok c" using leases_ok_get [OF assms(1) Some] by simp_all
  have "mk_lease (c\<lparr>le_expires_at := 0\<rparr>) = Inr (c\<lparr>le_expires_at := 0\<rparr>)"
    by (rule mk_lease_id [OF lease_ok_released [OF ok(2)]])
  then show ?thesis using assms Some ok(1) leases_ok_put [OF assms(1) lease_ok_released [OF ok(2)]]
    by (auto simp: mem_release_def dict_get_put split: if_splits)
qed

interpretation mls: lease_store "\<lambda>d t. leases_ok d" dict_get mem_acquire mem_renew mem_release
  by unfold_locales (simp, (rule mem_acquire_law mem_renew_law mem_release_law, assumption+)+)

text \<open>The SQLite store is the in-memory store as long as the clock is not behind the acquisition of
  the lease.\<close>

lemma sql_acquire_eq:
  assumes "sql_ok d now"
  shows "sql_acquire n ow now ttl d = mem_acquire n ow now ttl d"
proof (cases "validate_lease_arguments n ow now ttl")
  case (Inl e)
  then show ?thesis by (simp add: sql_acquire_def mem_acquire_def)
next
  case (Inr no)
  obtain name owner where no: "no = (name, owner)" by (cases no)
  note v = Inr [unfolded no validate_lease_arguments_Inr]
  let ?row = "grant_record name owner (next_grant (dict_get d name) owner now) now ttl"
  have row: "row_to_record (dict_get d name) = Inr (dict_get d name)"
    using assms row_to_record_ok by (simp add: sql_ok_def)
  have "lease_ok ?row"
  proof (cases "dict_get d name")
    case None
    then show ?thesis using v by (auto simp: lease_ok_def next_grant_def)
  next
    case (Some c)
    have "lease_ok c" "le_acquired_at c \<le> now"
      using assms Some leases_ok_get by (auto simp: sql_ok_def acquired_before_def)
    then show ?thesis using v Some by (auto simp: lease_ok_def next_grant_def)
  qed
  then have "mk_lease ?row = Inr ?row" by (rule mk_lease_id)
  then show ?thesis using Inr no row by (simp add: sql_acquire_def mem_acquire_def Let_def)
qed

lemma sql_renew_eq:
  assumes "sql_ok d now" and "lease_ok lease"
    and "\<And>c. dict_get d (le_name lease) = Some c \<Longrightarrow> owns (Some c) lease \<Longrightarrow>
      le_acquired_at c = le_acquired_at lease"
  shows "sql_renew lease now ttl d = mem_renew lease now ttl d"
proof (cases "dict_get d (le_name lease)")
  case None
  then show ?thesis by (simp add: sql_renew_def mem_renew_def split: sum.split)
next
  case (Some c)
  have ok: "lease_ok c" "le_name c = le_name lease" "le_acquired_at c \<le> now"
    using assms(1) Some leases_ok_get by (auto simp: sql_ok_def acquired_before_def)
  show ?thesis
  proof (cases "owns (Some c) lease \<and> 0 < ttl")
    case True
    let ?new = "\<lambda>x. x\<lparr>le_renewed_at := now, le_expires_at := now + ttl\<rparr>"
    have same: "?new c = ?new lease"
      using True ok(2) assms(3) [OF Some] by (cases c; cases lease) (simp add: owns_def)
    have "lease_ok (?new c)" using lease_ok_renewed ok True by blast
    then have "mk_lease (?new c) = Inr (?new c)" by (rule mk_lease_id)
    then show ?thesis using Some ok(2)
      by (simp add: sql_renew_def mem_renew_def Let_def same split: sum.split)
  next
    case False
    then show ?thesis using Some
      by (auto simp: sql_renew_def mem_renew_def validate_lease_arguments_Inr split: sum.split)
  qed
qed

lemma sql_release_eq:
  assumes "leases_ok d"
  shows "sql_release lease d = mem_release lease d"
proof (cases "dict_get d (le_name lease)")
  case None
  then show ?thesis by (simp add: sql_release_def mem_release_def)
next
  case (Some c)
  have "mk_lease (c\<lparr>le_expires_at := 0\<rparr>) = Inr (c\<lparr>le_expires_at := 0\<rparr>)"
    using mk_lease_id lease_ok_released leases_ok_get [OF assms Some] by blast
  then show ?thesis using Some by (simp add: sql_release_def mem_release_def)
qed

lemma sql_read_eq: "leases_ok d \<Longrightarrow> sql_read n d = mem_read n d"
  by (auto simp: sql_read_def mem_read_def row_to_record_ok split: sum.split)

lemma sql_acquire_law:
  assumes "sql_ok d now" and "sql_acquire n ow now ttl d = (r, d')"
  shows "sql_ok d' now \<and> (case r of Inr (Some l) \<Rightarrow> le_name l = strip n \<and> le_owner l = strip ow
       \<and> grants (dict_get d (le_name l)) l now \<and> dict_get d' = (dict_get d)(le_name l \<mapsto> l)
     | _ \<Rightarrow> dict_get d' = dict_get d)"
proof -
  have d: "leases_ok d" "acquired_before d now" using assms(1) by (simp_all add: sql_ok_def)
  note m = mem_acquire_law [OF d(1) assms(2) [unfolded sql_acquire_eq [OF assms(1)]]]
  have "acquired_before d' now"
  proof (cases "\<exists>l. r = Inr (Some l)")
    case True
    then obtain l where "r = Inr (Some l)" by blast
    then have l: "grants (dict_get d (le_name l)) l now" "dict_get d' = (dict_get d)(le_name l \<mapsto> l)"
      using m unfolding \<open>r = Inr (Some l)\<close> sum.case option.case by blast+
    then have "le_acquired_at l \<le> now"
      using d(2) by (auto simp: grants_def next_grant_def acquired_before_def split: option.splits if_splits)
    then show ?thesis using d(2) l(2) by (simp add: acquired_before_def)
  next
    case False
    then show ?thesis using m d(2) by (auto simp: acquired_before_def split: sum.splits option.splits)
  qed
  then show ?thesis using m by (simp add: sql_ok_def)
qed

lemma sql_renew_law:
  assumes "sql_ok d now" and "sql_renew lease now ttl d = (r, d')"
  shows "sql_ok d' now \<and> (case r of Inr (Some l) \<Rightarrow> (\<exists>c. dict_get d (le_name lease) = Some c
       \<and> owns (Some c) lease \<and> now < le_expires_at c \<and> le_name l = le_name lease
       \<and> le_owner l = le_owner lease \<and> le_token l = le_token lease
       \<and> dict_get d' = (dict_get d)(le_name lease \<mapsto> c\<lparr>le_renewed_at := now, le_expires_at := now + ttl\<rparr>))
     | _ \<Rightarrow> dict_get d' = dict_get d \<or> (\<exists>c. dict_get d (le_name lease) = Some c
         \<and> dict_get d' = (dict_get d)(le_name lease \<mapsto> c\<lparr>le_renewed_at := now, le_expires_at := now + ttl\<rparr>)))"
proof (cases "\<exists>c v. validate_lease_arguments (le_name lease) (le_owner lease) now ttl = Inr v
    \<and> dict_get d (le_name lease) = Some c \<and> owns (Some c) lease \<and> now < le_expires_at c")
  case False
  then have "d' = d \<and> (\<nexists>l. r = Inr (Some l))" using assms(2)
    by (auto simp: sql_renew_def Let_def split: sum.splits if_splits option.splits)
  then show ?thesis using assms(1) by (auto split: sum.splits option.splits)
next
  case True
  then obtain c v where v: "validate_lease_arguments (le_name lease) (le_owner lease) now ttl = Inr v"
    and c: "dict_get d (le_name lease) = Some c" "owns (Some c) lease" "now < le_expires_at c" by blast
  let ?c = "c\<lparr>le_renewed_at := now, le_expires_at := now + ttl\<rparr>"
  have d: "leases_ok d" "acquired_before d now" using assms(1) by (simp_all add: sql_ok_def)
  have ok: "le_name c = le_name lease" "lease_ok c" "le_acquired_at c \<le> now"
    using leases_ok_get [OF d(1) c(1)] c(1) d(2) by (simp_all add: acquired_before_def)
  have ttl: "0 < ttl" using v by (cases v) (simp add: validate_lease_arguments_Inr)
  have d': "d' = dict_put (le_name lease) ?c d"
    using assms(2) v c by (auto simp: sql_renew_def Let_def split: sum.splits)
  have "sql_ok d' now" unfolding d' sql_ok_def
    using leases_ok_put [OF d(1) lease_ok_renewed [OF ok(2,3) ttl]] acquired_before_put [OF d(2)] ok by simp
  moreover have "le_name l = le_name lease \<and> le_owner l = le_owner lease \<and> le_token l = le_token lease"
    if "r = Inr (Some l)" for l
  proof -
    have "mk_lease (lease\<lparr>le_renewed_at := now, le_expires_at := now + ttl\<rparr>) = Inr l"
      using assms(2) v c that by (auto simp: sql_renew_def Let_def split: sum.splits)
    moreover have "lease_text (le_name lease)" "lease_text (le_owner lease)"
      using ok(1,2) c(2) by (auto simp: lease_ok_def owns_def)
    ultimately show ?thesis by (auto simp: mk_lease_Inr strip_lease_text)
  qed
  moreover have "dict_get d' = (dict_get d)(le_name lease \<mapsto> ?c)" by (simp add: d' dict_get_put)
  ultimately show ?thesis using c by (cases r) (simp_all add: option.case_eq_if)
qed

lemma sql_release_law:
  assumes "sql_ok d now" and "sql_release lease d = (b, d')"
  shows "sql_ok d' now \<and> (dict_get d' = dict_get d \<or> (\<exists>c. dict_get d (le_name lease) = Some c
     \<and> owns (Some c) lease \<and> dict_get d' = (dict_get d)(le_name lease \<mapsto> c\<lparr>le_expires_at := 0\<rparr>)))"
proof -
  have d: "leases_ok d" "acquired_before d now" using assms(1) by (simp_all add: sql_ok_def)
  note m = mem_release_law [OF d(1) assms(2) [unfolded sql_release_eq [OF d(1)]]]
  from m consider "dict_get d' = dict_get d" | c where "dict_get d (le_name lease) = Some c"
      "dict_get d' = (dict_get d)(le_name lease \<mapsto> c\<lparr>le_expires_at := 0\<rparr>)" by blast
  then have "acquired_before d' now"
    by cases (use d(2) in \<open>simp_all add: acquired_before_def\<close>)
  then show ?thesis using m by (simp add: sql_ok_def)
qed

lemma sql_ok_later: "sql_ok d t \<Longrightarrow> t \<le> t' \<Longrightarrow> sql_ok d t'"
  by (force simp: sql_ok_def acquired_before_def)

interpretation sls: lease_store sql_ok dict_get sql_acquire sql_renew sql_release
  by unfold_locales
    (rule sql_ok_later sql_acquire_law sql_renew_law sql_release_law, assumption+)+

lemma sql_ok_empty: "sql_ok [] t"
  by (simp add: sql_ok_def leases_ok_def acquired_before_def)

section \<open>Properties\<close>


definition demo_lease :: lease_record where
  "demo_lease = \<lparr>le_name = ''hedge/writer'', le_owner = ''node-a'', le_token = 1,
     le_acquired_at = 1000, le_renewed_at = 1000, le_expires_at = 6000\<rparr>"

lemma demo_lease_acquired:
  "sql_acquire ''hedge/writer'' ''node-a'' 1000 5000 [] = (Inr (Some demo_lease), [(''hedge/writer'', demo_lease)])"
  by code_simp

lemma demo_lease_run:
  "lease_run sql_acquire sql_renew sql_release [] [(''hedge/writer'', demo_lease)] 1000 [demo_lease]"
  using lease_run.acquired [where acq = sql_acquire and ren = sql_renew and rel = sql_release,
    OF lease_run.start _ demo_lease_acquired] by simp


text \<open>C40: As long as every stored row is valid and no stored lease was acquired in the future, the SQLite
  store and the in-memory store, started from the same leases, answer every call with the same
  result and leave the same leases.\<close>

theorem sql_store_equals_memory:
  assumes "sql_ok d now" and "lease_ok lease"
    and "\<forall>c. dict_get d (le_name lease) = Some c \<longrightarrow> owns (Some c) lease \<longrightarrow>
      le_acquired_at c = le_acquired_at lease"
  shows "sql_acquire n ow now ttl d = mem_acquire n ow now ttl d \<and>
    sql_renew lease now ttl d = mem_renew lease now ttl d \<and>
    sql_release lease d = mem_release lease d \<and> sql_read n d = mem_read n d"
  using sql_acquire_eq sql_renew_eq sql_release_eq sql_read_eq assms by (simp add: sql_ok_def)

lemma demo_sql_ok: "sql_ok [(''hedge/writer'', demo_lease)] 2000" "lease_ok demo_lease"
proof -
  show ok: "lease_ok demo_lease" by code_simp
  then show "sql_ok [(''hedge/writer'', demo_lease)] 2000"
    by (simp add: sql_ok_def leases_ok_def acquired_before_def demo_lease_def)
qed

theorem sql_store_equals_memory_witness:
  "sql_renew demo_lease 2000 5000 [(''hedge/writer'', demo_lease)]
     = mem_renew demo_lease 2000 5000 [(''hedge/writer'', demo_lease)]"
  by (rule sql_store_equals_memory [OF demo_sql_ok, THEN conjunct2, THEN conjunct1])
    (simp add: demo_lease_def)

text \<open>When the clock of the SQLite store runs behind the acquisition of a live lease, \<open>renew\<close> by its
  owner commits the row and raises afterwards, and from then on every \<open>acquire\<close> of that name with
  valid arguments raises and changes nothing; the in-memory store refuses the same call and keeps
  its lease.\<close>

theorem clock_regression_poisons_lease:
  assumes "leases_ok d" and c: "dict_get d (le_name lease) = Some c" and "owns (Some c) lease"
    and "le_acquired_at lease = le_acquired_at c"
    and "0 \<le> now" and "0 < ttl" and "now < le_acquired_at c" and "now < le_expires_at c"
  shows "\<exists>e t'. sql_renew lease now ttl d = (Inl e, t') \<and>
    (\<forall>ow now' ttl'. \<exists>e'. sql_acquire (le_name lease) ow now' ttl' t' = (Inl e', t')) \<and>
    (\<exists>e. mem_renew lease now ttl d = (Inl e, d))"
proof -
  let ?new = "\<lambda>x. x\<lparr>le_renewed_at := now, le_expires_at := now + ttl\<rparr>"
  have ok: "lease_ok c" "le_name c = le_name lease" "le_owner c = le_owner lease"
    using leases_ok_get [OF assms(1) c] assms(3) by (simp_all add: owns_def)
  then have tx: "lease_text (le_name lease)" "lease_text (le_owner lease)" by (auto simp: lease_ok_def)
  then have v: "validate_lease_arguments (le_name lease) (le_owner lease) now ttl
      = Inr (le_name lease, le_owner lease)"
    using assms(5,6) by (simp add: validate_lease_arguments_Inr strip_lease_text)
  have bad: "\<exists>e. mk_lease (?new x) = Inl e" if "le_acquired_at x = le_acquired_at c" for x
    using that assms(7) by (cases "mk_lease (?new x)") (auto simp: mk_lease_Inr lease_ok_def)
  obtain e e' where e: "mk_lease (?new lease) = Inl e" "mk_lease (?new c) = Inl e'"
    using bad [OF assms(4)] bad [OF refl] by blast
  have "\<exists>e. mem_renew lease now ttl d = (Inl e, d)"
    using v c assms(3,8) e by (simp add: mem_renew_def)
  let ?t = "dict_put (le_name lease) (?new c) d"
  have "sql_renew lease now ttl d = (Inl e, ?t)"
    using v c assms(3,8) e by (simp add: sql_renew_def Let_def)
  moreover have "\<exists>x. sql_acquire (le_name lease) ow now' ttl' ?t = (Inl x, ?t)" for ow now' ttl'
  proof (cases "validate_lease_arguments (le_name lease) ow now' ttl'")
    case (Inr v')
    then have "fst v' = le_name lease"
      using tx by (cases v') (simp add: validate_lease_arguments_Inr strip_lease_text)
    then show ?thesis using Inr e(2)
      by (cases v') (simp add: sql_acquire_def row_to_record_def dict_get_put)
  qed (simp add: sql_acquire_def)
  ultimately show ?thesis using \<open>\<exists>e. mem_renew lease now ttl d = (Inl e, d)\<close> by blast
qed

theorem clock_regression_poisons_lease_witness:
  "\<exists>e t'. sql_renew demo_lease 900 5000 [(''hedge/writer'', demo_lease)] = (Inl e, t') \<and>
    (\<forall>ow now' ttl'. \<exists>e'. sql_acquire (le_name demo_lease) ow now' ttl' t' = (Inl e', t')) \<and>
    (\<exists>e. mem_renew demo_lease 900 5000 [(''hedge/writer'', demo_lease)]
     = (Inl e, [(''hedge/writer'', demo_lease)]))"
  by (rule clock_regression_poisons_lease [where c = demo_lease])
    (use demo_sql_ok in \<open>simp_all add: sql_ok_def demo_lease_def owns_def\<close>)

end
