(* ===== verification/Single_Writer.thy ===== *)
theory Single_Writer
  imports Database_Lease
begin

text \<open>
  The single-writer guard, \<open>freqtrade/hedge/concurrency/single_writer.py\<close>: one process's view of
  the database lease. The lease store is a port with the four operations of \<open>DatabaseLeaseStore\<close>;
  a clock reading is the value or the exception of one call of the clock. The guard's lock makes every
  operation one step, and a system of writers interleaves the steps of any number of guards over one
  store. The properties: two guards never hold the lease together, a lost guard stays invalid until
  it acquires again, and an expired lease is taken over under a new fencing token.
\<close>

section \<open>The guard\<close>

record 'd lease_port =
  lp_acquire :: "string \<Rightarrow> string \<Rightarrow> int \<Rightarrow> int \<Rightarrow> ('d, lease_record option) py"
  lp_renew :: "lease_record \<Rightarrow> int \<Rightarrow> int \<Rightarrow> ('d, lease_record option) py"
  lp_release :: "lease_record \<Rightarrow> ('d, bool) py"
  lp_read :: "string \<Rightarrow> ('d, lease_record option) py"

record writer_guard =
  wg_owner_id :: string
  wg_lease_name :: string
  wg_ttl_ms :: int
  wg_lease :: "lease_record option"
  wg_lost :: bool

record writer_status =
  ws_valid :: bool
  ws_owner_id :: string
  ws_lease_name :: string
  ws_fencing_token :: "int option"
  ws_expires_at_ms :: "int option"
  ws_reason_code :: string

definition mk_guard :: "nat \<Rightarrow> string \<Rightarrow> string \<Rightarrow> int \<Rightarrow> writer_guard res" where
  \<comment> \<open>the first argument is the result of \<open>uuid4\<close>\<close>
  "mk_guard uid owner_id lease_name ttl_ms =
     (if strip owner_id = [] then Inl (Exn ValueError ''owner_id must not be empty.'')
      else if strip lease_name = [] then Inl (Exn ValueError ''lease_name must not be empty.'')
      else if length (strip lease_name) > 255
      then Inl (Exn ValueError ''lease_name must not exceed 255 characters.'')
      else if ttl_ms \<le> 0 then Inl (Exn ValueError ''ttl_ms must be a positive integer.'')
      else if length (strip owner_id) > 222
      then Inl (Exn ValueError
        ''owner_id label must not exceed 222 characters after fencing suffix reserve.'')
      else Inr \<lparr>wg_owner_id = strip owner_id @ '':'' @ uuid_hex uid,
        wg_lease_name = strip lease_name, wg_ttl_ms = ttl_ms, wg_lease = None, wg_lost = False\<rparr>)"

definition mark_lost :: "writer_guard \<Rightarrow> writer_guard" where
  "mark_lost g = g\<lparr>wg_lease := None, wg_lost := True\<rparr>"

definition now_ms :: "int res \<Rightarrow> int res" where
  "now_ms clock = res_bind clock (\<lambda>v. if v < 0
     then Inl (Exn ValueError ''Single-writer clock must return a nonnegative integer milliseconds value.'')
     else Inr v)"

definition sw_acquire :: "'d lease_port \<Rightarrow> int res \<Rightarrow> ('d \<times> writer_guard, lease_record) py" where
  "sw_acquire p clock s = (case s of (d, g) \<Rightarrow> case now_ms clock of
     Inl e \<Rightarrow> (Inl (Exn LeaseUnavailable ''Single-writer clock is invalid.''), (d, mark_lost g))
   | Inr now \<Rightarrow> (case lp_acquire p (wg_lease_name g) (wg_owner_id g) now (wg_ttl_ms g) d of
       (Inl e, d') \<Rightarrow>
         (Inl (Exn LeaseUnavailable ''Single-writer lease acquisition failed.''), (d', mark_lost g))
     | (Inr None, d') \<Rightarrow>
         (Inl (Exn LeaseUnavailable (''Single-writer lease is held by another process: ''
            @ wg_lease_name g @ ''.'')), (d', mark_lost g))
     | (Inr (Some lease), d') \<Rightarrow>
         (Inr lease, (d', g\<lparr>wg_lease := Some lease, wg_lost := False\<rparr>))))"

definition sw_renew :: "'d lease_port \<Rightarrow> int res \<Rightarrow> ('d \<times> writer_guard, lease_record) py" where
  "sw_renew p clock s = (case s of (d, g) \<Rightarrow> case wg_lease g of
     None \<Rightarrow> (Inl (Exn LeaseLost ''Single-writer lease has not been acquired.''),
       (d, g\<lparr>wg_lost := True\<rparr>))
   | Some lease \<Rightarrow> (case now_ms clock of
       Inl e \<Rightarrow> (Inl (Exn LeaseLost ''Single-writer clock is invalid.''), (d, mark_lost g))
     | Inr now \<Rightarrow> (case lp_renew p lease now (wg_ttl_ms g) d of
         (Inr (Some renewed), d') \<Rightarrow> (Inr renewed, (d', g\<lparr>wg_lease := Some renewed\<rparr>))
       | (_, d') \<Rightarrow>
         (Inl (Exn LeaseLost ''Single-writer lease renewal failed.''), (d', mark_lost g)))))"

definition invalid_status :: "writer_guard \<Rightarrow> string \<Rightarrow> writer_status" where
  "invalid_status g reason = \<lparr>ws_valid = False, ws_owner_id = wg_owner_id g,
     ws_lease_name = wg_lease_name g, ws_fencing_token = None, ws_expires_at_ms = None,
     ws_reason_code = reason\<rparr>"

definition still_held :: "int \<Rightarrow> lease_record \<Rightarrow> lease_record option \<Rightarrow> bool" where
  \<comment> \<open>the condition \<open>valid\<close> of \<open>status\<close>\<close>
  "still_held now lease current = (case current of None \<Rightarrow> False
     | Some c \<Rightarrow> le_owner c = le_owner lease \<and> le_token c = le_token lease
         \<and> lease_valid now c = Inr True)"

definition sw_status :: "'d lease_port \<Rightarrow> int res \<Rightarrow> 'd \<times> writer_guard \<Rightarrow>
    writer_status \<times> 'd \<times> writer_guard" where
  "sw_status p clock s = (case s of (d, g) \<Rightarrow>
     if wg_lease g = None \<or> wg_lost g
     then (invalid_status g ''SINGLE_WRITER_LEASE_INVALID'', (d, g))
     else case now_ms clock of
       Inl e \<Rightarrow> (invalid_status g ''SINGLE_WRITER_CLOCK_INVALID'', (d, mark_lost g))
     | Inr now \<Rightarrow> (case lp_read p (wg_lease_name g) d of
         (Inl e, d') \<Rightarrow>
           (invalid_status g ''SINGLE_WRITER_STORE_UNAVAILABLE'', (d', mark_lost g))
       | (Inr current, d') \<Rightarrow>
           if \<not> still_held now (the (wg_lease g)) current
           then (invalid_status g ''SINGLE_WRITER_LEASE_INVALID'', (d', mark_lost g))
           else (\<lparr>ws_valid = True, ws_owner_id = wg_owner_id g, ws_lease_name = wg_lease_name g,
               ws_fencing_token = Some (le_token (the current)),
               ws_expires_at_ms = Some (le_expires_at (the current)),
               ws_reason_code = ''SINGLE_WRITER_LEASE_VALID''\<rparr>,
             (d', g\<lparr>wg_lease := current\<rparr>))))"

definition sw_assert_valid :: "'d lease_port \<Rightarrow> int res \<Rightarrow> ('d \<times> writer_guard, lease_record) py" where
  "sw_assert_valid p clock s = (case sw_status p clock s of (status, s') \<Rightarrow>
     case wg_lease (snd s') of
       Some lease \<Rightarrow> if ws_valid status then (Inr lease, s')
         else (Inl (Exn LeaseLost (''Single-writer lease is no longer valid: ''
           @ ws_reason_code status @ ''.'')), s')
     | None \<Rightarrow> (Inl (Exn LeaseLost (''Single-writer lease is no longer valid: ''
         @ ws_reason_code status @ ''.'')), s'))"

definition can_increase_risk :: "'d lease_port \<Rightarrow> int res \<Rightarrow> ('d \<times> writer_guard, bool) py" where
  "can_increase_risk p clock s = (case sw_status p clock s of (status, s') \<Rightarrow> (Inr (ws_valid status), s'))"

definition sw_release :: "'d lease_port \<Rightarrow> ('d \<times> writer_guard, bool) py" where
  "sw_release p s = (case s of (d, g) \<Rightarrow> case wg_lease g of
     None \<Rightarrow> (Inr False, (d, mark_lost g))
   | Some lease \<Rightarrow> (case lp_release p lease d of
       (Inl e, d') \<Rightarrow> (Inr False, (d', mark_lost g))
     | (Inr b, d') \<Rightarrow> (Inr b, (d', mark_lost g))))"

section \<open>Any number of writers over one store\<close>

datatype writer_op = Acquire | Renew | Status | Assert_Valid | Release

fun writer_do :: "'d lease_port \<Rightarrow> writer_op \<Rightarrow> int res \<Rightarrow> 'd \<times> writer_guard \<Rightarrow> 'd \<times> writer_guard" where
  "writer_do p Acquire clock s = snd (sw_acquire p clock s)"
| "writer_do p Renew clock s = snd (sw_renew p clock s)"
| "writer_do p Status clock s = snd (sw_status p clock s)"
| "writer_do p Assert_Valid clock s = snd (sw_assert_valid p clock s)"
| "writer_do p Release clock s = snd (sw_release p s)"

text \<open>A clock reading that does not go behind the time \<open>t\<close> of the latest reading of any writer, and
  the time of the latest reading after it. A reading may also fail or be negative.\<close>

definition not_back :: "int \<Rightarrow> int res \<Rightarrow> bool" where
  "not_back t clock = (case clock of Inl _ \<Rightarrow> True | Inr now \<Rightarrow> now < 0 \<or> t \<le> now)"

definition clock_time :: "int \<Rightarrow> int res \<Rightarrow> int" where
  "clock_time t clock = (case clock of Inl _ \<Rightarrow> t | Inr now \<Rightarrow> max t now)"

inductive writers :: "'d lease_port \<Rightarrow> 'd \<Rightarrow> (nat \<Rightarrow> writer_guard) \<Rightarrow> 'd \<Rightarrow> (nat \<Rightarrow> writer_guard) \<Rightarrow>
    int \<Rightarrow> bool" for p d0 gs0 where
  init: "writers p d0 gs0 d0 gs0 0"
| act: "writers p d0 gs0 d gs t \<Longrightarrow> not_back t clock \<Longrightarrow> writer_do p op clock (d, gs i) = (d', g) \<Longrightarrow>
    writers p d0 gs0 d' (gs(i := g)) (clock_time t clock)"

lemma not_back_now: "not_back t clock \<Longrightarrow> now_ms clock = Inr now \<Longrightarrow> t \<le> now \<and> 0 \<le> now \<and> clock_time t clock = now"
  by (cases clock) (auto simp: not_back_def now_ms_def clock_time_def split: if_splits)

lemma clock_time_ge: "t \<le> clock_time t clock"
  by (simp add: clock_time_def split: sum.split)

definition same_writer :: "writer_guard \<Rightarrow> writer_guard \<Rightarrow> bool" where
  "same_writer g h \<longleftrightarrow> wg_owner_id h = wg_owner_id g \<and> wg_lease_name h = wg_lease_name g
     \<and> wg_ttl_ms h = wg_ttl_ms g"

definition owned :: "writer_guard \<Rightarrow> bool" where
  \<comment> \<open>the lease of a guard is its own\<close>
  "owned g \<longleftrightarrow> (case wg_lease g of None \<Rightarrow> True | Some l \<Rightarrow> le_owner l = wg_owner_id g)"

lemma mark_lost_simps [simp]: "same_writer g (mark_lost g)" "owned (mark_lost g)"
    "wg_lease (mark_lost g) = None" "wg_lost (mark_lost g)" "wg_owner_id (mark_lost g) = wg_owner_id g"
    "wg_lease_name (mark_lost g) = wg_lease_name g" "wg_ttl_ms (mark_lost g) = wg_ttl_ms g"
  by (simp_all add: mark_lost_def same_writer_def owned_def)

lemma assert_valid_state: "snd (sw_assert_valid p clock s) = snd (sw_status p clock s)"
  by (simp add: sw_assert_valid_def split: prod.split option.split)

lemma mk_guard_fields:
  assumes "mk_guard uid o_id name ttl = Inr g"
  shows "lease_text (wg_owner_id g)" and "lease_text (wg_lease_name g)" and "0 < wg_ttl_ms g"
    and "wg_lease g = None"
proof -
  have g: "wg_owner_id g = strip o_id @ '':'' @ uuid_hex uid" "wg_lease_name g = strip name"
    "strip o_id \<noteq> []" "length (strip o_id) \<le> 222" "strip name \<noteq> []" "length (strip name) \<le> 255"
    "0 < wg_ttl_ms g" "wg_lease g = None"
    using assms by (auto simp: mk_guard_def split: if_splits)
  have "\<not> py_space (hd (wg_owner_id g))" using strip_ends(1) [OF g(3)] g(1,3) by (simp add: hd_append)
  moreover have "uuid_hex uid \<noteq> []" using uuid_hex_length [of uid] by (metis list.size(3) zero_neq_numeral)
  then have "\<not> py_space (last (wg_owner_id g))"
    using uuid_hex_chars [of "last (uuid_hex uid)" uid] by (simp add: g(1))
  ultimately have "strip (wg_owner_id g) = wg_owner_id g" by (intro strip_id) blast
  then show "lease_text (wg_owner_id g)" using g by (simp add: lease_text_def)
  show "lease_text (wg_lease_name g)" "0 < wg_ttl_ms g" "wg_lease g = None"
    using g by (simp_all add: lease_text_def)
qed

section \<open>Writers over a store that keeps its promise\<close>

definition expired_at :: "lease_record option \<Rightarrow> int \<Rightarrow> bool" where
  "expired_at current now = (case current of None \<Rightarrow> True | Some c \<Rightarrow> le_expires_at c \<le> now)"

locale writer_store = lease_store +
  fixes rd :: "string \<Rightarrow> ('a, lease_record option) py"
  assumes read_law: "ok d now \<Longrightarrow> rd n d = (r, d') \<Longrightarrow>
      d' = d \<and> (case r of Inl _ \<Rightarrow> True | Inr c \<Rightarrow> c = look d (strip n))"
    and read_live: "ok d now \<Longrightarrow> lease_text n \<Longrightarrow> rd n d = (Inr (look d n), d)"
    and takeover_law: "ok d now \<Longrightarrow> lease_text n \<Longrightarrow> lease_text ow \<Longrightarrow> 0 \<le> now \<Longrightarrow> 0 < ttl \<Longrightarrow>
      expired_at (look d n) now \<Longrightarrow> \<exists>d'. acq n ow now ttl d =
        (Inr (Some (grant_record n ow (next_grant (look d n) ow now) now ttl)), d')"

context writer_store begin

definition port :: "'a lease_port" where
  "port = \<lparr>lp_acquire = acq, lp_renew = ren, lp_release = rel, lp_read = rd\<rparr>"

lemma port_simps [simp]: "lp_acquire port = acq" "lp_renew port = ren" "lp_release port = rel"
    "lp_read port = rd"
  by (simp_all add: port_def)

definition stepped :: "writer_guard \<Rightarrow> int \<Rightarrow> 'a \<times> writer_guard \<Rightarrow> bool" where
  "stepped g t s \<longleftrightarrow> ok (fst s) t \<and> same_writer g (snd s) \<and> owned (snd s)"

lemma status_steps:
  assumes "ok d t" and "owned g"
  shows "stepped g t (snd (sw_status port clock (d, g)))"
proof -
  have rdd: "d' = d" if "rd n d = (r, d')" for n r d'
    using read_law [OF assms(1) that] by simp
  show ?thesis
    using assms
    by (auto dest: rdd simp: sw_status_def stepped_def same_writer_def owned_def still_held_def
        split: sum.split prod.split option.splits)
qed

lemma acquire_steps:
  assumes "ok d t" and "owned g" and "strip (wg_owner_id g) = wg_owner_id g" and "not_back t clock"
  shows "stepped g (clock_time t clock) (snd (sw_acquire port clock (d, g)))"
proof (cases "now_ms clock")
  case (Inl e)
  then show ?thesis using ok_later [OF assms(1) clock_time_ge] by (simp add: sw_acquire_def stepped_def)
next
  case (Inr now)
  note n = not_back_now [OF assms(4) Inr]
  have k: "ok d now" using ok_later [OF assms(1)] n by blast
  obtain r d' where rd: "acq (wg_lease_name g) (wg_owner_id g) now (wg_ttl_ms g) d = (r, d')" by fastforce
  note a = acquire_law [OF k rd]
  show ?thesis
  proof (cases "\<exists>l. r = Inr (Some l)")
    case True
    then obtain l where "r = Inr (Some l)" by blast
    then have "ok d' now" "le_owner l = wg_owner_id g" using a assms(3) by simp_all
    then show ?thesis using Inr rd n \<open>r = _\<close>
      by (simp add: sw_acquire_def stepped_def same_writer_def owned_def)
  next
    case False
    then show ?thesis using Inr rd n a
      by (auto simp: sw_acquire_def stepped_def split: sum.split option.split)
  qed
qed

lemma renew_steps:
  assumes "ok d t" and "owned g" and "not_back t clock"
  shows "stepped g (clock_time t clock) (snd (sw_renew port clock (d, g)))"
proof (cases "wg_lease g")
  case None
  then show ?thesis using ok_later [OF assms(1) clock_time_ge]
    by (simp add: sw_renew_def stepped_def same_writer_def owned_def)
next
  case (Some lease)
  show ?thesis
  proof (cases "now_ms clock")
    case (Inl e)
    then show ?thesis using Some ok_later [OF assms(1) clock_time_ge] by (simp add: sw_renew_def stepped_def)
  next
    case (Inr now)
    note n = not_back_now [OF assms(3) Inr]
    have k: "ok d now" using ok_later [OF assms(1)] n by blast
    obtain r d' where rd: "ren lease now (wg_ttl_ms g) d = (r, d')" by fastforce
    note a = renew_law [OF k rd]
    show ?thesis
    proof (cases "\<exists>l. r = Inr (Some l)")
      case True
      then obtain l where "r = Inr (Some l)" by blast
      then have "ok d' now" "le_owner l = wg_owner_id g" using a assms(2) Some by (auto simp: owned_def)
      then show ?thesis using Some Inr rd n \<open>r = _\<close>
        by (simp add: sw_renew_def stepped_def same_writer_def owned_def)
    next
      case False
      then show ?thesis using Some Inr rd n a
        by (auto simp: sw_renew_def stepped_def split: sum.split option.split)
    qed
  qed
qed

lemma release_steps:
  assumes "ok d t"
  shows "stepped g t (snd (sw_release port (d, g)))"
proof (cases "wg_lease g")
  case (Some lease)
  obtain r d' where rd: "rel lease d = (r, d')" by fastforce
  then show ?thesis using release_law [OF assms rd] Some
    by (auto simp: sw_release_def stepped_def split: sum.split)
qed (simp add: sw_release_def stepped_def assms)

lemma writer_do_steps:
  assumes "ok d t" and "owned g" and "strip (wg_owner_id g) = wg_owner_id g" and "not_back t clock"
  shows "stepped g (clock_time t clock) (writer_do port op clock (d, g))"
proof -
  have k: "ok d (clock_time t clock)" by (rule ok_later [OF assms(1) clock_time_ge])
  show ?thesis
    by (cases op) (simp_all add: acquire_steps [OF assms] renew_steps [OF assms(1,2,4)]
        status_steps [OF k assms(2)] assert_valid_state release_steps [OF k])
qed

lemma writers_owned:
  assumes "writers port d0 gs0 d gs t" and "ok d0 0"
    and "\<And>i. strip (wg_owner_id (gs0 i)) = wg_owner_id (gs0 i)" and "\<And>i. owned (gs0 i)"
  shows "ok d t \<and> 0 \<le> t \<and> (\<forall>i. same_writer (gs0 i) (gs i) \<and> owned (gs i))"
  using assms(1)
proof induction
  case init
  then show ?case using assms by (simp add: same_writer_def)
next
  case (act d gs t clock op i d' g)
  then have "strip (wg_owner_id (gs i)) = wg_owner_id (gs i)"
    using assms(3) [of i] by (simp add: same_writer_def)
  then have "stepped (gs i) (clock_time t clock) (d', g)"
    using writer_do_steps [of d t "gs i" clock op] act by simp
  moreover have "0 \<le> clock_time t clock" using clock_time_ge [of t clock] act.IH by simp
  ultimately show ?case using act.IH by (auto simp: stepped_def same_writer_def)
qed

lemma valid_status_holds:
  assumes "ok d t" and "owned g" and "ws_valid (fst (sw_status port clock (d, g)))"
  shows "\<exists>c. look d (strip (wg_lease_name g)) = Some c \<and> le_owner c = wg_owner_id g"
proof -
  obtain l now where l: "wg_lease g = Some l" "now_ms clock = Inr now"
    using assms(3) by (auto simp: sw_status_def invalid_status_def split: if_splits sum.splits)
  obtain r d' where rd: "rd (wg_lease_name g) d = (r, d')" by fastforce
  show ?thesis using assms(2,3) l rd read_law [OF assms(1) rd]
    by (auto simp: sw_status_def invalid_status_def still_held_def owned_def
        split: if_splits sum.splits option.splits)
qed

lemma one_writer:
  assumes "writers port d0 gs0 d gs t" and "ok d0 0"
    and "\<And>i. lease_text (wg_owner_id (gs0 i)) \<and> wg_lease (gs0 i) = None"
    and "wg_lease_name (gs0 i) = wg_lease_name (gs0 j)"
    and "ws_valid (fst (sw_status port ci (d, gs i)))" and "ws_valid (fst (sw_status port cj (d, gs j)))"
  shows "wg_owner_id (gs0 i) = wg_owner_id (gs0 j)"
proof -
  have w: "ok d t \<and> 0 \<le> t \<and> (\<forall>i. same_writer (gs0 i) (gs i) \<and> owned (gs i))"
    by (rule writers_owned [OF assms(1,2)]) (use assms(3) in \<open>simp_all add: strip_lease_text owned_def\<close>)
  then have "wg_lease_name (gs i) = wg_lease_name (gs j)"
    using assms(4) by (simp add: same_writer_def)
  then have "wg_owner_id (gs i) = wg_owner_id (gs j)"
    using valid_status_holds [OF _ _ assms(5)] valid_status_holds [OF _ _ assms(6)] w by fastforce
  then show ?thesis using w by (simp add: same_writer_def)
qed

lemma takeover:
  assumes "ok d now" and "lease_text (wg_owner_id g)" and "lease_text (wg_lease_name g)"
    and "0 < wg_ttl_ms g" and "0 \<le> now" and "expired_at (look d (wg_lease_name g)) now"
  shows "\<exists>l d' g'. sw_acquire port (Inr now) (d, g) = (Inr l, (d', g'))
    \<and> (\<forall>c. look d (wg_lease_name g) = Some c \<longrightarrow> le_token l = le_token c + 1)
    \<and> (\<forall>now'. now \<le> now' \<longrightarrow> now' < now + wg_ttl_ms g \<longrightarrow>
        ws_valid (fst (sw_status port (Inr now') (d', g'))))"
proof -
  let ?n = "wg_lease_name g" and ?ow = "wg_owner_id g" and ?ttl = "wg_ttl_ms g"
  define l where "l = grant_record ?n ?ow (next_grant (look d ?n) ?ow now) now ?ttl"
  obtain d' where a: "acq ?n ?ow now ?ttl d = (Inr (Some l), d')"
    using takeover_law [OF assms(1,3,2,5,4,6)] unfolding l_def by blast
  have d': "ok d' now" "look d' ?n = Some l" using acquire_law [OF assms(1) a] by (simp_all add: l_def)
  let ?g = "g\<lparr>wg_lease := Some l, wg_lost := False\<rparr>"
  have "sw_acquire port (Inr now) (d, g) = (Inr l, (d', ?g))"
    using a assms(5) by (simp add: sw_acquire_def now_ms_def)
  moreover have "le_token l = le_token c + 1" if "look d ?n = Some c" for c
    using assms(6) that by (simp add: l_def next_grant_def expired_at_def)
  moreover have "ws_valid (fst (sw_status port (Inr now') (d', ?g)))"
    if "now \<le> now'" "now' < now + ?ttl" for now'
    using that assms(5) read_live [OF d'(1) assms(3)] d'(2)
    by (simp add: sw_status_def now_ms_def still_held_def lease_valid_def) (simp add: l_def)
  ultimately show ?thesis by blast
qed

end

section \<open>The two lease stores as ports\<close>

definition mem_port :: "leases lease_port" where
  "mem_port = \<lparr>lp_acquire = mem_acquire, lp_renew = mem_renew, lp_release = mem_release,
     lp_read = mem_read\<rparr>"

definition sql_port :: "leases lease_port" where
  "sql_port = \<lparr>lp_acquire = sql_acquire, lp_renew = sql_renew, lp_release = sql_release,
     lp_read = sql_read\<rparr>"

lemma mem_read_law:
  "leases_ok d \<Longrightarrow> mem_read n d = (r, d') \<Longrightarrow>
    d' = d \<and> (case r of Inl _ \<Rightarrow> True | Inr c \<Rightarrow> c = dict_get d (strip n))"
  by (auto simp: mem_read_def normalize_lease_name_Inr split: sum.splits)

lemma mem_read_live: "lease_text n \<Longrightarrow> mem_read n d = (Inr (dict_get d n), d)"
proof -
  assume "lease_text n"
  then have "normalize_lease_name n = Inr n" by (simp add: normalize_lease_name_Inr strip_lease_text)
  then show ?thesis by (simp add: mem_read_def)
qed

lemma mem_takeover_law:
  assumes "lease_text n" "lease_text ow" "0 \<le> now" "0 < ttl" "expired_at (dict_get d n) now"
    and "leases_ok d"
  shows "\<exists>d'. mem_acquire n ow now ttl d =
    (Inr (Some (grant_record n ow (next_grant (dict_get d n) ow now) now ttl)), d')"
proof -
  let ?r = "grant_record n ow (next_grant (dict_get d n) ow now) now ttl"
  have "validate_lease_arguments n ow now ttl = Inr (n, ow)"
    using assms(1-4) by (simp add: validate_lease_arguments_Inr strip_lease_text)
  moreover have "\<not> held_by_other (dict_get d n) ow now"
    using assms(5) by (simp add: expired_at_def held_by_other_def split: option.splits)
  moreover have "lease_ok ?r"
  proof (cases "dict_get d n")
    case (Some c)
    then have "0 < le_token c" "le_expires_at c \<le> now"
      using leases_ok_get [OF assms(6) Some] assms(5) by (simp_all add: lease_ok_def expired_at_def)
    then show ?thesis using assms(1-4) Some by (simp add: lease_ok_def next_grant_def)
  qed (use assms(1-4) in \<open>simp add: lease_ok_def next_grant_def\<close>)
  then have "mk_lease ?r = Inr ?r" by (rule mk_lease_id)
  ultimately show ?thesis by (simp add: mem_acquire_def Let_def)
qed

interpretation mws: writer_store "\<lambda>d t. leases_ok d" dict_get mem_acquire mem_renew mem_release mem_read
  by unfold_locales (erule (1) mem_read_law, erule mem_read_live, rule mem_takeover_law)

lemma sql_read_law:
  "sql_ok d now \<Longrightarrow> sql_read n d = (r, d') \<Longrightarrow>
    d' = d \<and> (case r of Inl _ \<Rightarrow> True | Inr c \<Rightarrow> c = dict_get d (strip n))"
  using mem_read_law sql_read_eq by (simp add: sql_ok_def)

lemma sql_read_live: "sql_ok d now \<Longrightarrow> lease_text n \<Longrightarrow> sql_read n d = (Inr (dict_get d n), d)"
  using mem_read_live sql_read_eq by (simp add: sql_ok_def)

lemma sql_takeover_law:
  assumes "sql_ok d now" "lease_text n" "lease_text ow" "0 \<le> now" "0 < ttl"
    "expired_at (dict_get d n) now"
  shows "\<exists>d'. sql_acquire n ow now ttl d =
    (Inr (Some (grant_record n ow (next_grant (dict_get d n) ow now) now ttl)), d')"
  using mem_takeover_law [OF assms(2-6)] assms(1) by (simp add: sql_acquire_eq sql_ok_def)

interpretation sws: writer_store sql_ok dict_get sql_acquire sql_renew sql_release sql_read
  by unfold_locales (erule (1) sql_read_law, erule (1) sql_read_live, rule sql_takeover_law)

lemma port_eq: "mws.port = mem_port" "sws.port = sql_port"
  by (simp_all add: mws.port_def sws.port_def mem_port_def sql_port_def)

section \<open>Properties\<close>

text \<open>C5: Over either store, started without leases, and whatever any number of guards do in any order,
  with clock readings that may fail but do not go back: two guards of the same lease with different
  owner ids never both report a valid lease.\<close>

theorem single_writer:
  assumes "writers p [] gs0 d gs t" and "p \<in> {mem_port, sql_port}"
    and "\<forall>k. \<exists>u owner_id lease_name ttl. mk_guard u owner_id lease_name ttl = Inr (gs0 k)"
    and "wg_lease_name (gs0 i) = wg_lease_name (gs0 j)" and "wg_owner_id (gs0 i) \<noteq> wg_owner_id (gs0 j)"
  shows "\<not> (ws_valid (fst (sw_status p ci (d, gs i))) \<and> ws_valid (fst (sw_status p cj (d, gs j))))"
proof
  assume v: "ws_valid (fst (sw_status p ci (d, gs i))) \<and> ws_valid (fst (sw_status p cj (d, gs j)))"
  have g: "lease_text (wg_owner_id (gs0 k)) \<and> wg_lease (gs0 k) = None" for k
    using assms(3) [THEN spec [of _ k]] by (auto dest: mk_guard_fields)
  have e: "leases_ok []" by (simp add: leases_ok_def)
  have "wg_owner_id (gs0 i) = wg_owner_id (gs0 j)"
    using mws.one_writer [unfolded port_eq, OF _ e g assms(4)]
      sws.one_writer [unfolded port_eq, OF _ sql_ok_empty g assms(4)] assms(1,2) v by blast
  then show False using assms(5) by simp
qed

definition demo_guard :: "nat \<Rightarrow> writer_guard" where
  \<comment> \<open>the guards of two processes on one host\<close>
  "demo_guard k = (case mk_guard (if k = 0 then 10 else 11) ''node'' ''hedge/writer'' 5000 of Inr g \<Rightarrow> g)"

definition demo_after :: "leases \<times> writer_guard" where
  "demo_after = writer_do mem_port Acquire (Inr 1000) ([], demo_guard 0)"

lemma demo_guards: "\<exists>u owner_id lease_name ttl. mk_guard u owner_id lease_name ttl = Inr (demo_guard k)"
proof -
  have "\<exists>g. mk_guard u ''node'' ''hedge/writer'' 5000 = Inr g" for u
    by (simp add: mk_guard_def strip_id py_space_def)
  then show ?thesis unfolding demo_guard_def by (metis sum.case(2))
qed

lemma demo_guard_ids: "wg_lease_name (demo_guard 0) = wg_lease_name (demo_guard 2)"
    "wg_owner_id (demo_guard 0) \<noteq> wg_owner_id (demo_guard 2)"
  by code_simp+

lemma demo_writers:
  "writers mem_port [] demo_guard (fst demo_after) (demo_guard(0 := snd demo_after)) 1000"
proof -
  have "writers mem_port [] demo_guard (fst demo_after) (demo_guard(0 := snd demo_after))
      (clock_time 0 (Inr 1000))"
    by (rule writers.act [where op = Acquire, OF writers.init]) (simp_all add: not_back_def demo_after_def)
  then show ?thesis by (simp add: clock_time_def)
qed

theorem single_writer_witness:
  "ws_valid (fst (sw_status mem_port (Inr 2000) (fst demo_after, snd demo_after))) \<and>
   \<not> ws_valid (fst (sw_status mem_port (Inr 2000) (fst demo_after, demo_guard 2)))"
proof -
  have "ws_valid (fst (sw_status mem_port (Inr 2000) (fst demo_after, snd demo_after)))" by code_simp
  moreover have "\<not> (ws_valid (fst (sw_status mem_port (Inr 2000)
        (fst demo_after, (demo_guard(0 := snd demo_after)) 0)))
      \<and> ws_valid (fst (sw_status mem_port (Inr 2000) (fst demo_after, (demo_guard(0 := snd demo_after)) 2))))"
    by (rule single_writer [OF demo_writers]) (simp_all add: demo_guards demo_guard_ids)
  ultimately show ?thesis by simp
qed

text \<open>A guard that lost its lease, or never had one, reports an invalid lease and lets no risk be
  added until it acquires again, whatever the store and the clock answer to any other operations.\<close>

theorem lost_until_acquired:
  assumes "wg_lost g \<or> wg_lease g = None" and "Acquire \<notin> set (map fst ops)"
  shows "\<not> ws_valid (fst (sw_status p clock (fold (\<lambda>(op, c). writer_do p op c) ops (d, g)))) \<and>
    fst (can_increase_risk p clock (fold (\<lambda>(op, c). writer_do p op c) ops (d, g))) = Inr False"
proof -
  have step: "wg_lease (snd (writer_do p op c s)) = None \<or> wg_lost (snd (writer_do p op c s))"
    if "wg_lost (snd s) \<or> wg_lease (snd s) = None" "op \<noteq> Acquire" for op c s
    using that by (cases op; cases s)
      (auto simp: sw_renew_def sw_release_def sw_status_def assert_valid_state
        split: option.split sum.split prod.split)
  have "wg_lost (snd (fold (\<lambda>(op, c). writer_do p op c) ops s)) \<or>
      wg_lease (snd (fold (\<lambda>(op, c). writer_do p op c) ops s)) = None"
    if "wg_lost (snd s) \<or> wg_lease (snd s) = None" for s
    using that assms(2)
  proof (induction ops arbitrary: s)
    case (Cons x ops)
    obtain op c where x: "x = (op, c)" by (cases x)
    show ?case using Cons.IH [of "writer_do p op c s"] step [OF Cons.prems(1), of op c] Cons.prems(2) x
      by auto
  qed simp
  from this [of "(d, g)"] assms(1)
  have "\<not> ws_valid (fst (sw_status p clock (fold (\<lambda>(op, c). writer_do p op c) ops (d, g))))"
    by (auto simp: sw_status_def invalid_status_def split: prod.split)
  then show ?thesis by (simp add: can_increase_risk_def case_prod_beta)
qed

theorem lost_until_acquired_witness:
  "\<not> ws_valid (fst (sw_status mem_port (Inr 3000) (fold (\<lambda>(op, c). writer_do mem_port op c)
     [(Release, Inr 2000), (Renew, Inr 2500)] (fst demo_after, mark_lost (snd demo_after)))))"
  by (rule lost_until_acquired [THEN conjunct1]) simp_all

text \<open>C27: A lease that nobody holds any more can be taken over: when the stored lease has expired or was
  released, \<open>acquire\<close> of any guard succeeds, under a larger fencing token than the old holder's, and
  the guard's status stays valid until the new lease expires, as long as nobody else acts.\<close>

theorem expired_lease_is_taken_over:
  assumes "mk_guard u owner_id lease_name ttl = Inr g" and "0 \<le> now"
    and "expired_at (dict_get d (wg_lease_name g)) now"
    and "p = mem_port \<and> leases_ok d \<or> p = sql_port \<and> sql_ok d now"
  shows "\<exists>l d' g'. sw_acquire p (Inr now) (d, g) = (Inr l, (d', g'))
    \<and> (\<forall>c. dict_get d (wg_lease_name g) = Some c \<longrightarrow> le_token l = le_token c + 1)
    \<and> (\<forall>now'. now \<le> now' \<longrightarrow> now' < now + ttl \<longrightarrow> ws_valid (fst (sw_status p (Inr now') (d', g'))))"
proof -
  note f = mk_guard_fields [OF assms(1)]
  have ttl: "wg_ttl_ms g = ttl" using assms(1) by (auto simp: mk_guard_def split: if_splits)
  show ?thesis using assms(4)
  proof
    assume "p = mem_port \<and> leases_ok d"
    then show ?thesis using mws.takeover [unfolded port_eq, OF _ f(1-3) assms(2,3)] ttl by simp
  next
    assume "p = sql_port \<and> sql_ok d now"
    then show ?thesis using sws.takeover [unfolded port_eq, OF _ f(1-3) assms(2,3)] ttl by simp
  qed
qed

theorem expired_lease_is_taken_over_witness:
  "\<exists>l d' g'. sw_acquire sql_port (Inr 7000) ([(''hedge/writer'', demo_lease)], demo_guard 2)
      = (Inr l, (d', g')) \<and> le_token l = 2"
proof -
  have g: "mk_guard 11 ''node'' ''hedge/writer'' 5000 = Inr (demo_guard 2)" by code_simp
  have n: "wg_lease_name (demo_guard 2) = ''hedge/writer''" by code_simp
  have ok: "sql_ok [(''hedge/writer'', demo_lease)] 7000" by (rule sql_ok_later [OF demo_sql_ok(1)]) simp
  have "\<exists>l d' g'. sw_acquire sql_port (Inr 7000) ([(''hedge/writer'', demo_lease)], demo_guard 2)
        = (Inr l, (d', g'))
      \<and> (\<forall>c. dict_get [(''hedge/writer'', demo_lease)] (wg_lease_name (demo_guard 2)) = Some c \<longrightarrow>
          le_token l = le_token c + 1)
      \<and> (\<forall>now'. 7000 \<le> now' \<longrightarrow> now' < 7000 + 5000 \<longrightarrow>
          ws_valid (fst (sw_status sql_port (Inr now') (d', g'))))"
    by (rule expired_lease_is_taken_over [OF g]) (simp_all add: n expired_at_def demo_lease_def ok [unfolded demo_lease_def])
  then show ?thesis by (auto simp: n demo_lease_def)
qed

end
