(* ===== verification/Contract_Types.thy ===== *)
theory Contract_Types
  imports Execution_Data
begin

text \<open>
  The contracts shared by execution, persistence and telemetry,
  \<open>freqtrade/hedge/contracts/types.py\<close> and \<open>events.py\<close>: symbols in their canonical and raw
  form, position keys, and the fill and outbox events with the validation of their constructors. Of
  \<open>FillEvent\<close> the execution shape is modelled, with keyword arguments; its millisecond fields,
  which go through floating point, are not. The lemmas show that canonical symbols are stable.
\<close>

section \<open>Symbols\<close>

datatype order_side = BUY | SELL

definition ct_required_text :: "string \<Rightarrow> nat \<Rightarrow> string \<Rightarrow> string res" where
  "ct_required_text field limit v = (let normalized = strip v in
     if normalized = [] \<or> length normalized > limit \<or> has_control normalized
     then Inl (Exn ValueError (field @ '' is invalid'')) else Inr normalized)"

definition slashed :: "char \<Rightarrow> char" where
  "slashed c = (if c = CHR ''-'' \<or> c = CHR ''_'' then CHR ''/'' else c)"

definition pair_char :: "char \<Rightarrow> bool" where
  \<comment> \<open>\<open>_SYMBOL_ALLOWED\<close>\<close>
  "pair_char c \<longleftrightarrow> is_alnum c \<or> c \<in> set ''/_:-''"

definition str_partition :: "char \<Rightarrow> string \<Rightarrow> string \<times> string" where
  \<comment> \<open>\<open>str.partition\<close>, without the separator\<close>
  "str_partition c s = (takeWhile (\<lambda>x. x \<noteq> c) s, drop 1 (dropWhile (\<lambda>x. x \<noteq> c) s))"

definition QUOTE_SUFFIXES :: "string list" where
  "QUOTE_SUFFIXES = [''FDUSD'', ''USDT'', ''USDC'', ''BUSD'', ''TUSD'', ''USD'', ''BTC'', ''ETH'',
     ''EUR'', ''TRY'']"

definition pair_text :: "string \<Rightarrow> string \<Rightarrow> string \<Rightarrow> string" where
  \<comment> \<open>\<open>f"{base}/{quote}:{settle or quote}"\<close>\<close>
  "pair_text base quote settle =
     base @ ''/'' @ quote @ '':'' @ (if settle = [] then quote else settle)"

definition canonical_pair :: "string \<Rightarrow> string res" where
  "canonical_pair v = res_bind (ct_required_text ''symbol'' 64 v) (\<lambda>text.
     let raw = map slashed (upper text) in
     if raw = [] \<or> \<not> list_all pair_char raw
     then Inl (Exn ValueError ''symbol contains unsupported characters'') else
     case str_partition (CHR '':'') raw of (market, settle) \<Rightarrow>
     if CHR ''/'' \<in> set market
     then (case str_partition (CHR ''/'') market of (base, quote) \<Rightarrow>
       if base = [] \<or> quote = [] \<or> CHR ''/'' \<in> set quote
       then Inl (Exn ValueError ''canonical_symbol must be a futures pair'')
       else Inr (pair_text base quote settle))
     else case find (\<lambda>q. endswith market q \<and> length market > length q) QUOTE_SUFFIXES of
       Some q \<Rightarrow> Inr (pair_text (take (length market - length q) market) q settle)
     | None \<Rightarrow> if \<not> ascii_alnum market
         then Inl (Exn ValueError ''symbol must contain ASCII alphanumeric characters'')
         else Inr market)"

definition canonical_symbol :: "string \<Rightarrow> string res" where
  "canonical_symbol v = canonical_pair v"

definition market_of :: "string \<Rightarrow> string" where
  \<comment> \<open>the part before the colon, without slashes\<close>
  "market_of canonical = filter (\<lambda>c. c \<noteq> CHR ''/'') (fst (str_partition (CHR '':'') canonical))"

definition raw_symbol :: "string \<Rightarrow> string res" where
  "raw_symbol v = res_bind (canonical_pair v) (\<lambda>canonical. Inr (market_of canonical))"

definition expected_order_side :: "position_side \<Rightarrow> intent_action \<Rightarrow> order_side" where
  "expected_order_side side action = (case side of
     LONG \<Rightarrow> if reduces_risk action then SELL else BUY
   | SHORT \<Rightarrow> if reduces_risk action then BUY else SELL)"

section \<open>Canonical symbols are stable\<close>

text \<open>The characters of a canonical symbol: upper-case letters, digits, slash and colon (codes 47 to
  58 and 65 to 90).\<close>

definition canon_char :: "char \<Rightarrow> bool" where
  "canon_char c \<longleftrightarrow> (let n = of_char c :: nat in (65 \<le> n \<and> n \<le> 90) \<or> (47 \<le> n \<and> n \<le> 58))"

lemma char_code: "c = d \<longleftrightarrow> (of_char c :: nat) = of_char d"
  by simp

lemma slashed_code: "slashed c = (let n = of_char c :: nat in if n = 45 \<or> n = 95 then CHR ''/'' else c)"
  unfolding slashed_def char_code [of c] by (simp add: Let_def)

lemma pair_char_code: "pair_char c \<longleftrightarrow> (let n = of_char c :: nat in
    (65 \<le> n \<and> n \<le> 90) \<or> (97 \<le> n \<and> n \<le> 122) \<or> (47 \<le> n \<and> n \<le> 58) \<or> n = 95 \<or> n = 45)"
proof -
  have "c \<in> set ''/_:-'' \<longleftrightarrow> (let n = of_char c :: nat in n = 47 \<or> n = 95 \<or> n = 58 \<or> n = 45)"
    unfolding list.set insert_iff empty_iff char_code [of c] by (simp add: Let_def)
  then show ?thesis
    unfolding pair_char_def is_alnum_def is_upper_ascii_def is_lower_ascii_def is_digit_ascii_def Let_def
    by arith
qed

lemma canon_char_id:
  assumes "canon_char c"
  shows "upper_char c = [c]" "slashed c = c" "pair_char c" "\<not> is_control c" "\<not> py_space c"
proof -
  define n where "n = (of_char c :: nat)"
  have n: "(65 \<le> n \<and> n \<le> 90) \<or> (47 \<le> n \<and> n \<le> 58)" using assms by (simp add: canon_char_def n_def Let_def)
  show "upper_char c = [c]" using n by (auto simp: upper_char_def Let_def n_def [symmetric])
  show "slashed c = c" using n by (auto simp: slashed_code Let_def n_def [symmetric])
  show "pair_char c" using n by (auto simp: pair_char_code Let_def n_def [symmetric])
  show "\<not> is_control c" using n by (auto simp: is_control_def Let_def n_def [symmetric])
  show "\<not> py_space c" using n by (auto simp: py_space_def Let_def n_def [symmetric])
qed

lemma upper_canon:
  assumes "x \<in> set (upper_char c)" and "pair_char (slashed x)"
  shows "canon_char (slashed x)"
proof -
  define n where "n = (of_char c :: nat)"
  consider "97 \<le> n" "n \<le> 122" "x = char_of (n - 32)" | "n = 223" "x = CHR ''S''" 
   | "224 \<le> n" "n \<le> 254" "n \<noteq> 247" "x = char_of (n - 32)"
   | "\<not> (97 \<le> n \<and> n \<le> 122)" "n \<noteq> 223" "x = c"
    using assms(1) unfolding upper_char_def Let_def n_def [symmetric] by (auto split: if_splits)
  then show ?thesis
  proof cases
    case 1
    then have "of_char x = n - 32" by (simp add: of_char_of)
    then show ?thesis using 1 by (auto simp: slashed_code canon_char_def Let_def)
  next
    case 2
    then show ?thesis by (simp add: slashed_code canon_char_def Let_def)
  next
    case 3
    then have "of_char x = n - 32" by (simp add: of_char_of)
    then show ?thesis using 3 assms(2) by (auto simp: slashed_code pair_char_code Let_def)
  next
    case 4
    then show ?thesis using assms(2) by (auto simp: slashed_code pair_char_code canon_char_def Let_def n_def split: if_splits)
  qed
qed

lemma upper_set: "x \<in> set (upper s) \<longleftrightarrow> (\<exists>c \<in> set s. x \<in> set (upper_char c))"
  by (simp add: upper_def)

lemma raw_canon: "list_all pair_char (map slashed (upper w)) \<Longrightarrow>
    \<forall>x \<in> set (map slashed (upper w)). canon_char x"
  using upper_canon by (fastforce simp: list_all_iff upper_set)

lemma canon_text_again:
  assumes "\<forall>x \<in> set c. canon_char x" and "c \<noteq> []" and "length c \<le> 64"
  shows "ct_required_text f 64 c = Inr c" and "map slashed (upper c) = c" and "list_all pair_char c"
    and "upper c \<noteq> []"
proof -
  have "strip c = c" by (rule strip_id) (use assms(1,2) canon_char_id(5) in auto)
  then show "ct_required_text f 64 c = Inr c" using assms canon_char_id(4)
    by (auto simp: ct_required_text_def has_control_def list_ex_iff)
  have "upper c = c" using assms(1) by (induction c) (auto simp: upper_def canon_char_id(1))
  then show "upper c \<noteq> []" using assms(2) by simp
  from \<open>upper c = c\<close> show "map slashed (upper c) = c" using assms(1) by (simp add: map_idI canon_char_id(2))
  show "list_all pair_char c" using assms(1) canon_char_id(3) by (simp add: list_all_iff)
qed

lemma str_partition_app: "c \<notin> set a \<Longrightarrow> str_partition c (a @ c # b) = (a, b)"
  by (simp add: str_partition_def takeWhile_append dropWhile_append)

lemma str_partition_none: "c \<notin> set a \<Longrightarrow> str_partition c a = (a, [])"
proof -
  assume "c \<notin> set a"
  then have "takeWhile (\<lambda>x. x \<noteq> c) a = a" "dropWhile (\<lambda>x. x \<noteq> c) a = []"
    by (induction a) auto
  then show ?thesis unfolding str_partition_def by (metis drop_Nil)
qed

lemma str_partition_sets: "str_partition c s = (a, b) \<Longrightarrow> set a \<subseteq> set s \<and> set b \<subseteq> set s \<and> c \<notin> set a"
  by (auto simp: str_partition_def dest: set_takeWhileD in_set_dropD set_dropWhileD)

definition pair_ok :: "string \<Rightarrow> bool" where
  \<comment> \<open>what a canonical symbol is\<close>
  "pair_ok c \<longleftrightarrow> (\<forall>x \<in> set c. canon_char x) \<and>
     ((\<exists>base quote settle. c = pair_text base quote settle \<and> base \<noteq> [] \<and> quote \<noteq> []
         \<and> CHR ''/'' \<notin> set base \<and> CHR ''/'' \<notin> set quote \<and> CHR '':'' \<notin> set base \<and> CHR '':'' \<notin> set quote)
      \<or> (ascii_alnum c \<and> CHR ''/'' \<notin> set c \<and> CHR '':'' \<notin> set c
         \<and> find (\<lambda>q. endswith c q \<and> length c > length q) QUOTE_SUFFIXES = None))"

lemma quote_suffixes: "q \<in> set QUOTE_SUFFIXES \<Longrightarrow>
    q \<noteq> [] \<and> CHR ''/'' \<notin> set q \<and> CHR '':'' \<notin> set q \<and> (\<forall>x \<in> set q. canon_char x)"
  unfolding QUOTE_SUFFIXES_def by (auto simp: canon_char_def Let_def)

lemma pair_text_canon:
  "(\<forall>x \<in> set b. canon_char x) \<Longrightarrow> (\<forall>x \<in> set q. canon_char x) \<Longrightarrow> (\<forall>x \<in> set s. canon_char x) \<Longrightarrow>
    \<forall>x \<in> set (pair_text b q s). canon_char x"
  by (auto simp: pair_text_def canon_char_def Let_def)

lemma canonical_pair_ok:
  assumes "canonical_pair v = Inr c"
  shows "pair_ok c"
proof -
  obtain w where w: "ct_required_text ''symbol'' 64 v = Inr w"
    using assms by (auto simp: canonical_pair_def res_splits)
  define raw where "raw = map slashed (upper w)"
  obtain market settle where m: "str_partition (CHR '':'') raw = (market, settle)" by fastforce
  have raw: "list_all pair_char raw" "raw \<noteq> []"
    using assms w by (auto simp: canonical_pair_def raw_def Let_def split: if_splits)
  have canon: "\<forall>x \<in> set raw. canon_char x" using raw_canon raw(1) unfolding raw_def by blast
  note ms = str_partition_sets [OF m]
  show ?thesis
  proof (cases "CHR ''/'' \<in> set market")
    case True
    obtain base quote where b: "str_partition (CHR ''/'') market = (base, quote)" by fastforce
    note bs = str_partition_sets [OF b]
    have c: "base \<noteq> []" "quote \<noteq> []" "CHR ''/'' \<notin> set quote" "c = pair_text base quote settle"
      using assms w m raw True b by (auto simp: canonical_pair_def raw_def [symmetric] Let_def split: if_splits)
    moreover have "\<forall>x \<in> set c. canon_char x" unfolding c(4)
      by (rule pair_text_canon) (use canon ms bs in blast)+
    ultimately show ?thesis using ms bs unfolding pair_ok_def by blast
  next
    case False
    show ?thesis
    proof (cases "find (\<lambda>q. endswith market q \<and> length market > length q) QUOTE_SUFFIXES")
      case None
      then have "c = market" "ascii_alnum market"
        using assms w m raw False by (auto simp: canonical_pair_def raw_def [symmetric] Let_def split: if_splits)
      then show ?thesis using None False ms canon unfolding pair_ok_def by blast
    next
      case (Some q)
      then have q: "q \<in> set QUOTE_SUFFIXES" "length market > length q"
        by (auto simp: find_Some_iff)
      let ?b = "take (length market - length q) market"
      have c: "c = pair_text ?b q settle"
        using assms w m raw False Some by (auto simp: canonical_pair_def raw_def [symmetric] Let_def split: if_splits)
      have "?b \<noteq> []" using q(2) by auto
      moreover have "set ?b \<subseteq> set market" by (rule set_take_subset)
      moreover from this have "\<forall>x \<in> set c. canon_char x" unfolding c
        by (intro pair_text_canon) (use canon ms quote_suffixes [OF q(1)] in blast)+
      ultimately show ?thesis using c ms False quote_suffixes [OF q(1)] unfolding pair_ok_def by blast
    qed
  qed
qed

lemma pair_ok_nonempty: "pair_ok c \<Longrightarrow> c \<noteq> []"
  by (auto simp: pair_ok_def pair_text_def ascii_alnum_def)

lemma canonical_pair_id:
  assumes "pair_ok c" and "length c \<le> 64"
  shows "canonical_pair c = Inr c"
proof -
  have canon: "\<forall>x \<in> set c. canon_char x" using assms(1) by (simp add: pair_ok_def)
  note a = canon_text_again [OF canon pair_ok_nonempty [OF assms(1)] assms(2)]
  from assms(1) show ?thesis unfolding pair_ok_def
  proof (elim conjE disjE exE)
    fix base quote settle
    assume pair: "c = pair_text base quote settle" "base \<noteq> []"
      "quote \<noteq> []" "CHR ''/'' \<notin> set base" "CHR ''/'' \<notin> set quote" "CHR '':'' \<notin> set base"
      "CHR '':'' \<notin> set quote"
    define s where "s = (if settle = [] then quote else settle)"
    have s: "s \<noteq> []" using pair(3) by (simp add: s_def)
    have c: "c = (base @ CHR ''/'' # quote) @ CHR '':'' # s" by (simp add: pair(1) pair_text_def s_def)
    have "str_partition (CHR '':'') c = (base @ CHR ''/'' # quote, s)"
      unfolding c by (rule str_partition_app) (use pair in simp)
    moreover have "str_partition (CHR ''/'') (base @ CHR ''/'' # quote) = (base, quote)"
      by (rule str_partition_app) (rule pair(4))
    moreover have "pair_text base quote s = c" using s by (simp add: c pair_text_def)
    ultimately show ?thesis using a pair_ok_nonempty [OF assms(1)] pair(2,3,5)
      by (simp add: canonical_pair_def Let_def)
  next
    assume plain: "ascii_alnum c" "CHR ''/'' \<notin> set c" "CHR '':'' \<notin> set c"
      "find (\<lambda>q. endswith c q \<and> length c > length q) QUOTE_SUFFIXES = None"
    then show ?thesis using a pair_ok_nonempty [OF assms(1)] str_partition_none [OF plain(3)]
      by (simp add: canonical_pair_def Let_def)
  qed
qed

lemma canonical_pair_stable:
  "canonical_pair v = Inr c \<Longrightarrow> length c \<le> 64 \<Longrightarrow> canonical_pair c = Inr c"
  by (rule canonical_pair_id [OF canonical_pair_ok])

lemma raw_symbol_stable:
  "canonical_pair v = Inr c \<Longrightarrow> length c \<le> 64 \<Longrightarrow> raw_symbol c = raw_symbol v"
  by (simp add: raw_symbol_def canonical_pair_stable)

section \<open>Position keys\<close>

text \<open>Equality, ordering and hash of a key leave out the canonical symbol: \<open>pk_id\<close>.\<close>

record position_key =
  pk_exchange :: string
  pk_account_id :: string
  pk_symbol :: string
  pk_position_side :: position_side
  pk_canonical_symbol :: string

type_synonym position_id = "string \<times> string \<times> string \<times> position_side"

definition pk_id :: "position_key \<Rightarrow> position_id" where
  "pk_id k = (pk_exchange k, pk_account_id k, pk_symbol k, pk_position_side k)"

definition key_side :: "position_side + string \<Rightarrow> position_side res" where
  "key_side v = (case v of
     Inl s \<Rightarrow> Inr s
   | Inr t \<Rightarrow> if upper t = ''LONG'' then Inr LONG else if upper t = ''SHORT'' then Inr SHORT
       else Inl (Exn ValueError ''position_side is invalid''))"

definition mk_position_key :: "string \<Rightarrow> string \<Rightarrow> string option \<Rightarrow> (position_side + string) option \<Rightarrow>
    string option \<Rightarrow> position_key res" where
  "mk_position_key exchange account_id symbol position_side canonical =
     res_bind (case (symbol, canonical) of
         (None, None) \<Rightarrow> Inl (Exn TypeError ''symbol or canonical_symbol is required'')
       | (None, Some c) \<Rightarrow> Inr c
       | (Some s, None) \<Rightarrow> Inr s
       | (Some s, Some c) \<Rightarrow> res_bind (raw_symbol s) (\<lambda>x. res_bind (raw_symbol c) (\<lambda>y.
           if x \<noteq> y
           then Inl (Exn ValueError ''symbol and canonical_symbol identify different markets'')
           else Inr s))) (\<lambda>sym.
     res_bind (ct_required_text ''exchange'' 64 exchange) (\<lambda>exchange_value.
     res_bind (ct_required_text ''account_id'' 128 account_id) (\<lambda>account_value.
     res_bind (case position_side of
         None \<Rightarrow> Inl (Exn TypeError ''position_side is required'')
       | Some v \<Rightarrow> key_side v) (\<lambda>side.
     res_bind (raw_symbol sym) (\<lambda>raw.
     res_bind (canonical_pair sym) (\<lambda>canon.
     Inr \<lparr>pk_exchange = lower exchange_value, pk_account_id = account_value, pk_symbol = raw,
       pk_position_side = side, pk_canonical_symbol = canon\<rparr>))))))"

definition lock_name :: "position_key \<Rightarrow> string" where
  "lock_name k = pk_exchange k @ '':'' @ pk_account_id k @ '':'' @ pk_symbol k @ '':''
     @ side_value (pk_position_side k)"

lemma lower_char_code: "(of_char (lower_char c) :: nat) = (let n = of_char c in
    if (65 \<le> n \<and> n \<le> 90) \<or> (192 \<le> n \<and> n \<le> 222 \<and> n \<noteq> 215) then n + 32 else n)"
  by (auto simp: lower_char_def Let_def of_char_of)

lemma lower_char_lower [simp]: "lower_char (lower_char c) = lower_char c"
  unfolding char_code [of "lower_char (lower_char c)"] lower_char_code [of "lower_char c"]
  by (auto simp: lower_char_code Let_def)

lemma lower_char_keeps: "\<not> py_space c \<Longrightarrow> \<not> py_space (lower_char c)"
    "\<not> is_control c \<Longrightarrow> \<not> is_control (lower_char c)"
  by (auto simp: py_space_def is_control_def lower_char_code Let_def)

lemma ct_required_text_Inr: "ct_required_text f n v = Inr r \<longleftrightarrow> r = strip v \<and> clean n r"
  by (auto simp: ct_required_text_def clean_def Let_def)

lemma lower_clean:
  assumes "clean n s"
  shows "ct_required_text f n (lower s) = Inr (lower s)" and "lower (lower s) = lower s"
proof -
  have s: "s \<noteq> []" "strip s = s" "length s \<le> n" "\<not> has_control s" using assms by (auto simp: clean_def)
  then have "\<not> py_space (hd (lower s))" "\<not> py_space (last (lower s))"
    using strip_ends [of s] by (simp_all add: lower_def hd_map last_map lower_char_keeps)
  then have "strip (lower s) = lower s" by (intro strip_id) blast
  then show "ct_required_text f n (lower s) = Inr (lower s)" using s lower_char_keeps(2)
    by (auto simp: ct_required_text_def has_control_def list_ex_iff lower_def)
  show "lower (lower s) = lower s" by (simp add: lower_def)
qed

section \<open>Fill events\<close>

datatype event_id = EUuid nat | EText string

definition event_id_str :: "event_id \<Rightarrow> string" where
  \<comment> \<open>\<open>str(event_id)\<close>\<close>
  "event_id_str e = (case e of EUuid u \<Rightarrow> uuid_str u | EText s \<Rightarrow> s)"

record fill_args =
  fa_position_key :: position_key
  fa_trade_id :: string
  fa_client_order_id :: string
  fa_action :: "intent_action + string"
  fa_order_side :: "order_side + string"
  fa_quantity :: dec
  fa_price :: dec
  fa_fee :: "dec option"
  fa_fee_currency :: "string option"
  fa_exchange_time :: "datetime option"
  fa_observed_time :: "datetime option"
  fa_event_id :: "event_id option"
  fa_payload_version :: "int option"
  fa_correlation_id :: "string option"
  fa_event_type :: "string option"
  fa_hedge_event_version :: "int option"

record fill_event =
  fe_event_id :: event_id
  fe_correlation_id :: string
  fe_event_type :: string
  fe_hedge_event_version :: int
  fe_position_key :: position_key
  fe_trade_id :: string
  fe_client_order_id :: string
  fe_action :: intent_action
  fe_order_side :: order_side
  fe_quantity :: rat
  fe_price :: rat
  fe_fee :: rat
  fe_fee_currency :: string
  fe_exchange_time :: int
  fe_observed_time :: int
  fe_payload_version :: int

definition event_decimal :: "string \<Rightarrow> bool \<Rightarrow> dec \<Rightarrow> rat res" where
  "event_decimal name positive v = (case v of
     DFin q \<Rightarrow> if q < 0 \<or> (positive \<and> q \<le> 0)
       then Inl (Exn ValueError (name @ '' is outside the valid range'')) else Inr q
   | _ \<Rightarrow> Inl (Exn ValueError (name @ '' is outside the valid range'')))"

definition event_aware :: "string \<Rightarrow> datetime \<Rightarrow> int res" where
  "event_aware name v = (case v of Aware t \<Rightarrow> Inr t
     | Naive _ \<Rightarrow> Inl (Exn ValueError (name @ '' must be timezone-aware'')))"

definition or_else :: "'a option \<Rightarrow> 'a \<Rightarrow> 'a" where
  "or_else v d = (case v of None \<Rightarrow> d | Some x \<Rightarrow> x)"

definition mk_fill :: "nat \<Rightarrow> int \<Rightarrow> fill_args \<Rightarrow> fill_event res" where
  \<comment> \<open>\<open>_init_execution\<close>; the first two arguments are the results of \<open>uuid4\<close> and of the clock\<close>
  "mk_fill uid now a =
     (let trade_id = strip (fa_trade_id a); client_order_id = strip (fa_client_order_id a) in
     if trade_id = [] \<or> client_order_id = []
     then Inl (Exn ValueError ''trade_id and client_order_id are required'') else
     res_bind (coerce_action ''fill action or order_side is invalid'' (fa_action a)) (\<lambda>action.
     res_bind (coerce_enum ValueError ''fill action or order_side is invalid''
       [(BUY, ''BUY''), (SELL, ''SELL'')] (fa_order_side a)) (\<lambda>order_side.
     res_bind (event_decimal ''quantity'' True (fa_quantity a)) (\<lambda>quantity.
     res_bind (event_decimal ''price'' True (fa_price a)) (\<lambda>price.
     res_bind (event_decimal ''fee'' False (or_else (fa_fee a) (DFin 0))) (\<lambda>fee.
     let fee_currency = upper (strip (or_else (fa_fee_currency a) ''USDT'')) in
     if fee_currency = [] \<or> length fee_currency > 16
     then Inl (Exn ValueError ''fee_currency is invalid'') else
     res_bind (event_aware ''exchange_time'' (or_else (fa_exchange_time a) (Aware now))) (\<lambda>exchange_time.
     res_bind (event_aware ''observed_time'' (or_else (fa_observed_time a) (Aware now))) (\<lambda>observed_time.
     let payload_version = or_else (fa_payload_version a) 1;
         event_id = or_else (fa_event_id a) (EUuid uid);
         event_type = strip (or_else (fa_event_type a) ''FILL'');
         hedge_event_version = or_else (fa_hedge_event_version a) 1 in
     if payload_version \<le> 0 then Inl (Exn ValueError ''payload_version must be positive'')
     else if hedge_event_version \<le> 0
     then Inl (Exn ValueError ''hedge_event_version must be positive'')
     else Inr \<lparr>fe_event_id = event_id,
       fe_correlation_id = strip (or_else (fa_correlation_id a) (event_id_str event_id)),
       fe_event_type = (if event_type = [] then ''FILL'' else event_type),
       fe_hedge_event_version = hedge_event_version, fe_position_key = fa_position_key a,
       fe_trade_id = trade_id, fe_client_order_id = client_order_id, fe_action = action,
       fe_order_side = order_side, fe_quantity = quantity, fe_price = price, fe_fee = fee,
       fe_fee_currency = fee_currency, fe_exchange_time = exchange_time,
       fe_observed_time = observed_time, fe_payload_version = payload_version\<rparr>))))))))"

text \<open>\<open>==\<close> of two fills compares every field, the keys by their identity.\<close>

definition fill_eq :: "fill_event \<Rightarrow> fill_event \<Rightarrow> bool" where
  "fill_eq f g \<longleftrightarrow> f\<lparr>fe_position_key := fe_position_key g\<rparr> = g
     \<and> pk_id (fe_position_key f) = pk_id (fe_position_key g)"

definition fill_ok :: "fill_event \<Rightarrow> bool" where
  "fill_ok f \<longleftrightarrow> 0 < fe_quantity f \<and> 0 < fe_price f \<and> 0 \<le> fe_fee f \<and> fe_trade_id f \<noteq> []"

lemma mk_fill_ok: "mk_fill uid now a = Inr f \<Longrightarrow> fill_ok f"
  by (auto simp: mk_fill_def Let_def res_splits fill_ok_def event_decimal_def not_le not_less
      split: dec.splits if_splits)

section \<open>Outbox events\<close>

record outbox_event =
  ob_event_type :: string
  ob_payload :: mapping
  ob_correlation_id :: "string option"
  ob_event_id :: nat
  ob_payload_version :: int
  ob_occurred_at :: int
  ob_published_at :: "int option"
  ob_attempts :: int

definition mk_outbox :: "string \<Rightarrow> mapping \<Rightarrow> string option \<Rightarrow> nat \<Rightarrow> int \<Rightarrow> datetime \<Rightarrow>
    datetime option \<Rightarrow> int \<Rightarrow> outbox_event res" where
  \<comment> \<open>\<open>OutboxEvent.__post_init__\<close>\<close>
  "mk_outbox event_type payload correlation_id event_id payload_version occurred_at published_at attempts =
     (let name = upper (strip event_type) in
     if name = [] \<or> length name > 128 then Inl (Exn ValueError ''event_type is invalid'')
     else if payload_version \<le> 0 then Inl (Exn ValueError ''payload_version must be positive'')
     else if attempts < 0 then Inl (Exn ValueError ''attempts must not be negative'') else
     res_bind (event_aware ''occurred_at'' occurred_at) (\<lambda>occurred.
     res_bind (case published_at of None \<Rightarrow> Inr None
       | Some p \<Rightarrow> res_bind (event_aware ''published_at'' p) (\<lambda>t. Inr (Some t))) (\<lambda>published.
     Inr \<lparr>ob_event_type = name, ob_payload = payload, ob_correlation_id = correlation_id,
       ob_event_id = event_id, ob_payload_version = payload_version, ob_occurred_at = occurred,
       ob_published_at = published, ob_attempts = attempts\<rparr>)))"

definition outbox_ok :: "outbox_event \<Rightarrow> bool" where
  "outbox_ok e \<longleftrightarrow> upper (strip (ob_event_type e)) = ob_event_type e \<and> ob_event_type e \<noteq> []
     \<and> length (ob_event_type e) \<le> 128 \<and> 0 < ob_payload_version e \<and> 0 \<le> ob_attempts e"

section \<open>Properties\<close>

text \<open>A position key can be rebuilt from its own fields: as long as its canonical symbol keeps within
  the 64 characters that a symbol may have, constructing a key again from the stored exchange,
  account, canonical symbol and the text of the side gives the same key.\<close>

theorem position_key_roundtrip:
  assumes "mk_position_key exchange account_id (Some symbol) (Some side) None = Inr k"
    and "length (pk_canonical_symbol k) \<le> 64"
  shows "mk_position_key (pk_exchange k) (pk_account_id k) (Some (pk_canonical_symbol k))
    (Some (Inr (side_value (pk_position_side k)))) (Some (pk_canonical_symbol k)) = Inr k"
proof -
  obtain e a raw c s where f: "ct_required_text ''exchange'' 64 exchange = Inr e"
    "ct_required_text ''account_id'' 128 account_id = Inr a" "raw_symbol symbol = Inr raw"
    "canonical_pair symbol = Inr c" "k = \<lparr>pk_exchange = lower e, pk_account_id = a, pk_symbol = raw,
       pk_position_side = s, pk_canonical_symbol = c\<rparr>"
    using assms(1) by (auto simp: mk_position_key_def res_splits)
  have c: "canonical_pair c = Inr c" "raw_symbol c = Inr raw"
    using canonical_pair_stable [OF f(4)] raw_symbol_stable [OF f(4)] assms(2) f(3) by (simp_all add: f(5))
  have e: "ct_required_text ''exchange'' 64 (lower e) = Inr (lower e)" "lower (lower e) = lower e"
    using lower_clean [of 64 e] f(1) unfolding ct_required_text_Inr by blast+
  have "ct_required_text ''account_id'' 128 a = Inr a"
    using f(2) by (auto simp: ct_required_text_Inr clean_def)
  moreover have "key_side (Inr (side_value s)) = Inr s" by (cases s) (simp_all add: key_side_def, code_simp+)
  ultimately show ?thesis using c e by (simp add: f(5) mk_position_key_def)
qed

definition demo_key :: position_key where
  "demo_key = \<lparr>pk_exchange = ''binance'', pk_account_id = ''acct-1'', pk_symbol = ''BTCUSDT'',
     pk_position_side = LONG, pk_canonical_symbol = ''BTC/USDT:USDT''\<rparr>"

theorem position_key_roundtrip_witness:
  "mk_position_key ''binance'' ''acct-1'' (Some ''BTC/USDT:USDT'') (Some (Inr ''LONG''))
     (Some ''BTC/USDT:USDT'') = Inr demo_key"
proof -
  have k: "mk_position_key '' Binance'' ''acct-1'' (Some ''btcusdt'') (Some (Inr ''Long'')) None = Inr demo_key"
    by code_simp
  show ?thesis using position_key_roundtrip [OF k] by (simp add: demo_key_def)
qed

text \<open>Every symbol that \<open>canonical_symbol\<close> accepts is normalised once and for all: within the length
  limit, its canonical form is accepted again, unchanged, and names the same raw market.\<close>

theorem canonical_symbol_stable:
  assumes "canonical_symbol v = Inr c" and "length c \<le> 64"
  shows "canonical_symbol c = Inr c \<and> raw_symbol c = raw_symbol v"
  using assms canonical_pair_stable raw_symbol_stable by (simp add: canonical_symbol_def)

theorem canonical_symbol_stable_witness:
  "canonical_symbol ''ETH/USDC:USDC'' = Inr ''ETH/USDC:USDC'' \<and> raw_symbol ''ETH/USDC:USDC'' = raw_symbol ''eth-usdc''"
proof -
  have "canonical_symbol ''eth-usdc'' = Inr ''ETH/USDC:USDC''" by code_simp
  then show ?thesis by (rule canonical_symbol_stable) simp
qed

end
