(* ===== verification/Execution_Ledger.thy ===== *)
theory Execution_Ledger
  imports Contract_Types
begin

text \<open>
  The in-memory execution ledger, \<open>freqtrade/hedge/execution/ledger.py\<close>: position projections
  that fills are applied to, and the store of orders, fills, projections, outbox events and audit
  records. The ledger's lock makes every operation one step. The properties: a projection is always
  the replay of exactly the recorded fills of its position over its seed, it never turns negative and
  its quantity is the exact balance of the fills, an operation that raises changes nothing, and a
  redelivered fill is applied once.
\<close>

section \<open>Projections\<close>

record projection =
  pp_position_key :: position_key
  pp_quantity :: rat
  pp_average_entry_price :: rat
  pp_realized_pnl :: rat
  pp_fees :: rat
  pp_funding :: rat
  pp_version :: int
  pp_updated_at :: int

definition new_projection :: "position_key \<Rightarrow> projection" where
  "new_projection k = \<lparr>pp_position_key = k, pp_quantity = 0, pp_average_entry_price = 0,
     pp_realized_pnl = 0, pp_fees = 0, pp_funding = 0, pp_version = 0, pp_updated_at = 0\<rparr>"

text \<open>Decimal division raises \<open>DivisionByZero\<close>, and \<open>InvalidOperation\<close> for zero by zero.\<close>

definition dec_quotient :: "rat \<Rightarrow> rat \<Rightarrow> rat res" where
  "dec_quotient a b = (if b = 0
     then Inl (Exn (Derived (if a = 0 then ''InvalidOperation'' else ''DivisionByZero'')
       ArithmeticError) ''division by zero'')
     else Inr (dec_div a b))"

definition fill_effect :: "projection \<Rightarrow> fill_event \<Rightarrow> (rat \<times> rat \<times> rat) res" where
  \<comment> \<open>the new quantity, average entry price and realized profit\<close>
  "fill_effect p f =
     (let qty = pp_quantity p; avg = pp_average_entry_price p; realized = pp_realized_pnl p in
      if fe_action f \<in> {OPEN, INCREASE}
      then let next_qty = dec_add qty (fe_quantity f) in
        res_bind (dec_quotient (dec_add (dec_mul qty avg) (dec_mul (fe_quantity f) (fe_price f))) next_qty)
          (\<lambda>next_avg. Inr (next_qty, next_avg, realized))
      else if fe_quantity f > qty
      then Inl (Exn ValueError ''reduce fill would cross the position through zero'')
      else let next_qty = dec_sub qty (fe_quantity f);
          gain = (if pk_position_side (pp_position_key p) = LONG
            then dec_mul (dec_sub (fe_price f) avg) (fe_quantity f)
            else dec_mul (dec_sub avg (fe_price f)) (fe_quantity f))
        in Inr (next_qty, (if next_qty = 0 then 0 else avg), dec_add realized gain))"

definition apply_fill :: "fill_event \<Rightarrow> projection \<Rightarrow> projection res" where
  "apply_fill f p =
     (if pk_id (fe_position_key f) \<noteq> pk_id (pp_position_key p)
      then Inl (Exn ValueError ''fill position key does not match projection'') else
      res_bind (fill_effect p f) (\<lambda>(next_qty, next_avg, realized).
      Inr (p\<lparr>pp_quantity := next_qty, pp_average_entry_price := next_avg,
        pp_realized_pnl := realized, pp_fees := dec_add (pp_fees p) (fe_fee f),
        pp_version := pp_version p + 1, pp_updated_at := fe_observed_time f\<rparr>)))"

section \<open>The ledger\<close>

record audit_entry =
  le_event_type :: string
  le_payload :: mapping
  le_occurred_at :: int

type_synonym fill_key = "string \<times> string \<times> string"

record 'o ledger =
  lg_orders :: "(string, 'o) dict"
  lg_fills :: "(fill_key, fill_event) dict"
  lg_positions :: "(position_id, projection) dict"
  lg_outbox :: "(string, outbox_event) dict"
  lg_audit :: "audit_entry list"

definition empty_ledger :: "'o ledger" where
  "empty_ledger = \<lparr>lg_orders = [], lg_fills = [], lg_positions = [], lg_outbox = [], lg_audit = []\<rparr>"

record seed_args =
  sd_position_key :: position_key
  sd_quantity :: dec
  sd_average_entry_price :: dec
  sd_realized_pnl :: dec
  sd_fees :: dec
  sd_funding :: dec
  sd_observed_at :: "datetime option"

fun finite_values :: "dec list \<Rightarrow> rat list res" where
  "finite_values [] = Inr []"
| "finite_values (v # vs) = (case v of
     DFin q \<Rightarrow> res_bind (finite_values vs) (\<lambda>qs. Inr (q # qs))
   | _ \<Rightarrow> Inl (Exn ValueError ''position seed values must be finite Decimal values''))"

definition seed_candidate :: "int \<Rightarrow> seed_args \<Rightarrow> projection res" where
  "seed_candidate now a =
     res_bind (finite_values [sd_quantity a, sd_average_entry_price a, sd_realized_pnl a, sd_fees a,
       sd_funding a]) (\<lambda>vs.
     let quantity = vs ! 0; price = vs ! 1 in
     if quantity < 0 \<or> price < 0
     then Inl (Exn ValueError ''position seed quantity/price cannot be negative'') else
     case or_else (sd_observed_at a) (Aware now) of
       Naive _ \<Rightarrow> Inl (Exn ValueError ''position seed observed_at must be timezone-aware'')
     | Aware t \<Rightarrow> Inr \<lparr>pp_position_key = sd_position_key a, pp_quantity = quantity,
         pp_average_entry_price = (if quantity = 0 then 0 else price), pp_realized_pnl = vs ! 2,
         pp_fees = vs ! 3, pp_funding = vs ! 4, pp_version = 0, pp_updated_at = t\<rparr>)"

definition seed_position :: "int \<Rightarrow> seed_args \<Rightarrow> ('o ledger, projection) py" where
  "seed_position now a L = (case seed_candidate now a of
     Inl e \<Rightarrow> (Inl e, L)
   | Inr candidate \<Rightarrow>
       let key = pk_id (sd_position_key a); store = (Inr candidate,
             L\<lparr>lg_positions := dict_put key candidate (lg_positions L)\<rparr>) in
       case dict_get (lg_positions L) key of
         None \<Rightarrow> store
       | Some existing \<Rightarrow>
           if pp_version existing > 0
           then (if (pp_quantity existing, pp_average_entry_price existing)
                  \<noteq> (pp_quantity candidate, pp_average_entry_price candidate)
             then (Inl (Exn RuntimeError ''live position conflicts with applied execution fills''), L)
             else (Inr existing, L))
           else store)"

definition position :: "'o ledger \<Rightarrow> position_key \<Rightarrow> projection" where
  "position L k = or_else (dict_get (lg_positions L) (pk_id k)) (new_projection k)"

definition fill_key_of :: "fill_event \<Rightarrow> fill_key" where
  "fill_key_of f = (pk_exchange (fe_position_key f), pk_account_id (fe_position_key f), fe_trade_id f)"

text \<open>The part of \<open>record\<close> about the fill: every statement that can raise comes before the first
  assignment.\<close>

definition record_fill :: "fill_event \<Rightarrow> ('o ledger, unit) py" where
  "record_fill f L = (case dict_get (lg_fills L) (fill_key_of f) of
     Some existing \<Rightarrow> if \<not> fill_eq existing f
       then (Inl (Exn ValueError ''duplicate trade_id contains conflicting fill data''), L)
       else (Inr (), L)
   | None \<Rightarrow> (case apply_fill f (position L (fe_position_key f)) of
       Inl e \<Rightarrow> (Inl e, L)
     | Inr projected \<Rightarrow> (Inr (), L\<lparr>lg_fills := dict_put (fill_key_of f) f (lg_fills L),
         lg_positions := dict_put (pk_id (fe_position_key f)) projected (lg_positions L)\<rparr>)))"

definition record_event :: "int \<Rightarrow> string \<Rightarrow> 'o \<Rightarrow> string \<Rightarrow> fill_event option \<Rightarrow>
    outbox_event option \<Rightarrow> mapping option \<Rightarrow> ('o ledger, unit) py" where
  \<comment> \<open>\<open>record\<close>; the second argument is the order's \<open>client_order_id\<close>\<close>
  "record_event now client_id order event_type fill outbox payload L =
     (if strip client_id = [] then (Inl (Exn ValueError ''order must expose client_order_id''), L)
      else if strip event_type = [] then (Inl (Exn ValueError ''event_type is required''), L) else
      case (case fill of None \<Rightarrow> (Inr (), L) | Some f \<Rightarrow> record_fill f L) of
        (Inl e, L') \<Rightarrow> (Inl e, L')
      | (Inr _, L') \<Rightarrow> (Inr (), L'\<lparr>
          lg_orders := dict_put (strip client_id) order (lg_orders L'),
          lg_outbox := (case outbox of None \<Rightarrow> lg_outbox L'
            | Some e \<Rightarrow> dict_put (uuid_str (ob_event_id e)) e (lg_outbox L')),
          lg_audit := lg_audit L' @ [\<lparr>le_event_type = upper (strip event_type),
            le_payload = or_else payload [], le_occurred_at = now\<rparr>]\<rparr>))"

definition ledger_order :: "'o ledger \<Rightarrow> string \<Rightarrow> 'o option" where
  "ledger_order L cid = dict_get (lg_orders L) cid"

definition ledger_fills :: "'o ledger \<Rightarrow> fill_event list" where
  "ledger_fills L = sort_key (\<lambda>f. (fe_observed_time f, fe_trade_id f)) (dict_values (lg_fills L))"

definition positions :: "string option \<Rightarrow> string option \<Rightarrow> 'o ledger \<Rightarrow> projection list" where
  "positions account_id symbol L =
     filter (\<lambda>p. (case account_id of None \<Rightarrow> True | Some a \<Rightarrow> pk_account_id (pp_position_key p) = a)
         \<and> (case symbol of None \<Rightarrow> True | Some s \<Rightarrow> pk_symbol (pp_position_key p) = s))
       (sort_key (\<lambda>p. lock_name (pp_position_key p)) (dict_values (lg_positions L)))"

definition ledger_audit :: "int \<Rightarrow> 'o ledger \<Rightarrow> audit_entry list res" where
  "ledger_audit limit L = (if limit \<le> 0 then Inl (Exn ValueError ''limit must be positive'')
     else Inr (take (nat limit) (rev (lg_audit L))))"

definition outbox :: "bool \<Rightarrow> 'o ledger \<Rightarrow> outbox_event list" where
  "outbox unpublished_only L = sort_key ob_occurred_at
     (filter (\<lambda>e. \<not> unpublished_only \<or> ob_published_at e = None) (dict_values (lg_outbox L)))"

definition mark_published :: "int \<Rightarrow> string \<Rightarrow> int option \<Rightarrow> ('o ledger, unit) py" where
  "mark_published now event_id published_at L = (case dict_get (lg_outbox L) event_id of
     None \<Rightarrow> (Inl (Exn KeyError event_id), L)
   | Some e \<Rightarrow> (Inr (), L\<lparr>lg_outbox := dict_put event_id
       (e\<lparr>ob_published_at := Some (or_else published_at now), ob_attempts := ob_attempts e + 1\<rparr>)
       (lg_outbox L)\<rparr>))"

definition mark_publish_attempt :: "string \<Rightarrow> ('o ledger, unit) py" where
  "mark_publish_attempt event_id L = (case dict_get (lg_outbox L) event_id of
     None \<Rightarrow> (Inl (Exn KeyError event_id), L)
   | Some e \<Rightarrow> (Inr (), L\<lparr>lg_outbox :=
       dict_put event_id (e\<lparr>ob_attempts := ob_attempts e + 1\<rparr>) (lg_outbox L)\<rparr>))"

section \<open>Histories\<close>

datatype 'o ledger_op =
    Seed int seed_args
  | Record int string 'o string "fill_event option" "outbox_event option" "mapping option"
  | Published int string "int option"
  | Attempted string

fun ledger_do :: "'o ledger_op \<Rightarrow> 'o ledger \<Rightarrow> 'o ledger" where
  "ledger_do (Seed now a) L = snd (seed_position now a L)"
| "ledger_do (Record now cid order event_type fill out payload) L =
     snd (record_event now cid order event_type fill out payload L)"
| "ledger_do (Published now event_id at_time) L = snd (mark_published now event_id at_time L)"
| "ledger_do (Attempted event_id) L = snd (mark_publish_attempt event_id L)"

definition history :: "'o ledger_op list \<Rightarrow> 'o ledger" where
  "history ops = fold ledger_do ops empty_ledger"

text \<open>The recorded fills of a position, oldest first, and their replay over a projection.\<close>

definition fills_of :: "position_id \<Rightarrow> 'o ledger \<Rightarrow> fill_event list" where
  "fills_of i L = filter (\<lambda>f. pk_id (fe_position_key f) = i) (dict_values (lg_fills L))"

fun replay :: "fill_event list \<Rightarrow> projection \<Rightarrow> projection res" where
  "replay [] p = Inr p"
| "replay (f # fs) p = res_bind (apply_fill f p) (replay fs)"

lemma replay_append: "replay (fs @ gs) p = res_bind (replay fs p) (replay gs)"
  by (induction fs arbitrary: p) (simp_all add: res_bind_def split: sum.split)

section \<open>Positions are replays of the recorded fills\<close>

lemma dict_values_put_new: "dict_get d k = None \<Longrightarrow> dict_values (dict_put k v d) = dict_values d @ [v]"
  by (induction d) (auto split: if_splits)

lemma apply_fill_Inr:
  assumes "apply_fill f p = Inr p'"
  shows "pp_version p' = pp_version p + 1" and "pp_position_key p' = pp_position_key p"
    and "pk_id (fe_position_key f) = pk_id (pp_position_key p)"
    and "pp_updated_at p' = fe_observed_time f" and "pp_funding p' = pp_funding p"
  using assms by (auto simp: apply_fill_def res_splits split: if_splits)

lemma history_append: "history (ops @ [op]) = ledger_do op (history ops)"
  by (simp add: history_def)

definition base_of :: "'o ledger_op list \<Rightarrow> position_id \<Rightarrow> projection \<Rightarrow> bool" where
  \<comment> \<open>a seed of the history, or the empty projection\<close>
  "base_of ops i b \<longleftrightarrow>
     (\<exists>now a. Seed now a \<in> set ops \<and> pk_id (sd_position_key a) = i \<and> seed_candidate now a = Inr b)
     \<or> (\<exists>k. pk_id k = i \<and> b = new_projection k)"

lemma base_of_fields: "base_of ops i b \<Longrightarrow> pp_version b = 0 \<and> pk_id (pp_position_key b) = i
    \<and> 0 \<le> pp_quantity b \<and> 0 \<le> pp_average_entry_price b"
  by (auto simp: base_of_def new_projection_def seed_candidate_def Let_def res_splits not_less
      split: if_splits datetime.splits)

lemma base_of_append: "base_of ops i b \<Longrightarrow> base_of (ops @ [op]) i b"
  by (auto simp: base_of_def)

definition replayed :: "'o ledger_op list \<Rightarrow> 'o ledger \<Rightarrow> position_id \<Rightarrow> bool" where
  "replayed ops L i \<longleftrightarrow> (case dict_get (lg_positions L) i of
     None \<Rightarrow> fills_of i L = []
   | Some p \<Rightarrow> pp_version p = int (length (fills_of i L)) \<and> pk_id (pp_position_key p) = i
       \<and> (\<exists>b. base_of ops i b \<and> replay (fills_of i L) b = Inr p))"

lemma replayed_same:
  "replayed ops L i \<Longrightarrow> dict_get (lg_positions L') i = dict_get (lg_positions L) i \<Longrightarrow>
    fills_of i L' = fills_of i L \<Longrightarrow> replayed (ops @ [op]) L' i"
  unfolding replayed_def by (auto dest: base_of_append split: option.splits)

lemma seed_position_cases:
  assumes "seed_position now a L = (r, L')"
  shows "L' = L \<or> (\<exists>c. seed_candidate now a = Inr c
      \<and> (case dict_get (lg_positions L) (pk_id (sd_position_key a)) of None \<Rightarrow> True | Some p \<Rightarrow> pp_version p \<le> 0)
      \<and> L' = L\<lparr>lg_positions := dict_put (pk_id (sd_position_key a)) c (lg_positions L)\<rparr>)"
  using assms by (auto simp: seed_position_def Let_def not_less split: sum.splits option.splits if_splits)

lemma replayed_seed:
  assumes inv: "\<And>i. replayed ops L i"
  shows "replayed (ops @ [Seed now a]) (ledger_do (Seed now a) L) i"
proof -
  obtain r L' where s: "seed_position now a L = (r, L')" by fastforce
  let ?k = "pk_id (sd_position_key a)"
  from seed_position_cases [OF s] show ?thesis
  proof (elim disjE exE conjE)
    assume "L' = L"
    then show ?thesis using replayed_same [OF inv] s by simp
  next
    fix c
    assume c: "seed_candidate now a = Inr c" and L': "L' = L\<lparr>lg_positions := dict_put ?k c (lg_positions L)\<rparr>"
      and v: "case dict_get (lg_positions L) ?k of None \<Rightarrow> True | Some p \<Rightarrow> pp_version p \<le> 0"
    show ?thesis
    proof (cases "i = ?k")
      case False
      then show ?thesis using s by (intro replayed_same [OF inv [of i]]) (simp_all add: L' fills_of_def dict_get_put)
    next
      case True
      have none: "fills_of i L = []" using inv [of i] v True
        by (auto simp: replayed_def split: option.splits)
      have b: "base_of (ops @ [Seed now a]) i c" using c True by (auto simp: base_of_def)
      have "fills_of i L' = []" using none by (simp add: L' fills_of_def)
      then show ?thesis using s b base_of_fields [OF b] True
        by (auto simp: replayed_def L' dict_get_put)
    qed
  qed
qed

lemma record_fill_cases:
  assumes "record_fill f L = (r, L')"
  shows "(L' = L \<and> (r = Inr () \<longrightarrow> (\<exists>g. dict_get (lg_fills L) (fill_key_of f) = Some g \<and> fill_eq g f)))
    \<or> (\<exists>p. r = Inr () \<and> dict_get (lg_fills L) (fill_key_of f) = None
      \<and> apply_fill f (position L (fe_position_key f)) = Inr p
      \<and> L' = L\<lparr>lg_fills := dict_put (fill_key_of f) f (lg_fills L),
           lg_positions := dict_put (pk_id (fe_position_key f)) p (lg_positions L)\<rparr>)"
  using assms by (auto simp: record_fill_def split: option.splits sum.splits if_splits)

lemma replayed_fill:
  assumes inv: "\<And>i. replayed ops L i" and r: "record_fill f L = (r, L')"
  shows "replayed (ops @ [op]) L' i"
  using record_fill_cases [OF r]
proof (elim disjE exE conjE)
  assume "L' = L"
  then show ?thesis using replayed_same [OF inv] by simp
next
  fix p
  assume new: "dict_get (lg_fills L) (fill_key_of f) = None"
    and p: "apply_fill f (position L (fe_position_key f)) = Inr p"
    and L': "L' = L\<lparr>lg_fills := dict_put (fill_key_of f) f (lg_fills L),
           lg_positions := dict_put (pk_id (fe_position_key f)) p (lg_positions L)\<rparr>"
  let ?i = "pk_id (fe_position_key f)"
  have fills: "fills_of j L' = (if j = ?i then fills_of j L @ [f] else fills_of j L)" for j
    using dict_values_put_new [OF new, of f] by (simp add: fills_of_def L')
  show ?thesis
  proof (cases "i = ?i")
    case False
    then show ?thesis by (intro replayed_same [OF inv [of i]]) (simp_all add: fills, simp add: L' dict_get_put)
  next
    case True
    note a = apply_fill_Inr [OF p]
    obtain b where b: "base_of ops i b" "replay (fills_of i L) b = Inr (position L (fe_position_key f))"
        "pp_version (position L (fe_position_key f)) = int (length (fills_of i L))"
      using inv [of i] True that
      by (cases "dict_get (lg_positions L) ?i")
        (auto simp: replayed_def position_def or_else_def base_of_def new_projection_def)
    have "replay (fills_of i L') b = Inr p" "length (fills_of i L') = length (fills_of i L) + 1"
      "dict_get (lg_positions L') i = Some p"
      using b(2) p True by (simp_all add: fills replay_append) (simp add: L' dict_get_put)
    moreover have "pk_id (pp_position_key p) = i" using a True by simp
    ultimately show ?thesis using a(1) b(3) base_of_append [OF b(1), of op] unfolding replayed_def by auto
  qed
qed

lemma fills_of_cong: "lg_fills L' = lg_fills L \<Longrightarrow> fills_of i L' = fills_of i L"
  by (simp add: fills_of_def)

lemma record_event_cases:
  assumes "record_event now cid order t fill out payload L = (r, L')"
  shows "((\<exists>e. r = Inl e) \<and> L' = L) \<or> (r = Inr () \<and> (\<exists>M.
      (case fill of None \<Rightarrow> M = L | Some f \<Rightarrow> record_fill f L = (Inr (), M))
      \<and> lg_fills L' = lg_fills M \<and> lg_positions L' = lg_positions M))"
proof (cases "strip cid = [] \<or> strip t = []")
  case True
  then show ?thesis using assms by (auto simp: record_event_def split: if_splits)
next
  case False
  obtain r1 M where m: "(case fill of None \<Rightarrow> (Inr (), L) | Some f \<Rightarrow> record_fill f L) = (r1, M)" by fastforce
  show ?thesis
  proof (cases r1)
    case (Inl e)
    have "M = L" using m Inl record_fill_cases by (fastforce split: option.splits)
    then have "(r, L') = (Inl e, L)" using assms False m Inl by (simp add: record_event_def)
    then show ?thesis by blast
  next
    case (Inr u)
    then show ?thesis using assms False m by (auto simp: record_event_def split: option.splits)
  qed
qed

lemma replayed_record:
  assumes inv: "\<And>i. replayed ops L i"
  shows "replayed (ops @ [op]) (snd (record_event now cid order t fill out payload L)) i"
proof -
  obtain r L' where r: "record_event now cid order t fill out payload L = (r, L')" by fastforce
  from record_event_cases [OF r] show ?thesis
  proof (elim disjE exE conjE)
    assume "L' = L"
    then show ?thesis using replayed_same [OF inv] r by simp
  next
    fix M
    assume M: "case fill of None \<Rightarrow> M = L | Some f \<Rightarrow> record_fill f L = (Inr (), M)"
      and L': "lg_fills L' = lg_fills M" "lg_positions L' = lg_positions M"
    have "replayed (ops @ [op]) M i"
      using M replayed_fill [OF inv] replayed_same [OF inv] by (auto split: option.splits)
    then show ?thesis unfolding r snd_conv replayed_def fills_of_cong [OF L'(1)] L'(2) .
  qed
qed

lemma history_replayed: "replayed ops (history ops) i"
proof (induction ops arbitrary: i rule: rev_induct)
  case Nil
  then show ?case by (simp add: history_def empty_ledger_def replayed_def fills_of_def)
next
  case (snoc op ops)
  show ?case unfolding history_append
  proof (cases op)
    case (Seed now a)
    then show "replayed (ops @ [op]) (ledger_do op (history ops)) i" using replayed_seed [OF snoc] by simp
  next
    case (Record now cid order t fill out payload)
    then show "replayed (ops @ [op]) (ledger_do op (history ops)) i" using replayed_record [OF snoc] by simp
  next
    case (Published now e p)
    then show "replayed (ops @ [op]) (ledger_do op (history ops)) i"
      by (intro replayed_same [OF snoc]) (simp_all add: mark_published_def fills_of_def split: option.split)
  next
    case (Attempted e)
    then show "replayed (ops @ [op]) (ledger_do op (history ops)) i"
      by (intro replayed_same [OF snoc]) (simp_all add: mark_publish_attempt_def fills_of_def split: option.split)
  qed
qed

lemma apply_fill_nonneg:
  assumes "apply_fill f p = Inr p'" and "fill_ok f" and "0 \<le> pp_quantity p" and "0 \<le> pp_average_entry_price p"
  shows "0 \<le> pp_quantity p' \<and> 0 \<le> pp_average_entry_price p'"
  using assms
  by (auto simp: apply_fill_def fill_effect_def res_splits Let_def fill_ok_def dec_quotient_def dec_add_def
      dec_sub_def dec_mul_def dec_div_def intro!: dec_round_nonneg divide_nonneg_nonneg add_nonneg_nonneg
      mult_nonneg_nonneg split: if_splits)

lemma replay_nonneg:
  assumes "replay fs p = Inr p'" and "\<forall>f \<in> set fs. fill_ok f" and "0 \<le> pp_quantity p"
    and "0 \<le> pp_average_entry_price p"
  shows "0 \<le> pp_quantity p' \<and> 0 \<le> pp_average_entry_price p'"
  using assms
proof (induction fs arbitrary: p)
  case (Cons f fs)
  then obtain q where q: "apply_fill f p = Inr q" "replay fs q = Inr p'" by (auto simp: res_splits)
  then have "0 \<le> pp_quantity q \<and> 0 \<le> pp_average_entry_price q"
    using apply_fill_nonneg [OF q(1)] Cons.prems by simp
  then show ?case using Cons.IH [OF q(2)] Cons.prems(2) by simp
qed simp

text \<open>Quantities on a decimal grid whose sum stays within 28 digits are added without rounding.\<close>

definition on_grid :: "int \<Rightarrow> rat \<Rightarrow> bool" where
  "on_grid e q \<longleftrightarrow> (\<exists>n. q = of_int n * pow10 e)"

definition signed_quantity :: "fill_event \<Rightarrow> rat" where
  "signed_quantity f = (if reduces_risk (fe_action f) then - fe_quantity f else fe_quantity f)"

lemma grid_exact:
  assumes "on_grid e q" and "\<bar>q\<bar> < 10 ^ 28 * pow10 e"
  shows "dec_round q = q"
proof -
  obtain n where n: "q = of_int n * pow10 e" using assms(1) by (auto simp: on_grid_def)
  then have "of_int \<bar>n\<bar> * pow10 e < 10 ^ 28 * pow10 e"
    using assms(2) pow10_pos [of e] by (simp add: abs_mult)
  then have "(of_int \<bar>n\<bar> :: rat) < of_int (10 ^ 28)" using pow10_pos [of e] by simp
  then have "\<bar>n\<bar> < 10 ^ 28" unfolding of_int_less_iff .
  then show ?thesis by (rule dec_round_exact [OF n])
qed

lemma on_grid_add: "on_grid e a \<Longrightarrow> on_grid e b \<Longrightarrow> on_grid e (a + b)"
  by (auto simp: on_grid_def distrib_right [symmetric] simp flip: of_int_add)

lemma on_grid_minus: "on_grid e a \<Longrightarrow> on_grid e (- a)"
  by (auto simp: on_grid_def simp flip: of_int_minus mult_minus_left)

lemma apply_fill_quantity:
  assumes "apply_fill f p = Inr p'"
  shows "pp_quantity p' = dec_round (pp_quantity p + signed_quantity f)"
  using assms
  by (cases "fe_action f") (auto simp: apply_fill_def fill_effect_def res_splits Let_def signed_quantity_def
      reduces_risk_def dec_add_def dec_sub_def split: if_splits)

lemma replay_quantity:
  assumes "replay fs p = Inr p'" and "\<forall>f \<in> set fs. on_grid e (fe_quantity f) \<and> 0 \<le> fe_quantity f"
    and "on_grid e (pp_quantity p)"
    and "\<bar>pp_quantity p\<bar> + sum_list (map fe_quantity fs) < 10 ^ 28 * pow10 e"
  shows "pp_quantity p' = pp_quantity p + sum_list (map signed_quantity fs)"
  using assms
proof (induction fs arbitrary: p)
  case (Cons f fs)
  then obtain q where q: "apply_fill f p = Inr q" "replay fs q = Inr p'" by (auto simp: res_splits)
  have s: "\<bar>signed_quantity f\<bar> = fe_quantity f" "on_grid e (signed_quantity f)"
    using Cons.prems(2) on_grid_minus by (auto simp: signed_quantity_def)
  have rest: "0 \<le> sum_list (map fe_quantity fs)"
    using Cons.prems(2) by (intro sum_list_nonneg) auto
  have g: "on_grid e (pp_quantity p + signed_quantity f)" using Cons.prems(3) s(2) by (rule on_grid_add)
  have "\<bar>pp_quantity p + signed_quantity f\<bar> \<le> \<bar>pp_quantity p\<bar> + fe_quantity f"
    using s(1) abs_triangle_ineq [of "pp_quantity p" "signed_quantity f"] by simp
  then have "\<bar>pp_quantity p + signed_quantity f\<bar> + sum_list (map fe_quantity fs) < 10 ^ 28 * pow10 e"
    using Cons.prems(4) by simp
  moreover from this have "pp_quantity q = pp_quantity p + signed_quantity f"
    using apply_fill_quantity [OF q(1)] grid_exact [OF g] rest by simp
  ultimately show ?case using Cons.IH [OF q(2)] Cons.prems(2) g by simp
qed simp

section \<open>Errors and redelivery\<close>

lemma record_event_error: "record_event now cid order t fill out payload L = (Inl e, L') \<Longrightarrow> L' = L"
  using record_event_cases by fastforce

lemma seed_position_error: "seed_position now a L = (Inl e, L') \<Longrightarrow> L' = L"
  by (auto simp: seed_position_def Let_def split: sum.splits option.splits if_splits)

lemma fill_eq_trans: "fill_eq f g \<Longrightarrow> fill_eq g h \<Longrightarrow> fill_eq f h"
  unfolding fill_eq_def by (cases f; cases g; cases h) simp

lemma fill_eq_refl [simp]: "fill_eq f f"
  by (simp add: fill_eq_def)

lemma fill_eq_key: "fill_eq f g \<Longrightarrow> fill_key_of f = fill_key_of g"
  unfolding fill_eq_def by (cases f; cases g) (simp add: fill_key_of_def pk_id_def)

lemma recorded_fill:
  assumes "record_event now cid order t (Some f) out payload L = (Inr (), L')"
  shows "\<exists>g. dict_get (lg_fills L') (fill_key_of f) = Some g \<and> fill_eq g f"
proof -
  from record_event_cases [OF assms] obtain M where M: "record_fill f L = (Inr (), M)" "lg_fills L' = lg_fills M"
    by auto
  from record_fill_cases [OF M(1)] show ?thesis by (auto simp: M(2) dict_get_put)
qed

section \<open>Properties\<close>

lemma position_replayed:
  "\<exists>b. base_of ops (pk_id k) b
    \<and> replay (fills_of (pk_id k) (history ops)) b = Inr (position (history ops) k)
    \<and> pp_version (position (history ops) k) = int (length (fills_of (pk_id k) (history ops)))"
proof (cases "dict_get (lg_positions (history ops)) (pk_id k)")
  case None
  then have "fills_of (pk_id k) (history ops) = []"
    using history_replayed [of ops "pk_id k"] by (simp add: replayed_def)
  then show ?thesis using None
    by (intro exI [of _ "new_projection k"]) (auto simp: base_of_def position_def or_else_def new_projection_def)
next
  case (Some p)
  then show ?thesis using history_replayed [of ops "pk_id k"] by (auto simp: replayed_def position_def or_else_def)
qed


definition demo_fill :: "string \<Rightarrow> intent_action \<Rightarrow> rat \<Rightarrow> rat \<Rightarrow> fill_event" where
  \<comment> \<open>a fill of the demo position, with a fee of 1\<close>
  "demo_fill trade action quantity price = \<lparr>fe_event_id = EText trade, fe_correlation_id = trade,
     fe_event_type = ''FILL'', fe_hedge_event_version = 1, fe_position_key = demo_key,
     fe_trade_id = trade, fe_client_order_id = ''FTH-1'', fe_action = action,
     fe_order_side = expected_order_side LONG action, fe_quantity = quantity, fe_price = price, fe_fee = 1,
     fe_fee_currency = ''USDT'', fe_exchange_time = 5, fe_observed_time = 5, fe_payload_version = 1\<rparr>"

definition demo_history :: "nat ledger_op list" where
  "demo_history =
     [Record 5 ''FTH-1'' 0 ''FILL'' (Some (demo_fill ''t1'' OPEN 3 100)) None None,
      Record 6 ''FTH-1'' 0 ''FILL'' (Some (demo_fill ''t2'' INCREASE 1 200)) None None,
      Record 7 ''FTH-1'' 0 ''FILL'' (Some (demo_fill ''t3'' REDUCE 2 150)) None None]"

definition demo_fills :: "fill_event list" where
  "demo_fills = [demo_fill ''t1'' OPEN 3 100, demo_fill ''t2'' INCREASE 1 200, demo_fill ''t3'' REDUCE 2 150]"

lemmas demo_defs = demo_fill_def demo_key_def apply_fill_def fill_effect_def dec_quotient_def Let_def
  dec_add_def dec_sub_def dec_mul_def dec_div_def new_projection_def pk_id_def

lemma demo_replayed: "\<exists>p. replay demo_fills (new_projection demo_key) = Inr p"
  by (simp add: demo_fills_def demo_defs)

lemma demo_strip: "strip ''FTH-1'' = ''FTH-1''" "strip ''FILL'' = ''FILL''"
  by code_simp+

lemma demo_history_fills: "dict_values (lg_fills (history demo_history)) = demo_fills"
  by (simp add: history_def demo_history_def demo_fills_def record_event_def record_fill_def demo_strip
      empty_ledger_def fill_key_of_def position_def or_else_def demo_defs)

lemma demo_fills_ok: "\<forall>f \<in> set demo_fills. fill_ok f \<and> on_grid 0 (fe_quantity f)"
proof -
  have "on_grid 0 (of_int n)" for n by (auto simp: on_grid_def pow10_def)
  from this [of 1] this [of 2] this [of 3] show ?thesis
    by (simp add: demo_fills_def demo_fill_def fill_ok_def)
qed

text \<open>As long as every recorded fill came out of the constructor, no operation ever makes the
  quantity or the average entry price of a position negative, whatever the rounding.\<close>

theorem positions_never_negative:
  assumes "\<forall>f \<in> set (dict_values (lg_fills (history ops))). fill_ok f"
  shows "0 \<le> pp_quantity (position (history ops) k) \<and> 0 \<le> pp_average_entry_price (position (history ops) k)"
proof -
  obtain b where b: "base_of ops (pk_id k) b"
    "replay (fills_of (pk_id k) (history ops)) b = Inr (position (history ops) k)"
    using position_replayed by blast
  have "\<forall>f \<in> set (fills_of (pk_id k) (history ops)). fill_ok f" using assms by (auto simp: fills_of_def)
  then show ?thesis using replay_nonneg [OF b(2)] base_of_fields [OF b(1)] by blast
qed

theorem positions_never_negative_witness:
  "0 \<le> pp_quantity (position (history demo_history) demo_key)
    \<and> 0 \<le> pp_average_entry_price (position (history demo_history) demo_key)"
  by (rule positions_never_negative) (use demo_fills_ok in \<open>simp add: demo_history_fills\<close>)

definition demo_opened :: "nat ledger" where
  "demo_opened = snd (record_event 5 ''FTH-1'' (0 :: nat) ''FILL'' (Some (demo_fill ''t1'' OPEN 3 100))
     None None empty_ledger)"

lemma demo_recorded: "record_event 5 ''FTH-1'' (0 :: nat) ''FILL'' (Some (demo_fill ''t1'' OPEN 3 100))
    None None empty_ledger = (Inr (), demo_opened)"
  by (simp add: demo_opened_def record_event_def record_fill_def demo_strip empty_ledger_def fill_key_of_def
      position_def or_else_def demo_defs)

lemma demo_opened_position: "pp_quantity (position demo_opened demo_key) = 3"
  by (simp add: demo_opened_def record_event_def record_fill_def demo_strip empty_ledger_def fill_key_of_def
      position_def or_else_def demo_defs)

lemma demo_crossing: "\<exists>e L'. record_event 8 ''FTH-1'' (0 :: nat) ''FILL'' (Some (demo_fill ''t4'' CLOSE 9 150))
    None None demo_opened = (Inl e, L')"
  by (simp add: demo_opened_def record_event_def record_fill_def demo_strip empty_ledger_def fill_key_of_def
      position_def or_else_def demo_defs)

text \<open>When the quantities of the fills and of the seed are multiples of one power of ten and their
  sum stays within 28 digits, the quantity of a position is exactly its seed plus what was opened
  minus what was reduced: the decimal context loses nothing.\<close>

theorem position_balance_exact:
  assumes "replay fs b = Inr p" and "\<forall>f \<in> set fs. fill_ok f \<and> on_grid e (fe_quantity f)"
    and "0 \<le> pp_quantity b" and "on_grid e (pp_quantity b)"
    and "pp_quantity b + sum_list (map fe_quantity fs) < 10 ^ 28 * pow10 e"
  shows "pp_quantity p = pp_quantity b + sum_list (map signed_quantity fs)"
proof (rule replay_quantity [OF assms(1)])
  show "\<forall>f \<in> set fs. on_grid e (fe_quantity f) \<and> 0 \<le> fe_quantity f"
    using assms(2) by (auto simp: fill_ok_def)
qed (use assms in simp_all)

theorem position_balance_exact_witness:
  "\<exists>p. replay demo_fills (new_projection demo_key) = Inr p \<and> pp_quantity p = 2"
proof -
  obtain p where p: "replay demo_fills (new_projection demo_key) = Inr p" using demo_replayed by blast
  have "pp_quantity p = pp_quantity (new_projection demo_key) + sum_list (map signed_quantity demo_fills)"
    by (rule position_balance_exact [OF p demo_fills_ok])
      (simp_all add: new_projection_def demo_fills_def demo_fill_def pow10_def on_grid_def)
  then show ?thesis using p
    by (simp add: new_projection_def demo_fills_def demo_fill_def signed_quantity_def reduces_risk_def)
qed

text \<open>A \<open>record\<close> or \<open>seed_position\<close> that raises leaves the ledger as it was: order, fill,
  position, outbox event and audit record are stored together or not at all.\<close>

theorem failed_record_changes_nothing:
  assumes "record_event now cid order t fill out payload L = (Inl e, L') \<or> seed_position now a L = (Inl e, L')"
  shows "L' = L"
  using assms by (elim disjE) (rule record_event_error, assumption, rule seed_position_error)

theorem failed_record_changes_nothing_witness:
  "\<exists>e. record_event 8 ''FTH-1'' (0 :: nat) ''FILL'' (Some (demo_fill ''t4'' CLOSE 9 150)) None None
      demo_opened = (Inl e, demo_opened)"
proof -
  obtain e L' where r: "record_event 8 ''FTH-1'' (0 :: nat) ''FILL'' (Some (demo_fill ''t4'' CLOSE 9 150))
      None None demo_opened = (Inl e, L')"
    using demo_crossing by blast
  have "L' = demo_opened" by (rule failed_record_changes_nothing [OF disjI1 [OF r]])
  then show ?thesis using r by blast
qed

text \<open>A fill that was recorded is applied once: recording an equal fill again is accepted and leaves
  the fills and every position as they are.\<close>

theorem redelivered_fill_applied_once:
  assumes "record_event now cid order t (Some f) out payload L = (Inr (), L')" and "fill_eq f g"
    and "strip cid' \<noteq> []" and "strip t' \<noteq> []"
  shows "\<exists>L''. record_event now' cid' order' t' (Some g) out' payload' L' = (Inr (), L'')
    \<and> lg_fills L'' = lg_fills L' \<and> lg_positions L'' = lg_positions L'"
proof -
  obtain h where h: "dict_get (lg_fills L') (fill_key_of g) = Some h" "fill_eq h g"
    using recorded_fill [OF assms(1)] fill_eq_key [OF assms(2)] fill_eq_trans [OF _ assms(2)] by auto
  then have "record_fill g L' = (Inr (), L')" by (simp add: record_fill_def)
  then show ?thesis using assms(3,4) by (simp add: record_event_def)
qed

theorem redelivered_fill_applied_once_witness:
  "\<exists>L''. record_event 9 ''FTH-1'' 1 ''FILL'' (Some (demo_fill ''t1'' OPEN 3 100)) None None demo_opened = (Inr (), L'')
    \<and> lg_fills L'' = lg_fills demo_opened \<and> lg_positions L'' = lg_positions demo_opened"
  by (rule redelivered_fill_applied_once [OF demo_recorded fill_eq_refl]) (simp_all add: demo_strip)

definition demo_seed :: "rat \<Rightarrow> rat \<Rightarrow> seed_args" where
  "demo_seed quantity price = \<lparr>sd_position_key = demo_key, sd_quantity = DFin quantity,
     sd_average_entry_price = DFin price, sd_realized_pnl = DFin 0, sd_fees = DFin 0,
     sd_funding = DFin 0, sd_observed_at = Some (Aware 1)\<rparr>"

text \<open>\<open>seed_position\<close> overwrites an earlier seed with different facts as long as no fill was
  applied, although its documentation lets a nonzero projection be seeded again only with identical
  facts.\<close>

theorem seed_overwrites_seed:
  "let L = snd (seed_position 1 (demo_seed 3 100) (empty_ledger :: nat ledger));
       (r, L') = seed_position 2 (demo_seed 7 90) L
   in pp_quantity (position L demo_key) = 3 \<and> isl r = False \<and> pp_quantity (position L' demo_key) = 7"
  by code_simp

end
