(* ===== verification/Outbox_Dispatcher.thy ===== *)
theory Outbox_Dispatcher
  imports Execution_Ledger
begin

text \<open>
  The dispatcher of recorded outbox events, \<open>freqtrade/hedge/execution/outbox_dispatcher.py\<close>, over
  the outbox store port, with what the port promises as a locale that the execution ledger provides.
  The publisher is a port over a world \<open>'w\<close> that may refuse any event. The properties: with a
  publisher that accepts, enough rounds publish every event, the oldest first; and events that the
  publisher keeps refusing starve all later ones once they fill a batch.
\<close>

section \<open>The dispatcher\<close>

record 's outbox_port =
  op_unpublished :: "'s \<Rightarrow> outbox_event list"
  op_mark_published :: "string \<Rightarrow> int \<Rightarrow> ('s, unit) py"
  op_mark_attempt :: "string \<Rightarrow> ('s, unit) py"

record dispatch_report =
  dr_attempted :: nat
  dr_published :: nat
  dr_failed :: "string list"

definition event_key :: "outbox_event \<Rightarrow> string" where
  \<comment> \<open>\<open>str(event.event_id)\<close>\<close>
  "event_key e = uuid_str (ob_event_id e)"

fun dispatch_events :: "'s outbox_port \<Rightarrow> ('w \<Rightarrow> int) \<Rightarrow> (outbox_event \<Rightarrow> ('w, unit) py) \<Rightarrow> nat \<Rightarrow>
    string list \<Rightarrow> outbox_event list \<Rightarrow> ('w \<times> 's, nat \<times> string list) py" where
  "dispatch_events P clock publish published failures [] s = (Inr (published, failures), s)"
| "dispatch_events P clock publish published failures (event # events) (w, s) =
     (case publish event w of
        (Inl x, w') \<Rightarrow> (case op_mark_attempt P (event_key event) s of
            (Inl k, s') \<Rightarrow> (Inl k, (w', s'))
          | (Inr _, s') \<Rightarrow> dispatch_events P clock publish published
              (failures @ [event_key event @ '':'' @ exn_name x]) events (w', s'))
      | (Inr _, w') \<Rightarrow> (case op_mark_published P (event_key event) (clock w') s of
            (Inl k, s') \<Rightarrow> (Inl k, (w', s'))
          | (Inr _, s') \<Rightarrow> dispatch_events P clock publish (published + 1) failures events (w', s')))"

definition dispatch :: "'s outbox_port \<Rightarrow> ('w \<Rightarrow> int) \<Rightarrow> (outbox_event \<Rightarrow> ('w, unit) py) \<Rightarrow> int \<Rightarrow>
    ('w \<times> 's, dispatch_report) py" where
  "dispatch P clock publish limit s =
     (if limit \<le> 0 then (Inl (Exn ValueError ''limit must be a positive integer''), s) else
      let events = take (nat limit) (op_unpublished P (snd s)) in
      case dispatch_events P clock publish 0 [] events s of
        (Inl k, s') \<Rightarrow> (Inl k, s')
      | (Inr (published, failures), s') \<Rightarrow> (Inr \<lparr>dr_attempted = length events,
          dr_published = published, dr_failed = failures\<rparr>, s'))"

definition rounds :: "'s outbox_port \<Rightarrow> ('w \<Rightarrow> int) \<Rightarrow> (outbox_event \<Rightarrow> ('w, unit) py) \<Rightarrow> int \<Rightarrow> nat \<Rightarrow>
    'w \<times> 's \<Rightarrow> 'w \<times> 's" where
  "rounds P clock publish limit n = (\<lambda>s. snd (dispatch P clock publish limit s)) ^^ n"

text \<open>A publisher that accepts every event, and one that refuses every event of some keys.\<close>

definition accepts :: "(outbox_event \<Rightarrow> ('w, unit) py) \<Rightarrow> bool" where
  "accepts publish \<longleftrightarrow> (\<forall>e w. \<exists>w'. publish e w = (Inr (), w'))"

definition refuses :: "(outbox_event \<Rightarrow> ('w, unit) py) \<Rightarrow> string list \<Rightarrow> bool" where
  "refuses publish ks \<longleftrightarrow> (\<forall>e w. event_key e \<in> set ks \<longrightarrow> (\<exists>x w'. publish e w = (Inl x, w')))"

section \<open>What an outbox store promises\<close>

locale outbox_store =
  fixes P :: "'s outbox_port" and ok :: "'s \<Rightarrow> bool"
  assumes pending_distinct: "ok s \<Longrightarrow> distinct (map event_key (op_unpublished P s))"
    and published_law: "ok s \<Longrightarrow> e \<in> set (op_unpublished P s) \<Longrightarrow>
      \<exists>s'. op_mark_published P (event_key e) t s = (Inr (), s') \<and> ok s'
        \<and> op_unpublished P s' = filter (\<lambda>x. event_key x \<noteq> event_key e) (op_unpublished P s)"
    and attempt_law: "ok s \<Longrightarrow> e \<in> set (op_unpublished P s) \<Longrightarrow>
      \<exists>s'. op_mark_attempt P (event_key e) s = (Inr (), s') \<and> ok s'
        \<and> map event_key (op_unpublished P s') = map event_key (op_unpublished P s)"

context outbox_store begin

lemma filter_key_hd: "distinct (map event_key (e # es)) \<Longrightarrow> filter (\<lambda>x. event_key x \<noteq> event_key e) (e # es) = es"
  by (auto simp: filter_id_conv image_iff intro: ccontr)

text \<open>A publisher that accepts every event of the batch.\<close>

lemma dispatch_all_published:
  assumes "ok s" and "op_unpublished P s = es @ rest" and "accepts publish"
  shows "\<exists>w' s'. dispatch_events P clock publish k fs es (w, s) = (Inr (k + length es, fs), (w', s'))
    \<and> ok s' \<and> op_unpublished P s' = rest"
  using assms(1,2)
proof (induction es arbitrary: k w s)
  case (Cons e es)
  obtain w1 where w1: "publish e w = (Inr (), w1)" using assms(3) unfolding accepts_def by blast
  obtain s1 where s1: "op_mark_published P (event_key e) (clock w1) s = (Inr (), s1)" "ok s1"
    "op_unpublished P s1 = filter (\<lambda>x. event_key x \<noteq> event_key e) (e # es @ rest)"
    using published_law [of s e "clock w1"] Cons.prems by auto
  have "op_unpublished P s1 = es @ rest"
    unfolding s1(3) by (rule filter_key_hd) (use pending_distinct [OF Cons.prems(1)] Cons.prems(2) in simp)
  from Cons.IH [OF s1(2) this, of "k + 1" w1] w1 s1(1) show ?case by simp
qed simp

text \<open>A publisher that refuses every event of the batch.\<close>

lemma dispatch_all_refused:
  assumes "ok s" and "set (map event_key es) \<subseteq> set (map event_key (op_unpublished P s))"
    and "refuses publish (map event_key es)"
  shows "\<exists>fs' w' s'. dispatch_events P clock publish k fs es (w, s) = (Inr (k, fs'), (w', s'))
    \<and> ok s' \<and> map event_key (op_unpublished P s') = map event_key (op_unpublished P s)"
  using assms
proof (induction es arbitrary: fs w s)
  case (Cons e es)
  obtain x w1 where w1: "publish e w = (Inl x, w1)"
    using Cons.prems(3) unfolding refuses_def by fastforce
  obtain e' where e': "e' \<in> set (op_unpublished P s)" "event_key e' = event_key e"
    using Cons.prems(2) by auto
  obtain s1 where s1: "op_mark_attempt P (event_key e) s = (Inr (), s1)" "ok s1"
    "map event_key (op_unpublished P s1) = map event_key (op_unpublished P s)"
    using attempt_law [OF Cons.prems(1) e'(1)] e'(2) by auto
  have "set (map event_key es) \<subseteq> set (map event_key (op_unpublished P s1))"
    unfolding s1(3) using Cons.prems(2) by simp
  moreover have "refuses publish (map event_key es)" using Cons.prems(3) by (simp add: refuses_def)
  ultimately show ?case
    using Cons.IH [OF s1(2), of "fs @ [event_key e @ '':'' @ exn_name x]" w1] w1 s1(1,3) by simp
qed simp

lemma round_publishes:
  assumes "ok s" and "accepts publish" and "0 < limit"
  shows "\<exists>w' s'. snd (dispatch P clock publish limit (w, s)) = (w', s') \<and> ok s'
    \<and> op_unpublished P s' = drop (nat limit) (op_unpublished P s)"
proof -
  let ?u = "op_unpublished P s"
  obtain w' s' where d: "dispatch_events P clock publish 0 [] (take (nat limit) ?u) (w, s)
      = (Inr (0 + length (take (nat limit) ?u), []), (w', s'))" "ok s'"
      "op_unpublished P s' = drop (nat limit) ?u"
    using dispatch_all_published [OF assms(1) _ assms(2), of "take (nat limit) ?u" "drop (nat limit) ?u" clock 0 "[]" w]
    unfolding append_take_drop_id by blast
  then show ?thesis using assms(3) by (simp add: dispatch_def Let_def)
qed

lemma rounds_publish:
  assumes "ok s" and "accepts publish" and "0 < limit"
  shows "\<exists>w' s'. rounds P clock publish limit n (w, s) = (w', s') \<and> ok s'
    \<and> op_unpublished P s' = drop (n * nat limit) (op_unpublished P s)"
proof (induction n)
  case (Suc n)
  then obtain w1 s1 where a: "rounds P clock publish limit n (w, s) = (w1, s1)" "ok s1"
    "op_unpublished P s1 = drop (n * nat limit) (op_unpublished P s)" by blast
  obtain w2 s2 where b: "snd (dispatch P clock publish limit (w1, s1)) = (w2, s2)" "ok s2"
    "op_unpublished P s2 = drop (nat limit) (op_unpublished P s1)"
    using round_publishes [OF a(2) assms(2,3)] by blast
  have "rounds P clock publish limit (Suc n) (w, s) = (w2, s2)" using a(1) b(1) by (simp add: rounds_def)
  then show ?case using a(3) b(2,3) by (simp add: add.commute)
qed (simp add: rounds_def assms(1))

lemma round_refused:
  assumes "ok s" and "0 < limit" and "map event_key (op_unpublished P s) = ks"
    and "refuses publish (take (nat limit) ks)"
  shows "\<exists>w' s'. snd (dispatch P clock publish limit (w, s)) = (w', s') \<and> ok s'
    \<and> map event_key (op_unpublished P s') = ks"
proof -
  let ?es = "take (nat limit) (op_unpublished P s)"
  have keys: "map event_key ?es = take (nat limit) ks" using assms(3) by (simp add: take_map [symmetric])
  have "set (map event_key ?es) \<subseteq> set (map event_key (op_unpublished P s))"
    by (auto dest: in_set_takeD)
  then obtain fs' w' s' where "dispatch_events P clock publish 0 [] ?es (w, s) = (Inr (0, fs'), (w', s'))"
      "ok s'" "map event_key (op_unpublished P s') = ks"
    using dispatch_all_refused [OF assms(1), of ?es publish clock 0 "[]" w] assms(3,4) keys by auto
  then show ?thesis using assms(2) by (simp add: dispatch_def Let_def)
qed

lemma rounds_refused:
  assumes "ok s" and "0 < limit" and "map event_key (op_unpublished P s) = ks"
    and "refuses publish (take (nat limit) ks)"
  shows "\<exists>w' s'. rounds P clock publish limit n (w, s) = (w', s') \<and> ok s'
    \<and> map event_key (op_unpublished P s') = ks"
proof (induction n)
  case (Suc n)
  then obtain w1 s1 where a: "rounds P clock publish limit n (w, s) = (w1, s1)" "ok s1"
    "map event_key (op_unpublished P s1) = ks" by blast
  obtain w2 s2 where b: "snd (dispatch P clock publish limit (w1, s1)) = (w2, s2)" "ok s2"
    "map event_key (op_unpublished P s2) = ks"
    using round_refused [OF a(2) assms(2) a(3) assms(4)] by blast
  have "rounds P clock publish limit (Suc n) (w, s) = (w2, s2)" using a(1) b(1) by (simp add: rounds_def)
  then show ?case using b(2,3) by simp
qed (simp add: rounds_def assms(1,3))

end

section \<open>The ledger is an outbox store\<close>

definition ledger_port :: "'o ledger outbox_port" where
  "ledger_port = \<lparr>op_unpublished = outbox True,
     op_mark_published = (\<lambda>event_id t. mark_published t event_id (Some t)),
     op_mark_attempt = mark_publish_attempt\<rparr>"

definition outbox_keyed :: "'o ledger \<Rightarrow> bool" where
  "outbox_keyed L \<longleftrightarrow> distinct (map fst (lg_outbox L))
     \<and> (\<forall>k e. (k, e) \<in> set (lg_outbox L) \<longrightarrow> k = event_key e)"

lemma put_subset: "set (dict_put k v d) \<subseteq> insert (k, v) (set d)"
proof (induction d)
  case (Cons a d)
  then show ?case by (cases a) auto
qed simp

lemma keyed_put:
  assumes "outbox_keyed L" and "event_key v = k"
  shows "outbox_keyed (L\<lparr>lg_outbox := dict_put k v (lg_outbox L)\<rparr>)"
proof -
  have "distinct (map fst (dict_put k v (lg_outbox L)))"
    using assms(1) by (simp add: outbox_keyed_def distinct_put)
  moreover have "k' = event_key e" if "(k', e) \<in> set (dict_put k v (lg_outbox L))" for k' e
    using that put_subset [of k v "lg_outbox L"] assms unfolding outbox_keyed_def by blast
  ultimately show ?thesis by (simp add: outbox_keyed_def)
qed

lemma keyed_mark:
  assumes "outbox_keyed L" and "dict_get (lg_outbox L) k = Some e" and "event_key v = event_key e"
  shows "outbox_keyed (L\<lparr>lg_outbox := dict_put k v (lg_outbox L)\<rparr>)"
proof (rule keyed_put [OF assms(1)])
  have "k = event_key e" using assms(1) map_of_SomeD [OF assms(2)] unfolding outbox_keyed_def by blast
  then show "event_key v = k" using assms(3) by simp
qed

lemma put_in_place:
  assumes "distinct (map event_key (dict_values d))" and "map fst d = map event_key (dict_values d)"
    and "k \<in> set (map fst d)"
  shows "dict_values (dict_put k v d) = map (\<lambda>x. if event_key x = k then v else x) (dict_values d)"
  using assms
proof (induction d)
  case (Cons a d)
  obtain e where a: "a = (event_key e, e)" using Cons.prems(2) by (cases a) auto
  show ?case
  proof (cases "event_key e = k")
    case True
    have n: "event_key e \<notin> set (map event_key (dict_values d))" using Cons.prems(1) unfolding a by simp
    have "event_key x \<noteq> k" if "x \<in> set (dict_values d)" for x
      using that n True by (metis imageI set_map)
    then have "map (\<lambda>x. if event_key x = k then v else x) (dict_values d) = dict_values d"
      by (intro map_idI) auto
    then show ?thesis unfolding a using True by simp
  next
    case False
    have "dict_values (dict_put k v d) = map (\<lambda>x. if event_key x = k then v else x) (dict_values d)"
      by (rule Cons.IH) (use Cons.prems False in \<open>simp_all add: a\<close>)
    then show ?thesis unfolding a using False by simp
  qed
qed simp

lemma keyed_facts:
  assumes "outbox_keyed L"
  shows "map fst (lg_outbox L) = map event_key (dict_values (lg_outbox L))"
    and "distinct (map event_key (dict_values (lg_outbox L)))"
proof -
  show k: "map fst (lg_outbox L) = map event_key (dict_values (lg_outbox L))"
    using assms unfolding outbox_keyed_def by (auto intro!: map_cong)
  show "distinct (map event_key (dict_values (lg_outbox L)))"
    using assms unfolding outbox_keyed_def k by blast
qed

lemma pending_set: "e \<in> set (outbox True L) \<longleftrightarrow> e \<in> set (dict_values (lg_outbox L)) \<and> ob_published_at e = None"
  by (auto simp: outbox_def)

lemma pending_get:
  assumes "outbox_keyed L" and "e \<in> set (outbox True L)"
  shows "dict_get (lg_outbox L) (event_key e) = Some e"
proof -
  obtain k where k: "(k, e) \<in> set (lg_outbox L)" using assms(2) by (auto simp: pending_set)
  then have "k = event_key e" "distinct (map fst (lg_outbox L))"
    using assms(1) unfolding outbox_keyed_def by blast+
  then show ?thesis using k map_of_eq_Some_iff by fast
qed

lemma put_pending:
  assumes "outbox_keyed L" and "e \<in> set (outbox True L)"
  shows "dict_values (dict_put (event_key e) v (lg_outbox L))
    = map (\<lambda>x. if event_key x = event_key e then v else x) (dict_values (lg_outbox L))"
proof (rule put_in_place [OF keyed_facts(2,1) [OF assms(1)]])
  show "event_key e \<in> set (map fst (lg_outbox L))"
    unfolding keyed_facts(1) [OF assms(1)] using assms(2) unfolding pending_set by (simp only: set_map) blast
qed

lemma insort_key_map:
  "(\<forall>y \<in> insert x (set xs). f (g y) = f y) \<Longrightarrow> insort_key f (g x) (map g xs) = map g (insort_key f x xs)"
  by (induction xs) auto

lemma sort_key_map:
  "(\<forall>y \<in> set xs. f (g y) = f y) \<Longrightarrow> sort_key f (map g xs) = map g (sort_key f xs)"
  by (induction xs) (simp_all add: insort_key_map)

lemma distinct_map_sub: "distinct (map f xs) \<Longrightarrow> distinct (map f (sort_key g (filter P xs)))"
  by (simp add: distinct_map inj_on_def)

lemma ledger_distinct: "outbox_keyed L \<Longrightarrow> distinct (map event_key (outbox True L))"
  unfolding outbox_def by (rule distinct_map_sub) (rule keyed_facts(2))

lemma pending_replaced:
  "\<not> P v \<Longrightarrow> filter P (map (\<lambda>x. if Q x then v else x) xs) = filter (\<lambda>x. \<not> Q x) (filter P xs)"
  by (induction xs) auto

lemma ledger_published:
  assumes "outbox_keyed L" and "e \<in> set (outbox True L)"
  shows "\<exists>L'. mark_published t (event_key e) (Some t) L = (Inr (), L') \<and> outbox_keyed L'
    \<and> outbox True L' = filter (\<lambda>x. event_key x \<noteq> event_key e) (outbox True L)"
proof -
  let ?v = "e\<lparr>ob_published_at := Some t, ob_attempts := ob_attempts e + 1\<rparr>"
  have k: "event_key ?v = event_key e" by (simp add: event_key_def)
  let ?L = "L\<lparr>lg_outbox := dict_put (event_key e) ?v (lg_outbox L)\<rparr>"
  have v: "dict_values (lg_outbox ?L)
      = map (\<lambda>x. if event_key x = event_key e then ?v else x) (dict_values (lg_outbox L))"
    using put_pending [OF assms, of ?v] by simp
  have "filter (\<lambda>x. ob_published_at x = None) (dict_values (lg_outbox ?L))
      = filter (\<lambda>x. event_key x \<noteq> event_key e) (filter (\<lambda>x. ob_published_at x = None) (dict_values (lg_outbox L)))"
    unfolding v by (rule pending_replaced) simp
  then have "outbox True ?L = filter (\<lambda>x. event_key x \<noteq> event_key e) (outbox True L)"
    by (simp only: outbox_def not_True_eq_False simp_thms filter_sort)
  moreover have "mark_published t (event_key e) (Some t) L = (Inr (), ?L)"
    using pending_get [OF assms] by (simp add: mark_published_def or_else_def)
  ultimately show ?thesis using keyed_put [OF assms(1) k] by blast
qed

lemma ledger_attempted:
  assumes "outbox_keyed L" and "e \<in> set (outbox True L)"
  shows "\<exists>L'. mark_publish_attempt (event_key e) L = (Inr (), L') \<and> outbox_keyed L'
    \<and> map event_key (outbox True L') = map event_key (outbox True L)"
proof -
  let ?v = "e\<lparr>ob_attempts := ob_attempts e + 1\<rparr>"
  have k: "event_key ?v = event_key e" by (simp add: event_key_def)
  let ?L = "L\<lparr>lg_outbox := dict_put (event_key e) ?v (lg_outbox L)\<rparr>"
  define h where "h = (\<lambda>x. if event_key x = event_key e then ?v else x)"
  have h: "ob_published_at (h x) = ob_published_at x \<and> ob_occurred_at (h x) = ob_occurred_at x
      \<and> event_key (h x) = event_key x" if "x \<in> set (dict_values (lg_outbox L))" for x
  proof (cases "event_key x = event_key e")
    case True
    have "inj_on event_key (set (dict_values (lg_outbox L)))"
      using keyed_facts(2) [OF assms(1)] by (simp only: distinct_map)
    moreover have "e \<in> set (dict_values (lg_outbox L))" using assms(2) unfolding pending_set by blast
    ultimately have "x = e" using True that by (auto dest: inj_onD)
    then show ?thesis using k by (simp add: h_def)
  qed (simp add: h_def)
  have v: "dict_values (lg_outbox ?L) = map h (dict_values (lg_outbox L))"
    using put_pending [OF assms, of ?v] by (simp add: h_def)
  let ?u = "filter (\<lambda>x. ob_published_at x = None) (dict_values (lg_outbox L))"
  have f: "filter (\<lambda>x. ob_published_at x = None) (map h xs) = map h (filter (\<lambda>x. ob_published_at x = None) xs)"
    if "set xs \<subseteq> set (dict_values (lg_outbox L))" for xs
    using that
  proof (induction xs)
    case (Cons x xs)
    then have "ob_published_at (h x) = ob_published_at x" using h [of x] by simp
    then show ?case using Cons by simp
  qed simp
  have "outbox True ?L = sort_key ob_occurred_at (map h ?u)"
    unfolding outbox_def v using f [OF subset_refl] by simp
  also have "\<dots> = map h (outbox True L)" unfolding outbox_def
    by (subst sort_key_map) (use h in auto)
  finally have "map event_key (outbox True ?L) = map event_key (outbox True L)"
    using h by (auto simp: pending_set)
  moreover have "mark_publish_attempt (event_key e) L = (Inr (), ?L)"
    using pending_get [OF assms] by (simp add: mark_publish_attempt_def)
  ultimately show ?thesis using keyed_put [OF assms(1) k] by blast
qed

interpretation lob: outbox_store ledger_port outbox_keyed
  by unfold_locales
    (simp_all add: ledger_port_def ledger_distinct ledger_published ledger_attempted)

lemma record_fill_outbox: "record_fill f L = (r, M) \<Longrightarrow> lg_outbox M = lg_outbox L"
  by (auto simp: record_fill_def split: option.splits sum.splits if_splits)

lemma keyed_cong: "lg_outbox L' = lg_outbox L \<Longrightarrow> outbox_keyed L' = outbox_keyed L"
  by (simp add: outbox_keyed_def)

lemma keyed_record:
  assumes "outbox_keyed L"
  shows "outbox_keyed (snd (record_event now cid order t fill out payload L))"
proof -
  obtain r M where m: "(case fill of None \<Rightarrow> (Inr (), L) | Some f \<Rightarrow> record_fill f L) = (r, M)" by fastforce
  then have M: "lg_outbox M = lg_outbox L" by (auto split: option.splits dest: record_fill_outbox)
  let ?N = "snd (record_event now cid order t fill out payload L)"
  have "lg_outbox ?N = lg_outbox L \<or>
      (\<exists>e. lg_outbox ?N = lg_outbox (L\<lparr>lg_outbox := dict_put (event_key e) e (lg_outbox L)\<rparr>))"
    using m M by (cases r; cases out) (auto simp: record_event_def event_key_def)
  then show ?thesis using keyed_cong assms keyed_put [OF assms refl] by blast
qed

lemma history_keyed: "outbox_keyed (history ops)"
proof (induction ops rule: rev_induct)
  case Nil
  then show ?case by (simp add: history_def empty_ledger_def outbox_keyed_def)
next
  case (snoc op ops)
  let ?L = "history ops"
  show ?case unfolding history_append
  proof (cases op)
    case (Seed now a)
    have same: "lg_outbox (snd (seed_position now a ?L)) = lg_outbox ?L"
      by (auto simp: seed_position_def Let_def split: sum.split option.split)
    then show "outbox_keyed (ledger_do op ?L)" using Seed keyed_cong [OF same] snoc by simp
  next
    case (Record now cid order t fill out payload)
    then show "outbox_keyed (ledger_do op ?L)" using keyed_record [OF snoc] by simp
  next
    case (Published now k p)
    then show "outbox_keyed (ledger_do op ?L)" using snoc
      by (auto simp: mark_published_def event_key_def intro!: keyed_mark split: option.split)
  next
    case (Attempted k)
    then show "outbox_keyed (ledger_do op ?L)" using snoc
      by (auto simp: mark_publish_attempt_def event_key_def intro!: keyed_mark split: option.split)
  qed
qed

section \<open>Properties\<close>


definition demo_event :: "nat \<Rightarrow> outbox_event" where
  "demo_event n = \<lparr>ob_event_type = ''ORDER_FILLED'', ob_payload = [], ob_correlation_id = None,
     ob_event_id = n, ob_payload_version = 1, ob_occurred_at = int n, ob_published_at = None,
     ob_attempts = 0\<rparr>"

definition demo_outbox :: "nat ledger_op list" where
  "demo_outbox = [Record 5 ''FTH-1'' 0 ''ORDER'' None (Some (demo_event 2)) None,
     Record 6 ''FTH-1'' 0 ''ORDER'' None (Some (demo_event 1)) None]"

lemma demo_pending: "outbox True (history demo_outbox) = [demo_event 1, demo_event 2]"
  by code_simp

definition picky :: "outbox_event \<Rightarrow> (nat, unit) py" where
  \<comment> \<open>a publisher that refuses the event 1 and counts what it accepts\<close>
  "picky e w = (if event_key e = event_key (demo_event 1) then (Inl (Exn RuntimeError ''refused''), w)
     else (Inr (), w + 1))"


text \<open>When the publisher keeps refusing the oldest pending events and they fill a batch, no round
  publishes anything: every later event stays pending forever, although the publisher would accept it.\<close>

theorem poisoned_batch_starves_outbox:
  assumes "0 < limit" and "refuses publish (map event_key (take (nat limit) (outbox True (history ops))))"
  shows "map event_key (outbox True (snd (rounds ledger_port clock publish limit n (w, history ops))))
    = map event_key (outbox True (history ops))"
proof -
  have "refuses publish (take (nat limit) (map event_key (outbox True (history ops))))"
    using assms(2) by (simp add: take_map)
  from lob.rounds_refused [OF history_keyed [of ops] assms(1) _ this, of clock n w]
  show ?thesis by (auto simp: ledger_port_def)
qed

theorem poisoned_batch_starves_outbox_witness:
  "map event_key (outbox True (snd (rounds ledger_port int picky 1 100 (0, history demo_outbox))))
    = [event_key (demo_event 1), event_key (demo_event 2)]
   \<and> fst (picky (demo_event 2) 0) = Inr ()"
proof -
  have "refuses picky (map event_key (take (nat 1) (outbox True (history demo_outbox))))"
    by (simp add: demo_pending refuses_def picky_def)
  from poisoned_batch_starves_outbox [OF _ this, of int 100 0]
  have "map event_key (outbox True (snd (rounds ledger_port int picky 1 100 (0, history demo_outbox))))
      = [event_key (demo_event 1), event_key (demo_event 2)]"
    by (simp add: demo_pending)
  moreover have "fst (picky (demo_event 2) 0) = Inr ()" by code_simp
  ultimately show ?thesis by blast
qed

end
