(* ===== verification/Execution_Engine.thy ===== *)
theory Execution_Engine
  imports Service_Facts Execution_Ledger
begin

text \<open>
  The execution entry point, \<open>freqtrade/hedge/execution/orchestrator.py\<close>, \<open>HedgeExecutionEngine\<close>:
  the execution service behind readiness, single-writer and lock gates and market rules
  (\<open>freqtrade/hedge/contracts/ports.py\<close>), with every outcome recorded in the execution ledger and
  published. The ports are functions over the environment of the service. Two texts that depend on
  how a \<open>Decimal\<close> is written (the hash of a derived trade id) or on \<open>str\<close> and \<open>Decimal\<close> of arbitrary
  metadata values are parameters.
\<close>

section \<open>Market rules\<close>

record market_rules =
  mr_quantity_step :: rat
  mr_price_tick :: rat
  mr_minimum_quantity :: rat
  mr_minimum_notional :: rat

definition positive_decimal :: "string \<Rightarrow> dec \<Rightarrow> rat res" where
  "positive_decimal name v = (case v of
     DFin q \<Rightarrow> if q \<le> 0 then Inl (Exn ValueError (name @ '' must be a positive Decimal'')) else Inr q
   | _ \<Rightarrow> Inl (Exn ValueError (name @ '' must be a positive Decimal'')))"

definition mk_market_rules :: "dec \<Rightarrow> dec \<Rightarrow> dec \<Rightarrow> dec \<Rightarrow> market_rules res" where
  "mk_market_rules step tick min_quantity min_notional =
     res_bind (positive_decimal ''quantity_step'' step) (\<lambda>a.
     res_bind (positive_decimal ''price_tick'' tick) (\<lambda>b.
     res_bind (positive_decimal ''minimum_quantity'' min_quantity) (\<lambda>c.
     res_bind (positive_decimal ''minimum_notional'' min_notional) (\<lambda>d.
     Inr \<lparr>mr_quantity_step = a, mr_price_tick = b, mr_minimum_quantity = c, mr_minimum_notional = d\<rparr>))))"

definition toward_zero :: "rat \<Rightarrow> int" where
  \<comment> \<open>\<open>to_integral_value(rounding=ROUND_DOWN)\<close>\<close>
  "toward_zero q = (if 0 \<le> q then \<lfloor>q\<rfloor> else \<lceil>q\<rceil>)"

definition from_zero :: "rat \<Rightarrow> int" where
  \<comment> \<open>\<open>to_integral_value(rounding=ROUND_UP)\<close>\<close>
  "from_zero q = (if 0 \<le> q then \<lceil>q\<rceil> else \<lfloor>q\<rfloor>)"

definition normalize_quantity :: "market_rules \<Rightarrow> rat \<Rightarrow> rat" where
  "normalize_quantity m quantity =
     dec_mul (of_int (toward_zero (dec_div quantity (mr_quantity_step m)))) (mr_quantity_step m)"

definition normalize_price :: "market_rules \<Rightarrow> order_side option \<Rightarrow> rat \<Rightarrow> rat" where
  "normalize_price m side price =
     (let q = dec_div price (mr_price_tick m);
          units = (if side = Some SELL then from_zero q else toward_zero q)
      in dec_mul (of_int units) (mr_price_tick m))"

section \<open>Ports and state\<close>

datatype readiness_state = READY | DEGRADED | HALT

record readiness_decision =
  rd_state :: readiness_state
  rd_reason_codes :: "string list"
  rd_allow_reduce :: bool

definition allow_increase :: "readiness_decision \<Rightarrow> bool" where
  "allow_increase d = (rd_state d = READY)"

record 'w engine_ports =
  ep_core :: "'w ports"
  ep_exchange :: string
  ep_now :: "'w \<Rightarrow> int \<times> 'w"
  ep_uuid :: "('w, nat) py"
  ep_evaluate :: "position_key \<Rightarrow> ('w, readiness_decision) py"
  ep_assert_leader :: "string \<Rightarrow> int \<Rightarrow> ('w, unit) py"
  ep_lock :: "position_key \<Rightarrow> ('w, unit) py"
  ep_rules_for :: "position_key \<Rightarrow> ('w, market_rules) py"
  ep_publish :: "outbox_event \<Rightarrow> ('w, unit) py"
  ep_cache_put :: "(order_snapshot \<Rightarrow> ('w, unit) py) option"
  ep_register :: "(string \<Rightarrow> ('w, unit) py) option"
  ep_trade_hash :: "string \<Rightarrow> rat \<Rightarrow> rat \<Rightarrow> int \<Rightarrow> string"
  ep_str :: "pyval \<Rightarrow> string"
  ep_decimal :: "pyval \<Rightarrow> dec res"

record 'w engine =
  en_core :: "'w svc"
  en_ledger :: "execution_order ledger"

definition at_core :: "('w svc, 'a) py \<Rightarrow> ('w engine, 'a) py" where
  "at_core m s = (case m (en_core s) of (r, c) \<Rightarrow> (r, s\<lparr>en_core := c\<rparr>))"

definition at_ledger :: "(execution_order ledger, 'a) py \<Rightarrow> ('w engine, 'a) py" where
  "at_ledger m s = (case m (en_ledger s) of (r, l) \<Rightarrow> (r, s\<lparr>en_ledger := l\<rparr>))"

definition at_world :: "('w, 'a) py \<Rightarrow> ('w engine, 'a) py" where
  "at_world m = at_core (at_port m)"

definition engine_now :: "'w engine_ports \<Rightarrow> ('w engine, int) py" where
  "engine_now E = at_world (\<lambda>w. case ep_now E w of (t, w') \<Rightarrow> (Inr t, w'))"

definition text_of :: "'w engine_ports \<Rightarrow> pyval \<Rightarrow> string" where
  "text_of E v = (case v of VStr s \<Rightarrow> s | _ \<Rightarrow> ep_str E v)"

definition key_of :: "'w engine_ports \<Rightarrow> order_intent \<Rightarrow> position_key res" where
  \<comment> \<open>\<open>position_key\<close>\<close>
  "key_of E intent = mk_position_key
     (case dict_get (oi_metadata intent) ''exchange'' of None \<Rightarrow> ep_exchange E | Some v \<Rightarrow> text_of E v)
     (oi_account_id intent) (Some (oi_symbol intent)) (Some (Inl (oi_position_side intent))) None"

section \<open>Recording an outcome\<close>

definition blocked :: "string \<Rightarrow> exn" where
  "blocked m = Exn ExecutionBlockedError m"

definition derive_fill :: "'w engine_ports \<Rightarrow> execution_order option \<Rightarrow> execution_order \<Rightarrow>
    order_snapshot option \<Rightarrow> ('w engine, fill_event option) py" where
  "derive_fill E previous current snapshot =
     (let before = map_option eo_lifecycle previous; lc = eo_lifecycle current;
          before_qty = (case before of None \<Rightarrow> 0 | Some b \<Rightarrow> lc_filled_quantity b);
          after_qty = lc_filled_quantity lc;
          delta = dec_sub after_qty before_qty in
      if delta \<le> 0 then py_ret None else
      case lc_average_price lc of
        None \<Rightarrow> py_ret None
      | Some after_avg \<Rightarrow>
          let before_avg = (case before of None \<Rightarrow> 0 | Some b \<Rightarrow> or_else (lc_average_price b) 0);
              delta_price = dec_div (dec_sub (dec_mul after_qty after_avg) (dec_mul before_qty before_avg)) delta;
              trade_id = (case snapshot of
                  Some sn \<Rightarrow> or_else (sn_exchange_trade_id sn)
                    (ep_trade_hash E (eo_client_order_id current) after_qty after_avg (lc_version lc))
                | None \<Rightarrow> ep_trade_hash E (eo_client_order_id current) after_qty after_avg (lc_version lc));
              intent = eo_intent current in
          py_bind (py_of (key_of E intent)) (\<lambda>key.
          py_bind (engine_now E) (\<lambda>now.
          py_bind (at_world (ep_uuid E)) (\<lambda>uid.
          py_bind (py_of (mk_fill uid now \<lparr>fa_position_key = key, fa_trade_id = trade_id,
            fa_client_order_id = eo_client_order_id current, fa_action = Inl (oi_action intent),
            fa_order_side = Inl (expected_order_side (oi_position_side intent) (oi_action intent)),
            fa_quantity = DFin delta, fa_price = DFin delta_price,
            fa_fee = Some (DFin (case snapshot of None \<Rightarrow> 0 | Some sn \<Rightarrow> sn_last_fill_fee sn)),
            fa_fee_currency = Some (case snapshot of None \<Rightarrow> ''USDT''
              | Some sn \<Rightarrow> or_else (sn_fee_currency sn) ''USDT''),
            fa_exchange_time = Some (Aware (case snapshot of None \<Rightarrow> lc_updated_at lc
              | Some sn \<Rightarrow> sn_observed_at sn)),
            fa_observed_time = Some (Aware now), fa_event_id = None, fa_payload_version = None,
            fa_correlation_id = None, fa_event_type = None, fa_hedge_event_version = None\<rparr>)) (\<lambda>f.
          py_ret (Some f))))))"

definition outbox_type :: "execution_order \<Rightarrow> fill_event option \<Rightarrow> string" where
  "outbox_type order fill = (case fill of Some _ \<Rightarrow> ''FILL_RECORDED''
     | None \<Rightarrow> ''ORDER_'' @ state_value (eo_status order))"

definition engine_payload :: "'w engine_ports \<Rightarrow> execution_order \<Rightarrow> mapping res" where
  "engine_payload E order = res_bind (key_of E (eo_intent order)) (\<lambda>key.
     let lc = eo_lifecycle order; i = eo_intent order in Inr
     [(''exchange'', VStr (pk_exchange key)), (''account_id'', VStr (pk_account_id key)),
      (''symbol'', VStr (pk_symbol key)), (''position_side'', VStr (side_value (pk_position_side key))),
      (''intent_id'', VShow (VUuid (oi_intent_id i))),
      (''client_order_id'', VStr (eo_client_order_id order)),
      (''action'', VStr (action_value (oi_action i))), (''status'', VStr (state_value (lc_status lc))),
      (''approved_quantity'', VShow (VDec (eo_approved_quantity order))),
      (''filled_quantity'', VShow (VDec (lc_filled_quantity lc))),
      (''average_price'', (case lc_average_price lc of None \<Rightarrow> VNone | Some a \<Rightarrow> VShow (VDec a))),
      (''version'', VInt (lc_version lc))])"

definition publish_event :: "'w engine_ports \<Rightarrow> outbox_event \<Rightarrow> ('w engine, unit) py" where
  \<comment> \<open>the best-effort delivery at the end of \<open>_record_result\<close>\<close>
  "publish_event E e = py_bind (py_try (at_world (ep_publish E e))) (\<lambda>out. case out of
     Inl _ \<Rightarrow> at_ledger (mark_publish_attempt (uuid_str (ob_event_id e)))
   | Inr _ \<Rightarrow> py_bind (engine_now E) (\<lambda>now.
       at_ledger (mark_published now (uuid_str (ob_event_id e)) (Some now))))"

definition record_result :: "'w engine_ports \<Rightarrow> execution_result \<Rightarrow> execution_order option \<Rightarrow> string \<Rightarrow>
    order_snapshot option \<Rightarrow> ('w engine, unit) py" where
  "record_result E result previous event_type snapshot =
     (let order = er_order result; intent = eo_intent order in
      py_bind (derive_fill E previous order snapshot) (\<lambda>fill.
      py_bind (py_of (engine_payload E order)) (\<lambda>payload.
      py_bind (at_world (ep_uuid E)) (\<lambda>uid.
      py_bind (py_of (mk_outbox (outbox_type order fill) payload
        (Some (uuid_str (or_else (oi_action_group_id intent) (oi_intent_id intent)))) uid 1
        (Aware (lc_updated_at (eo_lifecycle order))) None 0)) (\<lambda>out.
      py_bind (at_core (utc_now (ep_core E))) (\<lambda>now.
      py_bind (at_ledger (record_event now (eo_client_order_id order) order event_type fill
        (Some out) (Some payload))) (\<lambda>_.
      publish_event E out)))))))"

section \<open>The operations\<close>

definition expiry_check :: "int \<Rightarrow> order_intent \<Rightarrow> unit res" where
  "expiry_check now intent = (case dict_get (oi_metadata intent) ''expires_at'' of
     None \<Rightarrow> Inr ()
   | Some VNone \<Rightarrow> Inr ()
   | Some (VDate (Aware t)) \<Rightarrow> if now \<ge> t then Inl (blocked ''INTENT_EXPIRED'') else Inr ()
   | Some _ \<Rightarrow> Inl (blocked ''INTENT_EXPIRY_INVALID''))"

definition readiness_check :: "readiness_decision \<Rightarrow> order_intent \<Rightarrow> unit res" where
  "readiness_check d intent =
     (let codes = joined '','' (rd_reason_codes d) in
      if intent_reduces intent
      then (if \<not> rd_allow_reduce d
        then Inl (blocked (if codes = [] then ''READINESS_REDUCE_BLOCKED'' else codes)) else Inr ())
      else if \<not> allow_increase d
      then Inl (blocked (if codes = [] then ''READINESS_NOT_READY'' else codes)) else Inr ())"

text \<open>\<open>quantity * reference < minimum_notional\<close>, which raises for NaN.\<close>

definition below_notional :: "rat \<Rightarrow> dec \<Rightarrow> rat \<Rightarrow> bool res" where
  "below_notional quantity reference minimum = (case reference of
     DFin r \<Rightarrow> Inr (dec_mul quantity r < minimum)
   | DInf negative \<Rightarrow> Inr negative
   | DNaN \<Rightarrow> Inl (Exn (Derived ''InvalidOperation'' ArithmeticError) ''comparison involving NaN''))"

definition with_quantity :: "order_intent \<Rightarrow> rat \<Rightarrow> rat option \<Rightarrow> order_intent res" where
  \<comment> \<open>\<open>replace(intent, quantity=..., limit_price=...)\<close>\<close>
  "with_quantity i quantity limit_price = mk_order_intent
     \<lparr>ia_account_id = oi_account_id i, ia_symbol = oi_symbol i,
      ia_position_side = Inl (oi_position_side i), ia_action = Inl (oi_action i),
      ia_quantity = DFin quantity, ia_idempotency_key = oi_idempotency_key i,
      ia_order_type = Inl (oi_order_type i), ia_limit_price = map_option DFin limit_price,
      ia_reduce_only = oi_reduce_only i, ia_intent_id = oi_intent_id i,
      ia_action_group_id = oi_action_group_id i, ia_metadata = oi_metadata i\<rparr>"

definition normalized_price :: "market_rules \<Rightarrow> order_intent \<Rightarrow> rat option res" where
  \<comment> \<open>the LIMIT branch of \<open>_normalize\<close>\<close>
  "normalized_price m intent = (if oi_order_type intent \<noteq> LIMIT then Inr (oi_limit_price intent) else
     case oi_limit_price intent of
       None \<Rightarrow> Inl (blocked ''LIMIT_PRICE_REQUIRED'')
     | Some p \<Rightarrow>
         let increases = oi_action intent \<in> {OPEN, INCREASE}; is_long = (oi_position_side intent = LONG);
             side = (if increases = is_long then BUY else SELL);
             p' = normalize_price m (Some side) p in
         if p' \<le> 0 then Inl (blocked ''PRICE_PRECISION_ZERO'') else Inr (Some p'))"

definition normalize_intent :: "'w engine_ports \<Rightarrow> order_intent \<Rightarrow> position_key \<Rightarrow>
    ('w engine, order_intent) py" where
  \<comment> \<open>\<open>_normalize\<close>\<close>
  "normalize_intent E intent key =
     py_bind (at_world (ep_rules_for E key)) (\<lambda>m.
     let quantity = normalize_quantity m (oi_quantity intent) in
     if quantity < mr_minimum_quantity m then py_raise (blocked ''PRECISION_ZERO_OR_MIN_QTY'') else
     py_bind (py_of (normalized_price m intent)) (\<lambda>limit_price.
     py_bind (py_of (case limit_price of
         Some p \<Rightarrow> Inr (Some (DFin p))
       | None \<Rightarrow> (case dict_get (oi_metadata intent) ''reference_price'' of
           None \<Rightarrow> Inr None
         | Some VNone \<Rightarrow> Inr None
         | Some (VDec q) \<Rightarrow> Inr (Some (DFin q))
         | Some (VInt n) \<Rightarrow> Inr (Some (DFin (of_int n)))
         | Some v \<Rightarrow> res_bind (ep_decimal E v) (\<lambda>d. Inr (Some d))))) (\<lambda>reference.
     py_bind (py_of (case reference of None \<Rightarrow> Inr False
       | Some r \<Rightarrow> below_notional quantity r (mr_minimum_notional m))) (\<lambda>below.
     if below then py_raise (blocked ''MIN_NOTIONAL'')
     else py_of (with_quantity intent quantity limit_price)))))"

definition register_unknown :: "'w engine_ports \<Rightarrow> execution_result \<Rightarrow> ('w engine, unit) py" where
  "register_unknown E result = (case ep_register E of
     None \<Rightarrow> py_ret ()
   | Some register \<Rightarrow> if eo_status (er_order result) = UNKNOWN
       then at_world (register (eo_client_order_id (er_order result))) else py_ret ())"

definition engine_submit :: "'w engine_ports \<Rightarrow> order_intent \<Rightarrow> ('w engine, execution_result) py" where
  "engine_submit E intent =
     py_bind (engine_now E) (\<lambda>now.
     py_bind (py_of (expiry_check now intent)) (\<lambda>_.
     py_bind (py_of (key_of E intent)) (\<lambda>key.
     py_bind (at_world (ep_evaluate E key)) (\<lambda>decision.
     py_bind (py_of (readiness_check decision intent)) (\<lambda>_.
     py_bind (at_world (ep_assert_leader E (oi_account_id intent) now)) (\<lambda>_.
     py_bind (normalize_intent E intent key) (\<lambda>normalized.
     py_bind (at_world (ep_lock E key)) (\<lambda>_.
     py_bind (at_core (submit (ep_core E) normalized)) (\<lambda>result.
     py_bind (record_result E result None ''INTENT_EXECUTED'' None) (\<lambda>_.
     py_bind (register_unknown E result) (\<lambda>_.
     py_ret result)))))))))))"

text \<open>What \<open>refresh_order\<close>, \<open>resolve_unknown\<close> and \<open>cancel\<close> share: the order is read before the
  lock is taken.\<close>

definition locked_operation :: "'w engine_ports \<Rightarrow> string \<Rightarrow> ('w svc, execution_result) py \<Rightarrow> string \<Rightarrow>
    order_snapshot option \<Rightarrow> ('w engine, execution_result) py" where
  "locked_operation E cid operation event_type snapshot =
     py_bind (at_core (get_order cid)) (\<lambda>before.
     py_bind (py_of (key_of E (eo_intent before))) (\<lambda>key.
     py_bind (at_world (ep_lock E key)) (\<lambda>_.
     py_bind (at_core operation) (\<lambda>result.
     py_bind (record_result E result (Some before) event_type snapshot) (\<lambda>_.
     py_ret result)))))"

definition engine_event :: "'w engine_ports \<Rightarrow> order_snapshot \<Rightarrow> ('w engine, execution_result) py" where
  \<comment> \<open>\<open>apply_exchange_event\<close>\<close>
  "engine_event E snapshot =
     py_bind (case ep_cache_put E of None \<Rightarrow> py_ret () | Some put \<Rightarrow> at_world (put snapshot)) (\<lambda>_.
     locked_operation E (sn_client_order_id snapshot) (apply_exchange_event (ep_core E) snapshot)
       ''ORDER_EVENT_APPLIED'' (Some snapshot))"

definition engine_refresh :: "'w engine_ports \<Rightarrow> string \<Rightarrow> ('w engine, execution_result) py" where
  "engine_refresh E cid = locked_operation E cid (refresh_order (ep_core E) cid) ''ORDER_REFRESHED'' None"

definition engine_resolve :: "'w engine_ports \<Rightarrow> string \<Rightarrow> ('w engine, execution_result) py" where
  "engine_resolve E cid =
     locked_operation E cid (resolve_unknown (ep_core E) cid) ''UNKNOWN_RESOLUTION_ATTEMPTED'' None"

definition engine_cancel :: "'w engine_ports \<Rightarrow> string \<Rightarrow> ('w engine, execution_result) py" where
  "engine_cancel E cid = locked_operation E cid (cancel (ep_core E) cid) ''ORDER_CANCEL_REQUESTED'' None"

end
