(* ===== verification/Engine_Steps.thy ===== *)
theory Engine_Steps
  imports Execution_Engine
begin

text \<open>
  How the operations of \<open>HedgeExecutionEngine\<close> move its state: the steps around the execution service
  leave the orders and the calls to the exchange alone (\<open>calm\<close>), a submission reaches the service only
  through the gates (\<open>submit_gated\<close>), and what \<open>_record_result\<close> leaves in the ledger and in the outbox.
\<close>

section \<open>What the steps around the service leave alone\<close>

definition engine_calls :: "'w engine \<Rightarrow> exchange_call list" where
  "engine_calls s = sv_calls (en_core s)"

definition core_view :: "'w engine \<Rightarrow> exec_store \<times> execution_result idempotency_store \<times> kill_switch \<times> exchange_call list" where
  \<comment> \<open>the service but for its environment\<close>
  "core_view s = (case en_core s of c \<Rightarrow> (sv_store c, sv_idem c, sv_kill c, sv_calls c))"

abbreviation calm :: "('w engine, 'a) py \<Rightarrow> bool" where
  "calm \<equiv> moves (frozen_at core_view)"

lemma at_world_eq: "at_world m s = (case m (sv_world (en_core s)) of
    (r, w) \<Rightarrow> (r, s\<lparr>en_core := (en_core s)\<lparr>sv_world := w\<rparr>\<rparr>))"
  by (simp add: at_world_def at_core_def at_port_def split: prod.split)

lemma calm_world: "calm (at_world m)"
  by (simp add: moves_def frozen_at_def core_view_def at_world_eq split: prod.split)

lemma calm_ledger: "calm (at_ledger m)"
  by (simp add: moves_def frozen_at_def core_view_def at_ledger_def split: prod.split)

lemma calm_now: "calm (engine_now E)"
  unfolding engine_now_def by (rule calm_world)

lemma calm_utc: "calm (at_core (utc_now P))"
  by (simp add: moves_def frozen_at_def core_view_def at_core_def utc_now_def split: prod.split)

lemmas calm_intros = calm_world calm_ledger calm_now calm_utc fz.mv_basic fz.mv_compose

lemma calm_derive: "calm (derive_fill E previous current snapshot)"
  unfolding derive_fill_def Let_def
  by (auto split: option.split intro!: calm_intros)

lemma calm_publish: "calm (publish_event E e)"
  unfolding publish_event_def by (auto split: sum.split intro!: calm_intros)

lemma calm_record: "calm (record_result E result previous event_type snapshot)"
  unfolding record_result_def Let_def by (auto intro!: calm_intros calm_derive calm_publish)

lemma calm_normalize: "calm (normalize_intent E intent key)"
  unfolding normalize_intent_def Let_def by (auto intro!: calm_intros)

lemma calm_register: "calm (register_unknown E result)"
  unfolding register_unknown_def by (auto split: option.split intro!: calm_intros)

lemma calm_keeps: "calm m \<Longrightarrow> m s = (r, t) \<Longrightarrow> core_view t = core_view s"
  by (drule (1) movesD) (simp add: frozen_at_def)

lemma calm_bind:
  assumes "py_bind m f s = (r, t)" and "core_view t \<noteq> core_view s" and "calm m"
  obtains x u where "m s = (Inr x, u)" "core_view u = core_view s" "f x u = (r, t)"
    "core_view t \<noteq> core_view u"
  using assms(1)
proof (cases rule: py_bind_cases)
  case (Err e)
  then show ?thesis using assms(2) calm_keeps [OF assms(3)] by blast
next
  case (Ok x u)
  then show ?thesis using that [OF Ok(1) _ Ok(2)] calm_keeps [OF assms(3) Ok(1)] assms(2) by simp
qed

section \<open>The gates before the exchange\<close>

lemma at_world_Inr:
  "at_world m s = (Inr x, u) \<Longrightarrow> m (sv_world (en_core s)) = (Inr x, sv_world (en_core u))"
  by (auto simp: at_world_eq split: prod.splits)

lemma engine_now_Inr:
  "engine_now E s = (Inr x, u) \<Longrightarrow> ep_now E (sv_world (en_core s)) = (x, sv_world (en_core u))"
  unfolding engine_now_def by (drule at_world_Inr) (simp split: prod.splits)

lemma intent_price_kept: "intent_limit_price (map_option DFin l) = Inr p \<Longrightarrow> p = l"
  by (cases l) (auto simp: intent_limit_price_Inr)

lemma mk_intent_price:
  "mk_order_intent a = Inr j \<Longrightarrow> intent_limit_price (ia_limit_price a) = Inr (oi_limit_price j)"
  unfolding mk_order_intent_def Let_def res_bind_eq_Inr if_Inl_eq_Inr sum.inject by clarsimp

lemma with_quantity_fields:
  assumes "with_quantity i quantity limit_price = Inr j"
  shows "oi_quantity j = quantity" and "oi_position_side j = oi_position_side i"
    and "oi_action j = oi_action i" and "oi_limit_price j = limit_price" and "intent_ok j"
proof -
  note f = mk_intent_fields [OF assms [unfolded with_quantity_def]]
  show "oi_quantity j = quantity" "oi_position_side j = oi_position_side i" "oi_action j = oi_action i"
    using f by simp_all
  show "intent_ok j" by (rule mk_order_intent_ok [OF assms [unfolded with_quantity_def]])
  show "oi_limit_price j = limit_price"
    using mk_intent_price [OF assms [unfolded with_quantity_def]] by (simp add: intent_price_kept)
qed

lemma normalize_intent_Inr:
  assumes "normalize_intent E i key s = (Inr j, u)"
  shows "\<exists>m. ep_rules_for E key (sv_world (en_core s)) = (Inr m, sv_world (en_core u))
    \<and> oi_quantity j = normalize_quantity m (oi_quantity i)
    \<and> mr_minimum_quantity m \<le> oi_quantity j \<and> normalized_price m i = Inr (oi_limit_price j)
    \<and> oi_position_side j = oi_position_side i \<and> oi_action j = oi_action i \<and> intent_ok j"
proof -
  obtain m u1 where m: "at_world (ep_rules_for E key) s = (Inr m, u1)"
    and big: "\<not> normalize_quantity m (oi_quantity i) < mr_minimum_quantity m"
    and rest: "py_bind (py_of (normalized_price m i)) (\<lambda>limit_price.
     py_bind (py_of (case limit_price of
         Some p \<Rightarrow> Inr (Some (DFin p))
       | None \<Rightarrow> (case dict_get (oi_metadata i) ''reference_price'' of
           None \<Rightarrow> Inr None
         | Some VNone \<Rightarrow> Inr None
         | Some (VDec q) \<Rightarrow> Inr (Some (DFin q))
         | Some (VInt n) \<Rightarrow> Inr (Some (DFin (of_int n)))
         | Some v \<Rightarrow> res_bind (ep_decimal E v) (\<lambda>d. Inr (Some d))))) (\<lambda>reference.
     py_bind (py_of (case reference of None \<Rightarrow> Inr False
       | Some r \<Rightarrow> below_notional (normalize_quantity m (oi_quantity i)) r (mr_minimum_notional m))) (\<lambda>below.
     if below then py_raise (blocked ''MIN_NOTIONAL'')
     else py_of (with_quantity i (normalize_quantity m (oi_quantity i)) limit_price)))) u1 = (Inr j, u)"
    using assms unfolding normalize_intent_def Let_def
    by (elim py_bind_cases) (simp_all split: if_split_asm)
  from rest obtain price where price: "normalized_price m i = Inr price"
    "with_quantity i (normalize_quantity m (oi_quantity i)) price = Inr j" "u = u1"
    by (elim py_bind_cases) (simp_all split: if_split_asm)
  then show ?thesis using with_quantity_fields [OF price(2)] big at_world_Inr [OF m] by force
qed

definition gated :: "'w engine_ports \<Rightarrow> order_intent \<Rightarrow> position_key \<Rightarrow> order_intent \<Rightarrow> 'w \<Rightarrow> 'w \<Rightarrow> bool" where
  \<comment> \<open>the environment, asked in this order, lets the intent \<open>i\<close> pass and has it normalised to \<open>j\<close>\<close>
  "gated E i key j w w' \<longleftrightarrow> (\<exists>now d m w1 w2 w3 w4.
     ep_now E w = (now, w1) \<and> expiry_check now i = Inr () \<and> key_of E i = Inr key
     \<and> ep_evaluate E key w1 = (Inr d, w2) \<and> readiness_check d i = Inr ()
     \<and> ep_assert_leader E (oi_account_id i) now w2 = (Inr (), w3)
     \<and> ep_rules_for E key w3 = (Inr m, w4) \<and> oi_quantity j = normalize_quantity m (oi_quantity i)
     \<and> mr_minimum_quantity m \<le> oi_quantity j \<and> normalized_price m i = Inr (oi_limit_price j)
     \<and> oi_position_side j = oi_position_side i \<and> oi_action j = oi_action i
     \<and> ep_lock E key w4 = (Inr (), w'))"

lemma calm_rest:
  assumes "py_bind m f s = (r, t)" and "\<And>x. calm (f x)"
  shows "\<exists>r' v. m s = (r', v) \<and> core_view t = core_view v"
  using assms(1)
proof (cases rule: py_bind_cases)
  case (Ok x u)
  then show ?thesis using calm_keeps [OF assms(2) Ok(2)] by blast
qed blast

lemma core_view_eq:
  "core_view u = core_view s \<Longrightarrow> en_core u = (en_core s)\<lparr>sv_world := sv_world (en_core u)\<rparr>"
  by (cases "en_core u"; cases "en_core s") (auto simp: core_view_def)

lemma submit_gated:
  assumes "engine_submit E i s = (r, t)" and "core_view t \<noteq> core_view s"
  shows "\<exists>key j u r' v. gated E i key j (sv_world (en_core s)) (sv_world (en_core u)) \<and> intent_ok j
    \<and> core_view u = core_view s \<and> at_core (submit (ep_core E) j) u = (r', v) \<and> core_view t = core_view v"
proof -
  from assms obtain now u1 key d u2 u3 j u4 u where
    p: "engine_now E s = (Inr now, u1)" "expiry_check now i = Inr ()" "key_of E i = Inr key"
      "at_world (ep_evaluate E key) u1 = (Inr d, u2)" "readiness_check d i = Inr ()"
      "at_world (ep_assert_leader E (oi_account_id i) now) u2 = (Inr (), u3)"
      "normalize_intent E i key u3 = (Inr j, u4)" "at_world (ep_lock E key) u4 = (Inr (), u)"
    and same: "core_view u = core_view s"
    and rest: "py_bind (at_core (submit (ep_core E) j)) (\<lambda>result.
        py_bind (record_result E result None ''INTENT_EXECUTED'' None)
          (\<lambda>_. py_bind (register_unknown E result) (\<lambda>_. py_ret result))) u = (r, t)"
    unfolding engine_submit_def
    apply (elim calm_bind [where m = "engine_now E"] calm_bind [where m = "py_of _"]
      calm_bind [where m = "at_world _"] calm_bind [where m = "normalize_intent _ _ _"])
    apply (rule calm_intros calm_normalize | assumption)+
    apply simp
    done
  have "\<exists>r' v. at_core (submit (ep_core E) j) u = (r', v) \<and> core_view t = core_view v"
    by (rule calm_rest [OF rest]) (intro calm_record calm_register calm_intros)
  moreover obtain m where "ep_rules_for E key (sv_world (en_core u3)) = (Inr m, sv_world (en_core u4))"
    "oi_quantity j = normalize_quantity m (oi_quantity i)" "mr_minimum_quantity m \<le> oi_quantity j"
    "normalized_price m i = Inr (oi_limit_price j)" "oi_position_side j = oi_position_side i"
    "oi_action j = oi_action i" and ok: "intent_ok j"
    using normalize_intent_Inr [OF p(7)] by blast
  then have "gated E i key j (sv_world (en_core s)) (sv_world (en_core u))"
    unfolding gated_def using p(2,3,5) engine_now_Inr [OF p(1)] p(4,6,8) [THEN at_world_Inr] by blast
  ultimately show ?thesis using ok same by blast
qed

section \<open>What is booked\<close>

abbreviation same_ledger :: "('w engine, 'a) py \<Rightarrow> bool" where
  "same_ledger \<equiv> moves (frozen_at en_ledger)"

lemma same_ledger_core: "same_ledger (at_core m)"
  by (simp add: moves_def frozen_at_def at_core_def split: prod.split)

lemma same_ledger_world: "same_ledger (at_world m)"
  unfolding at_world_def by (rule same_ledger_core)

lemma same_ledger_now: "same_ledger (engine_now E)"
  unfolding engine_now_def by (rule same_ledger_world)

lemmas same_ledger_intros = same_ledger_core same_ledger_world same_ledger_now fz.mv_basic fz.mv_compose

lemma same_ledger_derive: "same_ledger (derive_fill E previous current snapshot)"
  unfolding derive_fill_def Let_def by (auto split: option.split intro!: same_ledger_intros)

lemma same_ledger_keeps: "same_ledger m \<Longrightarrow> m s = (r, t) \<Longrightarrow> en_ledger t = en_ledger s"
  by (drule (1) movesD) (simp add: frozen_at_def)

text \<open>What is due for booking between two views of an order, and the trade id it goes under.\<close>

definition filled_before :: "execution_order option \<Rightarrow> rat" where
  "filled_before previous = (case previous of None \<Rightarrow> 0 | Some b \<Rightarrow> lc_filled_quantity (eo_lifecycle b))"

definition fill_due :: "execution_order option \<Rightarrow> execution_order \<Rightarrow> rat option" where
  "fill_due previous current =
     (let d = dec_sub (lc_filled_quantity (eo_lifecycle current)) (filled_before previous)
      in if d \<le> 0 \<or> lc_average_price (eo_lifecycle current) = None then None else Some d)"

definition trade_name :: "'w engine_ports \<Rightarrow> execution_order \<Rightarrow> order_snapshot option \<Rightarrow> string" where
  "trade_name E current snapshot = (let lc = eo_lifecycle current;
      hash = ep_trade_hash E (eo_client_order_id current) (lc_filled_quantity lc)
        (or_else (lc_average_price lc) 0) (lc_version lc)
      in strip (case snapshot of None \<Rightarrow> hash | Some sn \<Rightarrow> or_else (sn_exchange_trade_id sn) hash))"

definition names_fill :: "'w engine_ports \<Rightarrow> execution_order \<Rightarrow> order_snapshot option \<Rightarrow> rat \<Rightarrow> fill_event \<Rightarrow> bool" where
  "names_fill E current snapshot d f \<longleftrightarrow> fill_ok f \<and> fe_quantity f = d
     \<and> fe_trade_id f = trade_name E current snapshot
     \<and> key_of E (eo_intent current) = Inr (fe_position_key f)
     \<and> fe_action f = oi_action (eo_intent current)"

lemma event_decimal_Inr: "event_decimal n b v = Inr q \<Longrightarrow> v = DFin q"
  by (cases v) (simp_all add: event_decimal_def split: if_split_asm)

lemma mk_fill_fields:
  assumes "mk_fill uid now a = Inr f"
  shows "fa_quantity a = DFin (fe_quantity f) \<and> fe_trade_id f = strip (fa_trade_id a)
    \<and> fe_position_key f = fa_position_key a \<and> coerce_action ''fill action or order_side is invalid''
         (fa_action a) = Inr (fe_action f)"
  using assms unfolding mk_fill_def Let_def res_bind_eq_Inr if_Inl_eq_Inr sum.inject
  by clarify (drule event_decimal_Inr [where n = "''quantity''"], simp)

lemma fill_bind:
  assumes "py_bind (py_of k) (\<lambda>key. py_bind m (\<lambda>now. py_bind n (\<lambda>uid.
      py_bind (py_of (mk_fill uid now (A key now))) (\<lambda>f. py_ret (Some f))))) s = (Inr fill, t)"
  shows "\<exists>key now uid f. k = Inr key \<and> mk_fill uid now (A key now) = Inr f \<and> fill = Some f"
  using assms by (elim py_bind_cases) auto

lemma derive_fill_Inr:
  assumes "derive_fill E previous current snapshot s = (Inr fill, t)"
  shows "case fill_due previous current of None \<Rightarrow> fill = None
    | Some d \<Rightarrow> \<exists>f. fill = Some f \<and> names_fill E current snapshot d f"
proof -
  define d where "d = dec_sub (lc_filled_quantity (eo_lifecycle current)) (filled_before previous)"
  consider "d \<le> 0" | "\<not> d \<le> 0" "lc_average_price (eo_lifecycle current) = None"
    | p where "\<not> d \<le> 0" "lc_average_price (eo_lifecycle current) = Some p" by fastforce
  then show ?thesis
  proof cases
    case 1
    then have "fill = None" using assms
      unfolding derive_fill_def Let_def d_def filled_before_def by (cases previous) simp_all
    then show ?thesis using 1 by (simp add: fill_due_def d_def Let_def)
  next
    case 2
    then have "fill = None" using assms
      unfolding derive_fill_def Let_def d_def filled_before_def by (cases previous) simp_all
    then show ?thesis using 2 by (simp add: fill_due_def d_def Let_def)
  next
    case 3
    then have due: "fill_due previous current = Some d" by (simp add: fill_due_def d_def Let_def)
    define price where "price = dec_div (dec_sub (dec_mul (lc_filled_quantity (eo_lifecycle current)) p)
      (dec_mul (filled_before previous) (case previous of None \<Rightarrow> 0
        | Some b \<Rightarrow> or_else (lc_average_price (eo_lifecycle b)) 0))) d"
    define A where "A key now = \<lparr>fa_position_key = key, fa_trade_id = (case snapshot of
          Some sn \<Rightarrow> or_else (sn_exchange_trade_id sn) (ep_trade_hash E (eo_client_order_id current)
            (lc_filled_quantity (eo_lifecycle current)) p (lc_version (eo_lifecycle current)))
        | None \<Rightarrow> ep_trade_hash E (eo_client_order_id current)
            (lc_filled_quantity (eo_lifecycle current)) p (lc_version (eo_lifecycle current))),
      fa_client_order_id = eo_client_order_id current, fa_action = Inl (oi_action (eo_intent current)),
      fa_order_side = Inl (expected_order_side (oi_position_side (eo_intent current)) (oi_action (eo_intent current))),
      fa_quantity = DFin d, fa_price = DFin price,
      fa_fee = Some (DFin (case snapshot of None \<Rightarrow> 0 | Some sn \<Rightarrow> sn_last_fill_fee sn)),
      fa_fee_currency = Some (case snapshot of None \<Rightarrow> ''USDT''
        | Some sn \<Rightarrow> or_else (sn_fee_currency sn) ''USDT''),
      fa_exchange_time = Some (Aware (case snapshot of None \<Rightarrow> lc_updated_at (eo_lifecycle current)
        | Some sn \<Rightarrow> sn_observed_at sn)),
      fa_observed_time = Some (Aware now), fa_event_id = None, fa_payload_version = None,
      fa_correlation_id = None, fa_event_type = None, fa_hedge_event_version = None\<rparr>" for key and now :: int
    have "derive_fill E previous current snapshot = py_bind (py_of (key_of E (eo_intent current)))
        (\<lambda>key. py_bind (engine_now E) (\<lambda>now. py_bind (at_world (ep_uuid E)) (\<lambda>uid.
          py_bind (py_of (mk_fill uid now (A key now))) (\<lambda>f. py_ret (Some f)))))"
      using 3 unfolding derive_fill_def Let_def A_def price_def d_def filled_before_def
      by (cases previous) simp_all
    from fill_bind [OF assms [unfolded this]] obtain key now uid f where f:
      "key_of E (eo_intent current) = Inr key" "mk_fill uid now (A key now) = Inr f" "fill = Some f" by blast
    have "strip (fa_trade_id (A key now)) = trade_name E current snapshot"
      using 3 by (auto simp: A_def trade_name_def or_else_def Let_def split: option.split)
    with mk_fill_fields [OF f(2)] mk_fill_ok [OF f(2)] f(1) have "names_fill E current snapshot d f"
      by (simp add: names_fill_def A_def coerce_action_def coerce_enum_def)
    then show ?thesis using due f(3) by simp
  qed
qed

text \<open>The ledger after the best-effort delivery of an event.\<close>

definition delivered :: "'w engine_ports \<Rightarrow> outbox_event \<Rightarrow> 'w \<Rightarrow> execution_order ledger \<Rightarrow> execution_order ledger \<Rightarrow> bool" where
  "delivered E out w L L' \<longleftrightarrow> (\<exists>e now. dict_get (lg_outbox L) (uuid_str (ob_event_id out)) = Some e
     \<and> L' = L\<lparr>lg_outbox := dict_put (uuid_str (ob_event_id out)) (e\<lparr>ob_published_at :=
         (case fst (ep_publish E out w) of Inl _ \<Rightarrow> ob_published_at e | Inr _ \<Rightarrow> Some now),
         ob_attempts := ob_attempts e + 1\<rparr>) (lg_outbox L)\<rparr>)"

lemma publish_event_Inr:
  assumes "publish_event E out s = (Inr u, t)"
  shows "delivered E out (sv_world (en_core s)) (en_ledger s) (en_ledger t)"
proof -
  obtain r w where p: "ep_publish E out (sv_world (en_core s)) = (r, w)" by fastforce
  define s1 where "s1 = s\<lparr>en_core := (en_core s)\<lparr>sv_world := w\<rparr>\<rparr>"
  have try_eq: "py_try (at_world (ep_publish E out)) s = (Inr r, s1)"
    by (simp add: py_try_def at_world_eq p s1_def)
  show ?thesis
  proof (cases r)
    case (Inl x)
    then have "at_ledger (mark_publish_attempt (uuid_str (ob_event_id out))) s1 = (Inr u, t)"
      using assms try_eq by (simp add: publish_event_def py_bind_def)
    then show ?thesis using Inl p
      by (auto simp: at_ledger_def mark_publish_attempt_def delivered_def s1_def split: option.splits)
  next
    case (Inr x)
    then obtain now s2 where n: "engine_now E s1 = (Inr now, s2)"
      "at_ledger (mark_published now (uuid_str (ob_event_id out)) (Some now)) s2 = (Inr u, t)"
      using assms try_eq by (auto simp: publish_event_def py_bind_InrI elim!: py_bind_cases)
    have "en_ledger s2 = en_ledger s" using same_ledger_keeps [OF same_ledger_now n(1)] by (simp add: s1_def)
    then show ?thesis using n(2) Inr p
      by (auto simp: at_ledger_def mark_published_def delivered_def or_else_def split: option.splits)
  qed
qed

text \<open>What \<open>record_result\<close> does to the ledger when it returns.\<close>

definition outcome_event :: "'w engine_ports \<Rightarrow> execution_order \<Rightarrow> fill_event option \<Rightarrow> nat \<Rightarrow> outbox_event res" where
  "outcome_event E order fill uid = res_bind (engine_payload E order) (\<lambda>payload.
     mk_outbox (outbox_type order fill) payload
       (Some (uuid_str (or_else (oi_action_group_id (eo_intent order)) (oi_intent_id (eo_intent order)))))
       uid 1 (Aware (lc_updated_at (eo_lifecycle order))) None 0)"

definition fill_matches :: "'w engine_ports \<Rightarrow> execution_order option \<Rightarrow> execution_order \<Rightarrow>
    order_snapshot option \<Rightarrow> fill_event option \<Rightarrow> bool" where
  "fill_matches E previous current snapshot fill = (case fill_due previous current of None \<Rightarrow> fill = None
    | Some d \<Rightarrow> \<exists>f. fill = Some f \<and> names_fill E current snapshot d f)"

lemma record_result_Inr:
  assumes "record_result E result previous event_type snapshot s = (Inr u, t)"
  shows "\<exists>fill uid out payload now w L.
    fill_matches E previous (er_order result) snapshot fill
    \<and> outcome_event E (er_order result) fill uid = Inr out
    \<and> record_event now (eo_client_order_id (er_order result)) (er_order result) event_type fill
        (Some out) (Some payload) (en_ledger s) = (Inr (), L)
    \<and> delivered E out w L (en_ledger t)"
proof -
  let ?o = "er_order result"
  from assms obtain fill s1 payload uid s2 out now s3 s4 where
    p: "derive_fill E previous ?o snapshot s = (Inr fill, s1)" "engine_payload E ?o = Inr payload"
      "at_world (ep_uuid E) s1 = (Inr uid, s2)"
      "mk_outbox (outbox_type ?o fill) payload
        (Some (uuid_str (or_else (oi_action_group_id (eo_intent ?o)) (oi_intent_id (eo_intent ?o))))) uid 1
        (Aware (lc_updated_at (eo_lifecycle ?o))) None 0 = Inr out"
      "at_core (utc_now (ep_core E)) s2 = (Inr now, s3)"
      "at_ledger (record_event now (eo_client_order_id ?o) ?o event_type fill (Some out) (Some payload)) s3
        = (Inr (), s4)" "publish_event E out s4 = (Inr u, t)"
    unfolding record_result_def Let_def by (elim py_bind_cases) auto
  have "en_ledger s3 = en_ledger s"
    using p(1,3,5) same_ledger_keeps [OF same_ledger_derive] same_ledger_keeps [OF same_ledger_world]
      same_ledger_keeps [OF same_ledger_core] by metis
  then have "record_event now (eo_client_order_id ?o) ?o event_type fill (Some out) (Some payload) (en_ledger s)
      = (Inr (), en_ledger s4)"
    using p(6) by (auto simp: at_ledger_def split: prod.splits)
  moreover have "outcome_event E ?o fill uid = Inr out" using p(2,4) by (simp add: outcome_event_def res_bind_def)
  ultimately show ?thesis
    using derive_fill_Inr [OF p(1)] publish_event_Inr [OF p(7)] unfolding fill_matches_def by blast
qed

text \<open>The fill that an operation books, and the ledger it leaves.\<close>

definition booked :: "'w engine_ports \<Rightarrow> execution_order option \<Rightarrow> execution_order \<Rightarrow>
    order_snapshot option \<Rightarrow> execution_order ledger \<Rightarrow> execution_order ledger \<Rightarrow> bool" where
  "booked E previous current snapshot L L' \<longleftrightarrow> (case fill_due previous current of
     None \<Rightarrow> lg_fills L' = lg_fills L \<and> lg_positions L' = lg_positions L
   | Some d \<Rightarrow> \<exists>f M. names_fill E current snapshot d f \<and> record_fill f L = (Inr (), M)
       \<and> lg_fills L' = lg_fills M \<and> lg_positions L' = lg_positions M)"

lemma delivered_same: "delivered E out w L L' \<Longrightarrow> lg_fills L' = lg_fills L \<and> lg_positions L' = lg_positions L
    \<and> lg_orders L' = lg_orders L \<and> lg_audit L' = lg_audit L"
  by (auto simp: delivered_def)

lemma record_result_books:
  assumes "record_result E result previous event_type snapshot s = (Inr u, t)"
  shows "booked E previous (er_order result) snapshot (en_ledger s) (en_ledger t)"
proof -
  from record_result_Inr [OF assms] obtain fill out payload now w L where
    p: "fill_matches E previous (er_order result) snapshot fill"
      "record_event now (eo_client_order_id (er_order result)) (er_order result) event_type fill
        (Some out) (Some payload) (en_ledger s) = (Inr (), L)" "delivered E out w L (en_ledger t)" by blast
  from record_event_cases [OF p(2)] obtain M where M:
    "case fill of None \<Rightarrow> M = en_ledger s | Some f \<Rightarrow> record_fill f (en_ledger s) = (Inr (), M)"
    "lg_fills L = lg_fills M" "lg_positions L = lg_positions M" by auto
  then show ?thesis using p(1) delivered_same [OF p(3)]
    by (auto simp: booked_def fill_matches_def split: option.splits)
qed

lemma get_order_Inr: "get_order cid c = (Inr e, c') \<Longrightarrow> dict_get (sv_store c) cid = Some e \<and> c' = c"
  by (auto simp: get_order_eq split: option.splits)

lemma same_ledger_gates: "same_ledger (normalize_intent E intent key)" "same_ledger (register_unknown E res)"
  unfolding normalize_intent_def register_unknown_def Let_def
  by (auto split: option.split intro!: same_ledger_intros)

lemma engine_submit_Inr:
  assumes "engine_submit E i s = (Inr res, t)"
  shows "\<exists>s1 s2. record_result E res None ''INTENT_EXECUTED'' None s1 = (Inr (), s2)
    \<and> en_ledger s1 = en_ledger s \<and> en_ledger t = en_ledger s2"
proof -
  from assms obtain now a key d b j c e f s1 s2 where
    p: "engine_now E s = (Inr now, a)" "at_world (ep_evaluate E key) a = (Inr d, b)"
      "at_world (ep_assert_leader E (oi_account_id i) now) b = (Inr (), c)"
      "normalize_intent E i key c = (Inr j, e)" "at_world (ep_lock E key) e = (Inr (), f)"
      "at_core (submit (ep_core E) j) f = (Inr res, s1)"
      "record_result E res None ''INTENT_EXECUTED'' None s1 = (Inr (), s2)"
      "register_unknown E res s2 = (Inr (), t)"
    unfolding engine_submit_def by (elim py_bind_cases) auto
  note keeps = same_ledger_keeps [OF same_ledger_now p(1)] same_ledger_keeps [OF same_ledger_world p(2)]
    same_ledger_keeps [OF same_ledger_world p(3)] same_ledger_keeps [OF same_ledger_gates(1) p(4)]
    same_ledger_keeps [OF same_ledger_world p(5)] same_ledger_keeps [OF same_ledger_core p(6)]
    same_ledger_keeps [OF same_ledger_gates(2) p(8)]
  then show ?thesis using p(7) by auto
qed

lemma outcome_event_Inr:
  assumes "outcome_event E order fill uid = Inr out"
  shows "ob_event_id out = uid \<and> ob_attempts out = 0 \<and> ob_published_at out = None"
  using assms by (auto simp: outcome_event_def mk_outbox_def Let_def res_splits)

lemma record_event_stores:
  assumes "record_event now cid order event_type fill (Some out) payload L = (Inr (), L')"
  shows "lg_outbox L' = dict_put (uuid_str (ob_event_id out)) out (lg_outbox L)
    \<and> ledger_order L' (strip cid) = Some order"
proof -
  obtain r M where m: "(case fill of None \<Rightarrow> (Inr (), L) | Some f \<Rightarrow> record_fill f L) = (r, M)" by fastforce
  then have "lg_outbox M = lg_outbox L"
    by (auto simp: record_fill_def split: option.splits sum.splits if_splits)
  then show ?thesis using assms m
    by (cases r) (auto simp: record_event_def ledger_order_def dict_get_put split: if_splits)
qed

end
