(* ===== verification/Engine_Demo.thy ===== *)
theory Engine_Demo
  imports Engine_Steps
begin

text \<open>
  A concrete engine to evaluate the properties in, over the environment of the service demos, and
  the states of a filled order before and after its fill is booked. Code equations keep the
  evaluation of the longer operations from unfolding their branches.
\<close>

section \<open>A concrete engine\<close>

text \<open>The environment of the service demos, ready, leading and never contended, whose exchange counts
  in whole units.\<close>

definition unit_rules :: market_rules where
  "unit_rules = \<lparr>mr_quantity_step = 1, mr_price_tick = 1, mr_minimum_quantity = 1, mr_minimum_notional = 1\<rparr>"

definition demo_engine :: "int ports \<Rightarrow> (outbox_event \<Rightarrow> (int, unit) py) \<Rightarrow> int engine_ports" where
  "demo_engine P publisher = \<lparr>ep_core = P, ep_exchange = ''binance'', ep_now = (\<lambda>w. (w, w + 1)),
     ep_uuid = (\<lambda>w. (Inr (nat (w - 1000)), w + 1)),
     ep_evaluate = (\<lambda>k. py_ret \<lparr>rd_state = READY, rd_reason_codes = [], rd_allow_reduce = True\<rparr>),
     ep_assert_leader = (\<lambda>a t. py_ret ()), ep_lock = (\<lambda>k. py_ret ()),
     ep_rules_for = (\<lambda>k. py_ret unit_rules), ep_publish = publisher,
     ep_cache_put = None, ep_register = None,
     ep_trade_hash = (\<lambda>c q a v. ''hash''), ep_str = (\<lambda>v. []),
     ep_decimal = (\<lambda>v. Inl (Exn ValueError ''decimal''))\<rparr>"

definition idle_engine :: "int engine" where
  "idle_engine = \<lparr>en_core = demo_start, en_ledger = empty_ledger\<rparr>"

fun hex_digits :: "nat \<Rightarrow> int \<Rightarrow> string" where
  "hex_digits 0 n = []"
| "hex_digits (Suc k) n = hex_digits k (n div 16) @ [hex_digit (nat (n mod 16))]"

lemma hex_digits_eq:
  "hex_digits k n = map (\<lambda>k. hex_digit (nat (n div 16 ^ k mod 16))) (rev [0..<k])"
proof (induction k arbitrary: n)
  case (Suc k)
  have "rev [0..<Suc k] = map Suc (rev [0..<k]) @ [0]"
    by (simp only: rev_map [symmetric] map_Suc_upt upt_conv_Cons rev.simps zero_less_Suc)
  then show ?case using Suc.IH [of "n div 16"] by (simp add: div_mult2_eq [symmetric] zdiv_zmult2_eq o_def del: upt_Suc)
qed simp

lemma uuid_hex_code [code]: "uuid_hex u = hex_digits 32 (int u)"
  by (simp only: uuid_hex_def hex_digits_eq)

lemmas engine_codes [code] = engine_submit_def [unfolded py_defs] record_result_def [unfolded py_defs Let_def]
  derive_fill_def [unfolded py_defs Let_def] mk_fill_def [unfolded Let_def res_bind_def]
  mk_outbox_def [unfolded Let_def res_bind_def] apply_fill_def [unfolded Let_def res_bind_def]
  engine_payload_def [unfolded Let_def res_bind_def] mk_position_key_def [unfolded res_bind_def]
  canonical_pair_def [unfolded Let_def res_bind_def] raw_symbol_def [unfolded res_bind_def]
  normalize_intent_def [unfolded py_defs Let_def] fill_effect_def [unfolded Let_def]
  publish_event_def [unfolded py_defs] locked_operation_def [unfolded py_defs]

definition booked_key :: position_key where
  "booked_key = \<lparr>pk_exchange = ''binance'', pk_account_id = ''acc'', pk_symbol = ''BTCUSDT'',
     pk_position_side = LONG, pk_canonical_symbol = ''BTC/USDT:USDT''\<rparr>"

definition acked_order :: execution_order where
  "acked_order = \<lparr>eo_intent = demo_intent, eo_client_order_id = demo_id, eo_approved_quantity = 2,
     eo_lifecycle = (new_lifecycle 1000)\<lparr>lc_status := ACKNOWLEDGED, lc_version := 2\<rparr>, eo_created_at = 1000\<rparr>"

definition fill_snapshot :: order_snapshot where
  "fill_snapshot = (demo_snapshot FILLED 2 5000)\<lparr>sn_average_price := Some 100\<rparr>"

definition fill_ports :: "int ports" where
  "fill_ports = demo_ports (Inr RNone) (Inr (RSnapshot fill_snapshot)) (Inr RNone) (Inr RNone)"

definition acked_core :: "int svc" where
  "acked_core = demo_start\<lparr>sv_store := [(demo_id, acked_order)], sv_idem := \<lparr>in_flight = {},
     completed = [(''k1'', \<lparr>er_order = acked_order, er_idempotent_replay = False, er_message = None\<rparr>)]\<rparr>\<rparr>"

lemma demo_rules: "normalize_quantity unit_rules 2 = 2" "normalized_price unit_rules demo_intent = Inr (Some 100)"
    "below_notional 2 (DFin 100) 1 = Inr False" "with_quantity demo_intent 2 (Some 100) = Inr demo_intent"
  by code_simp+

lemma demo_fields: "oi_quantity demo_intent = 2" "oi_metadata demo_intent = []" "oi_action demo_intent = OPEN"
    "mr_minimum_quantity unit_rules = 1" "mr_minimum_notional unit_rules = 1"
  by (simp_all add: demo_intent_def unit_rules_def)

lemma demo_normalize:
  "normalize_intent (demo_engine P publisher) demo_intent key s = (Inr demo_intent, s)"
  by (simp add: normalize_intent_def demo_engine_def at_world_eq py_bind_eq demo_rules demo_fields Let_def)

lemma demo_key_of: "key_of (demo_engine P publisher) demo_intent = Inr booked_key"
proof -
  have "mk_position_key ''binance'' ''acc'' (Some ''BTCUSDT'') (Some (Inl LONG)) None = Inr booked_key"
    by code_simp
  then show ?thesis by (simp add: key_of_def demo_engine_def demo_intent_def)
qed

lemma demo_submit:
  "engine_submit (demo_engine P publisher) demo_intent s =
    py_bind (at_core (submit P demo_intent)) (\<lambda>result.
      py_bind (record_result (demo_engine P publisher) result None ''INTENT_EXECUTED'' None) (\<lambda>_. py_ret result))
     (s\<lparr>en_core := (en_core s)\<lparr>sv_world := sv_world (en_core s) + 1\<rparr>\<rparr>)"
proof -
  have gates: "engine_now (demo_engine P publisher) s
      = (Inr (sv_world (en_core s)), s\<lparr>en_core := (en_core s)\<lparr>sv_world := sv_world (en_core s) + 1\<rparr>\<rparr>)"
    "expiry_check now demo_intent = Inr ()" 
    "at_world (ep_evaluate (demo_engine P publisher) k) u = (Inr \<lparr>rd_state = READY, rd_reason_codes = [], rd_allow_reduce = True\<rparr>, u)"
    "readiness_check \<lparr>rd_state = READY, rd_reason_codes = [], rd_allow_reduce = True\<rparr> demo_intent = Inr ()"
    "at_world (ep_assert_leader (demo_engine P publisher) acc now) u = (Inr (), u)"
    "at_world (ep_lock (demo_engine P publisher) k) u = (Inr (), u)"
    "register_unknown (demo_engine P publisher) r = py_ret ()" for now k u acc r
    by (simp_all add: engine_now_def demo_engine_def at_world_eq expiry_check_def demo_fields readiness_check_def
        intent_reduces_def reduces_risk_def allow_increase_def register_unknown_def Let_def)
  have core: "ep_core (demo_engine P publisher) = P" by (simp add: demo_engine_def)
  show ?thesis unfolding engine_submit_def
    by (simp add: py_bind_InrI gates demo_key_of demo_normalize core)
       (simp add: py_bind_def split: prod.split sum.split)
qed

definition filled_order :: execution_order where
  "filled_order = \<lparr>eo_intent = demo_intent, eo_client_order_id = demo_id, eo_approved_quantity = 2,
     eo_lifecycle = (new_lifecycle 1000)\<lparr>lc_status := FILLED, lc_filled_quantity := 2,
       lc_average_price := Some 100, lc_version := 3, lc_updated_at := 5000\<rparr>, eo_created_at = 1000\<rparr>"

definition filled_result :: execution_result where
  "filled_result = \<lparr>er_order = filled_order, er_idempotent_replay = False, er_message = None\<rparr>"

definition exchange_fill :: fill_event where
  "exchange_fill = \<lparr>fe_event_id = EUuid 1, fe_correlation_id = ''c'', fe_event_type = ''FILL'',
     fe_hedge_event_version = 1, fe_position_key = booked_key, fe_trade_id = ''t1'',
     fe_client_order_id = demo_id, fe_action = OPEN, fe_order_side = BUY, fe_quantity = 2,
     fe_price = 100, fe_fee = 0, fe_fee_currency = ''USDT'', fe_exchange_time = 5000,
     fe_observed_time = 5000, fe_payload_version = 1\<rparr>"

text \<open>An engine whose order was filled, with the fill booked under the exchange's trade id.\<close>

definition filled_engine :: "int engine" where
  "filled_engine = \<lparr>en_core = demo_start\<lparr>sv_store := [(demo_id, filled_order)],
       sv_idem := \<lparr>in_flight = {}, completed = [(''k1'', filled_result)]\<rparr>\<rparr>,
     en_ledger = snd (record_fill exchange_fill empty_ledger)\<rparr>"

lemma filled_position: "pp_quantity (position (en_ledger filled_engine) booked_key) = 2"
  by code_simp

lemma filled_key: "dict_get (lg_fills (en_ledger filled_engine)) (x, y, ''hash'') = None"
proof -
  have "map fst (lg_fills (en_ledger filled_engine)) = [(''binance'', ''acc'', ''t1'')]" by code_simp
  then show ?thesis by (cases "lg_fills (en_ledger filled_engine)") auto
qed

text \<open>The fill that the engine derives from it.\<close>

definition hash_fill :: "nat \<Rightarrow> int \<Rightarrow> fill_event" where
  "hash_fill uid now = exchange_fill\<lparr>fe_event_id := EUuid uid,
     fe_correlation_id := strip (event_id_str (EUuid uid)), fe_trade_id := ''hash'', fe_observed_time := now\<rparr>"

lemma demo_selectors:
  "ep_core (demo_engine P publisher) = P" "ep_now (demo_engine P publisher) w = (w, w + 1)"
  "ep_uuid (demo_engine P publisher) w = (Inr (nat (w - 1000)), w + 1)"
  "ep_trade_hash (demo_engine P publisher) c q v n = ''hash''" "ep_publish (demo_engine P publisher) = publisher"
  "ep_lock (demo_engine P publisher) k = py_ret ()"
  by (simp_all add: demo_engine_def)

lemma filled_fields: "eo_intent filled_order = demo_intent" "eo_client_order_id filled_order = demo_id"
    "lc_filled_quantity (eo_lifecycle filled_order) = 2" "lc_average_price (eo_lifecycle filled_order) = Some 100"
    "lc_updated_at (eo_lifecycle filled_order) = 5000" "oi_position_side demo_intent = LONG"
    "oi_intent_id demo_intent = 7" "oi_action_group_id demo_intent = None"
  by (simp_all add: filled_order_def demo_intent_def)

lemma demo_texts: "strip ''hash'' = ''hash''" "strip demo_id = demo_id" "demo_id \<noteq> []"
    "upper (strip ''USDT'') = ''USDT''" "strip ''FILL'' = ''FILL''"
    "upper (strip ''FILL_RECORDED'') = ''FILL_RECORDED''"
  by code_simp+

lemma demo_derive:
  assumes "filled_before previous = 0"
    and "previous = None \<or> lc_average_price (eo_lifecycle (the previous)) = None"
  shows "derive_fill (demo_engine P publisher) previous filled_order None s
    = (Inr (Some (hash_fill (nat (sv_world (en_core s) + 1 - 1000)) (sv_world (en_core s)))),
       s\<lparr>en_core := (en_core s)\<lparr>sv_world := sv_world (en_core s) + 2\<rparr>\<rparr>)"
  using assms
  by (cases previous) (simp_all add: derive_fill_def Let_def filled_before_def filled_fields dec_sub_def dec_mul_def
      dec_div_def demo_selectors engine_now_def at_world_eq py_bind_eq demo_key_of mk_fill_def or_else_def
      demo_texts coerce_action_def coerce_enum_def event_decimal_def event_aware_def expected_order_side_def
      demo_fields reduces_risk_def hash_fill_def exchange_fill_def)

lemma demo_publish:
  assumes "dict_get (lg_outbox (en_ledger s)) (uuid_str (ob_event_id out)) = Some e"
  shows "\<exists>t. publish_event (demo_engine P publisher) out s = (Inr (), t)"
proof -
  obtain r w where "publisher out (sv_world (en_core s)) = (r, w)" by fastforce
  then show ?thesis using assms
    by (cases r) (simp_all add: publish_event_def py_bind_eq py_try_def at_world_eq demo_selectors at_ledger_def
        mark_publish_attempt_def mark_published_def engine_now_def)
qed

lemma demo_record:
  assumes "er_order r = filled_order" and "filled_before previous = 0"
    and "previous = None \<or> lc_average_price (eo_lifecycle (the previous)) = None"
    and "strip event_type \<noteq> []" and "dict_get (lg_fills (en_ledger s)) (''binance'', ''acc'', ''hash'') = None"
    and "\<And>uid now. \<exists>p. apply_fill (hash_fill uid now) (position (en_ledger s) booked_key) = Inr p"
  shows "\<exists>t. record_result (demo_engine P publisher) r previous event_type None s = (Inr (), t)"
proof -
  let ?E = "demo_engine P publisher"
  define s1 where "s1 = s\<lparr>en_core := (en_core s)\<lparr>sv_world := sv_world (en_core s) + 2\<rparr>\<rparr>"
  define f where "f = hash_fill (nat (sv_world (en_core s) + 1 - 1000)) (sv_world (en_core s))"
  have d: "derive_fill ?E previous filled_order None s = (Inr (Some f), s1)"
    unfolding s1_def f_def by (rule demo_derive [OF assms(2,3)])
  obtain payload where p: "engine_payload ?E filled_order = Inr payload"
    by (simp add: engine_payload_def filled_fields demo_key_of Let_def)
  obtain uid s2 where u: "at_world (ep_uuid ?E) s1 = (Inr uid, s2)" "en_ledger s2 = en_ledger s"
    by (simp add: at_world_eq demo_selectors s1_def)
  obtain out where o: "mk_outbox (outbox_type filled_order (Some f)) payload
      (Some (uuid_str (or_else (oi_action_group_id demo_intent) (oi_intent_id demo_intent)))) uid 1
      (Aware (lc_updated_at (eo_lifecycle filled_order))) None 0 = Inr out"
    by (simp add: mk_outbox_def outbox_type_def demo_texts event_aware_def)
  obtain now s3 where n: "at_core (utc_now (ep_core ?E)) s2 = (Inr now, s3)" "en_ledger s3 = en_ledger s"
    using u(2) by (simp add: at_core_def utc_now_def split: prod.split)
  have f: "fill_key_of f = (''binance'', ''acc'', ''hash'')" "fe_position_key f = booked_key"
    by (simp_all add: f_def hash_fill_def exchange_fill_def fill_key_of_def booked_key_def)
  obtain q where q: "apply_fill f (position (en_ledger s) booked_key) = Inr q" using assms(6) f_def by blast
  obtain s4 where r: "at_ledger (record_event now (eo_client_order_id filled_order) filled_order event_type (Some f)
      (Some out) (Some payload)) s3 = (Inr (), s4)"
      "dict_get (lg_outbox (en_ledger s4)) (uuid_str (ob_event_id out)) = Some out"
    using assms(4,5) n(2) q
    by (simp add: at_ledger_def record_event_def record_fill_def f filled_fields demo_texts dict_get_put)
  obtain t where "publish_event ?E out s4 = (Inr (), t)" using demo_publish [OF r(2)] by blast
  then show ?thesis
    by (simp add: record_result_def Let_def assms(1) py_bind_InrI d p u(1) o [unfolded filled_fields]
        filled_fields n(1) r(1) [unfolded filled_fields])
qed

text \<open>A publisher that is offline.\<close>

definition deaf_publisher :: "outbox_event \<Rightarrow> (int, unit) py" where
  "deaf_publisher e = py_raise (Exn TimeoutError ''offline'')"

lemma intent_executed: "strip ''INTENT_EXECUTED'' \<noteq> []" by code_simp

definition replayed_result :: execution_result where
  "replayed_result = filled_result\<lparr>er_idempotent_replay := True\<rparr>"

definition filled_later :: "int engine" where
  "filled_later = filled_engine\<lparr>en_core := (en_core filled_engine)\<lparr>sv_world := 1001\<rparr>\<rparr>"

lemma replay_core: "at_core (submit lost_ports demo_intent) filled_later = (Inr replayed_result, filled_later)"
proof -
  have "submit lost_ports demo_intent (en_core filled_later) = (Inr replayed_result, en_core filled_later)"
    by code_simp
  then show ?thesis by (simp add: at_core_def)
qed

lemma filled_apply:
  "\<exists>p. apply_fill (hash_fill uid now) (position (en_ledger filled_engine) booked_key) = Inr p \<and> pp_quantity p = 4"
proof -
  have "position (en_ledger filled_engine) booked_key = \<lparr>pp_position_key = booked_key, pp_quantity = 2,
     pp_average_entry_price = 100, pp_realized_pnl = 0, pp_fees = 0, pp_funding = 0, pp_version = 1, pp_updated_at = 5000\<rparr>"
    by code_simp
  then show ?thesis by (simp add: hash_fill_def exchange_fill_def apply_fill_def fill_effect_def Let_def
      dec_quotient_def dec_add_def dec_sub_def dec_mul_def dec_div_def)
qed

lemma replayed_order: "er_order replayed_result = filled_order" "er_idempotent_replay replayed_result"
  by (simp_all add: replayed_result_def filled_result_def)

lemma replay_recorded: "\<exists>t. record_result (demo_engine lost_ports deaf_publisher) replayed_result None
    ''INTENT_EXECUTED'' None filled_later = (Inr (), t)"
proof -
  have same: "en_ledger filled_later = en_ledger filled_engine" by (simp add: filled_later_def)
  show ?thesis
    using demo_record [of replayed_result None "''INTENT_EXECUTED''" filled_later lost_ports deaf_publisher]
      replayed_order(1) intent_executed filled_apply filled_key unfolding same filled_before_def by fastforce
qed

definition acked_engine :: "int engine" where
  "acked_engine = \<lparr>en_core = acked_core, en_ledger = empty_ledger\<rparr>"

lemma refreshed_core: "\<exists>c r. refresh_order fill_ports demo_id acked_core = (Inr r, c) \<and> er_order r = filled_order"
proof -
  have "case refresh_order fill_ports demo_id acked_core of (Inr r, c) \<Rightarrow> er_order r = filled_order | _ \<Rightarrow> False"
    by code_simp
  then show ?thesis by (auto split: prod.splits sum.splits)
qed

lemma order_refreshed: "strip ''ORDER_REFRESHED'' \<noteq> []" by code_simp

lemma fresh_apply: "\<exists>p. apply_fill (hash_fill uid now) (position empty_ledger booked_key) = Inr p"
  by (simp add: position_def empty_ledger_def or_else_def new_projection_def hash_fill_def exchange_fill_def
      apply_fill_def fill_effect_def Let_def dec_quotient_def dec_add_def dec_sub_def dec_mul_def dec_div_def)

lemma idle_sends: "submits (sv_calls (snd (submit echo_ports demo_intent (demo_start\<lparr>sv_world := 1001\<rparr>)))) \<noteq> []"
  by code_simp

end
