(* ===== verification/Engine_Properties.thy ===== *)
theory Engine_Properties
  imports Engine_Demo
begin

text \<open>
  The properties of the execution entry point: what an order had to pass before it reached the
  exchange, what the ledger holds after an outcome was recorded, that a publisher outage loses no
  event, and that a replayed submission is booked again.
\<close>

text \<open>C3: nothing reaches the exchange through the engine unless, in this order, the intent had not
  expired, readiness let it pass (a reduction needs \<open>allow_reduce\<close>, an increase READY), this
  process led the account, its quantity and price were normalised by the exchange's rules to at least
  the minimum, and the position was locked; then one order is sent, new to the store, for the
  normalised intent, never more than its quantity, and let pass by the kill switch.\<close>

theorem engine_gates_hold:
  assumes "svc_ok (en_core s)" and "engine_submit E i s = (r, t)"
    and "submits (engine_calls t) \<noteq> submits (engine_calls s)"
  shows "\<exists>key j a w. gated E i key j (sv_world (en_core s)) w
    \<and> submits (engine_calls t) = submits (engine_calls s) @ [a] \<and> ap_intent a = j
    \<and> 0 < ap_approved_quantity a \<and> ap_approved_quantity a \<le> oi_quantity j
    \<and> dict_get (sv_store (en_core s)) (ap_client_order_id a) = None
    \<and> assert_allowed (sv_kill (en_core s)) (intent_reduces j) = Inr ()"
proof -
  have "core_view t \<noteq> core_view s" using assms(3) by (auto simp: core_view_def engine_calls_def)
  from submit_gated [OF assms(2) this] obtain key j u r' v where
    g: "gated E i key j (sv_world (en_core s)) (sv_world (en_core u))" "intent_ok j"
      "core_view u = core_view s" "at_core (submit (ep_core E) j) u = (r', v)" "core_view t = core_view v"
    by blast
  define c where "c = (en_core s)\<lparr>sv_world := sv_world (en_core u)\<rparr>"
  have c: "en_core u = c" unfolding c_def by (rule core_view_eq [OF g(3)])
  have same: "svc_ok c" "sv_store c = sv_store (en_core s)" "sv_kill c = sv_kill (en_core s)"
    "sv_calls c = engine_calls s"
    using assms(1) by (simp_all add: c_def svc_ok_upd engine_calls_def)
  obtain r2 c' where run: "submit (ep_core E) j c = (r2, c')" by fastforce
  then have "engine_calls t = sv_calls c'"
    using g(4,5) c by (auto simp: at_core_def core_view_def engine_calls_def)
  then show ?thesis
    using submit_outcome [OF same(1) g(2) run] assms(3) g(1) same unfolding cleared_def by auto
qed

theorem engine_gates_hold_witness:
  "\<exists>r t key j a w. engine_submit (demo_engine echo_ports deaf_publisher) demo_intent idle_engine = (r, t)
    \<and> gated (demo_engine echo_ports deaf_publisher) demo_intent key j 1000 w
    \<and> submits (engine_calls t) = [a] \<and> ap_intent a = j"
proof -
  let ?E = "demo_engine echo_ports deaf_publisher"
  obtain r t where run: "engine_submit ?E demo_intent idle_engine = (r, t)" by fastforce
  obtain r' v where v: "at_core (submit echo_ports demo_intent)
      (idle_engine\<lparr>en_core := (en_core idle_engine)\<lparr>sv_world := sv_world (en_core idle_engine) + 1\<rparr>\<rparr>) = (r', v)"
    by fastforce
  have "core_view t = core_view v"
    using calm_rest [OF run [unfolded demo_submit]] v calm_record calm_intros by (metis prod.inject)
  moreover have "(en_core idle_engine)\<lparr>sv_world := sv_world (en_core idle_engine) + 1\<rparr> = demo_start\<lparr>sv_world := 1001\<rparr>"
    by (simp add: idle_engine_def demo_start_def new_service_def)
  ultimately have "submits (engine_calls t) \<noteq> []"
    using v idle_sends by (auto simp: at_core_def core_view_def engine_calls_def split: prod.splits)
  moreover have "submits (engine_calls idle_engine) = []"
    by (simp add: engine_calls_def idle_engine_def demo_start_def new_service_def)
  moreover have "sv_world (en_core idle_engine) = 1000" "svc_ok (en_core idle_engine)"
    by (simp_all add: idle_engine_def) (simp add: demo_start_def new_service_def)
  ultimately show ?thesis using engine_gates_hold [OF _ run] run by fastforce
qed

text \<open>C29: when an event, a refresh, a resolution or a cancel of an order returns, the ledger has booked
  exactly the growth of the order's filled quantity over the order stored before the operation, as one
  fill of the right position and action under the exchange's trade id or a derived one; it books
  nothing when the quantity has not grown, and nothing either when the order has no average price
  (the growth is then never booked, because the next operation starts from the stored order).\<close>

theorem engine_books_the_growth:
  assumes "locked_operation E cid operation event_type snapshot s = (Inr res, t)"
  shows "\<exists>before. dict_get (sv_store (en_core s)) cid = Some before
    \<and> booked E (Some before) (er_order res) snapshot (en_ledger s) (en_ledger t)"
proof -
  from assms obtain before s1 key s2 s3 where
    p: "at_core (get_order cid) s = (Inr before, s1)" "at_world (ep_lock E key) s1 = (Inr (), s2)"
      "at_core operation s2 = (Inr res, s3)"
      "record_result E res (Some before) event_type snapshot s3 = (Inr (), t)"
    unfolding locked_operation_def by (elim py_bind_cases) auto
  have "en_ledger s3 = en_ledger s"
    using p(1,2,3) same_ledger_keeps [OF same_ledger_world] same_ledger_keeps [OF same_ledger_core] by metis
  moreover have "dict_get (sv_store (en_core s)) cid = Some before"
    using p(1) get_order_Inr by (fastforce simp: at_core_def split: prod.splits)
  ultimately show ?thesis using record_result_books [OF p(4)] by auto
qed

theorem engine_books_the_growth_witness:
  "\<exists>res t f M. engine_refresh (demo_engine fill_ports deaf_publisher) demo_id acked_engine = (Inr res, t)
    \<and> names_fill (demo_engine fill_ports deaf_publisher) filled_order None 2 f
    \<and> record_fill f (empty_ledger :: execution_order ledger) = (Inr (), M) \<and> lg_fills (en_ledger t) = lg_fills M"
proof -
  let ?E = "demo_engine fill_ports deaf_publisher"
  obtain c r where r: "refresh_order fill_ports demo_id acked_core = (Inr r, c)" "er_order r = filled_order"
    using refreshed_core by blast
  define s where "s = acked_engine\<lparr>en_core := c\<rparr>"
  have b: "filled_before (Some acked_order) = 0" "lc_average_price (eo_lifecycle acked_order) = None"
    "eo_intent acked_order = demo_intent"
    by (simp_all add: filled_before_def acked_order_def new_lifecycle_def)
  obtain t where t: "record_result ?E r (Some acked_order) ''ORDER_REFRESHED'' None s = (Inr (), t)"
    using demo_record [of r "Some acked_order" "''ORDER_REFRESHED''" s fill_ports deaf_publisher] r(2) b
      order_refreshed fresh_apply by (fastforce simp: s_def acked_engine_def empty_ledger_def)
  have "get_order demo_id acked_core = (Inr acked_order, acked_core)"
    by (simp add: get_order_eq acked_core_def)
  then have run: "locked_operation ?E demo_id (refresh_order fill_ports demo_id) ''ORDER_REFRESHED'' None acked_engine
      = (Inr r, t)"
    using r(1) t by (simp add: locked_operation_def py_bind_eq at_core_def acked_engine_def b demo_key_of
        at_world_eq demo_selectors s_def)
  from engine_books_the_growth [OF run] have "booked ?E (Some acked_order) filled_order None empty_ledger (en_ledger t)"
    by (simp add: acked_engine_def acked_core_def r(2))
  moreover have "fill_due (Some acked_order) filled_order = Some 2"
    by (simp add: fill_due_def b filled_fields dec_sub_def)
  ultimately have "\<exists>f M. names_fill ?E filled_order None 2 f \<and> record_fill f (empty_ledger :: execution_order ledger) = (Inr (), M)
      \<and> lg_fills (en_ledger t) = lg_fills M"
    unfolding booked_def by (simp, blast)
  then show ?thesis using run unfolding engine_refresh_def demo_selectors by blast
qed

text \<open>a submission books the whole filled quantity of the order it returns, also when it is an
  idempotent replay of an order whose fills were booked already: unless a fill with the same derived
  trade id is in the ledger, a second fill over the full quantity is added.\<close>

theorem replay_books_again:
  assumes "engine_submit E i s = (Inr res, t)" and "fill_due None (er_order res) = Some d"
    and "\<forall>x y. dict_get (lg_fills (en_ledger s)) (x, y, trade_name E (er_order res) None) = None"
  shows "\<exists>f. dict_values (lg_fills (en_ledger t)) = dict_values (lg_fills (en_ledger s)) @ [f]
    \<and> fe_quantity f = dec_round (lc_filled_quantity (eo_lifecycle (er_order res)))
    \<and> key_of E (eo_intent (er_order res)) = Inr (fe_position_key f)
    \<and> fe_action f = oi_action (eo_intent (er_order res))"
proof -
  from engine_submit_Inr [OF assms(1)] obtain s1 s2 where
    p: "record_result E res None ''INTENT_EXECUTED'' None s1 = (Inr (), s2)"
      "en_ledger s1 = en_ledger s" "en_ledger t = en_ledger s2" by blast
  then obtain f M where f: "names_fill E (er_order res) None d f" "record_fill f (en_ledger s) = (Inr (), M)"
      "lg_fills (en_ledger t) = lg_fills M"
    using record_result_books [OF p(1)] assms(2) by (auto simp: booked_def)
  have new: "dict_get (lg_fills (en_ledger s)) (fill_key_of f) = None"
    using f(1) assms(3) by (simp add: names_fill_def fill_key_of_def)
  have "d = dec_round (lc_filled_quantity (eo_lifecycle (er_order res)))"
    using assms(2) by (auto simp: fill_due_def filled_before_def dec_sub_def Let_def split: if_splits)
  then show ?thesis using f new dict_values_put_new [OF new]
    by (auto simp: names_fill_def record_fill_def split: sum.splits)
qed

theorem replay_books_again_witness:
  "\<exists>res t f. engine_submit (demo_engine lost_ports deaf_publisher) demo_intent filled_engine = (Inr res, t)
    \<and> er_idempotent_replay res \<and> pp_quantity (position (en_ledger filled_engine) booked_key) = 2
    \<and> dict_values (lg_fills (en_ledger t)) = dict_values (lg_fills (en_ledger filled_engine)) @ [f]
    \<and> fe_quantity f = 2 \<and> fe_position_key f = booked_key \<and> fe_action f = OPEN"
proof -
  let ?E = "demo_engine lost_ports deaf_publisher"
  note order = replayed_order
  obtain t where t: "record_result ?E replayed_result None ''INTENT_EXECUTED'' None filled_later = (Inr (), t)"
    using replay_recorded by blast
  have "filled_engine\<lparr>en_core := (en_core filled_engine)\<lparr>sv_world := sv_world (en_core filled_engine) + 1\<rparr>\<rparr>
      = filled_later"
    by (simp add: filled_later_def filled_engine_def demo_start_def new_service_def)
  then have run: "engine_submit ?E demo_intent filled_engine = (Inr replayed_result, t)"
    unfolding demo_submit by (simp add: py_bind_eq replay_core t)
  have due: "fill_due None (er_order replayed_result) = Some 2"
    by (simp add: order fill_due_def filled_before_def filled_fields dec_sub_def)
  have "trade_name ?E (er_order replayed_result) None = ''hash''"
    by (simp add: order trade_name_def demo_selectors demo_texts Let_def)
  with replay_books_again [OF run due] filled_key obtain f where
    "dict_values (lg_fills (en_ledger t)) = dict_values (lg_fills (en_ledger filled_engine)) @ [f]"
    "fe_quantity f = 2" "key_of ?E demo_intent = Inr (fe_position_key f)" "fe_action f = OPEN"
    by (auto simp: order filled_fields demo_fields)
  then show ?thesis using run order(2) filled_position by (auto simp: demo_key_of)
qed

text \<open>recording an outcome stores its outbox event before it is offered to the publisher, whatever the
  publisher does: afterwards the event is in the ledger with one attempt, marked published exactly
  when the publisher took it, so an outage leaves it to the outbox dispatcher; no other event of the
  outbox changes, and the ledger holds the order.\<close>

theorem outage_keeps_event:
  assumes "record_result E result previous event_type snapshot s = (Inr u, t)"
  shows "\<exists>fill uid out now w. fill_matches E previous (er_order result) snapshot fill
    \<and> outcome_event E (er_order result) fill uid = Inr out
    \<and> dict_get (lg_outbox (en_ledger t)) (uuid_str uid) = Some (out\<lparr>ob_published_at :=
        (case fst (ep_publish E out w) of Inl _ \<Rightarrow> None | Inr _ \<Rightarrow> Some now), ob_attempts := 1\<rparr>)
    \<and> (\<forall>k. k \<noteq> uuid_str uid \<longrightarrow>
        dict_get (lg_outbox (en_ledger t)) k = dict_get (lg_outbox (en_ledger s)) k)
    \<and> ledger_order (en_ledger t) (strip (eo_client_order_id (er_order result))) = Some (er_order result)"
proof -
  from record_result_Inr [OF assms] obtain fill uid out payload now w L where
    p: "fill_matches E previous (er_order result) snapshot fill"
      "outcome_event E (er_order result) fill uid = Inr out"
      "record_event now (eo_client_order_id (er_order result)) (er_order result) event_type fill
        (Some out) (Some payload) (en_ledger s) = (Inr (), L)" "delivered E out w L (en_ledger t)" by blast
  have out: "ob_event_id out = uid" "ob_attempts out = 0" "ob_published_at out = None"
    using outcome_event_Inr [OF p(2)] by simp_all
  have L: "lg_outbox L = dict_put (uuid_str uid) out (lg_outbox (en_ledger s))"
    "ledger_order L (strip (eo_client_order_id (er_order result))) = Some (er_order result)"
    using record_event_stores [OF p(3)] out by simp_all
  from p(4) obtain e t1 where e: "dict_get (lg_outbox L) (uuid_str uid) = Some e"
    "en_ledger t = L\<lparr>lg_outbox := dict_put (uuid_str uid) (e\<lparr>ob_published_at :=
        (case fst (ep_publish E out w) of Inl _ \<Rightarrow> ob_published_at e | Inr _ \<Rightarrow> Some t1),
        ob_attempts := ob_attempts e + 1\<rparr>) (lg_outbox L)\<rparr>"
    unfolding delivered_def out by blast
  moreover have "e = out" using e(1) L(1) by (simp add: dict_get_put)
  ultimately have "en_ledger t = L\<lparr>lg_outbox := dict_put (uuid_str uid) (out\<lparr>ob_published_at :=
        (case fst (ep_publish E out w) of Inl _ \<Rightarrow> None | Inr _ \<Rightarrow> Some t1), ob_attempts := 1\<rparr>) (lg_outbox L)\<rparr>"
    using out by (simp split: sum.split)
  then have "dict_get (lg_outbox (en_ledger t)) (uuid_str uid) = Some (out\<lparr>ob_published_at :=
        (case fst (ep_publish E out w) of Inl _ \<Rightarrow> None | Inr _ \<Rightarrow> Some t1), ob_attempts := 1\<rparr>)"
    "\<forall>k. k \<noteq> uuid_str uid \<longrightarrow> dict_get (lg_outbox (en_ledger t)) k = dict_get (lg_outbox (en_ledger s)) k"
    "ledger_order (en_ledger t) (strip (eo_client_order_id (er_order result))) = Some (er_order result)"
    using L by (simp_all add: dict_get_put ledger_order_def)
  then show ?thesis using p(1,2) by blast
qed

theorem outage_keeps_event_witness:
  "\<exists>t uid out. record_result (demo_engine lost_ports deaf_publisher) replayed_result None
      ''INTENT_EXECUTED'' None filled_later = (Inr (), t)
    \<and> dict_get (lg_outbox (en_ledger t)) (uuid_str uid)
        = Some (out\<lparr>ob_published_at := None, ob_attempts := 1\<rparr>)"
proof -
  let ?E = "demo_engine lost_ports deaf_publisher"
  obtain t where t: "record_result ?E replayed_result None ''INTENT_EXECUTED'' None filled_later = (Inr (), t)"
    using replay_recorded by blast
  have deaf: "fst (ep_publish ?E out w) = Inl (Exn TimeoutError ''offline'')" for out w
    by (simp add: demo_selectors deaf_publisher_def)
  from outage_keeps_event [OF t] show ?thesis unfolding deaf using t by auto
qed

end
