(* ===== verification/Hedge_Symbols.thy ===== *)
theory Hedge_Symbols
  imports Contract_Types
begin

text \<open>
  Market symbols of the hedge modules, \<open>freqtrade/hedge/exchange/symbol_codec.py\<close> and
  \<open>freqtrade/hedge/symbols.py\<close>: between the exchange's form (\<open>ETHUSDT\<close>) and the canonical
  pair (\<open>ETH/USDT:USDT\<close>). Characters are those of Latin-1; error messages leave out the quoted
  value. The lemmas show that canonicalisation is idempotent and loses nothing that the exchange's
  form tells apart.
\<close>

section \<open>The codec\<close>

text \<open>\<open>str.isalnum\<close> of one character.\<close>

definition py_isalnum :: "char \<Rightarrow> bool" where
  "py_isalnum c \<longleftrightarrow> is_alnum c \<or> (let n = of_char c :: nat in
     n \<in> {170, 178, 179, 181, 185, 186, 188, 189, 190} \<or> (192 \<le> n \<and> n \<noteq> 215 \<and> n \<noteq> 247))"

record binance_symbol =
  bs_canonical :: string
  bs_exchange :: string
  bs_base :: string
  bs_quote :: string
  bs_settle :: string

definition clean_token :: "string \<Rightarrow> string \<Rightarrow> string res" where
  "clean_token field v = (let token = upper (strip v) in
     if token = [] \<or> \<not> list_all py_isalnum token
     then Inl (Exn ValueError (field @ '' must be a nonempty alphanumeric token'')) else Inr token)"

definition exchange_form :: "string \<Rightarrow> bool" where
  \<comment> \<open>\<open>_SYMBOL_RE\<close>\<close>
  "exchange_form s \<longleftrightarrow> 3 \<le> length s \<and> length s \<le> 30
     \<and> list_all (\<lambda>c. is_upper_ascii c \<or> is_digit_ascii c) s"

definition parse_canonical_pair :: "string \<Rightarrow> binance_symbol res" where
  "parse_canonical_pair v = (let raw = upper (strip v) in
     if raw = [] then Inl (Exn ValueError ''symbol must not be empty'')
     else if CHR ''/'' \<notin> set raw
     then (if \<not> exchange_form raw then Inl (Exn ValueError ''invalid Binance exchange symbol'')
       else Inr \<lparr>bs_canonical = raw, bs_exchange = raw, bs_base = [], bs_quote = [], bs_settle = []\<rparr>)
     else case str_partition (CHR '':'') raw of (market, settle_value) \<Rightarrow>
     case str_partition (CHR ''/'') market of (base_value, quote_value) \<Rightarrow>
     if CHR ''/'' \<notin> set market \<or> base_value = [] \<or> quote_value = []
     then Inl (Exn ValueError ''invalid canonical futures pair'') else
     res_bind (clean_token ''base'' base_value) (\<lambda>base.
     res_bind (clean_token ''quote'' quote_value) (\<lambda>quote.
     res_bind (clean_token ''settle'' (if CHR '':'' \<in> set raw then settle_value else quote)) (\<lambda>settle.
     if settle \<noteq> quote
     then Inl (Exn ValueError ''Binance USD-M canonical pair must settle in the quote asset'')
     else Inr \<lparr>bs_canonical = base @ ''/'' @ quote @ '':'' @ settle, bs_exchange = base @ quote,
       bs_base = base, bs_quote = quote, bs_settle = settle\<rparr>))))"

definition to_binance_symbol :: "string \<Rightarrow> string res" where
  "to_binance_symbol v = res_bind (parse_canonical_pair v) (\<lambda>s. Inr (bs_exchange s))"

definition QUOTE_ASSETS :: "string list" where
  \<comment> \<open>the default of \<open>quote_assets\<close>\<close>
  "QUOTE_ASSETS = [''USDT'', ''USDC'', ''FDUSD'', ''BUSD'']"

fun infer_quote :: "string \<Rightarrow> string list \<Rightarrow> string res" where
  \<comment> \<open>the loop of \<open>to_canonical_pair\<close>\<close>
  "infer_quote symbol [] = Inl (Exn ValueError ''cannot infer quote asset for Binance exchange symbol'')"
| "infer_quote symbol (quote # quotes) = res_bind (clean_token ''quote_asset'' quote) (\<lambda>normalized_quote.
     if endswith symbol normalized_quote \<and> length symbol > length normalized_quote
     then Inr (take (length symbol - length normalized_quote) symbol @ ''/'' @ normalized_quote @ '':''
       @ normalized_quote)
     else infer_quote symbol quotes)"

definition to_canonical_pair :: "string \<Rightarrow> string list \<Rightarrow> string res" where
  "to_canonical_pair exchange_symbol quote_assets =
     res_bind (clean_token ''exchange_symbol'' exchange_symbol) (\<lambda>symbol.
     infer_quote symbol (rev (sort_key length (rev quote_assets))))"

fun binance_symbols :: "string list \<Rightarrow> string list res" where
  "binance_symbols [] = Inr []"
| "binance_symbols (v # vs) = res_bind (to_binance_symbol v) (\<lambda>s.
     res_bind (binance_symbols vs) (\<lambda>ss. Inr (s # ss)))"

definition normalize_exchange_symbols :: "string list \<Rightarrow> string list res" where
  "normalize_exchange_symbols vs = res_bind (binance_symbols vs) (\<lambda>normalized.
     if normalized = [] then Inl (Exn ValueError ''symbols must not be empty'')
     else Inr (sort (remdups normalized)))"

section \<open>Symbols of the hedge modules\<close>

definition normalize_unified_symbol :: "string \<Rightarrow> string res" where
  "normalize_unified_symbol v =
     (if strip v = [] then Inl (Exn HedgeDataError ''symbol must be a non-empty string.'') else
      let normalized = filter (\<lambda>c. c \<noteq> CHR '' '') (upper (strip v)) in
      if CHR ''/'' \<notin> set normalized then Inr normalized else
      case str_partition (CHR '':'') normalized of (pair, settle) \<Rightarrow>
      case str_partition (CHR ''/'') pair of (base, quote) \<Rightarrow>
      if CHR ''/'' \<notin> set pair \<or> base = [] \<or> quote = []
      then Inl (Exn HedgeDataError ''invalid unified symbol'')
      else if CHR '':'' \<in> set normalized then Inr (base @ ''/'' @ quote @ '':'' @ settle)
      else Inr (base @ ''/'' @ quote))"

definition unsupported :: "'a res \<Rightarrow> 'a res" where
  \<comment> \<open>\<open>except ValueError as exc: raise HedgeDataError(...)\<close>\<close>
  "unsupported r = (case r of
     Inl e \<Rightarrow> if is_a e ValueError then Inl (Exn HedgeDataError ''Unsupported hedge symbol'') else Inl e
   | Inr x \<Rightarrow> Inr x)"

definition canonicalize_symbol :: "string \<Rightarrow> string res" where
  \<comment> \<open>\<open>canonicalize_symbol(value)\<close>\<close>
  "canonicalize_symbol v =
     (if strip v = [] then Inl (Exn HedgeDataError ''symbol must be a non-empty string.'') else
      res_bind (normalize_unified_symbol v) (\<lambda>raw.
      if raw = ''UNKNOWN'' then Inr raw
      else if CHR ''/'' \<in> set raw
      then unsupported (res_bind (to_binance_symbol raw) (\<lambda>s. to_canonical_pair s QUOTE_ASSETS))
      else unsupported (to_canonical_pair raw QUOTE_ASSETS)))"

definition hedge_raw_symbol :: "string \<Rightarrow> string res" where
  "hedge_raw_symbol v =
     (if strip v = [] then Inl (Exn HedgeDataError ''symbol must be a non-empty string.'')
      else unsupported (res_bind (canonicalize_symbol v) to_binance_symbol))"

definition canonicalize_managed :: "string \<Rightarrow> string \<Rightarrow> string res" where
  \<comment> \<open>\<open>canonicalize_symbol(value, managed_pair=...)\<close>\<close>
  "canonicalize_managed v managed_pair = res_bind (canonicalize_symbol v) (\<lambda>canonical.
     if canonical = ''UNKNOWN'' then Inr canonical else
     res_bind (canonicalize_symbol managed_pair) (\<lambda>managed.
     res_bind (hedge_raw_symbol canonical) (\<lambda>a.
     res_bind (hedge_raw_symbol managed) (\<lambda>b. Inr (if a = b then managed else canonical)))))"

definition symbols_equivalent :: "string \<Rightarrow> string \<Rightarrow> bool res" where
  "symbols_equivalent l r = res_bind (hedge_raw_symbol l) (\<lambda>a.
     res_bind (hedge_raw_symbol r) (\<lambda>b. Inr (a = b)))"

text \<open>A side given as itself or as text; \<open>BOTH\<close>, in either form, is the text. The caller's
  exception for it is \<open>both\<close>.\<close>

definition hedge_side :: "exn \<Rightarrow> position_side + string \<Rightarrow> position_side res" where
  "hedge_side both v = (case v of
     Inl s \<Rightarrow> Inr s
   | Inr t \<Rightarrow> if upper t = ''LONG'' then Inr LONG else if upper t = ''SHORT'' then Inr SHORT
       else if upper t = ''BOTH'' then Inl both
       else Inl (Exn ValueError (upper t @ '' is not a valid PositionSide'')))"

section \<open>Tokens\<close>

lemma upper_char_fixed: "x \<in> set (upper_char c) \<Longrightarrow> upper_char x = [x]"
proof -
  assume x: "x \<in> set (upper_char c)"
  define n where "n = (of_char c :: nat)"
  consider "97 \<le> n" "n \<le> 122" "x = char_of (n - 32)" | "n = 223" "x = CHR ''S''"
    | "224 \<le> n" "n \<le> 254" "n \<noteq> 247" "x = char_of (n - 32)"
    | "\<not> (97 \<le> n \<and> n \<le> 122)" "n \<noteq> 223" "\<not> (224 \<le> n \<and> n \<le> 254 \<and> n \<noteq> 247)" "x = c"
    using x unfolding upper_char_def Let_def n_def [symmetric] by (auto split: if_splits)
  then show ?thesis
    by cases (auto simp: upper_char_def Let_def n_def of_char_of)
qed

definition tok :: "string \<Rightarrow> bool" where
  \<comment> \<open>what a cleaned token is\<close>
  "tok s \<longleftrightarrow> s \<noteq> [] \<and> (\<forall>c \<in> set s. py_isalnum c \<and> upper_char c = [c])"

lemma alnum_plain: "py_isalnum c \<Longrightarrow> \<not> py_space c \<and> c \<noteq> CHR ''/'' \<and> c \<noteq> CHR '':'' \<and> c \<noteq> CHR '' ''"
  unfolding char_code [of c]
  by (auto simp: py_isalnum_def is_alnum_def is_upper_ascii_def is_lower_ascii_def is_digit_ascii_def
      py_space_def Let_def)

lemma upper_fixed: "(\<And>c. c \<in> set s \<Longrightarrow> upper_char c = [c]) \<Longrightarrow> upper s = s"
  by (induction s) (auto simp: upper_def)

lemma tok_upper: "tok s \<Longrightarrow> upper s = s"
  by (rule upper_fixed) (simp add: tok_def)

lemma tok_strip: "tok s \<Longrightarrow> strip s = s"
  by (rule strip_id) (auto simp: tok_def alnum_plain)

lemma clean_token_Inr: "clean_token f v = Inr t \<longleftrightarrow> t = upper (strip v) \<and> tok t"
  by (auto simp: clean_token_def Let_def tok_def list_all_iff upper_set upper_char_fixed split: if_splits)

lemma clean_token_id: "tok t \<Longrightarrow> clean_token f t = Inr t"
  by (simp add: clean_token_Inr tok_upper tok_strip)

section \<open>Canonical pairs\<close>

definition pair_of :: "string \<Rightarrow> string \<Rightarrow> string" where
  "pair_of base quote = base @ ''/'' @ quote @ '':'' @ quote"

lemma pair_chars: "tok b \<Longrightarrow> tok q \<Longrightarrow> c \<in> set (pair_of b q) \<Longrightarrow> \<not> py_space c \<and> c \<noteq> CHR '' '' \<and> upper_char c = [c]"
  using alnum_plain by (auto simp: pair_of_def tok_def upper_char_def py_space_def Let_def)

lemma pair_texts:
  assumes "tok b" and "tok q"
  shows "strip (pair_of b q) = pair_of b q" and "upper (pair_of b q) = pair_of b q"
    and "filter (\<lambda>c. c \<noteq> CHR '' '') (pair_of b q) = pair_of b q"
    and "str_partition (CHR '':'') (pair_of b q) = (b @ ''/'' @ q, q)"
    and "str_partition (CHR ''/'') (b @ CHR ''/'' # q) = (b, q)" and "pair_of b q \<noteq> []"
proof -
  show ne: "pair_of b q \<noteq> []" by (simp add: pair_of_def)
  show "strip (pair_of b q) = pair_of b q"
    by (rule strip_id) (use pair_chars [OF assms] ne hd_in_set last_in_set in blast)+
  show "upper (pair_of b q) = pair_of b q" by (rule upper_fixed) (simp add: pair_chars [OF assms])
  show "filter (\<lambda>c. c \<noteq> CHR '' '') (pair_of b q) = pair_of b q"
    by (rule filter_True) (use pair_chars [OF assms] in blast)
  have s: "CHR '':'' \<notin> set (b @ ''/'' @ q)" "CHR ''/'' \<notin> set b"
    using assms alnum_plain by (auto simp: tok_def)
  show "str_partition (CHR '':'') (pair_of b q) = (b @ ''/'' @ q, q)"
    using str_partition_app [OF s(1), of q] by (simp add: pair_of_def)
  show "str_partition (CHR ''/'') (b @ CHR ''/'' # q) = (b, q)"
    by (rule str_partition_app [OF s(2)])
qed

lemma parse_pair:
  assumes "tok b" and "tok q"
  shows "to_binance_symbol (pair_of b q) = Inr (b @ q)"
proof -
  have "CHR ''/'' \<in> set (pair_of b q)" "CHR '':'' \<in> set (pair_of b q)" by (auto simp: pair_of_def)
  moreover have "b \<noteq> []" "q \<noteq> []" using assms by (auto simp: tok_def)
  ultimately show ?thesis
    by (simp add: to_binance_symbol_def parse_canonical_pair_def Let_def pair_texts [OF assms]
        clean_token_id assms)
qed

lemma unify_pair:
  assumes "tok b" and "tok q"
  shows "normalize_unified_symbol (pair_of b q) = Inr (pair_of b q)"
proof -
  have "CHR ''/'' \<in> set (pair_of b q)" "CHR '':'' \<in> set (pair_of b q)" by (auto simp: pair_of_def)
  moreover have "b \<noteq> []" "q \<noteq> []" using assms by (auto simp: tok_def)
  ultimately show ?thesis
    by (simp add: normalize_unified_symbol_def Let_def pair_texts [OF assms])
       (simp add: pair_of_def)
qed

section \<open>Inferring the quote\<close>

lemma quotes_sorted: "rev (sort_key length (rev QUOTE_ASSETS)) = [''FDUSD'', ''USDT'', ''USDC'', ''BUSD'']"
  by (simp add: QUOTE_ASSETS_def)

lemma infer_quote_Inr:
  assumes "infer_quote s qs = Inr c" and "\<forall>q \<in> set qs. tok q"
  shows "\<exists>b q. q \<in> set qs \<and> s = b @ q \<and> b \<noteq> [] \<and> c = pair_of b q"
  using assms
proof (induction qs)
  case (Cons q qs)
  show ?case
  proof (cases "endswith s q \<and> length s > length q")
    case True
    then have "s = take (length s - length q) s @ q" by (metis append_take_drop_id endswith_def)
    moreover have "take (length s - length q) s \<noteq> []" using True by auto
    moreover have "c = pair_of (take (length s - length q) s) q"
      using Cons.prems True by (simp add: clean_token_id pair_of_def)
    ultimately show ?thesis by (metis list.set_intros(1))
  next
    case False
    then have "infer_quote s qs = Inr c" using Cons.prems by (auto simp: clean_token_id)
    then show ?thesis using Cons by auto
  qed
qed simp

lemma to_canonical_Inr:
  assumes "to_canonical_pair v QUOTE_ASSETS = Inr c"
  shows "\<exists>b q. tok b \<and> tok q \<and> c = pair_of b q \<and> upper (strip v) = b @ q \<and> q \<in> set QUOTE_ASSETS"
proof -
  obtain s where s: "s = upper (strip v)" "tok s" "infer_quote s [''FDUSD'', ''USDT'', ''USDC'', ''BUSD''] = Inr c"
    using assms by (auto simp: to_canonical_pair_def res_splits clean_token_Inr quotes_sorted)
  have "\<forall>q \<in> set [''FDUSD'', ''USDT'', ''USDC'', ''BUSD'']. tok q" by code_simp
  from infer_quote_Inr [OF s(3) this] obtain b q where
    "q \<in> set [''FDUSD'', ''USDT'', ''USDC'', ''BUSD'']" "s = b @ q" "b \<noteq> []" "c = pair_of b q" by blast
  moreover from this have "tok b" "tok q" using s(2) by (auto simp: tok_def)
  ultimately show ?thesis using s(1) by (auto simp: QUOTE_ASSETS_def)
qed

lemma to_canonical_again:
  assumes "to_canonical_pair v QUOTE_ASSETS = Inr (pair_of b q)" and "upper (strip v) = b @ q"
    and "tok b" and "tok q"
  shows "to_canonical_pair (b @ q) QUOTE_ASSETS = Inr (pair_of b q)"
proof -
  have "tok (b @ q)" using assms(3,4) by (auto simp: tok_def)
  then have "clean_token ''exchange_symbol'' (b @ q) = clean_token ''exchange_symbol'' v"
    using assms(2) by (simp add: clean_token_id clean_token_Inr [THEN iffD2])
  then show ?thesis using assms(1) by (simp add: to_canonical_pair_def)
qed

lemma canonicalize_Inr:
  assumes "canonicalize_symbol v = Inr c" and "c \<noteq> ''UNKNOWN''"
  shows "\<exists>b q. tok b \<and> tok q \<and> q \<in> set QUOTE_ASSETS \<and> c = pair_of b q
    \<and> to_canonical_pair (b @ q) QUOTE_ASSETS = Inr c"
proof -
  obtain w where w: "to_canonical_pair w QUOTE_ASSETS = Inr c"
    using assms by (auto simp: canonicalize_symbol_def unsupported_def res_splits split: if_splits sum.splits)
  from to_canonical_Inr [OF w] obtain b q where
    "tok b" "tok q" "c = pair_of b q" "upper (strip w) = b @ q" "q \<in> set QUOTE_ASSETS" by blast
  then show ?thesis using to_canonical_again w by blast
qed

lemma canonicalize_again:
  assumes "canonicalize_symbol v = Inr c"
  shows "canonicalize_symbol c = Inr c"
proof (cases "c = ''UNKNOWN''")
  case True
  have "canonicalize_symbol ''UNKNOWN'' = Inr ''UNKNOWN''" by code_simp
  then show ?thesis using True by simp
next
  case False
  from canonicalize_Inr [OF assms False] obtain b q where
    p: "tok b" "tok q" "c = pair_of b q" "to_canonical_pair (b @ q) QUOTE_ASSETS = Inr c" by blast
  have "CHR ''/'' \<in> set c" by (simp add: p(3) pair_of_def)
  then show ?thesis using False p(4) unfolding p(3)
    by (simp add: canonicalize_symbol_def pair_texts [OF p(1,2)] unify_pair [OF p(1,2)] parse_pair [OF p(1,2)]
        unsupported_def)
qed

section \<open>Properties\<close>

lemma quote_tok: "q \<in> set QUOTE_ASSETS \<Longrightarrow> tok q"
proof -
  have "list_all tok QUOTE_ASSETS" by code_simp
  then show "q \<in> set QUOTE_ASSETS \<Longrightarrow> tok q" by (auto simp: list_all_iff)
qed

lemma endswith_append: "length q = length s \<Longrightarrow> endswith (b @ q) s \<longleftrightarrow> q = s"
  by (auto simp: endswith_def)

lemma infer_supported:
  assumes "b \<noteq> []" and "q \<in> set QUOTE_ASSETS"
  shows "infer_quote (b @ q) [''FDUSD'', ''USDT'', ''USDC'', ''BUSD''] = Inr (pair_of b q)"
proof -
  have c: "clean_token f ''FDUSD'' = Inr ''FDUSD''" "clean_token f ''USDT'' = Inr ''USDT''"
    "clean_token f ''USDC'' = Inr ''USDC''" "clean_token f ''BUSD'' = Inr ''BUSD''" for f
    using quote_tok by (auto simp: clean_token_id QUOTE_ASSETS_def)
  obtain b' x where b: "b = b' @ [x]" using assms(1) by (cases b rule: rev_cases) auto
  have "q = ''FDUSD'' \<or> \<not> endswith (b @ q) ''FDUSD''"
    using assms(2) endswith_append [of "[x] @ q" "''FDUSD''" b'] by (auto simp: b QUOTE_ASSETS_def)
  then show ?thesis
    using assms c endswith_append [of q "''USDT''" b] endswith_append [of q "''USDC''" b]
      endswith_append [of q "''BUSD''" b] endswith_append [of q "''FDUSD''" b]
    by (auto simp: QUOTE_ASSETS_def pair_of_def)
qed



text \<open>A pair with a quote that is not supported is not refused when base and quote together end in a supported
  one: the exchange symbol forgets where the base ended, and reading it back moves letters of the base
  into the quote.
\<close>

theorem foreign_quote_is_reread:
  "canonicalize_symbol ''ETHFD/USD:USD'' = Inr ''ETH/FDUSD:FDUSD''"
  by code_simp

end
