(* ===== verification/Lock_Order.thy ===== *)
theory Lock_Order
  imports Hedge_Symbols
begin

text \<open>
  The lock hierarchy, \<open>freqtrade/hedge/concurrency/lock_order.py\<close> and \<open>hierarchy.py\<close>: keys
  ordered Account, Position, Order, the tracker that refuses an acquisition against the order, and the
  two lock managers. A thread (or task) asks for a lock, waits, is granted it or times out, and leaves
  its innermost lock; any number of threads interleave. A timeout may happen at any moment, so no
  clock is modelled. The lemmas show that acquisitions that respect the order never wait in a circle.
\<close>

section \<open>Keys\<close>

datatype lock_key =
    Account_Lock string string
  | Position_Lock string string string position_side
  | Order_Lock string string string position_side string

definition lock_account :: "string \<Rightarrow> string res" where
  "lock_account v = (if strip v = [] then Inl (Exn ValueError ''account_id must not be empty.'')
     else Inr (strip v))"

definition lock_exchange :: "string \<Rightarrow> string res" where
  "lock_exchange v = (if strip v = [] then Inl (Exn ValueError ''exchange must not be empty.'')
     else Inr (lower (strip v)))"

definition lock_side :: "position_side + string \<Rightarrow> position_side res" where
  "lock_side v = hedge_side (Exn ValueError ''Position lock side must be LONG or SHORT.'') v"

definition mk_account_lock :: "string \<Rightarrow> string \<Rightarrow> lock_key res" where
  "mk_account_lock account_id exchange =
     res_bind (lock_account account_id) (\<lambda>a. res_bind (lock_exchange exchange) (\<lambda>x.
     Inr (Account_Lock x a)))"

definition mk_position_lock :: "string \<Rightarrow> string \<Rightarrow> position_side + string \<Rightarrow> string \<Rightarrow> lock_key res" where
  "mk_position_lock account_id symbol position_side exchange =
     res_bind (lock_side position_side) (\<lambda>sd. res_bind (lock_account account_id) (\<lambda>a.
     res_bind (lock_exchange exchange) (\<lambda>x. res_bind (canonicalize_symbol symbol) (\<lambda>s.
     Inr (Position_Lock x a s sd)))))"

definition mk_order_lock :: "string \<Rightarrow> string \<Rightarrow> position_side + string \<Rightarrow> string \<Rightarrow> string \<Rightarrow> lock_key res" where
  "mk_order_lock account_id symbol position_side order_id exchange =
     res_bind (mk_position_lock account_id symbol position_side exchange) (\<lambda>p.
     if strip order_id = [] then Inl (Exn ValueError ''order_id must not be empty.'') else
     case p of Position_Lock x a s sd \<Rightarrow> Inr (Order_Lock x a s sd (strip order_id)) | _ \<Rightarrow> Inr p)"

text \<open>The sort key: the level, the exchange, the account, then symbol, side and order id where the level
  has them.\<close>

definition side_rank :: "position_side \<Rightarrow> nat" where
  "side_rank sd = (case sd of LONG \<Rightarrow> 0 | SHORT \<Rightarrow> 1)"

fun key_rank :: "lock_key \<Rightarrow> nat \<times> string \<times> string \<times> string \<times> nat \<times> string" where
  "key_rank (Account_Lock x a) = (10, x, a, [], 0, [])"
| "key_rank (Position_Lock x a s sd) = (20, x, a, s, side_rank sd, [])"
| "key_rank (Order_Lock x a s sd oid) = (30, x, a, s, side_rank sd, oid)"

lemma side_rank_inj: "side_rank a = side_rank b \<longleftrightarrow> a = b"
  by (cases a; cases b) (simp_all add: side_rank_def)

lemma key_rank_inj: "key_rank a = key_rank b \<longleftrightarrow> a = b"
  by (cases a; cases b) (simp_all add: side_rank_inj)

instantiation lock_key :: linorder
begin

definition less_eq_lock_key :: "lock_key \<Rightarrow> lock_key \<Rightarrow> bool" where
  "a \<le> b \<longleftrightarrow> key_rank a \<le> key_rank b"

definition less_lock_key :: "lock_key \<Rightarrow> lock_key \<Rightarrow> bool" where
  "a < b \<longleftrightarrow> key_rank a < key_rank b"

instance
  by standard (auto simp: less_eq_lock_key_def less_lock_key_def key_rank_inj [symmetric])

end

definition ordered_lock_keys :: "lock_key list \<Rightarrow> lock_key list" where
  "ordered_lock_keys keys = sort (map fst (fold (\<lambda>k d. dict_put k () d) keys []))"

section \<open>The tracker\<close>

definition before_acquire :: "lock_key list \<Rightarrow> lock_key \<Rightarrow> unit res" where
  \<comment> \<open>the stack of a thread holds the innermost lock last\<close>
  "before_acquire stack key = (if stack \<noteq> [] \<and> key \<notin> set stack \<and> key < last stack
     then Inl (Exn LockOrderViolation ''Lock order violation'') else Inr ())"

definition released :: "lock_key \<Rightarrow> lock_key list \<Rightarrow> lock_key list res" where
  "released key stack = (if stack = [] \<or> last stack \<noteq> key
     then Inl (Exn LockOrderViolation ''Locks must be released in reverse order'')
     else Inr (butlast stack))"

text \<open>The check of the asynchronous manager, whose locks are not reentrant.\<close>

definition async_check :: "lock_key list \<Rightarrow> lock_key \<Rightarrow> unit res" where
  "async_check stack key =
     (if key \<in> set stack then Inl (Exn LockOrderViolation ''Async hedge locks are not reentrant'')
      else if stack \<noteq> [] \<and> key < last stack
      then Inl (Exn LockOrderViolation ''Async lock order violation'') else Inr ())"

section \<open>The managers\<close>

record lock_table =
  lt_owner :: "lock_key \<Rightarrow> (nat \<times> nat) option"   \<comment> \<open>thread and depth; absent when free\<close>
  lt_stack :: "nat \<Rightarrow> lock_key list"
  lt_wait :: "nat \<Rightarrow> lock_key option"

definition new_locks :: lock_table where
  "new_locks = \<lparr>lt_owner = (\<lambda>k. None), lt_stack = (\<lambda>i. []), lt_wait = (\<lambda>i. None)\<rparr>"

definition available :: "bool \<Rightarrow> nat \<Rightarrow> (nat \<times> nat) option \<Rightarrow> bool" where
  "available reentrant i owner = (case owner of None \<Rightarrow> True | Some (j, n) \<Rightarrow> reentrant \<and> j = i)"

definition ask :: "(lock_key list \<Rightarrow> lock_key \<Rightarrow> unit res) \<Rightarrow> nat \<Rightarrow> lock_key \<Rightarrow> (lock_table, unit) py" where
  \<comment> \<open>\<open>acquire\<close> up to the wait for the lock\<close>
  "ask check i key s = (case check (lt_stack s i) key of
     Inl e \<Rightarrow> (Inl e, s)
   | Inr _ \<Rightarrow> (Inr (), s\<lparr>lt_wait := (lt_wait s)(i \<mapsto> key)\<rparr>))"

definition grant :: "bool \<Rightarrow> nat \<Rightarrow> lock_table \<Rightarrow> lock_table" where
  \<comment> \<open>the wait ends with the lock, which goes on the stack\<close>
  "grant reentrant i s = (case lt_wait s i of
     None \<Rightarrow> s
   | Some key \<Rightarrow> if available reentrant i (lt_owner s key)
       then s\<lparr>lt_owner := (lt_owner s)(key \<mapsto>
           (i, case lt_owner s key of None \<Rightarrow> 1 | Some (j, n) \<Rightarrow> n + 1)),
         lt_stack := (lt_stack s)(i := lt_stack s i @ [key]), lt_wait := (lt_wait s)(i := None)\<rparr>
       else s)"

definition expire :: "nat \<Rightarrow> (lock_table, unit) py" where
  \<comment> \<open>the wait ends with a timeout\<close>
  "expire i s = (case lt_wait s i of
     None \<Rightarrow> (Inr (), s)
   | Some key \<Rightarrow> (Inl (Exn (Derived ''HierarchicalLockTimeout'' TimeoutError) ''Timed out waiting for lock''),
       s\<lparr>lt_wait := (lt_wait s)(i := None)\<rparr>))"

definition leave :: "nat \<Rightarrow> lock_key \<Rightarrow> (lock_table, unit) py" where
  \<comment> \<open>the end of a \<open>with\<close> block\<close>
  "leave i key s = (case released key (lt_stack s i) of
     Inl e \<Rightarrow> (Inl e, s)
   | Inr stack \<Rightarrow> (Inr (), s\<lparr>lt_stack := (lt_stack s)(i := stack),
       lt_owner := (lt_owner s)(key := (case lt_owner s key of
         None \<Rightarrow> None | Some (j, n) \<Rightarrow> if n \<le> 1 then None else Some (j, n - 1)))\<rparr>))"

text \<open>A block taken with \<open>acquire_many\<close> on a thread that nobody else contends with: what it leaves on
  the stack; a refusal takes back what it had acquired.\<close>

fun take_in_order :: "(lock_key list \<Rightarrow> lock_key \<Rightarrow> unit res) \<Rightarrow> lock_key list \<Rightarrow> lock_key list \<Rightarrow> lock_key list res" where
  "take_in_order check stack [] = Inr stack"
| "take_in_order check stack (key # keys) = res_bind (check stack key) (\<lambda>_.
     take_in_order check (stack @ [key]) keys)"

definition acquire_many :: "(lock_key list \<Rightarrow> lock_key \<Rightarrow> unit res) \<Rightarrow> lock_key list \<Rightarrow>
    (lock_key list, lock_key list) py" where
  "acquire_many check keys stack = (case take_in_order check stack (ordered_lock_keys keys) of
     Inl e \<Rightarrow> (Inl e, stack)
   | Inr taken \<Rightarrow> (Inr (ordered_lock_keys keys), taken))"

section \<open>Runs\<close>

datatype lock_op = Ask nat lock_key | Grant nat | Expire nat | Leave nat

text \<open>A thread that waits does nothing else; a thread leaves its innermost block.\<close>

fun lock_do :: "(lock_key list \<Rightarrow> lock_key \<Rightarrow> unit res) \<Rightarrow> bool \<Rightarrow> lock_op \<Rightarrow> lock_table \<Rightarrow> lock_table" where
  "lock_do check re (Ask i key) s = (if lt_wait s i = None then snd (ask check i key s) else s)"
| "lock_do check re (Grant i) s = grant re i s"
| "lock_do check re (Expire i) s = snd (expire i s)"
| "lock_do check re (Leave i) s = (if lt_wait s i = None \<and> lt_stack s i \<noteq> []
     then snd (leave i (last (lt_stack s i)) s) else s)"

definition lock_run :: "(lock_key list \<Rightarrow> lock_key \<Rightarrow> unit res) \<Rightarrow> bool \<Rightarrow> lock_op list \<Rightarrow> lock_table" where
  "lock_run check re ops = fold (lock_do check re) ops new_locks"

text \<open>Thread \<open>i\<close> waits for a lock that thread \<open>j\<close> holds.\<close>

definition waits_for :: "bool \<Rightarrow> lock_table \<Rightarrow> nat \<Rightarrow> nat \<Rightarrow> bool" where
  "waits_for re s i j \<longleftrightarrow> (\<exists>k n. lt_wait s i = Some k \<and> lt_owner s k = Some (j, n) \<and> \<not> (re \<and> j = i))"

definition circular_wait :: "bool \<Rightarrow> lock_table \<Rightarrow> nat set \<Rightarrow> bool" where
  "circular_wait re s D \<longleftrightarrow> finite D \<and> D \<noteq> {} \<and> (\<forall>i \<in> D. \<exists>j \<in> D. waits_for re s i j)"

section \<open>What keeps waits from closing a circle\<close>

text \<open>The invariant: stacks are ordered, a thread only waits for a lock that does not come before its
  innermost one, and the owners are the holders.\<close>

definition locks_ok :: "bool \<Rightarrow> lock_table \<Rightarrow> bool" where
  "locks_ok re s \<longleftrightarrow> (\<forall>i. sorted (lt_stack s i))
     \<and> (\<forall>i k. lt_wait s i = Some k \<longrightarrow> (\<forall>h \<in> set (lt_stack s i). h \<le> k)
         \<and> (\<not> re \<longrightarrow> k \<notin> set (lt_stack s i)))
     \<and> (\<forall>k j n. lt_owner s k = Some (j, n) \<longrightarrow> 0 < n \<and> count_list (lt_stack s j) k = n)
     \<and> (\<forall>k j. k \<in> set (lt_stack s j) \<longrightarrow> (\<exists>n. lt_owner s k = Some (j, n)))"

lemma new_locks_ok: "locks_ok re new_locks"
  by (simp add: locks_ok_def new_locks_def)

lemma locks_okD:
  assumes "locks_ok re s"
  shows "sorted (lt_stack s i)" and "lt_wait s i = Some k \<Longrightarrow> h \<in> set (lt_stack s i) \<Longrightarrow> h \<le> k"
    and "lt_wait s i = Some k \<Longrightarrow> \<not> re \<Longrightarrow> k \<notin> set (lt_stack s i)"
    and "lt_owner s k = Some (j, n) \<Longrightarrow> 0 < n \<and> count_list (lt_stack s j) k = n"
    and "k \<in> set (lt_stack s j) \<Longrightarrow> \<exists>n. lt_owner s k = Some (j, n)"
  using assms by (auto simp: locks_ok_def)

lemma locks_okI:
  assumes "\<And>i. sorted (lt_stack s i)"
    and "\<And>i k h. lt_wait s i = Some k \<Longrightarrow> h \<in> set (lt_stack s i) \<Longrightarrow> h \<le> k"
    and "\<And>i k. lt_wait s i = Some k \<Longrightarrow> \<not> re \<Longrightarrow> k \<notin> set (lt_stack s i)"
    and "\<And>k j n. lt_owner s k = Some (j, n) \<Longrightarrow> 0 < n \<and> count_list (lt_stack s j) k = n"
    and "\<And>k j. k \<in> set (lt_stack s j) \<Longrightarrow> \<exists>n. lt_owner s k = Some (j, n)"
  shows "locks_ok re s"
  using assms unfolding locks_ok_def by blast

lemma owner_holds:
  assumes "locks_ok re s" and "lt_owner s k = Some (j, n)"
  shows "k \<in> set (lt_stack s j)"
  using locks_okD(4) [OF assms] by (metis count_notin less_irrefl)

lemma last_is_max: "sorted xs \<Longrightarrow> x \<in> set xs \<Longrightarrow> x \<le> last xs"
  by (induction xs) (auto split: if_splits)

lemma count_list_snoc: "count_list (xs @ [y]) x = count_list xs x + (if x = y then 1 else 0)"
  by (induction xs) auto

lemma grant_ok:
  assumes "locks_ok re s"
  shows "locks_ok re (grant re i s)"
proof (cases "lt_wait s i")
  case None
  then show ?thesis using assms by (simp add: grant_def)
next
  case (Some k)
  show ?thesis
  proof (cases "available re i (lt_owner s k)")
    case True
    let ?n = "case lt_owner s k of None \<Rightarrow> 1 | Some (j, n) \<Rightarrow> n + 1"
    have own: "lt_owner s k = None \<or> (\<exists>n. lt_owner s k = Some (i, n))"
      using True by (auto simp: available_def split: option.splits)
    have cnt: "count_list (lt_stack s i) k + 1 = ?n"
    proof (cases "lt_owner s k")
      case None
      then have "k \<notin> set (lt_stack s i)" using locks_okD(5) [OF assms] by fastforce
      then show ?thesis using None by (simp add: count_notin)
    next
      case (Some p)
      then obtain n where "lt_owner s k = Some (i, n)" using own by auto
      then show ?thesis using locks_okD(4) [OF assms] by auto
    qed
    have other: "k \<notin> set (lt_stack s j)" if "j \<noteq> i" for j
      using locks_okD(5) [OF assms, of k j] own that by auto
    have "grant re i s = s\<lparr>lt_owner := (lt_owner s)(k \<mapsto> (i, ?n)),
        lt_stack := (lt_stack s)(i := lt_stack s i @ [k]), lt_wait := (lt_wait s)(i := None)\<rparr>"
      using Some True by (simp add: grant_def)
    then show ?thesis
      using assms Some cnt other locks_okD(2) [OF assms Some] unfolding locks_ok_def
      by (auto simp: sorted_append count_list_snoc)
  qed (use Some assms in \<open>simp add: grant_def\<close>)
qed

lemma expire_ok: "locks_ok re s \<Longrightarrow> locks_ok re (snd (expire i s))"
  by (auto simp: expire_def locks_ok_def split: option.split)

lemma leave_ok:
  assumes "locks_ok re s" and "lt_wait s i = None" and "lt_stack s i \<noteq> []"
  shows "locks_ok re (snd (leave i (last (lt_stack s i)) s))"
proof -
  define k where "k = last (lt_stack s i)"
  define r where "r = butlast (lt_stack s i)"
  have st: "lt_stack s i = r @ [k]" using assms(3) by (simp add: k_def r_def)
  obtain n where n: "lt_owner s k = Some (i, n)" using locks_okD(5) [OF assms(1), of k i] st by auto
  have c: "n = count_list r k + 1" using locks_okD(4) [OF assms(1) n] st by (simp add: count_list_snoc)
  have kr: "k \<in> set r \<longleftrightarrow> 1 < n" using c count_list_0_iff [of r k] by auto
  have other: "k \<notin> set (lt_stack s j)" if "j \<noteq> i" for j
    using locks_okD(5) [OF assms(1), of k j] n that by auto
  let ?t = "s\<lparr>lt_stack := (lt_stack s)(i := r), lt_owner := (lt_owner s)(k :=
      (if n \<le> 1 then None else Some (i, n - 1)))\<rparr>"
  have "snd (leave i k s) = ?t"
    using n st by (simp add: leave_def released_def)
  moreover have "locks_ok re ?t"
  proof (rule locks_okI)
    show "sorted (lt_stack ?t j)" for j
      using locks_okD(1) [OF assms(1), of j] st by (cases "j = i") (auto simp: sorted_append)
    fix j x
    assume w: "lt_wait ?t j = Some x"
    then have "j \<noteq> i" using assms(2) by auto
    then show "\<not> re \<Longrightarrow> x \<notin> set (lt_stack ?t j)" and "h \<in> set (lt_stack ?t j) \<Longrightarrow> h \<le> x" for h
      using locks_okD(2,3) [OF assms(1), of j x] w by auto
  next
    fix x j m
    assume o: "lt_owner ?t x = Some (j, m)"
    show "0 < m \<and> count_list (lt_stack ?t j) x = m"
    proof (cases "x = k")
      case True
      then show ?thesis using o c by (auto split: if_splits)
    next
      case False
      then have "0 < m \<and> count_list (lt_stack s j) x = m" using locks_okD(4) [OF assms(1)] o by simp
      then show ?thesis using st False by (cases "j = i") (auto simp: count_list_snoc)
    qed
  next
    fix x j
    assume x: "x \<in> set (lt_stack ?t j)"
    show "\<exists>m. lt_owner ?t x = Some (j, m)"
    proof (cases "x = k")
      case True
      then have "j = i" using x other by (cases "j = i") auto
      then show ?thesis using x True kr by auto
    next
      case False
      have "x \<in> set (lt_stack s j)" using x st by (cases "j = i") auto
      then show ?thesis using locks_okD(5) [OF assms(1)] False by fastforce
    qed
  qed
  ultimately show ?thesis by (simp add: k_def)
qed

lemma ex_max_if_finite_keys:
  fixes f :: "nat \<Rightarrow> 'a :: linorder"
  assumes "finite D" and "D \<noteq> {}"
  shows "\<exists>i \<in> D. \<forall>j \<in> D. f j \<le> f i"
proof -
  have "Max (f ` D) \<in> f ` D" using assms by simp
  then obtain i where "i \<in> D" "f i = Max (f ` D)" by (metis imageE)
  then show ?thesis using assms(1) by (metis Max_ge finite_imageI imageI)
qed

section \<open>The contract of a check\<close>

locale ordered_locking =
  fixes check :: "lock_key list \<Rightarrow> lock_key \<Rightarrow> unit res" and re :: bool
  assumes in_order: "check stack k = Inr () \<Longrightarrow> stack \<noteq> [] \<Longrightarrow> last stack \<le> k"
    and no_reentry: "check stack k = Inr () \<Longrightarrow> \<not> re \<Longrightarrow> k \<notin> set stack"
begin

lemma ask_ok:
  assumes "locks_ok re s" and "lt_wait s i = None"
  shows "locks_ok re (snd (ask check i k s))"
proof (cases "check (lt_stack s i) k")
  case (Inr u)
  then have c: "check (lt_stack s i) k = Inr ()" by simp
  have "h \<le> k" if "h \<in> set (lt_stack s i)" for h
    using last_is_max [OF locks_okD(1) [OF assms(1)] that] in_order [OF c] that by fastforce
  moreover have "\<not> re \<longrightarrow> k \<notin> set (lt_stack s i)" using no_reentry [OF c] by blast
  ultimately show ?thesis using assms(1) c unfolding locks_ok_def by (simp add: ask_def)
qed (use assms in \<open>simp add: ask_def\<close>)

lemma step_ok: "locks_ok re s \<Longrightarrow> locks_ok re (lock_do check re op s)"
  by (cases op) (auto intro: ask_ok grant_ok expire_ok leave_ok)

lemma locks_run_ok: "locks_ok re (lock_run check re ops)"
proof -
  have "locks_ok re s \<Longrightarrow> locks_ok re (fold (lock_do check re) ops s)" for s
    by (induction ops arbitrary: s) (auto intro: step_ok)
  then show ?thesis by (simp add: lock_run_def new_locks_ok)
qed

lemma no_circle: "\<not> circular_wait re (lock_run check re ops) D"
proof
  let ?s = "lock_run check re ops"
  let ?k = "\<lambda>i. the (lt_wait ?s i)"
  assume c: "circular_wait re ?s D"
  then have D: "finite D" "D \<noteq> {}" by (auto simp: circular_wait_def)
  then obtain i where i: "i \<in> D" "\<forall>j \<in> D. ?k j \<le> ?k i"
    by (meson ex_max_if_finite_keys)
  obtain j n where j: "j \<in> D" "lt_wait ?s i = Some (?k i)" "lt_owner ?s (?k i) = Some (j, n)"
    using c i(1) by (fastforce simp: circular_wait_def waits_for_def)
  obtain j' n' where j': "lt_wait ?s j = Some (?k j)" "lt_owner ?s (?k j) = Some (j', n')" "\<not> (re \<and> j' = j)"
    using c j(1) by (fastforce simp: circular_wait_def waits_for_def)
  have held: "?k i \<in> set (lt_stack ?s j)" by (rule owner_holds [OF locks_run_ok j(3)])
  then have "?k i \<le> ?k j" by (rule locks_okD(2) [OF locks_run_ok j'(1)])
  then have "?k i = ?k j" using i(2) j(1) by (simp add: antisym)
  then show False using held j(3) j'(2,3) locks_okD(3) [OF locks_run_ok j'(1)] by auto
qed

lemma waiters_finite: "finite {i. lt_wait (lock_run check re ops) i \<noteq> None}"
proof -
  have "finite {i. lt_wait (lock_do check re op s) i \<noteq> None}" if "finite {i. lt_wait s i \<noteq> None}" for op s
    by (rule finite_subset [OF _ finite.insertI [OF that, of "case op of Ask j k \<Rightarrow> j | _ \<Rightarrow> 0"]])
       (cases op, auto simp: ask_def grant_def expire_def leave_def split: sum.splits option.splits if_splits)
  then have "finite {i. lt_wait s i \<noteq> None} \<Longrightarrow> finite {i. lt_wait (fold (lock_do check re) ops s) i \<noteq> None}" for s
    by (induction ops arbitrary: s) auto
  then show ?thesis by (simp add: lock_run_def new_locks_def)
qed

lemma someone_moves:
  assumes "lt_wait (lock_run check re ops) i \<noteq> None"
  shows "\<exists>j k. lt_wait (lock_run check re ops) j = Some k \<and>
    (available re j (lt_owner (lock_run check re ops) k) \<or>
     (\<exists>h n. lt_owner (lock_run check re ops) k = Some (h, n) \<and> lt_wait (lock_run check re ops) h = None))"
proof (rule ccontr)
  let ?s = "lock_run check re ops"
  let ?D = "{i. lt_wait ?s i \<noteq> None}"
  let ?moves = "\<exists>j k. lt_wait ?s j = Some k \<and> (available re j (lt_owner ?s k) \<or>
    (\<exists>h n. lt_owner ?s k = Some (h, n) \<and> lt_wait ?s h = None))"
  assume stuck: "\<not> ?moves"
  have "\<exists>h \<in> ?D. waits_for re ?s j h" if "j \<in> ?D" for j
  proof -
    from that obtain k where k: "lt_wait ?s j = Some k" by auto
    with stuck have "\<not> available re j (lt_owner ?s k)" by blast
    then obtain h n where h: "lt_owner ?s k = Some (h, n)" "\<not> (re \<and> h = j)"
      by (auto simp: available_def split: option.splits)
    have "lt_wait ?s h \<noteq> None"
    proof
      assume "lt_wait ?s h = None"
      with k h(1) have ?moves by blast
      with stuck show False ..
    qed
    then have "h \<in> ?D" by simp
    then show ?thesis using k h by (auto simp: waits_for_def)
  qed
  then have "circular_wait re ?s ?D"
    using assms waiters_finite by (auto simp: circular_wait_def)
  then show False using no_circle by blast
qed

end


section \<open>The two managers\<close>

text \<open>The asynchronous check meets the contract as it is.\<close>

interpretation al: ordered_locking async_check False
  by unfold_locales (auto simp: async_check_def not_less split: if_splits)

text \<open>The synchronous one lets a thread take again a lock that it holds, also one below its innermost
  lock; apart from that it meets the contract, and a run in which no such step happens is a run of the
  check without it.\<close>

definition sync_check :: "lock_key list \<Rightarrow> lock_key \<Rightarrow> unit res" where
  "sync_check stack key = (if stack \<noteq> [] \<and> key < last stack
     then Inl (Exn LockOrderViolation ''Lock order violation'') else Inr ())"

interpretation sl: ordered_locking sync_check True
  by unfold_locales (auto simp: sync_check_def not_less split: if_splits)

fun no_descent :: "lock_op list \<Rightarrow> lock_table \<Rightarrow> bool" where
  "no_descent [] s = True"
| "no_descent (op # ops) s = ((case op of
     Ask i k \<Rightarrow> lt_stack s i = [] \<or> k \<notin> set (lt_stack s i) \<or> last (lt_stack s i) \<le> k
   | _ \<Rightarrow> True) \<and> no_descent ops (lock_do before_acquire True op s))"

lemma sync_step:
  assumes "no_descent (op # ops) s"
  shows "lock_do before_acquire True op s = lock_do sync_check True op s"
proof (cases op)
  case (Ask i k)
  then have "before_acquire (lt_stack s i) k = sync_check (lt_stack s i) k"
    using assms by (auto simp: before_acquire_def sync_check_def)
  then show ?thesis by (simp add: Ask ask_def)
qed simp_all

lemma sync_run: "no_descent ops new_locks \<Longrightarrow> lock_run before_acquire True ops = lock_run sync_check True ops"
proof -
  have "no_descent ops s \<Longrightarrow> fold (lock_do before_acquire True) ops s = fold (lock_do sync_check True) ops s" for s
  proof (induction ops arbitrary: s)
    case (Cons op ops)
    show ?case using Cons.IH [of "lock_do before_acquire True op s"] Cons.prems sync_step [OF Cons.prems]
      by simp
  qed simp
  then show "no_descent ops new_locks \<Longrightarrow> ?thesis" by (simp add: lock_run_def)
qed


section \<open>Blocks of several locks\<close>

lemma fromkeys_distinct:
  "distinct (map fst d) \<Longrightarrow> distinct (map fst (fold (\<lambda>k d. dict_put k () d) keys d))"
  by (induction keys arbitrary: d) (auto simp: distinct_update)

lemma fromkeys_set: "set (map fst (fold (\<lambda>k d. dict_put k () d) keys d)) = set keys \<union> set (map fst d)"
proof (induction keys arbitrary: d)
  case (Cons k keys)
  show ?case using Cons [of "dict_put k () d"] by (auto simp: dom_map_of_conv_image_fst [symmetric] update_conv')
qed simp

lemma ordered_keys:
  "sorted (ordered_lock_keys keys)" "distinct (ordered_lock_keys keys)" "set (ordered_lock_keys keys) = set keys"
  using fromkeys_distinct [of "[]" keys] fromkeys_set [of keys "[]"]
  by (simp_all add: ordered_lock_keys_def del: set_map)

lemma take_sorted:
  assumes "\<And>stack k. sorted (stack @ [k]) \<Longrightarrow> distinct (stack @ [k]) \<Longrightarrow> check stack k = Inr ()"
  shows "sorted (stack @ keys) \<Longrightarrow> distinct (stack @ keys) \<Longrightarrow> take_in_order check stack keys = Inr (stack @ keys)"
proof (induction keys arbitrary: stack)
  case (Cons k keys)
  have "check stack k = Inr ()" using Cons.prems by (intro assms) (auto simp: sorted_append)
  then show ?case using Cons.IH [of "stack @ [k]"] Cons.prems by simp
qed simp

section \<open>Properties\<close>

text \<open>The asynchronous lock manager never deadlocks: after any interleaving of acquisitions, grants,
  timeouts and releases by any number of tasks, no set of tasks waits in a circle for locks that its
  members hold.
\<close>

theorem async_locks_never_deadlock:
  "\<not> circular_wait False (lock_run async_check False ops) D"
  by (rule al.no_circle)

text \<open>The asynchronous lock manager always lets someone go on: whenever a task waits, some waiting task's
  lock is free, or it is held by a task that is itself not waiting.
\<close>

theorem async_someone_proceeds:
  assumes "lt_wait (lock_run async_check False ops) i \<noteq> None"
  shows "\<exists>j k. lt_wait (lock_run async_check False ops) j = Some k \<and>
    (lt_owner (lock_run async_check False ops) k = None \<or>
     (\<exists>h n. lt_owner (lock_run async_check False ops) k = Some (h, n) \<and>
       lt_wait (lock_run async_check False ops) h = None))"
proof -
  obtain j k where "lt_wait (lock_run async_check False ops) j = Some k"
    "available False j (lt_owner (lock_run async_check False ops) k) \<or>
     (\<exists>h n. lt_owner (lock_run async_check False ops) k = Some (h, n) \<and>
       lt_wait (lock_run async_check False ops) h = None)"
    using al.someone_moves [OF assms] by blast
  then show ?thesis by (cases "lt_owner (lock_run async_check False ops) k") (auto simp: available_def)
qed

definition demo_account_lock :: lock_key where "demo_account_lock = Account_Lock ''binance'' ''main''"
definition demo_position_lock :: lock_key where
  "demo_position_lock = Position_Lock ''binance'' ''main'' ''ETH/USDT:USDT'' LONG"
definition demo_order_lock :: lock_key where
  "demo_order_lock = Order_Lock ''binance'' ''main'' ''ETH/USDT:USDT'' LONG ''o1''"

theorem async_someone_proceeds_witness:
  "\<exists>j k. lt_wait (lock_run async_check False [Ask 1 demo_account_lock, Grant 1, Ask 2 demo_account_lock]) j = Some k \<and>
    (lt_owner (lock_run async_check False [Ask 1 demo_account_lock, Grant 1, Ask 2 demo_account_lock]) k = None \<or>
     (\<exists>h n. lt_owner (lock_run async_check False [Ask 1 demo_account_lock, Grant 1, Ask 2 demo_account_lock]) k = Some (h, n) \<and>
       lt_wait (lock_run async_check False [Ask 1 demo_account_lock, Grant 1, Ask 2 demo_account_lock]) h = None))"
proof -
  have "lt_wait (lock_run async_check False [Ask 1 demo_account_lock, Grant 1, Ask 2 demo_account_lock]) 2 \<noteq> None"
    by (simp add: lock_run_def new_locks_def ask_def grant_def async_check_def available_def)
  then show ?thesis by (rule async_someone_proceeds)
qed

text \<open>The synchronous lock manager never deadlocks as long as no thread takes a lock it already holds
  while it also holds a later one.
\<close>

theorem sync_locks_without_descent:
  assumes "no_descent ops new_locks"
  shows "\<not> circular_wait True (lock_run before_acquire True ops) D"
  unfolding sync_run [OF assms] by (rule sl.no_circle)

theorem sync_locks_without_descent_witness:
  "\<not> circular_wait True (lock_run before_acquire True
     [Ask 1 demo_account_lock, Grant 1, Ask 2 demo_account_lock, Ask 1 demo_order_lock, Grant 1]) {1, 2}"
proof -
  have "no_descent [Ask 1 demo_account_lock, Grant 1, Ask 2 demo_account_lock, Ask 1 demo_order_lock, Grant 1] new_locks"
    by code_simp
  then show ?thesis by (rule sync_locks_without_descent)
qed

text \<open>The order is not enforced on a thread that takes a lock again: the check compares with the innermost
  entry of the stack only, and a lock taken twice is both outer and innermost. A thread that holds
  Account and Order and takes Account again may then ask for Position, and it and a thread that goes
  from Position to Order wait for each other.
\<close>

theorem reentry_defeats_lock_order:
  "circular_wait True (lock_run before_acquire True
     [Ask 1 demo_account_lock, Grant 1, Ask 1 demo_order_lock, Grant 1, Ask 1 demo_account_lock, Grant 1,
      Ask 2 demo_position_lock, Grant 2, Ask 1 demo_position_lock, Ask 2 demo_order_lock]) {1, 2}"
  (is "circular_wait True ?s _")
proof -
  have "lt_wait ?s 1 = Some demo_position_lock" "lt_owner ?s demo_position_lock = Some (2, 1)"
    "lt_wait ?s 2 = Some demo_order_lock" "lt_owner ?s demo_order_lock = Some (1, 1)"
    by code_simp+
  then show ?thesis by (simp add: circular_wait_def waits_for_def)
qed

text \<open>A block over several locks takes each of them once and in the fixed order, so neither manager ever
  refuses one to a thread that holds none.
\<close>

theorem blocks_take_in_order:
  "acquire_many before_acquire keys [] = (Inr (ordered_lock_keys keys), ordered_lock_keys keys) \<and>
   acquire_many async_check keys [] = (Inr (ordered_lock_keys keys), ordered_lock_keys keys) \<and>
   set (ordered_lock_keys keys) = set keys \<and> sorted_wrt (<) (ordered_lock_keys keys)"
proof -
  have "take_in_order check [] (ordered_lock_keys keys) = Inr (ordered_lock_keys keys)"
    if "\<And>stack k. sorted (stack @ [k]) \<Longrightarrow> distinct (stack @ [k]) \<Longrightarrow> check stack k = Inr ()" for check
    using take_sorted [OF that, where stack = "[]" and keys = "ordered_lock_keys keys"] ordered_keys [of keys] by simp
  moreover have "before_acquire stack k = Inr ()" if "sorted (stack @ [k])" "distinct (stack @ [k])" for stack k
    using that by (cases stack rule: rev_cases) (auto simp: before_acquire_def sorted_append)
  moreover have "async_check stack k = Inr ()" if "sorted (stack @ [k])" "distinct (stack @ [k])" for stack k
    using that by (cases stack rule: rev_cases) (auto simp: async_check_def sorted_append)
  ultimately show ?thesis using ordered_keys [of keys]
    by (simp add: acquire_many_def strict_sorted_iff)
qed

end
