(* ===== verification/Position_Lock.thy ===== *)
theory Position_Lock
  imports Lock_Order
begin

text \<open>
  The position locks of \<open>freqtrade/hedge/concurrency/position_lock.py\<close>: a reentrant lock per
  position, the tracker of the lock hierarchy, and the walk along owners and waiting threads that
  refuses a wait which would close a circle. Threads interleave between the points where the code
  gives up the state lock: after taking a lock a thread has yet to enter itself as its owner. A wait may
  time out at any moment, so no clock is modelled; giving a lock back is one step. The lemmas show
  that the walk decides reachability, and that no circle of waits ever forms.
\<close>

section \<open>The walk\<close>

type_synonym waiting = "(nat, lock_key) dict"

function chase :: "waiting \<Rightarrow> (lock_key \<Rightarrow> nat option) \<Rightarrow> nat \<Rightarrow> nat list \<Rightarrow> nat option \<Rightarrow> bool" where
  \<comment> \<open>the loop of \<open>_would_deadlock\<close>\<close>
  "chase waiting owner waiter visited None = False"
| "chase waiting owner waiter visited (Some current) =
     (if current \<in> set visited then False
      else if current = waiter then True
      else case dict_get waiting current of
        None \<Rightarrow> False
      | Some key \<Rightarrow> chase waiting owner waiter (current # visited) (owner key))"
  by pat_completeness auto
termination
proof (relation "measure (\<lambda>(waiting, owner, waiter, visited, current). card (fst ` set waiting - set visited))")
  fix waiting :: waiting and owner :: "lock_key \<Rightarrow> nat option" and waiter visited current key
  assume a: "current \<notin> set visited" "dict_get waiting current = Some key"
  then have "current \<in> fst ` set waiting - set visited" by (metis DiffI map_of_SomeD fst_conv image_eqI)
  then have "fst ` set waiting - set (current # visited) \<subset> fst ` set waiting - set visited" by auto
  then show "((waiting, owner, waiter, current # visited, owner key), waiting, owner, waiter, visited, Some current)
      \<in> measure (\<lambda>(waiting, owner, waiter, visited, current). card (fst ` set waiting - set visited))"
    by (simp add: psubset_card_mono)
qed simp

definition would_deadlock :: "waiting \<Rightarrow> (lock_key \<Rightarrow> nat option) \<Rightarrow> nat \<Rightarrow> nat option \<Rightarrow> bool" where
  "would_deadlock waiting owner waiter own = chase waiting owner waiter [] own"

text \<open>A thread that waits for a lock leads to the thread entered as its owner.\<close>

definition leads :: "waiting \<Rightarrow> (lock_key \<Rightarrow> nat option) \<Rightarrow> (nat \<times> nat) set" where
  "leads waiting owner = {(t, u). \<exists>k. dict_get waiting t = Some k \<and> owner k = Some u}"

lemma chase_finds: "chase waiting owner w visited cur \<Longrightarrow> \<exists>c. cur = Some c \<and> (c, w) \<in> (leads waiting owner)\<^sup>*"
proof (induction waiting owner w visited cur rule: chase.induct)
  case (2 waiting owner w visited c)
  show ?case
  proof (cases "c = w")
    case False
    with 2(2) obtain k where k: "c \<notin> set visited" "dict_get waiting c = Some k"
      "chase waiting owner w (c # visited) (owner k)" by (auto split: if_splits option.splits)
    from 2(1) [OF k(1) False k(2,3)] obtain u where "owner k = Some u" "(u, w) \<in> (leads waiting owner)\<^sup>*" by blast
    moreover from this(1) k(2) have "(c, u) \<in> leads waiting owner" by (auto simp: leads_def)
    ultimately show ?thesis by (auto intro: converse_rtrancl_into_rtrancl)
  qed simp
qed simp

lemma closed_unreachable:
  assumes "(x, w) \<in> R\<^sup>*" and "x \<in> S" and "\<And>a b. a \<in> S \<Longrightarrow> (a, b) \<in> R \<Longrightarrow> b \<in> S"
  shows "w \<in> S"
  using assms(1,2) by induction (auto intro: assms(3))

lemma chase_misses:
  "\<not> chase waiting owner w visited cur \<Longrightarrow> w \<notin> set visited \<Longrightarrow>
   (\<forall>v \<in> set visited. \<forall>u. (v, u) \<in> leads waiting owner \<longrightarrow> u \<in> set visited \<or> Some u = cur) \<Longrightarrow>
   cur = Some c \<Longrightarrow> (c, w) \<notin> (leads waiting owner)\<^sup>*"
proof (induction waiting owner w visited cur arbitrary: c rule: chase.induct)
  case (2 waiting owner w visited c ca)
  let ?R = "leads waiting owner"
  show ?case
  proof (cases "c \<in> set visited")
    case True
    have "b \<in> set visited" if "a \<in> set visited" "(a, b) \<in> ?R" for a b
      using 2(4) that True by auto
    then have "(c, w) \<in> ?R\<^sup>* \<Longrightarrow> w \<in> set visited"
      using closed_unreachable [of c w ?R "set visited"] True by blast
    then show ?thesis using 2(3,5) by auto
  next
    case False
    with 2(2) have cw: "c \<noteq> w" by auto
    have closed: "\<forall>v \<in> set (c # visited). \<forall>u. (v, u) \<in> ?R \<longrightarrow> u \<in> set (c # visited) \<or> (\<exists>k. dict_get waiting c = Some k \<and> Some u = owner k)"
      using 2(4) by (auto simp: leads_def)
    show ?thesis
    proof (cases "\<exists>k u. dict_get waiting c = Some k \<and> owner k = Some u")
      case True
      then obtain k u where k: "dict_get waiting c = Some k" "owner k = Some u" by blast
      have "\<not> chase waiting owner w (c # visited) (owner k)" using 2(2) False cw k by simp
      then have u: "(u, w) \<notin> ?R\<^sup>*"
        using 2(1) [OF False cw k(1), of u] 2(3) cw closed k by auto
      show ?thesis
      proof
        assume "(ca, w) \<in> ?R\<^sup>*"
        then have "(c, w) \<in> ?R\<^sup>*" using 2(5) by simp
        then obtain y where "(c, y) \<in> ?R" "(y, w) \<in> ?R\<^sup>*" using cw by (meson converse_rtranclE)
        then show False using u k by (auto simp: leads_def)
      qed
    next
      case no: False
      then have "(c, y) \<notin> ?R" for y by (auto simp: leads_def)
      then show ?thesis using cw 2(5) by (metis converse_rtranclE option.inject)
    qed
  qed
qed simp

lemma would_deadlock_iff:
  "would_deadlock waiting owner w own \<longleftrightarrow> (\<exists>c. own = Some c \<and> (c, w) \<in> (leads waiting owner)\<^sup>*)"
proof (cases "would_deadlock waiting owner w own")
  case True
  then show ?thesis using chase_finds [of waiting owner w "[]" own] by (simp add: would_deadlock_def)
next
  case False
  then show ?thesis using chase_misses [of waiting owner w "[]" own] by (auto simp: would_deadlock_def)
qed


section \<open>Locks and threads\<close>

datatype lock_phase =
    Idle
  | Missed lock_key    \<comment> \<open>the lock was not free\<close>
  | Waits lock_key     \<comment> \<open>blocked in \<open>acquire(timeout)\<close>\<close>
  | Granted lock_key   \<comment> \<open>has the lock, still entered as waiting\<close>
  | Taken lock_key     \<comment> \<open>has the lock, not yet entered as its owner\<close>
  | Leaving lock_key   \<comment> \<open>no longer entered, has yet to release the lock\<close>

record pos_locks =
  ps_lock :: "lock_key \<Rightarrow> (nat \<times> nat) option"   \<comment> \<open>the \<open>RLock\<close>: thread and count\<close>
  ps_owner :: "lock_key \<Rightarrow> nat option"
  ps_depth :: "lock_key \<Rightarrow> nat"
  ps_waiting :: waiting
  ps_stack :: "nat \<Rightarrow> lock_key list"
  ps_phase :: "nat \<Rightarrow> lock_phase"

definition new_pos_locks :: pos_locks where
  "new_pos_locks = \<lparr>ps_lock = (\<lambda>k. None), ps_owner = (\<lambda>k. None), ps_depth = (\<lambda>k. 0), ps_waiting = [],
     ps_stack = (\<lambda>i. []), ps_phase = (\<lambda>i. Idle)\<rparr>"

definition rlock_acquired :: "nat \<Rightarrow> (nat \<times> nat) option \<Rightarrow> nat \<times> nat" where
  "rlock_acquired i r = (i, case r of None \<Rightarrow> 1 | Some (j, n) \<Rightarrow> n + 1)"

definition rlock_released :: "(nat \<times> nat) option \<Rightarrow> (nat \<times> nat) option" where
  "rlock_released r = (case r of None \<Rightarrow> None | Some (j, n) \<Rightarrow> if n \<le> 1 then None else Some (j, n - 1))"

definition lock_try :: "nat \<Rightarrow> lock_key \<Rightarrow> (pos_locks, unit) py" where
  \<comment> \<open>the tracker's check and \<open>acquire(blocking=False)\<close>\<close>
  "lock_try i key s = (case before_acquire (ps_stack s i) key of
     Inl e \<Rightarrow> (Inl e, s)
   | Inr _ \<Rightarrow> (Inr (), if available True i (ps_lock s key)
       then s\<lparr>ps_lock := (ps_lock s)(key \<mapsto> rlock_acquired i (ps_lock s key)), ps_phase := (ps_phase s)(i := Taken key)\<rparr>
       else s\<lparr>ps_phase := (ps_phase s)(i := Missed key)\<rparr>))"

definition lock_wait :: "nat \<Rightarrow> lock_key \<Rightarrow> (pos_locks, unit) py" where
  \<comment> \<open>under the state lock: enter the wait unless it closes a circle\<close>
  "lock_wait i key s = (let waiting = dict_put i key (ps_waiting s) in
     if would_deadlock waiting (ps_owner s) i (ps_owner s key)
     then (Inl (Exn (Derived ''DeadlockDetected'' RuntimeError) ''Deadlock detected while waiting''),
       s\<lparr>ps_waiting := dict_del i waiting, ps_phase := (ps_phase s)(i := Idle)\<rparr>)
     else (Inr (), s\<lparr>ps_waiting := waiting, ps_phase := (ps_phase s)(i := Waits key)\<rparr>))"

definition lock_granted :: "nat \<Rightarrow> lock_key \<Rightarrow> pos_locks \<Rightarrow> pos_locks" where
  "lock_granted i key s = (if available True i (ps_lock s key)
     then s\<lparr>ps_lock := (ps_lock s)(key \<mapsto> rlock_acquired i (ps_lock s key)), ps_phase := (ps_phase s)(i := Granted key)\<rparr>
     else s)"

definition lock_expired :: "nat \<Rightarrow> (pos_locks, unit) py" where
  "lock_expired i s = (Inl (Exn (Derived ''PositionLockTimeout'' TimeoutError) ''Timed out waiting for position lock''),
     s\<lparr>ps_waiting := dict_del i (ps_waiting s), ps_phase := (ps_phase s)(i := Idle)\<rparr>)"

definition lock_woken :: "nat \<Rightarrow> lock_key \<Rightarrow> pos_locks \<Rightarrow> pos_locks" where
  "lock_woken i key s = s\<lparr>ps_waiting := dict_del i (ps_waiting s), ps_phase := (ps_phase s)(i := Taken key)\<rparr>"

definition lock_entered :: "nat \<Rightarrow> lock_key \<Rightarrow> pos_locks \<Rightarrow> pos_locks" where
  "lock_entered i key s = s\<lparr>ps_owner := (ps_owner s)(key \<mapsto> i), ps_depth := (ps_depth s)(key := ps_depth s key + 1),
     ps_stack := (ps_stack s)(i := ps_stack s i @ [key]), ps_phase := (ps_phase s)(i := Idle)\<rparr>"

definition lock_leave :: "nat \<Rightarrow> lock_key \<Rightarrow> (pos_locks, unit) py" where
  \<comment> \<open>the end of the \<open>with\<close> block, up to the release of the lock\<close>
  "lock_leave i key s = (case released key (ps_stack s i) of
     Inl e \<Rightarrow> (Inl e, s)
   | Inr stack \<Rightarrow> (Inr (), s\<lparr>ps_stack := (ps_stack s)(i := stack), ps_depth := (ps_depth s)(key := ps_depth s key - 1),
       ps_owner := (if ps_depth s key - 1 = 0 then (ps_owner s)(key := None) else ps_owner s),
       ps_phase := (ps_phase s)(i := Leaving key)\<rparr>))"

definition lock_freed :: "nat \<Rightarrow> lock_key \<Rightarrow> pos_locks \<Rightarrow> pos_locks" where
  "lock_freed i key s = s\<lparr>ps_lock := (ps_lock s)(key := rlock_released (ps_lock s key)), ps_phase := (ps_phase s)(i := Idle)\<rparr>"

text \<open>A thread takes its next step; which lock an idle thread asks for, whether it leaves its innermost
  lock instead, and whether a wait ends or times out, are choices.\<close>

datatype pos_op = PAsk nat lock_key | PLeave nat | PStep nat | PExpire nat

fun pos_do :: "pos_op \<Rightarrow> pos_locks \<Rightarrow> pos_locks" where
  "pos_do (PAsk i key) s = (if ps_phase s i = Idle then snd (lock_try i key s) else s)"
| "pos_do (PLeave i) s = (if ps_phase s i = Idle \<and> ps_stack s i \<noteq> []
     then snd (lock_leave i (last (ps_stack s i)) s) else s)"
| "pos_do (PStep i) s = (case ps_phase s i of
     Idle \<Rightarrow> s
   | Missed key \<Rightarrow> snd (lock_wait i key s)
   | Waits key \<Rightarrow> lock_granted i key s
   | Granted key \<Rightarrow> lock_woken i key s
   | Taken key \<Rightarrow> lock_entered i key s
   | Leaving key \<Rightarrow> lock_freed i key s)"
| "pos_do (PExpire i) s = (case ps_phase s i of Waits key \<Rightarrow> snd (lock_expired i s) | _ \<Rightarrow> s)"

definition pos_run :: "pos_op list \<Rightarrow> pos_locks" where
  "pos_run ops = fold pos_do ops new_pos_locks"

text \<open>Threads blocked in a circle: each waits for a lock held by another one of them.\<close>

definition blocked_circle :: "pos_locks \<Rightarrow> nat set \<Rightarrow> bool" where
  "blocked_circle s D \<longleftrightarrow> finite D \<and> D \<noteq> {} \<and>
     (\<forall>i \<in> D. \<exists>k. \<exists>j \<in> D. \<exists>n. ps_phase s i = Waits k \<and> ps_lock s k = Some (j, n))"

section \<open>The invariant\<close>

definition holding :: "lock_phase \<Rightarrow> lock_key \<Rightarrow> bool" where
  "holding ph k \<longleftrightarrow> ph \<in> {Granted k, Taken k, Leaving k}"

definition key_ok :: "pos_locks \<Rightarrow> lock_key \<Rightarrow> bool" where
  "key_ok s k \<longleftrightarrow>
    (ps_lock s k = None \<longrightarrow> ps_depth s k = 0 \<and> ps_owner s k = None \<and>
      (\<forall>i. \<not> holding (ps_phase s i) k \<and> count_list (ps_stack s i) k = 0)) \<and>
    (\<forall>j n. ps_lock s k = Some (j, n) \<longrightarrow> 0 < n \<and>
      n = ps_depth s k + (if holding (ps_phase s j) k then 1 else 0) \<and>
      ps_owner s k = (if ps_depth s k = 0 then None else Some j) \<and>
      count_list (ps_stack s j) k = ps_depth s k \<and>
      (\<forall>i. i \<noteq> j \<longrightarrow> \<not> holding (ps_phase s i) k \<and> count_list (ps_stack s i) k = 0))"

definition thread_ok :: "pos_locks \<Rightarrow> nat \<Rightarrow> bool" where
  "thread_ok s i \<longleftrightarrow> (\<forall>k. dict_get (ps_waiting s) i = Some k \<longleftrightarrow> ps_phase s i \<in> {Waits k, Granted k})"

definition pos_ok :: "pos_locks \<Rightarrow> bool" where
  "pos_ok s \<longleftrightarrow> (\<forall>k. key_ok s k) \<and> (\<forall>i. thread_ok s i) \<and> (\<forall>D. \<not> blocked_circle s D)"


lemma pos_okD:
  assumes "pos_ok s"
  shows "key_ok s k" and "thread_ok s i" and "\<not> blocked_circle s D"
  using assms by (auto simp: pos_ok_def)

lemma new_pos_ok: "pos_ok new_pos_locks"
  by (auto simp: pos_ok_def key_ok_def thread_ok_def blocked_circle_def new_pos_locks_def holding_def)

lemma held_key:
  assumes "key_ok s k" and "holding (ps_phase s i) k"
  obtains n where "ps_lock s k = Some (i, n)" "n = ps_depth s k + 1"
    "ps_owner s k = (if ps_depth s k = 0 then None else Some i)"
proof (cases "ps_lock s k")
  case None
  then show ?thesis using assms by (simp add: key_ok_def)
next
  case (Some p)
  then obtain j n where "ps_lock s k = Some (j, n)" by (cases p) simp
  moreover from this assms have "j = i" by (auto simp: key_ok_def)
  ultimately show ?thesis using that [of n] assms by (simp add: key_ok_def)
qed

lemma stacked_key:
  assumes "key_ok s k" and "k \<in> set (ps_stack s i)"
  obtains n where "ps_lock s k = Some (i, n)" "ps_depth s k = count_list (ps_stack s i) k" "0 < ps_depth s k"
    "ps_owner s k = Some i" "n = ps_depth s k + (if holding (ps_phase s i) k then 1 else 0)"
proof -
  have c: "0 < count_list (ps_stack s i) k" using assms(2) count_list_0_iff [of "ps_stack s i" k] by auto
  then obtain j n where l: "ps_lock s k = Some (j, n)"
    using assms(1) by (cases "ps_lock s k") (auto simp: key_ok_def)
  with c assms(1) have "i = j" by (metis key_ok_def less_irrefl)
  then show ?thesis using that [of n] l c assms(1) by (simp add: key_ok_def)
qed

text \<open>A step that blocks no thread and gives no lock to a blocked one closes no circle.\<close>

lemma circle_before:
  assumes "blocked_circle t D"
    and "\<And>x k. x \<in> D \<Longrightarrow> ps_phase t x = Waits k \<Longrightarrow> ps_phase s x = Waits k"
    and "\<And>k j n k'. ps_lock t k = Some (j, n) \<Longrightarrow> ps_phase t j = Waits k' \<Longrightarrow> \<exists>n. ps_lock s k = Some (j, n)"
  shows "blocked_circle s D"
  unfolding blocked_circle_def
proof (intro conjI ballI)
  fix x
  assume "x \<in> D"
  then obtain k j n where k: "j \<in> D" "ps_phase t x = Waits k" "ps_lock t k = Some (j, n)"
    using assms(1) by (force simp: blocked_circle_def)
  obtain k' where "ps_phase t j = Waits k'" using assms(1) k(1) by (force simp: blocked_circle_def)
  then obtain m where "ps_lock s k = Some (j, m)" using assms(3) [OF k(3)] by blast
  then show "\<exists>k. \<exists>j \<in> D. \<exists>n. ps_phase s x = Waits k \<and> ps_lock s k = Some (j, n)"
    using k(1) assms(2) [OF \<open>x \<in> D\<close> k(2)] by blast
qed (use assms(1) in \<open>auto simp: blocked_circle_def\<close>)

lemma pos_okI:
  assumes "\<And>k. key_ok t k" and "\<And>i. thread_ok t i" and "pos_ok s"
    and "\<And>x k. ps_phase t x = Waits k \<Longrightarrow> ps_phase s x = Waits k"
    and "\<And>k j n k'. ps_lock t k = Some (j, n) \<Longrightarrow> ps_phase t j = Waits k' \<Longrightarrow> \<exists>n. ps_lock s k = Some (j, n)"
  shows "pos_ok t"
  unfolding pos_ok_def using assms(1,2) circle_before [of t _ s] assms(4,5) pos_okD(3) [OF assms(3)] by blast

lemmas lock_simps = key_ok_def holding_def rlock_acquired_def rlock_released_def available_def

lemma take_key_ok:
  assumes "pos_ok s" and "\<not> holding (ps_phase s i) k" and "available True i (ps_lock s key)"
    and "ph = Taken key \<or> ph = Granted key" and "ps_phase s i = Idle \<or> ps_phase s i = Waits key"
  shows "key_ok (s\<lparr>ps_lock := (ps_lock s)(key \<mapsto> rlock_acquired i (ps_lock s key)),
    ps_phase := (ps_phase s)(i := ph)\<rparr>) k"
  using pos_okD(1) [OF assms(1), of k] assms(2-5)
  by (cases "k = key"; cases "ps_lock s key") (auto simp: lock_simps)

lemma try_ok:
  assumes "pos_ok s" and "ps_phase s i = Idle"
  shows "pos_ok (snd (lock_try i key s))"
proof (cases "before_acquire (ps_stack s i) key")
  case (Inr u)
  show ?thesis
  proof (cases "available True i (ps_lock s key)")
    case True
    let ?t = "s\<lparr>ps_lock := (ps_lock s)(key \<mapsto> rlock_acquired i (ps_lock s key)), ps_phase := (ps_phase s)(i := Taken key)\<rparr>"
    have "pos_ok ?t"
    proof (rule pos_okI [OF _ _ assms(1)])
      show "key_ok ?t k" for k
        by (rule take_key_ok [OF assms(1) _ True]) (use assms(2) in \<open>auto simp: holding_def\<close>)
      show "thread_ok ?t j" for j using pos_okD(2) [OF assms(1), of j] assms(2) by (auto simp: thread_ok_def)
    qed (auto simp: rlock_acquired_def split: if_splits)
    then show ?thesis using Inr True by (simp add: lock_try_def)
  next
    case False
    let ?t = "s\<lparr>ps_phase := (ps_phase s)(i := Missed key)\<rparr>"
    have "pos_ok ?t"
    proof (rule pos_okI [OF _ _ assms(1)])
      show "key_ok ?t k" for k using pos_okD(1) [OF assms(1), of k] assms(2)
        by (auto simp: key_ok_def holding_def)
      show "thread_ok ?t j" for j using pos_okD(2) [OF assms(1), of j] assms(2) by (auto simp: thread_ok_def)
    qed (auto split: if_splits)
    then show ?thesis using Inr False by (simp add: lock_try_def)
  qed
qed (use assms in \<open>simp add: lock_try_def\<close>)

lemma granted_ok:
  assumes "pos_ok s" and "ps_phase s i = Waits key"
  shows "pos_ok (lock_granted i key s)"
proof (cases "available True i (ps_lock s key)")
  case True
  let ?t = "s\<lparr>ps_lock := (ps_lock s)(key \<mapsto> rlock_acquired i (ps_lock s key)), ps_phase := (ps_phase s)(i := Granted key)\<rparr>"
  have "pos_ok ?t"
  proof (rule pos_okI [OF _ _ assms(1)])
    show "key_ok ?t k" for k
      by (rule take_key_ok [OF assms(1) _ True]) (use assms(2) in \<open>auto simp: holding_def\<close>)
    show "thread_ok ?t j" for j using pos_okD(2) [OF assms(1), of j] assms(2) by (auto simp: thread_ok_def)
  qed (auto simp: rlock_acquired_def split: if_splits)
  then show ?thesis using True by (simp add: lock_granted_def)
qed (use assms in \<open>simp add: lock_granted_def\<close>)

lemma expired_ok:
  assumes "pos_ok s" and "ps_phase s i = Waits key"
  shows "pos_ok (snd (lock_expired i s))"
  unfolding lock_expired_def snd_conv
proof (rule pos_okI [OF _ _ assms(1)], goal_cases)
  case (1 k)
  show ?case using pos_okD(1) [OF assms(1), of k] assms(2) by (auto simp: key_ok_def holding_def)
next
  case (2 j)
  show ?case using pos_okD(2) [OF assms(1), of j] by (auto simp: thread_ok_def dict_get_del)
qed (auto split: if_splits)

lemma woken_ok:
  assumes "pos_ok s" and "ps_phase s i = Granted key"
  shows "pos_ok (lock_woken i key s)"
  unfolding lock_woken_def
proof (rule pos_okI [OF _ _ assms(1)], goal_cases)
  case (1 k)
  show ?case using pos_okD(1) [OF assms(1), of k] assms(2) by (auto simp: key_ok_def holding_def)
next
  case (2 j)
  show ?case using pos_okD(2) [OF assms(1), of j] by (auto simp: thread_ok_def dict_get_del)
qed (auto split: if_splits)

lemma entered_ok:
  assumes "pos_ok s" and "ps_phase s i = Taken key"
  shows "pos_ok (lock_entered i key s)"
  unfolding lock_entered_def
proof (rule pos_okI [OF _ _ assms(1)], goal_cases)
  case (1 k)
  have "holding (ps_phase s i) key" using assms(2) by (simp add: holding_def)
  with pos_okD(1) [OF assms(1)] obtain n where "ps_lock s key = Some (i, n)" "n = ps_depth s key + 1"
    by (rule held_key)
  then show ?case using pos_okD(1) [OF assms(1), of k] assms(2)
    by (cases "k = key") (auto simp: key_ok_def holding_def count_list_snoc)
next
  case (2 j)
  show ?case using pos_okD(2) [OF assms(1), of j] assms(2) by (auto simp: thread_ok_def)
qed (auto split: if_splits)

lemma pos_leave_ok:
  assumes "pos_ok s" and "ps_phase s i = Idle" and "ps_stack s i \<noteq> []"
  shows "pos_ok (snd (lock_leave i (last (ps_stack s i)) s))"
proof -
  define key where "key = last (ps_stack s i)"
  define r where "r = butlast (ps_stack s i)"
  have st: "ps_stack s i = r @ [key]" using assms(3) by (simp add: key_def r_def)
  have "key \<in> set (ps_stack s i)" using st by simp
  with pos_okD(1) [OF assms(1)] obtain n where n: "ps_lock s key = Some (i, n)"
    "ps_depth s key = count_list (ps_stack s i) key" "ps_owner s key = Some i"
    "n = ps_depth s key + (if holding (ps_phase s i) key then 1 else 0)"
    by (rule stacked_key) blast
  let ?t = "s\<lparr>ps_stack := (ps_stack s)(i := r), ps_depth := (ps_depth s)(key := ps_depth s key - 1),
       ps_owner := (if ps_depth s key - 1 = 0 then (ps_owner s)(key := None) else ps_owner s),
       ps_phase := (ps_phase s)(i := Leaving key)\<rparr>"
  have "snd (lock_leave i key s) = ?t" using st by (simp add: lock_leave_def released_def)
  moreover have "pos_ok ?t"
  proof (rule pos_okI [OF _ _ assms(1)])
    fix k
    have "count_list r k = (if k = key then ps_depth s key - 1 else count_list (ps_stack s i) k)"
      using n(2) st by (simp add: count_list_snoc)
    moreover have "0 < ps_depth s key" using n(2) st by (simp add: count_list_snoc)
    ultimately show "key_ok ?t k"
      using pos_okD(1) [OF assms(1), of k] assms(2) n(1)
      by (cases "k = key") (auto simp: key_ok_def holding_def)
  next
    fix j
    show "thread_ok ?t j" using pos_okD(2) [OF assms(1), of j] assms(2) by (auto simp: thread_ok_def)
  qed (auto split: if_splits)
  ultimately show ?thesis by (simp add: key_def)
qed

lemma freed_ok:
  assumes "pos_ok s" and "ps_phase s i = Leaving key"
  shows "pos_ok (lock_freed i key s)"
  unfolding lock_freed_def
proof (rule pos_okI [OF _ _ assms(1)], goal_cases)
  case (1 k)
  have "holding (ps_phase s i) key" using assms(2) by (simp add: holding_def)
  with pos_okD(1) [OF assms(1)] obtain n where "ps_lock s key = Some (i, n)" "n = ps_depth s key + 1"
    by (rule held_key)
  then show ?case using pos_okD(1) [OF assms(1), of k] assms(2)
    by (cases "k = key") (auto simp: key_ok_def holding_def rlock_released_def)
next
  case (2 j)
  show ?case using pos_okD(2) [OF assms(1), of j] assms(2) by (auto simp: thread_ok_def)
qed (auto simp: rlock_released_def split: if_splits option.splits)


lemma circle_leads:
  assumes "blocked_circle t D" and "\<And>k. key_ok t k" and "\<And>i. thread_ok t i" and "x \<in> D"
  obtains y k n where "y \<in> D" "ps_phase t x = Waits k" "ps_lock t k = Some (y, n)" "ps_owner t k = Some y"
    "(x, y) \<in> leads (ps_waiting t) (ps_owner t)"
proof -
  obtain k y n where k: "y \<in> D" "ps_phase t x = Waits k" "ps_lock t k = Some (y, n)"
    using assms(1,4) by (force simp: blocked_circle_def)
  obtain k' where "ps_phase t y = Waits k'" using assms(1) k(1) by (force simp: blocked_circle_def)
  then have "\<not> holding (ps_phase t y) k" by (simp add: holding_def)
  then have o: "ps_owner t k = Some y" using assms(2) [of k] k(3) by (auto simp: key_ok_def)
  have "dict_get (ps_waiting t) x = Some k" using assms(3) [of x] k(2) by (simp add: thread_ok_def)
  then show ?thesis using that [OF k o] o by (auto simp: leads_def)
qed

lemma wait_no_circle:
  assumes "pos_ok s" and "\<And>k. key_ok t k" and "\<And>j. thread_ok t j"
    and "t = s\<lparr>ps_waiting := dict_put i key (ps_waiting s), ps_phase := (ps_phase s)(i := Waits key)\<rparr>"
    and "\<not> would_deadlock (ps_waiting t) (ps_owner t) i (ps_owner t key)"
  shows "\<not> blocked_circle t D"
proof
  assume c: "blocked_circle t D"
  let ?R = "leads (ps_waiting t) (ps_owner t)"
  show False
  proof (cases "i \<in> D")
    case False
    have "blocked_circle s D"
      by (rule circle_before [OF c]) (use False in \<open>auto simp: assms(4) split: if_splits\<close>)
    then show False using pos_okD(3) [OF assms(1)] by blast
  next
    case True
    note next_of = circle_leads [OF c assms(2,3)]
    obtain j where j: "j \<in> D" "ps_owner t key = Some j"
    proof (rule next_of [OF True])
      fix y k n
      assume "y \<in> D" "ps_phase t i = Waits k" "ps_owner t k = Some y"
      then show ?thesis using that by (simp add: assms(4))
    qed
    have no: "(j, i) \<notin> ?R\<^sup>*" using assms(5) j(2) by (simp add: would_deadlock_iff)
    define S where "S = {x \<in> D. (j, x) \<in> ?R\<^sup>*}"
    have "blocked_circle s S"
      unfolding blocked_circle_def
    proof (intro conjI ballI)
      show "finite S" using c by (simp add: S_def blocked_circle_def)
      show "S \<noteq> {}" using j(1) by (auto simp: S_def)
      fix x
      assume x: "x \<in> S"
      then have "x \<in> D" and "x \<noteq> i" using no by (auto simp: S_def)
      from this(1) show "\<exists>k. \<exists>y \<in> S. \<exists>n. ps_phase s x = Waits k \<and> ps_lock s k = Some (y, n)"
      proof (rule next_of)
        fix y k n
        assume y: "y \<in> D" "ps_phase t x = Waits k" "ps_lock t k = Some (y, n)" "(x, y) \<in> ?R"
        have "y \<in> S" using x y(1,4) by (auto simp: S_def)
        then show ?thesis using y(2,3) \<open>x \<noteq> i\<close> by (auto simp: assms(4))
      qed
    qed
    then show False using pos_okD(3) [OF assms(1)] by blast
  qed
qed

lemma wait_ok:
  assumes "pos_ok s" and "ps_phase s i = Missed key"
  shows "pos_ok (snd (lock_wait i key s))"
proof (cases "would_deadlock (dict_put i key (ps_waiting s)) (ps_owner s) i (ps_owner s key)")
  case True
  let ?t = "s\<lparr>ps_waiting := dict_del i (dict_put i key (ps_waiting s)), ps_phase := (ps_phase s)(i := Idle)\<rparr>"
  have "pos_ok ?t"
  proof (rule pos_okI [OF _ _ assms(1)])
    show "key_ok ?t k" for k using pos_okD(1) [OF assms(1), of k] assms(2)
      by (auto simp: key_ok_def holding_def)
    show "thread_ok ?t j" for j using pos_okD(2) [OF assms(1), of j] assms(2)
      by (auto simp: thread_ok_def dict_get_del dict_get_put)
  qed (auto split: if_splits)
  then show ?thesis using True by (simp add: lock_wait_def Let_def)
next
  case False
  let ?t = "s\<lparr>ps_waiting := dict_put i key (ps_waiting s), ps_phase := (ps_phase s)(i := Waits key)\<rparr>"
  have k: "key_ok ?t k" for k using pos_okD(1) [OF assms(1), of k] assms(2)
    by (auto simp: key_ok_def holding_def)
  have j: "thread_ok ?t j" for j using pos_okD(2) [OF assms(1), of j] assms(2)
    by (auto simp: thread_ok_def dict_get_put)
  have "\<not> blocked_circle ?t D" for D
    by (rule wait_no_circle [OF assms(1) k j refl]) (use False in simp)
  then have "pos_ok ?t" using k j by (simp add: pos_ok_def)
  then show ?thesis using False by (simp add: lock_wait_def Let_def)
qed

lemma pos_do_ok: "pos_ok s \<Longrightarrow> pos_ok (pos_do op s)"
  by (cases op) (auto split: lock_phase.split intro: try_ok wait_ok granted_ok expired_ok woken_ok entered_ok
      pos_leave_ok freed_ok)

lemma pos_run_ok: "pos_ok (pos_run ops)"
proof -
  have "pos_ok s \<Longrightarrow> pos_ok (fold pos_do ops s)" for s
    by (induction ops arbitrary: s) (auto intro: pos_do_ok)
  then show ?thesis by (simp add: pos_run_def new_pos_ok)
qed

section \<open>Properties\<close>

text \<open>C35: The walk of \<open>_would_deadlock\<close> ends and decides reachability: it says yes exactly when the owner of
  the wanted lock is the waiting thread itself or leads to it over waits and owners.
\<close>

theorem deadlock_walk_decides:
  "would_deadlock waiting owner waiter own \<longleftrightarrow>
     (\<exists>c. own = Some c \<and> (c, waiter) \<in> {(t, u). \<exists>k. dict_get waiting t = Some k \<and> owner k = Some u}\<^sup>*)"
  using would_deadlock_iff by (simp add: leads_def)

text \<open>C11: Position locks never deadlock: after any interleaving of the steps of any number of threads, the
  window between taking a lock and being entered as its owner included, no threads are blocked in a
  circle, each waiting for a lock that the next one holds; the walk refuses the wait that would close it,
  also where a lock taken twice lets the tracker pass an acquisition against the order.
\<close>

theorem position_locks_never_deadlock:
  "\<not> blocked_circle (pos_run ops) D"
  by (rule pos_okD(3) [OF pos_run_ok])

text \<open>A position lock excludes: after any run, a thread inside the \<open>with\<close> block of a key is the one
  thread that holds the lock, so no two threads are inside blocks of the same key.
\<close>

theorem position_locks_exclude:
  assumes "key \<in> set (ps_stack (pos_run ops) i)" and "key \<in> set (ps_stack (pos_run ops) j)"
  shows "i = j \<and> ps_owner (pos_run ops) key = Some i"
  using stacked_key [OF pos_okD(1) [OF pos_run_ok] assms(1)] stacked_key [OF pos_okD(1) [OF pos_run_ok] assms(2)]
  by (metis option.inject)

theorem position_locks_exclude_witness:
  "ps_owner (pos_run [PAsk 1 demo_position_lock, PStep 1]) demo_position_lock = Some 1"
proof -
  have "demo_position_lock \<in> set (ps_stack (pos_run [PAsk 1 demo_position_lock, PStep 1]) 1)"
    by code_simp
  then show ?thesis using position_locks_exclude by blast
qed

end
