(* ===== verification/Risk_Numeric.thy ===== *)
theory Risk_Numeric
  imports Contract_Types
begin

text \<open>
  Decimals of the risk modules: the validation of \<open>freqtrade/hedge/numeric.py\<close> (of a value that
  already is a \<open>Decimal\<close>) and the reduce-only rule of \<open>freqtrade/hedge/local_reduce_only.py\<close>. The
  lemmas on rounding say that it is monotone and how far it moves a value, so that a comparison made
  on rounded values says something of the exact ones.
\<close>

section \<open>Validation\<close>

definition to_decimal :: "string \<Rightarrow> dec \<Rightarrow> rat res" where
  "to_decimal field v = finite_decimal HedgeDataError field v"

definition require_nonnegative :: "string \<Rightarrow> dec \<Rightarrow> rat res" where
  "require_nonnegative field v = res_bind (to_decimal field v) (\<lambda>r.
     if r < 0 then Inl (Exn HedgeDataError (field @ '' must be nonnegative.'')) else Inr r)"

definition require_positive :: "string \<Rightarrow> dec \<Rightarrow> rat res" where
  "require_positive field v = res_bind (to_decimal field v) (\<lambda>r.
     if r \<le> 0 then Inl (Exn HedgeDataError (field @ '' must be greater than zero.'')) else Inr r)"

definition require_unit_interval :: "string \<Rightarrow> dec \<Rightarrow> rat res" where
  "require_unit_interval field v = res_bind (require_nonnegative field v) (\<lambda>r.
     if r > 1 then Inl (Exn HedgeDataError (field @ '' must be within [0, 1].'')) else Inr r)"

lemma require_nonnegative_Inr: "require_nonnegative f v = Inr r \<longleftrightarrow> v = DFin r \<and> 0 \<le> r"
  by (auto simp: require_nonnegative_def to_decimal_def res_splits finite_decimal_Inr)

lemma require_positive_Inr: "require_positive f v = Inr r \<longleftrightarrow> v = DFin r \<and> 0 < r"
  by (auto simp: require_positive_def to_decimal_def res_splits finite_decimal_Inr)

lemma require_unit_Inr: "require_unit_interval f v = Inr r \<longleftrightarrow> v = DFin r \<and> 0 \<le> r \<and> r \<le> 1"
  by (auto simp: require_unit_interval_def res_splits require_nonnegative_Inr)

lemmas require_Inr = require_nonnegative_Inr require_positive_Inr require_unit_Inr

lemma require_nonnegative_id [simp]: "0 \<le> r \<Longrightarrow> require_nonnegative f (DFin r) = Inr r"
  by (simp add: require_nonnegative_Inr)

lemma require_positive_id [simp]: "0 < r \<Longrightarrow> require_positive f (DFin r) = Inr r"
  by (simp add: require_positive_Inr)

lemma require_unit_id [simp]: "0 \<le> r \<Longrightarrow> r \<le> 1 \<Longrightarrow> require_unit_interval f (DFin r) = Inr r"
  by (simp add: require_unit_Inr)

text \<open>A keyword argument that may be \<open>None\<close>.\<close>

definition opt_require :: "('a \<Rightarrow> 'b res) \<Rightarrow> 'a option \<Rightarrow> 'b option res" where
  "opt_require f v = (case v of None \<Rightarrow> Inr None | Some x \<Rightarrow> res_bind (f x) (\<lambda>y. Inr (Some y)))"

lemma opt_require_Inr:
  "opt_require f v = Inr r \<longleftrightarrow>
     (case v of None \<Rightarrow> r = None | Some x \<Rightarrow> \<exists>y. f x = Inr y \<and> r = Some y)"
  by (auto simp: opt_require_def res_splits split: option.split)

section \<open>Rounding\<close>

lemma exp28_upper:
  assumes "q \<noteq> 0"
  shows "\<bar>q\<bar> / pow10 (exp28 q) < 10 ^ 28"
proof -
  obtain n d where nd: "quotient_of \<bar>q\<bar> = (n, d)" by (cases "quotient_of \<bar>q\<bar>")
  have d: "0 < d" using quotient_of_denom_pos [OF nd] .
  have q: "\<bar>q\<bar> = of_int n / of_int d" using quotient_of_div [OF nd] .
  have "0 < of_int n / (of_int d :: rat)" using assms q by (metis zero_less_abs_iff)
  then have n: "1 \<le> n" using d by (auto simp: zero_less_divide_iff)
  define e where "e = ndigits n - ndigits d - 28"
  have bn: "of_int n < pow10 (ndigits n)" using ndigits_bounds [OF n] by simp
  have bd: "pow10 (ndigits d - 1) \<le> of_int d" using ndigits_bounds [of d] d by simp
  have "of_int n / of_int d < pow10 (ndigits n) / pow10 (ndigits d - 1)"
    using bn bd d n pow10_pos by (intro frac_less) (auto intro: less_imp_le)
  moreover have "pow10 (ndigits n) / pow10 (ndigits d - 1) = 10 ^ 29 * pow10 e"
  proof -
    have "ndigits n = 29 + (e + (ndigits d - 1))" by (simp add: e_def)
    then have "pow10 (ndigits n) = pow10 29 * (pow10 e * pow10 (ndigits d - 1))"
      by (simp only: pow10_add)
    then show ?thesis by (simp add: pow10_def [of 29])
  qed
  ultimately have up: "\<bar>q\<bar> < 10 ^ 29 * pow10 e" by (simp add: q)
  have ex: "exp28 q = (if 10 ^ 28 \<le> \<bar>q\<bar> / pow10 e then e + 1 else e)"
    by (simp add: exp28_def nd e_def)
  show ?thesis
  proof (cases "10 ^ 28 \<le> \<bar>q\<bar> / pow10 e")
    case True
    then show ?thesis using up pow10_pos [of e] by (simp add: ex pow10_add pow10_1 field_simps)
  qed (simp add: ex)
qed

lemma round_half_even_mono: "a \<le> b \<Longrightarrow> round_half_even a \<le> round_half_even b"
proof -
  assume le: "a \<le> b"
  then have fl: "\<lfloor>a\<rfloor> \<le> \<lfloor>b\<rfloor>" by (rule floor_mono)
  show ?thesis
  proof (cases "\<lfloor>a\<rfloor> = \<lfloor>b\<rfloor>")
    case True
    then show ?thesis using le unfolding round_half_even_def Let_def by auto
  next
    case False
    then have "\<lfloor>a\<rfloor> + 1 \<le> \<lfloor>b\<rfloor>" using fl by simp
    then show ?thesis unfolding round_half_even_def Let_def by auto
  qed
qed

lemma round_half_even_close: "\<bar>of_int (round_half_even r) - r\<bar> \<le> 1 / 2"
proof -
  have "of_int \<lfloor>r\<rfloor> \<le> r" "r < of_int \<lfloor>r\<rfloor> + 1" by linarith+
  then show ?thesis unfolding round_half_even_def Let_def
    by (cases "r - of_int \<lfloor>r\<rfloor> < 1 / 2"; cases "r - of_int \<lfloor>r\<rfloor> > 1 / 2") (auto simp: abs_le_iff)
qed

lemma pow10_mono: "a \<le> b \<Longrightarrow> pow10 a \<le> pow10 b"
  using pow10_add [of a "b - a"] pow10_ge_1 [of "b - a"] pow10_pos [of a] by simp

lemma dec_round_pos_form:
  "0 < q \<Longrightarrow> dec_round q = of_int (round_half_even (q / pow10 (exp28 q))) * pow10 (exp28 q)"
  by (simp add: dec_round_def)

lemma exp28_mono:
  assumes "0 < a" and "a \<le> b"
  shows "exp28 a \<le> exp28 b"
proof (rule ccontr)
  assume "\<not> exp28 a \<le> exp28 b"
  then have "pow10 (exp28 b + 1) \<le> pow10 (exp28 a)" by (intro pow10_mono) simp
  moreover have "10 ^ 27 * pow10 (exp28 a) \<le> a"
    using exp28_lower [of a] assms(1) pow10_pos [of "exp28 a"] by (simp add: field_simps)
  moreover have "b < 10 ^ 28 * pow10 (exp28 b)"
    using exp28_upper [of b] assms pow10_pos [of "exp28 b"] by (simp add: field_simps)
  ultimately show False using assms(2) by (simp add: pow10_add pow10_1)
qed

lemma dec_round_mono_pos:
  assumes "0 < a" and "a \<le> b"
  shows "dec_round a \<le> dec_round b"
proof (cases "exp28 a = exp28 b")
  case True
  have "a / pow10 (exp28 b) \<le> b / pow10 (exp28 b)"
    using assms(2) pow10_pos [of "exp28 b"] by (simp add: divide_right_mono less_imp_le)
  then have "(of_int (round_half_even (a / pow10 (exp28 b))) :: rat)
      \<le> of_int (round_half_even (b / pow10 (exp28 b)))"
    using round_half_even_mono of_int_le_iff by blast
  then show ?thesis using assms True pow10_pos [of "exp28 b"]
    by (simp add: dec_round_pos_form mult_right_mono less_imp_le)
next
  case False
  then have e: "exp28 a + 1 \<le> exp28 b" using exp28_mono [OF assms] by simp
  have "round_half_even (a / pow10 (exp28 a)) \<le> round_half_even (of_int (10 ^ 28))"
    using exp28_upper [of a] assms(1) by (intro round_half_even_mono) simp
  then have "round_half_even (a / pow10 (exp28 a)) \<le> 10 ^ 28"
    unfolding round_half_even_of_int .
  then have "(of_int (round_half_even (a / pow10 (exp28 a))) :: rat) \<le> of_int (10 ^ 28)"
    by (rule of_int_le_iff [THEN iffD2])
  then have "dec_round a \<le> 10 ^ 28 * pow10 (exp28 a)"
    using assms(1) pow10_pos [of "exp28 a"] by (simp add: dec_round_pos_form mult_right_mono less_imp_le)
  also have "\<dots> = 10 ^ 27 * pow10 (exp28 a + 1)" by (simp add: pow10_add pow10_1)
  also have "\<dots> \<le> 10 ^ 27 * pow10 (exp28 b)" using pow10_mono [OF e] by simp
  also have "\<dots> \<le> dec_round b"
  proof -
    have "round_half_even (of_int (10 ^ 27)) \<le> round_half_even (b / pow10 (exp28 b))"
      using exp28_lower [of b] assms by (intro round_half_even_mono) simp
    then have "10 ^ 27 \<le> round_half_even (b / pow10 (exp28 b))" unfolding round_half_even_of_int .
    then have "(of_int (10 ^ 27) :: rat) \<le> of_int (round_half_even (b / pow10 (exp28 b)))"
      by (rule of_int_le_iff [THEN iffD2])
    then show ?thesis using assms pow10_pos [of "exp28 b"]
      by (simp add: dec_round_pos_form mult_right_mono less_imp_le)
  qed
  finally show ?thesis .
qed

lemma dec_round_mono: "a \<le> b \<Longrightarrow> dec_round a \<le> dec_round b"
proof -
  assume le: "a \<le> b"
  consider "0 < a" | "a \<le> 0" "0 \<le> b" | "b < 0" by linarith
  then show ?thesis
  proof cases
    case 1
    then show ?thesis using le by (rule dec_round_mono_pos)
  next
    case 2
    then show ?thesis using dec_round_nonpos dec_round_nonneg by (metis order_trans)
  next
    case 3
    then have "dec_round (- b) \<le> dec_round (- a)" using le by (intro dec_round_mono_pos) simp_all
    then show ?thesis by (simp add: dec_round_minus)
  qed
qed

text \<open>A rounded value differs from the exact one by at most one part in \<open>2 * 10 ^ 27\<close>.\<close>

lemma dec_round_close: "\<bar>dec_round q - q\<bar> \<le> \<bar>q\<bar> / (2 * 10 ^ 27)"
proof (cases "q = 0")
  case False
  let ?p = "pow10 (exp28 q)"
  have p: "0 < ?p" by (rule pow10_pos)
  have "\<bar>dec_round q - q\<bar> = \<bar>of_int (round_half_even (\<bar>q\<bar> / ?p)) * ?p - \<bar>q\<bar>\<bar>"
    using False by (cases "0 < q") (simp_all add: dec_round_def abs_minus_commute not_less)
  also have "of_int (round_half_even (\<bar>q\<bar> / ?p)) * ?p - \<bar>q\<bar>
      = (of_int (round_half_even (\<bar>q\<bar> / ?p)) - \<bar>q\<bar> / ?p) * ?p"
    using p by (simp add: left_diff_distrib)
  also have "\<bar>\<dots>\<bar> = \<bar>of_int (round_half_even (\<bar>q\<bar> / ?p)) - \<bar>q\<bar> / ?p\<bar> * ?p"
    using p by (simp only: abs_mult abs_of_pos)
  also have "\<dots> \<le> 1 / 2 * ?p" using round_half_even_close p by (intro mult_right_mono) auto
  also have "\<dots> \<le> \<bar>q\<bar> / (2 * 10 ^ 27)"
    using exp28_lower [OF False] p by (simp add: field_simps)
  finally show ?thesis .
qed simp

lemma dec_round_bounds:
  assumes "0 \<le> q"
  shows "dec_round q \<le> q + q / (2 * 10 ^ 27)" and "q - q / (2 * 10 ^ 27) \<le> dec_round q"
  using dec_round_close [of q] unfolding abs_of_nonneg [OF assms] abs_le_iff by linarith+

text \<open>The digits of a rounded value, from any exponent that leaves 28 of them.\<close>

lemma dec_round_at:
  assumes "10 ^ 27 * pow10 e \<le> q" and "q < 10 ^ 28 * pow10 e"
  shows "dec_round q = of_int (round_half_even (q / pow10 e)) * pow10 e"
proof -
  have q: "0 < q" using assms(1) pow10_pos [of e] by (meson less_le_trans mult_pos_pos zero_less_numeral zero_less_power)
  have lo: "10 ^ 27 * pow10 (exp28 q) \<le> q" and hi: "q < 10 ^ 28 * pow10 (exp28 q)"
    using exp28_lower [of q] exp28_upper [of q] q pow10_pos [of "exp28 q"]
    by (simp_all add: field_simps)
  have "exp28 q = e"
  proof (rule ccontr)
    assume "exp28 q \<noteq> e"
    then consider "exp28 q + 1 \<le> e" | "e + 1 \<le> exp28 q" by linarith
    then show False
    proof cases
      case 1
      then show ?thesis using pow10_mono [OF 1] hi assms(1) by (simp add: pow10_add pow10_1)
    next
      case 2
      then show ?thesis using pow10_mono [OF 2] lo assms(2) by (simp add: pow10_add pow10_1)
    qed
  qed
  then show ?thesis using q by (simp add: dec_round_pos_form)
qed

lemma dec_round_pos: "0 < q \<Longrightarrow> 0 < dec_round q"
proof -
  assume q: "0 < q"
  have "\<bar>dec_round q - q\<bar> \<le> q / (2 * 10 ^ 27)" using dec_round_close [of q] q by simp
  moreover have "q / (2 * 10 ^ 27) < q" using q by (simp add: field_simps)
  ultimately show ?thesis by linarith
qed

section \<open>Reduce only\<close>

record safe_reduce =
  sr_requested :: rat
  sr_confirmed :: rat
  sr_pending :: rat
  sr_available :: rat
  sr_allowed :: rat
  sr_reason :: string

definition calculate_safe_reduce :: "dec \<Rightarrow> dec \<Rightarrow> dec \<Rightarrow> safe_reduce res" where
  "calculate_safe_reduce requested_quantity confirmed_quantity pending_reduce_quantity =
     res_bind (require_nonnegative ''requested_quantity'' requested_quantity) (\<lambda>requested.
     res_bind (require_nonnegative ''confirmed_quantity'' confirmed_quantity) (\<lambda>confirmed.
     res_bind (require_nonnegative ''pending_reduce_quantity'' pending_reduce_quantity) (\<lambda>pending.
     let available = max (dec_sub confirmed pending) 0; allowed = min requested available in
     Inr \<lparr>sr_requested = requested, sr_confirmed = confirmed, sr_pending = pending,
       sr_available = available, sr_allowed = allowed,
       sr_reason = (if allowed = requested then ''FULLY_ALLOWED''
         else if allowed = 0 then ''NO_CONFIRMED_QUANTITY_AVAILABLE''
         else ''CLIPPED_TO_CONFIRMED_AVAILABLE'')\<rparr>)))"

lemma safe_reduce_Inr:
  "calculate_safe_reduce (DFin r) (DFin c) (DFin p) = Inr s \<Longrightarrow>
     0 \<le> r \<and> 0 \<le> c \<and> 0 \<le> p \<and> sr_requested s = r \<and> sr_allowed s = min r (max (dec_sub c p) 0)"
  by (auto simp: calculate_safe_reduce_def res_splits require_Inr Let_def)

end
