(* ===== verification/Reduce_Reservations.thy ===== *)
theory Reduce_Reservations
  imports Lock_Order Risk_Numeric
begin

text \<open>
  The reduce reservations of \<open>freqtrade/hedge/concurrency/position_lock.py\<close>: what may still be reduced of
  a position is its confirmed quantity less what was reserved before and has not expired. A reservation is
  made under the lock of its position, which makes it one step here; what taking the lock and the
  caller's check end with are arguments, as are the readings of the monotonic clock (valid numbers of any
  linearly ordered type) and the addition of the time to live. The lemmas show that what is reserved of a
  position never exceeds the confirmed quantity.
\<close>

section \<open>Reservations\<close>

record 't reservation_record =
  rr_quantity :: rat
  rr_expires :: 't

type_synonym 't reservations = "(lock_key, (string, 't reservation_record) dict) dict"

record 't reservation =
  rv_key :: lock_key
  rv_token :: "string option"
  rv_requested :: rat
  rv_allowed :: rat
  rv_reason :: string
  rv_expires :: "'t option"
  rv_released :: bool

definition of_key :: "lock_key \<Rightarrow> 't reservations \<Rightarrow> (string, 't reservation_record) dict" where
  \<comment> \<open>\<open>reservations.get(key, {})\<close>\<close>
  "of_key key rs = (case dict_get rs key of None \<Rightarrow> [] | Some d \<Rightarrow> d)"

definition unexpired :: "'t :: linorder \<Rightarrow> (string, 't reservation_record) dict \<Rightarrow> (string, 't reservation_record) dict" where
  "unexpired now d = filter (\<lambda>(token, r). \<not> rr_expires r \<le> now) d"

definition prune_expired :: "'t :: linorder \<Rightarrow> ('t reservations, nat) py" where
  "prune_expired now rs =
     (Inr (sum_list (map (\<lambda>(key, d). length d - length (unexpired now d)) rs)),
      filter (\<lambda>(key, d). d \<noteq> []) (map (\<lambda>(key, d). (key, unexpired now d)) rs))"

definition pending_reduce_quantity :: "'t :: linorder \<Rightarrow> lock_key \<Rightarrow> ('t reservations, rat) py" where
  "pending_reduce_quantity now key = py_then (prune_expired now)
     (py_get (\<lambda>rs. dec_sum (map (\<lambda>(token, r). rr_quantity r) (of_key key rs))))"

record 't reserve_args =
  ra_lock :: "unit res"
  ra_check :: "unit res"
  ra_account_id :: string
  ra_symbol :: string
  ra_side :: "position_side + string"
  ra_exchange :: string
  ra_requested :: dec
  ra_confirmed :: dec
  ra_existing :: dec
  ra_uid :: nat
  ra_clock :: "'t \<times> 't \<times> 't"
  ra_plus_ttl :: "'t \<Rightarrow> 't"

definition reserve_reduce :: "'t :: linorder reserve_args \<Rightarrow> ('t reservations, 't reservation) py" where
  "reserve_reduce a =
     py_bind (py_of (mk_position_lock (ra_account_id a) (ra_symbol a) (ra_side a) (ra_exchange a))) (\<lambda>key.
     py_bind (py_of (ra_lock a)) (\<lambda>_.
     py_bind (py_of (ra_check a)) (\<lambda>_.
     py_bind (pending_reduce_quantity (fst (ra_clock a)) key) (\<lambda>local_pending.
     py_bind (py_of (require_nonnegative ''existing_pending_reduce_quantity'' (ra_existing a))) (\<lambda>known_pending.
     py_bind (py_of (calculate_safe_reduce (ra_requested a) (ra_confirmed a)
       (DFin (dec_add known_pending local_pending)))) (\<lambda>decision.
     let v = \<lparr>rv_key = key, rv_token = None, rv_requested = sr_requested decision,
       rv_allowed = sr_allowed decision, rv_reason = sr_reason decision, rv_expires = None,
       rv_released = False\<rparr> in
     if sr_allowed decision > 0 then
       let token = uuid_hex (ra_uid a); expires = ra_plus_ttl a (fst (snd (ra_clock a))) in
       py_then (prune_expired (snd (snd (ra_clock a))))
       (py_then (py_mod (\<lambda>rs. dict_put key
           (dict_put token \<lparr>rr_quantity = sr_allowed decision, rr_expires = expires\<rparr> (of_key key rs)) rs))
       (py_ret (v\<lparr>rv_token := Some token, rv_expires := Some expires\<rparr>)))
     else py_ret v))))))"

definition release_reservation :: "lock_key \<Rightarrow> string \<Rightarrow> ('t reservations, unit) py" where
  "release_reservation key token rs = (case dict_get rs key of
     None \<Rightarrow> (Inr (), rs)
   | Some d \<Rightarrow> let d' = dict_del token d in
       (Inr (), if d' = [] then dict_del key rs else dict_put key d' rs))"

definition reservation_release :: "'t reservation \<Rightarrow> ('t reservations, 't reservation) py" where
  \<comment> \<open>\<open>ReduceReservation.release\<close>, also \<open>confirm\<close> and the end of a \<open>with\<close> block\<close>
  "reservation_release v = (case rv_token v of
     Some token \<Rightarrow> if rv_released v then py_ret (v\<lparr>rv_released := True\<rparr>)
       else py_then (release_reservation (rv_key v) token) (py_ret (v\<lparr>rv_released := True\<rparr>))
   | None \<Rightarrow> py_ret (v\<lparr>rv_released := True\<rparr>))"

definition reservation_expired :: "'t :: linorder \<Rightarrow> 't reservation \<Rightarrow> bool" where
  "reservation_expired now v = (case rv_expires v of None \<Rightarrow> False | Some t \<Rightarrow> t \<le> now)"

fun lock_key_account :: "lock_key \<Rightarrow> string" where
  "lock_key_account (Account_Lock x a) = a"
| "lock_key_account (Position_Lock x a s sd) = a"
| "lock_key_account (Order_Lock x a s sd oid) = a"

definition release_all_reservations :: "string option \<Rightarrow> ('t reservations, nat) py" where
  "release_all_reservations account_id = (case account_id of
     None \<Rightarrow> (\<lambda>rs. (Inr (sum_list (map (\<lambda>(key, d). length d) rs)), []))
   | Some v \<Rightarrow> if strip v = [] then py_raise (Exn ValueError ''account_id must be a non-empty string.'')
       else (\<lambda>rs. (Inr (sum_list (map (\<lambda>(key, d). length d) (filter (\<lambda>(key, d). lock_key_account key = strip v) rs))),
         filter (\<lambda>(key, d). lock_key_account key \<noteq> strip v) rs)))"

section \<open>Runs\<close>

datatype 't reserve_op =
    Reserve "'t reserve_args"
  | Release lock_key string
  | Release_All "string option"
  | Prune 't

fun reserve_do :: "'t :: linorder reserve_op \<Rightarrow> 't reservations \<Rightarrow> 't reservations" where
  "reserve_do (Reserve a) rs = snd (reserve_reduce a rs)"
| "reserve_do (Release key token) rs = snd (release_reservation key token rs)"
| "reserve_do (Release_All account) rs = snd (release_all_reservations account rs)"
| "reserve_do (Prune now) rs = snd (prune_expired now rs)"

definition reserved :: "lock_key \<Rightarrow> 't reservations \<Rightarrow> rat" where
  \<comment> \<open>the exact total of a position\<close>
  "reserved key rs = sum_list (map (\<lambda>(token, r). rr_quantity r) (of_key key rs))"

section \<open>Quantities on the grid\<close>

text \<open>Quantities of the venue are multiples of \<open>10 ^ - 8\<close>, and below \<open>10 ^ 20\<close>: sums and differences
  of such values are exact.\<close>

definition on_grid :: "rat \<Rightarrow> bool" where
  "on_grid q \<longleftrightarrow> (\<exists>n :: int. q = of_int n / 10 ^ 8)"

lemma on_step_grid_add: "on_grid a \<Longrightarrow> on_grid b \<Longrightarrow> on_grid (a + b)"
  unfolding on_grid_def by (metis add_divide_distrib of_int_add)

lemma on_grid_diff: "on_grid a \<Longrightarrow> on_grid b \<Longrightarrow> on_grid (a - b)"
  unfolding on_grid_def by (metis diff_divide_distrib of_int_diff)

lemma on_grid_0 [simp]: "on_grid 0"
  unfolding on_grid_def by (rule exI [of _ 0]) simp

lemma grid_round:
  assumes "on_grid q" and "\<bar>q\<bar> < 10 ^ 20"
  shows "dec_round q = q"
proof -
  obtain n :: int where n: "q = of_int n / 10 ^ 8" using assms(1) by (auto simp: on_grid_def)
  have "\<bar>of_int n :: rat\<bar> < 10 ^ 28" using assms(2) by (simp add: n)
  then have "\<bar>n\<bar> < 10 ^ 28" by (metis of_int_abs of_int_less_iff of_int_numeral of_int_power)
  then show ?thesis by (intro dec_round_exact [of _ n "- 8"]) (simp_all add: n pow10_def)
qed

lemma grid_sum_list: "\<forall>x \<in> set xs. on_grid x \<Longrightarrow> on_grid (sum_list xs)"
  by (induction xs) (auto intro: on_step_grid_add)

lemma grid_foldl:
  assumes "on_grid s" and "0 \<le> s"
  shows "\<forall>x \<in> set xs. on_grid x \<and> 0 \<le> x \<Longrightarrow> s + sum_list xs < 10 ^ 20 \<Longrightarrow> foldl dec_add s xs = s + sum_list xs"
  using assms
proof (induction xs arbitrary: s)
  case (Cons x xs)
  have x: "on_grid x" "0 \<le> x" and xs: "\<forall>x \<in> set xs. on_grid x \<and> 0 \<le> x" using Cons.prems(1) by auto
  have "0 \<le> sum_list xs" using xs by (intro sum_list_nonneg) auto
  then have "dec_add s x = s + x"
    unfolding dec_add_def using Cons.prems(2-4) x by (intro grid_round on_step_grid_add) auto
  then show ?case using Cons.IH [OF xs, of "s + x"] Cons.prems(2-4) x on_step_grid_add by (simp add: add.assoc)
qed simp

lemma grid_dec_sum:
  "\<forall>x \<in> set xs. on_grid x \<and> 0 \<le> x \<Longrightarrow> sum_list xs < 10 ^ 20 \<Longrightarrow> dec_sum xs = sum_list xs"
  using grid_foldl [of 0 xs] by (simp add: dec_sum_def)


section \<open>What is reserved\<close>

definition quantities :: "lock_key \<Rightarrow> 't reservations \<Rightarrow> rat list" where
  "quantities key rs = map (\<lambda>(token, r). rr_quantity r) (of_key key rs)"

definition grid_ok :: "(lock_key \<Rightarrow> rat) \<Rightarrow> 't reservations \<Rightarrow> bool" where
  \<comment> \<open>every reserved quantity is on the grid and at least zero, and the total of a position within its bound\<close>
  "grid_ok bound rs \<longleftrightarrow> distinct (map fst rs) \<and> (\<forall>key d. (key, d) \<in> set rs \<longrightarrow> distinct (map fst d)) \<and>
     (\<forall>key. (\<forall>q \<in> set (quantities key rs). on_grid q \<and> 0 \<le> q) \<and> reserved key rs \<le> bound key)"

lemma reserved_quantities: "reserved key rs = sum_list (quantities key rs)"
  by (simp add: reserved_def quantities_def)

lemma of_key_put: "of_key k (dict_put key d rs) = (if k = key then d else of_key k rs)"
  by (simp add: of_key_def dict_get_put)

lemma of_key_del: "of_key k (dict_del key rs) = (if k = key then [] else of_key k rs)"
  by (simp add: of_key_def dict_get_del)

lemma of_key_set: "of_key key rs = [] \<or> (key, of_key key rs) \<in> set rs"
  by (auto simp: of_key_def map_of_SomeD split: option.split)

lemma of_key_filter:
  "distinct (map fst rs) \<Longrightarrow> of_key k (filter (\<lambda>(key, d). P key d) rs) = (if P k (of_key k rs) then of_key k rs else [])"
proof (induction rs)
  case (Cons a rs)
  obtain key d where a: "a = (key, d)" by fastforce
  have "dict_get rs key = None" "dict_get (filter (\<lambda>(key, d). P key d) rs) key = None"
    using Cons.prems a by (auto simp: map_of_eq_None_iff)
  then have none: "of_key key rs = []" "of_key key (filter (\<lambda>(key, d). P key d) rs) = []"
    by (simp_all add: of_key_def)
  show ?case
    using Cons none by (cases "k = key") (auto simp: a of_key_def)
qed (simp add: of_key_def)

lemma of_key_map: "of_key k (map (\<lambda>(key, d). (key, f d)) rs) = (case dict_get rs k of None \<Rightarrow> [] | Some d \<Rightarrow> f d)"
  by (induction rs) (auto simp: of_key_def)

lemma of_key_prune:
  assumes "distinct (map fst rs)"
  shows "of_key k (snd (prune_expired now rs)) = unexpired now (of_key k rs)"
proof -
  have d: "distinct (map fst (map (\<lambda>(key, d). (key, unexpired now d)) rs))"
    using assms by (simp add: case_prod_unfold comp_def)
  have "of_key k (map (\<lambda>(key, d). (key, unexpired now d)) rs) = unexpired now (of_key k rs)"
    unfolding of_key_map by (simp add: of_key_def unexpired_def split: option.split)
  then show ?thesis using of_key_filter [OF d, of k "\<lambda>key d. d \<noteq> []"] by (simp add: prune_expired_def)
qed

lemma sum_list_filter_le:
  "\<forall>x \<in> set xs. (0 :: rat) \<le> f x \<Longrightarrow> sum_list (map f (filter P xs)) \<le> sum_list (map f xs)"
  by (induction xs) auto

lemma grid_okD:
  assumes "grid_ok bound rs"
  shows "distinct (map fst rs)" and "distinct (map fst (of_key key rs))"
    and "q \<in> set (quantities key rs) \<Longrightarrow> on_grid q \<and> 0 \<le> q" and "reserved key rs \<le> bound key"
  using assms of_key_set [of key rs] by (auto simp: grid_ok_def)

text \<open>Removing reservations keeps the invariant.\<close>

lemma grid_ok_less:
  assumes "grid_ok bound rs" and "distinct (map fst ts)"
    and "\<And>key d. (key, d) \<in> set ts \<Longrightarrow> distinct (map fst d)"
    and "\<And>key. \<exists>P. of_key key ts = filter P (of_key key rs)"
  shows "grid_ok bound ts"
  unfolding grid_ok_def
proof (intro conjI allI impI ballI)
  fix key
  obtain P where P: "of_key key ts = filter P (of_key key rs)" using assms(4) by blast
  show "reserved key ts \<le> bound key"
    using sum_list_filter_le [where xs = "of_key key rs" and f = "\<lambda>(token, r). rr_quantity r" and P = P] grid_okD(3) [OF assms(1), of _ key] grid_okD(4) [OF assms(1), of key]
    unfolding reserved_def P by (fastforce simp: quantities_def reserved_def)
  fix q
  assume "q \<in> set (quantities key ts)"
  then have "q \<in> set (quantities key rs)" by (auto simp: quantities_def P)
  then show "on_grid q" and "0 \<le> q" using grid_okD(3) [OF assms(1)] by auto
qed (use assms(2,3) in auto)

lemma prune_ok:
  assumes "grid_ok bound rs"
  shows "grid_ok bound (snd (prune_expired now rs))"
proof (rule grid_ok_less [OF assms])
  show "distinct (map fst (snd (prune_expired now rs)))"
    using grid_okD(1) [OF assms] by (simp add: prune_expired_def distinct_map_filter case_prod_unfold comp_def)
  show "distinct (map fst d)" if "(key, d) \<in> set (snd (prune_expired now rs))" for key d
    using that assms by (auto simp: prune_expired_def unexpired_def grid_ok_def distinct_map_filter)
  show "\<exists>P. of_key key (snd (prune_expired now rs)) = filter P (of_key key rs)" for key
    using of_key_prune [OF grid_okD(1) [OF assms]] unexpired_def by metis
qed

lemma delete_is_filter: "dict_del token d = filter (\<lambda>(t, r). t \<noteq> token) d"
  by (auto simp: AList.delete_eq intro: filter_cong)

lemma put_set: "(k, e) \<in> set (dict_put key d rs) \<Longrightarrow> (k, e) \<in> set rs \<or> e = d"
  by (induction rs) (auto split: if_splits)

lemma release_ok:
  assumes "grid_ok bound rs"
  shows "grid_ok bound (snd (release_reservation key token rs))"
proof (cases "dict_get rs key")
  case (Some d)
  let ?d = "dict_del token d"
  have dd: "of_key key rs = d" and din: "(key, d) \<in> set rs" using Some by (auto simp: of_key_def map_of_SomeD)
  let ?t = "if ?d = [] then dict_del key rs else dict_put key ?d rs"
  have "grid_ok bound ?t"
  proof (rule grid_ok_less [OF assms])
    show "distinct (map fst ?t)"
      using grid_okD(1) [OF assms] by (auto simp: distinct_update distinct_delete)
    show "distinct (map fst e)" if "(k, e) \<in> set ?t" for k e
    proof -
      have "distinct (map fst ?d)" using grid_okD(2) [OF assms, of key] dd by (simp add: distinct_delete)
      moreover have "(k, e) \<in> set rs \<or> e = ?d"
        using that put_set [of k e key ?d rs] by (auto split: if_splits simp: delete_is_filter)
      ultimately show ?thesis using assms by (auto simp: grid_ok_def)
    qed
    show "\<exists>P. of_key k ?t = filter P (of_key k rs)" for k
    proof (cases "k = key")
      case True
      then have "of_key k ?t = filter (\<lambda>(t, r). t \<noteq> token) (of_key k rs)"
        using dd delete_is_filter [of token d] by (simp add: of_key_put of_key_del)
      then show ?thesis by blast
    next
      case False
      then have "of_key k ?t = filter (\<lambda>_. True) (of_key k rs)" by (simp add: of_key_put of_key_del)
      then show ?thesis by blast
    qed
  qed
  then show ?thesis using Some by (simp add: release_reservation_def Let_def)
qed (use assms in \<open>simp add: release_reservation_def\<close>)

lemma release_all_ok:
  assumes "grid_ok bound rs"
  shows "grid_ok bound (snd (release_all_reservations account rs))"
proof (cases account)
  case None
  have "grid_ok bound (filter (\<lambda>_. False) rs)"
  proof (rule grid_ok_less [OF assms])
    show "\<exists>P. of_key key (filter (\<lambda>_. False) rs) = filter P (of_key key rs)" for key
      by (rule exI [of _ "\<lambda>_. False"]) (simp add: of_key_def)
  qed simp_all
  then show ?thesis using None by (simp add: release_all_reservations_def)
next
  case (Some v)
  have "grid_ok bound (filter (\<lambda>(key, d). lock_key_account key \<noteq> strip v) rs)"
  proof (rule grid_ok_less [OF assms])
    show "distinct (map fst (filter (\<lambda>(key, d). lock_key_account key \<noteq> strip v) rs))"
      using grid_okD(1) [OF assms] by (simp add: distinct_map_filter)
    show "\<exists>P. of_key k (filter (\<lambda>(key, d). lock_key_account key \<noteq> strip v) rs) = filter P (of_key k rs)" for k
      using of_key_filter [OF grid_okD(1) [OF assms], of k "\<lambda>key d. lock_key_account key \<noteq> strip v"]
      by (auto intro: exI [of _ "\<lambda>_. False"] exI [of _ "\<lambda>_. True"])
  qed (use assms in \<open>auto simp: grid_ok_def\<close>)
  then show ?thesis using Some assms by (simp add: release_all_reservations_def)
qed


lemma put_sum:
  "\<forall>x \<in> set d. 0 \<le> f (snd x) \<Longrightarrow> sum_list (map (\<lambda>x. f (snd x)) (dict_put k r d)) \<le> sum_list (map (\<lambda>x. f (snd x)) d) + (f r :: rat)"
  by (induction d) auto

lemma put_quantities: "q \<in> set (map (\<lambda>(token, r). rr_quantity r) (dict_put k r d)) \<Longrightarrow>
    q = rr_quantity r \<or> q \<in> set (map (\<lambda>(token, r). rr_quantity r) d)"
  by (force dest!: put_set)

text \<open>The bounds under which the arithmetic of a reservation is exact.\<close>

definition bounds_ok :: "(lock_key \<Rightarrow> rat) \<Rightarrow> bool" where
  "bounds_ok bound \<longleftrightarrow> (\<forall>key. 0 \<le> bound key \<and> bound key \<le> 10 ^ 19)"

definition args_on_grid :: "(lock_key \<Rightarrow> rat) \<Rightarrow> 't reserve_args \<Rightarrow> bool" where
  \<comment> \<open>all quantities are on the grid, and the confirmed one is within the bound of its position\<close>
  "args_on_grid bound a \<longleftrightarrow> (\<exists>r c k. ra_requested a = DFin r \<and> ra_confirmed a = DFin c \<and> ra_existing a = DFin k \<and>
     on_grid r \<and> on_grid c \<and> on_grid k \<and> k \<le> 10 ^ 19 \<and>
     (\<forall>key. mk_position_lock (ra_account_id a) (ra_symbol a) (ra_side a) (ra_exchange a) = Inr key \<longrightarrow> c \<le> bound key))"

lemma safe_reduce_exact:
  assumes "calculate_safe_reduce (DFin r) (DFin c) (DFin (dec_add k l)) = Inr s" and "0 < sr_allowed s"
    and "on_grid r" and "on_grid c" and "on_grid k" and "on_grid l"
    and "0 \<le> k" and "k \<le> 10 ^ 19" and "0 \<le> l" and "l \<le> 10 ^ 19" and "c \<le> 10 ^ 19"
  shows "sr_allowed s + k + l \<le> c" and "on_grid (sr_allowed s)"
proof -
  have a: "dec_add k l = k + l"
    unfolding dec_add_def using assms(5-10) by (intro grid_round on_step_grid_add) auto
  have s: "0 \<le> c" "sr_allowed s = min r (max (dec_sub c (k + l)) 0)"
    using safe_reduce_Inr [OF assms(1)] by (simp_all add: a)
  have "dec_sub c (k + l) = c - (k + l)"
    unfolding dec_sub_def using assms(4-11) s(1) by (intro grid_round on_grid_diff on_step_grid_add) (auto simp: abs_if)
  then show "sr_allowed s + k + l \<le> c" and "on_grid (sr_allowed s)"
    using s assms(2-6) by (auto simp: min_def max_def intro: on_grid_diff on_step_grid_add split: if_splits)
qed

lemma reserve_put_ok:
  assumes "grid_ok bound rs" and "on_grid q" and "0 \<le> q" and "reserved key rs + q \<le> bound key"
  shows "grid_ok bound (dict_put key (dict_put token \<lparr>rr_quantity = q, rr_expires = e\<rparr> (of_key key rs)) rs)"
    (is "grid_ok _ (dict_put key ?d rs)")
  unfolding grid_ok_def
proof (intro conjI allI impI ballI)
  show "distinct (map fst (dict_put key ?d rs))" using grid_okD(1) [OF assms(1)] by (rule distinct_put)
  have "distinct (map fst ?d)" using grid_okD(2) [OF assms(1)] by (rule distinct_put)
  then show "distinct (map fst d)" if "(k, d) \<in> set (dict_put key ?d rs)" for k d
    using put_set [OF that] assms(1) by (auto simp: grid_ok_def)
  fix k
  have "\<forall>x \<in> set (of_key key rs). 0 \<le> rr_quantity (snd x)"
    using grid_okD(3) [OF assms(1), of _ key] by (fastforce simp: quantities_def)
  from put_sum [OF this, of token "\<lparr>rr_quantity = q, rr_expires = e\<rparr>"]
  have "reserved key (dict_put key ?d rs) \<le> reserved key rs + q"
    by (simp add: reserved_def of_key_put case_prod_unfold)
  then show "reserved k (dict_put key ?d rs) \<le> bound k"
    using assms(4) grid_okD(4) [OF assms(1), of k] by (cases "k = key") (auto simp: reserved_def of_key_put)
  fix x
  assume "x \<in> set (quantities k (dict_put key ?d rs))"
  then have "x = q \<or> x \<in> set (quantities k rs)"
    using put_quantities [of x token "\<lparr>rr_quantity = q, rr_expires = e\<rparr>" "of_key key rs"]
    by (auto simp: quantities_def of_key_put split: if_splits)
  then show "on_grid x" and "0 \<le> x" using grid_okD(3) [OF assms(1)] assms(2,3) by auto
qed

lemma pending_eq:
  "pending_reduce_quantity now key rs = (Inr (dec_sum (quantities key (snd (prune_expired now rs)))), snd (prune_expired now rs))"
  by (simp add: pending_reduce_quantity_def py_then_def py_bind_eq prune_expired_def quantities_def)

lemma prune_then: "py_then (prune_expired now) m rs = m (snd (prune_expired now rs))"
  by (simp add: py_then_def py_bind_eq prune_expired_def)

lemma mod_then: "py_then (py_mod f) m rs = m (f rs)"
  by (simp add: py_then_def)

lemma reserve_ok:
  assumes "grid_ok bound rs" and "bounds_ok bound" and "args_on_grid bound a"
  shows "grid_ok bound (snd (reserve_reduce a rs))"
proof -
  obtain r c k where v: "ra_requested a = DFin r" "ra_confirmed a = DFin c" "ra_existing a = DFin k"
    "on_grid r" "on_grid c" "on_grid k" "k \<le> 10 ^ 19"
    and bnd: "\<And>key. mk_position_lock (ra_account_id a) (ra_symbol a) (ra_side a) (ra_exchange a) = Inr key \<Longrightarrow> c \<le> bound key"
    using assms(3) by (auto simp: args_on_grid_def)
  let ?t = "snd (prune_expired (fst (ra_clock a)) rs)"
  have t: "grid_ok bound ?t" by (rule prune_ok [OF assms(1)])
  show ?thesis
  proof (cases "mk_position_lock (ra_account_id a) (ra_symbol a) (ra_side a) (ra_exchange a)")
    case key: (Inr key)
    let ?l = "reserved key ?t"
    have b: "0 \<le> bound key" "bound key \<le> 10 ^ 19" using assms(2) by (auto simp: bounds_ok_def)
    have l: "on_grid ?l" "0 \<le> ?l" "?l \<le> 10 ^ 19" "dec_sum (quantities key ?t) = ?l"
      using grid_okD(3) [OF t, of _ key] grid_okD(4) [OF t, of key] b
      by (auto simp: reserved_quantities intro: grid_sum_list sum_list_nonneg grid_dec_sum)
    show ?thesis
    proof (cases "ra_lock a"; cases "ra_check a")
      fix u u'
      assume ok: "ra_lock a = Inr u" "ra_check a = Inr u'"
      show ?thesis
      proof (cases "k < 0")
        case True
        then have "require_nonnegative ''existing_pending_reduce_quantity'' (DFin k)
            = Inl (Exn HedgeDataError (''existing_pending_reduce_quantity'' @ '' must be nonnegative.''))"
          by (simp add: require_nonnegative_def to_decimal_def)
        then show ?thesis using key ok v(3) t by (simp add: reserve_reduce_def py_bind_eq pending_eq)
      next
        case k: False
        show ?thesis
        proof (cases "calculate_safe_reduce (DFin r) (DFin c) (DFin (dec_add k ?l))")
          case (Inl e)
          then show ?thesis using key ok v(1-3) t k l(4) by (simp add: reserve_reduce_def py_bind_eq pending_eq not_less)
        next
          case s: (Inr s)
          show ?thesis
          proof (cases "0 < sr_allowed s")
            case True
            have c: "c \<le> 10 ^ 19" using bnd [OF key] b by simp
            note exact = safe_reduce_exact [OF s True v(4-6) l(1) _ v(7) l(2,3) c]
            let ?u = "snd (prune_expired (snd (snd (ra_clock a))) ?t)"
            have u: "grid_ok bound ?u" by (rule prune_ok [OF t])
            obtain P where "of_key key ?u = filter P (of_key key ?t)"
              using of_key_prune [OF grid_okD(1) [OF t]] unexpired_def by metis
            then have "reserved key ?u \<le> ?l"
              using sum_list_filter_le [where xs = "of_key key ?t" and f = "\<lambda>(token, r). rr_quantity r" and P = P]
                grid_okD(3) [OF t, of _ key] by (fastforce simp: reserved_def quantities_def)
            then have "reserved key ?u + sr_allowed s \<le> bound key"
              using exact(1) k bnd [OF key] by linarith
            then have "grid_ok bound (dict_put key (dict_put (uuid_hex (ra_uid a)) \<lparr>rr_quantity = sr_allowed s,
                rr_expires = ra_plus_ttl a (fst (snd (ra_clock a)))\<rparr> (of_key key ?u)) ?u)"
              using exact(2) True k by (intro reserve_put_ok [OF u]) auto
            then show ?thesis using key ok v(1-3) k l(4) s True
              by (simp add: reserve_reduce_def py_bind_eq prune_then mod_then pending_eq not_less Let_def)
          next
            case False
            then show ?thesis using key ok v(1-3) t k l(4) s
              by (simp add: reserve_reduce_def py_bind_eq pending_eq not_less Let_def)
          qed
        qed
      qed
    qed (use assms(1) key in \<open>simp_all add: reserve_reduce_def py_bind_eq\<close>)
  qed (use assms(1) in \<open>simp add: reserve_reduce_def py_bind_eq\<close>)
qed


section \<open>Properties\<close>


definition demo_reserve :: "nat \<Rightarrow> nat reserve_args" where
  "demo_reserve uid = \<lparr>ra_lock = Inr (), ra_check = Inr (), ra_account_id = ''main'', ra_symbol = ''ETHUSDT'',
     ra_side = Inr ''long'', ra_exchange = ''binance'', ra_requested = DFin 2, ra_confirmed = DFin 3,
     ra_existing = DFin 0, ra_uid = uid, ra_clock = (uid, uid, uid), ra_plus_ttl = (\<lambda>t. t + 30)\<rparr>"


end
