(* ===== verification/Risk_Models.thy ===== *)
theory Risk_Models
  imports Hedge_Symbols Risk_Numeric
begin

text \<open>
  The data of the risk modules with their validation: \<open>freqtrade/hedge/risk/limits.py\<close>,
  \<open>models.py\<close>, \<open>liquidation.py\<close> and the leg of \<open>portfolio.py\<close>. A record whose numbers
  are still unchecked has the type \<open>dec\<close> in its parameter, a validated one \<open>rat\<close>; an
  arithmetic operation of the code is one of the rounding operations of the decimal context.
  The \<open>as_dict\<close> views are not modelled.
\<close>

definition config_error :: "string \<Rightarrow> 'a res" where
  "config_error m = Inl (Exn HedgeConfigurationError m)"

lemma config_error_Inr [simp]: "config_error m \<noteq> Inr x"
  by (simp add: config_error_def)

lemma if_config_Inr: "(if b then config_error m else r) = Inr y \<longleftrightarrow> \<not> b \<and> r = Inr y"
  by simp

definition dec_abs :: "rat \<Rightarrow> rat" where "dec_abs q = dec_round \<bar>q\<bar>"
definition dec_neg :: "rat \<Rightarrow> rat" where "dec_neg q = dec_round (- q)"

definition normalized_account_id :: "string \<Rightarrow> string res" where
  "normalized_account_id v = (if strip v = [] then config_error ''account_id must not be empty.''
     else Inr (strip v))"

fun increases_risk :: "intent_action \<Rightarrow> bool" where
  "increases_risk OPEN = True"
| "increases_risk INCREASE = True"
| "increases_risk _ = False"

lemma reduces_increases: "reduces_risk a \<longleftrightarrow> \<not> increases_risk a"
  by (cases a) (simp_all add: reduces_risk_def)

definition hedge_action :: "intent_action + string \<Rightarrow> intent_action res" where
  "hedge_action v = (case v of
     Inl a \<Rightarrow> Inr a
   | Inr t \<Rightarrow> if upper t = ''OPEN'' then Inr OPEN else if upper t = ''INCREASE'' then Inr INCREASE
       else if upper t = ''REDUCE'' then Inr REDUCE else if upper t = ''CLOSE'' then Inr CLOSE
       else Inl (Exn ValueError (upper t @ '' is not a valid PositionAction'')))"

definition dict_fromkeys :: "'a list \<Rightarrow> 'a list" where
  "dict_fromkeys xs = map fst (fold (\<lambda>x d. dict_put x () d) xs [])"

definition code_texts :: "exn \<Rightarrow> string list \<Rightarrow> string list res" where
  \<comment> \<open>reason codes and errors: stripped, none empty, each once\<close>
  "code_texts e xs = (let texts = filter (\<lambda>x. x \<noteq> []) (map strip xs) in
     if length texts \<noteq> length xs then Inl e else Inr (dict_fromkeys texts))"

section \<open>Limits\<close>

record 'd risk_limits =
  max_margin_utilization :: 'd
  min_liquidation_buffer_ratio :: 'd
  max_gross_notional :: "'d option"
  max_gross_exposure_ratio :: "'d option"
  max_single_order_notional :: "'d option"
  max_leg_notional :: "'d option"
  max_symbol_gross_notional :: "'d option"
  max_net_notional :: "'d option"
  max_net_exposure_ratio :: "'d option"
  max_long_notional :: "'d option"
  max_short_notional :: "'d option"
  max_long_exposure_ratio :: "'d option"
  max_short_exposure_ratio :: "'d option"
  max_pending_order_notional :: "'d option"
  max_pending_order_initial_margin :: "'d option"
  min_available_balance :: 'd

definition mk_risk_limits :: "dec risk_limits \<Rightarrow> rat risk_limits res" where
  "mk_risk_limits l =
     res_bind (require_unit_interval ''max_margin_utilization'' (max_margin_utilization l)) (\<lambda>mu.
     res_bind (require_unit_interval ''min_liquidation_buffer_ratio'' (min_liquidation_buffer_ratio l)) (\<lambda>lb.
     let pos = (\<lambda>f. opt_require (require_positive f)) in
     res_bind (pos ''max_gross_notional'' (max_gross_notional l)) (\<lambda>g.
     res_bind (pos ''max_single_order_notional'' (max_single_order_notional l)) (\<lambda>so.
     res_bind (pos ''max_leg_notional'' (max_leg_notional l)) (\<lambda>lg.
     res_bind (pos ''max_symbol_gross_notional'' (max_symbol_gross_notional l)) (\<lambda>sy.
     res_bind (pos ''max_net_notional'' (max_net_notional l)) (\<lambda>nt.
     res_bind (pos ''max_long_notional'' (max_long_notional l)) (\<lambda>ln.
     res_bind (pos ''max_short_notional'' (max_short_notional l)) (\<lambda>sn.
     res_bind (pos ''max_pending_order_notional'' (max_pending_order_notional l)) (\<lambda>pn.
     res_bind (pos ''max_pending_order_initial_margin'' (max_pending_order_initial_margin l)) (\<lambda>pm.
     res_bind (pos ''max_gross_exposure_ratio'' (max_gross_exposure_ratio l)) (\<lambda>gr.
     res_bind (pos ''max_net_exposure_ratio'' (max_net_exposure_ratio l)) (\<lambda>nr.
     res_bind (pos ''max_long_exposure_ratio'' (max_long_exposure_ratio l)) (\<lambda>lr.
     res_bind (pos ''max_short_exposure_ratio'' (max_short_exposure_ratio l)) (\<lambda>sr.
     res_bind (require_nonnegative ''min_available_balance'' (min_available_balance l)) (\<lambda>ab.
     if g = None \<and> gr = None
     then config_error ''Set max_gross_notional or max_gross_exposure_ratio.''
     else Inr \<lparr>max_margin_utilization = mu, min_liquidation_buffer_ratio = lb,
       max_gross_notional = g, max_gross_exposure_ratio = gr, max_single_order_notional = so,
       max_leg_notional = lg, max_symbol_gross_notional = sy, max_net_notional = nt,
       max_net_exposure_ratio = nr, max_long_notional = ln, max_short_notional = sn,
       max_long_exposure_ratio = lr, max_short_exposure_ratio = sr,
       max_pending_order_notional = pn, max_pending_order_initial_margin = pm,
       min_available_balance = ab\<rparr>))))))))))))))))"

section \<open>The account\<close>

record 'd account_risk =
  ar_account_id :: string
  ar_equity :: 'd
  ar_wallet_balance :: 'd
  ar_available_balance :: 'd
  ar_initial_margin :: 'd
  ar_maintenance_margin :: 'd
  ar_gross_long :: 'd
  ar_gross_short :: 'd
  ar_net_notional :: 'd
  ar_pending_notional :: 'd
  ar_liquidation_buffer_ratio :: 'd
  ar_risk_data_valid :: bool
  ar_observed_at_ms :: "int option"
  ar_pending_initial_margin :: 'd
  ar_pending_net_delta :: 'd
  ar_pending_long :: 'd
  ar_pending_short :: 'd
  ar_pending_maintenance :: 'd
  ar_exchange :: string
  ar_snapshot_id :: string
  ar_source_version :: int
  ar_exchange_time_ms :: "int option"
  ar_liquidation_data_complete :: bool
  ar_maintenance_margin_complete :: bool
  ar_risk_data_errors :: "string list"

definition net_tolerance :: "rat \<Rightarrow> rat" where
  "net_tolerance gross_total = max (1 / 10 ^ 8) (dec_mul gross_total (1 / 10 ^ 12))"

definition bad_time :: "int option \<Rightarrow> bool" where
  "bad_time t = (case t of None \<Rightarrow> False | Some n \<Rightarrow> n < 0)"

definition mk_account_risk :: "dec account_risk \<Rightarrow> rat account_risk res" where
  "mk_account_risk a =
     res_bind (normalized_account_id (ar_account_id a)) (\<lambda>account_id.
     res_bind (require_nonnegative ''equity'' (ar_equity a)) (\<lambda>equity.
     res_bind (require_nonnegative ''wallet_balance'' (ar_wallet_balance a)) (\<lambda>wallet.
     res_bind (require_nonnegative ''available_balance'' (ar_available_balance a)) (\<lambda>avail.
     res_bind (require_nonnegative ''initial_margin'' (ar_initial_margin a)) (\<lambda>im.
     res_bind (require_nonnegative ''maintenance_margin'' (ar_maintenance_margin a)) (\<lambda>mm.
     res_bind (require_nonnegative ''gross_long_notional'' (ar_gross_long a)) (\<lambda>gl.
     res_bind (require_nonnegative ''gross_short_notional'' (ar_gross_short a)) (\<lambda>gs.
     res_bind (require_nonnegative ''pending_order_notional'' (ar_pending_notional a)) (\<lambda>pn.
     res_bind (require_nonnegative ''pending_order_initial_margin'' (ar_pending_initial_margin a)) (\<lambda>pim.
     res_bind (require_nonnegative ''pending_long_notional'' (ar_pending_long a)) (\<lambda>pl.
     res_bind (require_nonnegative ''pending_short_notional'' (ar_pending_short a)) (\<lambda>ps.
     res_bind (require_nonnegative ''pending_order_maintenance_margin'' (ar_pending_maintenance a)) (\<lambda>pmm.
     if equity \<le> 0 then config_error ''equity must be positive.'' else
     if strip (ar_exchange a) = [] then config_error ''exchange must not be empty.'' else
     if strip (ar_snapshot_id a) = [] then config_error ''snapshot_id must not be empty.'' else
     if ar_source_version a < 0 then config_error ''source_version must be a nonnegative integer.'' else
     res_bind (code_texts (Exn HedgeConfigurationError ''risk_data_errors must contain non-empty strings only.'')
       (ar_risk_data_errors a)) (\<lambda>errors.
     res_bind (to_decimal ''net_notional'' (ar_net_notional a)) (\<lambda>net.
     res_bind (to_decimal ''pending_net_notional_delta'' (ar_pending_net_delta a)) (\<lambda>delta.
     if dec_abs delta > pn
     then config_error ''abs(pending_net_notional_delta) must not exceed pending_order_notional.'' else
     if pim > pn then config_error ''pending_order_initial_margin must not exceed pending_order_notional.'' else
     if dec_add pl ps > pn
     then config_error ''pending_long_notional + pending_short_notional must not exceed pending_order_notional.'' else
     if dec_abs (dec_sub net (dec_sub gl gs)) > net_tolerance (dec_add gl gs)
     then config_error ''net_notional must equal gross_long_notional - gross_short_notional within the configured numeric tolerance.'' else
     res_bind (require_unit_interval ''liquidation_buffer_ratio'' (ar_liquidation_buffer_ratio a)) (\<lambda>lbr.
     if bad_time (ar_observed_at_ms a) then config_error ''observed_at_ms must not be negative.'' else
     if bad_time (ar_exchange_time_ms a) then config_error ''exchange_time_ms must not be negative.'' else
     Inr \<lparr>ar_account_id = account_id, ar_equity = equity, ar_wallet_balance = wallet,
       ar_available_balance = avail, ar_initial_margin = im, ar_maintenance_margin = mm,
       ar_gross_long = gl, ar_gross_short = gs, ar_net_notional = net, ar_pending_notional = pn,
       ar_liquidation_buffer_ratio = lbr, ar_risk_data_valid = ar_risk_data_valid a,
       ar_observed_at_ms = ar_observed_at_ms a, ar_pending_initial_margin = pim,
       ar_pending_net_delta = delta, ar_pending_long = pl, ar_pending_short = ps,
       ar_pending_maintenance = pmm, ar_exchange = lower (strip (ar_exchange a)),
       ar_snapshot_id = strip (ar_snapshot_id a), ar_source_version = ar_source_version a,
       ar_exchange_time_ms = ar_exchange_time_ms a,
       ar_liquidation_data_complete = ar_liquidation_data_complete a,
       ar_maintenance_margin_complete = ar_maintenance_margin_complete a,
       ar_risk_data_errors = errors\<rparr>)))))))))))))))))"

definition gross_total_notional :: "rat account_risk \<Rightarrow> rat" where
  "gross_total_notional a = dec_add (ar_gross_long a) (ar_gross_short a)"

definition projected_net_notional :: "rat account_risk \<Rightarrow> rat" where
  "projected_net_notional a = dec_add (ar_net_notional a) (ar_pending_net_delta a)"

definition unattributed_pending_notional :: "rat account_risk \<Rightarrow> rat" where
  "unattributed_pending_notional a =
     max (dec_sub (dec_sub (ar_pending_notional a) (ar_pending_long a)) (ar_pending_short a)) 0"

definition projected_gross_long_notional :: "rat account_risk \<Rightarrow> rat" where
  "projected_gross_long_notional a =
     dec_add (dec_add (ar_gross_long a) (ar_pending_long a)) (unattributed_pending_notional a)"

definition projected_gross_short_notional :: "rat account_risk \<Rightarrow> rat" where
  "projected_gross_short_notional a =
     dec_add (dec_add (ar_gross_short a) (ar_pending_short a)) (unattributed_pending_notional a)"

definition effective_risk_data_valid :: "rat account_risk \<Rightarrow> bool" where
  "effective_risk_data_valid a \<longleftrightarrow> ar_risk_data_valid a \<and> ar_liquidation_data_complete a
     \<and> ar_maintenance_margin_complete a \<and> ar_risk_data_errors a = []"

definition buffer_ratio :: "rat \<Rightarrow> rat \<Rightarrow> rat" where
  \<comment> \<open>of an equity and a maintenance margin\<close>
  "buffer_ratio equity maintenance = min (max (dec_div (dec_sub equity maintenance) equity) 0) 1"

definition projected_maintenance_buffer_ratio :: "rat account_risk \<Rightarrow> rat" where
  "projected_maintenance_buffer_ratio a =
     buffer_ratio (ar_equity a) (dec_add (ar_maintenance_margin a) (ar_pending_maintenance a))"

section \<open>Pending orders and positions\<close>

record ('d, 's, 'a) pending_order =
  po_account_id :: string
  po_symbol :: string
  po_side :: 's
  po_action :: 'a
  po_quantity :: 'd
  po_price :: 'd
  po_leverage :: 'd
  po_rate :: 'd

definition leverage_of :: "dec \<Rightarrow> rat res" where
  "leverage_of v = res_bind (require_positive ''leverage'' v) (\<lambda>leverage.
     if leverage < 1 then config_error ''leverage must be greater than or equal to 1.'' else Inr leverage)"

definition rate_of :: "dec \<Rightarrow> rat res" where
  "rate_of v = res_bind (require_unit_interval ''maintenance_margin_rate'' v) (\<lambda>rate.
     if rate \<le> 0 then config_error ''maintenance_margin_rate must be positive.'' else Inr rate)"

definition mk_pending_order ::
    "(dec, position_side + string, intent_action + string) pending_order \<Rightarrow>
     (rat, position_side, intent_action) pending_order res" where
  "mk_pending_order p =
     res_bind (normalized_account_id (po_account_id p)) (\<lambda>account_id.
     res_bind (hedge_side (Exn HedgeConfigurationError ''Pending hedge order side must be LONG or SHORT.'')
       (po_side p)) (\<lambda>side.
     res_bind (hedge_action (po_action p)) (\<lambda>action.
     res_bind (canonicalize_symbol (po_symbol p)) (\<lambda>sym.
     res_bind (require_nonnegative ''remaining_quantity'' (po_quantity p)) (\<lambda>quantity.
     res_bind (require_positive ''reference_price'' (po_price p)) (\<lambda>price.
     res_bind (leverage_of (po_leverage p)) (\<lambda>leverage.
     res_bind (rate_of (po_rate p)) (\<lambda>rate.
     Inr \<lparr>po_account_id = account_id, po_symbol = sym, po_side = side, po_action = action,
       po_quantity = quantity, po_price = price, po_leverage = leverage, po_rate = rate\<rparr>))))))))"

type_synonym pending_order_risk = "(rat, position_side, intent_action) pending_order"

definition remaining_notional :: "pending_order_risk \<Rightarrow> rat" where
  "remaining_notional p = dec_mul (po_quantity p) (po_price p)"

definition remaining_initial_margin :: "pending_order_risk \<Rightarrow> rat" where
  "remaining_initial_margin p = dec_div (remaining_notional p) (po_leverage p)"

definition remaining_maintenance_margin :: "pending_order_risk \<Rightarrow> rat" where
  "remaining_maintenance_margin p = dec_mul (remaining_notional p) (po_rate p)"

definition side_sign :: "position_side \<Rightarrow> rat" where
  "side_sign s = (case s of LONG \<Rightarrow> 1 | SHORT \<Rightarrow> - 1)"

definition signed_net_notional_delta :: "pending_order_risk \<Rightarrow> rat" where
  "signed_net_notional_delta p = (if \<not> increases_risk (po_action p) then 0
     else dec_mul (side_sign (po_side p)) (remaining_notional p))"

record ('d, 's) risk_leg =
  pl_account_id :: string
  pl_symbol :: string
  pl_side :: 's
  pl_quantity :: 'd
  pl_mark_price :: 'd
  pl_leverage :: 'd
  pl_reported_initial_margin :: "'d option"
  pl_maintenance_margin :: 'd
  pl_liquidation_price :: "'d option"

definition mk_risk_leg :: "(dec, position_side + string) risk_leg \<Rightarrow> (rat, position_side) risk_leg res" where
  "mk_risk_leg p =
     res_bind (normalized_account_id (pl_account_id p)) (\<lambda>account_id.
     res_bind (canonicalize_symbol (pl_symbol p)) (\<lambda>sym.
     res_bind (hedge_side (Exn HedgeConfigurationError ''Hedge position side must be LONG or SHORT.'')
       (pl_side p)) (\<lambda>side.
     res_bind (require_nonnegative ''quantity'' (pl_quantity p)) (\<lambda>quantity.
     res_bind (require_positive ''mark_price'' (pl_mark_price p)) (\<lambda>mark.
     res_bind (leverage_of (pl_leverage p)) (\<lambda>leverage.
     res_bind (require_nonnegative ''maintenance_margin'' (pl_maintenance_margin p)) (\<lambda>maintenance.
     res_bind (opt_require (require_nonnegative ''reported_initial_margin'') (pl_reported_initial_margin p)) (\<lambda>reported.
     res_bind (opt_require (require_nonnegative ''liquidation_price'') (pl_liquidation_price p)) (\<lambda>liquidation.
     Inr \<lparr>pl_account_id = account_id, pl_symbol = sym, pl_side = side, pl_quantity = quantity,
       pl_mark_price = mark, pl_leverage = leverage, pl_reported_initial_margin = reported,
       pl_maintenance_margin = maintenance, pl_liquidation_price = liquidation\<rparr>)))))))))"

type_synonym position_leg = "(rat, position_side) risk_leg"

definition leg_value :: "position_leg \<Rightarrow> rat" where
  \<comment> \<open>the property \<open>notional\<close>\<close>
  "leg_value p = dec_mul (pl_quantity p) (pl_mark_price p)"

definition leg_initial_margin :: "position_leg \<Rightarrow> rat" where
  "leg_initial_margin p = (case pl_reported_initial_margin p of
     Some m \<Rightarrow> m | None \<Rightarrow> dec_div (leg_value p) (pl_leverage p))"

section \<open>Liquidation buffers\<close>

definition leg_liquidation_buffer :: "position_side \<Rightarrow> dec \<Rightarrow> dec \<Rightarrow> rat res" where
  \<comment> \<open>\<open>calculate_leg_liquidation_buffer(...).buffer_ratio\<close>\<close>
  "leg_liquidation_buffer side mark_price liquidation_price =
     res_bind (require_positive ''mark_price'' mark_price) (\<lambda>mark.
     res_bind (require_positive ''liquidation_price'' liquidation_price) (\<lambda>liquidation.
     let ratio = (case side of
       LONG \<Rightarrow> max (dec_div (dec_sub mark liquidation) mark) 0
     | SHORT \<Rightarrow> max (dec_div (dec_sub liquidation mark) mark) 0)
     in require_unit_interval ''buffer_ratio'' (DFin (min ratio 1))))"

definition account_maintenance_buffer :: "dec \<Rightarrow> dec \<Rightarrow> rat res" where
  "account_maintenance_buffer equity maintenance_margin =
     res_bind (require_positive ''equity'' equity) (\<lambda>e.
     res_bind (require_nonnegative ''maintenance_margin'' maintenance_margin) (\<lambda>m.
     Inr (buffer_ratio e m)))"

definition minimum_liquidation_buffer :: "rat list \<Rightarrow> dec \<Rightarrow> rat res" where
  "minimum_liquidation_buffer leg_buffers account_buffer =
     res_bind (require_unit_interval ''account_maintenance_buffer'' account_buffer) (\<lambda>a.
     Inr (fold min leg_buffers a))"

section \<open>Requests and decisions\<close>

record ('d, 's, 'a) risk_request =
  rq_account_id :: string
  rq_symbol :: string
  rq_side :: 's
  rq_action :: 'a
  rq_quantity :: 'd
  rq_price :: 'd
  rq_leg_notional :: 'd
  rq_symbol_notional :: 'd
  rq_pending_leg :: 'd
  rq_pending_symbol :: 'd
  rq_confirmed :: "'d option"
  rq_pending_reduce :: 'd
  rq_leverage :: 'd
  rq_exchange :: string
  rq_intent_id :: string
  rq_idempotency_key :: string
  rq_correlation_id :: string
  rq_expires_at_ms :: "int option"
  rq_target_version :: "int option"
  rq_rate :: 'd

type_synonym request = "(rat, position_side, intent_action) risk_request"

definition nonempty :: "string \<Rightarrow> string \<Rightarrow> string res" where
  "nonempty field v = (if strip v = [] then config_error (field @ '' must not be empty.'') else Inr (strip v))"

definition mk_risk_request :: "(dec, position_side + string, intent_action + string) risk_request \<Rightarrow>
    request res" where
  "mk_risk_request r =
     res_bind (normalized_account_id (rq_account_id r)) (\<lambda>account_id.
     res_bind (hedge_side (Exn HedgeConfigurationError ''Risk request side must be LONG or SHORT.'')
       (rq_side r)) (\<lambda>side.
     res_bind (hedge_action (rq_action r)) (\<lambda>action.
     res_bind (canonicalize_symbol (rq_symbol r)) (\<lambda>sym.
     res_bind (require_positive ''requested_quantity'' (rq_quantity r)) (\<lambda>quantity.
     res_bind (require_positive ''reference_price'' (rq_price r)) (\<lambda>price.
     res_bind (leverage_of (rq_leverage r)) (\<lambda>leverage.
     res_bind (nonempty ''exchange'' (rq_exchange r)) (\<lambda>exchange.
     res_bind (nonempty ''intent_id'' (rq_intent_id r)) (\<lambda>intent_id.
     res_bind (nonempty ''idempotency_key'' (rq_idempotency_key r)) (\<lambda>idem.
     res_bind (nonempty ''correlation_id'' (rq_correlation_id r)) (\<lambda>corr.
     if bad_time (rq_expires_at_ms r) then config_error ''expires_at_ms must be a nonnegative integer.'' else
     if bad_time (rq_target_version r) then config_error ''target_snapshot_version must be a nonnegative integer.'' else
     res_bind (rate_of (rq_rate r)) (\<lambda>rate.
     res_bind (require_nonnegative ''current_leg_notional'' (rq_leg_notional r)) (\<lambda>leg.
     res_bind (require_nonnegative ''current_symbol_gross_notional'' (rq_symbol_notional r)) (\<lambda>symn.
     res_bind (require_nonnegative ''pending_leg_increase_notional'' (rq_pending_leg r)) (\<lambda>pleg.
     res_bind (require_nonnegative ''pending_symbol_increase_notional'' (rq_pending_symbol r)) (\<lambda>psym.
     res_bind (require_nonnegative ''pending_reduce_quantity'' (rq_pending_reduce r)) (\<lambda>pred.
     res_bind (opt_require (require_nonnegative ''confirmed_quantity'') (rq_confirmed r)) (\<lambda>confirmed.
     Inr \<lparr>rq_account_id = account_id, rq_symbol = sym, rq_side = side, rq_action = action,
       rq_quantity = quantity, rq_price = price, rq_leg_notional = leg, rq_symbol_notional = symn,
       rq_pending_leg = pleg, rq_pending_symbol = psym, rq_confirmed = confirmed,
       rq_pending_reduce = pred, rq_leverage = leverage, rq_exchange = lower exchange,
       rq_intent_id = intent_id, rq_idempotency_key = idem, rq_correlation_id = corr,
       rq_expires_at_ms = rq_expires_at_ms r, rq_target_version = rq_target_version r,
       rq_rate = rate\<rparr>))))))))))))))))))"

definition requested_notional :: "request \<Rightarrow> rat" where
  "requested_notional r = dec_mul (rq_quantity r) (rq_price r)"

record risk_decision =
  rd_allowed :: bool
  rd_quantity :: rat
  rd_reasons :: "string list"
  rd_notional :: rat
  rd_snapshot_id :: "string option"

definition mk_decision :: "bool \<Rightarrow> rat \<Rightarrow> string list \<Rightarrow> rat \<Rightarrow> string option \<Rightarrow> risk_decision res" where
  \<comment> \<open>\<open>RiskDecision(...)\<close>; the generated id, the rules version and the time are left out\<close>
  "mk_decision allowed approved_quantity reasons approved_notional snapshot_id =
     res_bind (require_nonnegative ''approved_quantity'' (DFin approved_quantity)) (\<lambda>q.
     res_bind (require_nonnegative ''approved_notional'' (DFin approved_notional)) (\<lambda>n.
     if allowed \<and> (q \<le> 0 \<or> n \<le> 0)
     then config_error ''Allowed risk decision must approve positive quantity and notional.'' else
     if \<not> allowed \<and> (q \<noteq> 0 \<or> n \<noteq> 0)
     then config_error ''Denied risk decision must approve zero quantity/notional.'' else
     res_bind (opt_require (nonempty ''risk_snapshot_id'') snapshot_id) (\<lambda>sid.
     if reasons = [] then config_error ''Risk decision must contain at least one reason code.'' else
     res_bind (code_texts (Exn HedgeConfigurationError ''Risk decision reason_codes must contain non-empty strings only.'')
       reasons) (\<lambda>codes.
     Inr \<lparr>rd_allowed = allowed, rd_quantity = q, rd_reasons = codes, rd_notional = n,
       rd_snapshot_id = sid\<rparr>))))"

end
