(* ===== verification/Risk_Engine.thy ===== *)
theory Risk_Engine
  imports Risk_Portfolio
begin

text \<open>
  The side-aware risk engine, \<open>freqtrade/hedge/risk/engine.py\<close>: an increase is clipped by every
  configured limit in turn, a reduction by the confirmed quantity. The statements that clip are a
  list of steps, run in the code's order; a limit that is not configured is a step that does nothing.
\<close>

section \<open>Clipping\<close>

record clipping =
  cl_notional :: rat
  cl_reasons :: "string list"
  cl_minimum :: rat
  cl_net_reasons :: "string list"

definition clip :: "rat \<Rightarrow> string \<Rightarrow> clipping \<Rightarrow> clipping res" where
  "clip capacity reason_code st = res_bind (require_nonnegative (lower reason_code) (DFin capacity)) (\<lambda>c.
     Inr (if cl_notional st > c
       then st\<lparr>cl_notional := c, cl_reasons := cl_reasons st @ [reason_code]\<rparr> else st))"

definition clip_if :: "rat option \<Rightarrow> (rat \<Rightarrow> rat) \<Rightarrow> string \<Rightarrow> clipping \<Rightarrow> clipping res" where
  \<comment> \<open>\<open>if limit is not None: clip(...)\<close>\<close>
  "clip_if limit capacity reason_code st = (case limit of
     None \<Rightarrow> Inr st | Some l \<Rightarrow> clip (capacity l) reason_code st)"

definition signed_current :: "rat account_risk \<Rightarrow> request \<Rightarrow> rat" where
  "signed_current a r = dec_mul (side_sign (rq_side r)) (projected_net_notional a)"

definition apply_net_limit :: "rat account_risk \<Rightarrow> request \<Rightarrow> rat \<Rightarrow> string \<Rightarrow> string \<Rightarrow> clipping \<Rightarrow>
    clipping res" where
  "apply_net_limit a r limit clipped_reason remediation_reason st =
     (let minimum_required = max (dec_sub (dec_neg limit) (signed_current a r)) 0;
          maximum_allowed = max (dec_sub limit (signed_current a r)) 0
      in clip maximum_allowed clipped_reason
        (st\<lparr>cl_minimum := max (cl_minimum st) minimum_required,
          cl_net_reasons := cl_net_reasons st @ (if minimum_required > 0 then [remediation_reason] else [])\<rparr>))"

definition net_if :: "rat account_risk \<Rightarrow> request \<Rightarrow> rat option \<Rightarrow> (rat \<Rightarrow> rat) \<Rightarrow> string \<Rightarrow> string \<Rightarrow>
    clipping \<Rightarrow> clipping res" where
  "net_if a r limit scale clipped_reason remediation_reason st = (case limit of
     None \<Rightarrow> Inr st | Some l \<Rightarrow> apply_net_limit a r (scale l) clipped_reason remediation_reason st)"

definition side_limits :: "rat risk_limits \<Rightarrow> rat account_risk \<Rightarrow> position_side \<Rightarrow>
    rat \<times> rat option \<times> rat option \<times> string \<times> string" where
  "side_limits l a s = (case s of
     LONG \<Rightarrow> (projected_gross_long_notional a, max_long_notional l, max_long_exposure_ratio l,
       ''LONG_NOTIONAL_CLIPPED'', ''LONG_EXPOSURE_RATIO_CLIPPED'')
   | SHORT \<Rightarrow> (projected_gross_short_notional a, max_short_notional l, max_short_exposure_ratio l,
       ''SHORT_NOTIONAL_CLIPPED'', ''SHORT_EXPOSURE_RATIO_CLIPPED''))"

definition margin_steps :: "rat risk_limits \<Rightarrow> request \<Rightarrow> rat account_risk \<Rightarrow> (clipping \<Rightarrow> clipping res) list" where
  "margin_steps l r a =
     [clip_if (max_single_order_notional l) (\<lambda>m. m) ''SINGLE_ORDER_NOTIONAL_CLIPPED'',
      clip (dec_mul (max (dec_sub (dec_sub (dec_mul (max_margin_utilization l) (ar_equity a))
          (ar_initial_margin a)) (ar_pending_initial_margin a)) 0) (rq_leverage r))
        ''MARGIN_UTILIZATION_CLIPPED'',
      clip (dec_mul (max (dec_sub (ar_available_balance a) (min_available_balance l)) 0) (rq_leverage r))
        ''AVAILABLE_MARGIN_CLIPPED'',
      clip (dec_div (max (dec_sub (dec_sub (dec_mul (ar_equity a)
          (dec_sub 1 (min_liquidation_buffer_ratio l))) (ar_maintenance_margin a))
          (ar_pending_maintenance a)) 0) (rq_rate r))
        ''PROJECTED_LIQUIDATION_BUFFER_CLIPPED'']"

definition exposure_steps :: "rat risk_limits \<Rightarrow> request \<Rightarrow> rat account_risk \<Rightarrow> (clipping \<Rightarrow> clipping res) list" where
  "exposure_steps l r a =
     (case side_limits l a (rq_side r) of (side_current, side_limit, side_ratio, side_code, ratio_code) \<Rightarrow>
     [clip_if (max_pending_order_notional l) (\<lambda>m. max (dec_sub m (ar_pending_notional a)) 0)
        ''PENDING_ORDER_NOTIONAL_CLIPPED'',
      clip_if (max_pending_order_initial_margin l)
        (\<lambda>m. dec_mul (max (dec_sub m (ar_pending_initial_margin a)) 0) (rq_leverage r))
        ''PENDING_ORDER_MARGIN_CLIPPED'',
      clip_if (max_leg_notional l)
        (\<lambda>m. max (dec_sub (dec_sub m (rq_leg_notional r)) (rq_pending_leg r)) 0) ''LEG_NOTIONAL_CLIPPED'',
      clip_if (max_symbol_gross_notional l)
        (\<lambda>m. max (dec_sub (dec_sub m (rq_symbol_notional r)) (rq_pending_symbol r)) 0)
        ''SYMBOL_GROSS_NOTIONAL_CLIPPED'',
      clip_if (max_gross_notional l)
        (\<lambda>m. max (dec_sub (dec_sub m (gross_total_notional a)) (ar_pending_notional a)) 0)
        ''GROSS_NOTIONAL_CLIPPED'',
      clip_if (max_gross_exposure_ratio l)
        (\<lambda>m. max (dec_sub (dec_sub (dec_mul m (ar_equity a)) (gross_total_notional a))
          (ar_pending_notional a)) 0) ''GROSS_EXPOSURE_RATIO_CLIPPED'',
      clip_if side_limit (\<lambda>m. max (dec_sub m side_current) 0) side_code,
      clip_if side_ratio (\<lambda>m. max (dec_sub (dec_mul m (ar_equity a)) side_current) 0) ratio_code])"

definition net_steps :: "rat risk_limits \<Rightarrow> request \<Rightarrow> rat account_risk \<Rightarrow> (clipping \<Rightarrow> clipping res) list" where
  "net_steps l r a =
     [net_if a r (max_net_notional l) (\<lambda>m. m) ''NET_NOTIONAL_CLIPPED''
        ''NET_NOTIONAL_REMEDIATION_INSUFFICIENT'',
      net_if a r (max_net_exposure_ratio l) (\<lambda>m. dec_mul m (ar_equity a)) ''NET_EXPOSURE_RATIO_CLIPPED''
        ''NET_EXPOSURE_REMEDIATION_INSUFFICIENT'']"

fun run_steps :: "(clipping \<Rightarrow> clipping res) list \<Rightarrow> clipping \<Rightarrow> clipping res" where
  "run_steps [] st = Inr st"
| "run_steps (f # fs) st = res_bind (f st) (run_steps fs)"

definition clipped :: "rat risk_limits \<Rightarrow> request \<Rightarrow> rat account_risk \<Rightarrow> clipping res" where
  "clipped l r a = run_steps (margin_steps l r a @ exposure_steps l r a @ net_steps l r a)
     \<lparr>cl_notional = requested_notional r, cl_reasons = [], cl_minimum = 0, cl_net_reasons = []\<rparr>"

section \<open>Decisions\<close>

definition or_codes :: "string list \<Rightarrow> string list \<Rightarrow> string list" where
  \<comment> \<open>\<open>xs or ys\<close>\<close>
  "or_codes xs ys = (if xs = [] then ys else xs)"

definition evaluate_reduce :: "request \<Rightarrow> risk_decision res" where
  "evaluate_reduce r = (case rq_confirmed r of
     None \<Rightarrow> mk_decision False 0 [''CONFIRMED_POSITION_REQUIRED''] 0 None
   | Some confirmed \<Rightarrow>
       res_bind (calculate_safe_reduce (DFin (rq_quantity r)) (DFin confirmed) (DFin (rq_pending_reduce r))) (\<lambda>safe.
       if sr_allowed safe \<le> 0 then mk_decision False 0 [sr_reason safe] 0 None else
       let approved = min (sr_allowed safe) (rq_quantity r) in
       mk_decision True approved [sr_reason safe] (dec_mul approved (rq_price r)) None))"

definition evaluate_increase :: "rat risk_limits \<Rightarrow> request \<Rightarrow> rat account_risk \<Rightarrow> risk_decision res" where
  "evaluate_increase l r a =
     (let denied = (\<lambda>codes. mk_decision False 0 codes 0 (Some (ar_snapshot_id a))) in
      if \<not> effective_risk_data_valid a then denied (or_codes (ar_risk_data_errors a) [''RISK_DATA_INVALID'']) else
      if ar_liquidation_buffer_ratio a < min_liquidation_buffer_ratio l then denied [''LIQUIDATION_BUFFER_LOW''] else
      if projected_maintenance_buffer_ratio a < min_liquidation_buffer_ratio l
      then denied [''PENDING_LIQUIDATION_BUFFER_LOW''] else
      res_bind (clipped l r a) (\<lambda>st.
      if cl_notional st < cl_minimum st then denied (dict_fromkeys (cl_reasons st @ cl_net_reasons st)) else
      res_bind (require_positive ''reference_price'' (DFin (rq_price r))) (\<lambda>price.
      let approved_quantity = min (rq_quantity r) (dec_div (cl_notional st) price) in
      if approved_quantity \<le> 0 then denied (or_codes (cl_reasons st) [''NO_RISK_CAPACITY'']) else
      mk_decision True approved_quantity (or_codes (cl_reasons st) [''WITHIN_LIMITS''])
        (dec_mul approved_quantity price) (Some (ar_snapshot_id a)))))"

definition evaluate_request :: "rat risk_limits \<Rightarrow> request \<Rightarrow> rat account_risk \<Rightarrow> risk_decision res" where
  "evaluate_request l r a =
     (if rq_account_id r \<noteq> ar_account_id a then mk_decision False 0 [''ACCOUNT_ID_MISMATCH''] 0 None
      else if rq_action r \<in> {REDUCE, CLOSE} then evaluate_reduce r else evaluate_increase l r a)"

definition evaluate_portfolio_order :: "rat risk_limits \<Rightarrow> risk_portfolio \<Rightarrow> nat \<times> nat \<times> nat \<Rightarrow> string \<Rightarrow>
    position_side + string \<Rightarrow> intent_action + string \<Rightarrow> dec \<Rightarrow> dec \<Rightarrow> dec \<Rightarrow> dec \<Rightarrow> risk_decision res" where
  "evaluate_portfolio_order l p fresh symb position_side action quantity price leverage rate =
     res_bind (build_request p \<lparr>ri_intent_id = None, ri_idempotency_key = None, ri_correlation_id = None,
       ri_fresh = fresh\<rparr> symb position_side action quantity price leverage None None None rate) (\<lambda>r.
     evaluate_request l r (rp_account p))"

definition evaluate :: "rat risk_limits \<Rightarrow> rat account_risk \<Rightarrow>
    (dec, (position_side + string) option, intent_action) risk_request \<Rightarrow> risk_decision res" where
  \<comment> \<open>the compatibility entry point; a position side of \<open>None\<close> is one that was not given, and the
    account id of the arguments is not read\<close>
  "evaluate l a v = (let confirmed =
       (if rq_side v = None \<and> rq_action v \<in> {REDUCE, CLOSE} \<and> rq_confirmed v = None
        then Some (rq_quantity v) else rq_confirmed v) in
     res_bind (mk_risk_request \<lparr>rq_account_id = ar_account_id a, rq_symbol = rq_symbol v,
       rq_side = (case rq_side v of None \<Rightarrow> Inl LONG | Some s \<Rightarrow> s), rq_action = Inl (rq_action v),
       rq_quantity = rq_quantity v, rq_price = rq_price v, rq_leg_notional = rq_leg_notional v,
       rq_symbol_notional = rq_symbol_notional v, rq_pending_leg = rq_pending_leg v,
       rq_pending_symbol = rq_pending_symbol v, rq_confirmed = confirmed,
       rq_pending_reduce = rq_pending_reduce v, rq_leverage = rq_leverage v,
       rq_exchange = rq_exchange v, rq_intent_id = rq_intent_id v,
       rq_idempotency_key = rq_idempotency_key v, rq_correlation_id = rq_correlation_id v,
       rq_expires_at_ms = rq_expires_at_ms v, rq_target_version = rq_target_version v,
       rq_rate = rq_rate v\<rparr>) (\<lambda>r. evaluate_request l r a))"

end
