(* ===== verification/Risk_Properties.thy ===== *)
theory Risk_Properties
  imports Risk_Engine
begin

text \<open>
  What a decision of the risk engine guarantees: an allowed increase stays within every configured
  limit up to one decimal rounding, an allowed reduction within the confirmed quantity, and an account
  whose facts are incomplete gets no increase at all.
\<close>

section \<open>What the statements that clip do\<close>

definition lowers :: "(clipping \<Rightarrow> clipping res) \<Rightarrow> bool" where
  "lowers f \<longleftrightarrow> (\<forall>st st'. f st = Inr st' \<longrightarrow> cl_notional st' \<le> cl_notional st \<and> cl_minimum st \<le> cl_minimum st')"

definition caps :: "(clipping \<Rightarrow> clipping res) \<Rightarrow> rat \<Rightarrow> bool" where
  "caps f c \<longleftrightarrow> (\<forall>st st'. f st = Inr st' \<longrightarrow> cl_notional st' \<le> c)"

definition floors :: "(clipping \<Rightarrow> clipping res) \<Rightarrow> rat \<Rightarrow> bool" where
  "floors f c \<longleftrightarrow> (\<forall>st st'. f st = Inr st' \<longrightarrow> c \<le> cl_minimum st')"

lemma clip_lowers [simp]: "lowers (clip c k)"
  by (auto simp: lowers_def clip_def res_splits require_Inr)

lemma clip_if_lowers [simp]: "lowers (clip_if m f k)"
  using clip_lowers unfolding lowers_def by (auto simp: clip_if_def split: option.splits)

lemma net_if_lowers [simp]: "lowers (net_if a r m f k k')"
  by (auto simp: lowers_def net_if_def apply_net_limit_def clip_def Let_def res_splits require_Inr split: option.splits)

lemma clip_caps: "caps (clip c k) c"
  by (auto simp: caps_def clip_def res_splits require_Inr)

lemma clip_if_caps: "m = Some x \<Longrightarrow> caps (clip_if m f k) (f x)"
  using clip_caps by (simp add: clip_if_def [abs_def])

lemma net_if_caps: "m = Some x \<Longrightarrow> caps (net_if a r m f k k') (max (dec_sub (f x) (signed_current a r)) 0)"
  using clip_caps unfolding caps_def by (auto simp: net_if_def apply_net_limit_def Let_def)

lemma net_if_floors: "m = Some x \<Longrightarrow> floors (net_if a r m f k k') (dec_sub (dec_neg (f x)) (signed_current a r))"
  by (auto simp: floors_def net_if_def apply_net_limit_def clip_def Let_def res_splits)

lemma run_lowers: "run_steps fs st = Inr st' \<Longrightarrow> list_all lowers fs \<Longrightarrow>
    cl_notional st' \<le> cl_notional st \<and> cl_minimum st \<le> cl_minimum st'"
  by (induction fs arbitrary: st) (fastforce simp: res_splits lowers_def)+

lemma run_caps: "run_steps fs st = Inr st' \<Longrightarrow> list_all lowers fs \<Longrightarrow> f \<in> set fs \<Longrightarrow> caps f c \<Longrightarrow> cl_notional st' \<le> c"
proof (induction fs arbitrary: st)
  case (Cons g fs)
  then obtain s where s: "g st = Inr s" "run_steps fs s = Inr st'" by (auto simp: res_splits)
  show ?case
  proof (cases "f = g")
    case True
    then show ?thesis using s run_lowers [OF s(2)] Cons.prems by (auto simp: caps_def intro: order_trans)
  qed (use Cons s in auto)
qed simp

lemma run_floors: "run_steps fs st = Inr st' \<Longrightarrow> list_all lowers fs \<Longrightarrow> f \<in> set fs \<Longrightarrow> floors f c \<Longrightarrow> c \<le> cl_minimum st'"
proof (induction fs arbitrary: st)
  case (Cons g fs)
  then obtain s where s: "g st = Inr s" "run_steps fs s = Inr st'" by (auto simp: res_splits)
  show ?case
  proof (cases "f = g")
    case True
    then show ?thesis using s run_lowers [OF s(2)] Cons.prems by (auto simp: floors_def intro: order_trans)
  qed (use Cons s in auto)
qed simp

lemma steps_lower: "list_all lowers (margin_steps l r a @ exposure_steps l r a @ net_steps l r a)"
  by (simp add: margin_steps_def exposure_steps_def net_steps_def split: prod.split)

lemma clipped_caps:
  assumes "clipped l r a = Inr st" and "f \<in> set (margin_steps l r a @ exposure_steps l r a @ net_steps l r a)"
  shows "caps f c \<Longrightarrow> cl_notional st \<le> c" and "floors f c \<Longrightarrow> c \<le> cl_minimum st"
  using run_caps [OF _ steps_lower assms(2)] run_floors [OF _ steps_lower assms(2)] assms(1)
  by (auto simp: clipped_def)

section \<open>Allowed increases\<close>

lemma mk_decision_Inr:
  assumes "mk_decision b q codes n sid = Inr d"
  shows "rd_allowed d = b" and "rd_quantity d = q" and "rd_notional d = n" and "b \<Longrightarrow> 0 < q"
    and "\<not> b \<Longrightarrow> q = 0 \<and> n = 0" and "0 \<le> q" and "b \<Longrightarrow> 0 < n"
  using assms by (auto simp: mk_decision_def res_splits require_Inr split: if_splits)

text \<open>A rounded quotient times the divisor exceeds the dividend by one rounding at most.\<close>

lemma quotient_close:
  assumes "q \<le> dec_div c p" and "0 < p" and "0 \<le> c"
  shows "q * p \<le> c + c / (2 * 10 ^ 27)"
proof -
  have "dec_div c p \<le> c / p + (c / p) / (2 * 10 ^ 27)"
    using dec_round_close [of "c / p"] assms by (simp add: dec_div_def abs_le_iff)
  then have "q * p \<le> (c / p + (c / p) / (2 * 10 ^ 27)) * p"
    using assms by (intro mult_right_mono) auto
  then show ?thesis using assms by (simp add: field_simps)
qed

definition fits :: "risk_decision \<Rightarrow> request \<Rightarrow> rat \<Rightarrow> bool" where
  \<comment> \<open>the approved quantity costs at most \<open>c\<close>, up to one rounding\<close>
  "fits d r c \<longleftrightarrow> rd_quantity d * rq_price r \<le> c + c / (2 * 10 ^ 27)"

definition fits_if :: "risk_decision \<Rightarrow> request \<Rightarrow> rat option \<Rightarrow> (rat \<Rightarrow> rat) \<Rightarrow> bool" where
  "fits_if d r limit c \<longleftrightarrow> (case limit of None \<Rightarrow> True | Some m \<Rightarrow> fits d r (c m))"

lemma evaluate_increase_Inr:
  assumes "evaluate_increase l r a = Inr d" and "rd_allowed d"
  obtains st where "effective_risk_data_valid a" "min_liquidation_buffer_ratio l \<le> ar_liquidation_buffer_ratio a"
    "min_liquidation_buffer_ratio l \<le> projected_maintenance_buffer_ratio a" "clipped l r a = Inr st"
    "cl_minimum st \<le> cl_notional st" "0 < rq_price r" "0 < rd_quantity d"
    "rd_quantity d = min (rq_quantity r) (dec_div (cl_notional st) (rq_price r))"
    "rd_notional d = dec_mul (rd_quantity d) (rq_price r)"
  using assms mk_decision_Inr
  by (fastforce simp: evaluate_increase_def Let_def res_splits require_Inr not_less split: if_splits)

lemma allowed_fits:
  assumes "evaluate_increase l r a = Inr d" and "rd_allowed d"
    and "f \<in> set (margin_steps l r a @ exposure_steps l r a @ net_steps l r a)" and "caps f c"
  shows "fits d r c"
proof -
  obtain st where st: "clipped l r a = Inr st" "0 < rq_price r" "0 < rd_quantity d"
    "rd_quantity d = min (rq_quantity r) (dec_div (cl_notional st) (rq_price r))"
    using evaluate_increase_Inr [OF assms(1,2)] by metis
  have c: "cl_notional st \<le> c" by (rule clipped_caps(1) [OF st(1) assms(3,4)])
  then have q: "rd_quantity d \<le> dec_div c (rq_price r)"
    using st(2,4) dec_round_mono [of "cl_notional st / rq_price r" "c / rq_price r"]
    by (simp add: dec_div_def divide_right_mono min_le_iff_disj)
  moreover have "0 \<le> c"
  proof (rule ccontr)
    assume "\<not> 0 \<le> c"
    then have "dec_div c (rq_price r) \<le> 0"
      using st(2) unfolding dec_div_def by (intro dec_round_nonpos) (simp add: divide_nonpos_pos)
    then show False using q st(3) by simp
  qed
  ultimately show ?thesis unfolding fits_def using st(2) by (intro quotient_close)
qed


lemma evaluate_request_increase:
  assumes "evaluate_request l r a = Inr d" and "rd_allowed d" and "increases_risk (rq_action r)"
  shows "rq_account_id r = ar_account_id a" and "evaluate_increase l r a = Inr d"
  using assms mk_decision_Inr(1)
  by (auto simp: evaluate_request_def split: if_splits)

lemma covers_minimum:
  assumes "evaluate_increase l r a = Inr d" and "rd_allowed d"
    and "f \<in> set (margin_steps l r a @ exposure_steps l r a @ net_steps l r a)" and "floors f c"
    and "0 < rq_quantity r"
  shows "c - \<bar>c\<bar> / (2 * 10 ^ 27) \<le> rd_quantity d * rq_price r"
proof (cases "0 < c")
  case True
  obtain st where st: "clipped l r a = Inr st" "0 < rq_price r" "0 < rd_quantity d"
    "rd_quantity d = min (rq_quantity r) (dec_div (cl_notional st) (rq_price r))"
    "cl_minimum st \<le> cl_notional st"
    using evaluate_increase_Inr [OF assms(1,2)] by metis
  let ?n = "cl_notional st" and ?p = "rq_price r" and ?e = "1 / (2 * 10 ^ 27) :: rat"
  have c: "c \<le> ?n" using clipped_caps(2) [OF st(1) assms(3,4)] st(5) by simp
  have n: "0 < ?n" using c True by simp
  have "?n \<le> requested_notional r"
    using run_lowers [OF _ steps_lower] st(1) by (fastforce simp: clipped_def)
  also have "\<dots> \<le> rq_quantity r * ?p + rq_quantity r * ?p * ?e"
    using dec_round_bounds(1) [of "rq_quantity r * ?p"] assms(5) st(2)
    by (simp only: requested_notional_def dec_mul_def times_divide_eq_right mult_1_right mult_nonneg_nonneg less_imp_le)
  finally have "?n \<le> rq_quantity r * ?p * (1 + ?e)" by (simp add: algebra_simps)
  then have "?n * (1 - ?e) \<le> rq_quantity r * ?p * (1 + ?e) * (1 - ?e)" by (intro mult_right_mono) simp_all
  also have "\<dots> \<le> rq_quantity r * ?p * 1"
    unfolding mult.assoc by (intro mult_left_mono) (use assms(5) st(2) in \<open>simp_all add: algebra_simps\<close>)
  finally have a: "?n * (1 - ?e) \<le> rq_quantity r * ?p" by simp
  have "?n / ?p - ?n / ?p * ?e \<le> dec_div ?n ?p"
    using dec_round_bounds(2) [of "?n / ?p"] n st(2)
    by (simp only: dec_div_def times_divide_eq_right mult_1_right divide_nonneg_pos less_imp_le)
  then have "(?n / ?p - ?n / ?p * ?e) * ?p \<le> dec_div ?n ?p * ?p" using st(2) by (intro mult_right_mono) auto
  then have b: "?n * (1 - ?e) \<le> dec_div ?n ?p * ?p" using st(2) by (simp add: algebra_simps)
  have "?n * (1 - ?e) \<le> rd_quantity d * ?p" using a b st(4) by (simp add: min_def)
  moreover have "c * (1 - ?e) \<le> ?n * (1 - ?e)" using c by (intro mult_right_mono) simp_all
  ultimately show ?thesis using True by (simp add: algebra_simps)
next
  case False
  obtain st where "0 < rq_price r" "0 < rd_quantity d" using evaluate_increase_Inr [OF assms(1,2)] by metis
  then have "0 \<le> rd_quantity d * rq_price r" by simp
  moreover have "c - \<bar>c\<bar> / (2 * 10 ^ 27) \<le> 0" using False by simp
  ultimately show ?thesis by linarith
qed

section \<open>Snapshots\<close>

lemma mk_account_risk_Inr:
  assumes "mk_account_risk a = Inr s"
  shows "ar_risk_data_valid s = ar_risk_data_valid a"
    and "ar_liquidation_data_complete s = ar_liquidation_data_complete a"
    and "ar_maintenance_margin_complete s = ar_maintenance_margin_complete a"
  using assms by (auto simp: mk_account_risk_def res_splits split: if_splits)

lemma incomplete_snapshot:
  assumes "build_risk_portfolio uid f = Inr p" and "completeness_errors (pf_positions f) \<noteq> []"
  shows "\<not> effective_risk_data_valid (rp_account p)"
proof -
  obtain raw where raw: "mk_account_risk raw = Inr (rp_account p)"
    "ar_liquidation_data_complete raw = (''LIQUIDATION_DATA_INCOMPLETE'' \<notin> set (completeness_errors (pf_positions f)))"
    "ar_maintenance_margin_complete raw = (''MAINTENANCE_MARGIN_INCOMPLETE'' \<notin> set (completeness_errors (pf_positions f)))"
    using assms(1) by (fastforce simp: build_risk_portfolio_def mk_risk_portfolio_def Let_def res_splits if_config_Inr
        simp del: if_Inl_eq_Inr)
  moreover have "''LIQUIDATION_DATA_INCOMPLETE'' \<in> set (completeness_errors (pf_positions f))
      \<or> ''MAINTENANCE_MARGIN_INCOMPLETE'' \<in> set (completeness_errors (pf_positions f))"
    using assms(2) unfolding completeness_errors_def by (auto split: if_splits)
  ultimately show ?thesis using mk_account_risk_Inr [OF raw(1)] by (auto simp: effective_risk_data_valid_def)
qed

lemma mk_risk_request_Inr:
  assumes "mk_risk_request v = Inr r"
  shows "hedge_action (rq_action v) = Inr (rq_action r)" and "0 < rq_quantity r"
    and "rq_confirmed v = map_option DFin (rq_confirmed r)" and "rq_pending_reduce v = DFin (rq_pending_reduce r)"
  using assms by (auto simp: mk_risk_request_def res_splits require_Inr opt_require_Inr split: if_splits option.splits)

lemma hedge_action_Inl [simp]: "hedge_action (Inl a) = Inr a"
  by (simp add: hedge_action_def)

lemma build_request_Inr:
  assumes "build_request p ids symb side act q price lev x e v rate = Inr r"
  obtains c sd where "canonicalize_symbol symb = Inr c" and "rp_side side = Inr sd"
    and "hedge_action act = Inr (rq_action r)"
    and "reduces_risk (rq_action r) \<Longrightarrow> rp_confirmed_quantity p c sd = Inr (the (rq_confirmed r))"
    and "reduces_risk (rq_action r) \<Longrightarrow> rp_pending_reduce p c sd = Inr (rq_pending_reduce r)"
proof -
  obtain c sd a m leg symn pl ps where b: "canonicalize_symbol symb = Inr c" "rp_side side = Inr sd"
    "hedge_action act = Inr a"
    "(if reduces_risk a
       then res_bind (rp_confirmed_quantity p c sd) (\<lambda>c'.
         res_bind (rp_pending_reduce p c sd) (\<lambda>q. Inr (Some c', q)))
       else Inr (None, 0)) = Inr m"
    and mk: "mk_risk_request \<lparr>rq_account_id = ar_account_id (rp_account p), rq_symbol = c,
       rq_side = Inl sd, rq_action = Inl a, rq_quantity = q, rq_price = price,
       rq_leg_notional = DFin leg, rq_symbol_notional = DFin symn, rq_pending_leg = DFin pl,
       rq_pending_symbol = DFin ps, rq_confirmed = map_option DFin (fst m),
       rq_pending_reduce = DFin (snd m), rq_leverage = lev,
       rq_exchange = (case x of None \<Rightarrow> ar_exchange (rp_account p) | Some x \<Rightarrow> x),
       rq_intent_id = (case ri_intent_id ids of None \<Rightarrow> uuid_hex (fst (ri_fresh ids)) | Some x \<Rightarrow> x),
       rq_idempotency_key = (case ri_idempotency_key ids of
         None \<Rightarrow> uuid_hex (fst (snd (ri_fresh ids))) | Some x \<Rightarrow> x),
       rq_correlation_id = (case ri_correlation_id ids of
         None \<Rightarrow> uuid_hex (snd (snd (ri_fresh ids))) | Some x \<Rightarrow> x),
       rq_expires_at_ms = e, rq_target_version = v, rq_rate = rate\<rparr> = Inr r"
    using assms unfolding build_request_def res_bind_eq_Inr case_prod_unfold by metis
  have "rq_action r = a" "map_option DFin (fst m) = map_option DFin (rq_confirmed r)" "snd m = rq_pending_reduce r"
    using mk_risk_request_Inr(1,3,4) [OF mk] by simp_all
  moreover from this(2) have "fst m = rq_confirmed r" by (cases "fst m"; cases "rq_confirmed r") simp_all
  ultimately have m: "m = (rq_confirmed r, rq_pending_reduce r)" and a: "a = rq_action r" by (cases m; simp)+
  show ?thesis
    by (rule that [of c sd]) (use b m a in \<open>auto simp: res_splits\<close>, metis option.sel)
qed

lemma evaluate_request_reduce:
  assumes "evaluate_request l r a = Inr d" and "rd_allowed d" and "reduces_risk (rq_action r)"
  shows "\<exists>c. rq_confirmed r = Some c \<and> 0 < rd_quantity d \<and> rd_quantity d \<le> rq_quantity r
    \<and> rd_quantity d \<le> dec_sub c (rq_pending_reduce r)"
proof -
  have e: "evaluate_reduce r = Inr d"
    using assms mk_decision_Inr(1) by (cases "rq_action r") (auto simp: evaluate_request_def reduces_risk_def split: if_splits)
  then obtain c where c: "rq_confirmed r = Some c"
    using assms(2) mk_decision_Inr(1) by (fastforce simp: evaluate_reduce_def split: option.splits)
  from e c obtain s where s: "calculate_safe_reduce (DFin (rq_quantity r)) (DFin c) (DFin (rq_pending_reduce r)) = Inr s"
    "0 < sr_allowed s" "rd_quantity d = min (sr_allowed s) (rq_quantity r)" "0 < rd_quantity d"
    using assms(2) mk_decision_Inr by (fastforce simp: evaluate_reduce_def Let_def res_splits not_le split: if_splits)
  then show ?thesis using c safe_reduce_Inr [OF s(1)] by (auto simp: min_def max_def split: if_splits)
qed

section \<open>A worked example\<close>

text \<open>A limit of 9 for a single order, and an order of 2 at the price 7.\<close>

definition demo_limits :: "rat risk_limits" where
  "demo_limits = \<lparr>max_margin_utilization = 1, min_liquidation_buffer_ratio = 0,
     max_gross_notional = Some 500, max_gross_exposure_ratio = None, max_single_order_notional = Some 9,
     max_leg_notional = None, max_symbol_gross_notional = None, max_net_notional = Some 100,
     max_net_exposure_ratio = None, max_long_notional = None, max_short_notional = None,
     max_long_exposure_ratio = None, max_short_exposure_ratio = None,
     max_pending_order_notional = None, max_pending_order_initial_margin = None,
     min_available_balance = 0\<rparr>"

definition demo_facts :: "rat account_risk" where
  "demo_facts = \<lparr>ar_account_id = ''main'', ar_equity = 1000, ar_wallet_balance = 1000,
     ar_available_balance = 1000, ar_initial_margin = 0, ar_maintenance_margin = 0, ar_gross_long = 0,
     ar_gross_short = 0, ar_net_notional = 0, ar_pending_notional = 0, ar_liquidation_buffer_ratio = 1,
     ar_risk_data_valid = True, ar_observed_at_ms = None, ar_pending_initial_margin = 0,
     ar_pending_net_delta = 0, ar_pending_long = 0, ar_pending_short = 0, ar_pending_maintenance = 0,
     ar_exchange = ''binance'', ar_snapshot_id = ''s1'', ar_source_version = 0, ar_exchange_time_ms = None,
     ar_liquidation_data_complete = True, ar_maintenance_margin_complete = True, ar_risk_data_errors = []\<rparr>"

definition demo_request :: "intent_action \<Rightarrow> request" where
  "demo_request act = \<lparr>rq_account_id = ''main'', rq_symbol = ''ETH/USDT:USDT'', rq_side = LONG, rq_action = act,
     rq_quantity = 2, rq_price = 7, rq_leg_notional = 0, rq_symbol_notional = 0, rq_pending_leg = 0,
     rq_pending_symbol = 0, rq_confirmed = Some 3, rq_pending_reduce = 2, rq_leverage = 1,
     rq_exchange = ''binance'', rq_intent_id = ''i'', rq_idempotency_key = ''k'', rq_correlation_id = ''c'',
     rq_expires_at_ms = None, rq_target_version = None, rq_rate = 1\<rparr>"


definition demo_quantity :: rat where
  "demo_quantity = 1.285714285714285714285714286"

lemma nine_sevenths: "dec_round (9 / 7) = demo_quantity"
proof -
  have "\<lfloor>9000000000000000000000000000 / 7 :: rat\<rfloor> = 1285714285714285714285714285"
    by (rule floor_unique) simp_all
  then have "round_half_even (9 / 7 / pow10 (- 27)) = 1285714285714285714285714286"
    by (simp add: pow10_def round_half_even_def Let_def)
  then show ?thesis by (subst dec_round_at [of "- 27"]) (simp_all add: pow10_def demo_quantity_def)
qed

lemma nine_more: "dec_round (demo_quantity * 7) = demo_quantity * 7"
  by (rule dec_round_exact [of _ 9000000000000000000000000002 "- 27"]) (simp_all add: pow10_def demo_quantity_def)

lemma demo_quantity_facts: "0 < demo_quantity" "demo_quantity \<le> 2" "9 < demo_quantity * 7"
  by (simp_all add: demo_quantity_def)

lemma dec_round_neg_numeral: "(numeral k :: int) < 10 ^ 28 \<Longrightarrow> dec_round (- numeral k) = - numeral k"
  by (simp add: dec_round_minus)

lemma demo_reduces: "evaluate_request demo_limits (demo_request REDUCE) demo_facts = Inr \<lparr>rd_allowed = True, rd_quantity = 1,
  rd_reasons = [''CLIPPED_TO_CONFIRMED_AVAILABLE''], rd_notional = 7, rd_snapshot_id = None\<rparr>"
  by code_simp

lemma demo_clipped: "clipped demo_limits (demo_request OPEN) demo_facts = Inr \<lparr>cl_notional = 9,
    cl_reasons = [''SINGLE_ORDER_NOTIONAL_CLIPPED''], cl_minimum = 0, cl_net_reasons = []\<rparr>"
  by (simp add: clipped_def margin_steps_def exposure_steps_def net_steps_def demo_limits_def demo_request_def
    demo_facts_def clip_def clip_if_def net_if_def apply_net_limit_def signed_current_def side_sign_def
    projected_net_notional_def requested_notional_def side_limits_def gross_total_notional_def
    dec_mul_def dec_sub_def dec_add_def dec_div_def dec_neg_def Let_def dec_round_neg_numeral)

lemma demo_ready: "effective_risk_data_valid demo_facts" "\<not> ar_liquidation_buffer_ratio demo_facts < min_liquidation_buffer_ratio demo_limits"
  "\<not> projected_maintenance_buffer_ratio demo_facts < min_liquidation_buffer_ratio demo_limits"
  by (simp_all add: effective_risk_data_valid_def demo_facts_def demo_limits_def projected_maintenance_buffer_ratio_def buffer_ratio_def
    dec_mul_def dec_sub_def dec_add_def dec_div_def)


lemma demo_opens: "evaluate_request demo_limits (demo_request OPEN) demo_facts = Inr \<lparr>rd_allowed = True, 
  rd_quantity = demo_quantity,
  rd_reasons = [''SINGLE_ORDER_NOTIONAL_CLIPPED''], rd_notional = demo_quantity * 7, rd_snapshot_id = Some ''s1''\<rparr>"
proof -
  have "code_texts e [''SINGLE_ORDER_NOTIONAL_CLIPPED''] = Inr [''SINGLE_ORDER_NOTIONAL_CLIPPED'']" for e
    unfolding code_texts_def by code_simp
  moreover have "nonempty f ''s1'' = Inr ''s1''" for f unfolding nonempty_def by code_simp
  moreover have "rq_account_id (demo_request OPEN) = ar_account_id demo_facts" "rq_action (demo_request OPEN) = OPEN"
    "rq_quantity (demo_request OPEN) = 2" "rq_price (demo_request OPEN) = 7" "ar_snapshot_id demo_facts = ''s1''"
    by (simp_all add: demo_request_def demo_facts_def)
  ultimately show ?thesis
    using nine_sevenths nine_more demo_quantity_facts
    by (simp add: evaluate_request_def evaluate_increase_def demo_clipped demo_ready Let_def mk_decision_def
      opt_require_def or_codes_def dec_mul_def dec_div_def min_def not_le)
qed
section \<open>Properties\<close>

definition margin_headroom :: "rat risk_limits \<Rightarrow> rat account_risk \<Rightarrow> rat" where
  "margin_headroom l a = max (dec_sub (dec_sub (dec_mul (max_margin_utilization l) (ar_equity a))
     (ar_initial_margin a)) (ar_pending_initial_margin a)) 0"

definition maintenance_headroom :: "rat risk_limits \<Rightarrow> rat account_risk \<Rightarrow> rat" where
  "maintenance_headroom l a = max (dec_sub (dec_sub (dec_mul (ar_equity a)
     (dec_sub 1 (min_liquidation_buffer_ratio l))) (ar_maintenance_margin a)) (ar_pending_maintenance a)) 0"

definition room :: "rat \<Rightarrow> rat \<Rightarrow> rat \<Rightarrow> rat" where
  \<comment> \<open>what two amounts in use leave of a limit\<close>
  "room m used pending = max (dec_sub (dec_sub m used) pending) 0"

text \<open>C4: An increase that the risk engine allows was asked for the account the facts are about, on facts that
  are valid and complete, with both liquidation buffers at or above the minimum, and for no more than
  was requested; its cost, quantity times price, is within the single-order limit, the free margin times
  leverage, the free balance times leverage and the maintenance headroom, each exceeded by at most one
  part in \<open>2 * 10 ^ 27\<close> (the rounding of the final division).
\<close>

theorem increase_within_margin:
  assumes "evaluate_request l r a = Inr d" and "rd_allowed d" and "increases_risk (rq_action r)"
  shows "rq_account_id r = ar_account_id a \<and> effective_risk_data_valid a
    \<and> min_liquidation_buffer_ratio l \<le> ar_liquidation_buffer_ratio a
    \<and> min_liquidation_buffer_ratio l \<le> projected_maintenance_buffer_ratio a
    \<and> 0 < rd_quantity d \<and> rd_quantity d \<le> rq_quantity r
    \<and> fits_if d r (max_single_order_notional l) (\<lambda>m. m)
    \<and> fits d r (dec_mul (margin_headroom l a) (rq_leverage r))
    \<and> fits d r (dec_mul (max (dec_sub (ar_available_balance a) (min_available_balance l)) 0) (rq_leverage r))
    \<and> fits d r (dec_div (maintenance_headroom l a) (rq_rate r))"
proof -
  note e = evaluate_request_increase [OF assms]
  note fit = allowed_fits [OF e(2) assms(2)]
  have "fits_if d r (max_single_order_notional l) (\<lambda>m. m)"
    unfolding fits_if_def
    by (cases "max_single_order_notional l") (auto simp: margin_steps_def intro!: fit clip_if_caps)
  moreover have "fits d r (dec_mul (margin_headroom l a) (rq_leverage r))"
    by (rule fit [OF _ clip_caps [where k = "''MARGIN_UTILIZATION_CLIPPED''"]])
      (simp add: margin_steps_def margin_headroom_def)
  moreover have "fits d r (dec_mul (max (dec_sub (ar_available_balance a) (min_available_balance l)) 0) (rq_leverage r))"
    by (rule fit [OF _ clip_caps [where k = "''AVAILABLE_MARGIN_CLIPPED''"]]) (simp add: margin_steps_def)
  moreover have "fits d r (dec_div (maintenance_headroom l a) (rq_rate r))"
    by (rule fit [OF _ clip_caps [where k = "''PROJECTED_LIQUIDATION_BUFFER_CLIPPED''"]])
      (simp add: margin_steps_def maintenance_headroom_def)
  ultimately show ?thesis using e(1) evaluate_increase_Inr [OF e(2) assms(2)] by (metis min.cobounded1)
qed



theorem increase_within_margin_witness:
  "rd_quantity \<lparr>rd_allowed = True, rd_quantity = demo_quantity,
     rd_reasons = [''SINGLE_ORDER_NOTIONAL_CLIPPED''], rd_notional = demo_quantity * 7,
     rd_snapshot_id = Some ''s1''\<rparr> \<le> rq_quantity (demo_request OPEN) \<and>
   min_liquidation_buffer_ratio demo_limits \<le> projected_maintenance_buffer_ratio demo_facts"
proof -
  have "increases_risk (rq_action (demo_request OPEN))" by (simp add: demo_request_def)
  then show ?thesis using increase_within_margin [OF demo_opens] by simp
qed

text \<open>C25: An increase that the risk engine allows also fits into what every configured exposure limit leaves
  after the positions and the pending orders: the limits on pending orders, on the leg, the symbol, the
  account (as an amount and as a ratio of the equity) and on the side of the request; up to one part in
  \<open>2 * 10 ^ 27\<close> each.
\<close>

theorem increase_within_exposure:
  assumes "evaluate_request l r a = Inr d" and "rd_allowed d" and "increases_risk (rq_action r)"
  shows "fits_if d r (max_pending_order_notional l) (\<lambda>m. max (dec_sub m (ar_pending_notional a)) 0)
    \<and> fits_if d r (max_pending_order_initial_margin l)
        (\<lambda>m. dec_mul (max (dec_sub m (ar_pending_initial_margin a)) 0) (rq_leverage r))
    \<and> fits_if d r (max_leg_notional l) (\<lambda>m. room m (rq_leg_notional r) (rq_pending_leg r))
    \<and> fits_if d r (max_symbol_gross_notional l) (\<lambda>m. room m (rq_symbol_notional r) (rq_pending_symbol r))
    \<and> fits_if d r (max_gross_notional l) (\<lambda>m. room m (gross_total_notional a) (ar_pending_notional a))
    \<and> fits_if d r (max_gross_exposure_ratio l)
        (\<lambda>m. room (dec_mul m (ar_equity a)) (gross_total_notional a) (ar_pending_notional a))
    \<and> (rq_side r = LONG \<longrightarrow>
        fits_if d r (max_long_notional l) (\<lambda>m. max (dec_sub m (projected_gross_long_notional a)) 0) \<and>
        fits_if d r (max_long_exposure_ratio l)
          (\<lambda>m. max (dec_sub (dec_mul m (ar_equity a)) (projected_gross_long_notional a)) 0))
    \<and> (rq_side r = SHORT \<longrightarrow>
        fits_if d r (max_short_notional l) (\<lambda>m. max (dec_sub m (projected_gross_short_notional a)) 0) \<and>
        fits_if d r (max_short_exposure_ratio l)
          (\<lambda>m. max (dec_sub (dec_mul m (ar_equity a)) (projected_gross_short_notional a)) 0))"
proof -
  note fit = allowed_fits [OF evaluate_request_increase(2) [OF assms] assms(2)]
  have fi: "fits_if d r m f" if "clip_if m f k \<in> set (exposure_steps l r a)" for m f k
    using that fit [of "clip_if m f k"] clip_if_caps unfolding fits_if_def by (cases m) auto
  note steps = exposure_steps_def side_limits_def room_def
  show ?thesis
    apply (intro conjI impI)
     apply (rule fi [where k = "''PENDING_ORDER_NOTIONAL_CLIPPED''"], simp add: steps split: position_side.split)
     apply (rule fi [where k = "''PENDING_ORDER_MARGIN_CLIPPED''"], simp add: steps split: position_side.split)
     apply (rule fi [where k = "''LEG_NOTIONAL_CLIPPED''"], simp add: steps split: position_side.split)
     apply (rule fi [where k = "''SYMBOL_GROSS_NOTIONAL_CLIPPED''"], simp add: steps split: position_side.split)
     apply (rule fi [where k = "''GROSS_NOTIONAL_CLIPPED''"], simp add: steps split: position_side.split)
     apply (rule fi [where k = "''GROSS_EXPOSURE_RATIO_CLIPPED''"], simp add: steps split: position_side.split)
     apply (rule fi [where k = "''LONG_NOTIONAL_CLIPPED''"], simp add: steps split: position_side.split)
     apply (rule fi [where k = "''LONG_EXPOSURE_RATIO_CLIPPED''"], simp add: steps split: position_side.split)
     apply (rule fi [where k = "''SHORT_NOTIONAL_CLIPPED''"], simp add: steps split: position_side.split)
     apply (rule fi [where k = "''SHORT_EXPOSURE_RATIO_CLIPPED''"], simp add: steps split: position_side.split)
    done
qed

theorem increase_within_exposure_witness:
  "fits_if \<lparr>rd_allowed = True, rd_quantity = demo_quantity,
     rd_reasons = [''SINGLE_ORDER_NOTIONAL_CLIPPED''], rd_notional = demo_quantity * 7,
     rd_snapshot_id = Some ''s1''\<rparr> (demo_request OPEN) (max_gross_notional demo_limits)
     (\<lambda>m. room m (gross_total_notional demo_facts) (ar_pending_notional demo_facts))"
proof -
  have "increases_risk (rq_action (demo_request OPEN))" by (simp add: demo_request_def)
  then show ?thesis using increase_within_exposure [OF demo_opens] by simp
qed

text \<open>With a limit on the net exposure, an allowed increase neither pushes the projected net position past
  the limit on its own side nor, when the net position is beyond the limit on the other side, falls
  short of what brings it back; both up to one part in \<open>2 * 10 ^ 27\<close>.
\<close>

theorem increase_keeps_net_limits:
  assumes "evaluate_request l r a = Inr d" and "rd_allowed d" and "increases_risk (rq_action r)"
    and "0 < rq_quantity r" and "m \<in> set_option (max_net_notional l)
      \<union> (\<lambda>x. dec_mul x (ar_equity a)) ` set_option (max_net_exposure_ratio l)"
  shows "fits d r (max (dec_sub m (signed_current a r)) 0) \<and>
    dec_sub (dec_neg m) (signed_current a r) - \<bar>dec_sub (dec_neg m) (signed_current a r)\<bar> / (2 * 10 ^ 27)
      \<le> rd_quantity d * rq_price r"
proof -
  note e = evaluate_request_increase(2) [OF assms(1-3)]
  obtain f where f: "f \<in> set (margin_steps l r a @ exposure_steps l r a @ net_steps l r a)"
    "caps f (max (dec_sub m (signed_current a r)) 0)" "floors f (dec_sub (dec_neg m) (signed_current a r))"
  proof (cases "m \<in> set_option (max_net_notional l)")
    case True
    then have s: "max_net_notional l = Some m" by simp
    then show ?thesis
      using that [of "net_if a r (max_net_notional l) (\<lambda>m. m) ''NET_NOTIONAL_CLIPPED'' ''NET_NOTIONAL_REMEDIATION_INSUFFICIENT''"]
        net_if_caps [OF s, of a r "\<lambda>m. m"] net_if_floors [OF s, of a r "\<lambda>m. m"] by (simp add: net_steps_def)
  next
    case False
    then obtain x where s: "max_net_exposure_ratio l = Some x" and m: "m = dec_mul x (ar_equity a)"
      using assms(5) by auto
    show ?thesis
      using that [of "net_if a r (max_net_exposure_ratio l) (\<lambda>m. dec_mul m (ar_equity a)) ''NET_EXPOSURE_RATIO_CLIPPED'' ''NET_EXPOSURE_REMEDIATION_INSUFFICIENT''"]
        net_if_caps [OF s, of a r "\<lambda>m. dec_mul m (ar_equity a)"] net_if_floors [OF s, of a r "\<lambda>m. dec_mul m (ar_equity a)"]
      by (simp add: net_steps_def m)
  qed
  show ?thesis
    using allowed_fits [OF e assms(2) f(1,2)] covers_minimum [OF e assms(2) f(1,3) assms(4)] by simp
qed

theorem increase_keeps_net_limits_witness:
  "fits \<lparr>rd_allowed = True, rd_quantity = demo_quantity,
     rd_reasons = [''SINGLE_ORDER_NOTIONAL_CLIPPED''], rd_notional = demo_quantity * 7,
     rd_snapshot_id = Some ''s1''\<rparr> (demo_request OPEN)
     (max (dec_sub 100 (signed_current demo_facts (demo_request OPEN))) 0)"
proof -
  have "increases_risk (rq_action (demo_request OPEN))" "0 < rq_quantity (demo_request OPEN)"
    "100 \<in> set_option (max_net_notional demo_limits)
      \<union> (\<lambda>x. dec_mul x (ar_equity demo_facts)) ` set_option (max_net_exposure_ratio demo_limits)"
    by (simp_all add: demo_request_def demo_limits_def)
  then show ?thesis using increase_keeps_net_limits [OF demo_opens] by simp
qed

text \<open>The bounds of an increase cannot be made exact: the quantity is a rounded quotient, and quantity times
  price can exceed the limit it was clipped to. With a limit of 9 for a single order at the price 7 the
  engine approves an order of 9.000000000000000000000000002.
\<close>

theorem approval_exceeds_limit:
  "\<exists>l r a d. evaluate_request l r a = Inr d \<and> rd_allowed d \<and> max_single_order_notional l = Some 9
     \<and> rd_notional d = rd_quantity d * rq_price r \<and> rd_notional d > 9"
proof -
  have "max_single_order_notional demo_limits = Some 9" "rq_price (demo_request OPEN) = 7"
    by (simp_all add: demo_limits_def demo_request_def)
  then show ?thesis using demo_opens demo_quantity_facts(3) by fastforce
qed

text \<open>A reduction or close that the engine allows is at most what was requested and at most the confirmed
  quantity of the leg less the reductions already pending; without a confirmed quantity none is allowed.
\<close>

theorem reduction_within_confirmed:
  assumes "evaluate_request l r a = Inr d" and "rd_allowed d" and "reduces_risk (rq_action r)"
  shows "\<exists>c. rq_confirmed r = Some c \<and> 0 < rd_quantity d \<and> rd_quantity d \<le> rq_quantity r
    \<and> rd_quantity d \<le> dec_sub c (rq_pending_reduce r)"
  by (rule evaluate_request_reduce [OF assms])

theorem reduction_within_confirmed_witness:
  "\<exists>c. rq_confirmed (demo_request REDUCE) = Some c \<and> (1 :: rat) \<le> dec_sub c (rq_pending_reduce (demo_request REDUCE))"
proof -
  have "reduces_risk (rq_action (demo_request REDUCE))" by (simp add: demo_request_def reduces_risk_def)
  then show ?thesis using reduction_within_confirmed [OF demo_reduces] by auto
qed

text \<open>C24: An account snapshot is only as good as its facts: when an open position has no liquidation price or
  no maintenance margin, no order that opens or increases is allowed on the whole account, whatever the
  limits, the symbol and the side.
\<close>

theorem incomplete_facts_stop_increases:
  assumes "build_risk_portfolio uid f = Inr p" and "leg \<in> set (pf_positions f)" and "0 < pl_quantity leg"
    and "pl_liquidation_price leg = None \<or> pl_maintenance_margin leg \<le> 0"
    and "evaluate_portfolio_order l p fresh symb side act quantity price leverage rate = Inr d"
    and "hedge_action act = Inr a" and "increases_risk a"
  shows "\<not> rd_allowed d"
proof
  assume allowed: "rd_allowed d"
  have "leg \<in> set (open_legs (pf_positions f))" using assms(2,3) by (simp add: open_legs_def)
  then have "completeness_errors (pf_positions f) \<noteq> []"
    using assms(4) by (cases "pl_liquidation_price leg") (auto simp: completeness_errors_def intro!: bexI [of _ leg])
  then have bad: "\<not> effective_risk_data_valid (rp_account p)" by (rule incomplete_snapshot [OF assms(1)])
  obtain r ids where r: "build_request p ids symb side act quantity price leverage None None None rate = Inr r"
    "evaluate_request l r (rp_account p) = Inr d"
    using assms(5) by (auto simp: evaluate_portfolio_order_def res_splits)
  have "rq_action r = a" using build_request_Inr [OF r(1)] assms(6) by (metis sum.inject(2))
  then have "evaluate_increase l r (rp_account p) = Inr d"
    using evaluate_request_increase(2) [OF r(2) allowed] assms(7) by simp
  then show False using evaluate_increase_Inr [OF _ allowed] bad by blast
qed

text \<open>The reduction allowed for a portfolio never exceeds what the account holds on that leg less what its
  pending orders already reduce, over the positions and orders of the canonical symbol and side.
\<close>

theorem portfolio_reduction_bounded:
  assumes "evaluate_portfolio_order l p fresh symb side act quantity price leverage rate = Inr d"
    and "rd_allowed d" and "hedge_action act = Inr a" and "reduces_risk a"
  shows "\<exists>c sd. canonicalize_symbol symb = Inr c \<and> rp_side side = Inr sd \<and> 0 < rd_quantity d \<and>
    rd_quantity d \<le> dec_sub
      (dec_sum (map pl_quantity (filter (\<lambda>i. pl_symbol i = c \<and> pl_side i = sd) (rp_positions p))))
      (dec_sum (map po_quantity (filter (\<lambda>i. po_symbol i = c \<and> po_side i = sd
        \<and> reduces_risk (po_action i)) (rp_pending p))))"
proof -
  obtain r ids where r: "build_request p ids symb side act quantity price leverage None None None rate = Inr r"
    "evaluate_request l r (rp_account p) = Inr d"
    using assms(1) by (auto simp: evaluate_portfolio_order_def res_splits)
  obtain c sd where c: "canonicalize_symbol symb = Inr c" "rp_side side = Inr sd" "hedge_action act = Inr (rq_action r)"
    "reduces_risk (rq_action r) \<Longrightarrow> rp_confirmed_quantity p c sd = Inr (the (rq_confirmed r))"
    "reduces_risk (rq_action r) \<Longrightarrow> rp_pending_reduce p c sd = Inr (rq_pending_reduce r)"
    using build_request_Inr [OF r(1)] by metis
  have red: "reduces_risk (rq_action r)" using c(3) assms(3,4) by simp
  obtain q where "rq_confirmed r = Some q" "0 < rd_quantity d" "rd_quantity d \<le> dec_sub q (rq_pending_reduce r)"
    using evaluate_request_reduce [OF r(2) assms(2) red] by blast
  then show ?thesis
    using c(1,2) c(4,5) [OF red] canonicalize_again [OF c(1)]
    by (auto simp: rp_confirmed_quantity_def rp_pending_reduce_def)
qed

definition demo_leg :: "rat option \<Rightarrow> position_leg" where
  "demo_leg liquidation = \<lparr>pl_account_id = ''main'', pl_symbol = ''ETH/USDT:USDT'', pl_side = LONG,
     pl_quantity = 3, pl_mark_price = 7, pl_leverage = 1, pl_reported_initial_margin = None,
     pl_maintenance_margin = 1, pl_liquidation_price = liquidation\<rparr>"

definition demo_args :: "rat option \<Rightarrow> portfolio_args" where
  "demo_args liquidation = \<lparr>pf_account_id = ''main'', pf_equity = DFin 1000, pf_wallet_balance = DFin 1000,
     pf_available_balance = DFin 900, pf_positions = [demo_leg liquidation], pf_pending = [],
     pf_initial_margin = None, pf_maintenance_margin = None, pf_risk_data_valid = True,
     pf_observed_at_ms = None, pf_exchange = ''binance'', pf_snapshot_id = Some ''s1'',
     pf_source_version = 0, pf_exchange_time_ms = None, pf_strict = True\<rparr>"

definition demo_denial :: risk_decision where
  "demo_denial = \<lparr>rd_allowed = False, rd_quantity = 0, rd_reasons = [''LIQUIDATION_DATA_INCOMPLETE''],
     rd_notional = 0, rd_snapshot_id = Some ''s1''\<rparr>"

definition demo_reduction :: risk_decision where
  "demo_reduction = \<lparr>rd_allowed = True, rd_quantity = 3, rd_reasons = [''CLIPPED_TO_CONFIRMED_AVAILABLE''],
     rd_notional = 21, rd_snapshot_id = None\<rparr>"

lemma demo_built:
  "\<exists>p. build_risk_portfolio 0 (demo_args None) = Inr p
     \<and> evaluate_portfolio_order demo_limits p (0, 0, 0) ''ETH/USDT'' (Inr ''long'') (Inr ''open'')
         (DFin 1) (DFin 7) (DFin 1) (DFin 1) = Inr demo_denial
     \<and> evaluate_portfolio_order demo_limits p (0, 0, 0) ''ETH/USDT'' (Inr ''long'') (Inr ''close'')
         (DFin 5) (DFin 7) (DFin 1) (DFin 1) = Inr demo_reduction"
proof -
  have "res_bind (build_risk_portfolio 0 (demo_args None)) (\<lambda>p.
      evaluate_portfolio_order demo_limits p (0, 0, 0) ''ETH/USDT'' (Inr ''long'') (Inr ''open'')
        (DFin 1) (DFin 7) (DFin 1) (DFin 1)) = Inr demo_denial"
    by code_simp
  moreover have "res_bind (build_risk_portfolio 0 (demo_args None)) (\<lambda>p.
      evaluate_portfolio_order demo_limits p (0, 0, 0) ''ETH/USDT'' (Inr ''long'') (Inr ''close'')
        (DFin 5) (DFin 7) (DFin 1) (DFin 1)) = Inr demo_reduction"
    by code_simp
  ultimately show ?thesis by (auto simp: res_bind_eq_Inr)
qed

theorem incomplete_facts_stop_increases_witness: "\<not> rd_allowed demo_denial"
proof -
  obtain p where p: "build_risk_portfolio 0 (demo_args None) = Inr p"
    "evaluate_portfolio_order demo_limits p (0, 0, 0) ''ETH/USDT'' (Inr ''long'') (Inr ''open'')
       (DFin 1) (DFin 7) (DFin 1) (DFin 1) = Inr demo_denial"
    using demo_built by blast
  have "hedge_action (Inr ''open'') = Inr OPEN" by code_simp
  moreover have "demo_leg None \<in> set (pf_positions (demo_args None))" "0 < pl_quantity (demo_leg None)"
    "pl_liquidation_price (demo_leg None) = None"
    by (simp_all add: demo_args_def demo_leg_def)
  ultimately show ?thesis
    using incomplete_facts_stop_increases [OF p(1) _ _ _ p(2)] by simp
qed

theorem portfolio_reduction_bounded_witness: "rd_quantity demo_reduction = 3 \<and> 0 < rd_quantity demo_reduction"
proof -
  obtain p where p: "evaluate_portfolio_order demo_limits p (0, 0, 0) ''ETH/USDT'' (Inr ''long'') (Inr ''close'')
       (DFin 5) (DFin 7) (DFin 1) (DFin 1) = Inr demo_reduction"
    using demo_built by blast
  have "hedge_action (Inr ''close'') = Inr CLOSE" by code_simp
  moreover have "rd_allowed demo_reduction" "rd_quantity demo_reduction = 3" by (simp_all add: demo_reduction_def)
  ultimately show ?thesis
    using portfolio_reduction_bounded [OF p] by (auto simp: reduces_risk_def)
qed

end
