(* ===== verification/Readiness.thy ===== *)
theory Readiness
  imports Risk_Models
begin

text \<open>
  The readiness gate, \<open>freqtrade/hedge/readiness\<close> (\<open>state.py\<close>, \<open>checks.py\<close>, \<open>gate.py\<close>,
  \<open>monitor.py\<close>), with the identities of \<open>freqtrade/hedge/identity.py\<close>: the reasons and their
  policies, the eighteen checks over the inputs, the report, what it allows on a leg, and the monitor
  that keeps the inputs. A clock is the value or the exception of one reading; the locks make every
  operation one step. The \<open>detail\<close> texts and the \<open>as_dict\<close> views are left out.
\<close>

section \<open>Identities\<close>

definition id_text :: "string \<Rightarrow> string \<Rightarrow> string res" where
  "id_text field v = (if strip v = [] then config_error (field @ '' must not be empty.'')
     else if length (strip v) > 255 then config_error (field @ '' must not exceed 255 characters.'')
     else Inr (strip v))"

record risk_key =
  rk_exchange :: string
  rk_account_id :: string
  rk_symbol :: string
  rk_side :: position_side

definition mk_risk_key :: "string \<Rightarrow> string \<Rightarrow> string \<Rightarrow> position_side + string \<Rightarrow> risk_key res" where
  "mk_risk_key exchange account_id symbol position_side =
     res_bind (hedge_side (Exn HedgeConfigurationError ''RiskPositionKey requires LONG or SHORT side.'')
       position_side) (\<lambda>side.
     res_bind (id_text ''exchange'' exchange) (\<lambda>x.
     res_bind (id_text ''account_id'' account_id) (\<lambda>a.
     res_bind (canonicalize_symbol symbol) (\<lambda>s.
     Inr \<lparr>rk_exchange = lower x, rk_account_id = a, rk_symbol = s, rk_side = side\<rparr>))))"

record unknown_order_risk =
  uo_key :: risk_key
  uo_client_order_id :: string
  uo_observed_at_ms :: int
  uo_venue_order_id :: "string option"

definition mk_unknown_order :: "unknown_order_risk \<Rightarrow> unknown_order_risk res" where
  "mk_unknown_order u =
     res_bind (id_text ''client_order_id'' (uo_client_order_id u)) (\<lambda>c.
     res_bind (opt_require (id_text ''venue_order_id'') (uo_venue_order_id u)) (\<lambda>v.
     if uo_observed_at_ms u < 0 then config_error ''observed_at_ms must be a nonnegative integer.''
     else Inr (u\<lparr>uo_client_order_id := c, uo_venue_order_id := v\<rparr>)))"

definition request_key :: "request \<Rightarrow> risk_key res" where
  "request_key r = mk_risk_key (rq_exchange r) (rq_account_id r) (rq_symbol r) (Inl (rq_side r))"

section \<open>Reasons\<close>

datatype ready_state = R_STARTING | R_NOT_READY | R_DEGRADED | R_READY | R_HALT
datatype ready_severity = SEV_DEGRADED | SEV_HALT_WRITE | SEV_HALT_ACCOUNT
datatype ready_scope = SCOPE_ACCOUNT | SCOPE_WRITE | SCOPE_POSITION

datatype ready_reason =
    DATABASE_MIGRATION_FAILED | DATABASE_MIGRATION_CHECKSUM_INVALID | SINGLE_WRITER_LEASE_INVALID
  | POSITION_MODE_NOT_HEDGE | MARGIN_MODE_NOT_CROSS | LEVERAGE_MISMATCH
  | UNMANAGED_POSITION_PRESENT | UNMANAGED_ORDER_PRESENT | REST_SNAPSHOT_INVALID | REST_SNAPSHOT_STALE
  | USER_STREAM_STALE | USER_STREAM_GAP | UNKNOWN_ORDER_PRESENT | UNKNOWN_ORDER_SCOPE_INCOMPLETE
  | RECONCILIATION_NOT_CONVERGED | RISK_DATA_INVALID | RISK_SNAPSHOT_STALE | HALT_REASON_PRESENT
  | READINESS_CLOCK_INVALID

fun reason_value :: "ready_reason \<Rightarrow> string" where
  "reason_value DATABASE_MIGRATION_FAILED = ''DATABASE_MIGRATION_FAILED''"
| "reason_value DATABASE_MIGRATION_CHECKSUM_INVALID = ''DATABASE_MIGRATION_CHECKSUM_INVALID''"
| "reason_value SINGLE_WRITER_LEASE_INVALID = ''SINGLE_WRITER_LEASE_INVALID''"
| "reason_value POSITION_MODE_NOT_HEDGE = ''POSITION_MODE_NOT_HEDGE''"
| "reason_value MARGIN_MODE_NOT_CROSS = ''MARGIN_MODE_NOT_CROSS''"
| "reason_value LEVERAGE_MISMATCH = ''LEVERAGE_MISMATCH''"
| "reason_value UNMANAGED_POSITION_PRESENT = ''UNMANAGED_POSITION_PRESENT''"
| "reason_value UNMANAGED_ORDER_PRESENT = ''UNMANAGED_ORDER_PRESENT''"
| "reason_value REST_SNAPSHOT_INVALID = ''REST_SNAPSHOT_INVALID''"
| "reason_value REST_SNAPSHOT_STALE = ''REST_SNAPSHOT_STALE''"
| "reason_value USER_STREAM_STALE = ''USER_STREAM_STALE''"
| "reason_value USER_STREAM_GAP = ''USER_STREAM_GAP''"
| "reason_value UNKNOWN_ORDER_PRESENT = ''UNKNOWN_ORDER_PRESENT''"
| "reason_value UNKNOWN_ORDER_SCOPE_INCOMPLETE = ''UNKNOWN_ORDER_SCOPE_INCOMPLETE''"
| "reason_value RECONCILIATION_NOT_CONVERGED = ''RECONCILIATION_NOT_CONVERGED''"
| "reason_value RISK_DATA_INVALID = ''RISK_DATA_INVALID''"
| "reason_value RISK_SNAPSHOT_STALE = ''RISK_SNAPSHOT_STALE''"
| "reason_value HALT_REASON_PRESENT = ''HALT_REASON_PRESENT''"
| "reason_value READINESS_CLOCK_INVALID = ''READINESS_CLOCK_INVALID''"

record ready_policy =
  rp_severity :: ready_severity
  rp_scope :: ready_scope
  rp_controlled_reduce :: bool

definition policy :: "ready_severity \<Rightarrow> ready_scope \<Rightarrow> bool \<Rightarrow> ready_policy" where
  "policy severity scope reduce = \<lparr>rp_severity = severity, rp_scope = scope, rp_controlled_reduce = reduce\<rparr>"

fun reason_policy :: "ready_reason \<Rightarrow> ready_policy" where
  "reason_policy DATABASE_MIGRATION_FAILED = policy SEV_HALT_ACCOUNT SCOPE_ACCOUNT False"
| "reason_policy DATABASE_MIGRATION_CHECKSUM_INVALID = policy SEV_HALT_ACCOUNT SCOPE_ACCOUNT False"
| "reason_policy SINGLE_WRITER_LEASE_INVALID = policy SEV_HALT_WRITE SCOPE_WRITE False"
| "reason_policy POSITION_MODE_NOT_HEDGE = policy SEV_HALT_ACCOUNT SCOPE_ACCOUNT False"
| "reason_policy MARGIN_MODE_NOT_CROSS = policy SEV_HALT_ACCOUNT SCOPE_ACCOUNT False"
| "reason_policy LEVERAGE_MISMATCH = policy SEV_DEGRADED SCOPE_ACCOUNT True"
| "reason_policy UNMANAGED_POSITION_PRESENT = policy SEV_HALT_ACCOUNT SCOPE_ACCOUNT True"
| "reason_policy UNMANAGED_ORDER_PRESENT = policy SEV_HALT_ACCOUNT SCOPE_ACCOUNT True"
| "reason_policy REST_SNAPSHOT_INVALID = policy SEV_DEGRADED SCOPE_ACCOUNT False"
| "reason_policy REST_SNAPSHOT_STALE = policy SEV_DEGRADED SCOPE_ACCOUNT False"
| "reason_policy USER_STREAM_STALE = policy SEV_DEGRADED SCOPE_ACCOUNT True"
| "reason_policy USER_STREAM_GAP = policy SEV_DEGRADED SCOPE_ACCOUNT True"
| "reason_policy UNKNOWN_ORDER_PRESENT = policy SEV_DEGRADED SCOPE_POSITION False"
| "reason_policy UNKNOWN_ORDER_SCOPE_INCOMPLETE = policy SEV_HALT_ACCOUNT SCOPE_ACCOUNT False"
| "reason_policy RECONCILIATION_NOT_CONVERGED = policy SEV_DEGRADED SCOPE_ACCOUNT True"
| "reason_policy RISK_DATA_INVALID = policy SEV_HALT_ACCOUNT SCOPE_ACCOUNT False"
| "reason_policy RISK_SNAPSHOT_STALE = policy SEV_HALT_ACCOUNT SCOPE_ACCOUNT False"
| "reason_policy HALT_REASON_PRESENT = policy SEV_HALT_ACCOUNT SCOPE_ACCOUNT False"
| "reason_policy READINESS_CLOCK_INVALID = policy SEV_HALT_ACCOUNT SCOPE_ACCOUNT False"

section \<open>Checks and reports\<close>

record ready_check =
  ck_name :: string
  ck_passed :: bool
  ck_reason :: "ready_reason option"
  ck_severity :: "ready_severity option"
  ck_scope :: "ready_scope option"

definition mk_check :: "string \<Rightarrow> bool \<Rightarrow> ready_reason option \<Rightarrow> ready_severity option \<Rightarrow>
    ready_scope option \<Rightarrow> ready_check res" where
  "mk_check name passed reason_code severity scope =
     (if strip name = [] then Inl (Exn ValueError ''Readiness check name must not be empty.'')
      else if passed \<and> reason_code \<noteq> None
      then Inl (Exn ValueError ''Passing readiness check must not have a reason code.'')
      else if \<not> passed \<and> reason_code = None
      then Inl (Exn ValueError ''Failing readiness check must have a stable reason code.'')
      else case reason_code of
        Some code \<Rightarrow> Inr \<lparr>ck_name = strip name, ck_passed = passed, ck_reason = reason_code,
          ck_severity = Some (rp_severity (reason_policy code)), ck_scope = Some (rp_scope (reason_policy code))\<rparr>
      | None \<Rightarrow> if severity \<noteq> None \<or> scope \<noteq> None
          then Inl (Exn ValueError ''Passing readiness check must not carry severity or scope.'')
          else Inr \<lparr>ck_name = strip name, ck_passed = passed, ck_reason = None, ck_severity = None, ck_scope = None\<rparr>)"

record ready_report =
  rt_state :: ready_state
  rt_checks :: "ready_check list"
  rt_reasons :: "ready_reason list"
  rt_evaluated_at_ms :: int
  rt_reduce_allowed :: bool
  rt_blocked :: "risk_key list"

definition failed_reasons :: "ready_check list \<Rightarrow> ready_reason list" where
  "failed_reasons checks = List.map_filter (\<lambda>c. if ck_passed c then None else ck_reason c) checks"

definition mk_report :: "ready_report \<Rightarrow> ready_report res" where
  "mk_report r =
     (if rt_evaluated_at_ms r < 0 then Inl (Exn ValueError ''evaluated_at_ms must be nonnegative.'')
      else if rt_reasons r \<noteq> failed_reasons (rt_checks r)
      then Inl (Exn ValueError ''reason_codes must exactly match failing readiness checks.'')
      else if rt_state r = R_READY \<and> rt_reasons r \<noteq> []
      then Inl (Exn ValueError ''READY report must not contain failure reasons.'')
      else if rt_state r = R_STARTING \<and> rt_checks r \<noteq> []
      then Inl (Exn ValueError ''STARTING report must not contain evaluated checks.'')
      else Inr (r\<lparr>rt_blocked := dict_fromkeys (rt_blocked r)\<rparr>))"

definition report_ready :: "ready_report \<Rightarrow> bool" where
  "report_ready r \<longleftrightarrow> rt_state r = R_READY"

definition severity_order :: "ready_severity \<Rightarrow> nat" where
  "severity_order s = (case s of SEV_DEGRADED \<Rightarrow> 1 | SEV_HALT_WRITE \<Rightarrow> 2 | SEV_HALT_ACCOUNT \<Rightarrow> 3)"

definition max_severity :: "ready_report \<Rightarrow> ready_severity option" where
  \<comment> \<open>\<open>max\<close> keeps the first of two equal values\<close>
  "max_severity r = (case List.map_filter ck_severity (rt_checks r) of
     [] \<Rightarrow> None
   | s # ss \<Rightarrow> Some (fold (\<lambda>x m. if severity_order x > severity_order m then x else m) ss s))"

definition is_position_blocked :: "ready_report \<Rightarrow> risk_key \<Rightarrow> bool" where
  "is_position_blocked r key \<longleftrightarrow> key \<in> set (rt_blocked r)"

section \<open>Inputs\<close>

record 'd ready_inputs =
  in_migration_succeeded :: bool
  in_lease_valid :: bool
  in_position_mode :: string
  in_margin_mode :: string
  in_leverage :: 'd
  in_observed_leverages :: "'d list"
  in_unmanaged_positions :: int
  in_unmanaged_orders :: int
  in_rest_valid :: bool
  in_stream_fresh :: bool
  in_unknown_count :: int
  in_converged :: bool
  in_risk_data_valid :: bool
  in_halts :: "string list"
  in_checksum_valid :: bool
  in_rest_observed :: "int option"
  in_rest_max_age :: "int option"
  in_stream_observed :: "int option"
  in_stream_max_age :: "int option"
  in_stream_gap :: bool
  in_risk_observed :: "int option"
  in_risk_max_age :: "int option"
  in_unknown_orders :: "unknown_order_risk list"

definition value_error :: "string \<Rightarrow> 'a res" where
  "value_error m = Inl (Exn ValueError m)"

lemma value_error_Inr [simp]: "value_error m \<noteq> Inr x"
  by (simp add: value_error_def)

definition ready_mode :: "string \<Rightarrow> string \<Rightarrow> string res" where
  "ready_mode field v = (if lower (strip v) = [] then value_error (field @ '' must not be empty.'')
     else Inr (lower (strip v)))"

fun each :: "('a \<Rightarrow> 'b res) \<Rightarrow> 'a list \<Rightarrow> 'b list res" where
  \<comment> \<open>\<open>tuple(f(v) for v in xs)\<close>\<close>
  "each f [] = Inr []"
| "each f (x # xs) = res_bind (f x) (\<lambda>y. res_bind (each f xs) (\<lambda>ys. Inr (y # ys)))"

definition bad_age :: "int option \<Rightarrow> bool" where
  "bad_age t = (case t of None \<Rightarrow> False | Some n \<Rightarrow> n \<le> 0)"

definition mk_inputs :: "dec ready_inputs \<Rightarrow> rat ready_inputs res" where
  "mk_inputs i =
     res_bind (ready_mode ''position_mode'' (in_position_mode i)) (\<lambda>pm.
     res_bind (ready_mode ''margin_mode'' (in_margin_mode i)) (\<lambda>mm.
     res_bind (require_positive ''configured_leverage'' (in_leverage i)) (\<lambda>lev.
     if lev < 1 then value_error ''configured_leverage must be greater than or equal to 1.'' else
     res_bind (each (require_positive ''observed_leverage'') (in_observed_leverages i)) (\<lambda>levs.
     if list_ex (\<lambda>l. l < 1) levs then value_error ''observed_leverage must be greater than or equal to 1.'' else
     if in_unmanaged_positions i < 0 then value_error ''unmanaged_position_count must be a nonnegative integer.'' else
     if in_unmanaged_orders i < 0 then value_error ''unmanaged_order_count must be a nonnegative integer.'' else
     if in_unknown_count i < 0 then value_error ''unknown_order_count must be a nonnegative integer.'' else
     if bad_time (in_rest_observed i) then value_error ''rest_snapshot_observed_at_ms must be a nonnegative integer or None.'' else
     if bad_time (in_rest_max_age i) then value_error ''rest_snapshot_max_age_ms must be a nonnegative integer or None.'' else
     if bad_time (in_stream_observed i) then value_error ''user_stream_observed_at_ms must be a nonnegative integer or None.'' else
     if bad_time (in_stream_max_age i) then value_error ''user_stream_max_age_ms must be a nonnegative integer or None.'' else
     if bad_time (in_risk_observed i) then value_error ''risk_snapshot_observed_at_ms must be a nonnegative integer or None.'' else
     if bad_time (in_risk_max_age i) then value_error ''risk_snapshot_max_age_ms must be a nonnegative integer or None.'' else
     if bad_age (in_rest_max_age i) then value_error ''rest_snapshot_max_age_ms must be positive when provided.'' else
     if bad_age (in_stream_max_age i) then value_error ''user_stream_max_age_ms must be positive when provided.'' else
     if bad_age (in_risk_max_age i) then value_error ''risk_snapshot_max_age_ms must be positive when provided.'' else
     res_bind (code_texts (Exn ValueError ''halt_reasons must contain non-empty strings only.'') (in_halts i)) (\<lambda>halts.
     if int (length (in_unknown_orders i)) > in_unknown_count i
     then value_error ''unknown_order_count must include every supplied unknown order.'' else
     Inr \<lparr>in_migration_succeeded = in_migration_succeeded i, in_lease_valid = in_lease_valid i,
       in_position_mode = pm, in_margin_mode = mm, in_leverage = lev, in_observed_leverages = levs,
       in_unmanaged_positions = in_unmanaged_positions i, in_unmanaged_orders = in_unmanaged_orders i,
       in_rest_valid = in_rest_valid i, in_stream_fresh = in_stream_fresh i,
       in_unknown_count = in_unknown_count i, in_converged = in_converged i,
       in_risk_data_valid = in_risk_data_valid i, in_halts = halts,
       in_checksum_valid = in_checksum_valid i, in_rest_observed = in_rest_observed i,
       in_rest_max_age = in_rest_max_age i, in_stream_observed = in_stream_observed i,
       in_stream_max_age = in_stream_max_age i, in_stream_gap = in_stream_gap i,
       in_risk_observed = in_risk_observed i, in_risk_max_age = in_risk_max_age i,
       in_unknown_orders = in_unknown_orders i\<rparr>)))))"

definition inputs_again :: "rat ready_inputs \<Rightarrow> dec ready_inputs" where
  \<comment> \<open>the values \<open>dataclasses.replace\<close> hands to the constructor again\<close>
  "inputs_again i = \<lparr>in_migration_succeeded = in_migration_succeeded i, in_lease_valid = in_lease_valid i,
     in_position_mode = in_position_mode i, in_margin_mode = in_margin_mode i,
     in_leverage = DFin (in_leverage i), in_observed_leverages = map DFin (in_observed_leverages i),
     in_unmanaged_positions = in_unmanaged_positions i, in_unmanaged_orders = in_unmanaged_orders i,
     in_rest_valid = in_rest_valid i, in_stream_fresh = in_stream_fresh i,
     in_unknown_count = in_unknown_count i, in_converged = in_converged i,
     in_risk_data_valid = in_risk_data_valid i, in_halts = in_halts i,
     in_checksum_valid = in_checksum_valid i, in_rest_observed = in_rest_observed i,
     in_rest_max_age = in_rest_max_age i, in_stream_observed = in_stream_observed i,
     in_stream_max_age = in_stream_max_age i, in_stream_gap = in_stream_gap i,
     in_risk_observed = in_risk_observed i, in_risk_max_age = in_risk_max_age i,
     in_unknown_orders = in_unknown_orders i\<rparr>"

section \<open>The checks\<close>

definition check_result :: "string \<Rightarrow> bool \<Rightarrow> ready_reason \<Rightarrow> ready_check" where
  "check_result name passed code = \<lparr>ck_name = name, ck_passed = passed,
     ck_reason = (if passed then None else Some code),
     ck_severity = (if passed then None else Some (rp_severity (reason_policy code))),
     ck_scope = (if passed then None else Some (rp_scope (reason_policy code)))\<rparr>"

definition is_fresh :: "bool \<Rightarrow> int option \<Rightarrow> int option \<Rightarrow> int \<Rightarrow> bool" where
  "is_fresh valid_flag observed_at_ms max_age_ms now = (if \<not> valid_flag then False else
     case max_age_ms of None \<Rightarrow> True | Some age \<Rightarrow> (case observed_at_ms of None \<Rightarrow> False
     | Some observed \<Rightarrow> observed \<le> now \<and> now - observed \<le> age))"

definition leverage_matches :: "rat ready_inputs \<Rightarrow> bool" where
  "leverage_matches i \<longleftrightarrow> in_observed_leverages i \<noteq> [] \<and> list_all (\<lambda>l. l = in_leverage i) (in_observed_leverages i)"

definition run_readiness_checks :: "rat ready_inputs \<Rightarrow> int option \<Rightarrow> ready_check list" where
  "run_readiness_checks i now_ms = (let now = (case now_ms of None \<Rightarrow> 0 | Some n \<Rightarrow> n) in
     [check_result ''database_migration'' (in_migration_succeeded i) DATABASE_MIGRATION_FAILED,
      check_result ''database_migration_checksum'' (in_checksum_valid i) DATABASE_MIGRATION_CHECKSUM_INVALID,
      check_result ''single_writer'' (in_lease_valid i) SINGLE_WRITER_LEASE_INVALID,
      check_result ''position_mode'' (in_position_mode i = ''hedge'') POSITION_MODE_NOT_HEDGE,
      check_result ''margin_mode'' (in_margin_mode i = ''cross'') MARGIN_MODE_NOT_CROSS,
      check_result ''leverage'' (leverage_matches i) LEVERAGE_MISMATCH,
      check_result ''unmanaged_positions'' (in_unmanaged_positions i = 0) UNMANAGED_POSITION_PRESENT,
      check_result ''unmanaged_orders'' (in_unmanaged_orders i = 0) UNMANAGED_ORDER_PRESENT,
      check_result ''rest_snapshot'' (in_rest_valid i) REST_SNAPSHOT_INVALID,
      check_result ''rest_snapshot_freshness''
        (is_fresh (in_rest_valid i) (in_rest_observed i) (in_rest_max_age i) now) REST_SNAPSHOT_STALE,
      check_result ''user_stream''
        (is_fresh (in_stream_fresh i) (in_stream_observed i) (in_stream_max_age i) now) USER_STREAM_STALE,
      check_result ''user_stream_gap'' (\<not> in_stream_gap i) USER_STREAM_GAP,
      check_result ''unknown_orders'' (in_unknown_count i = 0) UNKNOWN_ORDER_PRESENT,
      check_result ''unknown_order_scope'' (in_unknown_count i = int (length (in_unknown_orders i)))
        UNKNOWN_ORDER_SCOPE_INCOMPLETE,
      check_result ''reconciliation'' (in_converged i) RECONCILIATION_NOT_CONVERGED,
      check_result ''risk_data'' (in_risk_data_valid i) RISK_DATA_INVALID,
      check_result ''risk_snapshot_freshness''
        (is_fresh (in_risk_data_valid i) (in_risk_observed i) (in_risk_max_age i) now) RISK_SNAPSHOT_STALE,
      check_result ''halt_reasons'' (in_halts i = []) HALT_REASON_PRESENT])"

section \<open>The gate\<close>

definition gate_now :: "int res \<Rightarrow> int res" where
  "gate_now clock = res_bind clock (\<lambda>v. if v < 0
     then value_error ''Readiness clock must return nonnegative integer milliseconds.'' else Inr v)"

definition clock_failure :: "int \<Rightarrow> ready_report res" where
  "clock_failure previous_timestamp = mk_report \<lparr>rt_state = R_NOT_READY,
     rt_checks = [check_result ''readiness_clock'' False READINESS_CLOCK_INVALID],
     rt_reasons = [READINESS_CLOCK_INVALID], rt_evaluated_at_ms = previous_timestamp,
     rt_reduce_allowed = False, rt_blocked = []\<rparr>"

definition mk_gate :: "int res \<Rightarrow> ready_report res" where
  \<comment> \<open>a gate is the report it holds\<close>
  "mk_gate clock = (case gate_now clock of
     Inl e \<Rightarrow> clock_failure 0
   | Inr now \<Rightarrow> mk_report \<lparr>rt_state = R_STARTING, rt_checks = [], rt_reasons = [],
       rt_evaluated_at_ms = now, rt_reduce_allowed = False, rt_blocked = []\<rparr>)"

definition report_of :: "ready_check list \<Rightarrow> rat ready_inputs \<Rightarrow> int \<Rightarrow> ready_report res" where
  "report_of checks i now = (let reasons = failed_reasons checks;
       severities = map (\<lambda>c. rp_severity (reason_policy c)) reasons;
       state = (if reasons = [] then R_READY
         else if list_ex (\<lambda>s. s \<in> {SEV_HALT_ACCOUNT, SEV_HALT_WRITE}) severities then R_HALT
         else R_DEGRADED);
       non_positional = filter (\<lambda>c. c \<noteq> UNKNOWN_ORDER_PRESENT) reasons;
       emergency = (if reasons = [] then True
         else list_all (\<lambda>c. rp_controlled_reduce (reason_policy c)) non_positional)
     in mk_report \<lparr>rt_state = state, rt_checks = checks, rt_reasons = reasons, rt_evaluated_at_ms = now,
       rt_reduce_allowed = emergency, rt_blocked = dict_fromkeys (map uo_key (in_unknown_orders i))\<rparr>)"

definition gate_evaluate :: "rat ready_inputs \<Rightarrow> int res \<Rightarrow> (ready_report, ready_report) py" where
  "gate_evaluate i clock r =
     (case (case gate_now clock of
         Inl e \<Rightarrow> clock_failure (rt_evaluated_at_ms r)
       | Inr now \<Rightarrow> report_of (run_readiness_checks i (Some now)) i now) of
       Inl e \<Rightarrow> (Inl e, r) | Inr r' \<Rightarrow> (Inr r', r'))"

definition allows_new_risk :: "ready_report \<Rightarrow> risk_key option \<Rightarrow> bool" where
  "allows_new_risk r key = (if report_ready r then True else case key of
     None \<Rightarrow> False
   | Some k \<Rightarrow> if is_position_blocked r k then False
       else rt_reasons r \<noteq> [] \<and> list_all (\<lambda>c. c = UNKNOWN_ORDER_PRESENT) (rt_reasons r))"

definition allows_controlled_reduce :: "ready_report \<Rightarrow> risk_key option \<Rightarrow> bool" where
  "allows_controlled_reduce r key =
     (case key of Some k \<Rightarrow> (if is_position_blocked r k then False else report_ready r \<or> rt_reduce_allowed r)
      | None \<Rightarrow> report_ready r \<or> rt_reduce_allowed r)"

fun ready_state_value :: "ready_state \<Rightarrow> string" where
  "ready_state_value R_STARTING = ''STARTING''"
| "ready_state_value R_NOT_READY = ''NOT_READY''"
| "ready_state_value R_DEGRADED = ''DEGRADED''"
| "ready_state_value R_READY = ''READY''"
| "ready_state_value R_HALT = ''HALT''"

definition assert_ready :: "ready_report \<Rightarrow> ready_report res" where
  "assert_ready r = (let codes = joined '','' (map reason_value (rt_reasons r)) in
     if report_ready r then Inr r
     else Inl (Exn RuntimeError (''ReadinessGate is not READY: ''
       @ (if codes = [] then ready_state_value (rt_state r) else codes))))"

section \<open>The monitor\<close>

text \<open>The writer of a monitor is the operation \<open>writer.status().valid\<close> on a state of its own, where
  one is bound.\<close>

record monitor =
  mo_inputs :: "rat ready_inputs"
  mo_report :: ready_report

type_synonym 'w writer_probe = "('w, bool) py option"

definition writer_inputs :: "'w writer_probe \<Rightarrow> rat ready_inputs \<Rightarrow> ('w, rat ready_inputs) py" where
  "writer_inputs writer i = (case writer of
     None \<Rightarrow> py_ret i
   | Some status \<Rightarrow> py_bind (py_try status) (\<lambda>r.
       py_of (mk_inputs ((inputs_again i)\<lparr>in_lease_valid := (case r of Inl e \<Rightarrow> False | Inr valid \<Rightarrow> valid)\<rparr>))))"

definition monitor_refresh :: "'w writer_probe \<Rightarrow> int res \<Rightarrow> (monitor \<times> 'w, ready_report) py" where
  "monitor_refresh writer clock s = (case s of (m, w) \<Rightarrow> case writer_inputs writer (mo_inputs m) w of
     (Inl e, w') \<Rightarrow> (Inl e, (m, w'))
   | (Inr i, w') \<Rightarrow> (case gate_evaluate i clock (mo_report m) of (r, report) \<Rightarrow>
       (r, (\<lparr>mo_inputs = i, mo_report = report\<rparr>, w'))))"

definition monitor_replace :: "rat ready_inputs res \<Rightarrow> 'w writer_probe \<Rightarrow> int res \<Rightarrow> (monitor \<times> 'w, ready_report) py" where
  \<comment> \<open>\<open>self._inputs = replace(...)\<close> and \<open>refresh\<close>\<close>
  "monitor_replace inputs writer clock s = (case inputs of
     Inl e \<Rightarrow> (Inl e, s)
   | Inr i \<Rightarrow> monitor_refresh writer clock ((fst s)\<lparr>mo_inputs := i\<rparr>, snd s))"

definition monitor_update :: "(dec ready_inputs \<Rightarrow> dec ready_inputs) \<Rightarrow> 'w writer_probe \<Rightarrow> int res \<Rightarrow>
    (monitor \<times> 'w, ready_report) py" where
  "monitor_update changes writer clock s =
     monitor_replace (mk_inputs (changes (inputs_again (mo_inputs (fst s))))) writer clock s"

definition with_halts :: "string list \<Rightarrow> rat ready_inputs \<Rightarrow> rat ready_inputs res" where
  "with_halts reasons i = mk_inputs ((inputs_again i)\<lparr>in_halts := reasons\<rparr>)"

definition set_halt_reason :: "string \<Rightarrow> 'w writer_probe \<Rightarrow> int res \<Rightarrow> (monitor \<times> 'w, ready_report) py" where
  "set_halt_reason reason_code writer clock s =
     (if strip reason_code = [] then (value_error ''reason_code must be a non-empty string.'', s)
      else monitor_replace (with_halts (dict_fromkeys (in_halts (mo_inputs (fst s)) @ [strip reason_code]))
        (mo_inputs (fst s))) writer clock s)"

definition clear_halt_reason :: "string option \<Rightarrow> 'w writer_probe \<Rightarrow> int res \<Rightarrow> (monitor \<times> 'w, ready_report) py" where
  "clear_halt_reason reason_code writer clock s = (case reason_code of
     None \<Rightarrow> monitor_replace (with_halts [] (mo_inputs (fst s))) writer clock s
   | Some c \<Rightarrow> if strip c = [] then (value_error ''reason_code must be a non-empty string.'', s)
       else monitor_replace (with_halts (filter (\<lambda>h. h \<noteq> strip c) (in_halts (mo_inputs (fst s))))
         (mo_inputs (fst s))) writer clock s)"

datatype monitor_op =
    M_Refresh
  | M_Update "dec ready_inputs \<Rightarrow> dec ready_inputs"
  | M_Set_Halt string
  | M_Clear_Halt "string option"

fun monitor_do :: "monitor_op \<Rightarrow> 'w writer_probe \<Rightarrow> int res \<Rightarrow> (monitor \<times> 'w, ready_report) py" where
  "monitor_do M_Refresh writer clock s = monitor_refresh writer clock s"
| "monitor_do (M_Update changes) writer clock s = monitor_update changes writer clock s"
| "monitor_do (M_Set_Halt reason) writer clock s = set_halt_reason reason writer clock s"
| "monitor_do (M_Clear_Halt reason) writer clock s = clear_halt_reason reason writer clock s"

fun monitor_run :: "(monitor_op \<times> 'w writer_probe \<times> int res) list \<Rightarrow> monitor \<times> 'w \<Rightarrow> monitor \<times> 'w" where
  "monitor_run [] s = s"
| "monitor_run ((op, writer, clock) # ops) s = monitor_run ops (snd (monitor_do op writer clock s))"

end
