(* ===== verification/Readiness_Gate.thy ===== *)
theory Readiness_Gate
  imports Readiness
begin

text \<open>
  What the readiness gate allows: an evaluation never raises, new risk and controlled reductions on a leg
  are allowed exactly under the conditions of the checks, and a halt reason closes the gate until it is
  cleared.
\<close>


lemma failed_check: "failed_reasons (check_result n p c # cs) = (if p then [] else [c]) @ failed_reasons cs"
  by (simp add: failed_reasons_def map_filter_simps check_result_def)

lemma failed_none: "failed_reasons [] = []"
  by (simp add: failed_reasons_def map_filter_simps)

lemma failed_check_subset:
  "set (failed_reasons (check_result n p c # cs)) \<subseteq> R \<longleftrightarrow> (p \<or> c \<in> R) \<and> set (failed_reasons cs) \<subseteq> R"
  by (simp add: failed_check)

lemma failed_subset:
  "set (failed_reasons (run_readiness_checks i (Some now))) \<subseteq> R \<longleftrightarrow>
     (in_migration_succeeded i \<or> DATABASE_MIGRATION_FAILED \<in> R) \<and>
     (in_checksum_valid i \<or> DATABASE_MIGRATION_CHECKSUM_INVALID \<in> R) \<and>
     (in_lease_valid i \<or> SINGLE_WRITER_LEASE_INVALID \<in> R) \<and>
     (in_position_mode i = ''hedge'' \<or> POSITION_MODE_NOT_HEDGE \<in> R) \<and>
     (in_margin_mode i = ''cross'' \<or> MARGIN_MODE_NOT_CROSS \<in> R) \<and>
     (leverage_matches i \<or> LEVERAGE_MISMATCH \<in> R) \<and>
     (in_unmanaged_positions i = 0 \<or> UNMANAGED_POSITION_PRESENT \<in> R) \<and>
     (in_unmanaged_orders i = 0 \<or> UNMANAGED_ORDER_PRESENT \<in> R) \<and>
     (in_rest_valid i \<or> REST_SNAPSHOT_INVALID \<in> R) \<and>
     (is_fresh (in_rest_valid i) (in_rest_observed i) (in_rest_max_age i) now \<or> REST_SNAPSHOT_STALE \<in> R) \<and>
     (is_fresh (in_stream_fresh i) (in_stream_observed i) (in_stream_max_age i) now \<or> USER_STREAM_STALE \<in> R) \<and>
     (\<not> in_stream_gap i \<or> USER_STREAM_GAP \<in> R) \<and>
     (in_unknown_count i = 0 \<or> UNKNOWN_ORDER_PRESENT \<in> R) \<and>
     (in_unknown_count i = int (length (in_unknown_orders i)) \<or> UNKNOWN_ORDER_SCOPE_INCOMPLETE \<in> R) \<and>
     (in_converged i \<or> RECONCILIATION_NOT_CONVERGED \<in> R) \<and>
     (in_risk_data_valid i \<or> RISK_DATA_INVALID \<in> R) \<and>
     (is_fresh (in_risk_data_valid i) (in_risk_observed i) (in_risk_max_age i) now \<or> RISK_SNAPSHOT_STALE \<in> R) \<and>
     (in_halts i = [] \<or> HALT_REASON_PRESENT \<in> R)"
  by (simp only: run_readiness_checks_def Let_def option.case failed_check_subset failed_none list.set
      empty_subsetI simp_thms)

text \<open>Every report of the gate is well formed, so an evaluation never raises.\<close>

lemma check_result_ok: "strip name = name \<Longrightarrow> name \<noteq> [] \<Longrightarrow>
    mk_check name p (if p then None else Some c) None None = Inr (check_result name p c)"
  by (simp add: mk_check_def check_result_def)

lemma dict_fromkeys_set [simp]: "set (dict_fromkeys xs) = set xs"
proof -
  have "set (map fst (fold (\<lambda>x d. dict_put x () d) xs d)) = set (map fst d) \<union> set xs" for d :: "('a, unit) dict"
    by (induction xs arbitrary: d) (auto simp: dom_update simp flip: image_set)
  from this [of "[]"] show ?thesis by (simp add: dict_fromkeys_def)
qed

definition evaluated :: "rat ready_inputs \<Rightarrow> int \<Rightarrow> ready_report" where
  \<comment> \<open>the report of an evaluation whose clock read \<open>now\<close>\<close>
  "evaluated i now = (let reasons = failed_reasons (run_readiness_checks i (Some now)) in
     \<lparr>rt_state = (if reasons = [] then R_READY
        else if list_ex (\<lambda>c. rp_severity (reason_policy c) \<in> {SEV_HALT_ACCOUNT, SEV_HALT_WRITE}) reasons
        then R_HALT else R_DEGRADED),
      rt_checks = run_readiness_checks i (Some now), rt_reasons = reasons, rt_evaluated_at_ms = now,
      rt_reduce_allowed = list_all (\<lambda>c. c = UNKNOWN_ORDER_PRESENT \<or> rp_controlled_reduce (reason_policy c)) reasons,
      rt_blocked = dict_fromkeys (dict_fromkeys (map uo_key (in_unknown_orders i)))\<rparr>)"

lemma list_all_filter: "list_all P (filter Q xs) \<longleftrightarrow> list_all (\<lambda>x. Q x \<longrightarrow> P x) xs"
  by (auto simp: list_all_iff)

lemma report_of_checks:
  assumes "0 \<le> now"
  shows "report_of (run_readiness_checks i (Some now)) i now = Inr (evaluated i now)"
proof -
  define checks where "checks = run_readiness_checks i (Some now)"
  define reasons where "reasons = failed_reasons checks"
  have "list_all (\<lambda>c. rp_controlled_reduce (reason_policy c)) (filter (\<lambda>c. c \<noteq> UNKNOWN_ORDER_PRESENT) reasons)
      = list_all (\<lambda>c. c = UNKNOWN_ORDER_PRESENT \<or> rp_controlled_reduce (reason_policy c)) reasons"
    by (auto simp: list_all_iff)
  then show ?thesis
    using assms unfolding report_of_def evaluated_def checks_def [symmetric]
    unfolding reasons_def [symmetric] Let_def mk_report_def
    by (cases "reasons = []") (simp_all add: list_ex_iff reasons_def)
qed

lemma clock_failure_Inr:
  "0 \<le> t \<Longrightarrow> clock_failure t = Inr \<lparr>rt_state = R_NOT_READY,
     rt_checks = [check_result ''readiness_clock'' False READINESS_CLOCK_INVALID],
     rt_reasons = [READINESS_CLOCK_INVALID], rt_evaluated_at_ms = t, rt_reduce_allowed = False, rt_blocked = []\<rparr>"
  by (simp add: clock_failure_def mk_report_def failed_check failed_none dict_fromkeys_def)

lemma gate_now_Inr: "gate_now clock = Inr now \<Longrightarrow> 0 \<le> now"
  by (auto simp: gate_now_def res_splits split: if_splits)

definition closed_report :: "ready_report \<Rightarrow> bool" where
  \<comment> \<open>allows nothing at all\<close>
  "closed_report r \<longleftrightarrow> (\<forall>key. \<not> allows_new_risk r key \<and> \<not> allows_controlled_reduce r key)"

lemma clock_failure_closed: "0 \<le> t \<Longrightarrow> clock_failure t = Inr r \<Longrightarrow> closed_report r"
  by (auto simp: closed_report_def clock_failure_Inr allows_new_risk_def allows_controlled_reduce_def report_ready_def
      split: option.split)

lemma mk_gate_closed: "mk_gate clock = Inr r \<Longrightarrow> closed_report r"
  using clock_failure_closed [of 0 r] gate_now_Inr [of clock]
  by (fastforce simp: mk_gate_def mk_report_def closed_report_def allows_new_risk_def allows_controlled_reduce_def
      report_ready_def failed_none dict_fromkeys_def split: sum.splits option.splits)

definition clock_report :: "int \<Rightarrow> ready_report" where
  "clock_report t = \<lparr>rt_state = R_NOT_READY,
     rt_checks = [check_result ''readiness_clock'' False READINESS_CLOCK_INVALID],
     rt_reasons = [READINESS_CLOCK_INVALID], rt_evaluated_at_ms = t, rt_reduce_allowed = False, rt_blocked = []\<rparr>"

lemma report_times [simp]: "rt_evaluated_at_ms (evaluated i now) = now" "rt_evaluated_at_ms (clock_report t) = t"
  by (simp_all add: evaluated_def clock_report_def Let_def)

lemma gate_evaluate_eq:
  assumes "0 \<le> rt_evaluated_at_ms r0"
  shows "gate_evaluate i clock r0 = (let r = (case gate_now clock of
      Inl e \<Rightarrow> clock_report (rt_evaluated_at_ms r0) | Inr now \<Rightarrow> evaluated i now) in (Inr r, r))"
proof (cases "gate_now clock")
  case (Inl e)
  then show ?thesis using clock_failure_Inr [OF assms] by (simp add: gate_evaluate_def clock_report_def Let_def)
next
  case (Inr now)
  then show ?thesis using report_of_checks gate_now_Inr [OF Inr] by (simp add: gate_evaluate_def Let_def)
qed

section \<open>What a report allows\<close>

lemma mk_inputs_Inr:
  assumes "mk_inputs v = Inr i"
  shows "int (length (in_unknown_orders i)) \<le> in_unknown_count i"
    and "\<exists>e. code_texts e (in_halts v) = Inr (in_halts i)"
  using assms by (auto simp: mk_inputs_def res_splits if_config_Inr split: if_splits)

lemma clock_report_allows [simp]:
  "\<not> allows_new_risk (clock_report t) key" "\<not> allows_controlled_reduce (clock_report t) key"
  by (simp_all add: clock_report_def allows_new_risk_def allows_controlled_reduce_def report_ready_def split: option.split)

lemma evaluated_allows_new:
  assumes "int (length (in_unknown_orders i)) \<le> in_unknown_count i"
  shows "allows_new_risk (evaluated i now) (Some k) \<longleftrightarrow> k \<notin> uo_key ` set (in_unknown_orders i) \<and>
    set (failed_reasons (run_readiness_checks i (Some now))) \<subseteq> {UNKNOWN_ORDER_PRESENT}"
proof (cases "failed_reasons (run_readiness_checks i (Some now)) = []")
  case True
  then have "in_unknown_count i = 0"
    using failed_subset [of i now "{}"] by simp
  then have "in_unknown_orders i = []" using assms by simp
  then show ?thesis using True by (simp add: allows_new_risk_def evaluated_def report_ready_def)
next
  case False
  then show ?thesis
    by (auto simp: allows_new_risk_def evaluated_def report_ready_def is_position_blocked_def Let_def list_all_iff)
qed

lemma evaluated_allows_reduce:
  "allows_controlled_reduce (evaluated i now) (Some k) \<longleftrightarrow> k \<notin> uo_key ` set (in_unknown_orders i) \<and>
    set (failed_reasons (run_readiness_checks i (Some now)))
      \<subseteq> {c. c = UNKNOWN_ORDER_PRESENT \<or> rp_controlled_reduce (reason_policy c)}"
  by (cases "failed_reasons (run_readiness_checks i (Some now)) = []")
    (auto simp: allows_controlled_reduce_def evaluated_def report_ready_def is_position_blocked_def Let_def list_all_iff)

lemma is_fresh_valid:
  "is_fresh (in_rest_valid i) t a now \<longleftrightarrow> in_rest_valid i \<and> is_fresh True t a now"
  "is_fresh (in_stream_fresh i) t a now \<longleftrightarrow> in_stream_fresh i \<and> is_fresh True t a now"
  "is_fresh (in_risk_data_valid i) t a now \<longleftrightarrow> in_risk_data_valid i \<and> is_fresh True t a now"
  by (simp_all add: is_fresh_def)

lemma gate_allows:
  assumes "0 \<le> rt_evaluated_at_ms r0" and "\<And>t. \<not> P (clock_report t)"
    and "\<And>now. gate_now clock = Inr now \<Longrightarrow> P (evaluated i now) \<longleftrightarrow> Q now"
  shows "\<exists>r. gate_evaluate i clock r0 = (Inr r, r) \<and> (P r \<longleftrightarrow> (\<exists>now. gate_now clock = Inr now \<and> Q now))"
  using assms(2,3) by (cases "gate_now clock") (simp_all add: gate_evaluate_eq [OF assms(1)] Let_def)

text \<open>C20: A report allows new risk on a leg exactly when the clock gave a time and every check but the one for
  unresolved orders passes at that time: the database migrated with the right checksums, this process
  holds the lease, hedge and cross mode, every observed leverage as configured, nothing unmanaged, a valid
  and fresh account snapshot, order stream and risk snapshot, reconciliation converged and no halt reason;
  and every unresolved order is known by its leg, none of them on this one. An evaluation never raises.
\<close>

theorem new_risk_exactly_when:
  assumes "mk_inputs v = Inr i" and "0 \<le> rt_evaluated_at_ms r0"
  shows "\<exists>r. gate_evaluate i clock r0 = (Inr r, r) \<and> (allows_new_risk r (Some k) \<longleftrightarrow>
    (\<exists>now. gate_now clock = Inr now \<and> k \<notin> uo_key ` set (in_unknown_orders i)
      \<and> in_migration_succeeded i \<and> in_checksum_valid i \<and> in_lease_valid i
      \<and> in_position_mode i = ''hedge'' \<and> in_margin_mode i = ''cross'' \<and> leverage_matches i
      \<and> in_unmanaged_positions i = 0 \<and> in_unmanaged_orders i = 0
      \<and> in_rest_valid i \<and> is_fresh True (in_rest_observed i) (in_rest_max_age i) now
      \<and> in_stream_fresh i \<and> is_fresh True (in_stream_observed i) (in_stream_max_age i) now
      \<and> \<not> in_stream_gap i \<and> in_unknown_count i = int (length (in_unknown_orders i)) \<and> in_converged i
      \<and> in_risk_data_valid i \<and> is_fresh True (in_risk_observed i) (in_risk_max_age i) now
      \<and> in_halts i = []))"
proof (rule gate_allows [OF assms(2)])
  show "\<not> allows_new_risk (clock_report t) (Some k)" for t by simp
next
  fix now
  show "allows_new_risk (evaluated i now) (Some k) \<longleftrightarrow> k \<notin> uo_key ` set (in_unknown_orders i)
      \<and> in_migration_succeeded i \<and> in_checksum_valid i \<and> in_lease_valid i
      \<and> in_position_mode i = ''hedge'' \<and> in_margin_mode i = ''cross'' \<and> leverage_matches i
      \<and> in_unmanaged_positions i = 0 \<and> in_unmanaged_orders i = 0
      \<and> in_rest_valid i \<and> is_fresh True (in_rest_observed i) (in_rest_max_age i) now
      \<and> in_stream_fresh i \<and> is_fresh True (in_stream_observed i) (in_stream_max_age i) now
      \<and> \<not> in_stream_gap i \<and> in_unknown_count i = int (length (in_unknown_orders i)) \<and> in_converged i
      \<and> in_risk_data_valid i \<and> is_fresh True (in_risk_observed i) (in_risk_max_age i) now
      \<and> in_halts i = []"
    unfolding evaluated_allows_new [OF mk_inputs_Inr(1) [OF assms(1)]] failed_subset is_fresh_valid by simp
qed

text \<open>A report allows a controlled reduction of a leg exactly when the clock gave a time and everything
  holds that a reduction relies on: migrations, lease, modes, a valid and fresh account snapshot and risk
  snapshot, no halt reason, and every unresolved order known by its leg, none of them on this one. A wrong
  leverage, something unmanaged, a stale or broken order stream and a reconciliation that has not converged
  do not stop it.
\<close>

theorem controlled_reduce_exactly_when:
  assumes "0 \<le> rt_evaluated_at_ms r0"
  shows "\<exists>r. gate_evaluate i clock r0 = (Inr r, r) \<and> (allows_controlled_reduce r (Some k) \<longleftrightarrow>
    (\<exists>now. gate_now clock = Inr now \<and> k \<notin> uo_key ` set (in_unknown_orders i)
      \<and> in_migration_succeeded i \<and> in_checksum_valid i \<and> in_lease_valid i
      \<and> in_position_mode i = ''hedge'' \<and> in_margin_mode i = ''cross''
      \<and> in_rest_valid i \<and> is_fresh True (in_rest_observed i) (in_rest_max_age i) now
      \<and> in_unknown_count i = int (length (in_unknown_orders i))
      \<and> in_risk_data_valid i \<and> is_fresh True (in_risk_observed i) (in_risk_max_age i) now
      \<and> in_halts i = []))"
proof (rule gate_allows [OF assms])
  show "\<not> allows_controlled_reduce (clock_report t) (Some k)" for t by simp
next
  fix now
  show "allows_controlled_reduce (evaluated i now) (Some k) \<longleftrightarrow> k \<notin> uo_key ` set (in_unknown_orders i)
      \<and> in_migration_succeeded i \<and> in_checksum_valid i \<and> in_lease_valid i
      \<and> in_position_mode i = ''hedge'' \<and> in_margin_mode i = ''cross''
      \<and> in_rest_valid i \<and> is_fresh True (in_rest_observed i) (in_rest_max_age i) now
      \<and> in_unknown_count i = int (length (in_unknown_orders i))
      \<and> in_risk_data_valid i \<and> is_fresh True (in_risk_observed i) (in_risk_max_age i) now
      \<and> in_halts i = []"
    unfolding evaluated_allows_reduce failed_subset is_fresh_valid by (simp add: policy_def)
qed

section \<open>A halt reason\<close>

definition halted_by :: "string \<Rightarrow> monitor \<Rightarrow> bool" where
  \<comment> \<open>the reason is among the inputs and the report allows nothing\<close>
  "halted_by reason m \<longleftrightarrow> reason \<in> set (in_halts (mo_inputs m)) \<and> 0 \<le> rt_evaluated_at_ms (mo_report m) \<and>
     (\<forall>key. \<not> allows_new_risk (mo_report m) key \<and> \<not> allows_controlled_reduce (mo_report m) key)"

definition keeps_reason :: "string \<Rightarrow> monitor_op \<Rightarrow> bool" where
  "keeps_reason reason op \<longleftrightarrow> (case op of
     M_Update changes \<Rightarrow> (\<forall>i. reason \<in> set (in_halts i) \<longrightarrow> reason \<in> set (in_halts (changes i)))
   | M_Clear_Halt c \<Rightarrow> (case c of None \<Rightarrow> False | Some t \<Rightarrow> strip t \<noteq> reason)
   | _ \<Rightarrow> True)"

lemma code_texts_set: "code_texts e xs = Inr ys \<Longrightarrow> set ys = strip ` set xs"
proof -
  assume "code_texts e xs = Inr ys"
  then have l: "length (filter (\<lambda>x. x \<noteq> []) (map strip xs)) = length (map strip xs)"
    and ys: "ys = dict_fromkeys (filter (\<lambda>x. x \<noteq> []) (map strip xs))"
    by (auto simp: code_texts_def Let_def split: if_splits)
  have "filter (\<lambda>x. x \<noteq> []) (map strip xs) = map strip xs"
    using l by (metis length_filter_less filter_id_conv less_irrefl)
  then show ?thesis by (simp add: ys)
qed

lemma mk_inputs_halts: "mk_inputs v = Inr i \<Longrightarrow> set (in_halts i) = strip ` set (in_halts v)"
  using mk_inputs_Inr(2) code_texts_set by blast

lemma halted_evaluated:
  assumes "in_halts i \<noteq> []"
  shows "\<not> allows_new_risk (evaluated i now) key" and "\<not> allows_controlled_reduce (evaluated i now) key"
proof -
  let ?f = "failed_reasons (run_readiness_checks i (Some now))"
  have "\<not> set ?f \<subseteq> - {HALT_REASON_PRESENT}" using assms unfolding failed_subset by simp
  then have h: "HALT_REASON_PRESENT \<in> set ?f" by blast
  then have "?f \<noteq> []" by auto
  with h show "\<not> allows_new_risk (evaluated i now) key" "\<not> allows_controlled_reduce (evaluated i now) key"
    by (auto simp: allows_new_risk_def allows_controlled_reduce_def evaluated_def report_ready_def Let_def list_all_iff
        policy_def split: option.split intro!: bexI [OF _ h])
qed

lemma refresh_halted:
  assumes "reason \<in> set (in_halts (mo_inputs (fst s)))" and "strip reason = reason"
    and "0 \<le> rt_evaluated_at_ms (mo_report (fst s))" and "monitor_refresh writer clock s = (Inr r, t)"
  shows "halted_by reason (fst t)"
proof -
  obtain m w where s: "s = (m, w)" by fastforce
  obtain i w' where i: "writer_inputs writer (mo_inputs m) w = (Inr i, w')"
    using assms(4) by (auto simp: s monitor_refresh_def split: prod.splits sum.splits)
  have "reason \<in> set (in_halts i)"
  proof (cases writer)
    case None
    then show ?thesis using i assms(1) by (simp add: writer_inputs_def s)
  next
    case (Some status)
    then obtain b where "mk_inputs ((inputs_again (mo_inputs m))\<lparr>in_lease_valid := b\<rparr>) = Inr i"
      using i by (auto simp: writer_inputs_def py_try_def py_bind_eq split: prod.splits)
    from mk_inputs_halts [OF this] show ?thesis using assms(1,2) by (force simp: s inputs_again_def)
  qed
  moreover from this have "in_halts i \<noteq> []" by auto
  ultimately show ?thesis
    using assms(3,4) halted_evaluated [of i] i gate_now_Inr [of clock]
    by (auto simp: s monitor_refresh_def gate_evaluate_eq Let_def halted_by_def split: sum.splits)
qed

lemma refresh_keeps:
  assumes "halted_by reason (fst s)" and "strip reason = reason"
  shows "halted_by reason (fst (snd (monitor_refresh writer clock s)))"
proof (cases "fst (monitor_refresh writer clock s)")
  case (Inl e)
  then have "fst (snd (monitor_refresh writer clock s)) = fst s"
    using assms(1) by (auto simp: monitor_refresh_def gate_evaluate_eq halted_by_def Let_def split: prod.splits sum.splits)
  then show ?thesis using assms(1) by simp
next
  case (Inr r)
  then show ?thesis
    using refresh_halted [of reason s writer clock r "snd (monitor_refresh writer clock s)"] assms
    by (simp add: halted_by_def prod_eq_iff)
qed

lemma replace_keeps:
  assumes "halted_by reason (fst s)" and "strip reason = reason"
    and "\<And>i. inputs = Inr i \<Longrightarrow> reason \<in> set (in_halts i)"
  shows "halted_by reason (fst (snd (monitor_replace inputs writer clock s)))"
proof (cases inputs)
  case (Inr i)
  have "halted_by reason (fst ((fst s)\<lparr>mo_inputs := i\<rparr>, snd s))"
    using assms(1,3) Inr by (simp add: halted_by_def)
  from refresh_keeps [OF this assms(2)] show ?thesis by (simp add: monitor_replace_def Inr)
qed (use assms(1) in \<open>simp add: monitor_replace_def\<close>)

lemma in_halts_again [simp]: "in_halts (inputs_again i) = in_halts i"
  by (simp add: inputs_again_def)

lemma op_keeps:
  assumes "halted_by reason (fst s)" and "strip reason = reason" and "keeps_reason reason op"
  shows "halted_by reason (fst (snd (monitor_do op writer clock s)))"
proof -
  have r: "reason \<in> set (in_halts (mo_inputs (fst s)))" using assms(1) by (simp add: halted_by_def)
  have kept: "reason \<in> set (in_halts i)" if "mk_inputs v = Inr i" "reason \<in> set (in_halts v)" for v i
    using mk_inputs_halts [OF that(1)] that(2) assms(2) by force
  show ?thesis
    using assms(1,3) r
    by (cases op) (auto simp: keeps_reason_def monitor_update_def set_halt_reason_def clear_halt_reason_def with_halts_def
        split: option.splits intro!: replace_keeps refresh_keeps assms(2) elim!: kept)
qed

text \<open>A halt reason stops everything until it is cleared: once \<open>set_halt_reason\<close> has returned, no new
  risk and no controlled reduction is allowed on any leg, through any sequence of refreshes, updates of the
  inputs, further halt reasons and clearances of other ones, whatever the clock and the writer's status
  answer and whichever of those operations raise.
\<close>

theorem halt_reason_closes_gate:
  assumes "set_halt_reason reason writer clock s = (Inr r, t)" and "0 \<le> rt_evaluated_at_ms (mo_report (fst s))"
    and "\<forall>op \<in> fst ` set ops. keeps_reason (strip reason) op"
  shows "\<not> allows_new_risk (mo_report (fst (monitor_run ops t))) key \<and>
    \<not> allows_controlled_reduce (mo_report (fst (monitor_run ops t))) key"
proof -
  have "halted_by (strip reason) (fst t)"
  proof -
    from assms(1) obtain i where i: "with_halts (dict_fromkeys (in_halts (mo_inputs (fst s)) @ [strip reason]))
        (mo_inputs (fst s)) = Inr i"
      and t: "monitor_refresh writer clock ((fst s)\<lparr>mo_inputs := i\<rparr>, snd s) = (Inr r, t)"
      by (auto simp: set_halt_reason_def monitor_replace_def split: if_splits sum.splits)
    have "strip reason \<in> set (in_halts i)"
      using mk_inputs_halts [OF i [unfolded with_halts_def]] by simp
    then show ?thesis using assms(2) by (intro refresh_halted [OF _ _ _ t]) simp_all
  qed
  then have "halted_by (strip reason) (fst (monitor_run ops t))"
    using assms(3)
  proof (induction ops arbitrary: t)
    case (Cons a ops)
    obtain op w c where a: "a = (op, w, c)" by (metis prod_cases3)
    show ?case using Cons.prems Cons.IH [OF op_keeps [of "strip reason" t op w c]] by (simp add: a)
  qed simp
  then show ?thesis by (simp add: halted_by_def)
qed

section \<open>Concrete inputs\<close>

definition demo_inputs :: "'d \<Rightarrow> unknown_order_risk list \<Rightarrow> 'd ready_inputs" where
  "demo_inputs leverage orders = \<lparr>in_migration_succeeded = True, in_lease_valid = True,
     in_position_mode = ''hedge'', in_margin_mode = ''cross'', in_leverage = leverage,
     in_observed_leverages = [leverage], in_unmanaged_positions = 0, in_unmanaged_orders = 0,
     in_rest_valid = True, in_stream_fresh = True, in_unknown_count = int (length orders),
     in_converged = True, in_risk_data_valid = True, in_halts = [], in_checksum_valid = True,
     in_rest_observed = Some 900, in_rest_max_age = Some 500, in_stream_observed = None,
     in_stream_max_age = None, in_stream_gap = False, in_risk_observed = None, in_risk_max_age = None,
     in_unknown_orders = orders\<rparr>"

definition demo_risk_key :: "position_side \<Rightarrow> risk_key" where
  "demo_risk_key sd = \<lparr>rk_exchange = ''binance'', rk_account_id = ''main'', rk_symbol = ''ETH/USDT:USDT'', rk_side = sd\<rparr>"

definition demo_unknown :: unknown_order_risk where
  "demo_unknown = \<lparr>uo_key = demo_risk_key LONG, uo_client_order_id = ''c1'', uo_observed_at_ms = 5, uo_venue_order_id = None\<rparr>"

lemma ready_modes: "ready_mode f ''hedge'' = Inr ''hedge''" "ready_mode f ''cross'' = Inr ''cross''"
  by code_simp+

lemma demo_inputs_ok: "1 \<le> l \<Longrightarrow> mk_inputs (demo_inputs (DFin l) orders) = Inr (demo_inputs l orders)"
  by (simp add: mk_inputs_def demo_inputs_def ready_modes bad_time_def bad_age_def code_texts_def dict_fromkeys_def)

theorem new_risk_exactly_when_witness:
  "\<exists>r. gate_evaluate (demo_inputs 3 [demo_unknown]) (Inr 1000) (clock_report 0) = (Inr r, r)
     \<and> allows_new_risk r (Some (demo_risk_key SHORT))"
  using new_risk_exactly_when [OF demo_inputs_ok [of 3 "[demo_unknown]"], of "clock_report 0" "Inr 1000" "demo_risk_key SHORT"]
  by (simp add: demo_inputs_def demo_unknown_def demo_risk_key_def gate_now_def leverage_matches_def is_fresh_def)

theorem controlled_reduce_exactly_when_witness:
  "\<exists>r. gate_evaluate ((demo_inputs 3 [demo_unknown])\<lparr>in_converged := False\<rparr>) (Inr 1000) (clock_report 0) = (Inr r, r)
     \<and> \<not> allows_controlled_reduce r (Some (demo_risk_key LONG))"
  using controlled_reduce_exactly_when [of "clock_report 0" "(demo_inputs 3 [demo_unknown])\<lparr>in_converged := False\<rparr>" "Inr 1000" "demo_risk_key LONG"]
  by (simp add: demo_inputs_def demo_unknown_def)

definition demo_monitor :: monitor where
  "demo_monitor = \<lparr>mo_inputs = demo_inputs 3 [], mo_report = clock_report 0\<rparr>"

lemma demo_halts: "\<exists>t r. set_halt_reason ''OPERATOR'' None (Inr 1000) (demo_monitor, ()) = (Inr r, t)"
proof -
  have "with_halts [''OPERATOR''] (demo_inputs 3 []) = Inr ((demo_inputs 3 [])\<lparr>in_halts := [''OPERATOR'']\<rparr>)"
    using ready_modes by (simp add: with_halts_def inputs_again_def mk_inputs_def demo_inputs_def bad_time_def bad_age_def) code_simp
  moreover have "dict_fromkeys [''OPERATOR''] = [''OPERATOR'']" "strip ''OPERATOR'' = ''OPERATOR''" by code_simp+
  ultimately show ?thesis
    by (simp add: set_halt_reason_def demo_monitor_def monitor_replace_def monitor_refresh_def writer_inputs_def
        gate_evaluate_eq Let_def demo_inputs_def)
qed

theorem halt_reason_closes_gate_witness:
  "\<exists>t r. set_halt_reason ''OPERATOR'' None (Inr 1000) (demo_monitor, ()) = (Inr r, t) \<and>
     \<not> allows_new_risk (mo_report (fst (monitor_run [(M_Refresh, None, Inr 2000)] t))) None"
proof -
  obtain t r where t: "set_halt_reason ''OPERATOR'' None (Inr 1000) (demo_monitor, ()) = (Inr r, t)"
    using demo_halts by blast
  from halt_reason_closes_gate [OF t, of "[(M_Refresh, None, Inr 2000)]" None]
  have "\<not> allows_new_risk (mo_report (fst (monitor_run [(M_Refresh, None, Inr 2000)] t))) None"
    by (simp add: demo_monitor_def keeps_reason_def)
  then show ?thesis using t by blast
qed

end
