(* ===== verification/Risk_Actions.thy ===== *)
theory Risk_Actions
  imports Readiness_Gate
begin

text \<open>
  The risk action state machine of \<open>freqtrade/hedge/risk/actions.py\<close> (NORMAL, REDUCE_ONLY, HALT) and
  how the runtime (\<open>risk/runtime.py\<close>, \<open>_sync_state\<close>) drives it from the readiness report. The
  machine's lock makes every transition one step. The properties: HALT is left only by an operator's
  acknowledgement, and after a synchronisation a restrictive report and the mode agree.
\<close>

section \<open>States and events\<close>

datatype risk_mode = MODE_NORMAL | MODE_REDUCE_ONLY | MODE_HALT

datatype risk_event = ENTER_REDUCE_ONLY | ENTER_HALT | RECOVERED | OPERATOR_ACK

definition event_of :: "risk_event + string \<Rightarrow> risk_event res" where
  "event_of v = (case v of
     Inl e \<Rightarrow> Inr e
   | Inr t \<Rightarrow> if upper t = ''ENTER_REDUCE_ONLY'' then Inr ENTER_REDUCE_ONLY
       else if upper t = ''ENTER_HALT'' then Inr ENTER_HALT
       else if upper t = ''RECOVERED'' then Inr RECOVERED
       else if upper t = ''OPERATOR_ACK'' then Inr OPERATOR_ACK
       else Inl (Exn ValueError (upper t @ '' is not a valid RiskEvent'')))"

record risk_state =
  rs_mode :: risk_mode
  rs_reasons :: "string list"
  rs_version :: int

definition mk_risk_state :: "risk_mode \<Rightarrow> string list \<Rightarrow> int \<Rightarrow> risk_state res" where
  "mk_risk_state mode reasons version =
     (if version < 0 then value_error ''Risk action state version must be a nonnegative integer.'' else
      res_bind (code_texts (Exn ValueError ''Risk action reason_codes must contain non-empty strings only.'') reasons)
        (\<lambda>codes. Inr \<lparr>rs_mode = mode, rs_reasons = codes, rs_version = version\<rparr>))"

definition allows :: "risk_state \<Rightarrow> intent_action \<Rightarrow> bool \<Rightarrow> bool" where
  "allows s action emergency = (if rs_mode s = MODE_NORMAL then True
     else if action \<in> {REDUCE, CLOSE} then rs_mode s = MODE_REDUCE_ONLY \<or> emergency
     else False)"

definition new_machine :: risk_state where
  "new_machine = \<lparr>rs_mode = MODE_NORMAL, rs_reasons = [], rs_version = 0\<rparr>"

fun next_mode :: "risk_event \<Rightarrow> risk_mode \<Rightarrow> risk_mode" where
  "next_mode ENTER_HALT m = MODE_HALT"
| "next_mode ENTER_REDUCE_ONLY m = (if m = MODE_HALT then MODE_HALT else MODE_REDUCE_ONLY)"
| "next_mode OPERATOR_ACK m = (if m = MODE_HALT then MODE_REDUCE_ONLY else m)"
| "next_mode RECOVERED m = (if m = MODE_REDUCE_ONLY then MODE_NORMAL else m)"

definition transitioned :: "risk_event + string \<Rightarrow> string list \<Rightarrow> risk_state \<Rightarrow> risk_state res" where
  "transitioned event codes s = res_bind (event_of event) (\<lambda>e.
     let texts = filter (\<lambda>x. x \<noteq> []) (map strip codes) in
     if length texts \<noteq> length codes
     then value_error ''reason_codes must contain non-empty strings only.'' else
     if e \<in> {ENTER_HALT, ENTER_REDUCE_ONLY} \<and> texts = []
     then value_error ''Entering a restrictive risk mode requires at least one reason code.'' else
     let mode = next_mode e (rs_mode s);
         reasons = (if texts \<noteq> [] then dict_fromkeys texts
           else if mode = MODE_NORMAL then [] else rs_reasons s)
     in mk_risk_state mode reasons (rs_version s + 1))"

definition risk_transition :: "risk_event + string \<Rightarrow> string list \<Rightarrow> (risk_state, risk_state) py" where
  "risk_transition event codes s = (case transitioned event codes s of
     Inl e \<Rightarrow> (Inl e, s) | Inr t \<Rightarrow> (Inr t, t))"

section \<open>Synchronisation with readiness\<close>

definition only_unknown :: "ready_report \<Rightarrow> bool" where
  \<comment> \<open>\<open>only_position_unknown\<close>\<close>
  "only_unknown r \<longleftrightarrow> rt_reasons r \<noteq> [] \<and> list_all (\<lambda>c. c = UNKNOWN_ORDER_PRESENT) (rt_reasons r)"

definition sync_state :: "bool \<Rightarrow> ready_report \<Rightarrow> (risk_state, risk_state) py" where
  "sync_state synchronize report s = (if \<not> synchronize then (Inr s, s) else
     let reasons = map reason_value (rt_reasons report) in
     if rt_state report = R_HALT then
       if rs_mode s \<noteq> MODE_HALT \<or> rs_reasons s \<noteq> reasons
       then risk_transition (Inl ENTER_HALT) (if reasons = [] then [''READINESS_HALT''] else reasons) s
       else (Inr s, s)
     else if only_unknown report then
       if rs_mode s = MODE_REDUCE_ONLY then risk_transition (Inl RECOVERED) [] s else (Inr s, s)
     else if \<not> report_ready report then
       let desired = (if reasons = [] then [''READINESS_NOT_READY''] else reasons) in
       if rs_mode s = MODE_NORMAL \<or> (rs_mode s = MODE_REDUCE_ONLY \<and> rs_reasons s \<noteq> desired)
       then risk_transition (Inl ENTER_REDUCE_ONLY) desired s
       else (Inr s, s)
     else if rs_mode s = MODE_REDUCE_ONLY then risk_transition (Inl RECOVERED) [] s
     else (Inr s, s))"

datatype risk_op =
    Transition "risk_event + string" "string list"
  | Sync bool ready_report

fun risk_do :: "risk_op \<Rightarrow> risk_state \<Rightarrow> risk_state" where
  "risk_do (Transition event codes) s = snd (risk_transition event codes s)"
| "risk_do (Sync synchronize report) s = snd (sync_state synchronize report s)"

definition acknowledges :: "risk_op \<Rightarrow> bool" where
  "acknowledges op \<longleftrightarrow> (case op of Transition event codes \<Rightarrow> event_of event = Inr OPERATOR_ACK | _ \<Rightarrow> False)"

definition recovers :: "risk_op \<Rightarrow> bool" where
  \<comment> \<open>a recovery event, or a synchronisation with a report that is ready or lacks only order knowledge\<close>
  "recovers op \<longleftrightarrow> (case op of
     Transition event codes \<Rightarrow> event_of event = Inr RECOVERED
   | Sync synchronize report \<Rightarrow> report_ready report \<or> only_unknown report)"

section \<open>The modes of a step\<close>

lemma mk_risk_state_mode: "mk_risk_state m codes v = Inr t \<Longrightarrow> rs_mode t = m"
  by (auto simp: mk_risk_state_def res_splits split: if_splits)

lemma transitioned_Inr:
  assumes "transitioned event codes s = Inr t"
  shows "\<exists>ev. event_of event = Inr ev \<and> rs_mode t = next_mode ev (rs_mode s)"
proof -
  obtain ev where ev: "event_of event = Inr ev" using assms by (auto simp: transitioned_def res_splits)
  then have "\<exists>reasons. mk_risk_state (next_mode ev (rs_mode s)) reasons (rs_version s + 1) = Inr t"
    using assms by (auto simp: transitioned_def Let_def split: if_splits)
  then show ?thesis using ev mk_risk_state_mode by blast
qed

lemma transition_cases:
  obtains (Raise) e where "risk_transition event codes s = (Inl e, s)"
    | (Step) ev t where "event_of event = Inr ev" "risk_transition event codes s = (Inr t, t)"
      "rs_mode t = next_mode ev (rs_mode s)"
  using transitioned_Inr [of event codes s] by (cases "transitioned event codes s") (auto simp: risk_transition_def)

lemma transition_mode:
  "rs_mode (snd (risk_transition event codes s)) = rs_mode s \<or>
     (\<exists>ev. event_of event = Inr ev \<and> rs_mode (snd (risk_transition event codes s)) = next_mode ev (rs_mode s))"
  by (cases rule: transition_cases [of event codes s]) auto

lemma transition_Inl_mode:
  "rs_mode (snd (risk_transition (Inl ev) codes s)) \<in> {rs_mode s, next_mode ev (rs_mode s)}"
  using transition_mode [of "Inl ev" codes s] by (auto simp: event_of_def)

lemma sync_mode:
  "rs_mode (snd (sync_state b report s)) \<in> {rs_mode s, MODE_HALT} \<or>
   rs_mode s = MODE_NORMAL \<and> rs_mode (snd (sync_state b report s)) = MODE_REDUCE_ONLY \<or>
   rs_mode s = MODE_REDUCE_ONLY \<and> rs_mode (snd (sync_state b report s)) = MODE_NORMAL
     \<and> (report_ready report \<or> only_unknown report)"
  using transition_Inl_mode [of ENTER_HALT _ s] transition_Inl_mode [of RECOVERED _ s]
    transition_Inl_mode [of ENTER_REDUCE_ONLY _ s]
  by (cases "rs_mode s") (auto simp: sync_state_def Let_def)

lemma halt_step:
  assumes "rs_mode s = MODE_HALT" and "rs_mode (risk_do op s) \<noteq> MODE_HALT"
  shows "acknowledges op \<and> rs_mode (risk_do op s) = MODE_REDUCE_ONLY"
proof (cases op)
  case (Transition event codes)
  obtain ev where ev: "event_of event = Inr ev" "rs_mode (risk_do op s) = next_mode ev MODE_HALT"
    using transition_mode [of event codes s] assms Transition by auto
  then show ?thesis using assms(2) Transition by (cases ev) (auto simp: acknowledges_def)
next
  case (Sync b report)
  then show ?thesis using sync_mode [of b report s] assms by auto
qed

lemma normal_step:
  assumes "rs_mode s \<noteq> MODE_NORMAL" and "rs_mode (risk_do op s) = MODE_NORMAL"
  shows "recovers op"
proof (cases op)
  case (Transition event codes)
  obtain ev where ev: "event_of event = Inr ev" "rs_mode (risk_do op s) = next_mode ev (rs_mode s)"
    using transition_mode [of event codes s] assms Transition by auto
  then show ?thesis using assms Transition by (cases ev; cases "rs_mode s") (auto simp: recovers_def)
next
  case (Sync b report)
  then show ?thesis using sync_mode [of b report s] assms by (auto simp: recovers_def)
qed

lemma reaches_normal:
  "rs_mode s \<noteq> MODE_NORMAL \<Longrightarrow> rs_mode (fold risk_do ops s) = MODE_NORMAL \<Longrightarrow>
    \<exists>xs op ys. ops = xs @ op # ys \<and> recovers op"
proof (induction ops arbitrary: s)
  case (Cons a ops)
  show ?case
  proof (cases "rs_mode (risk_do a s) = MODE_NORMAL")
    case True
    then show ?thesis using normal_step [OF Cons.prems(1)] by (metis append_Nil)
  next
    case False
    then obtain xs op ys where "ops = xs @ op # ys" "recovers op" using Cons.IH [of "risk_do a s"] Cons.prems(2) by auto
    then have "a # ops = (a # xs) @ op # ys \<and> recovers op" by simp
    then show ?thesis by blast
  qed
qed simp

lemma leaves_halt:
  "rs_mode s = MODE_HALT \<Longrightarrow> rs_mode (fold risk_do ops s) \<noteq> MODE_HALT \<Longrightarrow>
    \<exists>xs op ys. ops = xs @ op # ys \<and> acknowledges op \<and> rs_mode (fold risk_do (xs @ [op]) s) = MODE_REDUCE_ONLY"
proof (induction ops arbitrary: s)
  case (Cons a ops)
  show ?case
  proof (cases "rs_mode (risk_do a s) = MODE_HALT")
    case True
    then obtain xs op ys where "ops = xs @ op # ys" "acknowledges op"
        "rs_mode (fold risk_do (xs @ [op]) (risk_do a s)) = MODE_REDUCE_ONLY"
      using Cons.IH [of "risk_do a s"] Cons.prems(2) by auto
    then have "a # ops = (a # xs) @ op # ys \<and> acknowledges op
        \<and> rs_mode (fold risk_do ((a # xs) @ [op]) s) = MODE_REDUCE_ONLY" by simp
    then show ?thesis by blast
  next
    case False
    then have "a # ops = [] @ a # ops \<and> acknowledges a \<and> rs_mode (fold risk_do ([] @ [a]) s) = MODE_REDUCE_ONLY"
      using halt_step [OF Cons.prems(1)] by simp
    then show ?thesis by blast
  qed
qed simp

text \<open>C21: HALT is left only by an operator: whatever transitions are requested and whatever reports the runtime
  synchronises with, the mode stays HALT until an operator's acknowledgement, which leads to REDUCE_ONLY;
  trading at NORMAL again takes, after that acknowledgement, a recovery event or a report that is ready or
  lacks nothing but the outcome of orders confined to their legs.
\<close>

theorem halt_needs_operator:
  assumes "rs_mode s = MODE_HALT"
  shows "(rs_mode (fold risk_do ops s) \<noteq> MODE_HALT \<longrightarrow> (\<exists>op \<in> set ops. acknowledges op)) \<and>
    (rs_mode (fold risk_do ops s) = MODE_NORMAL \<longrightarrow>
      (\<exists>xs ack ys rec zs. ops = xs @ ack # ys @ rec # zs \<and> acknowledges ack \<and> recovers rec))"
proof (intro conjI impI)
  assume "rs_mode (fold risk_do ops s) \<noteq> MODE_HALT"
  from leaves_halt [OF assms this] show "\<exists>op \<in> set ops. acknowledges op" by auto
next
  assume n: "rs_mode (fold risk_do ops s) = MODE_NORMAL"
  then obtain xs op ys where x: "ops = xs @ op # ys" "acknowledges op"
      "rs_mode (fold risk_do (xs @ [op]) s) = MODE_REDUCE_ONLY"
    using leaves_halt [OF assms, of ops] by auto
  then obtain us r zs where "ys = us @ r # zs" "recovers r"
    using reaches_normal [of "fold risk_do (xs @ [op]) s" ys] n by auto
  then show "\<exists>xs ack ys rec zs. ops = xs @ ack # ys @ rec # zs \<and> acknowledges ack \<and> recovers rec"
    using x(1,2) by blast
qed

theorem halt_needs_operator_witness:
  "rs_mode (fold risk_do [Sync True (evaluated (demo_inputs 3 []) 1000)]
     \<lparr>rs_mode = MODE_HALT, rs_reasons = [''OPERATOR''], rs_version = 4\<rparr>) = MODE_HALT"
proof -
  let ?s = "\<lparr>rs_mode = MODE_HALT, rs_reasons = [''OPERATOR''], rs_version = 4\<rparr>"
  have "rs_mode ?s = MODE_HALT" by simp
  from halt_needs_operator [OF this, of "[Sync True (evaluated (demo_inputs 3 []) 1000)]"]
  show ?thesis by (auto simp: acknowledges_def)
qed

section \<open>Synchronised modes\<close>

lemma reason_value_text: "strip (reason_value c) = reason_value c" "reason_value c \<noteq> []"
  by (cases c; simp only: reason_value.simps; code_simp)+

lemma reason_texts: "filter (\<lambda>x. x \<noteq> []) (map strip (map reason_value cs)) = map reason_value cs"
  by (induction cs) (simp_all add: reason_value_text)

lemma code_texts_id:
  assumes "\<And>x. x \<in> set xs \<Longrightarrow> strip x = x \<and> x \<noteq> []"
  shows "code_texts e xs = Inr (dict_fromkeys xs)"
proof -
  have "map strip xs = xs" using assms by (simp add: map_idI)
  moreover have "filter (\<lambda>x. x \<noteq> []) xs = xs" using assms by (simp add: filter_id_conv)
  ultimately show ?thesis by (simp add: code_texts_def)
qed

definition reportable :: "string list \<Rightarrow> bool" where
  "reportable codes \<longleftrightarrow> codes \<noteq> [] \<and> (\<forall>x \<in> set codes. strip x = x \<and> x \<noteq> [])"

lemma restrictive_transition:
  assumes "ev \<in> {ENTER_HALT, ENTER_REDUCE_ONLY}" and "reportable codes" and "0 \<le> rs_version s"
  shows "\<exists>t. risk_transition (Inl ev) codes s = (Inr t, t) \<and> rs_mode t = next_mode ev (rs_mode s) \<and> 0 \<le> rs_version t"
proof -
  have texts: "filter (\<lambda>x. x \<noteq> []) (map strip codes) = codes"
    using assms(2) by (simp add: reportable_def map_idI filter_id_conv)
  obtain ys where "code_texts e (dict_fromkeys codes) = Inr ys" for e
    using code_texts_id [of "dict_fromkeys codes"] assms(2) by (simp add: reportable_def)
  then show ?thesis
    using assms unfolding risk_transition_def transitioned_def Let_def texts
    by (auto simp: event_of_def mk_risk_state_def reportable_def)
qed

lemma recovery_transition:
  assumes "rs_mode s = MODE_REDUCE_ONLY" and "0 \<le> rs_version s"
  shows "\<exists>t. risk_transition (Inl RECOVERED) [] s = (Inr t, t) \<and> rs_mode t = MODE_NORMAL \<and> 0 \<le> rs_version t"
  using assms by (simp add: risk_transition_def transitioned_def event_of_def mk_risk_state_def code_texts_def)

lemma reportable_values:
  "reportable (if map reason_value cs = [] then [''READINESS_HALT''] else map reason_value cs)"
  "reportable (if map reason_value cs = [] then [''READINESS_NOT_READY''] else map reason_value cs)"
  unfolding reportable_def by (simp_all add: reason_value_text) code_simp+

text \<open>After every refresh the mode agrees with readiness: the synchronisation never raises; a halting report
  leaves the mode HALT; NORMAL remains only when the report is ready or lacks nothing but orders confined to
  their legs; and such a report brings the mode back to NORMAL unless it is HALT.
\<close>

theorem sync_agrees:
  assumes "0 \<le> rs_version s"
  shows "\<exists>t. sync_state True report s = (Inr t, t) \<and> 0 \<le> rs_version t \<and>
    (rt_state report = R_HALT \<longrightarrow> rs_mode t = MODE_HALT) \<and>
    (rs_mode t = MODE_NORMAL \<longrightarrow> report_ready report \<or> only_unknown report) \<and>
    (rt_state report \<noteq> R_HALT \<and> (report_ready report \<or> only_unknown report) \<and> rs_mode s \<noteq> MODE_HALT \<longrightarrow>
      rs_mode t = MODE_NORMAL)"
proof -
  note r = restrictive_transition [OF _ _ assms] recovery_transition [OF _ assms] reportable_values [of "rt_reasons report"]
  show ?thesis
  proof (cases "rt_state report = R_HALT")
    case True
    then show ?thesis
      using r(1) [of ENTER_HALT, OF _ r(3)] assms by (auto simp: sync_state_def Let_def report_ready_def)
  next
    case h: False
    show ?thesis
    proof (cases "only_unknown report \<or> report_ready report")
      case True
      then show ?thesis using r(2) assms h by (cases "rs_mode s") (auto simp: sync_state_def Let_def)
    next
      case False
      then show ?thesis
        using r(1) [of ENTER_REDUCE_ONLY, OF _ r(4)] assms h
        by (cases "rs_mode s") (auto simp: sync_state_def Let_def)
    qed
  qed
qed

theorem sync_agrees_witness:
  "rs_mode (snd (sync_state True (evaluated (demo_inputs 3 [demo_unknown]) 1000)
     \<lparr>rs_mode = MODE_REDUCE_ONLY, rs_reasons = [''OPERATOR''], rs_version = 4\<rparr>)) = MODE_NORMAL"
proof -
  let ?s = "\<lparr>rs_mode = MODE_REDUCE_ONLY, rs_reasons = [''OPERATOR''], rs_version = 4\<rparr>"
  let ?r = "evaluated (demo_inputs 3 [demo_unknown]) 1000"
  have "failed_reasons (run_readiness_checks (demo_inputs (3 :: rat) [demo_unknown]) (Some 1000)) = [UNKNOWN_ORDER_PRESENT]"
    by (simp add: run_readiness_checks_def failed_check failed_none demo_inputs_def leverage_matches_def is_fresh_def)
  then have "only_unknown ?r" "rt_state ?r \<noteq> R_HALT"
    by (simp_all add: evaluated_def only_unknown_def policy_def)
  moreover have "0 \<le> rs_version ?s" "rs_mode ?s \<noteq> MODE_HALT" by simp_all
  ultimately show ?thesis using sync_agrees [of ?s ?r] by auto
qed

end
