(* ===== verification/Risk_Commit.thy ===== *)
theory Risk_Commit
  imports Risk_Models
begin

text \<open>
  The durable handoff of approved risk, \<open>freqtrade/hedge/risk/commit.py\<close>: the evidence record, the
  in-memory store and the SQL store. The SQL table is the list of its rows; a transaction's queries see
  the rows committed before it (what it added itself has other decision ids and keys), and leaving the
  \<open>with\<close> block without an exception flushes and commits, also by \<open>return\<close>. How the flush ends
  is an argument: committed, an integrity error after another writer's rows, or another exception. The
  two JSON texts of a record are taken to be canonical.
\<close>

section \<open>Evidence\<close>

record commit_record =
  cr_decision_id :: string
  cr_intent_id :: string
  cr_idempotency_key :: string
  cr_correlation_id :: string
  cr_snapshot_id :: string
  cr_request_json :: string
  cr_snapshot_json :: string
  cr_rules_version :: string
  cr_fencing_token :: int
  cr_quantity :: rat
  cr_notional :: rat
  cr_evaluated_at_ms :: int
  cr_committed_at_ms :: int
  cr_reference :: string
  cr_target_version :: "int option"
  cr_intent_expires :: "int option"

definition mk_commit_record :: "commit_record \<Rightarrow> commit_record res" where
  "mk_commit_record c =
     res_bind (nonempty ''decision_id'' (cr_decision_id c)) (\<lambda>d.
     res_bind (nonempty ''intent_id'' (cr_intent_id c)) (\<lambda>i.
     res_bind (nonempty ''idempotency_key'' (cr_idempotency_key c)) (\<lambda>k.
     res_bind (nonempty ''correlation_id'' (cr_correlation_id c)) (\<lambda>x.
     res_bind (nonempty ''risk_snapshot_id'' (cr_snapshot_id c)) (\<lambda>s.
     res_bind (nonempty ''rules_version'' (cr_rules_version c)) (\<lambda>v.
     res_bind (nonempty ''durable_reference'' (cr_reference c)) (\<lambda>r.
     if cr_fencing_token c \<le> 0 then config_error ''fencing_token must be a positive integer.'' else
     if cr_quantity c \<le> 0 \<or> cr_notional c \<le> 0 then config_error ''Committed approval values must be positive.'' else
     if cr_evaluated_at_ms c < 0 then config_error ''evaluated_at_ms must be nonnegative integer milliseconds.'' else
     if cr_committed_at_ms c < 0 then config_error ''committed_at_ms must be nonnegative integer milliseconds.'' else
     if bad_time (cr_target_version c) then config_error ''target_snapshot_version must be a nonnegative integer or None.'' else
     if bad_time (cr_intent_expires c) then config_error ''intent_expires_at_ms must be a nonnegative integer or None.'' else
     Inr (c\<lparr>cr_decision_id := d, cr_intent_id := i, cr_idempotency_key := k, cr_correlation_id := x,
       cr_snapshot_id := s, cr_rules_version := v, cr_reference := r\<rparr>))))))))"

section \<open>The in-memory store\<close>

type_synonym commit_map = "(string, commit_record) dict"

definition mem_commit :: "commit_record \<Rightarrow> (commit_map, bool) py" where
  "mem_commit r d = (case dict_get d (cr_decision_id r) of
     None \<Rightarrow> (Inr True, dict_put (cr_decision_id r) r d)
   | Some current \<Rightarrow> (Inr (current = r), d))"

definition batch_guard :: "commit_record list \<Rightarrow> unit res" where
  "batch_guard rs = (if rs = [] then Inl (Exn ValueError ''records must not be empty.'')
     else if \<not> distinct (map cr_decision_id rs)
     then Inl (Exn ValueError ''Batch decision_id values must be unique.'') else Inr ())"

definition mem_conflict :: "commit_map \<Rightarrow> commit_record \<Rightarrow> bool" where
  "mem_conflict d r \<longleftrightarrow> (case dict_get d (cr_decision_id r) of None \<Rightarrow> False | Some current \<Rightarrow> current \<noteq> r)"

definition set_default :: "commit_record \<Rightarrow> commit_map \<Rightarrow> commit_map" where
  "set_default r d = (if dict_get d (cr_decision_id r) = None then dict_put (cr_decision_id r) r d else d)"

definition mem_commit_batch :: "commit_record list \<Rightarrow> (commit_map, bool) py" where
  "mem_commit_batch rs d = (case batch_guard rs of
     Inl e \<Rightarrow> (Inl e, d)
   | Inr _ \<Rightarrow> if list_ex (mem_conflict d) rs then (Inr False, d) else (Inr True, fold set_default rs d))"

definition mem_read_commit :: "string \<Rightarrow> (commit_map, commit_record option) py" where
  "mem_read_commit decision_id d = (case nonempty ''decision_id'' decision_id of
     Inl e \<Rightarrow> (Inl e, d) | Inr i \<Rightarrow> (Inr (dict_get d i), d))"

section \<open>The SQL store\<close>

datatype flush_end =
    Committed
  | Integrity "commit_record list"  \<comment> \<open>the rows that the reads after the error see\<close>
  | Flush_Raised exn

definition row_of :: "string \<Rightarrow> commit_record list \<Rightarrow> commit_record option" where
  "row_of decision_id rows = find (\<lambda>x. cr_decision_id x = decision_id) rows"

fun sql_scan :: "commit_record list \<Rightarrow> commit_record list \<Rightarrow> commit_record list \<Rightarrow> bool \<times> commit_record list" where
  \<comment> \<open>the loop of \<open>commit_approval_batch\<close>: what is returned and what the session holds then\<close>
  "sql_scan rows [] added = (True, added)"
| "sql_scan rows (r # rs) added = (case row_of (cr_decision_id r) rows of
     Some existing \<Rightarrow> if existing \<noteq> r then (False, added) else sql_scan rows rs added
   | None \<Rightarrow> (case find (\<lambda>x. cr_idempotency_key x = cr_idempotency_key r) rows of
       Some conflict \<Rightarrow> (conflict = r, added)
     | None \<Rightarrow> sql_scan rows rs (added @ [r])))"

definition sql_read_commit :: "string \<Rightarrow> (commit_record list, commit_record option) py" where
  "sql_read_commit decision_id rows = (case nonempty ''decision_id'' decision_id of
     Inl e \<Rightarrow> (Inl e, rows) | Inr i \<Rightarrow> (Inr (row_of i rows), rows))"

definition sql_guard :: "commit_record list \<Rightarrow> unit res" where
  "sql_guard rs = res_bind (batch_guard rs) (\<lambda>_. if \<not> distinct (map cr_idempotency_key rs)
     then Inl (Exn ValueError ''Batch idempotency_key values must be unique.'') else Inr ())"

definition sql_commit_batch :: "flush_end \<Rightarrow> commit_record list \<Rightarrow> (commit_record list, bool) py" where
  "sql_commit_batch flush rs rows = (case sql_guard rs of
     Inl e \<Rightarrow> (Inl e, rows)
   | Inr _ \<Rightarrow> (case sql_scan rows rs [] of (answer, added) \<Rightarrow> (case flush of
       Committed \<Rightarrow> (Inr answer, rows @ added)
     | Integrity now \<Rightarrow> (Inr (list_all (\<lambda>r. row_of (strip (cr_decision_id r)) now = Some r) rs), now)
     | Flush_Raised e \<Rightarrow> (Inl e, rows))))"

definition sql_commit :: "flush_end \<Rightarrow> commit_record \<Rightarrow> (commit_record list, bool) py" where
  "sql_commit flush r = sql_commit_batch flush [r]"

section \<open>What a commit store promises\<close>

definition identified :: "commit_record \<Rightarrow> bool" where
  \<comment> \<open>the decision id is one that the constructor leaves\<close>
  "identified r \<longleftrightarrow> strip (cr_decision_id r) = cr_decision_id r \<and> cr_decision_id r \<noteq> []"

lemma mk_commit_identified: "mk_commit_record c = Inr r \<Longrightarrow> identified r"
  by (auto simp: mk_commit_record_def res_splits if_config_Inr nonempty_def identified_def split: if_splits)

lemma nonempty_id: "strip v = v \<Longrightarrow> v \<noteq> [] \<Longrightarrow> nonempty f v = Inr v"
  by (simp add: nonempty_def)

text \<open>
  The contract that a reservation relies on: an accepted batch can be read back, and what can be read
  once is read for ever. \<open>ok\<close> is the store's invariant.
\<close>

locale commit_store =
  fixes ok :: "'c \<Rightarrow> bool"
    and batch :: "commit_record list \<Rightarrow> ('c, bool) py"
    and rd :: "string \<Rightarrow> ('c, commit_record option) py"
  assumes batch_ok: "ok c \<Longrightarrow> batch rs c = (res, c') \<Longrightarrow> ok c'"
    and accepted: "ok c \<Longrightarrow> batch rs c = (Inr True, c') \<Longrightarrow> r \<in> set rs \<Longrightarrow> identified r \<Longrightarrow>
      rd (cr_decision_id r) c' = (Inr (Some r), c')"
    and lasting: "ok c \<Longrightarrow> rd i c = (Inr (Some r), c) \<Longrightarrow> batch rs c = (res, c') \<Longrightarrow>
      rd i c' = (Inr (Some r), c')"
    and read_only: "snd (rd i c) = c"

text \<open>A store that is atomic as well leaves everything as it was when it rejects.\<close>

locale atomic_store = commit_store +
  assumes rejected: "ok c \<Longrightarrow> batch rs c = (res, c') \<Longrightarrow> res \<noteq> Inr True \<Longrightarrow> c' = c"

context commit_store begin

fun batches :: "commit_record list list \<Rightarrow> 'c \<Rightarrow> 'c" where
  "batches [] c = c"
| "batches (rs # rss) c = batches rss (snd (batch rs c))"

lemma read_lasts:
  "ok c \<Longrightarrow> rd i c = (Inr (Some r), c) \<Longrightarrow> rd i (batches rss c) = (Inr (Some r), batches rss c)"
proof (induction rss arbitrary: c)
  case (Cons rs rss)
  obtain res c' where b: "batch rs c = (res, c')" by fastforce
  show ?case using Cons.IH [OF batch_ok [OF Cons.prems(1) b] lasting [OF Cons.prems b]] b by simp
qed simp

lemma accepted_lasts:
  assumes "ok c" and "batch rs c = (Inr True, c')" and "r \<in> set rs" and "identified r"
  shows "rd (cr_decision_id r) (batches rss c') = (Inr (Some r), batches rss c')"
  by (rule read_lasts [OF batch_ok [OF assms(1,2)] accepted [OF assms]])

end

section \<open>The two stores\<close>

definition mem_ok :: "commit_map \<Rightarrow> bool" where
  \<comment> \<open>every record is under its own decision id\<close>
  "mem_ok d \<longleftrightarrow> (\<forall>i r. dict_get d i = Some r \<longrightarrow> cr_decision_id r = i)"

lemma set_default_get: "dict_get (set_default r d) i =
    (if dict_get d i = None \<and> i = cr_decision_id r then Some r else dict_get d i)"
  by (auto simp: set_default_def dict_get_put)

lemma set_defaults_get: "dict_get (fold set_default rs d) i =
    (if dict_get d i = None then find (\<lambda>r. cr_decision_id r = i) rs else dict_get d i)"
  by (induction rs arbitrary: d) (auto simp: set_default_get)

lemma find_distinct: "distinct (map f rs) \<Longrightarrow> r \<in> set rs \<Longrightarrow> find (\<lambda>x. f x = f r) rs = Some r"
  by (induction rs) auto

lemma batch_guard_Inr: "batch_guard rs = Inr u \<longleftrightarrow> rs \<noteq> [] \<and> distinct (map cr_decision_id rs)"
  by (auto simp: batch_guard_def)

lemma mem_read_commit_Some: "mem_read_commit i d = (Inr (Some r), d) \<longleftrightarrow>
    (\<exists>j. nonempty ''decision_id'' i = Inr j \<and> dict_get d j = Some r)"
  by (cases "nonempty ''decision_id'' i") (simp_all add: mem_read_commit_def)

lemma sql_read_commit_Some: "sql_read_commit i rows = (Inr (Some r), rows) \<longleftrightarrow>
    (\<exists>j. nonempty ''decision_id'' i = Inr j \<and> row_of j rows = Some r)"
  by (cases "nonempty ''decision_id'' i") (simp_all add: sql_read_commit_def)

lemma mem_batch_cases:
  assumes "mem_commit_batch rs d = (res, d')"
  obtains (Same) "d' = d" "res \<noteq> Inr True"
    | (Stored) "res = Inr True" "d' = fold set_default rs d" "distinct (map cr_decision_id rs)"
      "list_all (\<lambda>r. \<not> mem_conflict d r) rs"
  using assms by (auto simp: mem_commit_batch_def batch_guard_Inr list_ex_iff list_all_iff split: sum.splits if_splits)

interpretation ms: atomic_store mem_ok mem_commit_batch mem_read_commit
proof
  fix c :: commit_map and rs res c' r i
  assume ok: "mem_ok c"
  {
    assume b: "mem_commit_batch rs c = (res, c')"
    show "mem_ok c'"
      using mem_batch_cases [OF b] ok
      by cases (auto simp: mem_ok_def set_defaults_get find_Some_iff split: if_splits)
    show "c' = c" if "res \<noteq> Inr True" using mem_batch_cases [OF b] that by cases auto
    assume "mem_read_commit i c = (Inr (Some r), c)"
    then show "mem_read_commit i c' = (Inr (Some r), c')"
      unfolding mem_read_commit_Some by (cases rule: mem_batch_cases [OF b]) (auto simp: set_defaults_get)
  }
  assume "mem_commit_batch rs c = (Inr True, c')" and r: "r \<in> set rs" "identified r"
  from this(1) show "mem_read_commit (cr_decision_id r) c' = (Inr (Some r), c')"
  proof (cases rule: mem_batch_cases)
    case Stored
    have "dict_get c (cr_decision_id r) \<in> {None, Some r}"
      using Stored(4) r(1) by (cases "dict_get c (cr_decision_id r)") (auto simp: list_all_iff mem_conflict_def)
    then have "dict_get c' (cr_decision_id r) = Some r"
      using find_distinct [OF Stored(3) r(1)] by (auto simp: Stored(2) set_defaults_get)
    then show ?thesis using r(2) by (simp add: mem_read_commit_Some nonempty_id identified_def)
  qed simp
qed (simp add: mem_read_commit_def split: sum.split)


text \<open>The SQL store with a flush that commits: the same promise, over the table with its two unique columns.\<close>

definition rows_ok :: "commit_record list \<Rightarrow> bool" where
  "rows_ok rows \<longleftrightarrow> distinct (map cr_decision_id rows) \<and> distinct (map cr_idempotency_key rows)"

lemma distinct_added: "\<forall>r \<in> set new. P r \<and> f r \<notin> f ` set rows \<Longrightarrow> distinct (map f (rows @ new)) \<longleftrightarrow>
    distinct (map f rows) \<and> distinct (map f new)"
  by (auto simp: image_iff) (metis image_eqI)

lemma row_of_append: "row_of i (rows @ added) = (case row_of i rows of None \<Rightarrow> row_of i added | Some r \<Rightarrow> Some r)"
  by (induction rows) (simp_all add: row_of_def)

lemma row_of_None: "row_of i rows = None \<longleftrightarrow> i \<notin> cr_decision_id ` set rows"
  by (auto simp: row_of_def find_None_iff)

lemma row_of_set: "distinct (map cr_decision_id rows) \<Longrightarrow> r \<in> set rows \<Longrightarrow> row_of (cr_decision_id r) rows = Some r"
  by (simp add: row_of_def find_distinct)

lemma sql_scan_added:
  assumes "sql_scan rows rs added = (answer, added')"
  shows "\<exists>new. added' = added @ new \<and> set new \<subseteq> set rs
    \<and> (\<forall>r \<in> set new. cr_decision_id r \<notin> cr_decision_id ` set rows \<and> cr_idempotency_key r \<notin> cr_idempotency_key ` set rows)
    \<and> (distinct (map cr_decision_id rs) \<longrightarrow> distinct (map cr_decision_id new))
    \<and> (distinct (map cr_idempotency_key rs) \<longrightarrow> distinct (map cr_idempotency_key new))
    \<and> (answer \<longrightarrow> (\<forall>r \<in> set rs. row_of (cr_decision_id r) rows = Some r \<or> r \<in> set new))"
  using assms
proof (induction rs arbitrary: added)
  case (Cons r rs)
  show ?case
  proof (cases "row_of (cr_decision_id r) rows")
    case (Some e)
    show ?thesis
    proof (cases "e = r")
      case True
      then obtain new where "added' = added @ new" "set new \<subseteq> set rs"
          "\<forall>r \<in> set new. cr_decision_id r \<notin> cr_decision_id ` set rows \<and> cr_idempotency_key r \<notin> cr_idempotency_key ` set rows"
          "distinct (map cr_decision_id rs) \<longrightarrow> distinct (map cr_decision_id new)"
          "distinct (map cr_idempotency_key rs) \<longrightarrow> distinct (map cr_idempotency_key new)"
          "answer \<longrightarrow> (\<forall>r \<in> set rs. row_of (cr_decision_id r) rows = Some r \<or> r \<in> set new)"
        using Cons.IH [of added] Cons.prems Some by auto
      then show ?thesis using Some True by (intro exI [of _ new]) auto
    qed (use Cons.prems Some in simp)
  next
    case None
    show ?thesis
    proof (cases "find (\<lambda>x. cr_idempotency_key x = cr_idempotency_key r) rows")
      case (Some e)
      have "e \<noteq> r" using None Some by (auto simp: row_of_None find_Some_iff)
      then show ?thesis using Cons.prems None Some by simp
    next
      case k: None
      then obtain new where n: "added' = (added @ [r]) @ new" "set new \<subseteq> set rs"
          "\<forall>r \<in> set new. cr_decision_id r \<notin> cr_decision_id ` set rows \<and> cr_idempotency_key r \<notin> cr_idempotency_key ` set rows"
          "distinct (map cr_decision_id rs) \<longrightarrow> distinct (map cr_decision_id new)"
          "distinct (map cr_idempotency_key rs) \<longrightarrow> distinct (map cr_idempotency_key new)"
          "answer \<longrightarrow> (\<forall>r \<in> set rs. row_of (cr_decision_id r) rows = Some r \<or> r \<in> set new)"
        using Cons.IH [of "added @ [r]"] Cons.prems None by auto
      have "cr_idempotency_key r \<notin> cr_idempotency_key ` set rows" using k by (auto simp: find_None_iff)
      moreover have "cr_decision_id r \<notin> cr_decision_id ` set rows" using None by (simp add: row_of_None)
      ultimately show ?thesis using n by (intro exI [of _ "r # new"]) auto
    qed
  qed
qed auto

lemma sql_batch_cases:
  assumes "sql_commit_batch Committed rs rows = (res, rows')"
  obtains (Refused) e where "res = Inl e" "rows' = rows"
    | (Scanned) answer new where "res = Inr answer" "rows' = rows @ new" "set new \<subseteq> set rs"
      "\<forall>r \<in> set new. cr_decision_id r \<notin> cr_decision_id ` set rows \<and> cr_idempotency_key r \<notin> cr_idempotency_key ` set rows"
      "distinct (map cr_decision_id new)" "distinct (map cr_idempotency_key new)"
      "answer \<Longrightarrow> \<forall>r \<in> set rs. row_of (cr_decision_id r) rows = Some r \<or> r \<in> set new"
proof (cases "sql_guard rs")
  case (Inl e)
  then show ?thesis using assms Refused [of e] by (simp add: sql_commit_batch_def)
next
  case (Inr u)
  then have d: "distinct (map cr_decision_id rs)" "distinct (map cr_idempotency_key rs)"
    by (auto simp: sql_guard_def res_splits batch_guard_Inr split: if_splits)
  obtain answer added where s: "sql_scan rows rs [] = (answer, added)" by fastforce
  have r: "res = Inr answer" "rows' = rows @ added" using assms Inr s by (simp_all add: sql_commit_batch_def)
  show ?thesis by (rule Scanned [OF r]) (use sql_scan_added [OF s] d in auto)
qed

interpretation sq: commit_store rows_ok "sql_commit_batch Committed" sql_read_commit
proof
  fix c :: "commit_record list" and rs res c' r i
  assume ok: "rows_ok c"
  {
    assume b: "sql_commit_batch Committed rs c = (res, c')"
    show "rows_ok c'"
      by (cases rule: sql_batch_cases [OF b]) (use ok in \<open>auto simp: rows_ok_def distinct_added simp del: map_append\<close>)
    assume "sql_read_commit i c = (Inr (Some r), c)"
    then show "sql_read_commit i c' = (Inr (Some r), c')"
      unfolding sql_read_commit_Some by (cases rule: sql_batch_cases [OF b]) (auto simp: row_of_append)
  }
  assume b: "sql_commit_batch Committed rs c = (Inr True, c')" and r: "r \<in> set rs" "identified r"
  from b show "sql_read_commit (cr_decision_id r) c' = (Inr (Some r), c')"
  proof (cases rule: sql_batch_cases)
    case (Scanned answer new)
    then have "row_of (cr_decision_id r) c = Some r \<or> r \<in> set new \<and> row_of (cr_decision_id r) c = None"
      using r(1) by (auto simp: row_of_None)
    then have "row_of (cr_decision_id r) c' = Some r"
      using row_of_set [OF Scanned(5)] by (auto simp: Scanned(2) row_of_append)
    then show ?thesis using r(2) by (simp add: sql_read_commit_Some nonempty_id identified_def)
  qed simp
qed (simp add: sql_read_commit_def split: sum.split)

section \<open>Properties\<close>

lemma sql_batches: "sq.batches rss rows = fold (\<lambda>rs c. snd (sql_commit_batch Committed rs c)) rss rows"
  by (induction rss arbitrary: rows) simp_all

text \<open>C22: An approval that the SQL store accepted is durable: through every later commit, accepted or not, the
  store answers its decision id with exactly the evidence that was committed; no decision id and no
  idempotency key is ever taken twice.
\<close>

theorem accepted_evidence_lasts:
  assumes "rows_ok rows" and "sql_commit_batch Committed rs rows = (Inr True, rows')" and "r \<in> set rs" and "identified r"
    and "later = fold (\<lambda>rs c. snd (sql_commit_batch Committed rs c)) rss rows'"
  shows "sql_read_commit (cr_decision_id r) later = (Inr (Some r), later) \<and> rows_ok later"
proof
  show "sql_read_commit (cr_decision_id r) later = (Inr (Some r), later)"
    unfolding assms(5) sql_batches [symmetric] by (rule sq.accepted_lasts [OF assms(1-4)])
  have "rows_ok c \<Longrightarrow> rows_ok (fold (\<lambda>rs c. snd (sql_commit_batch Committed rs c)) rss c)" for c
    by (induction rss arbitrary: c) (simp_all, metis prod.collapse sq.batch_ok)
  then show "rows_ok later" using sq.batch_ok [OF assms(1,2)] assms(5) by blast
qed

text \<open>C37: A batch that the SQL store rejects is not rolled back: when a later record of the batch collides with
  stored evidence, the answer is False but the records before it are committed, although the same batch
  leaves the in-memory store, which states the contract, as it was.
\<close>

theorem rejected_batch_stays:
  assumes "row_of (cr_decision_id a) rows = None" and "cr_idempotency_key a \<notin> cr_idempotency_key ` set rows"
    and "row_of (cr_decision_id b) rows = Some e" and "e \<noteq> b" and "cr_idempotency_key a \<noteq> cr_idempotency_key b"
    and "identified a" and "identified b" and "mem_read_commit (cr_decision_id b) d = (Inr (Some e), d)"
  shows "sql_commit_batch Committed [a, b] rows = (Inr False, rows @ [a]) \<and>
    sql_read_commit (cr_decision_id a) (rows @ [a]) = (Inr (Some a), rows @ [a]) \<and>
    mem_commit_batch [a, b] d = (Inr False, d)"
proof -
  have ids: "cr_decision_id a \<noteq> cr_decision_id b" using assms(1,3) by auto
  have "find (\<lambda>x. cr_idempotency_key x = cr_idempotency_key a) rows = None"
    using assms(2) by (simp add: find_None_iff) (metis image_eqI)
  then have "sql_scan rows [a, b] [] = (False, [a])" using assms(1,3,4) by simp
  moreover have "sql_guard [a, b] = Inr ()" using ids assms(5) by (simp add: sql_guard_def batch_guard_def)
  moreover have "row_of (cr_decision_id a) (rows @ [a]) = Some a"
    by (simp add: row_of_append assms(1)) (simp add: row_of_def)
  moreover have "dict_get d (cr_decision_id b) = Some e"
    using assms(7,8) by (simp add: mem_read_commit_Some nonempty_id identified_def)
  ultimately show ?thesis
    using ids assms(4,6) by (simp add: sql_commit_batch_def sql_read_commit_Some nonempty_id identified_def
        mem_commit_batch_def batch_guard_def mem_conflict_def)
qed

definition demo_evidence :: "string \<Rightarrow> string \<Rightarrow> commit_record" where
  "demo_evidence decision key = \<lparr>cr_decision_id = decision, cr_intent_id = ''i1'', cr_idempotency_key = key,
     cr_correlation_id = ''x1'', cr_snapshot_id = ''s1'', cr_request_json = ''{}'', cr_snapshot_json = ''{}'',
     cr_rules_version = ''direction3-risk-v1.4'', cr_fencing_token = 1, cr_quantity = 2, cr_notional = 14,
     cr_evaluated_at_ms = 5, cr_committed_at_ms = 6, cr_reference = ''ledger-1'', cr_target_version = None,
     cr_intent_expires = None\<rparr>"

lemma demo_identified: "identified (demo_evidence ''d1'' k)" "identified (demo_evidence ''d2'' k)"
  unfolding identified_def demo_evidence_def by (simp_all, code_simp+)

theorem accepted_evidence_lasts_witness:
  "fst (sql_read_commit ''d1'' [demo_evidence ''d1'' ''k1'']) = Inr (Some (demo_evidence ''d1'' ''k1''))"
proof -
  have "sql_commit_batch Committed [demo_evidence ''d1'' ''k1''] [] = (Inr True, [demo_evidence ''d1'' ''k1''])"
    by (simp add: sql_commit_batch_def sql_guard_def batch_guard_def row_of_def)
  from accepted_evidence_lasts [OF _ this _ demo_identified(1), where rss = "[]"]
  show ?thesis by (simp add: rows_ok_def demo_evidence_def)
qed

theorem rejected_batch_stays_witness:
  "sql_commit_batch Committed [demo_evidence ''d1'' ''k1'', demo_evidence ''d2'' ''k2''] [demo_evidence ''d2'' ''k3'']
     = (Inr False, [demo_evidence ''d2'' ''k3'', demo_evidence ''d1'' ''k1''])"
proof -
  let ?e = "demo_evidence ''d2'' ''k3''" and ?a = "demo_evidence ''d1'' ''k1''" and ?b = "demo_evidence ''d2'' ''k2''"
  have "row_of (cr_decision_id ?a) [?e] = None" "cr_idempotency_key ?a \<notin> cr_idempotency_key ` set [?e]"
    "row_of (cr_decision_id ?b) [?e] = Some ?e" "?e \<noteq> ?b" "cr_idempotency_key ?a \<noteq> cr_idempotency_key ?b"
    by (simp_all add: demo_evidence_def row_of_def)
  moreover have "mem_read_commit (cr_decision_id ?b) [(''d2'', ?e)] = (Inr (Some ?e), [(''d2'', ?e)])"
    using demo_identified(2) [of "''k2''"] by (simp add: mem_read_commit_Some nonempty_id identified_def) (simp add: demo_evidence_def)
  ultimately show ?thesis using rejected_batch_stays [of ?a "[?e]" ?b ?e "[(''d2'', ?e)]"] demo_identified by simp
qed

end
