(* ===== verification/Risk_Approval.thy ===== *)
theory Risk_Approval
  imports Risk_Actions Risk_Commit Risk_Engine Reduce_Reservations Single_Writer
begin

text \<open>
  The approval coordinator of \<open>freqtrade/hedge/risk/actions.py\<close> and the emergency path of
  \<open>emergency.py\<close>. The state is what the process shares: the local capacity reserved for increases,
  the reduce reservations of the lock manager, and the lease store with this process's guard. What other
  threads may change between two statements is read again at every statement, so those readings (of the
  readiness report, the risk state and the clocks) are arguments. The two evidence texts are
  arguments as well.
\<close>

section \<open>The state\<close>

record increase_record =
  ir_account_id :: string
  ir_symbol :: string
  ir_side :: position_side
  ir_notional :: rat
  ir_initial_margin :: rat
  ir_maintenance_margin :: rat
  ir_net_delta :: rat
  ir_created_at_ms :: int
  ir_expires_at_ms :: int

record ('t, 'd) coordinator =
  co_increase :: "(string, increase_record) dict"
  co_reduce :: "'t reservations"
  co_writer :: "'d \<times> writer_guard"

definition on_reduce :: "('t reservations, 'a) py \<Rightarrow> (('t, 'd) coordinator, 'a) py" where
  "on_reduce m s = (case m (co_reduce s) of (r, d) \<Rightarrow> (r, s\<lparr>co_reduce := d\<rparr>))"

definition on_writer :: "('d \<times> writer_guard, 'a) py \<Rightarrow> (('t, 'd) coordinator, 'a) py" where
  "on_writer m s = (case m (co_writer s) of (r, w) \<Rightarrow> (r, s\<lparr>co_writer := w\<rparr>))"

definition approval_now :: "int res \<Rightarrow> int res" where
  "approval_now clock = res_bind clock (\<lambda>v. if v < 0
     then value_error ''Reservation clock must return nonnegative integer milliseconds.'' else Inr v)"

definition prune_increases :: "int \<Rightarrow> (('t, 'd) coordinator, nat) py" where
  "prune_increases now s = (let d = filter (\<lambda>(token, i). \<not> ir_expires_at_ms i \<le> now) (co_increase s) in
     (Inr (length (co_increase s) - length d), s\<lparr>co_increase := d\<rparr>))"

definition prune_all :: "int res \<Rightarrow> 't :: linorder \<Rightarrow> (('t, 'd) coordinator, nat) py" where
  \<comment> \<open>\<open>prune_expired_reservations\<close>\<close>
  "prune_all clock lock_now = py_bind (py_of (approval_now clock)) (\<lambda>now.
     py_bind (prune_increases now) (\<lambda>n. py_bind (on_reduce (prune_expired lock_now)) (\<lambda>k. py_ret (n + k))))"

section \<open>Approvals\<close>

record 't risk_reservation =
  vr_decision_id :: string
  vr_intent_id :: string
  vr_idempotency_key :: string
  vr_correlation_id :: string
  vr_snapshot_id :: string
  vr_request_json :: string
  vr_snapshot_json :: string
  vr_rules_version :: string
  vr_evaluated_at_ms :: int
  vr_quantity :: rat
  vr_notional :: rat
  vr_fencing_token :: int
  vr_target_version :: "int option"
  vr_intent_expires :: "int option"
  vr_token :: "string option"
  vr_reduce :: "'t reservation option"
  vr_expires_at_ms :: "int option"
  vr_released :: bool
  vr_committed :: bool
  vr_accepted :: bool
  vr_record :: "commit_record option"

record approval_meta =
  am_fencing_token :: "int option"
  am_lease_expires :: "int option"
  am_reservation_expires :: "int option"
  am_decision_id :: "string option"
  am_intent_id :: "string option"
  am_idempotency_key :: "string option"
  am_snapshot_id :: "string option"
  am_correlation_id :: "string option"
  am_rules_version :: "string option"
  am_target_version :: "int option"
  am_evaluated_at_ms :: "int option"
  am_intent_expires :: "int option"

definition no_meta :: approval_meta where
  "no_meta = \<lparr>am_fencing_token = None, am_lease_expires = None, am_reservation_expires = None,
     am_decision_id = None, am_intent_id = None, am_idempotency_key = None, am_snapshot_id = None,
     am_correlation_id = None, am_rules_version = None, am_target_version = None,
     am_evaluated_at_ms = None, am_intent_expires = None\<rparr>"

record 't approval =
  ua_allowed :: bool
  ua_quantity :: rat
  ua_notional :: rat
  ua_reasons :: "string list"
  ua_reservation :: "'t risk_reservation option"
  ua_meta :: approval_meta

definition carried :: "string \<Rightarrow> string option \<Rightarrow> string option res" where
  "carried field v = (case v of
     None \<Rightarrow> value_error (''Allowed approval must carry '' @ field @ ''.'')
   | Some t \<Rightarrow> if strip t = [] then value_error (''Allowed approval must carry '' @ field @ ''.'')
       else Inr (Some (strip t)))"

definition some_below :: "int \<Rightarrow> int option \<Rightarrow> bool" where
  \<comment> \<open>absent or less than the bound\<close>
  "some_below b v = (case v of None \<Rightarrow> True | Some n \<Rightarrow> n < b)"

definition mk_meta :: "approval_meta \<Rightarrow> approval_meta res" where
  "mk_meta m =
     res_bind (carried ''decision_id'' (am_decision_id m)) (\<lambda>d.
     res_bind (carried ''intent_id'' (am_intent_id m)) (\<lambda>i.
     res_bind (carried ''idempotency_key'' (am_idempotency_key m)) (\<lambda>k.
     res_bind (carried ''risk_snapshot_id'' (am_snapshot_id m)) (\<lambda>s.
     res_bind (carried ''correlation_id'' (am_correlation_id m)) (\<lambda>x.
     res_bind (carried ''rules_version'' (am_rules_version m)) (\<lambda>v.
     if some_below 1 (am_lease_expires m) then value_error ''Allowed approval must carry a positive lease expiry.'' else
     if some_below 0 (am_evaluated_at_ms m) then value_error ''Allowed approval must carry an evaluation timestamp.'' else
     Inr (m\<lparr>am_decision_id := d, am_intent_id := i, am_idempotency_key := k, am_snapshot_id := s,
       am_correlation_id := x, am_rules_version := v\<rparr>)))))))"

definition mk_approval :: "'t approval \<Rightarrow> 't approval res" where
  "mk_approval a = (let texts = filter (\<lambda>x. x \<noteq> []) (map strip (ua_reasons a)) in
     if length texts \<noteq> length (ua_reasons a) \<or> texts = []
     then value_error ''Approval must contain non-empty reason codes.'' else
     let b = a\<lparr>ua_reasons := dict_fromkeys texts\<rparr> in
     if ua_allowed a then
       if ua_quantity a \<le> 0 \<or> ua_notional a \<le> 0
       then value_error ''Allowed approval must contain positive quantity and notional.'' else
       if ua_reservation a = None \<or> am_fencing_token (ua_meta a) = None
       then value_error ''Allowed approval must carry reservation and fencing token.'' else
       if some_below 1 (am_fencing_token (ua_meta a))
       then value_error ''fencing_token must be a positive integer.'' else
       res_bind (mk_meta (ua_meta a)) (\<lambda>m. Inr (b\<lparr>ua_meta := m\<rparr>))
     else if ua_quantity a \<noteq> 0 \<or> ua_notional a \<noteq> 0
     then value_error ''Denied approval must approve zero quantity and notional.''
     else if ua_reservation a \<noteq> None \<or> ua_meta a \<noteq> no_meta
     then value_error ''Denied approval must not carry reservation or lease metadata.'' else Inr b)"

definition deny :: "string list \<Rightarrow> 't approval res" where
  "deny codes = mk_approval \<lparr>ua_allowed = False, ua_quantity = 0, ua_notional = 0,
     ua_reasons = or_codes (dict_fromkeys codes) [''RISK_APPROVAL_DENIED''], ua_reservation = None, ua_meta = no_meta\<rparr>"

definition denied :: "string list \<Rightarrow> ('s, 't approval) py" where
  "denied codes = py_of (deny codes)"

section \<open>The gates\<close>

record gate_reading =
  gr_shown :: ready_report      \<comment> \<open>the report whose reasons are quoted\<close>
  gr_gate :: ready_report       \<comment> \<open>the report that the gate's answer is from\<close>
  gr_state :: risk_state

definition increase_reasons :: "gate_reading \<Rightarrow> request \<Rightarrow> string list res" where
  "increase_reasons g r = res_bind (request_key r) (\<lambda>k. Inr (
     if \<not> allows_new_risk (gr_gate g) (Some k)
     then ''READINESS_NOT_READY'' # map reason_value (rt_reasons (gr_shown g))
     else if \<not> allows (gr_state g) (rq_action r) False then [''RISK_STATE_FORBIDS_ACTION''] else []))"

definition reduce_reasons :: "gate_reading \<Rightarrow> request \<Rightarrow> string list res" where
  "reduce_reasons g r = res_bind (request_key r) (\<lambda>k. Inr (
     if \<not> allows_controlled_reduce (gr_gate g) (Some k)
     then ''CONTROLLED_REDUCE_NOT_READY'' # map reason_value (rt_reasons (gr_shown g))
     else if \<not> allows (gr_state g) (rq_action r) True then [''RISK_STATE_FORBIDS_ACTION'']
     else if rq_confirmed r = None then [''CONFIRMED_POSITION_REQUIRED''] else []))"

definition writer_check :: "'d lease_port \<Rightarrow> int res \<Rightarrow> ('d \<times> writer_guard, lease_record option) py" where
  \<comment> \<open>\<open>_assert_writer\<close>\<close>
  "writer_check p clock w = (case sw_assert_valid p clock w of
     (Inr lease, w') \<Rightarrow> (Inr (Some lease), w')
   | (Inl e, w') \<Rightarrow> (if is_a e LeaseLost then (Inr None, w') else (Inl e, w')))"

definition assert_fencing_token :: "'d lease_port \<Rightarrow> int res \<Rightarrow> int \<Rightarrow> ('d \<times> writer_guard, lease_record) py" where
  "assert_fencing_token p clock token = py_bind (sw_assert_valid p clock) (\<lambda>lease.
     if le_token lease \<noteq> token
     then py_raise (Exn LeaseLost ''Risk approval fencing token is no longer current.'') else py_ret lease)"

record 't approve_env =
  ae_now :: "int res"
  ae_writer_clocks :: "int res \<times> int res \<times> int res"
  ae_gates :: "gate_reading \<times> gate_reading \<times> gate_reading"
  ae_locked_now :: "int res"
  ae_created_at :: "int res"
  ae_evaluated_at :: "int res"
  ae_lock :: "unit res"
  ae_lock_clock :: "'t \<times> 't \<times> 't"
  ae_plus_ttl :: "'t \<Rightarrow> 't"
  ae_token_uid :: nat
  ae_decision_uid :: nat
  ae_request_json :: string
  ae_snapshot_json :: string

section \<open>Increases\<close>

definition reserved_sum :: "(increase_record \<Rightarrow> rat) \<Rightarrow> (increase_record \<Rightarrow> bool) \<Rightarrow>
    (string, increase_record) dict \<Rightarrow> rat" where
  "reserved_sum f P d = dec_sum (map f (filter P (map snd d)))"

definition account_again :: "rat account_risk \<Rightarrow> dec account_risk" where
  "account_again a = \<lparr>ar_account_id = ar_account_id a, ar_equity = DFin (ar_equity a),
     ar_wallet_balance = DFin (ar_wallet_balance a), ar_available_balance = DFin (ar_available_balance a),
     ar_initial_margin = DFin (ar_initial_margin a), ar_maintenance_margin = DFin (ar_maintenance_margin a),
     ar_gross_long = DFin (ar_gross_long a), ar_gross_short = DFin (ar_gross_short a),
     ar_net_notional = DFin (ar_net_notional a), ar_pending_notional = DFin (ar_pending_notional a),
     ar_liquidation_buffer_ratio = DFin (ar_liquidation_buffer_ratio a),
     ar_risk_data_valid = ar_risk_data_valid a, ar_observed_at_ms = ar_observed_at_ms a,
     ar_pending_initial_margin = DFin (ar_pending_initial_margin a),
     ar_pending_net_delta = DFin (ar_pending_net_delta a), ar_pending_long = DFin (ar_pending_long a),
     ar_pending_short = DFin (ar_pending_short a), ar_pending_maintenance = DFin (ar_pending_maintenance a),
     ar_exchange = ar_exchange a, ar_snapshot_id = ar_snapshot_id a, ar_source_version = ar_source_version a,
     ar_exchange_time_ms = ar_exchange_time_ms a,
     ar_liquidation_data_complete = ar_liquidation_data_complete a,
     ar_maintenance_margin_complete = ar_maintenance_margin_complete a,
     ar_risk_data_errors = ar_risk_data_errors a\<rparr>"

definition account_with_pending :: "request \<Rightarrow> (string, increase_record) dict \<Rightarrow> rat account_risk \<Rightarrow>
    rat account_risk res" where
  "account_with_pending r d a = (let mine = (\<lambda>i. ir_account_id i = rq_account_id r) in
     mk_account_risk ((account_again a)\<lparr>
       ar_available_balance := DFin (max (dec_sub (ar_available_balance a) (reserved_sum ir_initial_margin mine d)) 0),
       ar_pending_notional := DFin (dec_add (ar_pending_notional a) (reserved_sum ir_notional mine d)),
       ar_pending_initial_margin := DFin (dec_add (ar_pending_initial_margin a) (reserved_sum ir_initial_margin mine d)),
       ar_pending_maintenance := DFin (dec_add (ar_pending_maintenance a) (reserved_sum ir_maintenance_margin mine d)),
       ar_pending_net_delta := DFin (dec_add (ar_pending_net_delta a) (reserved_sum ir_net_delta mine d)),
       ar_pending_long := DFin (dec_add (ar_pending_long a)
         (reserved_sum ir_notional (\<lambda>i. mine i \<and> ir_side i = LONG) d)),
       ar_pending_short := DFin (dec_add (ar_pending_short a)
         (reserved_sum ir_notional (\<lambda>i. mine i \<and> ir_side i \<noteq> LONG) d))\<rparr>))"

definition request_again :: "request \<Rightarrow> (dec, position_side + string, intent_action + string) risk_request" where
  "request_again r = \<lparr>rq_account_id = rq_account_id r, rq_symbol = rq_symbol r, rq_side = Inl (rq_side r),
     rq_action = Inl (rq_action r), rq_quantity = DFin (rq_quantity r), rq_price = DFin (rq_price r),
     rq_leg_notional = DFin (rq_leg_notional r), rq_symbol_notional = DFin (rq_symbol_notional r),
     rq_pending_leg = DFin (rq_pending_leg r), rq_pending_symbol = DFin (rq_pending_symbol r),
     rq_confirmed = map_option DFin (rq_confirmed r), rq_pending_reduce = DFin (rq_pending_reduce r),
     rq_leverage = DFin (rq_leverage r), rq_exchange = rq_exchange r, rq_intent_id = rq_intent_id r,
     rq_idempotency_key = rq_idempotency_key r, rq_correlation_id = rq_correlation_id r,
     rq_expires_at_ms = rq_expires_at_ms r, rq_target_version = rq_target_version r, rq_rate = DFin (rq_rate r)\<rparr>"

definition request_with_pending :: "request \<Rightarrow> (string, increase_record) dict \<Rightarrow> request res" where
  "request_with_pending r d = mk_risk_request ((request_again r)\<lparr>
     rq_pending_leg := DFin (dec_add (rq_pending_leg r) (reserved_sum ir_notional
       (\<lambda>i. ir_account_id i = rq_account_id r \<and> ir_symbol i = rq_symbol r \<and> ir_side i = rq_side r) d)),
     rq_pending_symbol := DFin (dec_add (rq_pending_symbol r) (reserved_sum ir_notional
       (\<lambda>i. ir_account_id i = rq_account_id r \<and> ir_symbol i = rq_symbol r) d))\<rparr>)"

definition rules_version :: string where "rules_version = ''direction3-risk-v1.4''"

definition approval_of :: "'t approve_env \<Rightarrow> request \<Rightarrow> string list \<Rightarrow> rat \<Rightarrow> rat \<Rightarrow> lease_record \<Rightarrow> string \<Rightarrow>
    int \<Rightarrow> string option \<Rightarrow> 't reservation option \<Rightarrow> int option \<Rightarrow> 't approval res" where
  \<comment> \<open>\<open>UnifiedRiskApproval(allowed=True, ...)\<close> with its \<open>RiskApprovalReservation\<close>\<close>
  "approval_of env r codes quantity notional lease snapshot_id moment token reduce expires = mk_approval
     \<lparr>ua_allowed = True, ua_quantity = quantity, ua_notional = notional, ua_reasons = codes,
      ua_reservation = Some \<lparr>vr_decision_id = uuid_hex (ae_decision_uid env), vr_intent_id = rq_intent_id r,
        vr_idempotency_key = rq_idempotency_key r, vr_correlation_id = rq_correlation_id r,
        vr_snapshot_id = snapshot_id, vr_request_json = ae_request_json env,
        vr_snapshot_json = ae_snapshot_json env, vr_rules_version = rules_version,
        vr_evaluated_at_ms = moment, vr_quantity = quantity, vr_notional = notional,
        vr_fencing_token = le_token lease, vr_target_version = rq_target_version r,
        vr_intent_expires = rq_expires_at_ms r, vr_token = token, vr_reduce = reduce,
        vr_expires_at_ms = expires, vr_released = False, vr_committed = False, vr_accepted = False,
        vr_record = None\<rparr>,
      ua_meta = \<lparr>am_fencing_token = Some (le_token lease), am_lease_expires = Some (le_expires_at lease),
        am_reservation_expires = expires, am_decision_id = Some (uuid_hex (ae_decision_uid env)),
        am_intent_id = Some (rq_intent_id r), am_idempotency_key = Some (rq_idempotency_key r),
        am_snapshot_id = Some snapshot_id, am_correlation_id = Some (rq_correlation_id r),
        am_rules_version = Some rules_version, am_target_version = rq_target_version r,
        am_evaluated_at_ms = Some moment, am_intent_expires = rq_expires_at_ms r\<rparr>\<rparr>"

definition reserve_increase :: "int \<Rightarrow> 't approve_env \<Rightarrow> request \<Rightarrow> rat account_risk \<Rightarrow> risk_decision \<Rightarrow> rat \<Rightarrow>
    rat \<Rightarrow> lease_record \<Rightarrow> (('t, 'd) coordinator, 't approval) py" where
  \<comment> \<open>from the generated token on\<close>
  "reserve_increase ttl env r a decision quantity notional lease =
     py_bind (py_of (approval_now (ae_created_at env))) (\<lambda>created.
     py_then (py_mod (\<lambda>s. s\<lparr>co_increase := dict_put (uuid_hex (ae_token_uid env))
       \<lparr>ir_account_id = rq_account_id r, ir_symbol = rq_symbol r, ir_side = rq_side r, ir_notional = notional,
        ir_initial_margin = dec_div notional (rq_leverage r),
        ir_maintenance_margin = dec_mul notional (rq_rate r),
        ir_net_delta = dec_mul (side_sign (rq_side r)) notional, ir_created_at_ms = created,
        ir_expires_at_ms = created + ttl\<rparr> (co_increase s)\<rparr>))
     (py_bind (py_of (approval_now (ae_evaluated_at env))) (\<lambda>moment.
     py_of (approval_of env r (rd_reasons decision) quantity notional lease
       (case rd_snapshot_id decision of None \<Rightarrow> ar_snapshot_id a | Some sid \<Rightarrow> sid) moment
       (Some (uuid_hex (ae_token_uid env))) None (Some (created + ttl))))))"

definition decided :: "rat risk_limits \<Rightarrow> request \<Rightarrow> (string, increase_record) dict \<Rightarrow> rat account_risk \<Rightarrow>
    risk_decision res" where
  \<comment> \<open>the engine's decision on the account and request that count the local reservations\<close>
  "decided l r d a = res_bind (account_with_pending r d a) (\<lambda>a'.
     res_bind (request_with_pending r d) (\<lambda>r'. evaluate_request l r' a'))"

definition gate_then :: "string list res \<Rightarrow> ('s, 't approval) py \<Rightarrow> ('s, 't approval) py" where
  \<comment> \<open>\<open>if reasons: return self._deny(*reasons)\<close>\<close>
  "gate_then reasons m = py_bind (py_of reasons) (\<lambda>codes. if codes \<noteq> [] then denied codes else m)"

definition with_writer :: "'d lease_port \<Rightarrow> int res \<Rightarrow> (lease_record \<Rightarrow> (('t, 'd) coordinator, 't approval) py) \<Rightarrow>
    (('t, 'd) coordinator, 't approval) py" where
  "with_writer p clock f = py_bind (on_writer (writer_check p clock)) (\<lambda>lease. case lease of
     None \<Rightarrow> denied [''SINGLE_WRITER_LEASE_INVALID''] | Some le \<Rightarrow> f le)"

definition approve_increase :: "rat risk_limits \<Rightarrow> 'd lease_port \<Rightarrow> int \<Rightarrow> 't approve_env \<Rightarrow> request \<Rightarrow>
    rat account_risk \<Rightarrow> (('t, 'd) coordinator, 't approval) py" where
  "approve_increase l p ttl env r a =
     (case ae_gates env of (gate1, gate2, gate3) \<Rightarrow>
     case ae_writer_clocks env of (clock1, clock2, clock3) \<Rightarrow>
     gate_then (increase_reasons gate1 r) (
     py_bind (py_of (approval_now (ae_locked_now env))) (\<lambda>now.
     py_then (prune_increases now) (
     gate_then (increase_reasons gate2 r) (
     with_writer p clock2 (\<lambda>_.
     py_bind (py_get co_increase) (\<lambda>d.
     py_bind (py_of (decided l r d a)) (\<lambda>decision.
     let quantity = min (rq_quantity r) (rd_quantity decision);
         notional = min (min (requested_notional r) (rd_notional decision)) (dec_mul quantity (rq_price r)) in
     if \<not> rd_allowed decision \<or> quantity \<le> 0 \<or> notional \<le> 0 then denied (rd_reasons decision) else
     gate_then (increase_reasons gate3 r) (
     with_writer p clock3 (reserve_increase ttl env r a decision quantity notional))))))))))"

section \<open>Reductions\<close>

definition precondition_failed :: exn_class where
  "precondition_failed = Derived ''_ApprovalPreconditionFailed'' RuntimeError"

definition inside_check :: "'d lease_port \<Rightarrow> int res \<Rightarrow> gate_reading \<Rightarrow> request \<Rightarrow>
    ('d \<times> writer_guard, lease_record) py" where
  \<comment> \<open>\<open>validate_inside_lock\<close>\<close>
  "inside_check p clock g r = py_bind (py_of (reduce_reasons g r)) (\<lambda>reasons.
     if reasons \<noteq> [] then py_raise (Exn precondition_failed (joined '','' reasons)) else sw_assert_valid p clock)"

definition lock_taken :: "'t reserve_args \<Rightarrow> bool" where
  "lock_taken args \<longleftrightarrow> (case mk_position_lock (ra_account_id args) (ra_symbol args) (ra_side args) (ra_exchange args) of
     Inl e \<Rightarrow> False | Inr key \<Rightarrow> (case ra_lock args of Inl e \<Rightarrow> False | Inr u \<Rightarrow> True))"

definition reserve_checked :: "('d \<times> writer_guard, 'x) py \<Rightarrow> 't :: linorder reserve_args \<Rightarrow>
    (('t, 'd) coordinator, 't reservation \<times> 'x option) py" where
  \<comment> \<open>\<open>reserve_reduce\<close> with the caller's check, which runs once the position lock is taken\<close>
  "reserve_checked check args s = (case (if lock_taken args
       then (case check (co_writer s) of (r, w) \<Rightarrow> (Some r, w)) else (None, co_writer s)) of (result, w) \<Rightarrow>
     case reserve_reduce (args\<lparr>ra_check := (case result of Some (Inl e) \<Rightarrow> Inl e | _ \<Rightarrow> Inr ())\<rparr>) (co_reduce s) of
       (Inl e, d) \<Rightarrow> (Inl e, s\<lparr>co_reduce := d, co_writer := w\<rparr>)
     | (Inr v, d) \<Rightarrow> (Inr (v, case result of Some (Inr x) \<Rightarrow> Some x | _ \<Rightarrow> None), s\<lparr>co_reduce := d, co_writer := w\<rparr>))"

definition reduce_args :: "'t approve_env \<Rightarrow> request \<Rightarrow> rat \<Rightarrow> 't reserve_args" where
  "reduce_args env r confirmed = \<lparr>ra_lock = ae_lock env, ra_check = Inr (), ra_account_id = rq_account_id r,
     ra_symbol = rq_symbol r, ra_side = Inl (rq_side r), ra_exchange = rq_exchange r,
     ra_requested = DFin (rq_quantity r), ra_confirmed = DFin confirmed, ra_existing = DFin (rq_pending_reduce r),
     ra_uid = ae_token_uid env, ra_clock = ae_lock_clock env, ra_plus_ttl = ae_plus_ttl env\<rparr>"

definition lock_denial :: "exn \<Rightarrow> string list \<Rightarrow> string list option" where
  \<comment> \<open>the \<open>except\<close> clauses; the second argument is the reasons of the failed precondition\<close>
  "lock_denial e reasons = (if is_a e LeaseLost then Some [''SINGLE_WRITER_LEASE_INVALID'']
     else if is_a e precondition_failed then Some reasons
     else if is_a e (Derived ''PositionLockTimeout'' TimeoutError) then Some [''POSITION_LOCK_TIMEOUT'']
     else if is_a e (Derived ''DeadlockDetected'' RuntimeError) then Some [''POSITION_LOCK_DEADLOCK_DETECTED'']
     else if is_a e LockOrderViolation then Some [''POSITION_LOCK_ORDER_VIOLATION'']
     else None)"

definition approve_reduce :: "'d lease_port \<Rightarrow> 't :: linorder approve_env \<Rightarrow> request \<Rightarrow> rat account_risk \<Rightarrow>
    (('t, 'd) coordinator, 't approval) py" where
  "approve_reduce p env r a =
     (case ae_gates env of (gate1, gate2, gate3) \<Rightarrow>
     case ae_writer_clocks env of (clock1, clock2, clock3) \<Rightarrow>
     gate_then (reduce_reasons gate1 r) (
     case rq_confirmed r of None \<Rightarrow> denied [''CONFIRMED_POSITION_REQUIRED''] | Some confirmed \<Rightarrow>
     py_bind (py_try (reserve_checked (inside_check p clock2 gate2 r) (reduce_args env r confirmed))) (\<lambda>out. case out of
       Inl e \<Rightarrow> (case lock_denial e (case reduce_reasons gate2 r of Inl _ \<Rightarrow> [] | Inr inner \<Rightarrow> inner) of
           Some codes \<Rightarrow> denied codes | None \<Rightarrow> py_raise e)
     | Inr (v, lease) \<Rightarrow>
         let approved = min (rq_quantity r) (rv_allowed v) in
         if approved \<le> 0 then py_then (on_reduce (reservation_release v)) (denied [rv_reason v]) else
         (case lease of
           None \<Rightarrow> py_then (on_reduce (reservation_release v)) (denied [''SINGLE_WRITER_LEASE_INVALID''])
         | Some le \<Rightarrow> py_bind (py_of (approval_now (ae_evaluated_at env))) (\<lambda>moment.
             py_of (approval_of env r [''CONTROLLED_REDUCE_APPROVED'', rv_reason v] approved
               (dec_mul approved (rq_price r)) le (ar_snapshot_id a) moment None (Some v) None))))))"

definition approve :: "rat risk_limits \<Rightarrow> 'd lease_port \<Rightarrow> int \<Rightarrow> 't :: linorder approve_env \<Rightarrow> request \<Rightarrow>
    rat account_risk \<Rightarrow> (('t, 'd) coordinator, 't approval) py" where
  "approve l p ttl env r a =
     (if rq_account_id r \<noteq> ar_account_id a then denied [''ACCOUNT_ID_MISMATCH'']
      else if \<not> effective_risk_data_valid a then denied (or_codes (ar_risk_data_errors a) [''RISK_DATA_INVALID''])
      else py_bind (py_of (approval_now (ae_now env))) (\<lambda>now.
        if (case rq_expires_at_ms r of None \<Rightarrow> False | Some t \<Rightarrow> now \<ge> t) then denied [''RISK_INTENT_EXPIRED''] else
        with_writer p (fst (ae_writer_clocks env)) (\<lambda>_.
        if rq_action r \<in> {REDUCE, CLOSE} then approve_reduce p env r a
        else approve_increase l p ttl env r a)))"

section \<open>Releases\<close>

definition release_increase :: "string \<Rightarrow> (('t, 'd) coordinator, unit) py" where
  "release_increase token = py_mod (\<lambda>s. s\<lparr>co_increase := dict_del token (co_increase s)\<rparr>)"

definition vr_release :: "'t risk_reservation \<Rightarrow> (('t, 'd) coordinator, 't risk_reservation) py" where
  "vr_release v = (if vr_released v then py_ret v else
     py_bind (case vr_reduce v of None \<Rightarrow> py_ret None
       | Some rv \<Rightarrow> py_bind (on_reduce (reservation_release rv)) (\<lambda>rv'. py_ret (Some rv'))) (\<lambda>rd.
     py_then (case vr_token v of None \<Rightarrow> py_ret () | Some token \<Rightarrow> release_increase token)
     (py_ret (v\<lparr>vr_reduce := rd, vr_released := True\<rparr>))))"

definition account_text :: "string \<Rightarrow> string \<Rightarrow> string res" where
  "account_text m v = (if strip v = [] then value_error m else Inr (strip v))"

definition pending_increase_notional :: "int res \<Rightarrow> string \<Rightarrow> (('t, 'd) coordinator, rat) py" where
  "pending_increase_notional clock account_id =
     py_bind (py_of (account_text ''account_id must not be empty.'' account_id)) (\<lambda>account.
     py_bind (py_of (approval_now clock)) (\<lambda>now. py_bind (prune_increases now) (\<lambda>_.
     py_get (\<lambda>s. reserved_sum ir_notional (\<lambda>i. ir_account_id i = account) (co_increase s)))))"

definition release_all :: "int res \<Rightarrow> string option \<Rightarrow> (('t, 'd) coordinator, nat) py" where
  "release_all clock account_id =
     py_bind (py_of (opt_require (account_text ''account_id must be a non-empty string.'') account_id)) (\<lambda>account.
     py_bind (py_of (approval_now clock)) (\<lambda>now. py_bind (prune_increases now) (\<lambda>_.
     py_bind (py_get (\<lambda>s. length (filter (\<lambda>(token, i). account = None \<or> account = Some (ir_account_id i)) (co_increase s)))) (\<lambda>n.
     py_then (py_mod (\<lambda>s. s\<lparr>co_increase := filter (\<lambda>(token, i). \<not> (account = None \<or> account = Some (ir_account_id i))) (co_increase s)\<rparr>))
     (py_bind (on_reduce (release_all_reservations account)) (\<lambda>k. py_ret (n + k)))))))"

section \<open>Batches\<close>

record 't batch_approval =
  ba_allowed :: bool
  ba_approvals :: "'t approval list"
  ba_reasons :: "string list"
  ba_released :: bool

definition mk_batch :: "bool \<Rightarrow> 't approval list \<Rightarrow> string list \<Rightarrow> 't batch_approval res" where
  "mk_batch allowed approvals reasons =
     (if reasons = [] then value_error ''Batch approval must contain at least one reason code.''
      else if allowed \<and> (approvals = [] \<or> \<not> list_all ua_allowed approvals)
      then value_error ''Allowed batch must contain only allowed approvals.''
      else if \<not> allowed \<and> list_ex ua_allowed approvals
      then value_error ''Denied batch must not expose usable allowed approvals.''
      else Inr \<lparr>ba_allowed = allowed, ba_approvals = approvals, ba_reasons = dict_fromkeys reasons, ba_released = False\<rparr>)"

fun release_each :: "'t approval list \<Rightarrow> (('t, 'd) coordinator, 't approval list) py" where
  "release_each [] = py_ret []"
| "release_each (x # xs) = py_bind (case ua_reservation x of None \<Rightarrow> py_ret x
     | Some v \<Rightarrow> py_bind (vr_release v) (\<lambda>v'. py_ret (x\<lparr>ua_reservation := Some v'\<rparr>))) (\<lambda>y.
     py_bind (release_each xs) (\<lambda>ys. py_ret (y # ys)))"

definition batch_release :: "'t batch_approval \<Rightarrow> (('t, 'd) coordinator, 't batch_approval) py" where
  "batch_release b = (if ba_released b then py_ret b else
     py_bind (release_each (ba_approvals b)) (\<lambda>xs. py_ret (b\<lparr>ba_approvals := xs, ba_released := True\<rparr>)))"

fun approve_items :: "rat risk_limits \<Rightarrow> 'd lease_port \<Rightarrow> int \<Rightarrow>
    ('t :: linorder approve_env \<times> request \<times> rat account_risk) list \<Rightarrow> 't approval list \<Rightarrow>
    (('t, 'd) coordinator, 't batch_approval) py" where
  \<comment> \<open>the loop of \<open>approve_batch\<close>; the last argument is the approvals so far\<close>
  "approve_items l p ttl [] sofar = py_of (mk_batch True sofar [''BATCH_APPROVED''])"
| "approve_items l p ttl ((env, r, a) # items) sofar = py_bind (approve l p ttl env r a) (\<lambda>x.
     if ua_allowed x then approve_items l p ttl items (sofar @ [x]) else
     py_bind (release_each sofar) (\<lambda>_.
     py_bind (py_of (each (\<lambda>_. deny [''BATCH_ROLLED_BACK'']) sofar)) (\<lambda>before.
     py_bind (py_of (each (\<lambda>_. deny [''BATCH_NOT_EVALUATED'']) items)) (\<lambda>rest.
     py_of (mk_batch False (before @ [x] @ rest) (''BATCH_APPROVAL_DENIED'' # ua_reasons x))))))"

definition approve_batch :: "rat risk_limits \<Rightarrow> 'd lease_port \<Rightarrow> int \<Rightarrow>
    ('t :: linorder approve_env \<times> request \<times> rat account_risk) list \<Rightarrow> (('t, 'd) coordinator, 't batch_approval) py" where
  "approve_batch l p ttl items = (if items = [] then py_of (mk_batch False [] [''EMPTY_RISK_BATCH''])
     else approve_items l p ttl items [])"

section \<open>Confirmation\<close>

text \<open>The methods of a reservation run on the coordinator and on the reservation itself, which is mutable.\<close>

record 't confirm_env =
  ce_now :: "int res"          \<comment> \<open>the coordinator's clock for \<open>expired\<close>\<close>
  ce_lock_now :: 't            \<comment> \<open>the lock manager's clock for \<open>expired\<close>\<close>
  ce_writer_clock :: "int res"
  ce_committed_at :: "int res"

definition vr_expired :: "'t :: linorder confirm_env \<Rightarrow> 't risk_reservation \<Rightarrow> bool res" where
  "vr_expired env v = (case vr_expires_at_ms v of
     Some t \<Rightarrow> res_bind (approval_now (ce_now env)) (\<lambda>now. Inr (now \<ge> t))
   | None \<Rightarrow> (case vr_reduce v of Some rv \<Rightarrow> Inr (reservation_expired (ce_lock_now env) rv) | None \<Rightarrow> Inr False))"

type_synonym ('t, 'd) held = "('t, 'd) coordinator \<times> 't risk_reservation"

definition on_coordinator :: "(('t, 'd) coordinator, 'a) py \<Rightarrow> (('t, 'd) held, 'a) py" where
  "on_coordinator m s = (case m (fst s) of (r, c) \<Rightarrow> (r, (c, snd s)))"

definition held_release :: "(('t, 'd) held, unit) py" where
  "held_release s = (case vr_release (snd s) (fst s) of
     (Inl e, c) \<Rightarrow> (Inl e, (c, snd s)) | (Inr v, c) \<Rightarrow> (Inr (), (c, v)))"

definition refuse_expired :: "'t :: linorder confirm_env \<Rightarrow> (('t, 'd) held, unit) py" where
  \<comment> \<open>\<open>if self.expired: self.release(); raise\<close>\<close>
  "refuse_expired env s = py_bind (py_of (vr_expired env (snd s))) (\<lambda>expired. if expired
     then py_then held_release (py_raise (Exn RuntimeError ''Cannot commit an expired risk reservation.''))
     else py_ret ()) s"

definition check_fencing :: "'d lease_port \<Rightarrow> 't confirm_env \<Rightarrow> (('t, 'd) held, lease_record) py" where
  "check_fencing p env s = on_coordinator (on_writer (assert_fencing_token p (ce_writer_clock env)
     (vr_fencing_token (snd s)))) s"

definition evidence_of :: "'t risk_reservation \<Rightarrow> int \<Rightarrow> string \<Rightarrow> commit_record res" where
  "evidence_of v committed_at reference = mk_commit_record
     \<lparr>cr_decision_id = vr_decision_id v, cr_intent_id = vr_intent_id v, cr_idempotency_key = vr_idempotency_key v,
      cr_correlation_id = vr_correlation_id v, cr_snapshot_id = vr_snapshot_id v,
      cr_request_json = vr_request_json v, cr_snapshot_json = vr_snapshot_json v,
      cr_rules_version = vr_rules_version v, cr_fencing_token = vr_fencing_token v,
      cr_quantity = vr_quantity v, cr_notional = vr_notional v, cr_evaluated_at_ms = vr_evaluated_at_ms v,
      cr_committed_at_ms = committed_at, cr_reference = reference, cr_target_version = vr_target_version v,
      cr_intent_expires = vr_intent_expires v\<rparr>"

definition build_commit :: "'d lease_port \<Rightarrow> 't :: linorder confirm_env \<Rightarrow> string \<Rightarrow> (('t, 'd) held, commit_record) py" where
  "build_commit p env durable_reference =
     (if strip durable_reference = [] then py_of (value_error ''durable_reference must be a non-empty string.'') else
     py_bind (py_get snd) (\<lambda>v. case vr_record v of
       Some record \<Rightarrow>
         if cr_reference record \<noteq> strip durable_reference
         then py_raise (Exn RuntimeError ''A risk reservation cannot be committed to two durable references.'')
         else if vr_accepted v then py_ret record
         else py_then (refuse_expired env) (py_then (check_fencing p env) (py_ret record))
     | None \<Rightarrow>
         if vr_released v \<and> \<not> vr_committed v
         then py_raise (Exn RuntimeError ''Cannot commit a released risk reservation.'')
         else py_then (refuse_expired env) (py_then (check_fencing p env)
           (py_bind (py_of (approval_now (ce_committed_at env))) (\<lambda>moment.
            py_bind (py_of (evidence_of v moment (strip durable_reference))) (\<lambda>record.
            py_then (py_mod (\<lambda>(c, v). (c, v\<lparr>vr_record := Some record\<rparr>))) (py_ret record)))))))"

definition mark_accepted :: "(('t, 'd) held, unit) py" where
  "mark_accepted = py_mod (\<lambda>(c, v). (c, v\<lparr>vr_accepted := True\<rparr>))"

definition mark_committed :: "(('t, 'd) held, unit) py" where
  "mark_committed = py_then (py_mod (\<lambda>(c, v). (c, v\<lparr>vr_accepted := True, vr_committed := True\<rparr>))) held_release"

record 'c commit_port =
  cp_commit :: "commit_record \<Rightarrow> ('c, bool) py"
  cp_read :: "string \<Rightarrow> ('c, commit_record option) py"

definition on_held :: "('s, 'a) py \<Rightarrow> ('s \<times> 'c, 'a) py" where
  "on_held m s = (case m (fst s) of (r, h) \<Rightarrow> (r, (h, snd s)))"

definition on_store :: "('c, 'a) py \<Rightarrow> ('s \<times> 'c, 'a) py" where
  "on_store m s = (case m (snd s) of (r, c) \<Rightarrow> (r, (fst s, c)))"

definition confirm :: "'d lease_port \<Rightarrow> 'c commit_port \<Rightarrow> 't :: linorder confirm_env \<Rightarrow> string \<Rightarrow>
    (('t, 'd) held \<times> 'c, commit_record) py" where
  "confirm p cp env durable_reference =
     py_bind (on_held (build_commit p env durable_reference)) (\<lambda>record.
     py_bind (py_get (\<lambda>s. snd (fst s))) (\<lambda>v.
     py_then (if vr_committed v \<or> vr_accepted v then py_ret ()
       else py_bind (on_store (cp_commit cp record)) (\<lambda>accepted. if accepted then on_held mark_accepted
         else py_raise (Exn RuntimeError ''Durable risk approval commit was rejected.'')))
     (py_bind (on_store (cp_read cp (vr_decision_id v))) (\<lambda>persisted.
      if persisted \<noteq> Some record
      then py_raise (Exn RuntimeError ''Durable risk approval commit could not be verified.'')
      else py_bind (py_get (\<lambda>s. vr_committed (snd (fst s)))) (\<lambda>committed.
        py_then (if committed then py_ret () else on_held mark_committed) (py_ret record))))))"

definition reservation_exit :: "(('t, 'd) held, unit) py" where
  \<comment> \<open>\<open>__exit__\<close>\<close>
  "reservation_exit = py_bind (py_get snd) (\<lambda>v. if vr_committed v then py_ret () else held_release)"

section \<open>Emergency reductions\<close>

record 't emergency_approval =
  ea_allowed :: bool
  ea_quantity :: rat
  ea_reasons :: "string list"
  ea_reservation :: "'t reservation option"
  ea_fencing_token :: "int option"
  ea_lease_expires :: "int option"

definition mk_emergency :: "'t emergency_approval \<Rightarrow> 't emergency_approval res" where
  "mk_emergency a = (let texts = filter (\<lambda>x. x \<noteq> []) (map strip (ea_reasons a)) in
     if length texts \<noteq> length (ea_reasons a) \<or> texts = []
     then value_error ''Emergency approval must contain non-empty reason codes.'' else
     if ea_allowed a \<and> ea_quantity a \<le> 0
     then value_error ''Allowed emergency approval must approve positive quantity.'' else
     if ea_allowed a \<and> (ea_reservation a = None \<or> ea_fencing_token a = None)
     then value_error ''Allowed emergency approval must carry reservation and fencing.'' else
     if \<not> ea_allowed a \<and> ea_quantity a \<noteq> 0
     then value_error ''Denied emergency approval must approve zero quantity.''
     else Inr (a\<lparr>ea_reasons := dict_fromkeys texts\<rparr>))"

definition emergency_denied :: "string list \<Rightarrow> ('s, 't emergency_approval) py" where
  "emergency_denied codes = py_of (mk_emergency \<lparr>ea_allowed = False, ea_quantity = 0, ea_reasons = codes,
     ea_reservation = None, ea_fencing_token = None, ea_lease_expires = None\<rparr>)"

definition emergency_check :: "'d lease_port \<Rightarrow> int res \<Rightarrow> risk_state \<Rightarrow> intent_action \<Rightarrow>
    ('d \<times> writer_guard, lease_record) py" where
  "emergency_check p clock state action = (if \<not> allows state action True
     then py_raise (Exn precondition_failed []) else sw_assert_valid p clock)"

definition emergency_approve :: "'d lease_port \<Rightarrow> int res \<Rightarrow> risk_state \<times> risk_state \<Rightarrow>
    intent_action + string \<Rightarrow> rat \<Rightarrow> 't :: linorder reserve_args \<Rightarrow> (('t, 'd) coordinator, 't emergency_approval) py" where
  \<comment> \<open>the arguments carry account, symbol, side and quantities; the exchange is the default of
    \<open>reserve_reduce\<close>\<close>
  "emergency_approve p clock states action requested args =
     py_bind (py_of (hedge_action action)) (\<lambda>act.
     if act \<notin> {REDUCE, CLOSE} then emergency_denied [''EMERGENCY_INCREASE_FORBIDDEN''] else
     if \<not> allows (fst states) act True then emergency_denied [''RISK_STATE_FORBIDS_ACTION''] else
     py_bind (py_try (reserve_checked (emergency_check p clock (snd states) act)
       (args\<lparr>ra_requested := DFin requested, ra_exchange := ''binance''\<rparr>))) (\<lambda>out. case out of
       Inl e \<Rightarrow> (case lock_denial e [''RISK_STATE_FORBIDS_ACTION''] of
           Some codes \<Rightarrow> emergency_denied codes | None \<Rightarrow> py_raise e)
     | Inr (v, lease) \<Rightarrow>
         if rv_allowed v \<le> 0 then py_then (on_reduce (reservation_release v)) (emergency_denied [rv_reason v]) else
         (case lease of
           None \<Rightarrow> py_then (on_reduce (reservation_release v)) (emergency_denied [''SINGLE_WRITER_LEASE_INVALID''])
         | Some le \<Rightarrow> py_of (mk_emergency \<lparr>ea_allowed = True, ea_quantity = min requested (rv_allowed v),
             ea_reasons = [''EMERGENCY_REDUCE_ONLY'', rv_reason v], ea_reservation = Some v,
             ea_fencing_token = Some (le_token le), ea_lease_expires = Some (le_expires_at le)\<rparr>))))"

end
