(* ===== verification/Risk_Approval_Facts.thy ===== *)
theory Risk_Approval_Facts
  imports Risk_Approval Risk_Properties
begin

text \<open>
  What the operations of the approval coordinator do: the lemmas behind the properties of
  \<open>Risk_Approval_Properties\<close>.
\<close>

section \<open>Results\<close>

lemma py_bind_Inr: "py_bind m f s = (Inr x, t) \<longleftrightarrow> (\<exists>y u. m s = (Inr y, u) \<and> f y u = (Inr x, t))"
  by (auto simp: py_bind_def split: prod.splits sum.splits)

lemma py_then_Inr: "py_then m n s = (Inr x, t) \<longleftrightarrow> (\<exists>y u. m s = (Inr y, u) \<and> n u = (Inr x, t))"
  by (simp add: py_then_def py_bind_Inr)

lemma py_try_Inr: "py_try m s = (Inr x, t) \<longleftrightarrow> m s = (x, t)"
  by (auto simp: py_try_def split: prod.splits)

lemma mk_approval_Inr:
  assumes "mk_approval a = Inr b"
  shows "ua_allowed b = ua_allowed a" and "ua_quantity b = ua_quantity a" and "ua_notional b = ua_notional a"
    and "ua_reservation b = ua_reservation a" and "am_fencing_token (ua_meta b) = am_fencing_token (ua_meta a)"
    and "am_lease_expires (ua_meta b) = am_lease_expires (ua_meta a)"
    and "ua_allowed a \<Longrightarrow> 0 < ua_quantity a \<and> 0 < ua_notional a"
    and "\<not> ua_allowed a \<Longrightarrow> ua_reservation a = None"
  using assms by (auto simp: mk_approval_def mk_meta_def Let_def res_splits value_error_def split: if_splits)

lemma denied_Inr:
  assumes "denied codes s = (Inr x, t)"
  shows "\<not> ua_allowed x" and "ua_reservation x = None" and "t = s"
proof -
  have d: "mk_approval \<lparr>ua_allowed = False, ua_quantity = 0, ua_notional = 0,
      ua_reasons = or_codes (dict_fromkeys codes) [''RISK_APPROVAL_DENIED''], ua_reservation = None, ua_meta = no_meta\<rparr> = Inr x"
    and "t = s" using assms by (auto simp: denied_def deny_def)
  then show "\<not> ua_allowed x" "ua_reservation x = None" "t = s" using mk_approval_Inr(1,4) [OF d] by simp_all
qed

lemma denied_state [simp]: "snd (denied codes s) = s"
  by (simp add: denied_def)

lemma approval_of_Inr:
  assumes "approval_of env r codes quantity notional lease sid moment token reduce expires = Inr x"
  shows "ua_allowed x" and "ua_quantity x = quantity" and "ua_notional x = notional" and "0 < quantity" and "0 < notional"
    and "am_fencing_token (ua_meta x) = Some (le_token lease)"
    and "am_lease_expires (ua_meta x) = Some (le_expires_at lease)"
    and "\<exists>v. ua_reservation x = Some v \<and> vr_token v = token \<and> vr_reduce v = reduce \<and> vr_expires_at_ms v = expires
      \<and> \<not> vr_released v \<and> \<not> vr_committed v \<and> \<not> vr_accepted v \<and> vr_record v = None
      \<and> vr_quantity v = quantity \<and> vr_notional v = notional \<and> vr_fencing_token v = le_token lease"
  using mk_approval_Inr [OF assms [unfolded approval_of_def]] by simp_all

section \<open>The lease\<close>

definition read_lease :: "'d lease_port \<Rightarrow> int res \<Rightarrow> 'd \<times> writer_guard \<Rightarrow> lease_record \<Rightarrow> bool" where
  \<comment> \<open>the store answered this lease, it is this guard's own, and it is valid at the clock's time\<close>
  "read_lease p clock w lease \<longleftrightarrow> (\<exists>now d g d' mine. w = (d, g) \<and> now_ms clock = Inr now \<and> wg_lease g = Some mine
     \<and> \<not> wg_lost g \<and> lp_read p (wg_lease_name g) d = (Inr (Some lease), d')
     \<and> le_owner lease = le_owner mine \<and> le_token lease = le_token mine \<and> lease_valid now lease = Inr True)"

lemma assert_valid_lease:
  assumes "sw_assert_valid p clock w = (Inr lease, w')"
  shows "read_lease p clock w lease"
proof -
  obtain d g where w: "w = (d, g)" by fastforce
  have g: "wg_lease g \<noteq> None" "\<not> wg_lost g"
    using assms by (auto simp: w sw_assert_valid_def sw_status_def invalid_status_def split: if_splits option.splits)
  obtain now where now: "now_ms clock = Inr now"
    using assms g by (cases "now_ms clock") (auto simp: w sw_assert_valid_def sw_status_def mark_lost_def)
  obtain c d' where c: "lp_read p (wg_lease_name g) d = (Inr c, d')"
    using assms g now
    by (cases "lp_read p (wg_lease_name g) d"; cases "fst (lp_read p (wg_lease_name g) d)")
      (auto simp: w sw_assert_valid_def sw_status_def mark_lost_def)
  have h: "still_held now (the (wg_lease g)) c" and "c = Some lease"
    using assms g now c by (auto simp: w sw_assert_valid_def sw_status_def mark_lost_def split: if_splits option.splits)
  then show ?thesis using g now c by (auto simp: read_lease_def w still_held_def)
qed

lemma writer_check_lease: "writer_check p clock w = (Inr (Some lease), w') \<Longrightarrow> read_lease p clock w lease"
  by (auto simp: writer_check_def split: prod.splits sum.splits if_splits intro: assert_valid_lease)

lemma on_writer_Inr: "on_writer m s = (Inr x, t) \<longleftrightarrow> (\<exists>w. m (co_writer s) = (Inr x, w) \<and> t = s\<lparr>co_writer := w\<rparr>)"
  by (auto simp: on_writer_def split: prod.splits)

lemma prune_increases_Inr: "prune_increases now s = (Inr n, t) \<longleftrightarrow>
    n = length (co_increase s) - length (filter (\<lambda>(token, i). \<not> ir_expires_at_ms i \<le> now) (co_increase s)) \<and>
    t = s\<lparr>co_increase := filter (\<lambda>(token, i). \<not> ir_expires_at_ms i \<le> now) (co_increase s)\<rparr>"
  by (auto simp: prune_increases_def Let_def)

section \<open>Increases\<close>

definition live :: "int \<Rightarrow> (string, increase_record) dict \<Rightarrow> (string, increase_record) dict" where
  \<comment> \<open>the reservations that have not expired\<close>
  "live now d = filter (\<lambda>(token, i). \<not> ir_expires_at_ms i \<le> now) d"

definition increase_entry :: "int \<Rightarrow> int \<Rightarrow> request \<Rightarrow> rat \<Rightarrow> increase_record" where
  \<comment> \<open>what is reserved for an approved notional\<close>
  "increase_entry ttl created r notional = \<lparr>ir_account_id = rq_account_id r, ir_symbol = rq_symbol r,
     ir_side = rq_side r, ir_notional = notional, ir_initial_margin = dec_div notional (rq_leverage r),
     ir_maintenance_margin = dec_mul notional (rq_rate r), ir_net_delta = dec_mul (side_sign (rq_side r)) notional,
     ir_created_at_ms = created, ir_expires_at_ms = created + ttl\<rparr>"

lemma reserve_increase_Inr:
  assumes "reserve_increase ttl env r a decision quantity notional lease s = (Inr x, t)"
  shows "\<exists>created. approval_now (ae_created_at env) = Inr created
    \<and> t = s\<lparr>co_increase := dict_put (uuid_hex (ae_token_uid env)) (increase_entry ttl created r notional) (co_increase s)\<rparr>
    \<and> ua_allowed x \<and> ua_quantity x = quantity \<and> 0 < quantity \<and> ua_notional x = notional
    \<and> am_fencing_token (ua_meta x) = Some (le_token lease)
    \<and> (\<exists>v. ua_reservation x = Some v \<and> vr_token v = Some (uuid_hex (ae_token_uid env)) \<and> vr_reduce v = None
      \<and> \<not> vr_released v \<and> vr_notional v = notional)"
  using assms approval_of_Inr
  by (fastforce simp: reserve_increase_def py_bind_Inr py_then_Inr increase_entry_def)

definition denial :: "'t approval \<Rightarrow> bool" where
  "denial x \<longleftrightarrow> \<not> ua_allowed x \<and> ua_reservation x = None"

lemma denied_denial: "denied codes s = (Inr x, t) \<Longrightarrow> denial x \<and> t = s"
  using denied_Inr [of codes s x t] by (simp add: denial_def)

lemma gate_then_Inr:
  assumes "gate_then reasons m s = (Inr x, t)"
  obtains (No) "denial x" "t = s" | (Yes) "reasons = Inr []" "m s = (Inr x, t)"
  using assms by (auto simp: gate_then_def py_bind_Inr split: if_splits dest: denied_denial)

lemma with_writer_Inr:
  assumes "with_writer p clock f s = (Inr x, t)"
  obtains (No) w where "denial x" "t = s\<lparr>co_writer := w\<rparr>"
    | (Yes) lease w where "writer_check p clock (co_writer s) = (Inr (Some lease), w)" "f lease (s\<lparr>co_writer := w\<rparr>) = (Inr x, t)"
  using assms denied_denial by (fastforce simp: with_writer_def py_bind_Inr on_writer_Inr split: option.splits)

lemma increase_reasons_none:
  assumes "increase_reasons g r = Inr []"
  shows "\<exists>k. request_key r = Inr k \<and> allows_new_risk (gr_gate g) (Some k) \<and> allows (gr_state g) (rq_action r) False"
  using assms by (auto simp: increase_reasons_def res_splits split: if_splits)

lemma approve_increase_cases:
  assumes "approve_increase l p ttl env r a s = (Inr x, t)"
  obtains (Denied) now where "denial x" "co_reduce t = co_reduce s" "co_increase t \<in> {co_increase s, live now (co_increase s)}"
    | (Allowed) now w decision lease w' created where
      "approval_now (ae_locked_now env) = Inr now"
      "decided l r (live now (co_increase s)) a = Inr decision" "rd_allowed decision"
      "increase_reasons (snd (snd (ae_gates env))) r = Inr []"
      "writer_check p (snd (snd (ae_writer_clocks env))) w = (Inr (Some lease), w')"
      "am_fencing_token (ua_meta x) = Some (le_token lease)"
      "ua_allowed x" "0 < ua_quantity x" "ua_quantity x = min (rq_quantity r) (rd_quantity decision)"
      "ua_notional x = min (min (requested_notional r) (rd_notional decision)) (dec_mul (ua_quantity x) (rq_price r))"
      "co_increase t = dict_put (uuid_hex (ae_token_uid env)) (increase_entry ttl created r (ua_notional x))
         (live now (co_increase s))"
      "co_reduce t = co_reduce s"
      "\<exists>v. ua_reservation x = Some v \<and> vr_token v = Some (uuid_hex (ae_token_uid env)) \<and> vr_reduce v = None
         \<and> \<not> vr_released v \<and> vr_notional v = ua_notional x"
proof -
  obtain g1 g2 g3 where g: "ae_gates env = (g1, g2, g3)" by (metis prod_cases3)
  obtain c1 c2 c3 where c: "ae_writer_clocks env = (c1, c2, c3)" by (metis prod_cases3)
  note defs = approve_increase_def g c case_prod_conv
  from assms [unfolded defs] show ?thesis
  proof (cases rule: gate_then_Inr)
    case No
    then show ?thesis by (intro Denied [of 0]) auto
  next
    case Yes
    then obtain now where now: "approval_now (ae_locked_now env) = Inr now"
      by (auto simp: py_bind_Inr)
    let ?d = "live now (co_increase s)"
    let ?s = "s\<lparr>co_increase := ?d\<rparr>"
    from Yes(2) now have "gate_then (increase_reasons g2 r) (
       with_writer p c2 (\<lambda>_.
       py_bind (py_get co_increase) (\<lambda>d.
       py_bind (py_of (decided l r d a)) (\<lambda>decision.
       let quantity = min (rq_quantity r) (rd_quantity decision);
           notional = min (min (requested_notional r) (rd_notional decision)) (dec_mul quantity (rq_price r)) in
       if \<not> rd_allowed decision \<or> quantity \<le> 0 \<or> notional \<le> 0 then denied (rd_reasons decision) else
       gate_then (increase_reasons g3 r) (
       with_writer p c3 (reserve_increase ttl env r a decision quantity notional)))))) ?s = (Inr x, t)"
      by (simp add: py_then_Inr prune_increases_Inr live_def)
    then show ?thesis
    proof (cases rule: gate_then_Inr)
      case No
      then show ?thesis by (intro Denied [of now]) auto
    next
      case Yes
      from Yes(2) show ?thesis
      proof (cases rule: with_writer_Inr)
        case (No w)
        then show ?thesis by (intro Denied [of now]) auto
      next
        case (Yes lease2 w2)
        then obtain decision where d: "decided l r ?d a = Inr decision" by (auto simp: py_bind_Inr)
        let ?q = "min (rq_quantity r) (rd_quantity decision)"
        let ?n = "min (min (requested_notional r) (rd_notional decision)) (dec_mul ?q (rq_price r))"
        let ?u = "?s\<lparr>co_writer := w2\<rparr>"
        from Yes(2) d have rest: "(if \<not> rd_allowed decision \<or> ?q \<le> 0 \<or> ?n \<le> 0 then denied (rd_reasons decision) else
            gate_then (increase_reasons g3 r) (with_writer p c3 (reserve_increase ttl env r a decision ?q ?n))) ?u = (Inr x, t)"
          by (simp add: Let_def)
        show ?thesis
        proof (cases "\<not> rd_allowed decision \<or> ?q \<le> 0 \<or> ?n \<le> 0")
          case True
          with rest have "denied (rd_reasons decision) ?u = (Inr x, t)" by auto
          from denied_denial [OF this] show ?thesis by (intro Denied [of now]) auto
        next
          case False
          with rest have "gate_then (increase_reasons g3 r) (with_writer p c3 (reserve_increase ttl env r a decision ?q ?n)) ?u = (Inr x, t)"
            by simp
          then show ?thesis
          proof (cases rule: gate_then_Inr)
            case No
            then show ?thesis by (intro Denied [of now]) auto
          next
            case gate: Yes
            from gate(2) show ?thesis
            proof (cases rule: with_writer_Inr)
              case (No w)
              then show ?thesis by (intro Denied [of now]) auto
            next
              case (Yes lease w3)
              from reserve_increase_Inr [OF Yes(2)] obtain created where
                "co_increase t = dict_put (uuid_hex (ae_token_uid env)) (increase_entry ttl created r ?n) ?d"
                "co_reduce t = co_reduce s" "ua_allowed x" "ua_quantity x = ?q" "0 < ?q" "ua_notional x = ?n"
                "am_fencing_token (ua_meta x) = Some (le_token lease)"
                "\<exists>v. ua_reservation x = Some v \<and> vr_token v = Some (uuid_hex (ae_token_uid env)) \<and> vr_reduce v = None
                   \<and> \<not> vr_released v \<and> vr_notional v = ?n"
                by auto
              then show ?thesis
                using now d False gate(1) Yes(1) by (intro Allowed [of now decision "co_writer ?u" lease w3 created]) (simp_all add: g c)
            qed
          qed
        qed
      qed
    qed
  qed
qed

section \<open>What the engine decides on\<close>

lemma mk_account_risk_fields:
  assumes "mk_account_risk v = Inr a"
  shows "ar_available_balance v = DFin (ar_available_balance a)" and "ar_pending_notional v = DFin (ar_pending_notional a)"
    and "ar_gross_long v = DFin (ar_gross_long a)" and "ar_gross_short v = DFin (ar_gross_short a)"
    and "ar_pending_initial_margin v = DFin (ar_pending_initial_margin a)"
  using assms by (auto simp: mk_account_risk_def res_splits if_config_Inr require_Inr simp del: if_Inl_eq_Inr)

lemma mk_risk_request_fields:
  assumes "mk_risk_request v = Inr r"
  shows "rq_quantity v = DFin (rq_quantity r)" and "rq_price v = DFin (rq_price r)"
    and "rq_leg_notional v = DFin (rq_leg_notional r)" and "rq_symbol_notional v = DFin (rq_symbol_notional r)"
    and "rq_pending_leg v = DFin (rq_pending_leg r)" and "rq_pending_symbol v = DFin (rq_pending_symbol r)"
    and "rq_leverage v = DFin (rq_leverage r)" and "rq_action v = Inl act \<Longrightarrow> rq_action r = act"
  using assms by (auto simp: mk_risk_request_def res_splits if_config_Inr require_Inr leverage_of_def simp del: if_Inl_eq_Inr)

definition counted :: "(increase_record \<Rightarrow> rat) \<Rightarrow> request \<Rightarrow> (string, increase_record) dict \<Rightarrow> rat" where
  \<comment> \<open>the local reservations of the request's account\<close>
  "counted f r d = reserved_sum f (\<lambda>i. ir_account_id i = rq_account_id r) d"

definition within_capacity :: "rat \<Rightarrow> rat \<Rightarrow> rat \<Rightarrow> bool" where
  \<comment> \<open>a quantity at a price costs at most \<open>c\<close>, up to one rounding\<close>
  "within_capacity q price c \<longleftrightarrow> q * price \<le> c + c / (2 * 10 ^ 27)"

lemma decided_increase:
  assumes "decided l r d a = Inr dec" and "rd_allowed dec" and "increases_risk (rq_action r)"
  obtains r' a' where "evaluate_increase l r' a' = Inr dec" "rq_price r' = rq_price r" "rq_quantity r' = rq_quantity r"
    "rq_leverage r' = rq_leverage r"
    "rq_leg_notional r' = rq_leg_notional r" "rq_symbol_notional r' = rq_symbol_notional r"
    "rq_pending_leg r' = dec_add (rq_pending_leg r) (reserved_sum ir_notional
       (\<lambda>i. ir_account_id i = rq_account_id r \<and> ir_symbol i = rq_symbol r \<and> ir_side i = rq_side r) d)"
    "rq_pending_symbol r' = dec_add (rq_pending_symbol r) (reserved_sum ir_notional
       (\<lambda>i. ir_account_id i = rq_account_id r \<and> ir_symbol i = rq_symbol r) d)"
    "ar_available_balance a' = max (dec_sub (ar_available_balance a) (counted ir_initial_margin r d)) 0"
    "ar_pending_notional a' = dec_add (ar_pending_notional a) (counted ir_notional r d)"
    "gross_total_notional a' = gross_total_notional a"
proof -
  obtain a' r' where ar: "account_with_pending r d a = Inr a'" "request_with_pending r d = Inr r'"
    and e: "evaluate_request l r' a' = Inr dec"
    using assms(1) by (auto simp: decided_def res_splits)
  note fa = mk_account_risk_fields [OF ar(1) [unfolded account_with_pending_def Let_def]]
  note fr = mk_risk_request_fields [OF ar(2) [unfolded request_with_pending_def]]
  have act: "rq_action r' = rq_action r" by (rule fr(8)) (simp add: request_again_def)
  have "evaluate_increase l r' a' = Inr dec"
    using evaluate_request_increase(2) [OF e assms(2)] assms(3) act by simp
  then show ?thesis
    by (rule that) (use fa fr in \<open>simp_all add: request_again_def account_again_def counted_def gross_total_notional_def\<close>)
qed

lemma approval_capacity:
  assumes "evaluate_increase l r' a' = Inr dec" and "rd_allowed dec"
    and "f \<in> set (margin_steps l r' a' @ exposure_steps l r' a' @ net_steps l r' a')" and "caps f c"
    and "q \<le> rd_quantity dec"
  shows "within_capacity q (rq_price r') c"
proof -
  have "0 < rq_price r'" using evaluate_increase_Inr [OF assms(1,2)] by metis
  then have "q * rq_price r' \<le> rd_quantity dec * rq_price r'" using assms(5) by (intro mult_right_mono) simp_all
  then show ?thesis using allowed_fits [OF assms(1-4)] by (simp add: fits_def within_capacity_def)
qed

section \<open>Reductions\<close>

lemma reduce_reasons_none:
  assumes "reduce_reasons g r = Inr []"
  shows "\<exists>k. request_key r = Inr k \<and> allows_controlled_reduce (gr_gate g) (Some k)"
  using assms by (auto simp: reduce_reasons_def res_splits split: if_splits)

definition reduce_key :: "request \<Rightarrow> lock_key res" where
  "reduce_key r = mk_position_lock (rq_account_id r) (rq_symbol r) (Inl (rq_side r)) (rq_exchange r)"

text \<open>A reservation that the lock manager returned, and what it added.\<close>

lemma reserve_reduce_Inr:
  assumes "reserve_reduce args rs = (Inr v, rs')"
  shows "\<exists>key ex. mk_position_lock (ra_account_id args) (ra_symbol args) (ra_side args) (ra_exchange args) = Inr key
    \<and> rv_key v = key \<and> ra_lock args = Inr () \<and> ra_check args = Inr () \<and> \<not> rv_released v
    \<and> ra_existing args = DFin ex
    \<and> (\<exists>s. calculate_safe_reduce (ra_requested args) (ra_confirmed args)
        (DFin (dec_add ex (dec_sum (quantities key (snd (prune_expired (fst (ra_clock args)) rs)))))) = Inr s
      \<and> rv_allowed v = sr_allowed s)
    \<and> (if rv_allowed v > 0
       then rv_token v = Some (uuid_hex (ra_uid args)) \<and> (let ts = snd (prune_expired (snd (snd (ra_clock args)))
         (snd (prune_expired (fst (ra_clock args)) rs))) in
         rs' = dict_put key (dict_put (uuid_hex (ra_uid args)) \<lparr>rr_quantity = rv_allowed v,
           rr_expires = ra_plus_ttl args (fst (snd (ra_clock args)))\<rparr> (of_key key ts)) ts)
       else rv_token v = None \<and> rs' = snd (prune_expired (fst (ra_clock args)) rs))"
  using assms
  by (auto simp: reserve_reduce_def py_bind_Inr pending_eq prune_then mod_then Let_def require_Inr split: if_splits)

section \<open>Reservations as a set\<close>

definition entries :: "'t reservations \<Rightarrow> (lock_key \<times> string \<times> 't reservation_record) set" where
  "entries rs = {(key, token, q). \<exists>d. (key, d) \<in> set rs \<and> (token, q) \<in> set d}"

lemma put_set_cases: "(k, e) \<in> set (dict_put key d rs) \<Longrightarrow> (k, e) \<in> set rs \<or> k = key \<and> e = d"
  by (induction rs) (auto split: if_splits)

lemma of_key_in: "(token, q) \<in> set (of_key key rs) \<Longrightarrow> (key, token, q) \<in> entries rs"
  using of_key_set [of key rs] by (auto simp: entries_def)

lemma entries_prune: "entries (snd (prune_expired now rs)) \<subseteq> entries rs"
  by (auto simp: entries_def prune_expired_def unexpired_def)

lemma entries_put: "entries (dict_put key d rs) \<subseteq> entries rs \<union> {(key, token, q) | token q. (token, q) \<in> set d}"
  using put_set_cases by (fastforce simp: entries_def)

lemma distinct_prune: "distinct (map fst rs) \<Longrightarrow> distinct (map fst (snd (prune_expired now rs)))"
  by (simp add: prune_expired_def distinct_map_filter case_prod_unfold comp_def)

lemma entries_release:
  assumes "distinct (map fst rs)"
  shows "entries (snd (release_reservation key token rs)) \<subseteq> {e \<in> entries rs. fst e \<noteq> key \<or> fst (snd e) \<noteq> token}"
    and "distinct (map fst (snd (release_reservation key token rs)))"
proof -
  show "distinct (map fst (snd (release_reservation key token rs)))"
    using assms by (auto simp: release_reservation_def Let_def distinct_update distinct_delete split: option.split)
  show "entries (snd (release_reservation key token rs)) \<subseteq> {e \<in> entries rs. fst e \<noteq> key \<or> fst (snd e) \<noteq> token}"
  proof (cases "dict_get rs key")
    case None
    then have "\<forall>d. (key, d) \<notin> set rs" by (auto simp: map_of_eq_None_iff image_iff)
    then show ?thesis using None by (auto simp: release_reservation_def entries_def)
  next
    case (Some d)
    have only: "e = d" if "(key, e) \<in> set rs" for e using map_of_is_SomeI [OF assms that] Some by simp
    have d: "(key, d) \<in> set rs" using Some by (rule map_of_SomeD)
    let ?d = "dict_del token d"
    have sub: "\<forall>(t, q) \<in> set ?d. t \<noteq> token \<and> (t, q) \<in> set d" by (auto simp: delete_is_filter)
    show ?thesis
    proof (cases "?d = []")
      case True
      then show ?thesis
        using Some by (auto simp: release_reservation_def entries_def delete_is_filter)
    next
      case False
      have "snd (release_reservation key token rs) = dict_put key ?d rs"
        using Some False by (simp add: release_reservation_def Let_def)
      moreover have "distinct (map fst (dict_put key ?d rs))" using assms by (rule distinct_put)
      moreover have "e = ?d" if "(key, e) \<in> set (dict_put key ?d rs)" for e
        using map_of_is_SomeI [OF calculation(2) that] by (simp add: dict_get_put)
      ultimately show ?thesis
        using put_set_cases [of _ _ key ?d rs] sub d by (fastforce simp: entries_def)
    qed
  qed
qed

text \<open>The tokens that an approval holds, and a state that has nothing new but tokens of a given set.\<close>

definition reservation_tokens :: "'t risk_reservation \<Rightarrow> (lock_key option \<times> string) set" where
  "reservation_tokens v = {(None, token) | token. vr_token v = Some token} \<union>
     {(Some (rv_key w), token) | w token. vr_reduce v = Some w \<and> rv_token w = Some token}"

definition approval_tokens :: "'t approval \<Rightarrow> (lock_key option \<times> string) set" where
  "approval_tokens x = (case ua_reservation x of None \<Rightarrow> {} | Some v \<Rightarrow> reservation_tokens v)"

definition unreleased :: "'t approval \<Rightarrow> bool" where
  "unreleased x \<longleftrightarrow> (\<forall>v. ua_reservation x = Some v \<longrightarrow> \<not> vr_released v \<and> (\<forall>w. vr_reduce v = Some w \<longrightarrow> \<not> rv_released w))"

definition only_new :: "('t, 'd) coordinator \<Rightarrow> (lock_key option \<times> string) set \<Rightarrow> ('t, 'd) coordinator \<Rightarrow> bool" where
  "only_new s0 T s \<longleftrightarrow> distinct (map fst (co_reduce s)) \<and>
     (\<forall>token i. (token, i) \<in> set (co_increase s) \<longrightarrow> (token, i) \<in> set (co_increase s0) \<or> (None, token) \<in> T) \<and>
     (\<forall>key token q. (key, token, q) \<in> entries (co_reduce s) \<longrightarrow>
        (key, token, q) \<in> entries (co_reduce s0) \<or> (Some key, token) \<in> T)"

lemma only_new_sub:
  assumes "only_new s0 T s" and "set (co_increase t) \<subseteq> set (co_increase s)"
    and "entries (co_reduce t) \<subseteq> entries (co_reduce s)" and "distinct (map fst (co_reduce t))"
  shows "only_new s0 T t"
  using assms unfolding only_new_def by blast

lemma only_new_mono: "only_new s0 T s \<Longrightarrow> T \<subseteq> U \<Longrightarrow> only_new s0 U s"
  unfolding only_new_def by blast

lemma live_sub: "set (live now d) \<subseteq> set d"
  by (auto simp: live_def)

lemma increase_only_new:
  assumes "approve_increase l p ttl env r a s = (Inr x, t)" and "only_new s0 T s"
  shows "only_new s0 (T \<union> approval_tokens x) t \<and> unreleased x \<and> (\<not> ua_allowed x \<longrightarrow> approval_tokens x = {})"
  using assms(1)
proof (cases rule: approve_increase_cases)
  case (Denied now)
  have "only_new s0 T t"
    by (rule only_new_sub [OF assms(2)]) (use Denied assms(2) in \<open>auto simp: only_new_def live_def\<close>)
  then show ?thesis using Denied(1) by (simp add: denial_def approval_tokens_def unreleased_def)
next
  case (Allowed now w decision lease w' created)
  then obtain v where v: "ua_reservation x = Some v" "vr_token v = Some (uuid_hex (ae_token_uid env))" "vr_reduce v = None"
    "\<not> vr_released v" by blast
  let ?e = "increase_entry ttl created r (ua_notional x)"
  have "approval_tokens x = {(None, uuid_hex (ae_token_uid env))}"
    using v by (auto simp: approval_tokens_def reservation_tokens_def)
  moreover have "(token, i) \<in> set (co_increase s) \<or> token = uuid_hex (ae_token_uid env)"
    if "(token, i) \<in> set (co_increase t)" for token i
    using put_set_cases [of token i _ ?e] that live_sub unfolding Allowed(11) by blast
  ultimately show ?thesis
    using assms(2) v Allowed(7,12) by (fastforce simp: only_new_def unreleased_def)
qed

lemma reserve_checked_Inr:
  assumes "reserve_checked check args s = (Inr (v, y), t)"
  shows "\<exists>w rs'. reserve_reduce (args\<lparr>ra_check := Inr ()\<rparr>) (co_reduce s) = (Inr v, rs')
    \<and> co_increase t = co_increase s \<and> co_reduce t = rs'
    \<and> (\<exists>z. check (co_writer s) = (Inr z, w) \<and> y = Some z)"
proof -
  obtain res w where c: "(if lock_taken args then (case check (co_writer s) of (r, w) \<Rightarrow> (Some r, w)) else (None, co_writer s)) = (res, w)"
    by (metis surj_pair)
  obtain rv rs' where r: "reserve_reduce (args\<lparr>ra_check := (case res of Some (Inl e) \<Rightarrow> Inl e | _ \<Rightarrow> Inr ())\<rparr>) (co_reduce s) = (rv, rs')"
    by fastforce
  have rv: "rv = Inr v" and y: "y = (case res of Some (Inr x) \<Rightarrow> Some x | _ \<Rightarrow> None)"
    and t: "t = s\<lparr>co_reduce := rs', co_writer := w\<rparr>"
    using assms unfolding reserve_checked_def c case_prod_conv r by (auto split: sum.splits)
  from reserve_reduce_Inr [OF r [unfolded rv]] have lock: "lock_taken args"
    and nerr: "(case res of Some (Inl e) \<Rightarrow> Inl e | _ \<Rightarrow> Inr ()) = (Inr () :: unit res)"
    by (auto simp: lock_taken_def)
  then obtain z where "check (co_writer s) = (Inr z, w)" "res = Some (Inr z)"
    using c by (cases "check (co_writer s)"; cases "fst (check (co_writer s))") auto
  then show ?thesis using r rv y t by auto
qed

lemma reserve_only_new:
  assumes "reserve_reduce args (co_reduce s) = (Inr v, rs')" and "only_new s0 T s"
    and "co_increase t = co_increase s" and "co_reduce t = rs'"
  shows "only_new s0 (T \<union> {(Some (rv_key v), token) | token. rv_token v = Some token}) t"
proof -
  let ?t1 = "snd (prune_expired (fst (ra_clock args)) (co_reduce s))"
  let ?t2 = "snd (prune_expired (snd (snd (ra_clock args))) ?t1)"
  have d: "distinct (map fst (co_reduce s))" using assms(2) by (simp add: only_new_def)
  have d1: "distinct (map fst ?t1)" by (rule distinct_prune [OF d])
  have d2: "distinct (map fst ?t2)" by (rule distinct_prune [OF d1])
  have e1: "entries ?t1 \<subseteq> entries (co_reduce s)" by (rule entries_prune)
  have e2: "entries ?t2 \<subseteq> entries (co_reduce s)" using entries_prune e1 by (rule subset_trans)
  from reserve_reduce_Inr [OF assms(1)] show ?thesis
  proof (cases "rv_allowed v > 0")
    case False
    then have "rs' = ?t1" using reserve_reduce_Inr [OF assms(1)] by auto
    then have "only_new s0 T t" by (intro only_new_sub [OF assms(2)]) (use assms(3,4) e1 d1 in auto)
    then show ?thesis by (rule only_new_mono) blast
  next
    case True
    then obtain q where rs: "rs' = dict_put (rv_key v) (dict_put (uuid_hex (ra_uid args)) q (of_key (rv_key v) ?t2)) ?t2"
      and tok: "rv_token v = Some (uuid_hex (ra_uid args))"
      using reserve_reduce_Inr [OF assms(1)] by (auto simp: Let_def)
    have "distinct (map fst rs')" unfolding rs by (rule distinct_put [OF d2])
    moreover have "(key, token, p) \<in> entries (co_reduce s) \<or> key = rv_key v \<and> token = uuid_hex (ra_uid args)"
      if in_rs: "(key, token, p) \<in> entries rs'" for key token p
    proof -
      have "(key, token, p) \<in> entries ?t2 \<or> key = rv_key v \<and>
          (token, p) \<in> set (dict_put (uuid_hex (ra_uid args)) q (of_key (rv_key v) ?t2))"
        using in_rs entries_put unfolding rs by blast
      then show ?thesis using put_set_cases [of token p] of_key_in [of token p "rv_key v" ?t2] e2 by blast
    qed
    ultimately show ?thesis using assms(2) by (simp add: only_new_def assms(3,4) tok) blast
  qed
qed

lemma release_only_new:
  assumes "only_new s0 T s" and "reservation_release v (co_reduce s) = (Inr v', rs')" and "\<not> rv_released v"
    and "co_increase t = co_increase s" and "co_reduce t = rs'"
  shows "only_new s0 (T - {(Some (rv_key v), token) | token. rv_token v = Some token}) t"
proof (cases "rv_token v")
  case None
  then have "rs' = co_reduce s" using assms(2) by (simp add: reservation_release_def)
  then show ?thesis using assms(1,4,5) None by (simp add: only_new_def)
next
  case (Some token)
  then have rs: "rs' = snd (release_reservation (rv_key v) token (co_reduce s))"
    using assms(2,3) by (auto simp: reservation_release_def py_then_Inr)
  have d: "distinct (map fst (co_reduce s))" using assms(1) by (simp add: only_new_def)
  note e = entries_release [OF d, of "rv_key v" token, folded rs]
  show ?thesis
    unfolding only_new_def
  proof (intro conjI allI impI)
    show "distinct (map fst (co_reduce t))" using e(2) assms(5) by simp
    show "(tok, i) \<in> set (co_increase s0) \<or> (None, tok) \<in> T - {(Some (rv_key v), token) |token. rv_token v = Some token}"
      if "(tok, i) \<in> set (co_increase t)" for tok i
      using that assms(1,4) by (auto simp: only_new_def)
    show "(key, tok, q) \<in> entries (co_reduce s0) \<or>
        (Some key, tok) \<in> T - {(Some (rv_key v), token) |token. rv_token v = Some token}"
      if "(key, tok, q) \<in> entries (co_reduce t)" for key tok q
    proof -
      have "(key, tok, q) \<in> entries (co_reduce s)" "key \<noteq> rv_key v \<or> tok \<noteq> token"
        using that e(1) assms(5) by auto
      then show ?thesis using assms(1) Some unfolding only_new_def by auto
    qed
  qed
qed

lemma on_reduce_Inr: "on_reduce m s = (Inr x, t) \<longleftrightarrow> (\<exists>d. m (co_reduce s) = (Inr x, d) \<and> t = s\<lparr>co_reduce := d\<rparr>)"
  by (auto simp: on_reduce_def split: prod.splits)

lemma inside_check_Inr:
  assumes "inside_check p clock g r w = (Inr lease, w')"
  shows "reduce_reasons g r = Inr []" and "read_lease p clock w lease"
  using assms by (auto simp: inside_check_def py_bind_Inr intro: assert_valid_lease split: if_splits)

lemma reserve_checked_Inl:
  assumes "reserve_checked check args s = (Inl e, t)" and "only_new s0 T s"
  shows "only_new s0 T t"
proof -
  obtain res w where c: "(if lock_taken args then (case check (co_writer s) of (r, w) \<Rightarrow> (Some r, w)) else (None, co_writer s)) = (res, w)"
    by (metis surj_pair)
  let ?args = "args\<lparr>ra_check := (case res of Some (Inl e) \<Rightarrow> Inl e | _ \<Rightarrow> Inr ())\<rparr>"
  obtain rv rs' where r: "reserve_reduce ?args (co_reduce s) = (rv, rs')" by fastforce
  have rv: "rv = Inl e" and t: "t = s\<lparr>co_reduce := rs', co_writer := w\<rparr>"
    using assms(1) unfolding reserve_checked_def c case_prod_conv r by (auto split: sum.splits)
  have "rs' = co_reduce s \<or> rs' = snd (prune_expired (fst (ra_clock ?args)) (co_reduce s))"
    using r [unfolded rv] by (auto simp: reserve_reduce_def py_bind_eq pending_eq prune_then mod_then Let_def
        split: prod.splits sum.splits if_splits)
  then show ?thesis
    using assms(2) entries_prune distinct_prune t by (intro only_new_sub [OF assms(2)]) (auto simp: only_new_def)
qed

lemma approve_reduce_cases:
  assumes "approve_reduce p env r a s = (Inr x, t)"
  obtains (Denied) "denial x" "\<And>s0 T. only_new s0 T s \<Longrightarrow> only_new s0 T t"
    | (Allowed) confirmed v lease w where "rq_confirmed r = Some confirmed"
      "reduce_reasons (fst (snd (ae_gates env))) r = Inr []"
      "read_lease p (fst (snd (ae_writer_clocks env))) w lease"
      "reserve_reduce (reduce_args env r confirmed) (co_reduce s) = (Inr v, co_reduce t)" "co_increase t = co_increase s"
      "ua_allowed x" "ua_quantity x = min (rq_quantity r) (rv_allowed v)" "0 < ua_quantity x"
      "am_fencing_token (ua_meta x) = Some (le_token lease)"
      "\<exists>u. ua_reservation x = Some u \<and> vr_token u = None \<and> vr_reduce u = Some v \<and> \<not> vr_released u"
      "\<And>s0 T. only_new s0 T s \<Longrightarrow> only_new s0 (T \<union> approval_tokens x) t" "\<not> rv_released v"
proof -
  obtain g1 g2 g3 where g: "ae_gates env = (g1, g2, g3)" by (metis prod_cases3)
  obtain c1 c2 c3 where c: "ae_writer_clocks env = (c1, c2, c3)" by (metis prod_cases3)
  from assms(1) [unfolded approve_reduce_def g c case_prod_conv] show ?thesis
  proof (cases rule: gate_then_Inr)
    case No
    then show ?thesis using Denied by simp
  next
    case Yes
    show ?thesis
    proof (cases "rq_confirmed r")
      case None
      then show ?thesis using Yes(2) Denied by (auto dest: denied_denial)
    next
      case (Some confirmed)
      obtain res u where res: "reserve_checked (inside_check p c2 g2 r) (reduce_args env r confirmed) s = (res, u)" by fastforce
      note rest = Yes(2) [unfolded Some option.case py_bind_Inr py_try_Inr res]
      show ?thesis
      proof (cases res)
        case (Inl e)
        have on: "only_new s0 T u" if "only_new s0 T s" for s0 T
          using reserve_checked_Inl [OF res [unfolded Inl] that] .
        have "denial x \<and> t = u" using rest by (auto simp: Inl split: option.splits dest: denied_denial)
        then show ?thesis using on by (intro Denied) auto
      next
        case (Inr vy)
        obtain v y where vy: "vy = (v, y)" by fastforce
        from reserve_checked_Inr [OF res [unfolded Inr vy]] obtain w rs' z where
          k: "reserve_reduce ((reduce_args env r confirmed)\<lparr>ra_check := Inr ()\<rparr>) (co_reduce s) = (Inr v, rs')"
          "co_increase u = co_increase s" "co_reduce u = rs'" "inside_check p c2 g2 r (co_writer s) = (Inr z, w)" "y = Some z"
          by blast
        have same: "(reduce_args env r confirmed)\<lparr>ra_check := Inr ()\<rparr> = reduce_args env r confirmed"
          by (simp add: reduce_args_def)
        have on: "only_new s0 (T \<union> {(Some (rv_key v), token) | token. rv_token v = Some token}) u" if "only_new s0 T s" for s0 T
          using reserve_only_new [OF k(1) that k(2,3)] .
        have live: "\<not> rv_released v" using reserve_reduce_Inr [OF k(1)] by auto
        let ?q = "min (rq_quantity r) (rv_allowed v)"
        show ?thesis
        proof (cases "?q \<le> 0")
          case True
          then obtain v' u' where rel: "on_reduce (reservation_release v) u = (Inr v', u')" and d: "denied [rv_reason v] u' = (Inr x, t)"
            using rest by (auto simp: Inr vy py_then_Inr Let_def)
          from rel obtain d' where d': "reservation_release v (co_reduce u) = (Inr v', d')" "u' = u\<lparr>co_reduce := d'\<rparr>"
            by (auto simp: on_reduce_Inr)
          have "only_new s0 T u'" if s: "only_new s0 T s" for s0 T
          proof -
            have "only_new s0 (T \<union> {(Some (rv_key v), token) | token. rv_token v = Some token}
                - {(Some (rv_key v), token) | token. rv_token v = Some token}) u'"
              by (rule release_only_new [OF on [OF s] d'(1) live]) (simp_all add: d'(2))
            then show ?thesis by (rule only_new_mono) blast
          qed
          then show ?thesis using denied_denial [OF d] by (intro Denied) auto
        next
          case False
          then have rest': "py_bind (py_of (approval_now (ae_evaluated_at env))) (\<lambda>moment.
              py_of (approval_of env r [''CONTROLLED_REDUCE_APPROVED'', rv_reason v] ?q
                (dec_mul ?q (rq_price r)) z (ar_snapshot_id a) moment None (Some v) None)) u = (Inr x, t)"
            using rest by (simp add: Inr vy k(5) Let_def)
          then obtain moment where ap: "approval_of env r [''CONTROLLED_REDUCE_APPROVED'', rv_reason v] ?q
                (dec_mul ?q (rq_price r)) z (ar_snapshot_id a) moment None (Some v) None = Inr x" and t: "t = u"
            by (auto simp: py_bind_Inr)
          note af = approval_of_Inr [OF ap]
          obtain h where h: "ua_reservation x = Some h" "vr_token h = None" "vr_reduce h = Some v" "\<not> vr_released h"
            using af(8) by blast
          have "approval_tokens x = {(Some (rv_key v), token) | token. rv_token v = Some token}"
            using h by (auto simp: approval_tokens_def reservation_tokens_def)
          then have "only_new s0 (T \<union> approval_tokens x) t" if "only_new s0 T s" for s0 T using on [OF that] t by simp
          then show ?thesis
            using Allowed [of confirmed "co_writer s" z v] Some inside_check_Inr [OF k(4)] k(1-3) same af h t live by (auto simp: g c)
        qed
      qed
    qed
  qed
qed

end
