(* ===== verification/Risk_Approval_Properties.thy ===== *)
theory Risk_Approval_Properties
  imports Risk_Approval_Facts
begin

text \<open>
  The properties of the approval coordinator: what an approval may be worth with everything already
  reserved counted, which gates it has passed and whose lease it carries, that a denied batch leaves
  nothing reserved, that a confirmed reservation is durable before its capacity is free, and where the
  emergency path and the release paths do not do what they are meant to.
\<close>

section \<open>Approvals\<close>

lemma approve_cases:
  assumes "approve l p ttl env r a s = (Inr x, t)"
  obtains (Denied) w where "denial x" "t = s\<lparr>co_writer := w\<rparr>"
    | (Reduce) w now where "reduces_risk (rq_action r)" "approve_reduce p env r a (s\<lparr>co_writer := w\<rparr>) = (Inr x, t)"
      "effective_risk_data_valid a" "approval_now (ae_now env) = Inr now" "\<forall>e. rq_expires_at_ms r = Some e \<longrightarrow> now < e"
    | (Increase) w now where "increases_risk (rq_action r)" "approve_increase l p ttl env r a (s\<lparr>co_writer := w\<rparr>) = (Inr x, t)"
      "effective_risk_data_valid a" "approval_now (ae_now env) = Inr now" "\<forall>e. rq_expires_at_ms r = Some e \<longrightarrow> now < e"
proof -
  have same: "s = s\<lparr>co_writer := co_writer s\<rparr>" by simp
  show ?thesis
  proof (cases "rq_account_id r \<noteq> ar_account_id a \<or> \<not> effective_risk_data_valid a")
    case True
    then obtain codes where "denied codes s = (Inr x, t)" using assms by (auto simp: approve_def split: if_splits)
    then show ?thesis using denied_denial Denied same by metis
  next
    case False
    then obtain now where now: "approval_now (ae_now env) = Inr now" and
      rest: "(if (case rq_expires_at_ms r of None \<Rightarrow> False | Some t \<Rightarrow> now \<ge> t) then denied [''RISK_INTENT_EXPIRED''] else
        with_writer p (fst (ae_writer_clocks env)) (\<lambda>_.
        if rq_action r \<in> {REDUCE, CLOSE} then approve_reduce p env r a
        else approve_increase l p ttl env r a)) s = (Inr x, t)"
      using assms by (auto simp: approve_def py_bind_Inr)
    show ?thesis
    proof (cases "case rq_expires_at_ms r of None \<Rightarrow> False | Some t \<Rightarrow> now \<ge> t")
      case True
      then have "denied [''RISK_INTENT_EXPIRED''] s = (Inr x, t)" using rest by simp
      then show ?thesis using denied_denial Denied same by metis
    next
      case ne: False
      then have e: "\<forall>e. rq_expires_at_ms r = Some e \<longrightarrow> now < e" by (auto simp: not_le)
      from rest ne have "with_writer p (fst (ae_writer_clocks env)) (\<lambda>_.
        if rq_action r \<in> {REDUCE, CLOSE} then approve_reduce p env r a
        else approve_increase l p ttl env r a) s = (Inr x, t)" by simp
      then show ?thesis
      proof (cases rule: with_writer_Inr)
        case (No w)
        then show ?thesis by (rule Denied)
      next
        case (Yes lease w)
        then show ?thesis
          using Reduce Increase now e False by (cases "rq_action r") (auto simp: reduces_risk_def)
      qed
    qed
  qed
qed

lemma approve_reduce_inv:
  assumes "approve_reduce p env r a s = (Inr x, t)" and "ua_allowed x"
  shows "\<exists>confirmed v lease w. rq_confirmed r = Some confirmed \<and>
    reduce_reasons (fst (snd (ae_gates env))) r = Inr [] \<and> read_lease p (fst (snd (ae_writer_clocks env))) w lease \<and>
    reserve_reduce (reduce_args env r confirmed) (co_reduce s) = (Inr v, co_reduce t) \<and>
    ua_quantity x = min (rq_quantity r) (rv_allowed v) \<and> 0 < ua_quantity x \<and>
    am_fencing_token (ua_meta x) = Some (le_token lease)"
  using assms(1)
proof (cases rule: approve_reduce_cases)
  case Denied
  then show ?thesis using assms(2) by (simp add: denial_def)
qed blast

lemma approve_only_new:
  assumes "approve l p ttl env r a s = (Inr x, t)" and "only_new s0 T s"
  shows "only_new s0 (T \<union> approval_tokens x) t \<and> unreleased x \<and> (\<not> ua_allowed x \<longrightarrow> approval_tokens x = {})"
  using assms(1)
proof (cases rule: approve_cases)
  case (Denied w)
  then show ?thesis using assms(2) by (simp add: denial_def approval_tokens_def unreleased_def only_new_def)
next
  case (Reduce w now)
  have on: "only_new s0 T (s\<lparr>co_writer := w\<rparr>)" using assms(2) by (simp add: only_new_def)
  from Reduce(2) show ?thesis
  proof (cases rule: approve_reduce_cases)
    case Denied
    then show ?thesis using on by (simp add: denial_def approval_tokens_def unreleased_def)
  next
    case (Allowed confirmed v lease w')
    then show ?thesis using on by (auto simp: unreleased_def)
  qed
next
  case (Increase w now)
  have "only_new s0 T (s\<lparr>co_writer := w\<rparr>)" using assms(2) by (simp add: only_new_def)
  then show ?thesis by (rule increase_only_new [OF Increase(2)])
qed

section \<open>Denied batches\<close>

lemma delete_only_new:
  assumes "only_new s0 T u"
  shows "only_new s0 (T - {(None, token)}) (u\<lparr>co_increase := dict_del token (co_increase u)\<rparr>)"
  using assms unfolding only_new_def by (fastforce simp: delete_is_filter)

lemma vr_release_only_new:
  assumes "vr_release v s = (Inr v', t)" and "only_new s0 T s" and "\<not> vr_released v"
    and "\<forall>w. vr_reduce v = Some w \<longrightarrow> \<not> rv_released w"
  shows "only_new s0 (T - reservation_tokens v) t"
proof -
  obtain rd u where u: "(case vr_reduce v of None \<Rightarrow> py_ret None
       | Some rv \<Rightarrow> py_bind (on_reduce (reservation_release rv)) (\<lambda>rv'. py_ret (Some rv'))) s = (Inr rd, u)"
    and rest: "py_then (case vr_token v of None \<Rightarrow> py_ret () | Some token \<Rightarrow> release_increase token)
      (py_ret (v\<lparr>vr_reduce := rd, vr_released := True\<rparr>)) u = (Inr v', t)"
    using assms(1,3) by (auto simp: vr_release_def py_bind_Inr)
  have "only_new s0 (T - {(Some (rv_key w), token) | w token. vr_reduce v = Some w \<and> rv_token w = Some token}) u"
  proof (cases "vr_reduce v")
    case None
    then show ?thesis using u assms(2) by simp
  next
    case (Some w)
    then obtain w' d where "reservation_release w (co_reduce s) = (Inr w', d)" "u = s\<lparr>co_reduce := d\<rparr>"
      using u by (auto simp: py_bind_Inr on_reduce_Inr)
    then have "only_new s0 (T - {(Some (rv_key w), token) | token. rv_token w = Some token}) u"
      using release_only_new [OF assms(2), of w w' d u] assms(4) Some by simp
    moreover have "{(Some (rv_key w), token) | w token. vr_reduce v = Some w \<and> rv_token w = Some token}
        = {(Some (rv_key w), token) | token. rv_token w = Some token}" using Some by auto
    ultimately show ?thesis by simp
  qed
  note reduced = this
  show ?thesis
  proof (cases "vr_token v")
    case None
    then have "t = u" using rest by (simp add: py_then_Inr)
    then show ?thesis using reduced None by (simp add: reservation_tokens_def)
  next
    case (Some token)
    then have t: "t = u\<lparr>co_increase := dict_del token (co_increase u)\<rparr>"
      using rest by (simp add: py_then_Inr release_increase_def)
    have "reservation_tokens v = {(Some (rv_key w), token) | w token. vr_reduce v = Some w \<and> rv_token w = Some token}
        \<union> {(None, token)}" using Some by (auto simp: reservation_tokens_def)
    with delete_only_new [OF reduced, of token] t show ?thesis by (auto elim: only_new_mono)
  qed
qed

definition batch_tokens :: "'t approval list \<Rightarrow> (lock_key option \<times> string) set" where
  "batch_tokens xs = (\<Union>x \<in> set xs. approval_tokens x)"

lemma release_each_only_new:
  assumes "release_each xs s = (Inr ys, t)" and "only_new s0 T s" and "\<forall>x \<in> set xs. unreleased x"
  shows "only_new s0 (T - batch_tokens xs) t"
  using assms
proof (induction xs arbitrary: s T ys)
  case (Cons x xs)
  obtain y u zs where y: "(case ua_reservation x of None \<Rightarrow> py_ret x
     | Some v \<Rightarrow> py_bind (vr_release v) (\<lambda>v'. py_ret (x\<lparr>ua_reservation := Some v'\<rparr>))) s = (Inr y, u)"
    and rest: "release_each xs u = (Inr zs, t)"
    using Cons.prems(1) by (auto simp: py_bind_Inr)
  have "only_new s0 (T - approval_tokens x) u"
  proof (cases "ua_reservation x")
    case None
    then show ?thesis using y Cons.prems(2) by (simp add: approval_tokens_def)
  next
    case (Some v)
    then obtain v' where "vr_release v s = (Inr v', u)" using y by (auto simp: py_bind_Inr)
    then show ?thesis
      using vr_release_only_new [OF _ Cons.prems(2)] Cons.prems(3) Some by (simp add: approval_tokens_def unreleased_def)
  qed
  from Cons.IH [OF rest this] Cons.prems(3) have "only_new s0 (T - approval_tokens x - batch_tokens xs) t" by simp
  then show ?case by (rule only_new_mono) (auto simp: batch_tokens_def)
qed (simp add: batch_tokens_def)

lemma mk_batch_Inr: "mk_batch b xs codes = Inr y \<Longrightarrow> ba_allowed y = b \<and> ba_approvals y = xs"
  by (auto simp: mk_batch_def value_error_def split: if_splits)

lemma approve_items_denied:
  assumes "approve_items l p ttl items xs s = (Inr b, t)" and "\<not> ba_allowed b"
    and "only_new s0 (batch_tokens xs) s" and "\<forall>x \<in> set xs. unreleased x"
  shows "only_new s0 {} t"
  using assms
proof (induction items arbitrary: xs s)
  case Nil
  then show ?case by (auto dest: mk_batch_Inr)
next
  case (Cons item items)
  obtain env r a where item: "item = (env, r, a)" by (metis prod_cases3)
  obtain x u where x: "approve l p ttl env r a s = (Inr x, u)" and rest:
    "(if ua_allowed x then approve_items l p ttl items (xs @ [x]) else
     py_bind (release_each xs) (\<lambda>_.
     py_bind (py_of (each (\<lambda>_. deny [''BATCH_ROLLED_BACK'']) xs)) (\<lambda>before.
     py_bind (py_of (each (\<lambda>_. deny [''BATCH_NOT_EVALUATED'']) items)) (\<lambda>rest.
     py_of (mk_batch False (before @ [x] @ rest) (''BATCH_APPROVAL_DENIED'' # ua_reasons x)))))) u = (Inr b, t)"
    using Cons.prems(1) by (auto simp: item py_bind_Inr)
  note on = approve_only_new [OF x Cons.prems(3)]
  show ?case
  proof (cases "ua_allowed x")
    case True
    have "only_new s0 (batch_tokens (xs @ [x])) u" using on by (simp add: batch_tokens_def Un_commute)
    moreover have "\<forall>y \<in> set (xs @ [x]). unreleased y" using Cons.prems(4) on by auto
    ultimately show ?thesis using Cons.IH [OF _ Cons.prems(2)] rest True by simp
  next
    case False
    then obtain ys v where rel: "release_each xs u = (Inr ys, v)" and t: "t = v"
      using rest by (auto simp: py_bind_Inr)
    have "only_new s0 (batch_tokens xs) u" using on False by auto
    from release_each_only_new [OF rel this Cons.prems(4)] show ?thesis using t by simp
  qed
qed

text \<open>C19: A denied batch reserves nothing: when \<open>approve_batch\<close> denies, every reservation that it made for
  the items before the denied one is gone again, of increases and of reductions, whatever their number and
  order; what is still reserved was reserved before.
\<close>

theorem denied_batch_reserves_nothing:
  assumes "approve_batch l p ttl items s = (Inr b, t)" and "\<not> ba_allowed b" and "distinct (map fst (co_reduce s))"
  shows "set (co_increase t) \<subseteq> set (co_increase s) \<and> entries (co_reduce t) \<subseteq> entries (co_reduce s)"
proof (cases "items = []")
  case True
  then show ?thesis using assms(1) by (auto simp: approve_batch_def)
next
  case False
  then have i: "approve_items l p ttl items [] s = (Inr b, t)" using assms(1) by (simp add: approve_batch_def)
  have "only_new s (batch_tokens []) s" using assms(3) by (simp add: only_new_def batch_tokens_def)
  from approve_items_denied [OF i assms(2) this] have "only_new s {} t" by simp
  then show ?thesis by (auto simp: only_new_def)
qed

section \<open>What an approval is worth\<close>

lemma evaluate_caps:
  assumes "evaluate_increase l r' a' = Inr dec" and "rd_allowed dec" and "q \<le> rd_quantity dec"
  shows "within_capacity q (rq_price r')
      (dec_mul (max (dec_sub (ar_available_balance a') (min_available_balance l)) 0) (rq_leverage r'))"
    and "max_pending_order_notional l = Some m \<Longrightarrow>
      within_capacity q (rq_price r') (max (dec_sub m (ar_pending_notional a')) 0)"
    and "max_gross_notional l = Some m \<Longrightarrow> within_capacity q (rq_price r')
      (max (dec_sub (dec_sub m (gross_total_notional a')) (ar_pending_notional a')) 0)"
    and "max_leg_notional l = Some m \<Longrightarrow> within_capacity q (rq_price r')
      (max (dec_sub (dec_sub m (rq_leg_notional r')) (rq_pending_leg r')) 0)"
    and "max_symbol_gross_notional l = Some m \<Longrightarrow> within_capacity q (rq_price r')
      (max (dec_sub (dec_sub m (rq_symbol_notional r')) (rq_pending_symbol r')) 0)"
proof -
  note k = approval_capacity [OF assms(1,2) _ _ assms(3)]
  obtain sc sl sr sk rk where side: "side_limits l a' (rq_side r') = (sc, sl, sr, sk, rk)" by (metis prod_cases5)
  show "within_capacity q (rq_price r')
      (dec_mul (max (dec_sub (ar_available_balance a') (min_available_balance l)) 0) (rq_leverage r'))"
    by (rule k [OF _ clip_caps [of _ "''AVAILABLE_MARGIN_CLIPPED''"]]) (simp add: margin_steps_def)
  show "within_capacity q (rq_price r') (max (dec_sub m (ar_pending_notional a')) 0)"
    if m: "max_pending_order_notional l = Some m"
    by (rule k [OF _ clip_if_caps [OF m, of "\<lambda>m. max (dec_sub m (ar_pending_notional a')) 0" "''PENDING_ORDER_NOTIONAL_CLIPPED''"]])
      (simp add: exposure_steps_def side)
  show "within_capacity q (rq_price r') (max (dec_sub (dec_sub m (gross_total_notional a')) (ar_pending_notional a')) 0)"
    if m: "max_gross_notional l = Some m"
    by (rule k [OF _ clip_if_caps [OF m, of "\<lambda>m. max (dec_sub (dec_sub m (gross_total_notional a')) (ar_pending_notional a')) 0"
        "''GROSS_NOTIONAL_CLIPPED''"]]) (simp add: exposure_steps_def side)
  show "within_capacity q (rq_price r') (max (dec_sub (dec_sub m (rq_leg_notional r')) (rq_pending_leg r')) 0)"
    if m: "max_leg_notional l = Some m"
    by (rule k [OF _ clip_if_caps [OF m, of "\<lambda>m. max (dec_sub (dec_sub m (rq_leg_notional r')) (rq_pending_leg r')) 0"
        "''LEG_NOTIONAL_CLIPPED''"]]) (simp add: exposure_steps_def side)
  show "within_capacity q (rq_price r') (max (dec_sub (dec_sub m (rq_symbol_notional r')) (rq_pending_symbol r')) 0)"
    if m: "max_symbol_gross_notional l = Some m"
    by (rule k [OF _ clip_if_caps [OF m, of "\<lambda>m. max (dec_sub (dec_sub m (rq_symbol_notional r')) (rq_pending_symbol r')) 0"
        "''SYMBOL_GROSS_NOTIONAL_CLIPPED''"]]) (simp add: exposure_steps_def side)
qed

text \<open>C13: Capacity is never promised twice: an approved increase fits, up to one rounding, into what the
  available margin, the pending-order limit, the gross limit, the leg limit and the symbol limit leave after
  the account's facts and all the unexpired local reservations of the same account, leg and symbol, and its
  own notional is reserved with them before the approval is returned.
\<close>

theorem approvals_count_reservations:
  assumes "approve l p ttl env r a s = (Inr x, t)" and "ua_allowed x" and "increases_risk (rq_action r)"
  shows "\<exists>now created d. approval_now (ae_locked_now env) = Inr now \<and> d = live now (co_increase s) \<and>
    co_increase t = dict_put (uuid_hex (ae_token_uid env)) (increase_entry ttl created r (ua_notional x)) d \<and>
    0 < ua_quantity x \<and> ua_quantity x \<le> rq_quantity r \<and>
    within_capacity (ua_quantity x) (rq_price r) (dec_mul (max (dec_sub (max (dec_sub (ar_available_balance a)
      (counted ir_initial_margin r d)) 0) (min_available_balance l)) 0) (rq_leverage r)) \<and>
    (\<forall>m. max_pending_order_notional l = Some m \<longrightarrow> within_capacity (ua_quantity x) (rq_price r)
      (max (dec_sub m (dec_add (ar_pending_notional a) (counted ir_notional r d))) 0)) \<and>
    (\<forall>m. max_gross_notional l = Some m \<longrightarrow> within_capacity (ua_quantity x) (rq_price r)
      (max (dec_sub (dec_sub m (gross_total_notional a)) (dec_add (ar_pending_notional a) (counted ir_notional r d))) 0)) \<and>
    (\<forall>m. max_leg_notional l = Some m \<longrightarrow> within_capacity (ua_quantity x) (rq_price r)
      (max (dec_sub (dec_sub m (rq_leg_notional r)) (dec_add (rq_pending_leg r) (reserved_sum ir_notional
        (\<lambda>i. ir_account_id i = rq_account_id r \<and> ir_symbol i = rq_symbol r \<and> ir_side i = rq_side r) d))) 0)) \<and>
    (\<forall>m. max_symbol_gross_notional l = Some m \<longrightarrow> within_capacity (ua_quantity x) (rq_price r)
      (max (dec_sub (dec_sub m (rq_symbol_notional r)) (dec_add (rq_pending_symbol r) (reserved_sum ir_notional
        (\<lambda>i. ir_account_id i = rq_account_id r \<and> ir_symbol i = rq_symbol r) d))) 0))"
  using assms(1)
proof (cases rule: approve_cases)
  case (Denied w)
  then show ?thesis using assms(2) by (simp add: denial_def)
next
  case (Reduce w now)
  then show ?thesis using assms(3) by (simp add: reduces_increases)
next
  case (Increase w now0)
  from Increase(2) show ?thesis
  proof (cases rule: approve_increase_cases)
    case (Denied now)
    then show ?thesis using assms(2) by (simp add: denial_def)
  next
    case (Allowed now w1 decision lease w' created)
    let ?d = "live now (co_increase s)"
    have d: "decided l r ?d a = Inr decision" using Allowed(2) by simp
    obtain r' a' where e: "evaluate_increase l r' a' = Inr decision" "rq_price r' = rq_price r" "rq_quantity r' = rq_quantity r"
      "rq_leverage r' = rq_leverage r" "rq_leg_notional r' = rq_leg_notional r" "rq_symbol_notional r' = rq_symbol_notional r"
      "rq_pending_leg r' = dec_add (rq_pending_leg r) (reserved_sum ir_notional
         (\<lambda>i. ir_account_id i = rq_account_id r \<and> ir_symbol i = rq_symbol r \<and> ir_side i = rq_side r) ?d)"
      "rq_pending_symbol r' = dec_add (rq_pending_symbol r) (reserved_sum ir_notional
         (\<lambda>i. ir_account_id i = rq_account_id r \<and> ir_symbol i = rq_symbol r) ?d)"
      "ar_available_balance a' = max (dec_sub (ar_available_balance a) (counted ir_initial_margin r ?d)) 0"
      "ar_pending_notional a' = dec_add (ar_pending_notional a) (counted ir_notional r ?d)"
      "gross_total_notional a' = gross_total_notional a"
      by (rule decided_increase [OF d Allowed(3) assms(3)])
    have q: "ua_quantity x \<le> rd_quantity decision" "ua_quantity x \<le> rq_quantity r" using Allowed(9) by simp_all
    note caps = evaluate_caps [OF e(1) Allowed(3) q(1), unfolded e(2,4-11)]
    have "co_increase t = dict_put (uuid_hex (ae_token_uid env)) (increase_entry ttl created r (ua_notional x)) ?d"
      using Allowed(11) by simp
    then show ?thesis
      using Allowed(1,8) q(2) caps by (intro exI [of _ now] exI [of _ created] exI [of _ ?d]) blast
  qed
qed

text \<open>C14: An approved order has passed every gate and carries the token of a live lease: the account's risk data
  are valid, the intent has not expired, the last reading of the readiness gate allows the order on its own
  leg, an increase finds the risk mode NORMAL, and the fencing token that the approval carries is the one
  that the lease store answered for this process's own lease, valid by the clock.
\<close>

theorem approval_passes_gates:
  assumes "approve l p ttl env r a s = (Inr x, t)" and "ua_allowed x"
  shows "effective_risk_data_valid a \<and>
    (\<exists>now. approval_now (ae_now env) = Inr now \<and> (\<forall>e. rq_expires_at_ms r = Some e \<longrightarrow> now < e)) \<and>
    (\<exists>k. request_key r = Inr k \<and>
      (if reduces_risk (rq_action r)
       then allows_controlled_reduce (gr_gate (fst (snd (ae_gates env)))) (Some k)
       else allows_new_risk (gr_gate (snd (snd (ae_gates env)))) (Some k) \<and>
         rs_mode (gr_state (snd (snd (ae_gates env)))) = MODE_NORMAL)) \<and>
    (\<exists>clock w lease. clock \<in> {fst (snd (ae_writer_clocks env)), snd (snd (ae_writer_clocks env))} \<and>
      read_lease p clock w lease \<and> am_fencing_token (ua_meta x) = Some (le_token lease))"
  using assms(1)
proof (cases rule: approve_cases)
  case (Denied w)
  then show ?thesis using assms(2) by (simp add: denial_def)
next
  case (Reduce w now)
  let ?s = "s\<lparr>co_writer := w\<rparr>"
  have facts: "\<exists>k. request_key r = Inr k \<and> allows_controlled_reduce (gr_gate (fst (snd (ae_gates env)))) (Some k)"
    "\<exists>clock w lease. clock \<in> {fst (snd (ae_writer_clocks env)), snd (snd (ae_writer_clocks env))} \<and>
      read_lease p clock w lease \<and> am_fencing_token (ua_meta x) = Some (le_token lease)"
    using assms(2) reduce_reasons_none inside_check_Inr
      approve_reduce_inv [OF Reduce(2)] by blast+
  then show ?thesis using Reduce by auto
next
  case (Increase w now)
  from Increase(2) show ?thesis
  proof (cases rule: approve_increase_cases)
    case (Denied now)
    then show ?thesis using assms(2) by (simp add: denial_def)
  next
    case (Allowed now1 w1 decision lease w' created)
    from increase_reasons_none [OF Allowed(4)] obtain k where k: "request_key r = Inr k"
        "allows_new_risk (gr_gate (snd (snd (ae_gates env)))) (Some k)"
        "allows (gr_state (snd (snd (ae_gates env)))) (rq_action r) False" by blast
    have "rs_mode (gr_state (snd (snd (ae_gates env)))) = MODE_NORMAL"
      using k(3) Increase(1) by (cases "rq_action r") (auto simp: allows_def split: if_splits)
    moreover have "\<exists>clock w lease. clock \<in> {fst (snd (ae_writer_clocks env)), snd (snd (ae_writer_clocks env))} \<and>
        read_lease p clock w lease \<and> am_fencing_token (ua_meta x) = Some (le_token lease)"
      using writer_check_lease [OF Allowed(5)] Allowed(6) by blast
    moreover have "\<not> reduces_risk (rq_action r)" using Increase(1) by (simp add: reduces_increases)
    ultimately show ?thesis using k(1,2) Increase(3-5) by (simp only: if_False simp_thms) blast
  qed
qed

text \<open>C15: An approved reduction never exceeds what is left of the leg: at most what was requested, and at most
  the confirmed quantity less the reductions that the request knows of and less all unexpired local
  reservations of the same leg on the same exchange, whoever made them.
\<close>

theorem approved_reduction_bounded:
  assumes "approve l p ttl env r a s = (Inr x, t)" and "ua_allowed x" and "reduces_risk (rq_action r)"
  shows "\<exists>confirmed key. rq_confirmed r = Some confirmed \<and> reduce_key r = Inr key \<and> 0 < ua_quantity x \<and>
    ua_quantity x \<le> rq_quantity r \<and>
    ua_quantity x \<le> dec_sub confirmed (dec_add (rq_pending_reduce r)
      (dec_sum (quantities key (snd (prune_expired (fst (ae_lock_clock env)) (co_reduce s))))))"
  using assms(1)
proof (cases rule: approve_cases)
  case (Denied w)
  then show ?thesis using assms(2) by (simp add: denial_def)
next
  case (Increase w now)
  then show ?thesis using assms(3) by (simp add: reduces_increases)
next
  case (Reduce w now)
  from approve_reduce_inv [OF Reduce(2) assms(2)] obtain confirmed v rs where
    r: "rq_confirmed r = Some confirmed" "reserve_reduce (reduce_args env r confirmed) (co_reduce s) = (Inr v, rs)"
    "ua_quantity x = min (rq_quantity r) (rv_allowed v)" "0 < ua_quantity x" by auto
  from reserve_reduce_Inr [OF r(2)] obtain key sr where k: "reduce_key r = Inr key"
    "calculate_safe_reduce (DFin (rq_quantity r)) (DFin confirmed) (DFin (dec_add (rq_pending_reduce r)
       (dec_sum (quantities key (snd (prune_expired (fst (ae_lock_clock env)) (co_reduce s))))))) = Inr sr"
    "rv_allowed v = sr_allowed sr"
    by (auto simp: reduce_args_def reduce_key_def)
  from safe_reduce_Inr [OF k(2)] have "rv_allowed v \<le> max (dec_sub confirmed (dec_add (rq_pending_reduce r)
       (dec_sum (quantities key (snd (prune_expired (fst (ae_lock_clock env)) (co_reduce s))))))) 0"
    using k(3) by simp
  then show ?thesis using r k(1) by auto
qed

end
