(* ===== verification/Risk_Confirm.thy ===== *)
theory Risk_Confirm
  imports Risk_Approval_Facts
begin

text \<open>
  The properties of a reservation's confirmation (\<open>RiskApprovalReservation\<close> in
  \<open>freqtrade/hedge/risk/actions.py\<close>): local capacity is only freed for durable evidence, a
  confirmation that returns is durable, and what releasing a reservation does not prevent.
\<close>

section \<open>Confirmation\<close>

definition same_hold :: "'t risk_reservation \<Rightarrow> 't risk_reservation \<Rightarrow> bool" where
  \<comment> \<open>equal but for the record\<close>
  "same_hold v u \<longleftrightarrow> u\<lparr>vr_record := vr_record v\<rparr> = v"

lemma same_hold_fields:
  assumes "same_hold v u"
  shows "vr_token u = vr_token v" and "vr_released u = vr_released v" and "vr_committed u = vr_committed v"
    and "vr_accepted u = vr_accepted v" and "vr_decision_id u = vr_decision_id v" and "vr_reduce u = vr_reduce v"
  using assms unfolding same_hold_def by (cases u; cases v; simp)+

lemma on_coordinator_state: "on_coordinator m (c, v) = (r, s) \<Longrightarrow> snd s = v"
  by (auto simp: on_coordinator_def split: prod.splits)

lemma check_fencing_state:
  assumes "check_fencing p env (c, v) = (r, s)"
  shows "snd s = v" and "co_increase (fst s) = co_increase c" and "co_reduce (fst s) = co_reduce c"
  using assms by (auto simp: check_fencing_def on_coordinator_def on_writer_def split: prod.splits)

lemma refuse_expired_state:
  assumes "refuse_expired env (c, v) = (r, s)" and "vr_expired env v \<noteq> Inr True"
  shows "s = (c, v)"
  using assms by (cases "vr_expired env v") (auto simp: refuse_expired_def)

lemma refuse_then_check:
  assumes "py_then (refuse_expired env) (py_then (check_fencing p env) m) (c, v) = (r, s)" and "vr_expired env v \<noteq> Inr True"
  shows "(\<exists>e. r = Inl e \<and> snd s = v \<and> co_increase (fst s) = co_increase c \<and> co_reduce (fst s) = co_reduce c) \<or>
    (\<exists>c1. m (c1, v) = (r, s) \<and> co_increase c1 = co_increase c \<and> co_reduce c1 = co_reduce c)"
proof -
  obtain r1 s1 where 1: "refuse_expired env (c, v) = (r1, s1)" by (metis surj_pair)
  note s1 = refuse_expired_state [OF 1 assms(2)]
  obtain r2 s2 where 2: "check_fencing p env (c, v) = (r2, s2)" by (metis surj_pair)
  note s2 = check_fencing_state [OF 2]
  obtain c2 where c2: "s2 = (c2, v)" using s2(1) by (cases s2) simp
  show ?thesis
    using assms(1) 1 2 s1 s2 c2 by (cases r1; cases r2) (auto simp: py_then_def py_bind_eq)
qed

lemma build_commit_state:
  assumes "build_commit p env ref (c, v) = (r, (c1, v1))" and "vr_expired env v \<noteq> Inr True"
  shows "co_increase c1 = co_increase c" and "co_reduce c1 = co_reduce c" and "same_hold v v1"
    and "r = Inr rec \<Longrightarrow> vr_record v1 = Some rec"
proof -
  have "co_increase c1 = co_increase c \<and> co_reduce c1 = co_reduce c \<and> same_hold v v1 \<and> (\<forall>rec. r = Inr rec \<longrightarrow> vr_record v1 = Some rec)"
  proof (cases "strip ref = []")
    case True
    then show ?thesis using assms(1) by (auto simp: build_commit_def same_hold_def value_error_def)
  next
    case ref: False
    show ?thesis
    proof (cases "vr_record v")
      case (Some found)
      then show ?thesis
        using assms(1) refuse_then_check [OF _ assms(2), of p "py_ret found" c r "(c1, v1)"] ref
        by (auto simp: build_commit_def same_hold_def split: if_splits)
    next
      case None
      show ?thesis
      proof (cases "vr_released v \<and> \<not> vr_committed v")
        case True
        then show ?thesis using assms(1) None ref by (auto simp: build_commit_def same_hold_def)
      next
        case False
        let ?m = "py_bind (py_of (approval_now (ce_committed_at env))) (\<lambda>moment.
            py_bind (py_of (evidence_of v moment (strip ref))) (\<lambda>record.
            py_then (py_mod (\<lambda>(c, v). (c, v\<lparr>vr_record := Some record\<rparr>))) (py_ret record)))"
        have "py_then (refuse_expired env) (py_then (check_fencing p env) ?m) (c, v) = (r, (c1, v1))"
          using assms(1) None ref False by (auto simp: build_commit_def)
        from refuse_then_check [OF this assms(2)] show ?thesis
        proof (elim disjE exE conjE)
          fix e
          assume "r = Inl e" "snd (c1, v1) = v" "co_increase (fst (c1, v1)) = co_increase c" "co_reduce (fst (c1, v1)) = co_reduce c"
          then show ?thesis by (simp add: same_hold_def)
        next
          fix c2
          assume m: "?m (c2, v) = (r, (c1, v1))" and c2: "co_increase c2 = co_increase c" "co_reduce c2 = co_reduce c"
          then show ?thesis
            using None by (cases "approval_now (ce_committed_at env)"; cases "evidence_of v (projr (approval_now (ce_committed_at env))) (strip ref)")
              (auto simp: same_hold_def py_then_def)
        qed
      qed
    qed
  qed
  then show "co_increase c1 = co_increase c" "co_reduce c1 = co_reduce c" "same_hold v v1"
    "r = Inr rec \<Longrightarrow> vr_record v1 = Some rec" by auto
qed

lemma build_commit_expired:
  assumes "build_commit p env ref (c, v) = (Inr rec, s)" and "vr_expired env v = Inr True"
  shows "s = (c, v) \<and> vr_record v = Some rec"
proof -
  have no: "py_then (refuse_expired env) m (c, v) \<noteq> (Inr rec, s)" for m
    using assms(2) by (auto simp: py_then_Inr refuse_expired_def py_bind_Inr py_raise_def)
  show ?thesis using assms(1) no by (auto simp: build_commit_def value_error_def py_raise_def split: option.splits if_splits)
qed

lemma build_commit_record:
  assumes "build_commit p env ref (c, v) = (Inr rec, (c1, v1))"
  shows "vr_record v1 = Some rec" and "same_hold v v1" and "co_increase c1 = co_increase c" and "co_reduce c1 = co_reduce c"
  using build_commit_state [OF assms] build_commit_expired [of p env ref c v rec "(c1, v1)"] assms
  by (cases "vr_expired env v = Inr True"; auto simp: same_hold_def)+

lemma held_release_record:
  assumes "held_release (c, v) = (r, (c', v'))"
  shows "vr_record v' = vr_record v" and "vr_committed v' = vr_committed v" and "r = Inr () \<Longrightarrow> vr_released v'"
  using assms by (auto simp: held_release_def vr_release_def py_bind_Inr py_then_Inr split: prod.splits sum.splits if_splits)

text \<open>The steps of a confirmation after the record is built.\<close>

definition verified :: "'c commit_port \<Rightarrow> string \<Rightarrow> commit_record \<Rightarrow> 'c \<Rightarrow> bool" where
  \<comment> \<open>the store answered this record\<close>
  "verified cp decision_id rec x \<longleftrightarrow> (\<exists>y. cp_read cp decision_id y = (Inr (Some rec), x))"

lemma on_held_eq: "on_held m (h, x) = (case m h of (r, g) \<Rightarrow> (r, (g, x)))"
  by (simp add: on_held_def)

lemma on_store_eq: "on_store m (h, x) = (case m x of (r, y) \<Rightarrow> (r, (h, y)))"
  by (simp add: on_store_def)

lemma confirm_unfold:
  assumes "confirm p cp env ref (h, x) = (res, ((c', v'), x'))"
  obtains (Built_error) e where "build_commit p env ref h = (Inl e, (c', v'))" "res = Inl e"
    | (Not_verified) rec c1 v1 where "build_commit p env ref h = (Inr rec, (c1, v1))" "c' = c1"
      "vr_released v' = vr_released v1" "vr_record v' = vr_record v1" "\<exists>e. res = Inl e"
    | (Verified) rec c1 v1 v2 where "build_commit p env ref h = (Inr rec, (c1, v1))"
      "v2 = v1 \<or> v2 = v1\<lparr>vr_accepted := True\<rparr>" "verified cp (vr_decision_id v1) rec x'"
      "(if vr_committed v2 then (Inr (), (c1, v2)) else mark_committed (c1, v2)) = (map_sum id (\<lambda>_. ()) res, (c', v'))"
      "\<And>r. res = Inr r \<Longrightarrow> r = rec"
proof -
  obtain b c1 v1 where b: "build_commit p env ref h = (b, (c1, v1))" by (metis surj_pair)
  show ?thesis
  proof (cases b)
    case (Inl e)
    then show ?thesis using assms b Built_error by (auto simp: confirm_def py_bind_eq on_held_eq)
  next
    case (Inr rec)
    let ?commit = "(if vr_committed v1 \<or> vr_accepted v1 then py_ret ()
       else py_bind (on_store (cp_commit cp rec)) (\<lambda>accepted. if accepted then on_held mark_accepted
         else py_raise (Exn RuntimeError ''Durable risk approval commit was rejected.'')))"
    obtain d h2 y where d: "?commit ((c1, v1), x) = (d, (h2, y))" by (metis surj_pair)
    have h2: "h2 = (c1, v1) \<or> h2 = (c1, v1\<lparr>vr_accepted := True\<rparr>)"
      using d by (auto simp: py_bind_eq on_store_eq on_held_eq mark_accepted_def py_raise_def split: if_splits prod.splits sum.splits)
    let ?read = "py_bind (on_store (cp_read cp (vr_decision_id v1))) (\<lambda>persisted.
      if persisted \<noteq> Some rec
      then py_raise (Exn RuntimeError ''Durable risk approval commit could not be verified.'')
      else py_bind (py_get (\<lambda>s. vr_committed (snd (fst s)))) (\<lambda>committed.
        py_then (if committed then py_ret () else on_held mark_committed) (py_ret rec)))"
    have all: "(case d of Inl e \<Rightarrow> (Inl e, (h2, y)) | Inr _ \<Rightarrow> ?read (h2, y)) = (res, ((c', v'), x'))"
      using assms b d Inr by (simp add: confirm_def py_bind_eq on_held_eq py_then_def split: sum.splits)
    show ?thesis
    proof (cases d)
      case (Inl e)
      then have "res = Inl e" "h2 = (c', v')" using all by simp_all
      then show ?thesis using Not_verified [OF b [unfolded Inr]] h2 by auto
    next
      case u: (Inr u)
      obtain q z where q: "cp_read cp (vr_decision_id v1) y = (q, z)" by (metis surj_pair)
      show ?thesis
      proof (cases "q = Inr (Some rec)")
        case False
        then have "\<exists>e. res = Inl e" "h2 = (c', v')"
          using all u q by (auto simp: py_bind_eq on_store_eq py_raise_def split: sum.splits if_splits)
        then show ?thesis using Not_verified [OF b [unfolded Inr]] h2 by auto
      next
        case True
        obtain v2 where v2: "h2 = (c1, v2)" "v2 = v1 \<or> v2 = v1\<lparr>vr_accepted := True\<rparr>" using h2 by blast
        have r: "py_then (if vr_committed v2 then py_ret () else on_held mark_committed) (py_ret rec) ((c1, v2), z) = (res, ((c', v'), x'))"
          using all u q True v2(1) by (simp add: py_bind_eq on_store_eq)
        show ?thesis
        proof (rule Verified [OF b [unfolded Inr] v2(2)])
          show "verified cp (vr_decision_id v1) rec x'"
            using q True r by (auto simp: verified_def py_then_def py_bind_eq on_held_eq py_ret_def split: if_splits prod.splits sum.splits)
          show "(if vr_committed v2 then (Inr (), (c1, v2)) else mark_committed (c1, v2)) = (map_sum id (\<lambda>_. ()) res, (c', v'))"
            using r by (auto simp: py_then_def py_bind_eq on_held_eq py_ret_def split: if_splits prod.splits sum.splits)
          show "r = rec" if "res = Inr r" for r
            using r that by (auto simp: py_then_def py_bind_eq on_held_eq py_ret_def split: if_splits prod.splits sum.splits)
        qed
      qed
    qed
  qed
qed

lemma mark_committed_facts:
  assumes "mark_committed (c, v) = (r, (c', v'))"
  shows "vr_record v' = vr_record v" and "vr_committed v'" and "r = Inr () \<Longrightarrow> vr_released v'"
  using assms held_release_record [of c "v\<lparr>vr_accepted := True, vr_committed := True\<rparr>" r c' v']
  by (simp_all add: mark_committed_def py_then_def)

section \<open>What a confirmation promises\<close>

text \<open>C16: A confirmation frees local capacity only for durable evidence: unless the reservation has expired,
  \<open>confirm\<close> either leaves every local reservation as it is and the reservation unreleased, or the store has
  answered the record that was built for this very decision.
\<close>

theorem capacity_freed_for_evidence:
  assumes "confirm p cp env reference ((c, v), x) = (res, ((c', v'), x'))" and "vr_expired env v \<noteq> Inr True"
  shows "(co_increase c' = co_increase c \<and> co_reduce c' = co_reduce c \<and> vr_released v' = vr_released v) \<or>
    (\<exists>rec. verified cp (vr_decision_id v) rec x' \<and> vr_record v' = Some rec)"
  using assms(1)
proof (cases rule: confirm_unfold)
  case (Built_error e)
  then show ?thesis using build_commit_state(1-3) [OF Built_error(1) assms(2)] by (simp add: same_hold_fields)
next
  case (Not_verified rec c1 v1)
  then show ?thesis using build_commit_record [OF Not_verified(1)] by (simp add: same_hold_fields)
next
  case (Verified rec c1 v1 v2)
  note b = build_commit_record [OF Verified(1)]
  have "vr_record v2 = Some rec" using Verified(2) b(1) by auto
  then have "vr_record v' = Some rec" using Verified(4) mark_committed_facts(1) [of c1 v2 "map_sum id (\<lambda>_. ()) res" c' v']
    by (simp split: if_splits)
  then show ?thesis using Verified(3) same_hold_fields(5) [OF b(2)] by auto
qed

text \<open>A confirmation that returns is durable: the record it returns is the one that the store answered for
  the decision after the commit, the reservation counts as committed and keeps the record, and its local
  capacity has been released now if it was not already committed before.
\<close>

theorem confirmed_is_durable:
  assumes "confirm p cp env reference ((c, v), x) = (Inr rec, ((c', v'), x'))"
  shows "verified cp (vr_decision_id v) rec x' \<and> vr_committed v' \<and> vr_record v' = Some rec \<and>
    (vr_committed v \<or> vr_released v')"
  using assms
proof (cases rule: confirm_unfold)
  case (Verified rec' c1 v1 v2)
  note b = build_commit_record [OF Verified(1)]
  note f = same_hold_fields [OF b(2)]
  have "vr_record v2 = Some rec" "vr_committed v2 = vr_committed v" using Verified(2,5) b(1) f(3) by auto
  then have "vr_record v' = Some rec \<and> vr_committed v' \<and> (vr_committed v \<or> vr_released v')"
    using Verified(4) mark_committed_facts [of c1 v2 "Inr ()" c' v'] by (auto split: if_splits)
  then show ?thesis using Verified(3,5) f(5) by auto
qed auto

text \<open>C36: A released reservation can still be confirmed: once a first confirmation has built the record, a later
  one with the same reference no longer looks at whether the reservation was released, so evidence is
  committed for capacity that has been given back.
\<close>

theorem released_reservation_confirmed:
  assumes "vr_record v = Some rec" and "cr_reference rec = strip reference" and "strip reference \<noteq> []"
    and "vr_released v" and "\<not> vr_accepted v" and "\<not> vr_committed v" and "vr_expired env v = Inr False"
    and "assert_fencing_token p (ce_writer_clock env) (vr_fencing_token v) (co_writer c) = (Inr lease, w)"
    and "cp_commit cp rec x = (Inr True, y)" and "cp_read cp (vr_decision_id v) y = (Inr (Some rec), x')"
  shows "confirm p cp env reference ((c, v), x) =
    (Inr rec, ((c\<lparr>co_writer := w\<rparr>, v\<lparr>vr_accepted := True, vr_committed := True\<rparr>), x'))"
proof -
  have "build_commit p env reference (c, v) = (Inr rec, (c\<lparr>co_writer := w\<rparr>, v))"
    using assms(1-3,5,7,8)
    by (simp add: build_commit_def py_then_def py_bind_eq refuse_expired_def check_fencing_def on_coordinator_def on_writer_def)
  then show ?thesis
    using assms(4-6,9,10)
    by (simp add: confirm_def py_bind_eq on_held_eq on_store_eq py_then_def mark_accepted_def mark_committed_def
        held_release_def vr_release_def)
qed

end
