(* ===== verification/Risk_Approval_Demo.thy ===== *)
theory Risk_Approval_Demo
  imports Risk_Approval_Properties Risk_Confirm
begin

text \<open>
  One coordinator state with an increase already reserved, and the witnesses of the properties of
  approvals, reductions, batches and confirmations on it.
\<close>

section \<open>The state\<close>

definition demo_gate :: gate_reading where
  "demo_gate = (let r = \<lparr>rt_state = R_READY, rt_checks = [], rt_reasons = [], rt_evaluated_at_ms = 1000,
       rt_reduce_allowed = True, rt_blocked = []\<rparr> in \<lparr>gr_shown = r, gr_gate = r, gr_state = new_machine\<rparr>)"

definition demo_env :: "int approve_env" where
  "demo_env = \<lparr>ae_now = Inr 2000, ae_writer_clocks = (Inr 2000, Inr 2000, Inr 2000), ae_gates = (demo_gate, demo_gate, demo_gate),
     ae_locked_now = Inr 2000, ae_created_at = Inr 2000, ae_evaluated_at = Inr 2000, ae_lock = Inr (),
     ae_lock_clock = (0, 0, 0), ae_plus_ttl = (\<lambda>t. t + 5), ae_token_uid = 7, ae_decision_uid = 8,
     ae_request_json = ''{}'', ae_snapshot_json = ''{}''\<rparr>"

definition demo_reserved :: increase_record where
  "demo_reserved = \<lparr>ir_account_id = ''main'', ir_symbol = ''ETH/USDT:USDT'', ir_side = LONG, ir_notional = 50,
     ir_initial_margin = 50, ir_maintenance_margin = 1, ir_net_delta = 50, ir_created_at_ms = 1500, ir_expires_at_ms = 9000\<rparr>"

definition demo_state :: "(int, leases) coordinator" where
  "demo_state = \<lparr>co_increase = [(''t0'', demo_reserved)], co_reduce = [], co_writer = demo_after\<rparr>"

definition demo_increase :: request where
  "demo_increase = (demo_request OPEN)\<lparr>rq_quantity := 1\<rparr>"

definition demo_taken :: "rat account_risk" where
  "demo_taken = demo_facts\<lparr>ar_available_balance := 950, ar_pending_notional := 50, ar_pending_initial_margin := 50,
     ar_pending_net_delta := 50, ar_pending_long := 50, ar_pending_maintenance := 1\<rparr>"

definition demo_asked :: request where
  "demo_asked = demo_increase\<lparr>rq_pending_leg := 50, rq_pending_symbol := 50\<rparr>"

section \<open>The increase\<close>

lemma demo_account: "account_with_pending demo_increase [(''t0'', demo_reserved)] demo_facts = Inr demo_taken"
  by code_simp

lemma demo_with_pending: "request_with_pending demo_increase [(''t0'', demo_reserved)] = Inr demo_asked"
  by code_simp

lemma demo_unclipped: "clipped demo_limits demo_asked demo_taken = Inr \<lparr>cl_notional = 7,
    cl_reasons = [], cl_minimum = 0, cl_net_reasons = []\<rparr>"
  by (simp add: clipped_def margin_steps_def exposure_steps_def net_steps_def demo_limits_def demo_asked_def demo_increase_def
    demo_request_def demo_taken_def
    demo_facts_def clip_def clip_if_def net_if_def apply_net_limit_def signed_current_def side_sign_def
    projected_net_notional_def requested_notional_def side_limits_def gross_total_notional_def
    dec_mul_def dec_sub_def dec_add_def dec_div_def dec_neg_def Let_def dec_round_neg_numeral)

lemma demo_still_ready: "effective_risk_data_valid demo_taken" "\<not> ar_liquidation_buffer_ratio demo_taken < min_liquidation_buffer_ratio demo_limits"
  "\<not> projected_maintenance_buffer_ratio demo_taken < min_liquidation_buffer_ratio demo_limits"
  by code_simp+

lemma demo_decided: "decided demo_limits demo_increase [(''t0'', demo_reserved)] demo_facts = Inr \<lparr>rd_allowed = True,
  rd_quantity = 1, rd_reasons = [''WITHIN_LIMITS''], rd_notional = 7, rd_snapshot_id = Some ''s1''\<rparr>"
proof -
  have "code_texts e [''WITHIN_LIMITS''] = Inr [''WITHIN_LIMITS'']" for e unfolding code_texts_def by code_simp
  moreover have "nonempty f ''s1'' = Inr ''s1''" for f unfolding nonempty_def by code_simp
  moreover have "rq_account_id demo_asked = ar_account_id demo_taken" "rq_action demo_asked = OPEN"
    "rq_quantity demo_asked = 1" "rq_price demo_asked = 7" "ar_snapshot_id demo_taken = ''s1''"
    by (simp_all add: demo_request_def demo_facts_def demo_asked_def demo_increase_def demo_taken_def)
  ultimately have "evaluate_request demo_limits demo_asked demo_taken = Inr \<lparr>rd_allowed = True,
      rd_quantity = 1, rd_reasons = [''WITHIN_LIMITS''], rd_notional = 7, rd_snapshot_id = Some ''s1''\<rparr>"
    by (simp add: evaluate_request_def evaluate_increase_def demo_unclipped demo_still_ready Let_def mk_decision_def
      opt_require_def or_codes_def dec_mul_def dec_div_def min_def not_le)
  then show ?thesis by (simp add: decided_def demo_account demo_with_pending)
qed

definition demo_grant :: lease_record where
  "demo_grant = \<lparr>le_name = ''hedge/writer'', le_owner = ''node:'' @ uuid_hex 10, le_token = 1,
     le_acquired_at = 1000, le_renewed_at = 1000, le_expires_at = 6000\<rparr>"

lemma demo_leased: "sw_assert_valid mem_port (Inr 2000) demo_after = (Inr demo_grant, demo_after)"
  by code_simp

lemma demo_checked: "writer_check mem_port (Inr 2000) demo_after = (Inr (Some demo_grant), demo_after)"
  by (simp add: writer_check_def demo_leased)

lemma demo_gates: "increase_reasons demo_gate demo_increase = Inr []" "reduce_reasons demo_gate (demo_request REDUCE) = Inr []"
  by code_simp+

lemma demo_times: "approval_now (Inr 2000) = Inr 2000" "prune_increases 2000 demo_state = (Inr 0, demo_state)"
  by (simp_all add: approval_now_def prune_increases_def demo_state_def demo_reserved_def)

lemma demo_env_fields:
  "ae_now demo_env = Inr 2000" "ae_writer_clocks demo_env = (Inr 2000, Inr 2000, Inr 2000)"
  "ae_gates demo_env = (demo_gate, demo_gate, demo_gate)" "ae_locked_now demo_env = Inr 2000"
  "ae_created_at demo_env = Inr 2000" "ae_evaluated_at demo_env = Inr 2000"
  "co_writer demo_state = demo_after" "co_increase demo_state = [(''t0'', demo_reserved)]"
  "rq_account_id demo_increase = ar_account_id demo_facts" "rq_expires_at_ms demo_increase = None"
  "rq_action demo_increase = OPEN" "rq_quantity demo_increase = 1" "rq_price demo_increase = 7"
  "rq_account_id (demo_request act) = ar_account_id demo_facts" "rq_expires_at_ms (demo_request act) = None"
  "rq_action (demo_request act) = act" "rq_quantity (demo_request act) = 2" "rq_price (demo_request act) = 7"
  "rq_confirmed (demo_request act) = Some 3" "ar_snapshot_id demo_facts = ''s1''"
  by (simp_all add: demo_env_def demo_state_def demo_increase_def demo_request_def demo_facts_def)

lemma demo_approval:
  "case approval_of demo_env demo_increase [''WITHIN_LIMITS''] 1 7 demo_grant ''s1'' 2000 (Some (uuid_hex 7)) None (Some 7000) of
     Inr x \<Rightarrow> (case ua_reservation x of None \<Rightarrow> False | Some v \<Rightarrow> \<not> vr_released v \<and> vr_reduce v = None)
   | Inl e \<Rightarrow> False"
  by code_simp

lemma demo_same_writer: "s\<lparr>co_writer := co_writer s\<rparr> = s" "demo_state\<lparr>co_writer := demo_after\<rparr> = demo_state"
  by (simp_all add: demo_state_def)

lemma demo_increase_approved: "\<exists>x t. approve demo_limits mem_port 5000 demo_env demo_increase demo_facts demo_state = (Inr x, t) \<and> ua_allowed x
    \<and> (\<exists>v. ua_reservation x = Some v \<and> \<not> vr_released v \<and> vr_reduce v = None)"
proof -
  obtain x v where x: "approval_of demo_env demo_increase [''WITHIN_LIMITS''] 1 7 demo_grant ''s1'' 2000 (Some (uuid_hex 7)) None (Some 7000) = Inr x"
    and v: "ua_reservation x = Some v \<and> \<not> vr_released v \<and> vr_reduce v = None"
    using demo_approval by (auto split: sum.splits option.splits)
  have "requested_notional demo_increase = 7" "dec_mul 1 7 = 7" by code_simp+
  moreover have "ae_token_uid demo_env = 7" by (simp add: demo_env_def)
  ultimately have "\<exists>t. approve demo_limits mem_port 5000 demo_env demo_increase demo_facts demo_state = (Inr x, t)"
    using x demo_still_ready
    by (simp add: approve_def approve_increase_def gate_then_def with_writer_def on_writer_def demo_env_fields demo_checked
        demo_gates demo_times demo_decided demo_same_writer demo_ready py_then_def py_bind_eq reserve_increase_def)
  then show ?thesis using approval_of_Inr(1) [OF x] v by blast
qed

text \<open>The witnesses of the properties of an approval.\<close>

lemma demo_live: "live 2000 [(''t0'', demo_reserved)] = [(''t0'', demo_reserved)]"
  by (simp add: live_def demo_reserved_def)

lemma demo_room: "max (dec_sub (dec_sub 500 (gross_total_notional demo_facts))
    (dec_add (ar_pending_notional demo_facts) (counted ir_notional demo_increase [(''t0'', demo_reserved)]))) 0 = 450"
  by code_simp

theorem approvals_count_reservations_witness:
  "\<exists>x t created. approve demo_limits mem_port 5000 demo_env demo_increase demo_facts demo_state = (Inr x, t) \<and>
     within_capacity (ua_quantity x) 7 450 \<and>
     co_increase t = dict_put (uuid_hex 7) (increase_entry 5000 created demo_increase (ua_notional x)) [(''t0'', demo_reserved)]"
proof -
  obtain x t where x: "approve demo_limits mem_port 5000 demo_env demo_increase demo_facts demo_state = (Inr x, t)" "ua_allowed x"
    using demo_increase_approved by blast
  have "increases_risk (rq_action demo_increase)" by (simp add: demo_env_fields)
  from approvals_count_reservations [OF x this] obtain now created d where
    a: "approval_now (ae_locked_now demo_env) = Inr now" "d = live now (co_increase demo_state)"
      "co_increase t = dict_put (uuid_hex (ae_token_uid demo_env)) (increase_entry 5000 created demo_increase (ua_notional x)) d"
      "\<forall>m. max_gross_notional demo_limits = Some m \<longrightarrow> within_capacity (ua_quantity x) (rq_price demo_increase)
        (max (dec_sub (dec_sub m (gross_total_notional demo_facts)) (dec_add (ar_pending_notional demo_facts) (counted ir_notional demo_increase d))) 0)"
    by blast
  have d: "d = [(''t0'', demo_reserved)]" using a(1,2) by (simp add: demo_env_fields demo_times demo_live)
  have "max_gross_notional demo_limits = Some 500" "ae_token_uid demo_env = 7" by (simp_all add: demo_limits_def demo_env_def)
  then show ?thesis using x a(3,4) demo_room by (auto simp: d demo_env_fields)
qed

theorem approval_passes_gates_witness:
  "\<exists>x t. approve demo_limits mem_port 5000 demo_env demo_increase demo_facts demo_state = (Inr x, t) \<and>
     (\<exists>w lease. read_lease mem_port (Inr 2000) w lease \<and> am_fencing_token (ua_meta x) = Some (le_token lease))"
proof -
  obtain x t where x: "approve demo_limits mem_port 5000 demo_env demo_increase demo_facts demo_state = (Inr x, t)" "ua_allowed x"
    using demo_increase_approved by blast
  then show ?thesis using approval_passes_gates [OF x] by (auto simp: demo_env_fields)
qed

lemma demo_reservation:
  "case reserve_reduce (reduce_args demo_env (demo_request REDUCE) 3) [] of
     (Inr v, d) \<Rightarrow> rv_allowed v = 1 \<and> rv_reason v = ''CLIPPED_TO_CONFIRMED_AVAILABLE'' | (Inl e, d) \<Rightarrow> False"
  by code_simp

lemma demo_reduction_approval:
  "case approval_of demo_env (demo_request REDUCE) [''CONTROLLED_REDUCE_APPROVED'', ''CLIPPED_TO_CONFIRMED_AVAILABLE'']
     1 7 demo_grant ''s1'' 2000 None (Some v) None of Inr x \<Rightarrow> True | Inl e \<Rightarrow> False"
  by code_simp

lemma demo_reduced: "\<exists>x t. approve demo_limits mem_port 5000 demo_env (demo_request REDUCE) demo_facts demo_state = (Inr x, t) \<and> ua_allowed x"
proof -
  let ?r = "demo_request REDUCE"
  obtain v d where v: "reserve_reduce (reduce_args demo_env ?r 3) [] = (Inr v, d)" "rv_allowed v = 1"
      "rv_reason v = ''CLIPPED_TO_CONFIRMED_AVAILABLE''"
    using demo_reservation by (auto split: sum.splits prod.splits)
  obtain x where x: "approval_of demo_env ?r [''CONTROLLED_REDUCE_APPROVED'', ''CLIPPED_TO_CONFIRMED_AVAILABLE'']
     1 7 demo_grant ''s1'' 2000 None (Some v) None = Inr x"
    using demo_reduction_approval [of v] by (auto split: sum.splits)
  have taken: "lock_taken (reduce_args demo_env ?r 3)" by code_simp
  have i: "inside_check mem_port (Inr 2000) demo_gate ?r demo_after = (Inr demo_grant, demo_after)"
    by (simp add: inside_check_def demo_gates demo_leased)
  have "(reduce_args demo_env ?r 3)\<lparr>ra_check := Inr ()\<rparr> = reduce_args demo_env ?r 3" by (simp add: reduce_args_def)
  moreover have "co_reduce demo_state = []" by (simp add: demo_state_def)
  ultimately have "reserve_checked (inside_check mem_port (Inr 2000) demo_gate ?r) (reduce_args demo_env ?r 3) demo_state
      = (Inr (v, Some demo_grant), demo_state\<lparr>co_reduce := d, co_writer := demo_after\<rparr>)"
    using v taken i by (simp add: reserve_checked_def demo_env_fields)
  moreover have "dec_mul 1 7 = 7" by code_simp
  ultimately have "\<exists>t. approve demo_limits mem_port 5000 demo_env ?r demo_facts demo_state = (Inr x, t)"
    using x v
    by (simp add: approve_def approve_reduce_def gate_then_def with_writer_def on_writer_def demo_env_fields demo_checked
        demo_gates demo_times demo_same_writer demo_ready py_then_def py_bind_eq py_try_def)
  then show ?thesis using approval_of_Inr(1) [OF x] by blast
qed

lemma demo_reduce_room: "dec_sub 3 (dec_add (rq_pending_reduce (demo_request REDUCE)) (dec_sum (quantities key
    (snd (prune_expired (fst (ae_lock_clock demo_env)) (co_reduce demo_state)))))) = 1"
proof -
  have "dec_sum (quantities key ([] :: int reservations)) = 0" by (simp add: quantities_def of_key_def dec_sum_def)
  then show ?thesis
    by (simp add: demo_request_def demo_env_def demo_state_def prune_expired_def dec_sub_def dec_add_def)
qed

theorem approved_reduction_bounded_witness:
  "\<exists>x t. approve demo_limits mem_port 5000 demo_env (demo_request REDUCE) demo_facts demo_state = (Inr x, t) \<and>
     0 < ua_quantity x \<and> ua_quantity x \<le> 1"
proof -
  obtain x t where x: "approve demo_limits mem_port 5000 demo_env (demo_request REDUCE) demo_facts demo_state = (Inr x, t)" "ua_allowed x"
    using demo_reduced by blast
  have "reduces_risk (rq_action (demo_request REDUCE))" by (simp add: demo_env_fields reduces_risk_def)
  from approved_reduction_bounded [OF x this] show ?thesis
    using x demo_reduce_room by (auto simp: demo_env_fields)
qed

lemma demo_deny:
  "case deny [''ACCOUNT_ID_MISMATCH''] of Inr x \<Rightarrow> \<not> ua_allowed x \<and> ua_reasons x = [''ACCOUNT_ID_MISMATCH''] | Inl e \<Rightarrow> False"
  "case deny [''BATCH_ROLLED_BACK''] of Inr x \<Rightarrow> \<not> ua_allowed x | Inl e \<Rightarrow> False"
  by code_simp+

theorem denied_batch_reserves_nothing_witness:
  "\<exists>b t. approve_batch demo_limits mem_port 5000 [(demo_env, demo_increase, demo_facts),
       (demo_env, demo_increase\<lparr>rq_account_id := ''other''\<rparr>, demo_facts)] demo_state = (Inr b, t) \<and>
     length (ba_approvals b) = 2 \<and> set (co_increase t) \<subseteq> {(''t0'', demo_reserved)}"
proof -
  let ?r = "demo_increase\<lparr>rq_account_id := ''other''\<rparr>"
  obtain x u v where x: "approve demo_limits mem_port 5000 demo_env demo_increase demo_facts demo_state = (Inr x, u)" "ua_allowed x"
      "ua_reservation x = Some v" "\<not> vr_released v" "vr_reduce v = None"
    using demo_increase_approved by blast
  obtain y :: "int approval" where y: "deny [''ACCOUNT_ID_MISMATCH''] = Inr y" "\<not> ua_allowed y" "ua_reasons y = [''ACCOUNT_ID_MISMATCH'']"
    using demo_deny(1) by (auto split: sum.splits)
  obtain z :: "int approval" where z: "deny [''BATCH_ROLLED_BACK''] = Inr z" "\<not> ua_allowed z"
    using demo_deny(2) by (auto split: sum.splits)
  have "rq_account_id ?r \<noteq> ar_account_id demo_facts" by (simp add: demo_facts_def)
  then have "approve demo_limits mem_port 5000 demo_env ?r demo_facts u = (Inr y, u)"
    using y by (simp add: approve_def denied_def)
  moreover have "\<exists>x' t. release_each [x] u = (Inr [x'], t)"
    using x(3-5) by (cases "vr_token v") (simp_all add: vr_release_def py_bind_eq py_then_def release_increase_def)
  ultimately obtain b t where b: "approve_batch demo_limits mem_port 5000 [(demo_env, demo_increase, demo_facts),
       (demo_env, ?r, demo_facts)] demo_state = (Inr b, t)" "\<not> ba_allowed b" "length (ba_approvals b) = 2"
    using x(1,2) y(2,3) z by (auto simp: approve_batch_def py_bind_eq mk_batch_def)
  have "distinct (map fst (co_reduce demo_state))" by (simp add: demo_state_def)
  from denied_batch_reserves_nothing [OF b(1,2) this] b show ?thesis by (auto simp: demo_env_fields)
qed

section \<open>Confirmations\<close>

definition demo_held :: "int risk_reservation" where
  "demo_held = \<lparr>vr_decision_id = ''d1'', vr_intent_id = ''i1'', vr_idempotency_key = ''k1'', vr_correlation_id = ''x1'',
     vr_snapshot_id = ''s1'', vr_request_json = ''{}'', vr_snapshot_json = ''{}'', vr_rules_version = rules_version,
     vr_evaluated_at_ms = 1000, vr_quantity = 2, vr_notional = 14, vr_fencing_token = 1, vr_target_version = None,
     vr_intent_expires = None, vr_token = Some ''t0'', vr_reduce = None, vr_expires_at_ms = Some 9000,
     vr_released = False, vr_committed = False, vr_accepted = False, vr_record = None\<rparr>"

definition demo_commits :: "commit_map commit_port" where
  "demo_commits = \<lparr>cp_commit = mem_commit, cp_read = mem_read_commit\<rparr>"

definition demo_moment :: "int confirm_env" where
  "demo_moment = \<lparr>ce_now = Inr 2000, ce_lock_now = 0, ce_writer_clock = Inr 2000, ce_committed_at = Inr 2000\<rparr>"

lemma demo_confirms:
  "case confirm mem_port demo_commits demo_moment ''o1'' ((demo_state, demo_held), []) of
     (Inr rec, ((c, v), x)) \<Rightarrow> co_increase c = [] \<and> \<not> vr_committed demo_held \<and> vr_expired demo_moment demo_held = Inr False
   | (Inl e, s) \<Rightarrow> False"
  by code_simp

theorem capacity_freed_for_evidence_witness:
  "\<exists>rec c v x. confirm mem_port demo_commits demo_moment ''o1'' ((demo_state, demo_held), []) = (Inr rec, ((c, v), x)) \<and>
     co_increase c = [] \<and> (\<exists>rec. verified demo_commits (vr_decision_id demo_held) rec x)"
proof -
  obtain rec c v x where c: "confirm mem_port demo_commits demo_moment ''o1'' ((demo_state, demo_held), []) = (Inr rec, ((c, v), x))"
      "co_increase c = []" "vr_expired demo_moment demo_held \<noteq> Inr True"
    using demo_confirms by (auto split: prod.splits sum.splits)
  moreover have "co_increase demo_state \<noteq> []" by (simp add: demo_state_def)
  ultimately show ?thesis using capacity_freed_for_evidence [OF c(1,3)] by auto
qed

theorem confirmed_is_durable_witness:
  "\<exists>rec c v x. confirm mem_port demo_commits demo_moment ''o1'' ((demo_state, demo_held), []) = (Inr rec, ((c, v), x)) \<and>
     verified demo_commits (vr_decision_id demo_held) rec x \<and> vr_committed v"
proof -
  obtain rec c v x where c: "confirm mem_port demo_commits demo_moment ''o1'' ((demo_state, demo_held), []) = (Inr rec, ((c, v), x))"
    using demo_confirms by (auto split: prod.splits sum.splits)
  then show ?thesis using confirmed_is_durable [OF c] by blast
qed

theorem released_reservation_confirmed_witness:
  "fst (confirm mem_port demo_commits demo_moment ''o1''
     ((demo_state, demo_held\<lparr>vr_record := Some ((demo_evidence ''d1'' ''k1'')\<lparr>cr_reference := ''o1''\<rparr>), vr_released := True\<rparr>), []))
   = Inr ((demo_evidence ''d1'' ''k1'')\<lparr>cr_reference := ''o1''\<rparr>)"
proof -
  let ?rec = "(demo_evidence ''d1'' ''k1'')\<lparr>cr_reference := ''o1''\<rparr>"
  let ?v = "demo_held\<lparr>vr_record := Some ?rec, vr_released := True\<rparr>"
  have s: "strip ''o1'' = ''o1''" "nonempty ''decision_id'' ''d1'' = Inr ''d1''" by code_simp+
  have "assert_fencing_token mem_port (ce_writer_clock demo_moment) (vr_fencing_token ?v) (co_writer demo_state) = (Inr demo_grant, demo_after)"
    by (simp add: assert_fencing_token_def demo_moment_def demo_held_def demo_env_fields demo_leased py_bind_eq) (simp add: demo_grant_def)
  moreover have "cp_commit demo_commits ?rec [] = (Inr True, [(''d1'', ?rec)])"
    by (simp add: demo_commits_def mem_commit_def demo_evidence_def)
  moreover have "cp_read demo_commits (vr_decision_id ?v) [(''d1'', ?rec)] = (Inr (Some ?rec), [(''d1'', ?rec)])"
    by (simp add: demo_commits_def mem_read_commit_def demo_held_def s)
  moreover have "vr_expired demo_moment ?v = Inr False"
    by (simp add: vr_expired_def demo_moment_def demo_held_def approval_now_def)
  ultimately show ?thesis
    using released_reservation_confirmed [of ?v ?rec "''o1''" demo_moment mem_port demo_state demo_grant demo_after demo_commits "[]"]
    by (simp add: s demo_held_def)
qed

end
