(* ===== verification/Risk_Batch.thy ===== *)
theory Risk_Batch
  imports Risk_Confirm
begin

text \<open>
  The confirmation of a batch (\<open>UnifiedRiskBatchApproval.confirm\<close> in
  \<open>freqtrade/hedge/risk/actions.py\<close>) over the coordinator, the approvals with their mutable reservations and a
  store that commits a batch; and what it promises: a batch that returns is durable item by item, and one
  that the store accepted keeps its capacity until that is verified.
\<close>

section \<open>The operations\<close>

record 'c batch_port = "'c commit_port" +
  bp_commit_batch :: "commit_record list \<Rightarrow> ('c, bool) py"

type_synonym ('t, 'd) held_batch = "('t, 'd) coordinator \<times> 't approval list"

definition holding_reservation :: "'t approval \<Rightarrow> 't risk_reservation \<Rightarrow> 't approval" where
  "holding_reservation x v = x\<lparr>ua_reservation := Some v\<rparr>"

fun build_each :: "'d lease_port \<Rightarrow> ('t :: linorder confirm_env \<times> string) list \<Rightarrow>
    (('t, 'd) held_batch, commit_record list) py" where
  \<comment> \<open>the loop over the approvals and references; each item has its own readings of the clocks\<close>
  "build_each p ((env, reference) # items) (c, x # xs) = (case ua_reservation x of
     None \<Rightarrow> (Inl (Exn RuntimeError ''Allowed approval is missing reservation.''), (c, x # xs))
   | Some v \<Rightarrow> (case build_commit p env reference (c, v) of
       (Inl e, (c', v')) \<Rightarrow> (Inl e, (c', holding_reservation x v' # xs))
     | (Inr rec, (c', v')) \<Rightarrow> (case build_each p items (c', xs) of
         (Inl e, (c'', xs')) \<Rightarrow> (Inl e, (c'', holding_reservation x v' # xs'))
       | (Inr recs, (c'', xs')) \<Rightarrow> (Inr (rec # recs), (c'', holding_reservation x v' # xs')))))"
| "build_each p items s = (Inr [], s)"

definition accept_each :: "(('t, 'd) held_batch, unit) py" where
  "accept_each = py_mod (\<lambda>(c, xs). (c, map (\<lambda>x. x\<lparr>ua_reservation :=
     map_option (\<lambda>v. v\<lparr>vr_accepted := True\<rparr>) (ua_reservation x)\<rparr>) xs))"

fun unverified :: "('c, 'z) commit_port_scheme \<Rightarrow> commit_record list \<Rightarrow> ('c, bool) py" where
  \<comment> \<open>whether some record is not the one that the store answers; stops at the first\<close>
  "unverified cp [] = py_ret False"
| "unverified cp (r # rs) = py_bind (cp_read cp (cr_decision_id r)) (\<lambda>x.
     if x \<noteq> Some r then py_ret True else unverified cp rs)"

fun commit_each :: "(('t, 'd) held_batch, unit) py" where
  "commit_each (c, []) = (Inr (), (c, []))"
| "commit_each (c, x # xs) = (case ua_reservation x of
     None \<Rightarrow> (case commit_each (c, xs) of (r, (c', xs')) \<Rightarrow> (r, (c', x # xs')))
   | Some v \<Rightarrow> (case mark_committed (c, v) of
       (Inl e, (c', v')) \<Rightarrow> (Inl e, (c', holding_reservation x v' # xs))
     | (Inr _, (c', v')) \<Rightarrow> (case commit_each (c', xs) of (r, (c'', xs')) \<Rightarrow> (r, (c'', holding_reservation x v' # xs')))))"

definition hand_over :: "'d lease_port \<Rightarrow> 'c batch_port \<Rightarrow> ('t :: linorder confirm_env \<times> string) list \<Rightarrow>
    (('t, 'd) held_batch \<times> 'c, commit_record list) py" where
  \<comment> \<open>up to the acceptance of the batch\<close>
  "hand_over p cp items = py_bind (on_held (build_each p items)) (\<lambda>recs.
     py_bind (on_store (bp_commit_batch cp recs)) (\<lambda>accepted. if accepted then py_ret recs
       else py_raise (Exn RuntimeError ''Durable risk approval batch commit was rejected.'')))"

definition verify_batch :: "'c batch_port \<Rightarrow> commit_record list \<Rightarrow> (('t, 'd) held_batch \<times> 'c, commit_record list) py" where
  \<comment> \<open>from the acceptance on\<close>
  "verify_batch cp recs = py_then (on_held accept_each) (py_bind (on_store (unverified cp recs)) (\<lambda>failed.
     if failed then py_raise (Exn RuntimeError ''Durable risk approval batch commit verification failed.'')
     else py_then (on_held commit_each) (py_ret recs)))"

definition confirm_batch :: "'d lease_port \<Rightarrow> 'c batch_port \<Rightarrow> ('t :: linorder confirm_env \<times> string) list \<Rightarrow>
    ((('t, 'd) coordinator \<times> 't batch_approval) \<times> 'c, commit_record list) py" where
  "confirm_batch p cp items s = (case s of ((c, b), x) \<Rightarrow>
     if length items \<noteq> length (ba_approvals b)
     then (value_error ''durable_references must match approval count.'', s) else
     case hand_over p cp items ((c, ba_approvals b), x) of
       (Inl e, ((c', xs), x')) \<Rightarrow> (case batch_release (b\<lparr>ba_approvals := xs\<rparr>) c' of
           (Inl e', c'') \<Rightarrow> (Inl e', ((c'', b\<lparr>ba_approvals := xs\<rparr>), x'))
         | (Inr b', c'') \<Rightarrow> (Inl e, ((c'', b'), x')))
     | (Inr recs, s') \<Rightarrow> (case verify_batch cp recs s' of
           (Inl e, ((c', xs), x')) \<Rightarrow> (Inl e, ((c', b\<lparr>ba_approvals := xs\<rparr>), x'))
         | (Inr recs, ((c', xs), x')) \<Rightarrow> (Inr recs, ((c', b\<lparr>ba_approvals := xs, ba_released := True\<rparr>), x'))))"

section \<open>Its steps\<close>

lemma on_held_Inr: "on_held m (h, x) = (Inr r, s) \<longleftrightarrow> (\<exists>g. m h = (Inr r, g) \<and> s = (g, x))"
  by (auto simp: on_held_eq split: prod.splits)

lemma on_store_Inr: "on_store m (h, x) = (Inr r, s) \<longleftrightarrow> (\<exists>y. m x = (Inr r, y) \<and> s = (h, y))"
  by (auto simp: on_store_eq split: prod.splits)

lemma unverified_False:
  assumes "unverified cp rs x = (Inr False, y)"
  shows "\<forall>r \<in> set rs. \<exists>u w. cp_read cp (cr_decision_id r) u = (Inr (Some r), w)"
  using assms
proof (induction rs arbitrary: x)
  case (Cons r rs)
  obtain q z where q: "cp_read cp (cr_decision_id r) x = (Inr q, z)"
    and rest: "(if q \<noteq> Some r then py_ret True else unverified cp rs) z = (Inr False, y)"
    using Cons.prems by (auto simp: py_bind_Inr)
  then have "q = Some r" "unverified cp rs z = (Inr False, y)" by (auto simp: py_ret_def split: if_splits)
  then show ?case using Cons.IH q by auto
qed simp

lemma build_each_length:
  "build_each p items (c, xs) = (Inr recs, (c', xs')) \<Longrightarrow> length items = length xs \<Longrightarrow> length recs = length xs"
proof (induction p items "(c, xs)" arbitrary: c xs recs c' xs' rule: build_each.induct)
  case (1 p env reference items c x xs)
  then show ?case by (fastforce split: option.splits prod.splits sum.splits)
qed auto

definition committed_item :: "'t approval \<Rightarrow> bool" where
  "committed_item x \<longleftrightarrow> (\<forall>v. ua_reservation x = Some v \<longrightarrow> vr_committed v \<and> vr_released v)"

lemma commit_each_committed:
  "commit_each (c, xs) = (Inr (), (c', xs')) \<Longrightarrow> (\<forall>x \<in> set xs'. committed_item x) \<and> length xs' = length xs"
proof (induction xs arbitrary: c c' xs')
  case (Cons x xs)
  show ?case
  proof (cases "ua_reservation x")
    case None
    then show ?thesis using Cons by (fastforce simp: committed_item_def split: prod.splits)
  next
    case (Some v)
    obtain r1 c1 v1 where m: "mark_committed (c, v) = (r1, (c1, v1))" by (metis surj_pair)
    then obtain c2 xs2 where r: "r1 = Inr ()" "commit_each (c1, xs) = (Inr (), (c2, xs2))" "c' = c2" "xs' = holding_reservation x v1 # xs2"
      using Cons.prems Some by (auto split: sum.splits prod.splits)
    show ?thesis
      using mark_committed_facts [OF m] r Cons.IH [OF r(2)] by (auto simp: committed_item_def holding_reservation_def)
  qed
qed simp

lemma accept_each_state [simp]: "accept_each (c, xs) = (Inr (), (c, map (\<lambda>x. x\<lparr>ua_reservation :=
     map_option (\<lambda>v. v\<lparr>vr_accepted := True\<rparr>) (ua_reservation x)\<rparr>) xs))"
  by (simp add: accept_each_def)

lemma verify_batch_Inr:
  assumes "verify_batch cp recs ((c, xs), x) = (Inr recs', ((c', xs'), x'))"
  shows "recs' = recs \<and> (\<forall>r \<in> set recs. \<exists>u w. cp_read cp (cr_decision_id r) u = (Inr (Some r), w)) \<and>
    (\<forall>x \<in> set xs'. committed_item x)"
proof -
  let ?xs = "map (\<lambda>x. x\<lparr>ua_reservation := map_option (\<lambda>v. v\<lparr>vr_accepted := True\<rparr>) (ua_reservation x)\<rparr>) xs"
  obtain y where u: "unverified cp recs x = (Inr False, y)"
      "py_then (on_held commit_each) (py_ret recs) ((c, ?xs), y) = (Inr recs', ((c', xs'), x'))"
    using assms by (auto simp: verify_batch_def py_then_Inr on_held_Inr py_bind_Inr on_store_Inr py_raise_def
        split: if_splits)
  then have "commit_each (c, ?xs) = (Inr (), (c', xs')) \<and> recs' = recs"
    by (auto simp: py_then_Inr on_held_Inr py_ret_def)
  then show ?thesis using unverified_False [OF u(1)] commit_each_committed by blast
qed

lemma hand_over_Inr:
  assumes "hand_over p cp items ((c, xs), x) = (Inr recs, ((c', xs'), x'))"
  shows "build_each p items (c, xs) = (Inr recs, (c', xs')) \<and> bp_commit_batch cp recs x = (Inr True, x')"
  using assms by (auto simp: hand_over_def py_bind_Inr on_held_Inr on_store_Inr py_raise_def py_ret_def split: if_splits)

section \<open>What it promises\<close>


lemma build_each_kept:
  "build_each p items (c, xs) = (Inr recs, (c', xs')) \<Longrightarrow> co_increase c' = co_increase c \<and> co_reduce c' = co_reduce c"
proof (induction xs arbitrary: c items recs c' xs')
  case Nil
  then show ?case by (cases items) auto
next
  case (Cons x xs)
  show ?case
  proof (cases items)
    case Nil
    then show ?thesis using Cons.prems by simp
  next
    case (Cons item rest)
    obtain env reference where item: "item = (env, reference)" by (cases item)
    obtain v rec c1 v1 c2 xs2 recs2 where s: "ua_reservation x = Some v" "build_commit p env reference (c, v) = (Inr rec, (c1, v1))"
        "build_each p rest (c1, xs) = (Inr recs2, (c2, xs2))" "c' = c2"
      using Cons.prems Cons item by (auto split: option.splits prod.splits sum.splits)
    show ?thesis using build_commit_record(3,4) [OF s(2)] Cons.IH [OF s(3)] s(4) by simp
  qed
qed

lemma reservation_release_total: "\<exists>w' d. reservation_release w rs = (Inr w', d)"
  by (cases "rv_token w"; cases "dict_get rs (rv_key w)")
    (auto simp: reservation_release_def py_then_def py_bind_eq release_reservation_def py_ret_def Let_def)

lemma vr_release_total: "\<exists>v' t. vr_release v s = (Inr v', t) \<and> vr_released v'"
proof (cases "vr_released v")
  case False
  obtain rd u where "(case vr_reduce v of None \<Rightarrow> py_ret None
       | Some rv \<Rightarrow> py_bind (on_reduce (reservation_release rv)) (\<lambda>rv'. py_ret (Some rv'))) s = (Inr rd, u)"
  proof (cases "vr_reduce v")
    case (Some w)
    obtain w' d where "reservation_release w (co_reduce s) = (Inr w', d)" using reservation_release_total by blast
    then show ?thesis using that Some by (simp add: py_bind_eq on_reduce_def py_ret_def)
  qed (simp add: py_ret_def that)
  then show ?thesis using False
    by (cases "vr_token v") (simp_all add: vr_release_def py_bind_InrI py_then_def release_increase_def py_ret_def)
qed (simp add: vr_release_def py_ret_def)

lemma mark_committed_total: "\<exists>h. mark_committed (c, v) = (Inr (), h)"
  using vr_release_total [of "v\<lparr>vr_accepted := True, vr_committed := True\<rparr>" c]
  by (auto simp: mark_committed_def py_then_def held_release_def)

lemma commit_each_total: "\<exists>h. commit_each (c, xs) = (Inr (), h)"
proof (induction xs arbitrary: c)
  case (Cons x xs)
  show ?case
  proof (cases "ua_reservation x")
    case None
    then show ?thesis using Cons [of c] by auto
  next
    case (Some v)
    obtain c1 v1 where "mark_committed (c, v) = (Inr (), (c1, v1))" using mark_committed_total by (metis surj_pair)
    then show ?thesis using Some Cons [of c1] by auto
  qed
qed simp

definition given_back :: "'t approval \<Rightarrow> bool" where
  "given_back x \<longleftrightarrow> (\<forall>v. ua_reservation x = Some v \<longrightarrow> vr_released v)"

lemma release_each_total: "\<exists>ys t. release_each xs s = (Inr ys, t) \<and> (\<forall>y \<in> set ys. given_back y)"
proof (induction xs arbitrary: s)
  case (Cons x xs)
  show ?case
  proof (cases "ua_reservation x")
    case None
    then show ?thesis using Cons [of s] by (auto simp: py_bind_eq py_ret_def given_back_def)
  next
    case (Some v)
    obtain v' u where "vr_release v s = (Inr v', u)" "vr_released v'" using vr_release_total by blast
    then show ?thesis using Some Cons [of u] by (auto simp: py_bind_eq py_ret_def given_back_def)
  qed
qed (simp add: py_ret_def)


end
