(* ===== verification/Risk_Batch_Demo.thy ===== *)
theory Risk_Batch_Demo
  imports Risk_Batch Risk_Approval_Demo
begin

text \<open>The witnesses of the properties of a batch's confirmation: a batch of one increase, over a store that
  accepts and one that can no longer be read.\<close>

definition demo_item :: "int approval" where
  "demo_item = \<lparr>ua_allowed = True, ua_quantity = 2, ua_notional = 14, ua_reasons = [''WITHIN_LIMITS''],
     ua_reservation = Some demo_held, ua_meta = no_meta\<rparr>"

definition demo_batch :: "int batch_approval" where
  "demo_batch = \<lparr>ba_allowed = True, ba_approvals = [demo_item], ba_reasons = [''BATCH_APPROVED''], ba_released = False\<rparr>"

definition demo_batches :: "commit_map batch_port" where
  "demo_batches = \<lparr>cp_commit = mem_commit, cp_read = mem_read_commit, bp_commit_batch = mem_commit_batch\<rparr>"

definition demo_unread :: "commit_map batch_port" where
  "demo_unread = demo_batches\<lparr>cp_read := (\<lambda>i d. (Inr None, d))\<rparr>"

lemma demo_batch_confirms:
  "case confirm_batch mem_port demo_batches [(demo_moment, ''o1'')] ((demo_state, demo_batch), []) of
     (Inr recs, ((c, b), x)) \<Rightarrow> co_increase c = [] | (Inl e, s) \<Rightarrow> False"
  by code_simp


lemma demo_batch_unread:
  "case confirm_batch mem_port demo_unread [(demo_moment, ''o1'')] ((demo_state, demo_batch), []) of
     (Inr recs, s) \<Rightarrow> False | (Inl e, s) \<Rightarrow> True"
  by code_simp

lemma demo_batch_handed:
  "case fst (hand_over mem_port demo_unread [(demo_moment, ''o1'')] ((demo_state, ba_approvals demo_batch), [])) of
     Inr recs \<Rightarrow> True | Inl e \<Rightarrow> False"
  by code_simp


end
