(* ===== verification/Lease_Runner.thy ===== *)
theory Lease_Runner
  imports Single_Writer
begin

text \<open>
  The lifecycle service of the single-writer lease (\<open>freqtrade/hedge/concurrency/lease_runner.py\<close>) over a
  guard and its store. The background thread is a sequence of \<open>run_once\<close> steps; whether a thread ends within
  the timeout of \<open>stop\<close> is an argument. Callbacks act on a state of their own. Intervals are rational seconds.
\<close>

section \<open>The runner\<close>

datatype runner_mode = RUN_STOPPED | RUN_ACQUIRING | RUN_ACTIVE | RUN_LOST

record runner =
  ru_interval :: rat
  ru_mode :: runner_mode
  ru_renewals :: int
  ru_acquisitions :: int
  ru_error :: "string option"
  ru_running :: bool

record runner_status =
  us_mode :: runner_mode
  us_writer :: writer_status
  us_renewals :: int
  us_acquisitions :: int
  us_error :: "string option"

definition us_active :: "runner_status \<Rightarrow> bool" where
  "us_active u \<longleftrightarrow> us_mode u = RUN_ACTIVE \<and> ws_valid (us_writer u)"

record 'x runner_callbacks =
  rc_active :: "(runner_status \<Rightarrow> ('x, unit) py) option"
  rc_lost :: "(runner_status \<Rightarrow> ('x, unit) py) option"

record run_clocks =
  cl_before :: "int res"
  cl_guard :: "int res"
  cl_after :: "int res"
  cl_notify :: "int res"

type_synonym ('d, 'x) running = "('d \<times> writer_guard) \<times> runner \<times> 'x"

definition mk_runner :: "rat option \<Rightarrow> writer_guard \<Rightarrow> runner res" where
  "mk_runner interval g = (let i = (case interval of None \<Rightarrow> of_int (wg_ttl_ms g) / 3000 | Some v \<Rightarrow> v) in
     if i \<le> 0 then Inl (Exn ValueError ''interval_seconds must be a positive finite number.'')
     else if i * 1000 \<ge> of_int (wg_ttl_ms g)
     then Inl (Exn ValueError ''interval_seconds must be shorter than the lease TTL.'')
     else Inr \<lparr>ru_interval = i, ru_mode = RUN_STOPPED, ru_renewals = 0, ru_acquisitions = 0, ru_error = None,
       ru_running = False\<rparr>)"

definition runner_view :: "'d lease_port \<Rightarrow> int res \<Rightarrow> 'd \<times> writer_guard \<Rightarrow> runner \<Rightarrow>
    runner_status \<times> ('d \<times> writer_guard)" where
  \<comment> \<open>\<open>status\<close>\<close>
  "runner_view p clock w ru = (case sw_status p clock w of (st, w') \<Rightarrow>
     (\<lparr>us_mode = ru_mode ru, us_writer = st, us_renewals = ru_renewals ru,
       us_acquisitions = ru_acquisitions ru, us_error = ru_error ru\<rparr>, w'))"

definition notify :: "'d lease_port \<Rightarrow> int res \<Rightarrow> (runner_status \<Rightarrow> ('x, unit) py) option \<Rightarrow>
    ('d, 'x) running \<Rightarrow> ('d, 'x) running" where
  "notify p clock callback s = (case callback of None \<Rightarrow> s
   | Some f \<Rightarrow> (case s of (w, ru, x) \<Rightarrow> case runner_view p clock w ru of (st, w') \<Rightarrow> (w', ru, snd (f st x))))"

definition guard_step :: "'d lease_port \<Rightarrow> int res \<Rightarrow> 'd \<times> writer_guard \<Rightarrow> runner \<Rightarrow>
    lease_record res \<times> ('d \<times> writer_guard) \<times> runner" where
  \<comment> \<open>the body of the \<open>try\<close> of \<open>run_once\<close>\<close>
  "guard_step p clock w ru = (if wg_lease (snd w) = None
     then (case sw_acquire p clock w of
         (Inl e, w') \<Rightarrow> (Inl e, w', ru)
       | (Inr l, w') \<Rightarrow> (Inr l, w', ru\<lparr>ru_acquisitions := ru_acquisitions ru + 1\<rparr>))
     else (case sw_renew p clock w of
         (Inl e, w') \<Rightarrow> (Inl e, w', ru)
       | (Inr l, w') \<Rightarrow> (Inr l, w', ru\<lparr>ru_renewals := ru_renewals ru + 1\<rparr>)))"

definition run_once :: "'d lease_port \<Rightarrow> 'x runner_callbacks \<Rightarrow> run_clocks \<Rightarrow> ('d, 'x) running \<Rightarrow>
    runner_status \<times> ('d, 'x) running" where
  "run_once p cb cl s = (case s of (w, ru, x) \<Rightarrow>
     case runner_view p (cl_before cl) w ru of (previous, w1) \<Rightarrow>
     case guard_step p (cl_guard cl) w1 (ru\<lparr>ru_mode := RUN_ACQUIRING\<rparr>) of
       (Inl e, w2, ru2) \<Rightarrow>
         if is_a e LeaseLost \<or> is_a e LeaseUnavailable then
           (let ru3 = ru2\<lparr>ru_mode := RUN_LOST, ru_error := Some (exn_str e)\<rparr> in
            case runner_view p (cl_after cl) w2 ru3 of (current, w3) \<Rightarrow>
            (current, if us_mode previous \<noteq> RUN_LOST then notify p (cl_notify cl) (rc_lost cb) (w3, ru3, x)
              else (w3, ru3, x)))
         else
           (let ru3 = ru2\<lparr>ru_mode := RUN_LOST, ru_error := Some (exn_name e @ '': '' @ exn_str e)\<rparr> in
            case (if us_mode previous \<noteq> RUN_LOST then notify p (cl_notify cl) (rc_lost cb) (w2, ru3, x)
              else (w2, ru3, x)) of (w3, ru4, x') \<Rightarrow>
            case runner_view p (cl_after cl) w3 ru4 of (current, w4) \<Rightarrow> (current, (w4, ru4, x')))
     | (Inr l, w2, ru2) \<Rightarrow>
         let ru3 = ru2\<lparr>ru_mode := RUN_ACTIVE, ru_error := None\<rparr> in
         case runner_view p (cl_after cl) w2 ru3 of (current, w3) \<Rightarrow>
         (current, if \<not> us_active previous then notify p (cl_notify cl) (rc_active cb) (w3, ru3, x)
           else (w3, ru3, x)))"

definition runner_start :: "'d lease_port \<Rightarrow> 'x runner_callbacks \<Rightarrow> run_clocks \<Rightarrow> int res \<Rightarrow> bool \<Rightarrow>
    ('d, 'x) running \<Rightarrow> runner_status \<times> ('d, 'x) running" where
  \<comment> \<open>the fourth argument is the reading of the final \<open>status\<close>\<close>
  "runner_start p cb cl last_clock require_initial_acquire s = (case s of (w, ru, x) \<Rightarrow>
     if ru_running ru then (case runner_view p last_clock w ru of (st, w') \<Rightarrow> (st, (w', ru, x))) else
     case run_once p cb cl s of (initial, (w1, ru1, x1)) \<Rightarrow>
     if require_initial_acquire \<and> \<not> us_active initial then (initial, (w1, ru1, x1)) else
     let ru2 = ru1\<lparr>ru_running := True\<rparr> in
     case runner_view p last_clock w1 ru2 of (st, w2) \<Rightarrow> (st, (w2, ru2, x1)))"

definition runner_stop :: "'d lease_port \<Rightarrow> bool \<Rightarrow> bool \<Rightarrow> int res \<Rightarrow> ('d, 'x) running \<Rightarrow>
    runner_status \<times> ('d, 'x) running" where
  \<comment> \<open>the second argument: the background thread ended within the timeout\<close>
  "runner_stop p ended release clock s = (case s of (w, ru, x) \<Rightarrow>
     if ru_running ru \<and> \<not> ended then
       (let ru1 = ru\<lparr>ru_mode := RUN_LOST, ru_error := Some ''LEASE_RUNNER_STOP_TIMEOUT''\<rparr> in
        case runner_view p clock w ru1 of (st, w') \<Rightarrow> (st, (w', ru1, x)))
     else
       (let w1 = (if release then snd (sw_release p w) else w);
            ru1 = ru\<lparr>ru_running := False, ru_mode := RUN_STOPPED, ru_error := None\<rparr> in
        case runner_view p clock w1 ru1 of (st, w') \<Rightarrow> (st, (w', ru1, x))))"

definition runner_enter :: "'d lease_port \<Rightarrow> 'x runner_callbacks \<Rightarrow> run_clocks \<Rightarrow> int res \<Rightarrow>
    (('d, 'x) running, unit) py" where
  "runner_enter p cb cl last_clock s = (case runner_start p cb cl last_clock True s of (st, s') \<Rightarrow>
     if us_active st then (Inr (), s') else
     (Inl (Exn LeaseUnavailable (case us_error st of
        None \<Rightarrow> ''Single-writer lease unavailable.''
      | Some t \<Rightarrow> if t = [] then ''Single-writer lease unavailable.'' else t)), s'))"

definition at_time :: "int \<Rightarrow> run_clocks" where
  "at_time now = \<lparr>cl_before = Inr now, cl_guard = Inr now, cl_after = Inr now, cl_notify = Inr now\<rparr>"

fun runs :: "'d lease_port \<Rightarrow> 'x runner_callbacks \<Rightarrow> int list \<Rightarrow> ('d, 'x) running \<Rightarrow> ('d, 'x) running" where
  \<comment> \<open>the background thread, with the times at which it wakes up\<close>
  "runs p cb [] s = s"
| "runs p cb (now # wakes) s = runs p cb wakes (snd (run_once p cb (at_time now) s))"

section \<open>Stores that renew a live lease\<close>

locale renewing_store = writer_store +
  assumes renew_live: "ok d now \<Longrightarrow> look d (le_name c) = Some c \<Longrightarrow> now < le_expires_at c \<Longrightarrow> 0 \<le> now \<Longrightarrow>
    0 < ttl \<Longrightarrow> le_acquired_at c \<le> now \<Longrightarrow>
    \<exists>d'. ren c now ttl d = (Inr (Some (c\<lparr>le_renewed_at := now, le_expires_at := now + ttl\<rparr>)), d')"

context renewing_store begin

definition live_guard :: "int \<Rightarrow> 'a \<times> writer_guard \<Rightarrow> lease_record \<Rightarrow> bool" where
  \<comment> \<open>at this time the guard holds this lease, and the store agrees\<close>
  "live_guard now w c \<longleftrightarrow> ok (fst w) now \<and> wg_lease (snd w) = Some c \<and> \<not> wg_lost (snd w) \<and>
     look (fst w) (wg_lease_name (snd w)) = Some c \<and> le_name c = wg_lease_name (snd w) \<and>
     lease_text (wg_lease_name (snd w)) \<and> 0 < wg_ttl_ms (snd w) \<and> 0 \<le> now \<and> now < le_expires_at c \<and>
     le_acquired_at c \<le> now"

lemma live_status:
  assumes "live_guard now w c"
  shows "sw_status port (Inr now) w = (\<lparr>ws_valid = True, ws_owner_id = wg_owner_id (snd w),
    ws_lease_name = wg_lease_name (snd w), ws_fencing_token = Some (le_token c),
    ws_expires_at_ms = Some (le_expires_at c), ws_reason_code = ''SINGLE_WRITER_LEASE_VALID''\<rparr>, w)"
proof (cases w)
  case (Pair d g)
  have "rd (wg_lease_name g) d = (Inr (Some c), d)"
    using assms read_live [of d now "wg_lease_name g"] by (simp add: live_guard_def Pair)
  then show ?thesis using assms
    by (simp add: sw_status_def Pair live_guard_def now_ms_def still_held_def lease_valid_def)
qed

definition extended :: "int \<Rightarrow> int \<Rightarrow> lease_record \<Rightarrow> lease_record" where
  "extended now ttl c = c\<lparr>le_renewed_at := now, le_expires_at := now + ttl\<rparr>"

lemma live_renew:
  assumes "live_guard now (d, g) c"
  shows "\<exists>w'. sw_renew port (Inr now) (d, g) = (Inr (extended now (wg_ttl_ms g) c), w') \<and> same_writer g (snd w') \<and>
    (\<forall>t. now \<le> t \<and> t < now + wg_ttl_ms g \<longrightarrow> live_guard t w' (extended now (wg_ttl_ms g) c))"
proof -
  let ?c = "extended now (wg_ttl_ms g) c"
  have a: "ok d now" "look d (le_name c) = Some c" "0 \<le> now" "now < le_expires_at c" "0 < wg_ttl_ms g"
    "le_acquired_at c \<le> now" "wg_lease g = Some c" "le_name c = wg_lease_name g" "lease_text (wg_lease_name g)"
    "\<not> wg_lost g"
    using assms by (auto simp: live_guard_def)
  obtain d' where r: "ren c now (wg_ttl_ms g) d = (Inr (Some ?c), d')"
    using renew_live [OF a(1,2,4,3,5,6)] by (auto simp: extended_def)
  have law: "ok d' now" "look d' (wg_lease_name g) = Some ?c" using renew_law [OF a(1) r] a(2,8) by (auto simp: extended_def)
  let ?w = "(d', g\<lparr>wg_lease := Some ?c\<rparr>)"
  have "sw_renew port (Inr now) (d, g) = (Inr ?c, ?w)" using a r by (simp add: sw_renew_def now_ms_def)
  moreover have "live_guard t ?w ?c" if "now \<le> t" "t < now + wg_ttl_ms g" for t
    using a law that ok_later [OF law(1) that(1)] by (simp add: live_guard_def extended_def)
  ultimately show ?thesis by (auto simp: same_writer_def)
qed

lemma live_view:
  assumes "live_guard now w c"
  shows "\<exists>st. runner_view port (Inr now) w ru = (st, w) \<and> ws_valid (us_writer st) \<and> us_mode st = ru_mode ru"
  using live_status [OF assms] by (simp add: runner_view_def)

lemma notify_live: "live_guard now w c \<Longrightarrow> \<exists>y. notify port (Inr now) cb (w, ru, x) = (w, ru, y)"
  using live_view [of now w c ru] by (auto simp: notify_def split: option.split)

lemma run_renews:
  assumes "live_guard now (d, g) c"
  shows "\<exists>st w' ru' x'. run_once port cb (at_time now) ((d, g), ru, x) = (st, (w', ru', x')) \<and> us_active st \<and>
    ru_mode ru' = RUN_ACTIVE \<and> ru_renewals ru' = ru_renewals ru + 1 \<and> ru_acquisitions ru' = ru_acquisitions ru \<and>
    same_writer g (snd w') \<and>
    (\<forall>t. now \<le> t \<and> t < now + wg_ttl_ms g \<longrightarrow> live_guard t w' (extended now (wg_ttl_ms g) c))"
proof -
  obtain previous where v: "runner_view port (Inr now) (d, g) ru = (previous, (d, g))" using live_view [OF assms] by blast
  obtain w' where w: "sw_renew port (Inr now) (d, g) = (Inr (extended now (wg_ttl_ms g) c), w')" "same_writer g (snd w')"
    and live: "\<forall>t. now \<le> t \<and> t < now + wg_ttl_ms g \<longrightarrow> live_guard t w' (extended now (wg_ttl_ms g) c)"
    using live_renew [OF assms] by blast
  let ?ru = "ru\<lparr>ru_mode := RUN_ACTIVE, ru_renewals := ru_renewals ru + 1, ru_error := None\<rparr>"
  have "wg_lease g = Some c" "0 < wg_ttl_ms g" using assms by (simp_all add: live_guard_def)
  then have step: "guard_step port (Inr now) (d, g) (ru\<lparr>ru_mode := RUN_ACQUIRING\<rparr>)
      = (Inr (extended now (wg_ttl_ms g) c), w', ru\<lparr>ru_mode := RUN_ACQUIRING, ru_renewals := ru_renewals ru + 1\<rparr>)"
    using w(1) by (simp add: guard_step_def)
  have now: "live_guard now w' (extended now (wg_ttl_ms g) c)" using live \<open>0 < wg_ttl_ms g\<close> by simp
  obtain st where st: "runner_view port (Inr now) w' ?ru = (st, w')" "ws_valid (us_writer st)" "us_mode st = RUN_ACTIVE"
    using live_view [OF now, of ?ru] by auto
  obtain y where "notify port (Inr now) (rc_active cb) (w', ?ru, x) = (w', ?ru, y)" using notify_live [OF now, of "rc_active cb" ?ru x] by metis
  then have "\<exists>y. run_once port cb (at_time now) ((d, g), ru, x) = (st, (w', ?ru, y))"
    using v step st by (cases ru) (simp add: run_once_def at_time_def Let_def)
  then show ?thesis using st(2,3) w(2) live by (cases w') (auto simp: us_active_def)
qed

lemma runs_keep:
  assumes "live_guard now (d, g) c" and "sorted (now # wakes)" and "successively (\<lambda>a b. b < a + wg_ttl_ms g) (now # wakes)"
    and "\<forall>t \<in> set (take 1 wakes). t < le_expires_at c"
  shows "\<exists>w' ru' x' c'. runs port cb wakes ((d, g), ru, x) = (w', ru', x') \<and> le_token c' = le_token c \<and>
    ru_renewals ru' = ru_renewals ru + int (length wakes) \<and> ru_acquisitions ru' = ru_acquisitions ru \<and>
    live_guard (last (now # wakes)) w' c'"
  using assms
proof (induction wakes arbitrary: now d g c ru x)
  case (Cons t wakes)
  have "live_guard t (d, g) c"
    using Cons.prems ok_later by (fastforce simp: live_guard_def)
  from run_renews [OF this, of cb ru x] obtain st d' g' ru' x' where r:
    "run_once port cb (at_time t) ((d, g), ru, x) = (st, ((d', g'), ru', x'))" "ru_renewals ru' = ru_renewals ru + 1"
    "ru_acquisitions ru' = ru_acquisitions ru" "same_writer g g'"
    "\<forall>s. t \<le> s \<and> s < t + wg_ttl_ms g \<longrightarrow> live_guard s (d', g') (extended t (wg_ttl_ms g) c)"
    by (metis prod.collapse snd_conv)
  have ttl: "wg_ttl_ms g' = wg_ttl_ms g" "0 < wg_ttl_ms g" using r(4) Cons.prems(1) by (simp_all add: same_writer_def live_guard_def)
  have "live_guard t (d', g') (extended t (wg_ttl_ms g) c)" using r(5) ttl by simp
  moreover have "sorted (t # wakes)" using Cons.prems(2) by simp
  moreover have "successively (\<lambda>a b. b < a + wg_ttl_ms g') (t # wakes)" using Cons.prems(3) ttl by simp
  moreover have "\<forall>s \<in> set (take 1 wakes). s < le_expires_at (extended t (wg_ttl_ms g) c)"
    using Cons.prems(3) by (cases wakes) (simp_all add: extended_def)
  ultimately show ?case
    using Cons.IH [of t d' g' "extended t (wg_ttl_ms g) c" ru' x'] r(1-3) by (auto simp: extended_def)
qed auto

end

context renewing_store begin

lemma expired_status:
  assumes "ok d now" and "lease_text (wg_lease_name g)" and "0 \<le> now" and "expired_at (look d (wg_lease_name g)) now"
    and "wg_lost g \<longrightarrow> wg_lease g = None"
  shows "\<exists>st g'. sw_status port (Inr now) (d, g) = (st, (d, g')) \<and> wg_lease g' = None \<and> same_writer g g'"
proof (cases "wg_lease g = None \<or> wg_lost g")
  case True
  then show ?thesis using assms(5) by (auto simp: sw_status_def same_writer_def)
next
  case False
  moreover have "rd (wg_lease_name g) d = (Inr (look d (wg_lease_name g)), d)" using read_live assms(1,2) by blast
  moreover have "\<not> still_held now (the (wg_lease g)) (look d (wg_lease_name g))"
    using assms(3,4) by (auto simp: still_held_def expired_at_def lease_valid_def split: option.splits)
  ultimately show ?thesis using assms(3) by (auto simp: sw_status_def now_ms_def)
qed

lemma takeover_live:
  assumes "ok d now" and "lease_text (wg_owner_id g)" and "lease_text (wg_lease_name g)"
    and "0 < wg_ttl_ms g" and "0 \<le> now" and "expired_at (look d (wg_lease_name g)) now"
  shows "\<exists>l d' g'. sw_acquire port (Inr now) (d, g) = (Inr l, (d', g')) \<and> live_guard now (d', g') l \<and>
    (\<forall>c. look d (wg_lease_name g) = Some c \<longrightarrow> le_token l = le_token c + 1)"
proof -
  let ?n = "wg_lease_name g" and ?ow = "wg_owner_id g" and ?ttl = "wg_ttl_ms g"
  define l where "l = grant_record ?n ?ow (next_grant (look d ?n) ?ow now) now ?ttl"
  obtain d' where a: "acq ?n ?ow now ?ttl d = (Inr (Some l), d')"
    using takeover_law [OF assms(1,3,2,5,4,6)] unfolding l_def by blast
  have d': "ok d' now" "look d' ?n = Some l" using acquire_law [OF assms(1) a] by (simp_all add: l_def)
  let ?g = "g\<lparr>wg_lease := Some l, wg_lost := False\<rparr>"
  have grant: "next_grant (look d ?n) ?ow now = (case look d ?n of None \<Rightarrow> (1, now) | Some c \<Rightarrow> (le_token c + 1, now))"
    using assms(6) by (auto simp: next_grant_def expired_at_def split: option.splits)
  have "sw_acquire port (Inr now) (d, g) = (Inr l, (d', ?g))" using a assms(5) by (simp add: sw_acquire_def now_ms_def)
  moreover have "live_guard now (d', ?g) l"
    using d' assms(3-5) by (simp add: live_guard_def) (simp add: l_def grant split: option.split)
  moreover have "le_token l = le_token c + 1" if "look d ?n = Some c" for c using grant that by (simp add: l_def)
  ultimately show ?thesis by blast
qed

lemma run_takes_over:
  assumes "ok d now" and "lease_text (wg_owner_id g)" and "lease_text (wg_lease_name g)"
    and "0 < wg_ttl_ms g" and "0 \<le> now" and "expired_at (look d (wg_lease_name g)) now"
    and "wg_lost g \<longrightarrow> wg_lease g = None"
  shows "\<exists>st w' ru' x' l. run_once port cb (at_time now) ((d, g), ru, x) = (st, (w', ru', x')) \<and> us_active st \<and>
    ru_mode ru' = RUN_ACTIVE \<and> ru_acquisitions ru' = ru_acquisitions ru + 1 \<and> live_guard now w' l \<and>
    (\<forall>c. look d (wg_lease_name g) = Some c \<longrightarrow> le_token l = le_token c + 1)"
proof -
  obtain st0 g1 where s: "sw_status port (Inr now) (d, g) = (st0, (d, g1))" "wg_lease g1 = None" "same_writer g g1"
    using expired_status [OF assms(1,3,5-7)] by blast
  have same: "wg_owner_id g1 = wg_owner_id g" "wg_lease_name g1 = wg_lease_name g" "wg_ttl_ms g1 = wg_ttl_ms g"
    using s(3) by (simp_all add: same_writer_def)
  obtain l w' where a: "sw_acquire port (Inr now) (d, g1) = (Inr l, w')" "live_guard now w' l"
    "\<forall>c. look d (wg_lease_name g) = Some c \<longrightarrow> le_token l = le_token c + 1"
    using takeover_live [of d now g1] assms same by (metis (no_types))
  obtain previous where p: "runner_view port (Inr now) (d, g) ru = (previous, (d, g1))" using s(1) by (simp add: runner_view_def)
  let ?ru = "ru\<lparr>ru_mode := RUN_ACTIVE, ru_acquisitions := ru_acquisitions ru + 1, ru_error := None\<rparr>"
  have step: "guard_step port (Inr now) (d, g1) (ru\<lparr>ru_mode := RUN_ACQUIRING\<rparr>)
      = (Inr l, w', ru\<lparr>ru_mode := RUN_ACQUIRING, ru_acquisitions := ru_acquisitions ru + 1\<rparr>)"
    using a(1) s(2) by (simp add: guard_step_def)
  obtain st where st: "runner_view port (Inr now) w' ?ru = (st, w')" "ws_valid (us_writer st)" "us_mode st = RUN_ACTIVE"
    using live_view [OF a(2), of ?ru] by auto
  obtain y where "notify port (Inr now) (rc_active cb) (w', ?ru, x) = (w', ?ru, y)"
    using notify_live [OF a(2), of "rc_active cb" ?ru x] by metis
  then have "\<exists>y. run_once port cb (at_time now) ((d, g), ru, x) = (st, (w', ?ru, y))"
    using p step st by (cases ru) (simp add: run_once_def at_time_def Let_def)
  then show ?thesis using st(2,3) a(2,3) by (cases w') (auto simp: us_active_def)
qed

end

section \<open>The two lease stores\<close>

lemma mem_renew_live:
  assumes "leases_ok d" and "dict_get d (le_name c) = Some c" and "now < le_expires_at c" and "0 \<le> now"
    and "0 < ttl" and "le_acquired_at c \<le> now"
  shows "\<exists>d'. mem_renew c now ttl d = (Inr (Some (c\<lparr>le_renewed_at := now, le_expires_at := now + ttl\<rparr>)), d')"
proof -
  let ?r = "c\<lparr>le_renewed_at := now, le_expires_at := now + ttl\<rparr>"
  have ok: "lease_ok c" using leases_ok_get [OF assms(1,2)] by simp
  then have "lease_ok ?r" using assms(4-6) by (simp add: lease_ok_def)
  then have "mk_lease ?r = Inr ?r" by (rule mk_lease_id)
  moreover have "validate_lease_arguments (le_name c) (le_owner c) now ttl = Inr (le_name c, le_owner c)"
    using ok assms(4,5) by (simp add: validate_lease_arguments_Inr strip_lease_text lease_ok_def)
  ultimately show ?thesis using assms(2,3) by (simp add: mem_renew_def owns_def)
qed

lemma sql_renew_live:
  assumes "sql_ok d now" and "dict_get d (le_name c) = Some c" and "now < le_expires_at c" and "0 \<le> now"
    and "0 < ttl" and "le_acquired_at c \<le> now"
  shows "\<exists>d'. sql_renew c now ttl d = (Inr (Some (c\<lparr>le_renewed_at := now, le_expires_at := now + ttl\<rparr>)), d')"
proof -
  have ok: "leases_ok d" using assms(1) by (simp add: sql_ok_def)
  have "lease_ok c" using leases_ok_get [OF ok assms(2)] by simp
  then have "sql_renew c now ttl d = mem_renew c now ttl d"
    by (rule sql_renew_eq [OF assms(1)]) (use assms(2) in simp_all)
  then show ?thesis using mem_renew_live [OF ok assms(2-6)] by simp
qed

interpretation rms: renewing_store "\<lambda>d t. leases_ok d" dict_get mem_acquire mem_renew mem_release mem_read
  by unfold_locales (rule mem_renew_live)

interpretation rss: renewing_store sql_ok dict_get sql_acquire sql_renew sql_release sql_read
  by unfold_locales (rule sql_renew_live)

section \<open>Properties\<close>

text \<open>Whatever the store, the clocks and the callbacks do, one round of the lease runner ends ACTIVE or LOST and
  reports its own state: it is ACTIVE with exactly one more acquisition or renewal counted and no error, or LOST
  with an error, no more of either, and a status that is not active; the thread flag stays as it was.
\<close>

theorem runner_reports_outcome:
  "case run_once p cb cl (w, ru, x) of (st, (w', ru', x')) \<Rightarrow> us_mode st = ru_mode ru' \<and> ru_running ru' = ru_running ru \<and>
    (if ru_mode ru' = RUN_ACTIVE
     then ru_error ru' = None \<and> ru_renewals ru' + ru_acquisitions ru' = ru_renewals ru + ru_acquisitions ru + 1
     else ru_mode ru' = RUN_LOST \<and> ru_error ru' \<noteq> None \<and> ru_renewals ru' = ru_renewals ru \<and>
       ru_acquisitions ru' = ru_acquisitions ru \<and> \<not> us_active st)"
proof -
  have view: "us_mode (fst (runner_view p c w r)) = ru_mode r" for c w r
    by (simp add: runner_view_def split: prod.split)
  have told: "fst (snd (notify p c f (w, r, y))) = r" for c f w r y
    by (simp add: notify_def split: option.split prod.split)
  obtain prev w1 where 1: "runner_view p (cl_before cl) w ru = (prev, w1)" by (metis surj_pair)
  obtain r w2 ru2 where 2: "guard_step p (cl_guard cl) w1 (ru\<lparr>ru_mode := RUN_ACQUIRING\<rparr>) = (r, w2, ru2)" by (metis surj_pair)
  have ru2: "case r of Inl e \<Rightarrow> ru2 = ru\<lparr>ru_mode := RUN_ACQUIRING\<rparr>
    | Inr l \<Rightarrow> ru2 \<in> {ru\<lparr>ru_mode := RUN_ACQUIRING, ru_acquisitions := ru_acquisitions ru + 1\<rparr>,
        ru\<lparr>ru_mode := RUN_ACQUIRING, ru_renewals := ru_renewals ru + 1\<rparr>}"
    using 2 by (auto simp: guard_step_def split: if_splits prod.splits sum.splits)
  show ?thesis
  proof (cases r)
    case (Inr l)
    obtain st w3 where v: "runner_view p (cl_after cl) w2 (ru2\<lparr>ru_mode := RUN_ACTIVE, ru_error := None\<rparr>) = (st, w3)" by (metis surj_pair)
    have "us_mode st = RUN_ACTIVE" using view [of "cl_after cl" w2 "ru2\<lparr>ru_mode := RUN_ACTIVE, ru_error := None\<rparr>"] v by simp
    moreover obtain w4 ru4 x4 where n: "(if \<not> us_active prev then notify p (cl_notify cl) (rc_active cb) (w3, ru2\<lparr>ru_mode := RUN_ACTIVE, ru_error := None\<rparr>, x)
           else (w3, ru2\<lparr>ru_mode := RUN_ACTIVE, ru_error := None\<rparr>, x)) = (w4, ru4, x4)" by (metis prod_cases3)
    have "ru4 = ru2\<lparr>ru_mode := RUN_ACTIVE, ru_error := None\<rparr>"
      using n told [of "cl_notify cl" "rc_active cb" w3 "ru2\<lparr>ru_mode := RUN_ACTIVE, ru_error := None\<rparr>" x] by (auto split: if_splits)
    moreover have "run_once p cb cl (w, ru, x) = (st, (w4, ru4, x4))"
      using 1 2 Inr v n by (simp add: run_once_def Let_def)
    ultimately show ?thesis using ru2 Inr by auto
  next
    case (Inl e)
    have "\<exists>st w4 x4 m. run_once p cb cl (w, ru, x) = (st, (w4, ru2\<lparr>ru_mode := RUN_LOST, ru_error := Some m\<rparr>, x4)) \<and> us_mode st = RUN_LOST"
    proof (cases "is_a e LeaseLost \<or> is_a e LeaseUnavailable")
      case True
      let ?ru = "ru2\<lparr>ru_mode := RUN_LOST, ru_error := Some (exn_str e)\<rparr>"
      obtain st w3 where v: "runner_view p (cl_after cl) w2 ?ru = (st, w3)" by (metis surj_pair)
      obtain w4 r4 x4 where n: "(if us_mode prev \<noteq> RUN_LOST then notify p (cl_notify cl) (rc_lost cb) (w3, ?ru, x) else (w3, ?ru, x)) = (w4, r4, x4)"
        by (metis prod_cases3)
      have r4: "r4 = ?ru" using n told [of "cl_notify cl" "rc_lost cb" w3 ?ru x] by (auto split: if_splits)
      have "run_once p cb cl (w, ru, x) = (st, (w4, ?ru, x4))" using 1 2 Inl True v n r4 by (simp add: run_once_def Let_def)
      then show ?thesis using view [of "cl_after cl" w2 ?ru] v by auto
    next
      case False
      let ?ru = "ru2\<lparr>ru_mode := RUN_LOST, ru_error := Some (exn_name e @ '': '' @ exn_str e)\<rparr>"
      obtain w3 r3 x3 where n: "(if us_mode prev \<noteq> RUN_LOST then notify p (cl_notify cl) (rc_lost cb) (w2, ?ru, x) else (w2, ?ru, x)) = (w3, r3, x3)"
        by (metis prod_cases3)
      have r3: "r3 = ?ru" using n told [of "cl_notify cl" "rc_lost cb" w2 ?ru x] by (auto split: if_splits)
      obtain st w4 where v: "runner_view p (cl_after cl) w3 ?ru = (st, w4)" by (metis surj_pair)
      have "run_once p cb cl (w, ru, x) = (st, (w4, ?ru, x3))" using 1 2 Inl False v n r3
        by (cases "us_mode prev = RUN_LOST") (simp_all add: run_once_def Let_def)
      then show ?thesis using view [of "cl_after cl" w3 ?ru] v by auto
    qed
    then show ?thesis using ru2 Inl by (auto simp: us_active_def)
  qed
qed

text \<open>C28: Regular renewals keep the lease: over either store, as long as nobody else acts, a runner that wakes up before
  the lease it holds has expired, and then always within the time to live, renews at every round, never
  acquires again, keeps its fencing token, and holds a valid lease after the last round.
\<close>

theorem regular_renewals_keep_lease:
  assumes "p = mem_port \<and> leases_ok d \<or> p = sql_port \<and> sql_ok d now"
    and "wg_lease g = Some c" and "\<not> wg_lost g" and "dict_get d (wg_lease_name g) = Some c"
    and "lease_text (wg_lease_name g)" and "0 < wg_ttl_ms g" and "0 \<le> now" and "now < le_expires_at c"
    and "le_acquired_at c \<le> now" and "sorted (now # wakes)" and "successively (\<lambda>a b. b < a + wg_ttl_ms g) (now # wakes)"
    and "\<forall>t \<in> set (take 1 wakes). t < le_expires_at c"
  shows "\<exists>w' ru' x'. runs p cb wakes ((d, g), ru, x) = (w', ru', x') \<and>
    ru_renewals ru' = ru_renewals ru + int (length wakes) \<and> ru_acquisitions ru' = ru_acquisitions ru \<and>
    ws_valid (fst (sw_status p (Inr (last (now # wakes))) w')) \<and>
    ws_fencing_token (fst (sw_status p (Inr (last (now # wakes))) w')) = Some (le_token c)"
  using assms(1)
proof
  assume p: "p = mem_port \<and> leases_ok d"
  then have "rms.live_guard now (d, g) c" using assms(2-9) leases_ok_get by (auto simp: rms.live_guard_def)
  from rms.runs_keep [OF this assms(10-12), of cb ru x] obtain w' ru' x' c' where
    r: "runs p cb wakes ((d, g), ru, x) = (w', ru', x')" "le_token c' = le_token c"
      "ru_renewals ru' = ru_renewals ru + int (length wakes)" "ru_acquisitions ru' = ru_acquisitions ru"
      "rms.live_guard (last (now # wakes)) w' c'"
    using p port_eq by auto
  show ?thesis using r(1-4) rms.live_status [OF r(5)] p port_eq by simp
next
  assume p: "p = sql_port \<and> sql_ok d now"
  then have "leases_ok d" by (simp add: sql_ok_def)
  then have "rss.live_guard now (d, g) c" using p assms(2-9) leases_ok_get by (auto simp: rss.live_guard_def)
  from rss.runs_keep [OF this assms(10-12), of cb ru x] obtain w' ru' x' c' where
    r: "runs p cb wakes ((d, g), ru, x) = (w', ru', x')" "le_token c' = le_token c"
      "ru_renewals ru' = ru_renewals ru + int (length wakes)" "ru_acquisitions ru' = ru_acquisitions ru"
      "rss.live_guard (last (now # wakes)) w' c'"
    using p port_eq by auto
  show ?thesis using r(1-4) rss.live_status [OF r(5)] p port_eq by simp
qed

text \<open>A lost lease comes back: one round after the stored lease has expired or was released, whoever held it, the
  runner is active again, under a larger fencing token, and counts one acquisition.
\<close>

theorem lost_lease_is_reacquired:
  assumes "p = mem_port \<and> leases_ok d \<or> p = sql_port \<and> sql_ok d now"
    and "lease_text (wg_owner_id g)" and "lease_text (wg_lease_name g)" and "0 < wg_ttl_ms g" and "0 \<le> now"
    and "expired_at (dict_get d (wg_lease_name g)) now" and "wg_lost g \<longrightarrow> wg_lease g = None"
  shows "\<exists>st w' ru' x'. run_once p cb (at_time now) ((d, g), ru, x) = (st, (w', ru', x')) \<and> us_active st \<and>
    ru_acquisitions ru' = ru_acquisitions ru + 1 \<and>
    (\<forall>c. dict_get d (wg_lease_name g) = Some c \<longrightarrow>
      ws_fencing_token (fst (sw_status p (Inr now) w')) = Some (le_token c + 1))"
  using assms(1)
proof
  assume p: "p = mem_port \<and> leases_ok d"
  from rms.run_takes_over [where d = d and now = now and g = g and cb = cb and ru = ru and x = x] p assms(2-7) obtain st w' ru' x' l where
    r: "run_once p cb (at_time now) ((d, g), ru, x) = (st, (w', ru', x'))" "us_active st"
      "ru_acquisitions ru' = ru_acquisitions ru + 1" "rms.live_guard now w' l"
      "\<forall>c. dict_get d (wg_lease_name g) = Some c \<longrightarrow> le_token l = le_token c + 1"
    using port_eq by auto
  show ?thesis using r(1-3,5) rms.live_status [OF r(4)] p port_eq by simp
next
  assume p: "p = sql_port \<and> sql_ok d now"
  from rss.run_takes_over [where d = d and now = now and g = g and cb = cb and ru = ru and x = x] p assms(2-7) obtain st w' ru' x' l where
    r: "run_once p cb (at_time now) ((d, g), ru, x) = (st, (w', ru', x'))" "us_active st"
      "ru_acquisitions ru' = ru_acquisitions ru + 1" "rss.live_guard now w' l"
      "\<forall>c. dict_get d (wg_lease_name g) = Some c \<longrightarrow> le_token l = le_token c + 1"
    using port_eq by auto
  show ?thesis using r(1-3,5) rss.live_status [OF r(4)] p port_eq by simp
qed

definition demo_runner :: runner where
  "demo_runner = \<lparr>ru_interval = 1, ru_mode = RUN_STOPPED, ru_renewals = 0, ru_acquisitions = 0, ru_error = None, ru_running = True\<rparr>"

definition no_callbacks :: "unit runner_callbacks" where
  "no_callbacks = \<lparr>rc_active = None, rc_lost = None\<rparr>"

lemma demo_guard_texts: "lease_text (wg_owner_id (demo_guard k))" "lease_text (wg_lease_name (demo_guard k))"
  "wg_ttl_ms (demo_guard k) = 5000" "wg_lease (demo_guard k) = None" "wg_lease_name (demo_guard k) = ''hedge/writer''"
proof -
  obtain u where u: "mk_guard u ''node'' ''hedge/writer'' 5000 = Inr (demo_guard k)"
  proof -
    have "\<exists>g. mk_guard u ''node'' ''hedge/writer'' 5000 = Inr g" for u by (simp add: mk_guard_def strip_id py_space_def)
    then show ?thesis using that unfolding demo_guard_def by (metis sum.case(2))
  qed
  show "lease_text (wg_owner_id (demo_guard k))" "lease_text (wg_lease_name (demo_guard k))" "wg_lease (demo_guard k) = None"
    using mk_guard_fields [OF u] by simp_all
  have e: "\<lparr>wg_owner_id = ''node:'' @ uuid_hex u, wg_lease_name = ''hedge/writer'', wg_ttl_ms = 5000, wg_lease = None, wg_lost = False\<rparr>
      = demo_guard k"
    using u by (simp add: mk_guard_def strip_id py_space_def)
  show "wg_ttl_ms (demo_guard k) = 5000" "wg_lease_name (demo_guard k) = ''hedge/writer''"
    by (simp_all add: e [symmetric])
qed

theorem lost_lease_is_reacquired_witness:
  "us_active (fst (run_once mem_port no_callbacks (at_time 7000) (([(''hedge/writer'', demo_lease)], demo_guard 2), demo_runner, ())))"
proof -
  have "sql_ok [(''hedge/writer'', demo_lease)] 7000" by (rule sql_ok_later [OF demo_sql_ok(1)]) simp
  then have "leases_ok [(''hedge/writer'', demo_lease)]" by (simp add: sql_ok_def)
  moreover have "lease_text ''hedge/writer''" using demo_guard_texts(2) [of 2] by (simp add: demo_guard_texts(5))
  ultimately show ?thesis
    using lost_lease_is_reacquired [of mem_port "[(''hedge/writer'', demo_lease)]" 7000 "demo_guard 2" no_callbacks demo_runner "()"]
    by (auto simp: demo_guard_texts expired_at_def demo_lease_def)
qed

definition demo_held_lease :: lease_record where
  "demo_held_lease = (case wg_lease (snd demo_after) of Some c \<Rightarrow> c | None \<Rightarrow> demo_lease)"

theorem regular_renewals_keep_lease_witness:
  "\<exists>w' ru' x'. runs mem_port no_callbacks [2000, 6500, 11000] ((fst demo_after, snd demo_after), demo_runner, ()) = (w', ru', x') \<and>
     ru_renewals ru' = 3 \<and> ws_valid (fst (sw_status mem_port (Inr 11000) w'))"
proof -
  have g: "wg_lease (snd demo_after) = Some demo_held_lease" "\<not> wg_lost (snd demo_after)"
    "dict_get (fst demo_after) (wg_lease_name (snd demo_after)) = Some demo_held_lease"
    "wg_ttl_ms (snd demo_after) = 5000" "le_expires_at demo_held_lease = 6000" "le_acquired_at demo_held_lease = 1000"
    by code_simp+
  have w: "leases_ok (fst demo_after) \<and> 0 \<le> (1000 :: int) \<and> (\<forall>i. same_writer (demo_guard i) ((demo_guard(0 := snd demo_after)) i)
      \<and> owned ((demo_guard(0 := snd demo_after)) i))"
    by (rule mws.writers_owned [unfolded port_eq, OF demo_writers])
      (simp_all add: leases_ok_def strip_lease_text demo_guard_texts owned_def)
  then have "same_writer (demo_guard 0) (snd demo_after)" by (metis fun_upd_same)
  with w have t: "lease_text (wg_lease_name (snd demo_after))" "leases_ok (fst demo_after)"
    using demo_guard_texts(2) [of 0] by (simp_all add: same_writer_def)
  show ?thesis
    using regular_renewals_keep_lease [of mem_port "fst demo_after" 1500 "snd demo_after" demo_held_lease "[2000, 6500, 11000]" no_callbacks demo_runner "()"]
      g t by (simp add: demo_runner_def) blast
qed

end
