(* ===== verification/Risk_Runtime.thy ===== *)
theory Risk_Runtime
  imports Risk_Approval_Facts Risk_Portfolio Readiness_Gate Lease_Runner
begin

text \<open>
  The facade that composes the risk side (\<open>freqtrade/hedge/risk/runtime.py\<close>, \<open>facts.py\<close>): account facts become a
  portfolio and readiness inputs, readiness and the risk state are synchronised, and an order is approved by the
  coordinator on the state that this left. Between the statements of one call no other thread acts here; what
  others do in between is the subject of \<open>Risk_Approval\<close>, where every reading is an argument.
\<close>

section \<open>Account facts\<close>

record account_facts =
  fa_exchange :: string
  fa_account_id :: string
  fa_equity :: dec
  fa_wallet_balance :: dec
  fa_available_balance :: dec
  fa_positions :: "position_leg list"
  fa_pending :: "pending_order_risk list"
  fa_initial_margin :: dec
  fa_maintenance_margin :: dec
  fa_snapshot_id :: string
  fa_source_version :: int
  fa_exchange_time_ms :: int
  fa_observed_at_ms :: int
  fa_converged :: bool
  fa_complete :: bool
  fa_errors :: "string list"

definition mk_facts :: "account_facts \<Rightarrow> account_facts res" where
  "mk_facts f = (let texts = filter (\<lambda>x. x \<noteq> []) (map strip (fa_errors f)) in
     if length texts \<noteq> length (fa_errors f)
     then value_error ''source_errors must contain non-empty strings only.''
     else Inr (f\<lparr>fa_errors := dict_fromkeys texts\<rparr>))"

definition facts_args :: "account_facts \<Rightarrow> portfolio_args" where
  "facts_args f = \<lparr>pf_account_id = fa_account_id f, pf_equity = fa_equity f, pf_wallet_balance = fa_wallet_balance f,
     pf_available_balance = fa_available_balance f, pf_positions = fa_positions f, pf_pending = fa_pending f,
     pf_initial_margin = Some (fa_initial_margin f), pf_maintenance_margin = Some (fa_maintenance_margin f),
     pf_risk_data_valid = (fa_complete f \<and> fa_converged f \<and> fa_errors f = []),
     pf_observed_at_ms = Some (fa_observed_at_ms f), pf_exchange = fa_exchange f,
     pf_snapshot_id = Some (fa_snapshot_id f), pf_source_version = fa_source_version f,
     pf_exchange_time_ms = Some (fa_exchange_time_ms f), pf_strict = True\<rparr>"

definition to_portfolio :: "account_facts \<Rightarrow> risk_portfolio res" where
  "to_portfolio f = res_bind (build_risk_portfolio 0 (facts_args f)) (\<lambda>p.
     if fa_errors f = [] then Inr p else
     res_bind (mk_account_risk ((account_again (rp_account p))\<lparr>ar_risk_data_valid := False,
       ar_risk_data_errors := dict_fromkeys (ar_risk_data_errors (rp_account p) @ fa_errors f)\<rparr>)) (\<lambda>a.
     mk_risk_portfolio a (rp_positions p) (rp_pending p)))"

section \<open>Order intents\<close>

record ('d, 's, 'a) order_risk_intent =
  on_symbol :: string
  on_side :: 's
  on_action :: 'a
  on_quantity :: 'd
  on_price :: 'd
  on_leverage :: 'd
  on_intent_id :: string
  on_idempotency_key :: string
  on_correlation_id :: string
  on_expires_at_ms :: "int option"
  on_target_version :: "int option"
  on_rate :: 'd

type_synonym risk_intent = "(rat, position_side, intent_action) order_risk_intent"

definition intent_text :: "string \<Rightarrow> string \<Rightarrow> string res" where
  "intent_text field v = (if strip v = [] then value_error (field @ '' must not be empty.'') else Inr (strip v))"

definition intent_count :: "string \<Rightarrow> int option \<Rightarrow> unit res" where
  "intent_count field v = (if bad_time v
     then value_error (field @ '' must be a nonnegative integer.'') else Inr ())"

definition mk_risk_intent :: "(dec, position_side + string, intent_action + string) order_risk_intent \<Rightarrow> risk_intent res" where
  "mk_risk_intent n =
     res_bind (case on_side n of Inr t \<Rightarrow> (if upper t = ''BOTH'' then Inr None
         else res_bind (hedge_side (Exn ValueError []) (Inr t)) (\<lambda>s. Inr (Some s))) | Inl s \<Rightarrow> Inr (Some s)) (\<lambda>sd.
     res_bind (hedge_action (on_action n)) (\<lambda>act. case sd of
       None \<Rightarrow> value_error ''Order risk intent side must be LONG or SHORT.''
     | Some s \<Rightarrow>
     res_bind (canonicalize_symbol (on_symbol n)) (\<lambda>sym.
     res_bind (require_positive ''requested_quantity'' (on_quantity n)) (\<lambda>quantity.
     res_bind (require_positive ''reference_price'' (on_price n)) (\<lambda>price.
     res_bind (require_positive ''leverage'' (on_leverage n)) (\<lambda>leverage.
     if leverage < 1 then value_error ''leverage must be greater than or equal to 1.'' else
     res_bind (intent_text ''intent_id'' (on_intent_id n)) (\<lambda>intent_id.
     res_bind (intent_text ''idempotency_key'' (on_idempotency_key n)) (\<lambda>idempotency_key.
     res_bind (intent_text ''correlation_id'' (on_correlation_id n)) (\<lambda>correlation_id.
     res_bind (intent_count ''expires_at_ms'' (on_expires_at_ms n)) (\<lambda>_.
     res_bind (intent_count ''target_snapshot_version'' (on_target_version n)) (\<lambda>_.
     res_bind (require_positive ''maintenance_margin_rate'' (on_rate n)) (\<lambda>rate.
     if rate > 1 then value_error ''maintenance_margin_rate must not exceed 1.'' else
     Inr \<lparr>on_symbol = sym, on_side = s, on_action = act, on_quantity = quantity, on_price = price,
       on_leverage = leverage, on_intent_id = intent_id, on_idempotency_key = idempotency_key,
       on_correlation_id = correlation_id, on_expires_at_ms = on_expires_at_ms n,
       on_target_version = on_target_version n, on_rate = rate\<rparr>))))))))))))"

definition intent_request :: "risk_portfolio \<Rightarrow> risk_intent \<Rightarrow> request res" where
  "intent_request p n = build_request p
     \<lparr>ri_intent_id = Some (on_intent_id n), ri_idempotency_key = Some (on_idempotency_key n),
      ri_correlation_id = Some (on_correlation_id n), ri_fresh = (0, 0, 0)\<rparr>
     (on_symbol n) (Inl (on_side n)) (Inl (on_action n)) (DFin (on_quantity n)) (DFin (on_price n))
     (DFin (on_leverage n)) None (on_expires_at_ms n) (on_target_version n) (DFin (on_rate n))"

section \<open>The runtime\<close>

record 'd runtime_config =
  rg_port :: "'d lease_port"
  rg_limits :: "rat risk_limits"
  rg_ttl_ms :: int
  rg_synchronize :: bool

record ('t, 'd) runtime =
  rn_monitor :: monitor
  rn_risk :: risk_state
  rn_coordinator :: "('t, 'd) coordinator"
  rn_runner :: "runner option"

text \<open>The readings of one \<open>refresh\<close> and of one \<open>status\<close>, in their order.\<close>

record 't status_clocks =
  sk_runner :: "int res"
  sk_view :: "int res"
  sk_locks :: 't

record 't refresh_clocks =
  fk_writer :: "int res"
  fk_gate :: "int res"
  fk_prune :: "int res"
  fk_locks :: 't
  fk_status :: "'t status_clocks"

definition on_readiness :: "(monitor \<times> ('d \<times> writer_guard), 'a) py \<Rightarrow> (('t, 'd) runtime, 'a) py" where
  "on_readiness m s = (case m (rn_monitor s, co_writer (rn_coordinator s)) of (r, (mo, w)) \<Rightarrow>
     (r, s\<lparr>rn_monitor := mo, rn_coordinator := (rn_coordinator s)\<lparr>co_writer := w\<rparr>\<rparr>))"

definition on_risk :: "(risk_state, 'a) py \<Rightarrow> (('t, 'd) runtime, 'a) py" where
  "on_risk m s = (case m (rn_risk s) of (r, rs) \<Rightarrow> (r, s\<lparr>rn_risk := rs\<rparr>))"

definition on_approvals :: "(('t, 'd) coordinator, 'a) py \<Rightarrow> (('t, 'd) runtime, 'a) py" where
  "on_approvals m s = (case m (rn_coordinator s) of (r, c) \<Rightarrow> (r, s\<lparr>rn_coordinator := c\<rparr>))"

definition writer_bound :: "'d runtime_config \<Rightarrow> int res \<Rightarrow> ('d \<times> writer_guard) writer_probe" where
  \<comment> \<open>\<open>writer.status().valid\<close>\<close>
  "writer_bound g clock = Some (\<lambda>w. case sw_status (rg_port g) clock w of (st, w') \<Rightarrow> (Inr (ws_valid st), w'))"

definition runtime_status :: "'d runtime_config \<Rightarrow> 't :: linorder status_clocks \<Rightarrow>
    (('t, 'd) runtime, ready_report \<times> risk_state) py" where
  "runtime_status g k = py_bind (py_get (\<lambda>s. (mo_report (rn_monitor s), rn_risk s))) (\<lambda>view.
     py_then (\<lambda>s. case rn_runner s of None \<Rightarrow> (Inr (), s)
       | Some ru \<Rightarrow> (case runner_view (rg_port g) (sk_runner k) (co_writer (rn_coordinator s)) ru of
           (st, w) \<Rightarrow> (Inr (), s\<lparr>rn_coordinator := (rn_coordinator s)\<lparr>co_writer := w\<rparr>\<rparr>)))
     (py_bind (py_of (approval_now (sk_view k))) (\<lambda>now.
      py_then (on_approvals (prune_increases now))
      (py_then (on_approvals (on_reduce (prune_expired (sk_locks k)))) (py_ret view)))))"

definition runtime_refresh :: "'d runtime_config \<Rightarrow> 't :: linorder refresh_clocks \<Rightarrow>
    (('t, 'd) runtime, ready_report \<times> risk_state) py" where
  "runtime_refresh g k =
     py_bind (on_readiness (monitor_refresh (writer_bound g (fk_writer k)) (fk_gate k))) (\<lambda>report.
     py_then (on_risk (sync_state (rg_synchronize g) report))
     (py_then (on_approvals (prune_all (fk_prune k) (fk_locks k))) (runtime_status g (fk_status k))))"

definition runtime_start :: "'d runtime_config \<Rightarrow> run_clocks \<Rightarrow> int res \<Rightarrow> 't :: linorder refresh_clocks \<Rightarrow>
    (('t, 'd) runtime, ready_report \<times> risk_state) py" where
  "runtime_start g cl last_clock k = py_then (\<lambda>s. case rn_runner s of None \<Rightarrow> (Inr (), s)
     | Some ru \<Rightarrow> (case runner_start (rg_port g) \<lparr>rc_active = None, rc_lost = None\<rparr> cl last_clock False
           (co_writer (rn_coordinator s), ru, ()) of
         (st, (w, ru', u)) \<Rightarrow> (Inr (), s\<lparr>rn_runner := Some ru', rn_coordinator := (rn_coordinator s)\<lparr>co_writer := w\<rparr>\<rparr>)))
     (runtime_refresh g k)"

record stop_env =
  se_now :: "int res"
  se_ended :: bool
  se_runner :: "int res"
  se_writer :: "int res"
  se_gate :: "int res"

definition stop_runner :: "'d runtime_config \<Rightarrow> stop_env \<Rightarrow> bool \<Rightarrow> (('t, 'd) runtime, unit) py" where
  "stop_runner g env release_lease s = (case rn_runner s of None \<Rightarrow> (Inr (), s)
     | Some ru \<Rightarrow> (case runner_stop (rg_port g) (se_ended env) release_lease (se_runner env)
           (co_writer (rn_coordinator s), ru, ()) of
         (st, (w, ru', u)) \<Rightarrow> (Inr (), s\<lparr>rn_runner := Some ru', rn_coordinator := (rn_coordinator s)\<lparr>co_writer := w\<rparr>\<rparr>)))"

definition runtime_stop :: "'d runtime_config \<Rightarrow> stop_env \<Rightarrow> bool \<Rightarrow> 't :: linorder status_clocks \<Rightarrow>
    (('t, 'd) runtime, ready_report \<times> risk_state) py" where
  "runtime_stop g env release_lease k =
     py_then (on_approvals (release_all (se_now env) None))
     (py_then (stop_runner g env release_lease)
     (py_then (on_readiness (monitor_update (\<lambda>i. i\<lparr>in_lease_valid := False\<rparr>)
         (writer_bound g (se_writer env)) (se_gate env)))
     (runtime_status g k)))"

section \<open>Approvals\<close>

record 't order_env =
  oe_writer :: "int res"
  oe_gate :: "int res"
  oe_refresh :: "'t refresh_clocks"

definition bind_portfolio :: "'d runtime_config \<Rightarrow> 't order_env \<Rightarrow> risk_portfolio \<Rightarrow> (('t, 'd) runtime, ready_report) py" where
  \<comment> \<open>\<open>_bind_portfolio_facts\<close>\<close>
  "bind_portfolio g env p = on_readiness (monitor_update (\<lambda>i. i\<lparr>
     in_risk_data_valid := effective_risk_data_valid (rp_account p), in_risk_observed := ar_observed_at_ms (rp_account p)\<rparr>)
     (writer_bound g (oe_writer env)) (oe_gate env))"

definition bind_account_facts :: "'d runtime_config \<Rightarrow> int res \<Rightarrow> int res \<Rightarrow> account_facts \<Rightarrow>
    (('t, 'd) runtime, risk_portfolio) py" where
  "bind_account_facts g writer_clock gate_clock f = py_bind (py_of (to_portfolio f)) (\<lambda>p.
     py_then (on_readiness (monitor_update (\<lambda>i. i\<lparr>in_converged := fa_converged f,
       in_risk_data_valid := effective_risk_data_valid (rp_account p), in_risk_observed := ar_observed_at_ms (rp_account p)\<rparr>)
       (writer_bound g writer_clock) gate_clock)) (py_ret p))"

definition gates_now :: "('t, 'd) runtime \<Rightarrow> gate_reading" where
  "gates_now s = \<lparr>gr_shown = mo_report (rn_monitor s), gr_gate = mo_report (rn_monitor s), gr_state = rn_risk s\<rparr>"

definition gates_held :: "('t, 'd) runtime \<Rightarrow> 't approve_env \<Rightarrow> 't approve_env" where
  \<comment> \<open>every reading of the gates finds the same state\<close>
  "gates_held s env = env\<lparr>ae_gates := (gates_now s, gates_now s, gates_now s)\<rparr>"

definition approve_order :: "'d runtime_config \<Rightarrow> 't :: linorder order_env \<Rightarrow> 't approve_env \<Rightarrow> risk_portfolio \<Rightarrow>
    risk_intent \<Rightarrow> (('t, 'd) runtime, 't approval) py" where
  "approve_order g env aenv p intent = py_then (bind_portfolio g env p) (py_then (runtime_refresh g (oe_refresh env))
     (py_bind (py_of (intent_request p intent)) (\<lambda>r. py_bind (py_get (\<lambda>s. gates_held s aenv)) (\<lambda>held.
       on_approvals (approve (rg_limits g) (rg_port g) (rg_ttl_ms g) held r (rp_account p))))))"

definition approve_order_from_facts :: "'d runtime_config \<Rightarrow> int res \<times> int res \<Rightarrow> 't :: linorder order_env \<Rightarrow>
    't approve_env \<Rightarrow> account_facts \<Rightarrow> risk_intent \<Rightarrow> (('t, 'd) runtime, 't approval) py" where
  "approve_order_from_facts g clocks env aenv f intent =
     py_bind (bind_account_facts g (fst clocks) (snd clocks) f) (\<lambda>p. approve_order g env aenv p intent)"

definition approve_orders :: "'d runtime_config \<Rightarrow> 't :: linorder order_env \<Rightarrow> risk_portfolio \<Rightarrow>
    ('t approve_env \<times> risk_intent) list \<Rightarrow> (('t, 'd) runtime, 't batch_approval) py" where
  \<comment> \<open>\<open>approve_batch\<close>\<close>
  "approve_orders g env p items = py_then (bind_portfolio g env p) (py_then (runtime_refresh g (oe_refresh env))
     (py_bind (py_of (each (\<lambda>(aenv, intent). res_bind (intent_request p intent) (\<lambda>r. Inr (aenv, r))) items)) (\<lambda>requests.
      py_bind (py_get (\<lambda>s. map (\<lambda>(aenv, r). (gates_held s aenv, r, rp_account p)) requests)) (\<lambda>held.
        on_approvals (approve_batch (rg_limits g) (rg_port g) (rg_ttl_ms g) held)))))"

definition approve_orders_from_facts :: "'d runtime_config \<Rightarrow> int res \<times> int res \<Rightarrow> 't :: linorder order_env \<Rightarrow>
    account_facts \<Rightarrow> ('t approve_env \<times> risk_intent) list \<Rightarrow> (('t, 'd) runtime, 't batch_approval) py" where
  "approve_orders_from_facts g clocks env f items =
     py_bind (bind_account_facts g (fst clocks) (snd clocks) f) (\<lambda>p. approve_orders g env p items)"

definition new_runtime :: "int res \<Rightarrow> rat ready_inputs \<Rightarrow> 'd \<times> writer_guard \<Rightarrow> runner option \<Rightarrow> bool \<Rightarrow> rat option \<Rightarrow>
    ('t, 'd) runtime res" where
  \<comment> \<open>\<open>build_hedge_risk_runtime\<close> with the manager, the state and the gate that it builds itself; a given runner
    runs the guard that is given\<close>
  "new_runtime gate_clock i w given enable interval = res_bind (mk_gate gate_clock) (\<lambda>r.
     res_bind (case given of Some ru \<Rightarrow> Inr (Some ru)
       | None \<Rightarrow> if enable then res_bind (mk_runner interval (snd w)) (\<lambda>ru. Inr (Some ru)) else Inr None) (\<lambda>ru.
     Inr \<lparr>rn_monitor = \<lparr>mo_inputs = i, mo_report = r\<rparr>, rn_risk = new_machine,
       rn_coordinator = \<lparr>co_increase = [], co_reduce = [], co_writer = w\<rparr>, rn_runner = ru\<rparr>))"

end
