(* ===== verification/Risk_Runtime_Properties.thy ===== *)
theory Risk_Runtime_Properties
  imports Risk_Runtime Risk_Approval_Properties
begin

text \<open>
  The properties of the composed risk side: what the runtime has established when it approves an increase from
  account facts, and what a stopped runtime still holds and allows.
\<close>

section \<open>Readiness inside the runtime\<close>

lemma gate_evaluate_Inr:
  assumes "gate_evaluate i clock r0 = (Inr r, r1)"
  shows "r1 = r" and "(\<exists>now. gate_now clock = Inr now \<and> r = evaluated i now) \<or> (gate_now clock = Inl e \<longrightarrow> closed_report r)"
    and "\<not> closed_report r \<Longrightarrow> \<exists>now. gate_now clock = Inr now \<and> r = evaluated i now"
proof -
  show "r1 = r" using assms by (auto simp: gate_evaluate_def split: sum.splits)
  have cl: "closed_report r" if "clock_failure t = Inr r" for t
  proof -
    have "0 \<le> t" using that by (auto simp: clock_failure_def mk_report_def split: if_splits)
    then show ?thesis using clock_failure_closed that by blast
  qed
  then show k: "\<exists>now. gate_now clock = Inr now \<and> r = evaluated i now" if "\<not> closed_report r"
    using assms that report_of_checks gate_now_Inr
    by (fastforce simp: gate_evaluate_def split: sum.splits)
  then show "(\<exists>now. gate_now clock = Inr now \<and> r = evaluated i now) \<or> (gate_now clock = Inl e \<longrightarrow> closed_report r)"
    by blast
qed

lemma monitor_refresh_Inr:
  assumes "monitor_refresh (Some status) clock (m, w) = (Inr r, (m', w'))"
  shows "mo_report m' = r" and "int (length (in_unknown_orders (mo_inputs m'))) \<le> in_unknown_count (mo_inputs m')"
    and "\<not> closed_report r \<Longrightarrow> \<exists>now. gate_now clock = Inr now \<and> r = evaluated (mo_inputs m') now"
proof -
  obtain i where i: "writer_inputs (Some status) (mo_inputs m) w = (Inr i, w')"
      "gate_evaluate i clock (mo_report m) = (Inr r, mo_report m')" "mo_inputs m' = i"
    using assms by (auto simp: monitor_refresh_def split: prod.splits sum.splits)
  then show "mo_report m' = r" using gate_evaluate_Inr(1) by blast
  show "int (length (in_unknown_orders (mo_inputs m'))) \<le> in_unknown_count (mo_inputs m')"
    using i(1,3) mk_inputs_Inr(1) by (auto simp: writer_inputs_def py_bind_Inr py_try_Inr)
  show "\<exists>now. gate_now clock = Inr now \<and> r = evaluated (mo_inputs m') now" if "\<not> closed_report r"
    using gate_evaluate_Inr(3) [OF i(2) that] i(3) by simp
qed

lemma on_readiness_Inr: "on_readiness m s = (Inr x, t) \<longleftrightarrow> (\<exists>mo w. m (rn_monitor s, co_writer (rn_coordinator s)) = (Inr x, (mo, w)) \<and>
    t = s\<lparr>rn_monitor := mo, rn_coordinator := (rn_coordinator s)\<lparr>co_writer := w\<rparr>\<rparr>)"
  by (auto simp: on_readiness_def split: prod.splits)

lemma on_risk_Inr: "on_risk m s = (Inr x, t) \<longleftrightarrow> (\<exists>r. m (rn_risk s) = (Inr x, r) \<and> t = s\<lparr>rn_risk := r\<rparr>)"
  by (auto simp: on_risk_def split: prod.splits)

lemma on_approvals_Inr: "on_approvals m s = (Inr x, t) \<longleftrightarrow>
    (\<exists>c. m (rn_coordinator s) = (Inr x, c) \<and> t = s\<lparr>rn_coordinator := c\<rparr>)"
  by (auto simp: on_approvals_def split: prod.splits)

lemma runtime_status_Inr:
  assumes "runtime_status g k s = (Inr v, t)"
  shows "v = (mo_report (rn_monitor s), rn_risk s)" and "rn_monitor t = rn_monitor s" and "rn_risk t = rn_risk s"
  using assms
  by (auto simp: runtime_status_def py_then_Inr py_bind_Inr on_approvals_Inr py_ret_def split: option.splits prod.splits)

lemma runtime_refresh_Inr:
  assumes "runtime_refresh g k s = (Inr v, t)"
  shows "v = (mo_report (rn_monitor t), rn_risk t)"
    and "int (length (in_unknown_orders (mo_inputs (rn_monitor t)))) \<le> in_unknown_count (mo_inputs (rn_monitor t))"
    and "\<not> closed_report (mo_report (rn_monitor t)) \<Longrightarrow>
      \<exists>now. gate_now (fk_gate k) = Inr now \<and> mo_report (rn_monitor t) = evaluated (mo_inputs (rn_monitor t)) now"
proof -
  obtain r s1 u s2 n s3 where
    1: "on_readiness (monitor_refresh (writer_bound g (fk_writer k)) (fk_gate k)) s = (Inr r, s1)" and
    2: "on_risk (sync_state (rg_synchronize g) r) s1 = (Inr u, s2)" and
    3: "on_approvals (prune_all (fk_prune k) (fk_locks k)) s2 = (Inr n, s3)" and
    4: "runtime_status g (fk_status k) s3 = (Inr v, t)"
    using assms by (auto simp: runtime_refresh_def py_bind_Inr py_then_Inr)
  have same: "rn_monitor t = rn_monitor s1"
    using 2 3 runtime_status_Inr [OF 4] by (auto simp: on_risk_Inr on_approvals_Inr)
  show "v = (mo_report (rn_monitor t), rn_risk t)" using runtime_status_Inr [OF 4] by simp
  obtain mo w where m: "monitor_refresh (writer_bound g (fk_writer k)) (fk_gate k) (rn_monitor s, co_writer (rn_coordinator s))
      = (Inr r, (mo, w))" "rn_monitor s1 = mo"
    using 1 by (auto simp: on_readiness_Inr)
  note f = monitor_refresh_Inr [OF m(1) [unfolded writer_bound_def]]
  show "int (length (in_unknown_orders (mo_inputs (rn_monitor t)))) \<le> in_unknown_count (mo_inputs (rn_monitor t))"
    using f(2) m(2) same by simp
  show "\<exists>now. gate_now (fk_gate k) = Inr now \<and> mo_report (rn_monitor t) = evaluated (mo_inputs (rn_monitor t)) now"
    if "\<not> closed_report (mo_report (rn_monitor t))"
    using f(1,3) m(2) same that by simp
qed

section \<open>Facts\<close>

lemma to_portfolio_valid:
  assumes "to_portfolio f = Inr p" and "effective_risk_data_valid (rp_account p)"
  shows "fa_complete f \<and> fa_converged f \<and> fa_errors f = []"
proof (cases "fa_errors f = []")
  case True
  then have b: "build_risk_portfolio 0 (facts_args f) = Inr p" using assms(1) by (auto simp: to_portfolio_def res_bind_eq_Inr)
  obtain raw where "mk_account_risk raw = Inr (rp_account p)"
    "ar_risk_data_valid raw \<longrightarrow> pf_risk_data_valid (facts_args f)"
    using b by (fastforce simp: build_risk_portfolio_def mk_risk_portfolio_def Let_def res_splits if_config_Inr
        simp del: if_Inl_eq_Inr)
  then have "pf_risk_data_valid (facts_args f)"
    using mk_account_risk_Inr(1) assms(2) by (auto simp: effective_risk_data_valid_def)
  then show ?thesis by (simp add: facts_args_def)
next
  case False
  then obtain q a where q: "build_risk_portfolio 0 (facts_args f) = Inr q"
    "mk_account_risk ((account_again (rp_account q))\<lparr>ar_risk_data_valid := False,
       ar_risk_data_errors := dict_fromkeys (ar_risk_data_errors (rp_account q) @ fa_errors f)\<rparr>) = Inr a"
    "mk_risk_portfolio a (rp_positions q) (rp_pending q) = Inr p"
    using assms(1) by (auto simp: to_portfolio_def res_bind_eq_Inr)
  then have "rp_account p = a" by (auto simp: mk_risk_portfolio_def config_error_def split: if_splits)
  then show ?thesis using mk_account_risk_Inr(1) [OF q(2)] assms(2) by (simp add: effective_risk_data_valid_def)
qed

section \<open>Orders\<close>

lemma intent_request_action: "intent_request p n = Inr r \<Longrightarrow> rq_action r = on_action n"
  unfolding intent_request_def by (elim build_request_Inr) (simp add: hedge_action_def)

lemma bind_account_facts_Inr: "bind_account_facts g cw cg f s = (Inr p, t) \<Longrightarrow> to_portfolio f = Inr p"
  by (auto simp: bind_account_facts_def py_bind_Inr py_then_Inr py_of_def)

lemma approve_order_Inr:
  assumes "approve_order g env aenv p n s = (Inr x, t)"
  obtains r u c v s1 where "intent_request p n = Inr r" "runtime_refresh g (oe_refresh env) s1 = (Inr v, u)"
    "approve (rg_limits g) (rg_port g) (rg_ttl_ms g) (gates_held u aenv) r (rp_account p) (rn_coordinator u) = (Inr x, c)"
    "t = u\<lparr>rn_coordinator := c\<rparr>"
  using assms by (auto simp: approve_order_def py_bind_Inr py_then_Inr py_of_def py_get_def on_approvals_Inr)

lemma approved_increase_gates:
  assumes "approve l p ttl (gates_held u aenv) r a s = (Inr x, t)" and "ua_allowed x" and "increases_risk (rq_action r)"
  shows "effective_risk_data_valid a" and "rs_mode (rn_risk u) = MODE_NORMAL"
    and "\<exists>k. request_key r = Inr k \<and> allows_new_risk (mo_report (rn_monitor u)) (Some k)"
proof -
  have "effective_risk_data_valid a \<and> increase_reasons (gates_now u) r = Inr []"
    using assms(1)
  proof (cases rule: approve_cases)
    case (Increase w now)
    from Increase(2) show ?thesis
      by (cases rule: approve_increase_cases)
        (use assms(2) Increase(3) in \<open>simp_all add: denial_def gates_held_def\<close>)
  qed (use assms(2,3) in \<open>auto simp: denial_def reduces_risk_def\<close>)
  then show "effective_risk_data_valid a" and "\<exists>k. request_key r = Inr k \<and> allows_new_risk (mo_report (rn_monitor u)) (Some k)"
    and "rs_mode (rn_risk u) = MODE_NORMAL"
    using increase_reasons_none [of "gates_now u" r] assms(3)
    by (auto simp: gates_now_def allows_def split: if_splits)
qed

text \<open>C12: When the runtime approves an order that increases risk from account facts, the facts were complete,
  converged and without a source error, the risk state is normal, and the readiness inputs it holds passed every
  check when they were evaluated for this order: database, lease, modes and leverage as they must be, nothing
  unmanaged, fresh snapshots and stream, reconciliation converged, no halt reason and no unresolved order on this leg.
\<close>

theorem order_from_facts_cleared:
  assumes "approve_order_from_facts g clocks env aenv f n s = (Inr x, t)" and "ua_allowed x"
    and "increases_risk (on_action n)"
  shows "fa_complete f \<and> fa_converged f \<and> fa_errors f = [] \<and> rs_mode (rn_risk t) = MODE_NORMAL \<and>
    (\<exists>p r k now i. to_portfolio f = Inr p \<and> intent_request p n = Inr r \<and> request_key r = Inr k
      \<and> gate_now (fk_gate (oe_refresh env)) = Inr now \<and> i = mo_inputs (rn_monitor t)
      \<and> k \<notin> uo_key ` set (in_unknown_orders i) \<and> in_migration_succeeded i \<and> in_checksum_valid i \<and> in_lease_valid i
      \<and> in_position_mode i = ''hedge'' \<and> in_margin_mode i = ''cross'' \<and> leverage_matches i
      \<and> in_unmanaged_positions i = 0 \<and> in_unmanaged_orders i = 0
      \<and> is_fresh (in_rest_valid i) (in_rest_observed i) (in_rest_max_age i) now
      \<and> is_fresh (in_stream_fresh i) (in_stream_observed i) (in_stream_max_age i) now
      \<and> is_fresh (in_risk_data_valid i) (in_risk_observed i) (in_risk_max_age i) now
      \<and> \<not> in_stream_gap i \<and> in_converged i \<and> in_halts i = [])"
proof -
  obtain p s1 where p: "to_portfolio f = Inr p" and o: "approve_order g env aenv p n s1 = (Inr x, t)"
    using assms(1) by (auto simp: approve_order_from_facts_def py_bind_Inr dest: bind_account_facts_Inr)
  from o obtain r u c v s2 where r: "intent_request p n = Inr r" and u: "runtime_refresh g (oe_refresh env) s2 = (Inr v, u)" and
    a: "approve (rg_limits g) (rg_port g) (rg_ttl_ms g) (gates_held u aenv) r (rp_account p) (rn_coordinator u) = (Inr x, c)"
    and t: "t = u\<lparr>rn_coordinator := c\<rparr>" by (rule approve_order_Inr)
  have "increases_risk (rq_action r)" using assms(3) intent_request_action [OF r] by simp
  note gates = approved_increase_gates [OF a assms(2) this]
  obtain k where k: "request_key r = Inr k" "allows_new_risk (mo_report (rn_monitor t)) (Some k)" using gates(3) t by auto
  then have "\<not> closed_report (mo_report (rn_monitor t))" by (auto simp: closed_report_def)
  then obtain now where now: "gate_now (fk_gate (oe_refresh env)) = Inr now"
      "mo_report (rn_monitor t) = evaluated (mo_inputs (rn_monitor t)) now"
    using runtime_refresh_Inr(3) [OF u] t by auto
  have "int (length (in_unknown_orders (mo_inputs (rn_monitor t)))) \<le> in_unknown_count (mo_inputs (rn_monitor t))"
    using runtime_refresh_Inr(2) [OF u] t by simp
  note report = k(2) [unfolded now(2) evaluated_allows_new [OF this] failed_subset]
  have "fa_complete f \<and> fa_converged f \<and> fa_errors f = []" by (rule to_portfolio_valid [OF p gates(1)])
  moreover have "rs_mode (rn_risk t) = MODE_NORMAL" using gates(2) t by simp
  ultimately show ?thesis using p r k(1) now(1) report by blast
qed

section \<open>Stopping\<close>

lemma evaluated_no_lease:
  assumes "\<not> in_lease_valid i"
  shows "closed_report (evaluated i now)"
proof -
  define reasons where "reasons = failed_reasons (run_readiness_checks i (Some now))"
  have m: "SINGLE_WRITER_LEASE_INVALID \<in> set reasons"
    using failed_subset [of i now "- {SINGLE_WRITER_LEASE_INVALID}"] assms by (auto simp: reasons_def)
  then have "reasons \<noteq> []" "\<not> list_all (\<lambda>c. c = UNKNOWN_ORDER_PRESENT) reasons"
    "\<not> list_all (\<lambda>c. c = UNKNOWN_ORDER_PRESENT \<or> rp_controlled_reduce (reason_policy c)) reasons"
    by (auto simp: list_all_iff policy_def intro!: bexI [OF _ m])
  then show ?thesis
    by (simp add: closed_report_def allows_new_risk_def allows_controlled_reduce_def report_ready_def evaluated_def Let_def
      reasons_def [symmetric] split: option.split)
qed

lemma writer_inputs_lease:
  assumes "writer_inputs (writer_bound g clock) i w = (Inr j, w')"
  shows "in_lease_valid j = ws_valid (fst (sw_status (rg_port g) clock w))" and "w' = snd (sw_status (rg_port g) clock w)"
proof -
  obtain st where st: "sw_status (rg_port g) clock w = (st, w')"
      "mk_inputs ((inputs_again i)\<lparr>in_lease_valid := ws_valid st\<rparr>) = Inr j"
    using assms by (auto simp: writer_inputs_def writer_bound_def py_bind_Inr py_try_Inr split: prod.splits)
  then have "in_lease_valid j = ws_valid st" by (auto simp: mk_inputs_def res_splits if_config_Inr split: if_splits)
  then show "in_lease_valid j = ws_valid (fst (sw_status (rg_port g) clock w))" and "w' = snd (sw_status (rg_port g) clock w)"
    using st(1) by simp_all
qed

lemma monitor_update_Inr:
  assumes "monitor_update f (writer_bound g clock) gate (m, w) = (Inr r, (m', w'))"
  shows "mo_report m' = r" and "in_lease_valid (mo_inputs m') = ws_valid (fst (sw_status (rg_port g) clock w))"
    and "w' = snd (sw_status (rg_port g) clock w)" and "\<not> in_lease_valid (mo_inputs m') \<Longrightarrow> closed_report r"
proof -
  obtain i where i: "monitor_refresh (writer_bound g clock) gate (m\<lparr>mo_inputs := i\<rparr>, w) = (Inr r, (m', w'))"
    using assms by (auto simp: monitor_update_def monitor_replace_def split: sum.splits)
  then obtain j where j: "writer_inputs (writer_bound g clock) i w = (Inr j, w')" "mo_inputs m' = j"
    by (auto simp: monitor_refresh_def split: prod.splits sum.splits)
  note f = monitor_refresh_Inr [OF i [unfolded writer_bound_def]]
  show "mo_report m' = r" by (rule f(1))
  show l: "in_lease_valid (mo_inputs m') = ws_valid (fst (sw_status (rg_port g) clock w))"
    and "w' = snd (sw_status (rg_port g) clock w)"
    using writer_inputs_lease [OF j(1)] j(2) by simp_all
  show "closed_report r" if "\<not> in_lease_valid (mo_inputs m')"
    using f(3) evaluated_no_lease [OF that] by blast
qed

lemma runtime_status_coordinator:
  assumes "runtime_status g k s = (Inr v, t)"
  shows "co_increase (rn_coordinator s) = [] \<Longrightarrow> co_increase (rn_coordinator t) = []"
    and "co_reduce (rn_coordinator s) = [] \<Longrightarrow> co_reduce (rn_coordinator t) = []"
    and "rn_runner s = None \<Longrightarrow> co_writer (rn_coordinator t) = co_writer (rn_coordinator s)"
    and "wg_lease (snd (co_writer (rn_coordinator s))) = None \<Longrightarrow> wg_lease (snd (co_writer (rn_coordinator t))) = None"
  using assms
  by (auto simp: runtime_status_def py_then_Inr py_bind_Inr on_approvals_Inr py_ret_def prune_increases_def Let_def
      on_reduce_Inr prune_expired_def runner_view_def sw_status_def invalid_status_def
      split: option.splits prod.splits if_splits)

lemma runtime_stop_Inr:
  assumes "runtime_stop g env release k s = (Inr v, t)"
  obtains n s1 w m u where "release_all (se_now env) None (rn_coordinator s) = (Inr n, s1)"
    "w = (case rn_runner s of None \<Rightarrow> co_writer s1 | Some r \<Rightarrow>
       fst (snd (runner_stop (rg_port g) (se_ended env) release (se_runner env) (co_writer s1, r, ()))))"
    "monitor_update (\<lambda>i. i\<lparr>in_lease_valid := False\<rparr>) (writer_bound g (se_writer env)) (se_gate env)
       (rn_monitor s, w) = (Inr (fst v), (rn_monitor t, m))"
    "runtime_status g k u = (Inr v, t)" "rn_coordinator u = s1\<lparr>co_writer := m\<rparr>"
proof -
  obtain n c r s3 u where
    1: "release_all (se_now env) None (rn_coordinator s) = (Inr n, c)" and
    2: "stop_runner g env release (s\<lparr>rn_coordinator := c\<rparr>) = (Inr (), s3)" and
    3: "on_readiness (monitor_update (\<lambda>i. i\<lparr>in_lease_valid := False\<rparr>)
         (writer_bound g (se_writer env)) (se_gate env)) s3 = (Inr r, u)" and
    4: "runtime_status g k u = (Inr v, t)"
    using assms by (auto simp: runtime_stop_def py_then_Inr on_approvals_Inr)
  let ?w = "case rn_runner s of None \<Rightarrow> co_writer c | Some r \<Rightarrow>
       fst (snd (runner_stop (rg_port g) (se_ended env) release (se_runner env) (co_writer c, r, ())))"
  have s3: "rn_monitor s3 = rn_monitor s" "rn_coordinator s3 = c\<lparr>co_writer := ?w\<rparr>"
    using 2 by (auto simp: stop_runner_def split: option.splits prod.splits)
  obtain mo m where u: "monitor_update (\<lambda>i. i\<lparr>in_lease_valid := False\<rparr>) (writer_bound g (se_writer env)) (se_gate env)
       (rn_monitor s, ?w) = (Inr r, (mo, m))" "rn_monitor u = mo" "rn_coordinator u = c\<lparr>co_writer := m\<rparr>"
    using 3 s3 by (auto simp: on_readiness_Inr)
  have "r = fst v" "rn_monitor t = mo" using runtime_status_Inr [OF 4] monitor_update_Inr(1) [OF u(1)] u(2) by simp_all
  then show ?thesis using 1 4 u by (intro that [OF 1 refl _ 4]) simp_all
qed

lemma release_all_Inr:
  assumes "release_all clock None s = (Inr n, t)"
  shows "co_increase t = []" "co_reduce t = []" "co_writer t = co_writer s"
  using assms
  by (auto simp: release_all_def opt_require_def py_bind_Inr py_then_Inr on_reduce_Inr prune_increases_def Let_def
      release_all_reservations_def py_ret_def py_mod_def py_get_def)

lemma runner_stop_released:
  assumes "ended"
  shows "wg_lease (snd (fst (snd (runner_stop p ended True clock (w, ru, x))))) = None"
  using assms
  by (auto simp: runner_stop_def runner_view_def sw_status_def sw_release_def mark_lost_def invalid_status_def Let_def
      split: prod.splits option.splits sum.splits if_splits)

text \<open>A runtime that is stopped with its lease runner ended and its lease released holds no reservation and no
  lease, and the report it gives allows neither new risk nor a reduction on any leg.
\<close>

theorem stopped_runtime_closed:
  assumes "runtime_stop g env True k s = (Inr v, t)" and "rn_runner s = Some ru" and "se_ended env"
  shows "co_increase (rn_coordinator t) = [] \<and> co_reduce (rn_coordinator t) = []
    \<and> wg_lease (snd (co_writer (rn_coordinator t))) = None \<and> fst v = mo_report (rn_monitor t)
    \<and> (\<forall>key. \<not> allows_new_risk (fst v) key \<and> \<not> allows_controlled_reduce (fst v) key)"
  using assms(1)
proof (cases rule: runtime_stop_Inr)
  case (1 n s1 w m u)
  note stopped = release_all_Inr [OF 1(1)] and status = runtime_status_coordinator [OF 1(4)]
    and update = monitor_update_Inr [OF 1(3)]
  have "wg_lease (snd w) = None" using 1(2) assms(2,3) runner_stop_released by simp
  then have "\<not> ws_valid (fst (sw_status (rg_port g) (se_writer env) w))" "wg_lease (snd (snd (sw_status (rg_port g) (se_writer env) w))) = None"
    by (auto simp: sw_status_def invalid_status_def split: prod.splits)
  then have "closed_report (fst v)" "wg_lease (snd m) = None" using update(2-4) by simp_all
  then show ?thesis using stopped(1,2) status(1,2,4) update(1) 1(5) by (simp add: closed_report_def)
qed

text \<open>C38: Without a lease runner, stopping does not close the gate: the monitor asks the writer again in the same
  update, so while the writer still holds its lease the input that \<open>stop\<close> cleared is set again, whatever
  \<open>release_lease\<close> says, and the lease is not given back; only the reservations are gone.
\<close>

theorem stop_keeps_lease_valid:
  assumes "runtime_stop g env release k s = (Inr v, t)" and "rn_runner s = None"
    and "ws_valid (fst (sw_status (rg_port g) (se_writer env) (co_writer (rn_coordinator s))))"
  shows "in_lease_valid (mo_inputs (rn_monitor t))
    \<and> co_increase (rn_coordinator t) = [] \<and> co_reduce (rn_coordinator t) = []"
  using assms(1)
proof (cases rule: runtime_stop_Inr)
  case (1 n s1 w m u)
  have "w = co_writer (rn_coordinator s)" using 1(2) assms(2) release_all_Inr(3) [OF 1(1)] by simp
  then show ?thesis
    using release_all_Inr(1,2) [OF 1(1)] runtime_status_coordinator(1,2) [OF 1(4)] monitor_update_Inr(2) [OF 1(3)] assms(3) 1(5)
    by simp
qed

end
