(* ===== verification/Risk_Runtime_Demo.thy ===== *)
theory Risk_Runtime_Demo
  imports Risk_Runtime_Properties Risk_Approval_Demo
begin

text \<open>
  One runtime over an in-memory lease, and the witnesses of the properties of orders and of stopping on it.
\<close>

definition demo_account_facts :: account_facts where
  "demo_account_facts = \<lparr>fa_exchange = ''binance'', fa_account_id = ''main'', fa_equity = DFin 1000,
     fa_wallet_balance = DFin 1000, fa_available_balance = DFin 1000, fa_positions = [], fa_pending = [],
     fa_initial_margin = DFin 0, fa_maintenance_margin = DFin 0, fa_snapshot_id = ''s1'', fa_source_version = 0,
     fa_exchange_time_ms = 950, fa_observed_at_ms = 950, fa_converged = True, fa_complete = True, fa_errors = []\<rparr>"

definition demo_risk_order :: risk_intent where
  "demo_risk_order = \<lparr>on_symbol = ''ETH/USDT:USDT'', on_side = LONG, on_action = OPEN, on_quantity = 1, on_price = 7,
     on_leverage = 1, on_intent_id = ''i'', on_idempotency_key = ''k'', on_correlation_id = ''c'',
     on_expires_at_ms = None, on_target_version = None, on_rate = 1\<rparr>"

definition demo_runtime :: "(int, leases) runtime" where
  "demo_runtime = \<lparr>rn_monitor = \<lparr>mo_inputs = demo_inputs 3 [], mo_report = clock_report 0\<rparr>, rn_risk = new_machine,
     rn_coordinator = \<lparr>co_increase = [], co_reduce = [], co_writer = demo_after\<rparr>, rn_runner = None\<rparr>"

definition demo_config :: "leases runtime_config" where
  "demo_config = \<lparr>rg_port = mem_port, rg_limits = demo_limits, rg_ttl_ms = 5000, rg_synchronize = True\<rparr>"

definition demo_view :: "int status_clocks" where
  "demo_view = \<lparr>sk_runner = Inr 2000, sk_view = Inr 2000, sk_locks = 0\<rparr>"

definition demo_order_env :: "int order_env" where
  "demo_order_env = \<lparr>oe_writer = Inr 2000, oe_gate = Inr 1000, oe_refresh = \<lparr>fk_writer = Inr 2000, fk_gate = Inr 1000,
     fk_prune = Inr 2000, fk_locks = 0, fk_status = demo_view\<rparr>\<rparr>"

definition demo_stop :: stop_env where
  "demo_stop = \<lparr>se_now = Inr 2000, se_ended = True, se_runner = Inr 2000, se_writer = Inr 2000, se_gate = Inr 1000\<rparr>"

section \<open>Stopping\<close>

lemma demo_stops:
  "case runtime_stop demo_config demo_stop False demo_view demo_runtime of (Inr v, t) \<Rightarrow> True | (Inl e, t) \<Rightarrow> False"
  "ws_valid (fst (sw_status (rg_port demo_config) (se_writer demo_stop) (co_writer (rn_coordinator demo_runtime))))"
  by code_simp+

theorem stop_keeps_lease_valid_witness:
  "\<exists>v t. runtime_stop demo_config demo_stop False demo_view demo_runtime = (Inr v, t) \<and> in_lease_valid (mo_inputs (rn_monitor t))"
proof -
  obtain v t where t: "runtime_stop demo_config demo_stop False demo_view demo_runtime = (Inr v, t)"
    using demo_stops(1) by (auto split: prod.splits sum.splits)
  have "rn_runner demo_runtime = None" by (simp add: demo_runtime_def)
  from stop_keeps_lease_valid [OF t this demo_stops(2)] show ?thesis using t by blast
qed

definition demo_ran :: runner where
  "demo_ran = \<lparr>ru_interval = 1, ru_mode = RUN_ACTIVE, ru_renewals = 1, ru_acquisitions = 1, ru_error = None, ru_running = True\<rparr>"

lemma demo_closes: "case runtime_stop demo_config demo_stop True demo_view (demo_runtime\<lparr>rn_runner := Some demo_ran\<rparr>) of
    (Inr v, t) \<Rightarrow> True | (Inl e, t) \<Rightarrow> False"
  by code_simp

theorem stopped_runtime_closed_witness:
  "\<exists>v t. runtime_stop demo_config demo_stop True demo_view (demo_runtime\<lparr>rn_runner := Some demo_ran\<rparr>) = (Inr v, t)
     \<and> \<not> allows_new_risk (fst v) None"
proof -
  obtain v t where t: "runtime_stop demo_config demo_stop True demo_view (demo_runtime\<lparr>rn_runner := Some demo_ran\<rparr>) = (Inr v, t)"
    using demo_closes by (auto split: prod.splits sum.splits)
  have "rn_runner (demo_runtime\<lparr>rn_runner := Some demo_ran\<rparr>) = Some demo_ran" "se_ended demo_stop"
    by (simp_all add: demo_stop_def)
  from stopped_runtime_closed [OF t this] show ?thesis using t by blast
qed

section \<open>An order\<close>

definition demo_cleared_inputs :: "rat ready_inputs" where
  "demo_cleared_inputs = (demo_inputs 3 [])\<lparr>in_risk_observed := Some 950\<rparr>"

definition demo_cleared :: "(int, leases) runtime" where
  "demo_cleared = demo_runtime\<lparr>rn_monitor := \<lparr>mo_inputs = demo_cleared_inputs, mo_report = evaluated demo_cleared_inputs 1000\<rparr>\<rparr>"

definition demo_portfolio_held :: risk_portfolio where
  "demo_portfolio_held = \<lparr>rp_account = demo_facts\<lparr>ar_observed_at_ms := Some 950, ar_exchange_time_ms := Some 950\<rparr>,
     rp_positions = [], rp_pending = []\<rparr>"

definition demo_ordered :: request where
  "demo_ordered = (demo_request OPEN)\<lparr>rq_quantity := 1, rq_confirmed := None, rq_pending_reduce := 0\<rparr>"

lemma demo_to_portfolio: "to_portfolio demo_account_facts = Inr demo_portfolio_held"
  by code_simp

lemma demo_bound: "bind_account_facts demo_config (Inr 2000) (Inr 1000) demo_account_facts demo_runtime
    = (Inr demo_portfolio_held, demo_cleared)"
  "bind_portfolio demo_config demo_order_env demo_portfolio_held demo_cleared
    = (Inr (mo_report (rn_monitor demo_cleared)), demo_cleared)"
  "runtime_refresh demo_config (oe_refresh demo_order_env) demo_cleared
    = (Inr (mo_report (rn_monitor demo_cleared), new_machine), demo_cleared)"
  by code_simp+

lemma demo_intent: "intent_request demo_portfolio_held demo_risk_order = Inr demo_ordered"
  by code_simp

lemma demo_order_decided: "decided demo_limits demo_ordered [] (rp_account demo_portfolio_held) = Inr \<lparr>rd_allowed = True,
  rd_quantity = 1, rd_reasons = [''WITHIN_LIMITS''], rd_notional = 7, rd_snapshot_id = Some ''s1''\<rparr>"
  by code_simp

lemma demo_order_gates:
  "increase_reasons (gates_now demo_cleared) demo_ordered = Inr []"
  "case approval_of demo_env demo_ordered [''WITHIN_LIMITS''] 1 7 demo_grant ''s1'' 2000 (Some (uuid_hex 7)) None (Some 7000) of
     Inr x \<Rightarrow> True | Inl e \<Rightarrow> False"
  "effective_risk_data_valid (rp_account demo_portfolio_held)"
  by code_simp+

lemma demo_ordered_fields:
  "rq_account_id demo_ordered = ar_account_id (rp_account demo_portfolio_held)" "rq_expires_at_ms demo_ordered = None"
  "rq_action demo_ordered = OPEN" "rq_quantity demo_ordered = 1" "rq_price demo_ordered = 7"
  "ar_snapshot_id (rp_account demo_portfolio_held) = ''s1''"
  "co_increase (rn_coordinator demo_cleared) = []" "co_writer (rn_coordinator demo_cleared) = demo_after"
  "rg_limits demo_config = demo_limits" "rg_port demo_config = mem_port" "rg_ttl_ms demo_config = 5000"
  by (simp_all add: demo_ordered_def demo_request_def demo_portfolio_held_def demo_facts_def demo_cleared_def
    demo_runtime_def demo_config_def)

lemma demo_order_approved: "\<exists>x c. approve demo_limits mem_port 5000 (gates_held demo_cleared demo_env) demo_ordered
    (rp_account demo_portfolio_held) (rn_coordinator demo_cleared) = (Inr x, c) \<and> ua_allowed x"
proof -
  let ?env = "gates_held demo_cleared demo_env"
  obtain x where x: "approval_of demo_env demo_ordered [''WITHIN_LIMITS''] 1 7 demo_grant ''s1'' 2000 (Some (uuid_hex 7)) None (Some 7000) = Inr x"
    using demo_order_gates(2) by (auto split: sum.splits)
  have env: "ae_now ?env = Inr 2000" "ae_writer_clocks ?env = (Inr 2000, Inr 2000, Inr 2000)"
    "ae_gates ?env = (gates_now demo_cleared, gates_now demo_cleared, gates_now demo_cleared)" "ae_locked_now ?env = Inr 2000"
    "ae_created_at ?env = Inr 2000" "ae_evaluated_at ?env = Inr 2000" "ae_token_uid ?env = 7"
    by (simp_all add: gates_held_def demo_env_def)
  have same: "approval_of ?env = approval_of demo_env" by (intro ext) (simp add: approval_of_def gates_held_def)
  have c: "(rn_coordinator demo_cleared)\<lparr>co_writer := demo_after\<rparr> = rn_coordinator demo_cleared"
    by (simp flip: demo_ordered_fields(8))
  have "requested_notional demo_ordered = 7" "dec_mul 1 7 = 7" by code_simp+
  moreover have "prune_increases 2000 (rn_coordinator demo_cleared) = (Inr 0, rn_coordinator demo_cleared)"
    by (simp add: prune_increases_def demo_cleared_def demo_runtime_def)
  ultimately have "\<exists>c. approve demo_limits mem_port 5000 ?env demo_ordered (rp_account demo_portfolio_held) (rn_coordinator demo_cleared) = (Inr x, c)"
    using x
    by (simp add: approve_def approve_increase_def gate_then_def with_writer_def on_writer_def env demo_ordered_fields demo_checked
        demo_order_gates demo_times demo_order_decided c same py_then_def py_bind_eq reserve_increase_def)
  then show ?thesis using approval_of_Inr(1) [OF x] by blast
qed

lemma demo_approves: "\<exists>x t. approve_order_from_facts demo_config (Inr 2000, Inr 1000) demo_order_env demo_env
    demo_account_facts demo_risk_order demo_runtime = (Inr x, t) \<and> ua_allowed x"
proof -
  obtain x c where "approve demo_limits mem_port 5000 (gates_held demo_cleared demo_env) demo_ordered
    (rp_account demo_portfolio_held) (rn_coordinator demo_cleared) = (Inr x, c)" "ua_allowed x"
    using demo_order_approved by blast
  then show ?thesis
    by (simp add: approve_order_from_facts_def approve_order_def demo_bound demo_intent py_bind_eq py_then_def on_approvals_def
      py_get_def demo_ordered_fields)
qed

theorem order_from_facts_cleared_witness:
  "\<exists>x t. approve_order_from_facts demo_config (Inr 2000, Inr 1000) demo_order_env demo_env demo_account_facts demo_risk_order
      demo_runtime = (Inr x, t) \<and> ua_allowed x \<and> rs_mode (rn_risk t) = MODE_NORMAL \<and> in_lease_valid (mo_inputs (rn_monitor t))"
proof -
  obtain x t where x: "approve_order_from_facts demo_config (Inr 2000, Inr 1000) demo_order_env demo_env
    demo_account_facts demo_risk_order demo_runtime = (Inr x, t)" "ua_allowed x" using demo_approves by blast
  have "increases_risk (on_action demo_risk_order)" by (simp add: demo_risk_order_def)
  from order_from_facts_cleared [OF x this] show ?thesis using x by blast
qed

end
