(* ===== verification/Spec2Isabelle.thy ===== *)
theory Spec2Isabelle
  imports Metadata Order_State Idempotency Kill_Switch Client_Order_Id Service_Properties Service_Facts
    Service_Outcomes Resolver_Properties Supervisor_Properties Group_Properties Service_Types
    Cancel_Replace Order_Ownership Database_Lease Single_Writer Outbox_Dispatcher Engine_Properties
    Hedge_Symbols Lock_Order Position_Lock Reduce_Reservations Risk_Properties
    Readiness_Gate Risk_Actions Risk_Commit Risk_Approval_Properties Risk_Confirm Risk_Approval_Demo
    Risk_Batch_Demo Lease_Runner Risk_Runtime_Demo
begin

text \<open>
  Verification library of the hedge trading subsystem, the part of the repository under
  \<open>freqtrade/hedge/\<close> that decides about and executes real orders. The upstream bot around it (exchange
  adapters, strategies, RPC, optimisation, research) is not modelled.

  \<^bold>\<open>The program.\<close> An order starts as an intent. \<open>HedgeExecutionEngine\<close> (\<open>execution/orchestrator.py\<close>)
  lets it pass its gates (expiry, readiness, single-writer leadership, market rules, position lock) and
  hands it to \<open>ExecutionService\<close> (\<open>execution/service.py\<close>), which asks risk and the kill switch, sends it
  to the exchange once, and keeps every order as a lifecycle (\<open>state_machine.py\<close>) in a store. An order
  whose fate is not known is UNKNOWN and blocks its leg until \<open>unknown_resolver.py\<close>, scheduled by
  \<open>unknown_supervisor.py\<close>, has found out. Outcomes are booked as fills in \<open>ledger.py\<close> and told to the
  rest of the system through an outbox. \<open>action_group.py\<close> and \<open>cancel_replace.py\<close> compose several orders.
  \<open>concurrency/\<close> keeps one writer per account and orders the locks; \<open>risk/\<close> sizes every increase by
  the configured limits and every reduction by the confirmed position.

  \<^bold>\<open>The theories.\<close>
  \<^item> \<open>Hedge_Prelude\<close>: exceptions as values with their classes, \<open>'a res\<close> (a result or an exception) and
    \<open>('s, 'a) py\<close> (a computation that may raise and change the state, also when it raises), dictionaries
    as association lists in insertion order, and the locales in which "every operation moves the state
    along a preorder" is proved once for all combinators. \<open>Py_Values\<close>: text, decimals, times.
  \<^item> \<open>Metadata\<close>, \<open>Order_State\<close>, \<open>Idempotency\<close>, \<open>Kill_Switch\<close>, \<open>Client_Order_Id\<close>: the modules of that name
    under \<open>execution/\<close>. \<open>Execution_Data\<close>, \<open>Execution_Store\<close>, \<open>Execution_Service\<close>, \<open>Execution_Control\<close>:
    \<open>service.py\<close> in its order: data classes, store and audit log, submission and merging of exchange
    facts, control operations. Exchange, risk, clock, audit and metric ports are arguments over an
    arbitrary environment. \<open>Service_Steps\<close>, \<open>Service_Submit\<close>, \<open>Service_Safety\<close> and \<open>Service_Runs\<close> hold the
    lemmas: what an operation does to the store, what is sent, and that every history keeps both;
    \<open>Service_Properties\<close>, \<open>Service_Facts\<close>, \<open>Service_Outcomes\<close>, \<open>Service_Types\<close> the properties;
    \<open>Service_Demo\<close> the environment in which they are evaluated.
  \<^item> \<open>Unknown_Resolver\<close>, \<open>Unknown_Supervisor\<close> with \<open>Resolver_Properties\<close> and \<open>Supervisor_Properties\<close>;
    \<open>Action_Group\<close> with \<open>Group_Properties\<close>; \<open>Cancel_Replace\<close>; \<open>Order_Ownership\<close>.
  \<^item> \<open>Contract_Types\<close> (\<open>contracts/types.py\<close>, \<open>events.py\<close>), \<open>Execution_Ledger\<close> (\<open>ledger.py\<close>),
    \<open>Outbox_Dispatcher\<close>, \<open>Execution_Engine\<close> (\<open>orchestrator.py\<close>, \<open>contracts/ports.py\<close>) with
    \<open>Engine_Steps\<close>, \<open>Engine_Demo\<close> and \<open>Engine_Properties\<close>: the composition of all the above.
  \<^item> \<open>Database_Lease\<close> (two lease stores, and that the SQLite one implements the other), \<open>Single_Writer\<close>
    (the guard over either, by a locale of the laws of a lease store), \<open>Lease_Runner\<close>
    (\<open>lease_runner.py\<close>: the thread that keeps the lease is a sequence of its rounds).
  \<^item> \<open>Hedge_Symbols\<close> (\<open>symbols.py\<close>, \<open>exchange/symbol_codec.py\<close>); \<open>Lock_Order\<close> (\<open>lock_order.py\<close>,
    \<open>hierarchy.py\<close>; the locale \<open>ordered_locking\<close> states what a check must guarantee, both managers'
    checks are interpreted in it); \<open>Position_Lock\<close> and \<open>Reduce_Reservations\<close> (\<open>position_lock.py\<close>).
  \<^item> \<open>Risk_Numeric\<close> (\<open>numeric.py\<close>, \<open>local_reduce_only.py\<close>, and how far rounding moves a value),
    \<open>Risk_Models\<close> (\<open>risk/limits.py\<close>, \<open>models.py\<close>, \<open>liquidation.py\<close>), \<open>Risk_Portfolio\<close>, \<open>Risk_Engine\<close>
    and \<open>Risk_Properties\<close>.
  \<^item> \<open>Readiness\<close> (\<open>identity.py\<close> and \<open>readiness/\<close>: the checks, the gate, the monitor) with
    \<open>Readiness_Gate\<close>; \<open>Risk_Actions\<close> (the action state machine of \<open>risk/actions.py\<close> and its synchronisation
    with readiness); \<open>Risk_Commit\<close> (\<open>risk/commit.py\<close>; the locales \<open>commit_store\<close> and \<open>atomic_store\<close> state
    what a store of accepted approvals promises); \<open>Risk_Approval\<close> (the approval coordinator of
    \<open>risk/actions.py\<close>, \<open>risk/emergency.py\<close>) with \<open>Risk_Approval_Facts\<close>, \<open>Risk_Approval_Properties\<close>,
    \<open>Risk_Confirm\<close>, \<open>Risk_Batch\<close> (the confirmation of a whole batch) and the inputs on which they are
    evaluated in \<open>Risk_Approval_Demo\<close> and \<open>Risk_Batch_Demo\<close>; \<open>Risk_Runtime\<close> (\<open>risk/facts.py\<close> and
    \<open>risk/runtime.py\<close>: account facts, readiness, risk state, coordinator and lease runner composed) with
    \<open>Risk_Runtime_Properties\<close> and \<open>Risk_Runtime_Demo\<close>.

  \<^bold>\<open>State and steps.\<close> A component's state is a record; an operation takes it and returns the changed one
  with its result. What the code does under one lock is one step. Where threads matter (guards,
  supervisors, lock managers) a run is a list of steps of any number of threads in any order, and a
  property holds after every run. A history of the service or the engine may contain operations that
  raise. Code outside the repository (exchange, risk port of the service, clock, database engine,
  sha256, uuid) is an argument; where a property relies on it, a named hypothesis says on what.

  \<^bold>\<open>Values.\<close> A \<open>Decimal\<close> is a rational, or an infinity or NaN where it is still unchecked; every
  arithmetic operation of the code rounds half even to 28 digits as the default context does.
  Exponents stay far inside the context's limits, so overflow and underflow of decimals do not occur.
  Bounds that compare a product with a quotient therefore allow one part in \<open>2 * 10 ^ 27\<close>; exactness is
  stated for values on a decimal grid. Times are integers of microseconds or, for the monotonic clock,
  of any linear order. Text is over the 256 Latin-1 code points.

  \<^bold>\<open>Termination.\<close> All definitions are total; nothing runs on fuel. The loops of the code are structural
  recursion over the lists they traverse; the digits of a number and the walk along waiting threads
  are recursive functions with their measures. That retries end is a property (the number of attempts
  is bounded), not an assumption.

  \<^bold>\<open>What the properties show.\<close> At most one submission per client order id, each one cleared by every
  gate; stored orders are well typed and only move forward; resolutions are sound and recovery is
  bounded; positions are the replay of their fills; no event is lost; one valid writer; no circle of
  waits; increases within every limit, reductions within the position; approvals that pass every gate,
  count what is already reserved and give capacity back only for durable evidence, one by one and in
  batches; orders from account facts only on complete facts and an open gate; readiness and halt
  states that open exactly when they should; and a number of closed
  theorems on inputs where the code does not do what it means to.

  \<^bold>\<open>Not modelled.\<close> The lease store over SQLAlchemy, whose behaviour lies in the database driver;
  \<open>lock_many\<close> and the sorted reservation view; the canonical form of JSON texts; planning, simulation,
  reconciliation and integration; dictionary views (\<open>as_dict\<close>) and type checks of arguments
  that the static types exclude; the values of generated ids beyond their form; logging. Within one
  call of the risk runtime no other thread acts; what others do between the readings of an approval is
  covered by \<open>Risk_Approval\<close>, where each reading is an argument.
\<close>

end
